(* ===== verification/Firmware_Prelude.thy ===== *)
theory Firmware_Prelude
  imports Main "HOL-Library.Word"
begin

text \<open>
  Shared vocabulary of the development: the machine integers of the firmware as words, wire
  data as lists of octets, \<open>std::string\<close> as HOL strings, the searches the C++ code performs
  on views and strings, and the byte-order conversions of the protocols. The generic lemmas
  about them are declared \<open>[simp]\<close> or collected in \<open>octet_simps\<close> and \<open>search_simps\<close>.
\<close>

unbundle bit_operations_syntax

named_theorems octet_simps
named_theorems search_simps

section \<open>Machine integers and byte containers\<close>

text \<open>
  \<open>std::uint8_t\<close> to \<open>std::uint64_t\<close> are words of their width, so \<open>+\<close>, \<open>-\<close> and \<open>*\<close> wrap as in
  C++. \<open>std::size_t\<close> values are container sizes and offsets into them: \<open>nat\<close>.
\<close>

type_synonym u8 = "8 word"
type_synonym u16 = "16 word"
type_synonym u32 = "32 word"
type_synonym u64 = "64 word"

type_synonym bytes = "u8 list"

section \<open>Strings and octets\<close>

text \<open>
  The code moves between \<open>std::string\<close> and byte views by \<open>reinterpret_cast\<close>; both conversions
  are the identity on the eight bits.
\<close>

definition octet :: "char \<Rightarrow> u8" where
  "octet c = of_nat (of_char c)"

definition chr_of :: "u8 \<Rightarrow> char" where
  "chr_of b = char_of (unat b)"

abbreviation octets :: "string \<Rightarrow> bytes" where
  "octets s \<equiv> map octet s"

abbreviation chars :: "bytes \<Rightarrow> string" where
  "chars bs \<equiv> map chr_of bs"

lemma chr_of_octet [simp]: "chr_of (octet c) = c"
  by (simp add: octet_def chr_of_def unat_of_nat)

lemma octet_chr_of [simp]: "octet (chr_of b) = b"
proof -
  have "unat b < 2 ^ 8"
    using unsigned_less [of b] by simp
  then have "unat b mod 256 = unat b"
    by simp
  then show ?thesis
    by (simp add: octet_def chr_of_def)
qed

lemma octet_eq_iff [simp]: "octet c = octet d \<longleftrightarrow> c = d"
  by (metis chr_of_octet)

lemma chr_of_eq_iff [simp]: "chr_of a = chr_of b \<longleftrightarrow> a = b"
  by (metis octet_chr_of)

lemma chars_octets [simp]: "chars (octets s) = s"
  by (simp add: comp_def)

lemma octets_chars [simp]: "octets (chars bs) = bs"
  by (simp add: comp_def)

section \<open>Byte order\<close>

text \<open>
  \<open>byte_at w n\<close> is \<open>static_cast<std::uint8_t>(w >> 8n)\<close>; \<open>be16\<close>, \<open>be32\<close> and \<open>le32\<close> are the
  shifted unions that read multi-byte fields back.
\<close>

definition byte_at :: "'a::len word \<Rightarrow> nat \<Rightarrow> u8" where
  "byte_at w n = ucast (drop_bit (8 * n) w)"

definition be16 :: "u8 \<Rightarrow> u8 \<Rightarrow> u16" where
  "be16 a b = push_bit 8 (ucast a) OR ucast b"

definition be32 :: "u8 \<Rightarrow> u8 \<Rightarrow> u8 \<Rightarrow> u8 \<Rightarrow> u32" where
  "be32 a b c d =
     push_bit 24 (ucast a) OR push_bit 16 (ucast b) OR push_bit 8 (ucast c) OR ucast d"

abbreviation le32 :: "u8 \<Rightarrow> u8 \<Rightarrow> u8 \<Rightarrow> u8 \<Rightarrow> u32" where
  "le32 a b c d \<equiv> be32 d c b a"

lemma bit_u8_high [octet_simps]: "8 \<le> n \<Longrightarrow> \<not> bit (w :: u8) n"
  using bit_imp_le_length by fastforce

lemma bit_byte_at [octet_simps]:
  "bit (byte_at w n) k \<longleftrightarrow> k < 8 \<and> bit w (8 * n + k)"
  by (auto simp: byte_at_def bit_simps)

lemma bit_be16 [octet_simps]:
  "bit (be16 a b) k \<longleftrightarrow> (if k < 8 then bit b k else bit a (k - 8))"
  by (auto simp: be16_def bit_simps dest: bit_imp_le_length)

lemma bit_be32 [octet_simps]:
  "bit (be32 a b c d) k \<longleftrightarrow>
     (if k < 8 then bit d k else if k < 16 then bit c (k - 8)
      else if k < 24 then bit b (k - 16) else bit a (k - 24))"
  by (auto simp: be32_def bit_simps dest: bit_imp_le_length)

lemma be16_byte_at [simp]: "be16 (byte_at w (Suc 0)) (byte_at w 0) = (w :: u16)"
  by (rule bit_word_eqI) (auto simp: octet_simps)

lemma be32_byte_at [simp]:
  "be32 (byte_at w 3) (byte_at w 2) (byte_at w (Suc 0)) (byte_at w 0) = (w :: u32)"
  by (rule bit_word_eqI) (auto simp: octet_simps)

lemma byte_at_be16 [simp]:
  "byte_at (be16 a b) (Suc 0) = a" "byte_at (be16 a b) 0 = b"
  by (rule bit_word_eqI; simp add: octet_simps)+

lemma byte_at_be32 [simp]:
  "byte_at (be32 a b c d) 3 = a" "byte_at (be32 a b c d) 2 = b"
  "byte_at (be32 a b c d) (Suc 0) = c" "byte_at (be32 a b c d) 0 = d"
  by (rule bit_word_eqI; simp add: octet_simps)+

lemma word_xor_cancel [simp]:
  fixes a b c :: "'a::len word"
  shows "a XOR c = b XOR c \<longleftrightarrow> a = b" and "c XOR a = c XOR b \<longleftrightarrow> a = b"
  by (metis xor.assoc xor.right_neutral xor_self_eq, metis xor.assoc xor.left_neutral xor_self_eq)

lemma unat_u16_less: "unat (w :: u16) < 65536"
  using unsigned_less [of w, where ?'a = nat] by simp

lemma unat_u8_less: "unat (w :: u8) < 256"
  using unsigned_less [of w, where ?'a = nat] by simp

lemma unat_u32_less: "unat (w :: u32) < 4294967296"
  using unsigned_less [of w, where ?'a = nat] by simp

lemma ucast_octet_eq_iff:
  fixes a b :: u8
  assumes "8 \<le> LENGTH('a::len)"
  shows "(ucast a :: 'a word) = ucast b \<longleftrightarrow> a = b"
proof
  assume eq: "(ucast a :: 'a word) = ucast b"
  have "ucast (ucast w :: 'a word) = w" for w :: u8
    using assms by (intro bit_word_eqI) (auto simp: bit_simps)
  with eq show "a = b" by metis
qed simp

section \<open>Stretches of a container\<close>

lemma upt_small:
  "[0..<1] = [0::nat]" "[0..<2] = [0::nat, 1]" "[0..<3] = [0::nat, 1, 2]" "[0..<4] = [0::nat, 1, 2, 3]"
  by (simp_all add: upt_rec)

lemma take_drop_nth:
  "offset + n \<le> length xs \<Longrightarrow> take n (drop offset xs) = map (\<lambda>i. xs ! (offset + i)) [0..<n]"
  by (rule nth_equalityI) simp_all

section \<open>Searches\<close>

text \<open>\<open>std::equal\<close> of a pattern against the front of a view that is long enough.\<close>

definition starts_with :: "'a list \<Rightarrow> 'a list \<Rightarrow> bool" where
  "starts_with pat xs \<longleftrightarrow> length pat \<le> length xs \<and> take (length pat) xs = pat"

lemma starts_with_append [simp]: "starts_with pat (pat @ xs)"
  by (simp add: starts_with_def)

lemma starts_with_iff: "starts_with pat xs \<longleftrightarrow> (\<exists>ys. xs = pat @ ys)"
  by (auto simp: starts_with_def) (metis append_take_drop_id)

lemma starts_with_Nil [simp]: "starts_with [] xs"
  by (simp add: starts_with_def)

lemma starts_with_Cons [simp]:
  "starts_with (p # ps) (x # xs) \<longleftrightarrow> p = x \<and> starts_with ps xs"
  by (auto simp: starts_with_def)

lemma starts_with_Cons_Nil [simp]: "\<not> starts_with (p # ps) []"
  by (simp add: starts_with_def)

text \<open>\<open>find(character)\<close> and \<open>find(pattern)\<close>: the first position, or \<open>npos\<close> as \<open>None\<close>.\<close>

fun find_char :: "'a \<Rightarrow> 'a list \<Rightarrow> nat option" where
  "find_char c [] = None"
| "find_char c (x # xs) = (if x = c then Some 0 else map_option Suc (find_char c xs))"

fun find_sub :: "'a list \<Rightarrow> 'a list \<Rightarrow> nat option" where
  "find_sub pat [] = (if pat = [] then Some 0 else None)"
| "find_sub pat (x # xs) =
     (if starts_with pat (x # xs) then Some 0 else map_option Suc (find_sub pat xs))"

text \<open>\<open>rfind(pattern)\<close>: the last position.\<close>

fun rfind_sub :: "'a list \<Rightarrow> 'a list \<Rightarrow> nat option" where
  "rfind_sub pat [] = (if pat = [] then Some 0 else None)"
| "rfind_sub pat (x # xs) =
     (case rfind_sub pat xs of
        Some n \<Rightarrow> Some (Suc n)
      | None \<Rightarrow> (if starts_with pat (x # xs) then Some 0 else None))"

lemma find_char_None [search_simps]: "find_char c xs = None \<longleftrightarrow> c \<notin> set xs"
  by (induction xs) auto

lemma find_char_Some:
  "find_char c xs = Some n \<Longrightarrow>
     n < length xs \<and> xs ! n = c \<and> c \<notin> set (take n xs)"
proof (induction xs arbitrary: n)
  case Nil
  then show ?case by simp
next
  case (Cons x xs)
  then show ?case
    by (cases n) (auto split: if_splits)
qed

lemma find_char_append [search_simps]:
  "c \<notin> set xs \<Longrightarrow> find_char c (xs @ c # ys) = Some (length xs)"
  by (induction xs) auto

lemma find_char_notin_append [search_simps]:
  "c \<notin> set xs \<Longrightarrow> find_char c (xs @ ys) = map_option (\<lambda>n. length xs + n) (find_char c ys)"
  by (cases "find_char c ys"; induction xs) auto

lemma find_sub_None:
  "find_sub pat xs = None \<Longrightarrow> \<not> starts_with pat (drop n xs)"
proof (induction xs arbitrary: n)
  case Nil
  then show ?case
    by (cases pat) (auto split: if_splits)
next
  case (Cons x xs)
  then show ?case
    by (cases n) (auto split: if_splits)
qed

lemma find_sub_Some:
  "find_sub pat xs = Some n \<Longrightarrow>
     n \<le> length xs \<and> starts_with pat (drop n xs) \<and>
     (\<forall>m<n. \<not> starts_with pat (drop m xs))"
proof (induction xs arbitrary: n)
  case Nil
  then show ?case
    by (auto split: if_splits)
next
  case (Cons x xs)
  show ?case
  proof (cases "starts_with pat (x # xs)")
    case True
    with Cons.prems show ?thesis by auto
  next
    case False
    with Cons.prems obtain k where k: "find_sub pat xs = Some k" "n = Suc k"
      by auto
    have "\<not> starts_with pat (drop m (x # xs))" if "m < n" for m
      using that False Cons.IH [OF k(1)] k(2) by (cases m) auto
    with Cons.IH [OF k(1)] k(2) show ?thesis by auto
  qed
qed

lemma find_sub_bound: "find_sub pat xs = Some n \<Longrightarrow> n + length pat \<le> length xs"
  using find_sub_Some [of pat xs n] by (auto simp: starts_with_def)

lemma starts_with_append_long:
  "length pat \<le> length xs \<Longrightarrow> starts_with pat (xs @ ys) = starts_with pat xs"
  by (simp add: starts_with_def)

lemma find_sub_append_Some: "find_sub pat xs = Some n \<Longrightarrow> find_sub pat (xs @ ys) = Some n"
proof (induction xs arbitrary: n)
  case Nil
  then have "pat = []" "n = 0" by (auto split: if_splits)
  then show ?case by (cases ys) simp_all
next
  case (Cons x xs)
  show ?case
  proof (cases "starts_with pat (x # xs)")
    case True
    then have "starts_with pat (x # xs @ ys)"
      using starts_with_append_long [of pat "x # xs" ys] by (simp add: starts_with_def)
    with True Cons.prems show ?thesis by simp
  next
    case False
    with Cons.prems obtain k where k: "find_sub pat xs = Some k" "n = Suc k" by auto
    from False have "\<not> starts_with pat (x # xs @ ys)"
      using starts_with_append_long [of pat "x # xs" ys] find_sub_bound [OF k(1)] by simp
    with Cons.IH [OF k(1)] k(2) show ?thesis by simp
  qed
qed

lemma find_sub_skip:
  "(\<And>m. m < length c \<Longrightarrow> \<not> starts_with pat (drop m (c @ zs))) \<Longrightarrow>
     find_sub pat (c @ zs) = map_option (\<lambda>n. length c + n) (find_sub pat zs)"
proof (induction c)
  case Nil
  show ?case by (cases "find_sub pat zs") simp_all
next
  case (Cons x c)
  have "\<not> starts_with pat (x # c @ zs)"
    using Cons.prems [of 0] by simp
  moreover have "\<not> starts_with pat (drop m (c @ zs))" if "m < length c" for m
    using Cons.prems [of "Suc m"] that by simp
  ultimately show ?case
    using Cons.IH by (cases "find_sub pat zs") simp_all
qed

end
