(* ===== verification/Object_Store.thy ===== *)
theory Object_Store
  imports Firmware_Prelude
begin

text \<open>
  The interface the CANopen services rely on: a keyed store with reads and fallible writes. The
  laws are the usual ones of a map, except that a write may also disturb the keys it is related
  to by \<open>disturbs\<close>. The lemmas extend them to a sequence of writes, which is what a receive PDO
  and a client session perform.
\<close>

text \<open>A sequence of writes, abandoned at the first refusal.\<close>

fun put_all :: "('d \<Rightarrow> 'k \<Rightarrow> 'x \<Rightarrow> 'd option) \<Rightarrow> 'd \<Rightarrow> ('k \<times> 'x) list \<Rightarrow> 'd option" where
  "put_all wr d [] = Some d"
| "put_all wr d ((k, x) # kxs) =
     (case wr d k x of None \<Rightarrow> None | Some d' \<Rightarrow> put_all wr d' kxs)"

text \<open>The later keys of a sequence are neither equal to nor disturbed by an earlier one.\<close>

fun separate :: "('k \<Rightarrow> 'k \<Rightarrow> bool) \<Rightarrow> 'k list \<Rightarrow> bool" where
  "separate disturbs [] = True"
| "separate disturbs (k # ks) \<longleftrightarrow>
     (\<forall>k' \<in> set ks. k' \<noteq> k \<and> \<not> disturbs k' k) \<and> separate disturbs ks"

locale object_store =
  fixes rd :: "'d \<Rightarrow> 'k \<Rightarrow> 'x option"
    and wr :: "'d \<Rightarrow> 'k \<Rightarrow> 'x \<Rightarrow> 'd option"
    and disturbs :: "'k \<Rightarrow> 'k \<Rightarrow> bool"
    and inv :: "'d \<Rightarrow> bool"
  assumes wr_inv: "inv d \<Longrightarrow> wr d k x = Some d' \<Longrightarrow> inv d'"
    and rd_written: "inv d \<Longrightarrow> wr d k x = Some d' \<Longrightarrow> rd d' k = Some x"
    and rd_other: "inv d \<Longrightarrow> wr d k x = Some d' \<Longrightarrow> k' \<noteq> k \<Longrightarrow> \<not> disturbs k k' \<Longrightarrow> rd d' k' = rd d k'"
begin

lemma put_all_inv: "inv d \<Longrightarrow> put_all wr d kxs = Some d' \<Longrightarrow> inv d'"
  by (induction kxs arbitrary: d) (auto split: option.splits, metis wr_inv)

lemma put_all_other:
  "inv d \<Longrightarrow> put_all wr d kxs = Some d' \<Longrightarrow>
     \<forall>k \<in> fst ` set kxs. k \<noteq> k' \<and> \<not> disturbs k k' \<Longrightarrow> rd d' k' = rd d k'"
proof (induction kxs arbitrary: d)
  case (Cons kx kxs)
  obtain k x where kx: "kx = (k, x)" by fastforce
  then obtain e where e: "wr d k x = Some e" "put_all wr e kxs = Some d'"
    using Cons.prems by (auto split: option.splits)
  have "rd d' k' = rd e k'"
    using Cons.prems e by (intro Cons.IH) (auto intro: wr_inv)
  also have "\<dots> = rd d k'"
    by (rule rd_other [OF Cons.prems(1) e(1)]) (use Cons.prems kx in auto)
  finally show ?case .
qed simp

text \<open>Every value of the sequence is in the store afterwards.\<close>

lemma put_all_read:
  "inv d \<Longrightarrow> put_all wr d kxs = Some d' \<Longrightarrow> separate disturbs (map fst kxs) \<Longrightarrow>
     (k, x) \<in> set kxs \<Longrightarrow> rd d' k = Some x"
proof (induction kxs arbitrary: d)
  case (Cons kx kxs)
  obtain l y where kx: "kx = (l, y)" by fastforce
  then obtain e where e: "wr d l y = Some e" "put_all wr e kxs = Some d'"
    using Cons.prems by (auto split: option.splits)
  have inv: "inv e"
    by (rule wr_inv [OF Cons.prems(1) e(1)])
  show ?case
  proof (cases "(k, x) \<in> set kxs")
    case True
    then show ?thesis
      using Cons.IH [OF inv e(2)] Cons.prems(3) kx by simp
  next
    case False
    then have "k = l" "x = y"
      using Cons.prems(4) kx by auto
    then show ?thesis
      using put_all_other [OF inv e(2), of k] rd_written [OF Cons.prems(1) e(1)] Cons.prems(3) kx
      by fastforce
  qed
qed simp

end

end
