(* ===== verification/Canopen_Dictionary.thy ===== *)
theory Canopen_Dictionary
  imports Object_Store
begin

text \<open>
  The local CANopen object dictionary, \<open>components/core/src/can/canopen_dictionary.cpp\<close>: one
  record field per stored object, the table of entries with their access metadata, and the SDO
  reads and writes with their abort codes. The lemmas show that the store keeps its array
  bounds, that a refused write changes nothing, and that an accepted one is read back exactly
  and disturbs no other object, the error history apart.
\<close>

section \<open>Abort codes and metadata\<close>

datatype sdo_abort =
    Sdo_none | Toggle_bit | Timeout | Command_specifier | Block_size | Block_sequence
  | Block_crc | Resources | Unsupported_access | Write_only | Read_only | Object_not_found
  | Pdo_mapping | Pdo_length | Pdo_parameter | Type_mismatch | Value_range
  | Subindex_not_found

fun sdo_abort_code :: "sdo_abort \<Rightarrow> u32" where
  "sdo_abort_code Sdo_none = 0x00000000"
| "sdo_abort_code Toggle_bit = 0x05030000"
| "sdo_abort_code Timeout = 0x05040000"
| "sdo_abort_code Command_specifier = 0x05040001"
| "sdo_abort_code Block_size = 0x05040002"
| "sdo_abort_code Block_sequence = 0x05040003"
| "sdo_abort_code Block_crc = 0x05040004"
| "sdo_abort_code Resources = 0x05040005"
| "sdo_abort_code Unsupported_access = 0x06010000"
| "sdo_abort_code Write_only = 0x06010001"
| "sdo_abort_code Read_only = 0x06010002"
| "sdo_abort_code Object_not_found = 0x06020000"
| "sdo_abort_code Pdo_mapping = 0x06040041"
| "sdo_abort_code Pdo_length = 0x06040042"
| "sdo_abort_code Pdo_parameter = 0x06040043"
| "sdo_abort_code Type_mismatch = 0x06070010"
| "sdo_abort_code Value_range = 0x06090030"
| "sdo_abort_code Subindex_not_found = 0x06090011"

record object_permissions =
  size_bits :: u8
  writable :: bool
  tpdo_mappable :: bool
  rpdo_mappable :: bool

record dictionary_read_result =
  read_abort :: sdo_abort
  read_data :: bytes

record dictionary_write_effects =
  producer_heartbeat_effect :: "u16 option"
  digital_output_effect :: "u32 option"

definition no_effects :: dictionary_write_effects where
  "no_effects = \<lparr>producer_heartbeat_effect = None, digital_output_effect = None\<rparr>"

record dictionary_write_result =
  write_abort :: sdo_abort
  write_effects :: dictionary_write_effects

record dictionary_entry =
  entry_value :: u32
  entry_permissions :: object_permissions

record pdo_communication =
  pdo_identifier :: u32
  transmission_type :: u8
  inhibit_time :: u16
  event_timer :: u16
  sync_start :: u8

section \<open>The store\<close>

record dictionary =
  od_error_register :: u8
  od_error_history :: "u32 list"
  od_error_history_count :: u8
  od_sync_identifier :: u32
  od_sync_period :: u32
  od_sync_window :: u32
  od_time_identifier :: u32
  od_emergency_identifier :: u32
  od_emergency_inhibit_time :: u16
  od_heartbeat_period :: u16
  od_sync_counter_overflow :: u8
  od_store_parameters :: "u32 list"
  od_restore_parameters :: "u32 list"
  od_consumer_heartbeats :: "u32 list"
  od_sdo_client_request_identifier :: u32
  od_sdo_client_response_identifier :: u32
  od_sdo_client_node_id :: u8
  od_rpdo_communication :: "pdo_communication list"
  od_rpdo_mapping_count :: "u8 list"
  od_rpdo_mapping :: "u32 list list"
  od_tpdo_communication :: "pdo_communication list"
  od_tpdo_mapping_count :: "u8 list"
  od_tpdo_mapping :: "u32 list list"
  od_digital_output :: u32

text \<open>Object indexes of the namespace \<open>canopen_object\<close> that begin a range of four.\<close>

abbreviation first_rpdo_communication :: u16 where "first_rpdo_communication \<equiv> 0x1400"
abbreviation first_rpdo_mapping :: u16 where "first_rpdo_mapping \<equiv> 0x1600"
abbreviation first_tpdo_communication :: u16 where "first_tpdo_communication \<equiv> 0x1800"
abbreviation first_tpdo_mapping :: u16 where "first_tpdo_mapping \<equiv> 0x1a00"

abbreviation disabled_identifier_mask :: u32 where "disabled_identifier_mask \<equiv> 0x80000000"

definition new_dictionary :: dictionary where
  "new_dictionary =
     \<lparr>od_error_register = 0,
      od_error_history = replicate 16 0,
      od_error_history_count = 0,
      od_sync_identifier = 0x80,
      od_sync_period = 0,
      od_sync_window = 0,
      od_time_identifier = 0x100,
      od_emergency_identifier = 0x80,
      od_emergency_inhibit_time = 0,
      od_heartbeat_period = 0,
      od_sync_counter_overflow = 0,
      od_store_parameters = replicate 4 1,
      od_restore_parameters = replicate 4 1,
      od_consumer_heartbeats = replicate 8 0,
      od_sdo_client_request_identifier = disabled_identifier_mask,
      od_sdo_client_response_identifier = disabled_identifier_mask,
      od_sdo_client_node_id = 1,
      od_rpdo_communication =
        map (\<lambda>offset. \<lparr>pdo_identifier = 0x80000200 + 0x100 * of_nat offset,
               transmission_type = 0xfe, inhibit_time = 0, event_timer = 0, sync_start = 0\<rparr>)
          [0..<4],
      od_rpdo_mapping_count = replicate 4 0,
      od_rpdo_mapping = replicate 4 (replicate 8 0),
      od_tpdo_communication =
        map (\<lambda>offset. \<lparr>pdo_identifier = 0xc0000180 + 0x100 * of_nat offset,
               transmission_type = 0xfe, inhibit_time = 0, event_timer = 0, sync_start = 0\<rparr>)
          [0..<4],
      od_tpdo_mapping_count = replicate 4 0,
      od_tpdo_mapping = replicate 4 (replicate 8 0),
      od_digital_output = 0\<rparr>"

text \<open>The C++ arrays have fixed sizes.\<close>

definition wf_dictionary :: "dictionary \<Rightarrow> bool" where
  "wf_dictionary d \<longleftrightarrow>
     length (od_error_history d) = 16 \<and>
     length (od_store_parameters d) = 4 \<and> length (od_restore_parameters d) = 4 \<and>
     length (od_consumer_heartbeats d) = 8 \<and>
     length (od_rpdo_communication d) = 4 \<and> length (od_rpdo_mapping_count d) = 4 \<and>
     map length (od_rpdo_mapping d) = replicate 4 8 \<and>
     length (od_tpdo_communication d) = 4 \<and> length (od_tpdo_mapping_count d) = 4 \<and>
     map length (od_tpdo_mapping d) = replicate 4 8"

section \<open>Scalars\<close>

definition access :: "u8 \<Rightarrow> bool \<Rightarrow> bool \<Rightarrow> bool \<Rightarrow> object_permissions" where
  "access bits wr tpdo rpdo =
     \<lparr>size_bits = bits, writable = wr, tpdo_mappable = tpdo, rpdo_mappable = rpdo\<rparr>"

definition encode_little_endian :: "u32 \<Rightarrow> u8 \<Rightarrow> bytes" where
  "encode_little_endian value bits = map (byte_at value) [0..<unat bits div 8]"

definition decode_little_endian :: "bytes \<Rightarrow> u32" where
  "decode_little_endian data =
     fold (\<lambda>(offset, b) value. value OR push_bit (8 * offset) (ucast b)) (enumerate 0 data) 0"

definition in_four_object_range :: "u16 \<Rightarrow> u16 \<Rightarrow> bool" where
  "in_four_object_range index first \<longleftrightarrow> first \<le> index \<and> unat index < unat first + 4"

section \<open>Entries\<close>

definition entry_of :: "u32 \<Rightarrow> object_permissions \<Rightarrow> dictionary_entry option" where
  "entry_of value perm = Some \<lparr>entry_value = value, entry_permissions = perm\<rparr>"

text \<open>The second half of the table: the PDO ranges and the digital objects.\<close>

definition pdo_entry :: "dictionary \<Rightarrow> u16 \<Rightarrow> u8 \<Rightarrow> dictionary_entry option" where
  "pdo_entry d index subindex =
     (let bits_u8 = 8; bits_u16 = 16; bits_u32 = 32; sub = unat subindex
      in
      if in_four_object_range index first_rpdo_communication then
        (let pdo = od_rpdo_communication d ! (unat index - unat first_rpdo_communication)
         in if subindex = 0 then entry_of 5 (access bits_u8 False False False)
            else if subindex = 1 then
              entry_of (pdo_identifier pdo) (access bits_u32 True False False)
            else if subindex = 2 then
              entry_of (ucast (transmission_type pdo)) (access bits_u8 True False False)
            else if subindex = 5 then
              entry_of (ucast (event_timer pdo)) (access bits_u16 True False False)
            else None)
      else if in_four_object_range index first_rpdo_mapping then
        (let offset = unat index - unat first_rpdo_mapping
         in if subindex = 0 then
              entry_of (ucast (od_rpdo_mapping_count d ! offset)) (access bits_u8 True False False)
            else if sub \<le> 8 then
              entry_of (od_rpdo_mapping d ! offset ! (sub - 1)) (access bits_u32 True True True)
            else None)
      else if in_four_object_range index first_tpdo_communication then
        (let pdo = od_tpdo_communication d ! (unat index - unat first_tpdo_communication)
         in if subindex = 0 then entry_of 6 (access bits_u8 False False False)
            else if subindex = 1 then
              entry_of (pdo_identifier pdo) (access bits_u32 True False False)
            else if subindex = 2 then
              entry_of (ucast (transmission_type pdo)) (access bits_u8 True False False)
            else if subindex = 3 then
              entry_of (ucast (inhibit_time pdo)) (access bits_u16 True False False)
            else if subindex = 5 then
              entry_of (ucast (event_timer pdo)) (access bits_u16 True False False)
            else if subindex = 6 then
              entry_of (ucast (sync_start pdo)) (access bits_u8 True False False)
            else None)
      else if in_four_object_range index first_tpdo_mapping then
        (let offset = unat index - unat first_tpdo_mapping
         in if subindex = 0 then
              entry_of (ucast (od_tpdo_mapping_count d ! offset)) (access bits_u8 True False False)
            else if sub \<le> 8 then
              entry_of (od_tpdo_mapping d ! offset ! (sub - 1)) (access bits_u32 True True True)
            else None)
      else if index = 0x6000 \<or> index = 0x6001 then
        (if subindex = 0 then entry_of 1 (access bits_u8 False False False)
         else if subindex \<noteq> 1 then None
         else if index = 0x6000 then entry_of 0 (access bits_u32 False True False)
         else entry_of (od_digital_output d) (access bits_u32 True False True))
      else None)"

definition entry :: "dictionary \<Rightarrow> u16 \<Rightarrow> u8 \<Rightarrow> dictionary_entry option" where
  "entry d index subindex =
     (let bits_u8 = 8; bits_u16 = 16; bits_u32 = 32; sub = unat subindex;
          scalar = (\<lambda>value perm. if subindex = 0 then entry_of value perm else None)
      in
      if index = 0x1000 then scalar 0 (access bits_u32 False False False)
      else if index = 0x1001 then
        scalar (ucast (od_error_register d)) (access bits_u8 False True False)
      else if index = 0x1003 then
        (if subindex = 0 then
           entry_of (ucast (od_error_history_count d)) (access bits_u8 True False False)
         else if sub \<le> length (od_error_history d) then
           entry_of (od_error_history d ! (sub - 1)) (access bits_u32 False False False)
         else None)
      else if index = 0x1005 then scalar (od_sync_identifier d) (access bits_u32 True False False)
      else if index = 0x1006 then scalar (od_sync_period d) (access bits_u32 True False False)
      else if index = 0x1007 then scalar (od_sync_window d) (access bits_u32 True False False)
      else if index = 0x1012 then scalar (od_time_identifier d) (access bits_u32 True False False)
      else if index = 0x1014 then
        scalar (od_emergency_identifier d) (access bits_u32 True False False)
      else if index = 0x1015 then
        scalar (ucast (od_emergency_inhibit_time d)) (access bits_u16 True False False)
      else if index = 0x1017 then
        scalar (ucast (od_heartbeat_period d)) (access bits_u16 True False False)
      else if index = 0x1019 then
        scalar (ucast (od_sync_counter_overflow d)) (access bits_u8 True False False)
      else if index = 0x1010 \<or> index = 0x1011 then
        (if subindex = 0 then entry_of 4 (access bits_u8 False False False)
         else if sub \<le> 4 then
           entry_of ((if index = 0x1010 then od_store_parameters d else od_restore_parameters d)
                     ! (sub - 1)) (access bits_u32 True False False)
         else None)
      else if index = 0x1016 then
        (if subindex = 0 then entry_of 8 (access bits_u8 False False False)
         else if sub \<le> 8 then
           entry_of (od_consumer_heartbeats d ! (sub - 1)) (access bits_u32 True False False)
         else None)
      else if index = 0x1018 then
        (if subindex = 0 then entry_of 4 (access bits_u8 False False False)
         else if sub \<le> 4 then entry_of 0 (access bits_u32 False False False) else None)
      else if index = 0x1200 then
        (if subindex = 0 then entry_of 2 (access bits_u8 False False False)
         else if subindex = 1 then entry_of 0x600 (access bits_u32 False True False)
         else if subindex = 2 then entry_of 0x580 (access bits_u32 False True False)
         else None)
      else if index = 0x1280 then
        (if subindex = 0 then entry_of 3 (access bits_u8 False False False)
         else if subindex = 1 then
           entry_of (od_sdo_client_request_identifier d) (access bits_u32 True True True)
         else if subindex = 2 then
           entry_of (od_sdo_client_response_identifier d) (access bits_u32 True True True)
         else if subindex = 3 then
           entry_of (ucast (od_sdo_client_node_id d)) (access bits_u8 True False False)
         else None)
      else pdo_entry d index subindex)"

lemmas entry_defs = entry_def pdo_entry_def

definition index_supported :: "u16 \<Rightarrow> bool" where
  "index_supported index \<longleftrightarrow>
     index \<in> {0x1000, 0x1001, 0x1003, 0x1005, 0x1006, 0x1007, 0x1010, 0x1011, 0x1012, 0x1014,
              0x1015, 0x1016, 0x1017, 0x1018, 0x1019, 0x1200, 0x1280, 0x6000, 0x6001} \<or>
     in_four_object_range index first_rpdo_communication \<or>
     in_four_object_range index first_rpdo_mapping \<or>
     in_four_object_range index first_tpdo_communication \<or>
     in_four_object_range index first_tpdo_mapping"

definition permissions :: "dictionary \<Rightarrow> u16 \<Rightarrow> u8 \<Rightarrow> object_permissions option" where
  "permissions d index subindex = map_option entry_permissions (entry d index subindex)"

definition absent_object :: "u16 \<Rightarrow> sdo_abort" where
  "absent_object index = (if index_supported index then Subindex_not_found else Object_not_found)"

definition dict_read :: "dictionary \<Rightarrow> u16 \<Rightarrow> u8 \<Rightarrow> dictionary_read_result" where
  "dict_read d index subindex =
     (case entry d index subindex of
        None \<Rightarrow> \<lparr>read_abort = absent_object index, read_data = []\<rparr>
      | Some found \<Rightarrow>
          \<lparr>read_abort = Sdo_none,
           read_data = encode_little_endian (entry_value found) (size_bits (entry_permissions found))\<rparr>)"

section \<open>Writes\<close>

definition valid_mapping :: "dictionary \<Rightarrow> u32 \<Rightarrow> bool \<Rightarrow> bool" where
  "valid_mapping d descriptor transmit =
     (if descriptor = 0 then True
      else
        case permissions d (ucast (drop_bit 16 descriptor)) (ucast (drop_bit 8 descriptor)) of
          None \<Rightarrow> False
        | Some target \<Rightarrow>
            if size_bits target \<noteq> ucast descriptor then False
            else if transmit then tpdo_mappable target else rpdo_mappable target)"

text \<open>
  \<open>assign\<close>: the object is known to be present and writable; \<open>at_offset\<close> updates one element of
  an array in place.
\<close>

definition at_offset :: "nat \<Rightarrow> ('a \<Rightarrow> 'a) \<Rightarrow> 'a list \<Rightarrow> 'a list" where
  "at_offset offset f xs = xs[offset := f (xs ! offset)]"

definition assign :: "dictionary \<Rightarrow> u16 \<Rightarrow> u8 \<Rightarrow> u32 \<Rightarrow> dictionary \<times> dictionary_write_effects" where
  "assign d index subindex value =
     (let sub = unat subindex in
      if index = 0x1003 then
        (d\<lparr>od_error_history := replicate (length (od_error_history d)) 0,
           od_error_history_count := 0\<rparr>, no_effects)
      else if index = 0x1005 then (d\<lparr>od_sync_identifier := value\<rparr>, no_effects)
      else if index = 0x1006 then (d\<lparr>od_sync_period := value\<rparr>, no_effects)
      else if index = 0x1007 then (d\<lparr>od_sync_window := value\<rparr>, no_effects)
      else if index = 0x1012 then (d\<lparr>od_time_identifier := value\<rparr>, no_effects)
      else if index = 0x1014 then (d\<lparr>od_emergency_identifier := value\<rparr>, no_effects)
      else if index = 0x1015 then (d\<lparr>od_emergency_inhibit_time := ucast value\<rparr>, no_effects)
      else if index = 0x1017 then
        (d\<lparr>od_heartbeat_period := ucast value\<rparr>,
         no_effects\<lparr>producer_heartbeat_effect := Some (ucast value)\<rparr>)
      else if index = 0x1019 then (d\<lparr>od_sync_counter_overflow := ucast value\<rparr>, no_effects)
      else if index = 0x1010 then
        (d\<lparr>od_store_parameters := (od_store_parameters d)[sub - 1 := value]\<rparr>, no_effects)
      else if index = 0x1011 then
        (d\<lparr>od_restore_parameters := (od_restore_parameters d)[sub - 1 := value]\<rparr>, no_effects)
      else if index = 0x1016 then
        (d\<lparr>od_consumer_heartbeats := (od_consumer_heartbeats d)[sub - 1 := value]\<rparr>, no_effects)
      else if index = 0x1280 then
        (if subindex = 1 then d\<lparr>od_sdo_client_request_identifier := value\<rparr>
         else if subindex = 2 then d\<lparr>od_sdo_client_response_identifier := value\<rparr>
         else d\<lparr>od_sdo_client_node_id := ucast value\<rparr>, no_effects)
      else if index = 0x6001 then
        (d\<lparr>od_digital_output := value\<rparr>, no_effects\<lparr>digital_output_effect := Some value\<rparr>)
      else if in_four_object_range index first_rpdo_communication then
        (d\<lparr>od_rpdo_communication :=
            at_offset (unat index - unat first_rpdo_communication)
              (\<lambda>pdo. if subindex = 1 then pdo\<lparr>pdo_identifier := value\<rparr>
                     else if subindex = 2 then pdo\<lparr>transmission_type := ucast value\<rparr>
                     else pdo\<lparr>event_timer := ucast value\<rparr>)
              (od_rpdo_communication d)\<rparr>, no_effects)
      else if in_four_object_range index first_rpdo_mapping then
        (let offset = unat index - unat first_rpdo_mapping
         in if subindex = 0 then
              d\<lparr>od_rpdo_mapping_count := (od_rpdo_mapping_count d)[offset := ucast value]\<rparr>
            else
              d\<lparr>od_rpdo_mapping :=
                  at_offset offset (\<lambda>m. m[sub - 1 := value]) (od_rpdo_mapping d)\<rparr>, no_effects)
      else if in_four_object_range index first_tpdo_communication then
        (d\<lparr>od_tpdo_communication :=
            at_offset (unat index - unat first_tpdo_communication)
              (\<lambda>pdo. if subindex = 1 then pdo\<lparr>pdo_identifier := value\<rparr>
                     else if subindex = 2 then pdo\<lparr>transmission_type := ucast value\<rparr>
                     else if subindex = 3 then pdo\<lparr>inhibit_time := ucast value\<rparr>
                     else if subindex = 5 then pdo\<lparr>event_timer := ucast value\<rparr>
                     else pdo\<lparr>sync_start := ucast value\<rparr>)
              (od_tpdo_communication d)\<rparr>, no_effects)
      else if in_four_object_range index first_tpdo_mapping then
        (let offset = unat index - unat first_tpdo_mapping
         in if subindex = 0 then
              d\<lparr>od_tpdo_mapping_count := (od_tpdo_mapping_count d)[offset := ucast value]\<rparr>
            else
              d\<lparr>od_tpdo_mapping :=
                  at_offset offset (\<lambda>m. m[sub - 1 := value]) (od_tpdo_mapping d)\<rparr>, no_effects)
      else (d, no_effects))"

definition write_check :: "dictionary \<Rightarrow> u16 \<Rightarrow> u8 \<Rightarrow> bytes \<Rightarrow> sdo_abort" where
  "write_check d index subindex data =
     (case entry d index subindex of
        None \<Rightarrow> absent_object index
      | Some found \<Rightarrow>
          let perm = entry_permissions found; value = decode_little_endian data;
              rpdo_map = in_four_object_range index first_rpdo_mapping;
              tpdo_map = in_four_object_range index first_tpdo_mapping
          in if \<not> writable perm then Read_only
             else if length data \<noteq> unat (size_bits perm) div 8 then Type_mismatch
             else if index = 0x1003 \<and> subindex = 0 \<and> value \<noteq> 0 then Value_range
             else if (rpdo_map \<or> tpdo_map) \<and> subindex = 0 \<and> 8 < value then Value_range
             else if rpdo_map \<and> subindex \<noteq> 0 \<and> \<not> valid_mapping d value False then Pdo_mapping
             else if tpdo_map \<and> subindex \<noteq> 0 \<and> \<not> valid_mapping d value True then Pdo_mapping
             else Sdo_none)"

definition dict_write ::
  "dictionary \<Rightarrow> u16 \<Rightarrow> u8 \<Rightarrow> bytes \<Rightarrow> dictionary \<times> dictionary_write_result" where
  "dict_write d index subindex data =
     (let abort = write_check d index subindex data in
      if abort \<noteq> Sdo_none then (d, \<lparr>write_abort = abort, write_effects = no_effects\<rparr>)
      else let (d', effects) = assign d index subindex (decode_little_endian data)
           in (d', \<lparr>write_abort = Sdo_none, write_effects = effects\<rparr>))"

definition dict_communication_reset :: "dictionary \<Rightarrow> dictionary" where
  "dict_communication_reset d = d"

definition dict_set_error_register :: "dictionary \<Rightarrow> u8 \<Rightarrow> dictionary" where
  "dict_set_error_register d value = d\<lparr>od_error_register := value\<rparr>"

definition set_error_history :: "dictionary \<Rightarrow> nat \<Rightarrow> u32 \<Rightarrow> dictionary" where
  "set_error_history d slot value =
     (if length (od_error_history d) \<le> slot then d
      else d\<lparr>od_error_history := (od_error_history d)[slot := value],
             od_error_history_count := max (od_error_history_count d) (of_nat (slot + 1))\<rparr>)"

section \<open>The table at each index\<close>

lemma encode_little_endian_widths [simp]:
  "encode_little_endian v 8 = [byte_at v 0]"
  "encode_little_endian v 16 = [byte_at v 0, byte_at v 1]"
  "encode_little_endian v 32 = [byte_at v 0, byte_at v 1, byte_at v 2, byte_at v 3]"
  by (simp_all add: encode_little_endian_def upt_rec flip: numeral_2_eq_2 numeral_3_eq_3)

lemma byte_at_ucast [simp]:
  "byte_at (ucast (w :: u8) :: u32) 0 = w"
  "byte_at (ucast (x :: u16) :: u32) 0 = byte_at x 0"
  "byte_at (ucast (x :: u16) :: u32) (Suc 0) = byte_at x (Suc 0)"
  by (rule bit_word_eqI; simp add: octet_simps bit_simps)+

lemma byte_at_truncated [simp]:
  "ucast (v :: u32) = byte_at v 0"
  "byte_at (ucast (v :: u32) :: u16) 0 = byte_at v 0"
  "byte_at (ucast (v :: u32) :: u16) (Suc 0) = byte_at v (Suc 0)"
  by (rule bit_word_eqI; auto simp: octet_simps bit_simps)+

lemma decode_little_endian_widths [simp]:
  "decode_little_endian [a] = ucast a"
  "decode_little_endian [a, b] = push_bit 8 (ucast b) OR ucast a"
  "decode_little_endian [a, b, c, e] = be32 e c b a"
   by (simp_all add: decode_little_endian_def be32_def ac_simps)

lemma in_range_iff:
  "in_four_object_range i 0x1400 \<longleftrightarrow> i \<in> {0x1400, 0x1401, 0x1402, 0x1403}"
  "in_four_object_range i 0x1600 \<longleftrightarrow> i \<in> {0x1600, 0x1601, 0x1602, 0x1603}"
  "in_four_object_range i 0x1800 \<longleftrightarrow> i \<in> {0x1800, 0x1801, 0x1802, 0x1803}"
  "in_four_object_range i 0x1a00 \<longleftrightarrow> i \<in> {0x1a00, 0x1a01, 0x1a02, 0x1a03}"
  by (auto simp: in_four_object_range_def word_le_nat_alt word_unat_eq_iff)

lemma index_supported_iff:
  "index_supported i \<longleftrightarrow> i \<in> {0x1000, 0x1001, 0x1003, 0x1005, 0x1006, 0x1007,
    0x1010, 0x1011,
     0x1012, 0x1014, 0x1015, 0x1016, 0x1017, 0x1018, 0x1019, 0x1200, 0x1280, 0x6000, 0x6001,
     0x1400, 0x1401, 0x1402, 0x1403, 0x1600, 0x1601, 0x1602, 0x1603,
     0x1800, 0x1801, 0x1802, 0x1803, 0x1a00, 0x1a01, 0x1a02, 0x1a03}"
  unfolding index_supported_def in_range_iff by blast

lemma entry_unsupported: "\<not> index_supported i \<Longrightarrow> entry d i s = None"
  by (simp add: entry_defs index_supported_def)

lemma mapping_rows:
  assumes "map length xs = replicate 4 (8::nat)"
  shows "length xs = 4" "k < 4 \<Longrightarrow> length (xs ! k) = 8"
proof -
  show "length xs = 4"
    using assms by (metis length_map length_replicate)
  then show "length (xs ! k) = 8" if "k < 4"
    using assms that by (metis nth_map nth_replicate)
qed

lemma wf_lengths:
  assumes "wf_dictionary d"
  shows "length (od_error_history d) = 16"
    "length (od_store_parameters d) = 4" "length (od_restore_parameters d) = 4"
    "length (od_consumer_heartbeats d) = 8"
    "length (od_rpdo_communication d) = 4" "length (od_rpdo_mapping_count d) = 4"
    "length (od_rpdo_mapping d) = 4" "k < 4 \<Longrightarrow> length (od_rpdo_mapping d ! k) = 8"
    "length (od_tpdo_communication d) = 4" "length (od_tpdo_mapping_count d) = 4"
    "length (od_tpdo_mapping d) = 4" "k < 4 \<Longrightarrow> length (od_tpdo_mapping d ! k) = 8"
  using assms unfolding wf_dictionary_def by (simp_all only: mapping_rows)

lemma sub_index: "(s :: u8) \<noteq> 0 \<Longrightarrow> unat s \<le> n \<Longrightarrow> unat s -
  1 < n"
  by (simp add: unat_gt_0 word_neq_0_conv less_diff_conv2 Suc_leI)

lemma assign_at:
  "fst (assign d 0x1003 s v) =
     d\<lparr>od_error_history := replicate (length (od_error_history d)) 0, od_error_history_count
       := 0\<rparr>"
  "fst (assign d 0x1005 s v) =
     d\<lparr>od_sync_identifier := v\<rparr>"
  "fst (assign d 0x1006 s v) =
     d\<lparr>od_sync_period := v\<rparr>"
  "fst (assign d 0x1007 s v) =
     d\<lparr>od_sync_window := v\<rparr>"
  "fst (assign d 0x1012 s v) =
     d\<lparr>od_time_identifier := v\<rparr>"
  "fst (assign d 0x1014 s v) =
     d\<lparr>od_emergency_identifier := v\<rparr>"
  "fst (assign d 0x1015 s v) =
     d\<lparr>od_emergency_inhibit_time := ucast v\<rparr>"
  "fst (assign d 0x1017 s v) =
     d\<lparr>od_heartbeat_period := ucast v\<rparr>"
  "fst (assign d 0x1019 s v) =
     d\<lparr>od_sync_counter_overflow := ucast v\<rparr>"
  "fst (assign d 0x6001 s v) =
     d\<lparr>od_digital_output := v\<rparr>"
  "fst (assign d 0x1010 s v) =
     d\<lparr>od_store_parameters := (od_store_parameters d)[unat s - 1 := v]\<rparr>"
  "fst (assign d 0x1011 s v) =
     d\<lparr>od_restore_parameters := (od_restore_parameters d)[unat s - 1 := v]\<rparr>"
  "fst (assign d 0x1016 s v) =
     d\<lparr>od_consumer_heartbeats := (od_consumer_heartbeats d)[unat s - 1 := v]\<rparr>"
  "fst (assign d 0x1280 s v) =
     (if s = 1 then d\<lparr>od_sdo_client_request_identifier := v\<rparr> else if s = 2 then
       d\<lparr>od_sdo_client_response_identifier := v\<rparr> else d\<lparr>od_sdo_client_node_id
       := ucast v\<rparr>)"
  "fst (assign d 0x1400 s v) =
     d\<lparr>od_rpdo_communication := at_offset 0 (\<lambda>pdo. if s = 1 then
       pdo\<lparr>pdo_identifier := v\<rparr> else if s = 2 then pdo\<lparr>transmission_type :=
       ucast v\<rparr> else pdo\<lparr>event_timer := ucast v\<rparr>) (od_rpdo_communication
       d)\<rparr>"
  "fst (assign d 0x1800 s v) =
     d\<lparr>od_tpdo_communication := at_offset 0 (\<lambda>pdo. if s = 1 then
       pdo\<lparr>pdo_identifier := v\<rparr> else if s = 2 then pdo\<lparr>transmission_type :=
       ucast v\<rparr> else if s = 3 then pdo\<lparr>inhibit_time := ucast v\<rparr> else if s = 5
       then pdo\<lparr>event_timer := ucast v\<rparr> else pdo\<lparr>sync_start := ucast
       v\<rparr>) (od_tpdo_communication d)\<rparr>"
  "fst (assign d 0x1600 s v) =
     (if s = 0 then d\<lparr>od_rpdo_mapping_count := (od_rpdo_mapping_count d)[0 := ucast
       v]\<rparr> else d\<lparr>od_rpdo_mapping := at_offset 0 (\<lambda>m. m[unat s - 1 := v])
       (od_rpdo_mapping d)\<rparr>)"
  "fst (assign d 0x1a00 s v) =
     (if s = 0 then d\<lparr>od_tpdo_mapping_count := (od_tpdo_mapping_count d)[0 := ucast
       v]\<rparr> else d\<lparr>od_tpdo_mapping := at_offset 0 (\<lambda>m. m[unat s - 1 := v])
       (od_tpdo_mapping d)\<rparr>)"
  "fst (assign d 0x1401 s v) =
     d\<lparr>od_rpdo_communication := at_offset 1 (\<lambda>pdo. if s = 1 then
       pdo\<lparr>pdo_identifier := v\<rparr> else if s = 2 then pdo\<lparr>transmission_type :=
       ucast v\<rparr> else pdo\<lparr>event_timer := ucast v\<rparr>) (od_rpdo_communication
       d)\<rparr>"
  "fst (assign d 0x1801 s v) =
     d\<lparr>od_tpdo_communication := at_offset 1 (\<lambda>pdo. if s = 1 then
       pdo\<lparr>pdo_identifier := v\<rparr> else if s = 2 then pdo\<lparr>transmission_type :=
       ucast v\<rparr> else if s = 3 then pdo\<lparr>inhibit_time := ucast v\<rparr> else if s = 5
       then pdo\<lparr>event_timer := ucast v\<rparr> else pdo\<lparr>sync_start := ucast
       v\<rparr>) (od_tpdo_communication d)\<rparr>"
  "fst (assign d 0x1601 s v) =
     (if s = 0 then d\<lparr>od_rpdo_mapping_count := (od_rpdo_mapping_count d)[1 := ucast
       v]\<rparr> else d\<lparr>od_rpdo_mapping := at_offset 1 (\<lambda>m. m[unat s - 1 := v])
       (od_rpdo_mapping d)\<rparr>)"
  "fst (assign d 0x1a01 s v) =
     (if s = 0 then d\<lparr>od_tpdo_mapping_count := (od_tpdo_mapping_count d)[1 := ucast
       v]\<rparr> else d\<lparr>od_tpdo_mapping := at_offset 1 (\<lambda>m. m[unat s - 1 := v])
       (od_tpdo_mapping d)\<rparr>)"
  "fst (assign d 0x1402 s v) =
     d\<lparr>od_rpdo_communication := at_offset 2 (\<lambda>pdo. if s = 1 then
       pdo\<lparr>pdo_identifier := v\<rparr> else if s = 2 then pdo\<lparr>transmission_type :=
       ucast v\<rparr> else pdo\<lparr>event_timer := ucast v\<rparr>) (od_rpdo_communication
       d)\<rparr>"
  "fst (assign d 0x1802 s v) =
     d\<lparr>od_tpdo_communication := at_offset 2 (\<lambda>pdo. if s = 1 then
       pdo\<lparr>pdo_identifier := v\<rparr> else if s = 2 then pdo\<lparr>transmission_type :=
       ucast v\<rparr> else if s = 3 then pdo\<lparr>inhibit_time := ucast v\<rparr> else if s = 5
       then pdo\<lparr>event_timer := ucast v\<rparr> else pdo\<lparr>sync_start := ucast
       v\<rparr>) (od_tpdo_communication d)\<rparr>"
  "fst (assign d 0x1602 s v) =
     (if s = 0 then d\<lparr>od_rpdo_mapping_count := (od_rpdo_mapping_count d)[2 := ucast
       v]\<rparr> else d\<lparr>od_rpdo_mapping := at_offset 2 (\<lambda>m. m[unat s - 1 := v])
       (od_rpdo_mapping d)\<rparr>)"
  "fst (assign d 0x1a02 s v) =
     (if s = 0 then d\<lparr>od_tpdo_mapping_count := (od_tpdo_mapping_count d)[2 := ucast
       v]\<rparr> else d\<lparr>od_tpdo_mapping := at_offset 2 (\<lambda>m. m[unat s - 1 := v])
       (od_tpdo_mapping d)\<rparr>)"
  "fst (assign d 0x1403 s v) =
     d\<lparr>od_rpdo_communication := at_offset 3 (\<lambda>pdo. if s = 1 then
       pdo\<lparr>pdo_identifier := v\<rparr> else if s = 2 then pdo\<lparr>transmission_type :=
       ucast v\<rparr> else pdo\<lparr>event_timer := ucast v\<rparr>) (od_rpdo_communication
       d)\<rparr>"
  "fst (assign d 0x1803 s v) =
     d\<lparr>od_tpdo_communication := at_offset 3 (\<lambda>pdo. if s = 1 then
       pdo\<lparr>pdo_identifier := v\<rparr> else if s = 2 then pdo\<lparr>transmission_type :=
       ucast v\<rparr> else if s = 3 then pdo\<lparr>inhibit_time := ucast v\<rparr> else if s = 5
       then pdo\<lparr>event_timer := ucast v\<rparr> else pdo\<lparr>sync_start := ucast
       v\<rparr>) (od_tpdo_communication d)\<rparr>"
  "fst (assign d 0x1603 s v) =
     (if s = 0 then d\<lparr>od_rpdo_mapping_count := (od_rpdo_mapping_count d)[3 := ucast
       v]\<rparr> else d\<lparr>od_rpdo_mapping := at_offset 3 (\<lambda>m. m[unat s - 1 := v])
       (od_rpdo_mapping d)\<rparr>)"
  "fst (assign d 0x1a03 s v) =
     (if s = 0 then d\<lparr>od_tpdo_mapping_count := (od_tpdo_mapping_count d)[3 := ucast
       v]\<rparr> else d\<lparr>od_tpdo_mapping := at_offset 3 (\<lambda>m. m[unat s - 1 := v])
       (od_tpdo_mapping d)\<rparr>)"
  "fst (assign d 0x1000 s v) =
     d"
  "fst (assign d 0x1001 s v) =
     d"
  "fst (assign d 0x1018 s v) =
     d"
  "fst (assign d 0x1200 s v) =
     d"
  "fst (assign d 0x6000 s v) =
     d"
  by (simp_all add: assign_def in_four_object_range_def Let_def)

lemma entry_at:
  "entry d 0x1000 s =
     (if s = 0 then entry_of (0) (access 32 False False False) else None)"
  "entry d 0x1001 s =
     (if s = 0 then entry_of (ucast (od_error_register d)) (access 8 False True False) else None)"
  "entry d 0x1005 s =
     (if s = 0 then entry_of (od_sync_identifier d) (access 32 True False False) else None)"
  "entry d 0x1006 s =
     (if s = 0 then entry_of (od_sync_period d) (access 32 True False False) else None)"
  "entry d 0x1007 s =
     (if s = 0 then entry_of (od_sync_window d) (access 32 True False False) else None)"
  "entry d 0x1012 s =
     (if s = 0 then entry_of (od_time_identifier d) (access 32 True False False) else None)"
  "entry d 0x1014 s =
     (if s = 0 then entry_of (od_emergency_identifier d) (access 32 True False False) else None)"
  "entry d 0x1015 s =
     (if s = 0 then entry_of (ucast (od_emergency_inhibit_time d)) (access 16 True False False)
       else None)"
  "entry d 0x1017 s =
     (if s = 0 then entry_of (ucast (od_heartbeat_period d)) (access 16 True False False) else
       None)"
  "entry d 0x1019 s =
     (if s = 0 then entry_of (ucast (od_sync_counter_overflow d)) (access 8 True False False) else
       None)"
  "entry d 0x1003 s =
     (if s = 0 then entry_of (ucast (od_error_history_count d)) (access 8 True False False) else if
       unat s \<le> length (od_error_history d) then entry_of (od_error_history d ! (unat s - 1))
       (access 32 False False False) else None)"
  "entry d 0x1010 s =
     (if s = 0 then entry_of (4) (access 8 False False False) else if unat s \<le> 4 then entry_of
       (od_store_parameters d ! (unat s - 1)) (access 32 True False False) else None)"
  "entry d 0x1011 s =
     (if s = 0 then entry_of (4) (access 8 False False False) else if unat s \<le> 4 then entry_of
       (od_restore_parameters d ! (unat s - 1)) (access 32 True False False) else None)"
  "entry d 0x1016 s =
     (if s = 0 then entry_of (8) (access 8 False False False) else if unat s \<le> 8 then entry_of
       (od_consumer_heartbeats d ! (unat s - 1)) (access 32 True False False) else None)"
  "entry d 0x1018 s =
     (if s = 0 then entry_of (4) (access 8 False False False) else if unat s \<le> 4 then entry_of
       (0) (access 32 False False False) else None)"
  "entry d 0x1200 s =
     (if s = 0 then entry_of (2) (access 8 False False False) else (if s = 1 then entry_of (0x600)
       (access 32 False True False) else (if s = 2 then entry_of (0x580) (access 32 False True
       False) else None)))"
  "entry d 0x1280 s =
     (if s = 0 then entry_of (3) (access 8 False False False) else (if s = 1 then entry_of
       (od_sdo_client_request_identifier d) (access 32 True True True) else (if s = 2 then entry_of
       (od_sdo_client_response_identifier d) (access 32 True True True) else (if s = 3 then
       entry_of (ucast (od_sdo_client_node_id d)) (access 8 True False False) else None))))"
  "entry d 0x6000 s =
     (if s = 0 then entry_of (1) (access 8 False False False) else (if s = 1 then entry_of (0)
       (access 32 False True False) else None))"
  "entry d 0x6001 s =
     (if s = 0 then entry_of (1) (access 8 False False False) else (if s = 1 then entry_of
       (od_digital_output d) (access 32 True False True) else None))"
  "entry d 0x1400 s =
     (if s = 0 then entry_of (5) (access 8 False False False) else (if s = 1 then entry_of
       (pdo_identifier (od_rpdo_communication d ! 0)) (access 32 True False False) else (if s = 2
       then entry_of (ucast (transmission_type (od_rpdo_communication d ! 0))) (access 8 True False
       False) else (if s = 5 then entry_of (ucast (event_timer (od_rpdo_communication d ! 0)))
       (access 16 True False False) else None))))"
  "entry d 0x1800 s =
     (if s = 0 then entry_of (6) (access 8 False False False) else (if s = 1 then entry_of
       (pdo_identifier (od_tpdo_communication d ! 0)) (access 32 True False False) else (if s = 2
       then entry_of (ucast (transmission_type (od_tpdo_communication d ! 0))) (access 8 True False
       False) else (if s = 3 then entry_of (ucast (inhibit_time (od_tpdo_communication d ! 0)))
       (access 16 True False False) else (if s = 5 then entry_of (ucast (event_timer
       (od_tpdo_communication d ! 0))) (access 16 True False False) else (if s = 6 then entry_of
       (ucast (sync_start (od_tpdo_communication d ! 0))) (access 8 True False False) else
       None))))))"
  "entry d 0x1600 s =
     (if s = 0 then entry_of (ucast (od_rpdo_mapping_count d ! 0)) (access 8 True False False) else
       if unat s \<le> 8 then entry_of (od_rpdo_mapping d ! 0 ! (unat s - 1)) (access 32 True True
       True) else None)"
  "entry d 0x1a00 s =
     (if s = 0 then entry_of (ucast (od_tpdo_mapping_count d ! 0)) (access 8 True False False) else
       if unat s \<le> 8 then entry_of (od_tpdo_mapping d ! 0 ! (unat s - 1)) (access 32 True True
       True) else None)"
  "entry d 0x1401 s =
     (if s = 0 then entry_of (5) (access 8 False False False) else (if s = 1 then entry_of
       (pdo_identifier (od_rpdo_communication d ! 1)) (access 32 True False False) else (if s = 2
       then entry_of (ucast (transmission_type (od_rpdo_communication d ! 1))) (access 8 True False
       False) else (if s = 5 then entry_of (ucast (event_timer (od_rpdo_communication d ! 1)))
       (access 16 True False False) else None))))"
  "entry d 0x1801 s =
     (if s = 0 then entry_of (6) (access 8 False False False) else (if s = 1 then entry_of
       (pdo_identifier (od_tpdo_communication d ! 1)) (access 32 True False False) else (if s = 2
       then entry_of (ucast (transmission_type (od_tpdo_communication d ! 1))) (access 8 True False
       False) else (if s = 3 then entry_of (ucast (inhibit_time (od_tpdo_communication d ! 1)))
       (access 16 True False False) else (if s = 5 then entry_of (ucast (event_timer
       (od_tpdo_communication d ! 1))) (access 16 True False False) else (if s = 6 then entry_of
       (ucast (sync_start (od_tpdo_communication d ! 1))) (access 8 True False False) else
       None))))))"
  "entry d 0x1601 s =
     (if s = 0 then entry_of (ucast (od_rpdo_mapping_count d ! 1)) (access 8 True False False) else
       if unat s \<le> 8 then entry_of (od_rpdo_mapping d ! 1 ! (unat s - 1)) (access 32 True True
       True) else None)"
  "entry d 0x1a01 s =
     (if s = 0 then entry_of (ucast (od_tpdo_mapping_count d ! 1)) (access 8 True False False) else
       if unat s \<le> 8 then entry_of (od_tpdo_mapping d ! 1 ! (unat s - 1)) (access 32 True True
       True) else None)"
  "entry d 0x1402 s =
     (if s = 0 then entry_of (5) (access 8 False False False) else (if s = 1 then entry_of
       (pdo_identifier (od_rpdo_communication d ! 2)) (access 32 True False False) else (if s = 2
       then entry_of (ucast (transmission_type (od_rpdo_communication d ! 2))) (access 8 True False
       False) else (if s = 5 then entry_of (ucast (event_timer (od_rpdo_communication d ! 2)))
       (access 16 True False False) else None))))"
  "entry d 0x1802 s =
     (if s = 0 then entry_of (6) (access 8 False False False) else (if s = 1 then entry_of
       (pdo_identifier (od_tpdo_communication d ! 2)) (access 32 True False False) else (if s = 2
       then entry_of (ucast (transmission_type (od_tpdo_communication d ! 2))) (access 8 True False
       False) else (if s = 3 then entry_of (ucast (inhibit_time (od_tpdo_communication d ! 2)))
       (access 16 True False False) else (if s = 5 then entry_of (ucast (event_timer
       (od_tpdo_communication d ! 2))) (access 16 True False False) else (if s = 6 then entry_of
       (ucast (sync_start (od_tpdo_communication d ! 2))) (access 8 True False False) else
       None))))))"
  "entry d 0x1602 s =
     (if s = 0 then entry_of (ucast (od_rpdo_mapping_count d ! 2)) (access 8 True False False) else
       if unat s \<le> 8 then entry_of (od_rpdo_mapping d ! 2 ! (unat s - 1)) (access 32 True True
       True) else None)"
  "entry d 0x1a02 s =
     (if s = 0 then entry_of (ucast (od_tpdo_mapping_count d ! 2)) (access 8 True False False) else
       if unat s \<le> 8 then entry_of (od_tpdo_mapping d ! 2 ! (unat s - 1)) (access 32 True True
       True) else None)"
  "entry d 0x1403 s =
     (if s = 0 then entry_of (5) (access 8 False False False) else (if s = 1 then entry_of
       (pdo_identifier (od_rpdo_communication d ! 3)) (access 32 True False False) else (if s = 2
       then entry_of (ucast (transmission_type (od_rpdo_communication d ! 3))) (access 8 True False
       False) else (if s = 5 then entry_of (ucast (event_timer (od_rpdo_communication d ! 3)))
       (access 16 True False False) else None))))"
  "entry d 0x1803 s =
     (if s = 0 then entry_of (6) (access 8 False False False) else (if s = 1 then entry_of
       (pdo_identifier (od_tpdo_communication d ! 3)) (access 32 True False False) else (if s = 2
       then entry_of (ucast (transmission_type (od_tpdo_communication d ! 3))) (access 8 True False
       False) else (if s = 3 then entry_of (ucast (inhibit_time (od_tpdo_communication d ! 3)))
       (access 16 True False False) else (if s = 5 then entry_of (ucast (event_timer
       (od_tpdo_communication d ! 3))) (access 16 True False False) else (if s = 6 then entry_of
       (ucast (sync_start (od_tpdo_communication d ! 3))) (access 8 True False False) else
       None))))))"
  "entry d 0x1603 s =
     (if s = 0 then entry_of (ucast (od_rpdo_mapping_count d ! 3)) (access 8 True False False) else
       if unat s \<le> 8 then entry_of (od_rpdo_mapping d ! 3 ! (unat s - 1)) (access 32 True True
       True) else None)"
  "entry d 0x1a03 s =
     (if s = 0 then entry_of (ucast (od_tpdo_mapping_count d ! 3)) (access 8 True False False) else
       if unat s \<le> 8 then entry_of (od_tpdo_mapping d ! 3 ! (unat s - 1)) (access 32 True True
       True) else None)"
  by (simp_all add: entry_defs in_four_object_range_def Let_def)

lemma entry_frame:
  "i \<noteq> 0x1003 \<Longrightarrow> entry (d\<lparr>od_error_history := h,
    od_error_history_count := n\<rparr>) i s = entry d i s"
  "i \<noteq> 0x1005 \<Longrightarrow> entry (d\<lparr>od_sync_identifier := v\<rparr>) i s = entry
    d i s"
  "i \<noteq> 0x1006 \<Longrightarrow> entry (d\<lparr>od_sync_period := v\<rparr>) i s = entry d i
    s"
  "i \<noteq> 0x1007 \<Longrightarrow> entry (d\<lparr>od_sync_window := v\<rparr>) i s = entry d i
    s"
  "i \<noteq> 0x1012 \<Longrightarrow> entry (d\<lparr>od_time_identifier := v\<rparr>) i s = entry
    d i s"
  "i \<noteq> 0x1014 \<Longrightarrow> entry (d\<lparr>od_emergency_identifier := v\<rparr>) i s =
    entry d i s"
  "i \<noteq> 0x1015 \<Longrightarrow> entry (d\<lparr>od_emergency_inhibit_time := w\<rparr>) i s
    = entry d i s"
  "i \<noteq> 0x1017 \<Longrightarrow> entry (d\<lparr>od_heartbeat_period := w\<rparr>) i s =
    entry d i s"
  "i \<noteq> 0x1019 \<Longrightarrow> entry (d\<lparr>od_sync_counter_overflow := b\<rparr>) i s =
    entry d i s"
  "i \<noteq> 0x1010 \<Longrightarrow> entry (d\<lparr>od_store_parameters := h\<rparr>) i s =
    entry d i s"
  "i \<noteq> 0x1011 \<Longrightarrow> entry (d\<lparr>od_restore_parameters := h\<rparr>) i s =
    entry d i s"
  "i \<noteq> 0x1016 \<Longrightarrow> entry (d\<lparr>od_consumer_heartbeats := h\<rparr>) i s =
    entry d i s"
  "i \<noteq> 0x1280 \<Longrightarrow> entry (d\<lparr>od_sdo_client_request_identifier :=
    v\<rparr>) i s = entry d i s"
  "i \<noteq> 0x1280 \<Longrightarrow> entry (d\<lparr>od_sdo_client_response_identifier :=
    v\<rparr>) i s = entry d i s"
  "i \<noteq> 0x1280 \<Longrightarrow> entry (d\<lparr>od_sdo_client_node_id := b\<rparr>) i s =
    entry d i s"
  "i \<noteq> 0x6001 \<Longrightarrow> entry (d\<lparr>od_digital_output := v\<rparr>) i s = entry
    d i s"
  "\<not> in_four_object_range i 0x1400 \<Longrightarrow> entry (d\<lparr>od_rpdo_communication :=
    c\<rparr>) i s = entry d i s"
  "\<not> in_four_object_range i 0x1600 \<Longrightarrow> entry (d\<lparr>od_rpdo_mapping_count :=
    bs\<rparr>) i s = entry d i s"
  "\<not> in_four_object_range i 0x1600 \<Longrightarrow> entry (d\<lparr>od_rpdo_mapping :=
    m\<rparr>) i s = entry d i s"
  "\<not> in_four_object_range i 0x1800 \<Longrightarrow> entry (d\<lparr>od_tpdo_communication :=
    c\<rparr>) i s = entry d i s"
  "\<not> in_four_object_range i 0x1a00 \<Longrightarrow> entry (d\<lparr>od_tpdo_mapping_count :=
    bs\<rparr>) i s = entry d i s"
  "\<not> in_four_object_range i 0x1a00 \<Longrightarrow> entry (d\<lparr>od_tpdo_mapping :=
    m\<rparr>) i s = entry d i s"
  by (simp_all add: entry_defs Let_def cong: if_cong)

lemma sub_neq:
  assumes "(s :: u8) \<noteq> 0" "s' \<noteq> 0" "s \<noteq> s'"
  shows "unat s - Suc 0 \<noteq> unat s' - Suc 0"
proof
  assume "unat s - Suc 0 = unat s' - Suc 0"
  moreover have "0 < unat s" "0 < unat s'"
    using assms(1,2) by (simp_all add: unat_gt_0)
  ultimately have "unat s = unat s'"
    by linarith
  then have "s = s'"
    by (rule word_unat_eq_iff [THEN iffD2])
  with assms(3) show False ..
qed

text \<open>The objects that a client may write.\<close>

definition writes :: "dictionary \<Rightarrow> u16 \<Rightarrow> u8 \<Rightarrow> bool" where
  "writes d i s \<longleftrightarrow> (case entry d i s of None \<Rightarrow> False | Some e \<Rightarrow> writable (entry_permissions e))"

lemma writes_supported: "writes d i s \<Longrightarrow> index_supported i"
  by (rule ccontr) (simp add: writes_def entry_unsupported)

lemma writes_at:
  "\<not> writes d 0x1000 s" "\<not> writes d 0x1001 s" "\<not> writes d 0x1018 s" "\<not> writes d 0x1200 s"
  "\<not> writes d 0x6000 s" 
  "writes d 0x1003 s \<longleftrightarrow> s = 0" "writes d 0x1005 s \<longleftrightarrow> s = 0" "writes d 0x1006 s \<longleftrightarrow> s = 0"
  "writes d 0x1007 s \<longleftrightarrow> s = 0" "writes d 0x1012 s \<longleftrightarrow> s = 0" "writes d 0x1014 s \<longleftrightarrow> s = 0"
  "writes d 0x1015 s \<longleftrightarrow> s = 0" "writes d 0x1017 s \<longleftrightarrow> s = 0" "writes d 0x1019 s \<longleftrightarrow> s = 0"
  "writes d 0x1010 s \<longleftrightarrow> s \<noteq> 0 \<and> unat s \<le> 4" "writes d 0x1011 s \<longleftrightarrow> s \<noteq> 0 \<and> unat s \<le> 4"
  "writes d 0x1016 s \<longleftrightarrow> s \<noteq> 0 \<and> unat s \<le> 8"
  "writes d 0x1280 s \<longleftrightarrow> s \<in> {1, 2, 3}" "writes d 0x6001 s \<longleftrightarrow> s = 1"
  "i \<in> {0x1400, 0x1401, 0x1402, 0x1403} \<Longrightarrow> writes d i s \<longleftrightarrow> s \<in> {1, 2, 5}"
  "i \<in> {0x1800, 0x1801, 0x1802, 0x1803} \<Longrightarrow> writes d i s \<longleftrightarrow> s \<in> {1, 2, 3, 5, 6}"
  "i \<in> {0x1600, 0x1601, 0x1602, 0x1603, 0x1a00, 0x1a01, 0x1a02, 0x1a03} \<Longrightarrow> writes d i s \<longleftrightarrow> unat s \<le> 8"
  by (auto simp: writes_def entry_at entry_of_def access_def split: if_splits)

section \<open>Writes change one object\<close>

lemma assign_entry_same_index:
  assumes wf: "wf_dictionary d" and w: "writes d i s" and "s' \<noteq> s" "i \<noteq> 0x1003"
  shows "entry (fst (assign d i s v)) i s' = entry d i s'"
  using writes_supported [OF w] assms
    unfolding index_supported_iff
    by (elim insertE emptyE; hypsubst)
      (auto simp: entry_at writes_at assign_at at_offset_def wf_lengths sub_index sub_neq)

lemma assign_entry_same_range:
  assumes "in_four_object_range i f" "in_four_object_range i' f" "i' \<noteq> i"
    and "f \<in> {0x1400, 0x1600, 0x1800, 0x1a00}"
  shows "entry (fst (assign d i s v)) i' s' = entry d i' s'"
proof -
  from assms(4) consider "f = 0x1400" | "f = 0x1600" | "f = 0x1800" | "f = 0x1a00"
    by blast
  then show ?thesis
  proof cases
    case 1
    show ?thesis using assms(1,2,3) unfolding 1 in_range_iff
      by (elim insertE emptyE; hypsubst) (simp_all add: assign_at entry_at at_offset_def)
  next
    case 2
    show ?thesis using assms(1,2,3) unfolding 2 in_range_iff
      by (elim insertE emptyE; hypsubst) (simp_all add: assign_at entry_at at_offset_def)
  next
    case 3
    show ?thesis using assms(1,2,3) unfolding 3 in_range_iff
      by (elim insertE emptyE; hypsubst) (simp_all add: assign_at entry_at at_offset_def)
  next
    case 4
    show ?thesis using assms(1,2,3) unfolding 4 in_range_iff
      by (elim insertE emptyE; hypsubst) (simp_all add: assign_at entry_at at_offset_def)
  qed
qed

lemma assign_entry_other_range:
  assumes "in_four_object_range i f" "\<not> in_four_object_range i' f"
    and "f \<in> {0x1400, 0x1600, 0x1800, 0x1a00}"
  shows "entry (fst (assign d i s v)) i' s' = entry d i' s'"
proof -
  have "i \<in> {0x1400, 0x1401, 0x1402, 0x1403} \<and> \<not> in_four_object_range i' 0x1400 \<or>
    i \<in> {0x1600, 0x1601, 0x1602, 0x1603} \<and> \<not> in_four_object_range i' 0x1600 \<or>
    i \<in> {0x1800, 0x1801, 0x1802, 0x1803} \<and> \<not> in_four_object_range i' 0x1800 \<or>
    i \<in> {0x1a00, 0x1a01, 0x1a02, 0x1a03} \<and> \<not> in_four_object_range i' 0x1a00"
    unfolding in_range_iff [symmetric] using assms(3,1,2) by (elim insertE emptyE) simp_all
  then show ?thesis
    by (elim disjE conjE insertE emptyE; hypsubst) (simp_all add: assign_at entry_frame)
qed

lemma assign_entry_other_scalar:
  assumes "index_supported i" "\<not> in_four_object_range i 0x1400" "\<not> in_four_object_range i 0x1600"
    "\<not> in_four_object_range i 0x1800" "\<not> in_four_object_range i 0x1a00" "i' \<noteq> i"
  shows "entry (fst (assign d i s v)) i' s' = entry d i' s'"
  using assms unfolding index_supported_def
  by (elim disjE insertE emptyE; hypsubst?) (simp_all add: assign_at entry_frame)

lemma assign_entry_other_index:
  assumes w: "writes d i s" and "i' \<noteq> i"
  shows "entry (fst (assign d i s v)) i' s' = entry d i' s'"
proof (cases "\<exists>f \<in> {0x1400, 0x1600, 0x1800, 0x1a00}. in_four_object_range i f")
  case True
  then show ?thesis
    using assms(2) assign_entry_same_range assign_entry_other_range by blast
next
  case False
  then show ?thesis
    using writes_supported [OF w] assms(2) by (intro assign_entry_other_scalar) auto
qed

lemma assign_entry:
  assumes "wf_dictionary d" "entry d i s = Some e" "writable (entry_permissions e)"
    and "i = 0x1003 \<Longrightarrow> v = 0"
  shows "\<exists>v'. entry (fst (assign d i s v)) i s = Some (e\<lparr>entry_value := v'\<rparr>) \<and>
    encode_little_endian v' (size_bits (entry_permissions e)) =
    encode_little_endian v (size_bits (entry_permissions e))"
proof -
  have "index_supported i"
    using assms(2) entry_unsupported by fastforce
  then show ?thesis
    using assms
    unfolding index_supported_iff
    by (elim insertE emptyE; hypsubst)
      (auto simp: entry_at assign_at entry_of_def access_def at_offset_def wf_lengths sub_index
        split: if_splits)
qed

lemma entry_sizes: "entry d i s = Some e \<Longrightarrow> size_bits (entry_permissions e) \<in> {8, 16, 32}"
  by (cases "index_supported i")
    (auto simp: entry_unsupported index_supported_iff entry_at entry_of_def access_def split: if_splits)

lemma permissions_const:
  assumes "wf_dictionary d" "wf_dictionary d'"
  shows "permissions d i s = permissions d' i s"
proof (cases "index_supported i")
  case True
  then show ?thesis
    using assms unfolding index_supported_iff
    by (elim insertE emptyE; hypsubst) (simp_all add: permissions_def entry_at entry_of_def wf_lengths)
qed (simp add: permissions_def entry_unsupported)

lemma length_at_offset [simp]: "length (at_offset k f xs) = length xs"
  by (simp add: at_offset_def)

lemma map_length_at_offset [simp]:
  "map length (at_offset k (\<lambda>m. m[j := v]) xs) = map length xs"
  by (cases "k < length xs") (simp_all add: at_offset_def map_update list_update_same_conv list_update_beyond)

lemma assign_unsupported: "\<not> index_supported i \<Longrightarrow> fst (assign d i s v) = d"
  by (simp add: assign_def index_supported_def)

lemma wf_assign:
  assumes "wf_dictionary d" shows "wf_dictionary (fst (assign d i s v))"
proof (cases "index_supported i")
  case True
  then show ?thesis
    using assms unfolding index_supported_iff
    by (elim insertE emptyE; hypsubst) (simp_all add: assign_at wf_dictionary_def)
qed (simp add: assign_unsupported assms)

lemma write_check_writes: "write_check d i s data = Sdo_none \<Longrightarrow> writes d i s"
  by (auto simp: write_check_def writes_def absent_object_def Let_def split: option.splits if_splits)

lemma byte_at_le16 [simp]:
  "byte_at (push_bit 8 (ucast (b :: u8)) OR ucast (a :: u8) :: u32) 0 = a"
  "byte_at (push_bit 8 (ucast (b :: u8)) OR ucast (a :: u8) :: u32) (Suc 0) = b"
  by (rule bit_word_eqI; auto simp: octet_simps bit_simps dest: bit_imp_le_length)+

lemma encode_decode:
  assumes "length data = unat bits div 8" "bits \<in> {8, 16, 32}"
  shows "encode_little_endian (decode_little_endian data) bits = data"
proof -
  have "length data \<in> {1, 2, 4}"
    using assms by auto
  then consider a where "data = [a]" | a b where "data = [a, b]" | a b c e where "data = [a, b, c, e]"
    by (auto simp: length_Suc_conv numeral_eq_Suc)
  then show ?thesis
    using assms by cases auto
qed

lemma dict_write_cases:
  "dict_write d i s data =
     (if write_check d i s data = Sdo_none
      then (fst (assign d i s (decode_little_endian data)),
            \<lparr>write_abort = Sdo_none, write_effects = snd (assign d i s (decode_little_endian data))\<rparr>)
      else (d, \<lparr>write_abort = write_check d i s data, write_effects = no_effects\<rparr>))"
  by (simp add: dict_write_def Let_def split: prod.splits)

lemma write_abort_dict_write [simp]: "write_abort (snd (dict_write d i s data)) = write_check d i s data"
  by (simp add: dict_write_cases)

lemma dict_write_refused:
  assumes "write_abort (snd (dict_write d i s data)) \<noteq> Sdo_none"
  shows "fst (dict_write d i s data) = d \<and> write_effects (snd (dict_write d i s data)) = no_effects"
  using assms by (cases "write_check d i s data = Sdo_none") (simp_all add: dict_write_cases)

lemma wf_dict_write: "wf_dictionary d \<Longrightarrow> wf_dictionary (fst (dict_write d i s data))"
  by (simp add: dict_write_cases wf_assign)

lemma dict_write_read_same:
  assumes wf: "wf_dictionary d" and ok: "write_check d i s data = Sdo_none"
  shows "dict_read (fst (dict_write d i s data)) i s = \<lparr>read_abort = Sdo_none, read_data = data\<rparr>"
proof -
  obtain e where e: "entry d i s = Some e" "writable (entry_permissions e)"
    using write_check_writes [OF ok] by (auto simp: writes_def split: option.splits)
  have len: "length data = unat (size_bits (entry_permissions e)) div 8"
    using ok e by (auto simp: write_check_def Let_def split: if_splits)
  have zero: "decode_little_endian data = 0" if "i = 0x1003"
    using that ok e
    by (auto simp: write_check_def Let_def entry_at entry_of_def access_def split: if_splits)
  obtain v' where "entry (fst (assign d i s (decode_little_endian data))) i s = Some (e\<lparr>entry_value := v'\<rparr>)"
    "encode_little_endian v' (size_bits (entry_permissions e)) =
     encode_little_endian (decode_little_endian data) (size_bits (entry_permissions e))"
    using assign_entry [OF wf e zero] by blast
  then show ?thesis
    using ok encode_decode [OF len entry_sizes [OF e(1)]]
    by (simp add: dict_write_cases dict_read_def)
qed

lemma dict_write_read_other:
  assumes wf: "wf_dictionary d" and other: "(i', s') \<noteq> (i, s)" "i = 0x1003 \<Longrightarrow> i' \<noteq> 0x1003"
  shows "dict_read (fst (dict_write d i s data)) i' s' = dict_read d i' s'"
proof (cases "write_check d i s data = Sdo_none")
  case True
  have "entry (fst (assign d i s (decode_little_endian data))) i' s' = entry d i' s'"
    using assign_entry_same_index [OF wf write_check_writes [OF True]]
      assign_entry_other_index [OF write_check_writes [OF True]] other by (cases "i' = i") auto
  with True show ?thesis
    by (simp add: dict_write_cases dict_read_def)
qed (simp add: dict_write_cases)

section \<open>The invariant of the store\<close>

text \<open>
  What every history of writes keeps: the array bounds, at most eight mapped objects per PDO,
  and only mapping descriptors that name an object mappable in that direction.
\<close>

definition dict_inv :: "dictionary \<Rightarrow> bool" where
  "dict_inv d \<longleftrightarrow> wf_dictionary d \<and>
     (\<forall>n \<in> set (od_rpdo_mapping_count d). n \<le> 8) \<and> (\<forall>n \<in> set (od_tpdo_mapping_count d). n \<le> 8) \<and>
     (\<forall>m \<in> set (od_rpdo_mapping d). \<forall>x \<in> set m. valid_mapping d x False) \<and>
     (\<forall>m \<in> set (od_tpdo_mapping d). \<forall>x \<in> set m. valid_mapping d x True)"

lemma valid_mapping_const:
  "wf_dictionary d \<Longrightarrow> wf_dictionary d' \<Longrightarrow> valid_mapping d x t = valid_mapping d' x t"
  by (simp add: valid_mapping_def permissions_const [of d d'])

lemma wf_new_dictionary [simp]: "wf_dictionary new_dictionary"
  by (simp add: wf_dictionary_def new_dictionary_def)

lemma dict_inv_new [simp]: "dict_inv new_dictionary"
proof -
  have "od_rpdo_mapping_count new_dictionary = replicate 4 0"
    "od_tpdo_mapping_count new_dictionary = replicate 4 0"
    "od_rpdo_mapping new_dictionary = replicate 4 (replicate 8 0)"
    "od_tpdo_mapping new_dictionary = replicate 4 (replicate 8 0)"
    by (simp_all add: new_dictionary_def)
  then show ?thesis
    by (simp add: dict_inv_def valid_mapping_def)
qed

lemma set_at_offset:
  "x \<in> set (at_offset k f xs) \<Longrightarrow> x \<in> set xs \<or> (k < length xs \<and> x = f (xs ! k))"
  by (cases "k < length xs")
    (auto simp: at_offset_def list_update_beyond dest!: set_update_subset_insert [THEN subsetD])

lemma assign_od_rpdo_mapping_count:
  "od_rpdo_mapping_count (fst (assign d i s v)) =
     (if in_four_object_range i first_rpdo_mapping \<and> s = 0
      then (od_rpdo_mapping_count d)[unat i - unat first_rpdo_mapping := ucast v]
      else od_rpdo_mapping_count d)"
  by (auto simp: assign_def Let_def in_range_iff)

lemma assign_od_tpdo_mapping_count:
  "od_tpdo_mapping_count (fst (assign d i s v)) =
     (if in_four_object_range i first_tpdo_mapping \<and> s = 0
      then (od_tpdo_mapping_count d)[unat i - unat first_tpdo_mapping := ucast v]
      else od_tpdo_mapping_count d)"
  by (auto simp: assign_def Let_def in_range_iff)

lemma assign_od_rpdo_mapping:
  "od_rpdo_mapping (fst (assign d i s v)) =
     (if in_four_object_range i first_rpdo_mapping \<and> s \<noteq> 0
      then at_offset (unat i - unat first_rpdo_mapping) (\<lambda>m. m[unat s - 1 := v]) (od_rpdo_mapping d)
      else od_rpdo_mapping d)"
  by (auto simp: assign_def Let_def in_range_iff)

lemma assign_od_tpdo_mapping:
  "od_tpdo_mapping (fst (assign d i s v)) =
     (if in_four_object_range i first_tpdo_mapping \<and> s \<noteq> 0
      then at_offset (unat i - unat first_tpdo_mapping) (\<lambda>m. m[unat s - 1 := v]) (od_tpdo_mapping d)
      else od_tpdo_mapping d)"
  by (auto simp: assign_def Let_def in_range_iff)

lemma counts_update:
  "\<forall>n \<in> set xs. n \<le> (8::u8) \<Longrightarrow> v \<le> (8::u32) \<Longrightarrow> \<forall>n \<in> set (xs[k := byte_at v 0]). n \<le> 8"
proof -
  assume *: "\<forall>n \<in> set xs. n \<le> (8::u8)" "v \<le> 8"
  have "unat v \<le> 8"
    using *(2) by (simp add: word_le_nat_alt)
  then have "ucast v \<le> (8 :: u8)"
    by (simp add: word_le_nat_alt unsigned_ucast_eq take_bit_eq_mod del: byte_at_truncated)
  with * show ?thesis
    by (auto dest!: set_update_subset_insert [THEN subsetD])
qed

lemma rows_update:
  assumes "\<forall>m \<in> set xs. \<forall>x \<in> set m. P x" "P v"
  shows "\<forall>m \<in> set (at_offset k (\<lambda>m. m[j := v]) xs). \<forall>x \<in> set m. P x"
  using assms by (auto dest!: set_at_offset set_update_subset_insert [THEN subsetD])

lemma dict_inv_dict_write:
  assumes "dict_inv d"
  shows "dict_inv (fst (dict_write d i s data))"
proof (cases "write_check d i s data = Sdo_none")
  case True
  let ?v = "decode_little_endian data"
  let ?d = "fst (assign d i s ?v)"
  have wf: "wf_dictionary d" "wf_dictionary ?d"
    using assms by (simp_all add: dict_inv_def wf_assign)
  have count: "?v \<le> 8"
    if "in_four_object_range i first_rpdo_mapping \<or> in_four_object_range i first_tpdo_mapping" "s = 0"
    using True that by (auto simp: write_check_def absent_object_def Let_def split: option.splits if_splits)
  have rpdo: "valid_mapping d ?v False" if "in_four_object_range i first_rpdo_mapping" "s \<noteq> 0"
    using True that by (auto simp: write_check_def absent_object_def Let_def split: option.splits if_splits)
  have tpdo: "valid_mapping d ?v True" if "in_four_object_range i first_tpdo_mapping" "s \<noteq> 0"
    using True that by (auto simp: write_check_def absent_object_def Let_def split: option.splits if_splits)
  note inv = assms [unfolded dict_inv_def]
  have "\<forall>n \<in> set (od_rpdo_mapping_count ?d). n \<le> 8" "\<forall>n \<in> set (od_tpdo_mapping_count ?d). n \<le> 8"
    unfolding assign_od_rpdo_mapping_count assign_od_tpdo_mapping_count byte_at_truncated
    using inv count counts_update by (simp_all only: split: if_split) blast+
  moreover have "\<forall>m \<in> set (od_rpdo_mapping ?d). \<forall>x \<in> set m. valid_mapping d x False"
  proof (cases "in_four_object_range i first_rpdo_mapping \<and> s \<noteq> 0")
    case True
    then show ?thesis
      unfolding assign_od_rpdo_mapping if_P [OF True] using inv rpdo True by (intro rows_update) blast+
  qed (unfold assign_od_rpdo_mapping, use inv in \<open>simp only: if_False simp_thms split: if_split\<close>, blast)
  moreover have "\<forall>m \<in> set (od_tpdo_mapping ?d). \<forall>x \<in> set m. valid_mapping d x True"
  proof (cases "in_four_object_range i first_tpdo_mapping \<and> s \<noteq> 0")
    case True
    then show ?thesis
      unfolding assign_od_tpdo_mapping if_P [OF True] using inv tpdo True by (intro rows_update) blast+
  qed (unfold assign_od_tpdo_mapping, use inv in \<open>simp only: if_False simp_thms split: if_split\<close>, blast)
  ultimately have "dict_inv ?d"
    unfolding dict_inv_def valid_mapping_const [OF wf(2,1)] using wf(2) by blast
  with True show ?thesis by (simp add: dict_write_cases)
qed (simp add: dict_write_cases assms)

lemma dict_inv_error_updates:
  "dict_inv d \<Longrightarrow> dict_inv (dict_set_error_register d v)"
  "dict_inv d \<Longrightarrow> dict_inv (set_error_history d slot w)"
  "dict_inv d \<Longrightarrow> dict_inv (dict_communication_reset d)"
proof -
  assume inv: "dict_inv d"
  have "dict_inv e" if "wf_dictionary e" "od_rpdo_mapping e = od_rpdo_mapping d"
    "od_tpdo_mapping e = od_tpdo_mapping d" "od_rpdo_mapping_count e = od_rpdo_mapping_count d"
    "od_tpdo_mapping_count e = od_tpdo_mapping_count d" for e
    using inv that by (simp add: dict_inv_def valid_mapping_const [of e d])
  moreover have "wf_dictionary d"
    using inv by (simp add: dict_inv_def)
  ultimately show "dict_inv (dict_set_error_register d v)" "dict_inv (set_error_history d slot w)"
    "dict_inv (dict_communication_reset d)"
    by (simp_all add: inv dict_set_error_register_def set_error_history_def
        dict_communication_reset_def wf_dictionary_def)
qed

section \<open>The dictionary as an object store\<close>

definition dict_get :: "dictionary \<Rightarrow> u16 \<times> u8 \<Rightarrow> bytes option" where
  "dict_get d k =
     (let r = dict_read d (fst k) (snd k) in if read_abort r = Sdo_none then Some (read_data r) else None)"

definition dict_put :: "dictionary \<Rightarrow> u16 \<times> u8 \<Rightarrow> bytes \<Rightarrow> dictionary option" where
  "dict_put d k data =
     (let (d', r) = dict_write d (fst k) (snd k) data in if write_abort r = Sdo_none then Some d' else None)"

definition clears_history :: "u16 \<times> u8 \<Rightarrow> u16 \<times> u8 \<Rightarrow> bool" where
  "clears_history k k' \<longleftrightarrow> fst k = 0x1003 \<and> fst k' = 0x1003"

lemma dict_put_Some:
  "dict_put d k data = Some d' \<longleftrightarrow>
     write_check d (fst k) (snd k) data = Sdo_none \<and> d' = fst (dict_write d (fst k) (snd k) data)"
  by (auto simp: dict_put_def dict_write_cases Let_def)

interpretation od: object_store dict_get dict_put clears_history dict_inv
proof
  fix d k x d'
  assume inv: "dict_inv d" and put: "dict_put d k x = Some d'"
  then have wf: "wf_dictionary d"
    by (simp add: dict_inv_def)
  show "dict_inv d'"
    using inv put by (simp add: dict_put_Some dict_inv_dict_write)
  show "dict_get d' k = Some x"
    using wf put by (simp add: dict_put_Some dict_get_def dict_write_read_same Let_def)
  fix k'
  assume "k' \<noteq> k" "\<not> clears_history k k'"
  then show "dict_get d' k' = dict_get d k'"
    using put dict_write_read_other [OF wf, of "fst k'" "snd k'" "fst k" "snd k" x]
    by (simp add: dict_put_Some dict_get_def clears_history_def prod_eq_iff)
qed


text \<open>
  An SDO write is accepted exactly or refused entirely. Accepted, the object reads back the
  written bytes and every other object reads as before, except that clearing the error history
  (0x1003) changes its own entries; refused, the store is unchanged and no external effect is
  reported.
\<close>
theorem dict_write_outcome:
  assumes "wf_dictionary d" and "dict_write d i s data = (d', r)"
  shows "if write_abort r = Sdo_none
         then dict_read d' i s = \<lparr>read_abort = Sdo_none, read_data = data\<rparr> \<and>
              (\<forall>i' s'. (i', s') \<noteq> (i, s) \<and> \<not> (i = 0x1003 \<and> i' = 0x1003) \<longrightarrow>
                 dict_read d' i' s' = dict_read d i' s')
         else d' = d \<and> write_effects r = no_effects"
proof -
  have d': "d' = fst (dict_write d i s data)" and r: "r = snd (dict_write d i s data)"
    using assms(2) by simp_all
  show ?thesis
  proof (cases "write_check d i s data = Sdo_none")
    case True
    then show ?thesis
      using dict_write_read_same [OF assms(1) True] dict_write_read_other [OF assms(1)]
      by (auto simp: d' r)
  next
    case False
    then show ?thesis
      using dict_write_refused [of d i s data] by (simp add: d' r)
  qed
qed

theorem dict_write_outcome_witness:
  "dict_read (fst (dict_write new_dictionary 0x1017 0 [0xE8, 3])) 0x1017 0 =
     \<lparr>read_abort = Sdo_none, read_data = [0xE8, 3]\<rparr>"
proof -
  have "write_check new_dictionary 0x1017 0 [0xE8, 3] = Sdo_none"
    by (simp add: write_check_def entry_at entry_of_def access_def in_four_object_range_def
        absent_object_def Let_def)
  then show ?thesis
    using dict_write_outcome [OF wf_new_dictionary, where i = "0x1017" and s = 0 and data = "[0xE8, 3]"]
    by (metis prod.collapse write_abort_dict_write)
qed

end
