(* ===== verification/Canopen_Node.thy ===== *)
theory Canopen_Node
  imports Firmware_Prelude
begin

text \<open>
  Classic CAN frames and the local CANopen node: \<open>components/core/src/can/canopen_node.cpp\<close> and
  its header, and the mapping from bus health to the error register in \<open>can_error_policy.cpp\<close>.
  The lemmas give the invariant of the timers and the exact cycles in which heartbeats and the
  delayed restart appear.
\<close>

section \<open>Frames\<close>

record can_frame =
  can_identifier :: u16
  can_data :: bytes
  can_size :: u8

definition empty_can_frame :: can_frame where
  "empty_can_frame = \<lparr>can_identifier = 0, can_data = replicate 8 0, can_size = 0\<rparr>"

text \<open>The data array has eight elements, and a received frame says how many are meaningful.\<close>

definition wf_can_frame :: "can_frame \<Rightarrow> bool" where
  "wf_can_frame f \<longleftrightarrow> length (can_data f) = 8 \<and> can_size f \<le> 8"

lemma wf_empty_can_frame [simp]: "wf_can_frame empty_can_frame"
  by (simp add: wf_can_frame_def empty_can_frame_def)

abbreviation (input) canopen_node_id :: u8 where "canopen_node_id \<equiv> 0x11"
abbreviation (input) nmt_identifier :: u16 where "nmt_identifier \<equiv> 0x000"
abbreviation (input) sdo_request_identifier :: u16 where "sdo_request_identifier \<equiv> 0x611"
abbreviation (input) sdo_response_identifier :: u16 where "sdo_response_identifier \<equiv> 0x591"
abbreviation (input) heartbeat_identifier :: u16 where "heartbeat_identifier \<equiv> 0x711"

definition can_error_register_from_status :: "bool \<Rightarrow> u8 \<Rightarrow> u8 \<Rightarrow> u8" where
  "can_error_register_from_status bus_off tx_error_count rx_error_count =
     (if bus_off \<or> tx_error_count \<noteq> 0 \<or> rx_error_count \<noteq> 0 then 0x10 else 0)"

section \<open>The node\<close>

datatype nmt_state = Initializing | Stopped | Operational | Pre_operational

fun nmt_state_code :: "nmt_state \<Rightarrow> u8" where
  "nmt_state_code Initializing = 0"
| "nmt_state_code Stopped = 4"
| "nmt_state_code Operational = 5"
| "nmt_state_code Pre_operational = 127"

datatype nmt_request_effect = Nmt_none | Communication_reset | Restart_scheduled

record node =
  nmt_state :: nmt_state
  producer_period :: u16
  heartbeat_remaining :: u16
  restart_remaining :: u16
  bootup_pending :: bool
  heartbeat_forced :: bool

record cycle_result =
  cycle_frame :: "can_frame option"
  restart_mainboard :: bool

definition new_node :: node where
  "new_node =
     \<lparr>nmt_state = Initializing, producer_period = 0, heartbeat_remaining = 0,
      restart_remaining = 0, bootup_pending = True, heartbeat_forced = False\<rparr>"

definition decrement_cycle :: "u16 \<Rightarrow> u16" where
  "decrement_cycle remaining = (if remaining \<le> 10 then 0 else remaining - 10)"

definition heartbeat_frame :: "nmt_state \<Rightarrow> can_frame" where
  "heartbeat_frame state =
     empty_can_frame
       \<lparr>can_identifier := heartbeat_identifier, can_size := 1,
        can_data := (can_data empty_can_frame)[0 := nmt_state_code state]\<rparr>"

definition select_state :: "node \<Rightarrow> nmt_state \<Rightarrow> node" where
  "select_state n state =
     (if nmt_state n = state then n
      else let n = n\<lparr>nmt_state := state\<rparr>
           in if producer_period n \<noteq> 0 then n\<lparr>heartbeat_forced := True\<rparr> else n)"

definition reset_communication :: "node \<Rightarrow> node" where
  "reset_communication n =
     n\<lparr>nmt_state := Initializing, bootup_pending := True, heartbeat_forced := False,
       heartbeat_remaining := min (producer_period n) 500\<rparr>"

definition accept_nmt :: "node \<Rightarrow> can_frame \<Rightarrow> node \<times> nmt_request_effect" where
  "accept_nmt n frame =
     (if can_identifier frame \<noteq> nmt_identifier \<or> can_size frame \<noteq> 2 then (n, Nmt_none)
      else
        let target = can_data frame ! 1; command = can_data frame ! 0
        in if target \<noteq> canopen_node_id \<and> target \<noteq> 0 then (n, Nmt_none)
           else if command = 0x01 then (select_state n Operational, Nmt_none)
           else if command = 0x02 then (select_state n Stopped, Nmt_none)
           else if command = 0x80 then (select_state n Pre_operational, Nmt_none)
           else if command = 0x81 then (n\<lparr>restart_remaining := 100\<rparr>, Restart_scheduled)
           else if command = 0x82 then (reset_communication n, Communication_reset)
           else (n, Nmt_none))"

definition set_producer_heartbeat_period :: "node \<Rightarrow> u16 \<Rightarrow> node" where
  "set_producer_heartbeat_period n period =
     n\<lparr>producer_period := period, heartbeat_remaining := period,
       heartbeat_forced := (period \<noteq> 0)\<rparr>"

definition node_set_error_register :: "node \<Rightarrow> u8 \<Rightarrow> node" where
  "node_set_error_register n error_register =
     (if nmt_state n = Operational \<and> error_register AND 0x11 \<noteq> 0
      then select_state n Pre_operational else n)"

text \<open>One processing cycle: the restart countdown first, then boot-up or heartbeat.\<close>

definition restart_cycle :: "node \<Rightarrow> node \<times> bool" where
  "restart_cycle n =
     (if restart_remaining n \<noteq> 0
      then let n = n\<lparr>restart_remaining := decrement_cycle (restart_remaining n)\<rparr>
           in (n, restart_remaining n = 0)
      else (n, False))"

definition heartbeat_cycle :: "node \<Rightarrow> node \<times> can_frame option" where
  "heartbeat_cycle n =
     (if bootup_pending n then
        let n = n\<lparr>nmt_state := Operational, bootup_pending := False\<rparr>;
            n = (if producer_period n \<noteq> 0
                 then n\<lparr>heartbeat_remaining := decrement_cycle (heartbeat_remaining n)\<rparr> else n)
        in (n, Some (heartbeat_frame Initializing))
      else if producer_period n = 0 then (n, None)
      else if heartbeat_forced n then
        (n\<lparr>heartbeat_forced := False, heartbeat_remaining := producer_period n\<rparr>,
         Some (heartbeat_frame (nmt_state n)))
      else
        let n = n\<lparr>heartbeat_remaining := decrement_cycle (heartbeat_remaining n)\<rparr>
        in if heartbeat_remaining n = 0
           then (n\<lparr>heartbeat_remaining := producer_period n\<rparr>,
                 Some (heartbeat_frame (nmt_state n)))
           else (n, None))"

definition node_process_cycle :: "node \<Rightarrow> node \<times> cycle_result" where
  "node_process_cycle n =
     (let (n, restart) = restart_cycle n; (n, out) = heartbeat_cycle n
      in (n, \<lparr>cycle_frame = out, restart_mainboard = restart\<rparr>))"

section \<open>The invariant of the timers\<close>

definition node_inv :: "node \<Rightarrow> bool" where
  "node_inv n \<longleftrightarrow>
     heartbeat_remaining n \<le> producer_period n \<and> restart_remaining n \<le> 100 \<and>
     (heartbeat_forced n \<longrightarrow> producer_period n \<noteq> 0) \<and>
     (nmt_state n = Initializing \<longrightarrow> bootup_pending n)"

lemma decrement_cycle_le: "decrement_cycle r \<le> r"
  by (simp add: decrement_cycle_def word_sub_le)

lemma unat_decrement_cycle: "unat (decrement_cycle r) = unat r - 10"
  by (simp add: decrement_cycle_def unat_sub word_le_nat_alt)

lemma node_inv_new [simp]: "node_inv new_node"
  by (simp add: node_inv_def new_node_def)

lemma node_inv_select_state [simp]:
  "node_inv n \<Longrightarrow> s \<noteq> Initializing \<Longrightarrow> node_inv (select_state n s)"
  by (auto simp: node_inv_def select_state_def Let_def)

lemma node_inv_accept_nmt [simp]: "node_inv n \<Longrightarrow> node_inv (fst (accept_nmt n f))"
  by (auto simp: accept_nmt_def Let_def) (simp_all add: node_inv_def reset_communication_def)

lemma node_inv_set_period [simp]: "node_inv n \<Longrightarrow> node_inv (set_producer_heartbeat_period n p)"
  by (simp add: node_inv_def set_producer_heartbeat_period_def)

lemma node_inv_set_error [simp]: "node_inv n \<Longrightarrow> node_inv (node_set_error_register n e)"
  by (simp add: node_set_error_register_def)

lemma node_inv_restart_cycle: "node_inv n \<Longrightarrow> node_inv (fst (restart_cycle n))"
  using decrement_cycle_le [of "restart_remaining n"]
  by (auto simp: node_inv_def restart_cycle_def Let_def)

lemma node_inv_heartbeat_cycle: "node_inv n \<Longrightarrow> node_inv (fst (heartbeat_cycle n))"
  using decrement_cycle_le [of "heartbeat_remaining n"]
  by (auto simp: node_inv_def heartbeat_cycle_def Let_def)

lemma node_inv_process_cycle [simp]: "node_inv n \<Longrightarrow> node_inv (fst (node_process_cycle n))"
  using node_inv_restart_cycle [of n] node_inv_heartbeat_cycle [of "fst (restart_cycle n)"]
  by (simp add: node_process_cycle_def Let_def case_prod_beta)

text \<open>What the operations leave of the retained period.\<close>

lemma producer_period_select_state [simp]: "producer_period (select_state n s) = producer_period n"
  by (simp add: select_state_def Let_def)

lemma producer_period_kept [simp]:
  "producer_period (fst (accept_nmt n f)) = producer_period n"
  "producer_period (node_set_error_register n e) = producer_period n"
  "producer_period (fst (node_process_cycle n)) = producer_period n"
  by (auto simp: accept_nmt_def reset_communication_def node_set_error_register_def
      node_process_cycle_def restart_cycle_def heartbeat_cycle_def Let_def split: prod.splits)

section \<open>Schedules\<close>

text \<open>A number of processing cycles and their results.\<close>

fun node_run :: "nat \<Rightarrow> node \<Rightarrow> node \<times> cycle_result list" where
  "node_run 0 n = (n, [])"
| "node_run (Suc k) n =
     (let (n, r) = node_process_cycle n; (n, rs) = node_run k n in (n, r # rs))"

lemma node_run_quiet:
  assumes "\<not> bootup_pending n" "producer_period n \<noteq> 0" "\<not> heartbeat_forced n"
    "restart_remaining n = 0" "10 * k < unat (heartbeat_remaining n)"
  shows "\<exists>r. node_run k n = (n\<lparr>heartbeat_remaining := r\<rparr>,
                          replicate k \<lparr>cycle_frame = None, restart_mainboard = False\<rparr>) \<and>
             unat r = unat (heartbeat_remaining n) - 10 * k"
  using assms
proof (induction k arbitrary: n)
  case 0
  then show ?case by (intro exI [of _ "heartbeat_remaining n"]) simp
next
  case (Suc k)
  let ?n = "n\<lparr>heartbeat_remaining := decrement_cycle (heartbeat_remaining n)\<rparr>"
  have "decrement_cycle (heartbeat_remaining n) \<noteq> 0"
    using Suc.prems(5) unat_decrement_cycle [of "heartbeat_remaining n"] by auto
  then have step: "node_process_cycle n = (?n, \<lparr>cycle_frame = None, restart_mainboard = False\<rparr>)"
    using Suc.prems by (simp add: node_process_cycle_def restart_cycle_def heartbeat_cycle_def Let_def)
  obtain r where "node_run k ?n = (?n\<lparr>heartbeat_remaining := r\<rparr>,
      replicate k \<lparr>cycle_frame = None, restart_mainboard = False\<rparr>)"
    "unat r = unat (heartbeat_remaining ?n) - 10 * k"
    using Suc.IH [of ?n] Suc.prems by (auto simp: unat_decrement_cycle less_diff_conv add.commute)
  then show ?case
    by (intro exI [of _ r]) (simp add: step unat_decrement_cycle)
qed

lemma node_run_add:
  "node_run (k + l) n =
     (let (n, rs) = node_run k n; (n, rs') = node_run l n in (n, rs @ rs'))"
  by (induction k arbitrary: n) (auto simp: Let_def split: prod.splits)

text \<open>
  The heartbeat is published with its exact period: a node that has just published one is
  silent for one cycle less than the period rounded up to 10 ms cycles, then publishes its state
  again and is where it started.
\<close>
theorem heartbeat_schedule:
  assumes "\<not> bootup_pending n" "producer_period n \<noteq> 0" "\<not> heartbeat_forced n"
    "restart_remaining n = 0" "heartbeat_remaining n = producer_period n"
  shows "node_run ((unat (producer_period n) + 9) div 10) n =
    (n, replicate ((unat (producer_period n) - 1) div 10)
          \<lparr>cycle_frame = None, restart_mainboard = False\<rparr> @
        [\<lparr>cycle_frame = Some (heartbeat_frame (nmt_state n)), restart_mainboard = False\<rparr>])"
proof -
  let ?p = "unat (producer_period n)"
  define q where "q = (?p - 1) div 10"
  have p: "0 < ?p"
    using assms(2) by (simp add: unat_gt_0)
  have cycles: "(?p + 9) div 10 = q + 1" and left: "10 * q < ?p"
    using p unfolding q_def by linarith+
  obtain r where run: "node_run (q) n = (n\<lparr>heartbeat_remaining := r\<rparr>,
      replicate (q) \<lparr>cycle_frame = None, restart_mainboard = False\<rparr>)"
    and r: "unat r = ?p - 10 * (q)"
    using node_run_quiet [OF assms(1-4), of q] left assms(5) by auto
  have "unat r \<le> 10"
    using r p unfolding q_def by linarith
  then have "decrement_cycle r = 0"
    by (simp add: decrement_cycle_def word_le_nat_alt)
  then have "node_process_cycle (n\<lparr>heartbeat_remaining := r\<rparr>) =
      (n, \<lparr>cycle_frame = Some (heartbeat_frame (nmt_state n)), restart_mainboard = False\<rparr>)"
    using assms by (simp add: node_process_cycle_def restart_cycle_def heartbeat_cycle_def Let_def)
  then show ?thesis
    unfolding cycles node_run_add q_def [symmetric] by (simp add: run)
qed

theorem heartbeat_schedule_witness:
  "\<not> bootup_pending (new_node\<lparr>bootup_pending := False, nmt_state := Operational,
       producer_period := 25, heartbeat_remaining := 25\<rparr>) \<and>
   snd (node_run 3 (new_node\<lparr>bootup_pending := False, nmt_state := Operational,
       producer_period := 25, heartbeat_remaining := 25\<rparr>)) =
     replicate 2 \<lparr>cycle_frame = None, restart_mainboard = False\<rparr> @
     [\<lparr>cycle_frame = Some (heartbeat_frame Operational), restart_mainboard = False\<rparr>]"
  using heartbeat_schedule [of "new_node\<lparr>bootup_pending := False, nmt_state := Operational,
       producer_period := 25, heartbeat_remaining := 25\<rparr>"]
  by (simp add: new_node_def)

lemma restart_remaining_heartbeat_cycle [simp]:
  "restart_remaining (fst (heartbeat_cycle n)) = restart_remaining n"
  by (simp add: heartbeat_cycle_def Let_def)

lemma restart_remaining_process_cycle:
  "restart_remaining (fst (node_process_cycle n)) =
     (if restart_remaining n = 0 then 0 else decrement_cycle (restart_remaining n))"
  "restart_mainboard (snd (node_process_cycle n)) \<longleftrightarrow>
     restart_remaining n \<noteq> 0 \<and> decrement_cycle (restart_remaining n) = 0"
  by (simp_all add: node_process_cycle_def restart_cycle_def Let_def case_prod_beta)

lemma node_run_restart_flags:
  "map restart_mainboard (snd (node_run k n)) =
     map (\<lambda>c. restart_remaining n \<noteq> 0 \<and> c = (unat (restart_remaining n) - 1) div 10) [0..<k]"
proof (induction k arbitrary: n)
  case (Suc k)
  let ?r = "restart_remaining n" and ?n = "fst (node_process_cycle n)"
  have upt: "[0..<Suc k] = 0 # map Suc [0..<k]"
    by (simp add: map_Suc_upt upt_conv_Cons)
  have dec: "decrement_cycle ?r = 0 \<longleftrightarrow> unat ?r \<le> 10"
    by (simp add: unat_eq_zero [symmetric] unat_decrement_cycle)
  have first: "?r \<noteq> 0 \<and> decrement_cycle ?r = 0 \<longleftrightarrow> ?r \<noteq> 0 \<and> 0 = (unat ?r - 1) div 10"
    unfolding dec by auto
  have rest: "restart_remaining ?n \<noteq> 0 \<and> c = (unat (restart_remaining ?n) - 1) div 10 \<longleftrightarrow>
      ?r \<noteq> 0 \<and> Suc c = (unat ?r - 1) div 10" for c
  proof (cases "?r = 0 \<or> unat ?r \<le> 10")
    case True
    then show ?thesis
      by (auto simp: restart_remaining_process_cycle dec)
  next
    case False
    then have "(unat ?r - 1) div 10 = Suc ((unat ?r - 10 - 1) div 10)"
      by linarith
    with False show ?thesis
      by (simp add: restart_remaining_process_cycle dec unat_decrement_cycle)
  qed
  have "map restart_mainboard (snd (node_run (Suc k) n)) =
      restart_mainboard (snd (node_process_cycle n)) # map restart_mainboard (snd (node_run k ?n))"
    by (simp add: Let_def case_prod_beta)
  also have "\<dots> = map (\<lambda>c. ?r \<noteq> 0 \<and> c = (unat ?r - 1) div 10) [0..<Suc k]"
    unfolding Suc.IH upt restart_remaining_process_cycle(2) first
    by (simp only: list.map map_map comp_def rest)
  finally show ?case .
qed simp

text \<open>
  An NMT reset-node request addressed to this node or to all nodes restarts the mainboard
  exactly once, in the tenth following cycle (100 ms), however many cycles are run.
\<close>
theorem reset_node_restarts_once:
  assumes "can_identifier f = 0" "can_size f = 2" "can_data f ! 0 = 0x81"
    "can_data f ! 1 = 0x11 \<or> can_data f ! 1 = 0"
  shows "map restart_mainboard (snd (node_run k (fst (accept_nmt n f)))) = map (\<lambda>c. c = 9) [0..<k]"
  using assms by (auto simp: node_run_restart_flags accept_nmt_def Let_def)

theorem reset_node_restarts_once_witness:
  "map restart_mainboard (snd (node_run 12 (fst (accept_nmt new_node
     (empty_can_frame\<lparr>can_size := 2, can_data := [0x81, 0x11, 0, 0, 0, 0, 0, 0]\<rparr>))))) =
   map (\<lambda>c. c = 9) [0..<12]"
  by (rule reset_node_restarts_once) (simp_all add: empty_can_frame_def)

end
