(* ===== verification/Canopen_Sdo.thy ===== *)
theory Canopen_Sdo
  imports Canopen_Dictionary Canopen_Node
begin

text \<open>
  Expedited SDO transfers: the local server over the dictionary
  (\<open>components/core/src/can/canopen_sdo.cpp\<close>), the client codec (\<open>canopen_sdo_client.cpp\<close>) and
  the mailbox of one outstanding request (\<open>canopen_sdo_mailbox.cpp\<close>). The lemmas relate the two
  ends: what a client writes it reads back, every complete request is answered, and the answer
  to an upload is the one the mailbox waits for.
\<close>

section \<open>The server\<close>

record sdo_server_result =
  sdo_frame :: can_frame
  sdo_effects :: dictionary_write_effects

definition object_index :: "can_frame \<Rightarrow> u16" where
  "object_index request =
     ucast (can_data request ! 1) OR push_bit 8 (ucast (can_data request ! 2))"

definition response_header :: "can_frame \<Rightarrow> u8 \<Rightarrow> can_frame" where
  "response_header request command =
     empty_can_frame
       \<lparr>can_identifier := sdo_response_identifier, can_size := 8,
        can_data := (can_data empty_can_frame)
          [0 := command, 1 := can_data request ! 1, 2 := can_data request ! 2,
           3 := can_data request ! 3]\<rparr>"

text \<open>\<open>std::copy\<close> and the offset loop write a run of bytes into the array.\<close>

definition put_bytes :: "nat \<Rightarrow> bytes \<Rightarrow> can_frame \<Rightarrow> can_frame" where
  "put_bytes offset bs f =
     f\<lparr>can_data := take offset (can_data f) @ bs @ drop (offset + length bs) (can_data f)\<rparr>"

definition abort_response :: "can_frame \<Rightarrow> sdo_abort \<Rightarrow> sdo_server_result" where
  "abort_response request abort =
     \<lparr>sdo_frame = put_bytes 4 (map (byte_at (sdo_abort_code abort)) [0..<4])
                    (response_header request 0x80),
      sdo_effects = no_effects\<rparr>"

definition sdo_upload :: "dictionary \<Rightarrow> can_frame \<Rightarrow> u16 \<Rightarrow> u8 \<Rightarrow> sdo_server_result" where
  "sdo_upload d request index subindex =
     (let r = dict_read d index subindex
      in if read_abort r \<noteq> Sdo_none then abort_response request (read_abort r)
         else
           let unused = 4 - of_nat (length (read_data r)) :: u8;
               response = response_header request (0x43 OR push_bit 2 unused)
           in \<lparr>sdo_frame = put_bytes 4 (read_data r) response, sdo_effects = no_effects\<rparr>)"

definition sdo_download ::
  "dictionary \<Rightarrow> can_frame \<Rightarrow> u16 \<Rightarrow> u8 \<Rightarrow> u8 \<Rightarrow> dictionary \<times> sdo_server_result" where
  "sdo_download d request index subindex command =
     (let unused = drop_bit 2 command AND 0x03; size = 4 - unat unused;
          (d', w) = dict_write d index subindex (take size (drop 4 (can_data request)))
      in if write_abort w \<noteq> Sdo_none then (d', abort_response request (write_abort w))
         else (d', \<lparr>sdo_frame = response_header request 0x60, sdo_effects = write_effects w\<rparr>))"

definition sdo_handle ::
  "dictionary \<Rightarrow> can_frame \<Rightarrow> dictionary \<times> sdo_server_result option" where
  "sdo_handle d request =
     (if can_identifier request \<noteq> sdo_request_identifier \<or> can_size request \<noteq> 8 then (d, None)
      else
        let index = object_index request; subindex = can_data request ! 3;
            command = can_data request ! 0
        in if command = 0x40 then (d, Some (sdo_upload d request index subindex))
           else if command AND 0xf3 = 0x23 then
             let (d', r) = sdo_download d request index subindex command in (d', Some r)
           else (d, Some (abort_response request Command_specifier)))"

section \<open>The client\<close>

record sdo_client_response =
  response_index :: u16
  response_subindex :: u8
  response_value :: u32
  response_aborted :: bool

definition base_request :: "u8 \<Rightarrow> u16 \<Rightarrow> u8 \<Rightarrow> u8 \<Rightarrow> can_frame" where
  "base_request node index subindex command =
     empty_can_frame
       \<lparr>can_identifier := 0x600 + ucast node, can_size := 8,
        can_data := (can_data empty_can_frame)
          [0 := command, 1 := byte_at index 0, 2 := byte_at index 1, 3 := subindex]\<rparr>"

definition decode_u32 :: "bytes \<Rightarrow> u32" where
  "decode_u32 data =
     ucast (data ! 4) OR push_bit 8 (ucast (data ! 5)) OR push_bit 16 (ucast (data ! 6)) OR
     push_bit 24 (ucast (data ! 7))"

definition make_sdo_upload_request :: "u8 \<Rightarrow> u16 \<Rightarrow> u8 \<Rightarrow> can_frame" where
  "make_sdo_upload_request node index subindex = base_request node index subindex 0x40"

definition make_sdo_download_request :: "u8 \<Rightarrow> u16 \<Rightarrow> u8 \<Rightarrow> u32 \<Rightarrow> can_frame" where
  "make_sdo_download_request node index subindex value =
     (let frame = base_request node index subindex 0x23
      in frame\<lparr>can_data := (can_data frame)
            [4 := byte_at value 0, 5 := byte_at value 1, 6 := byte_at value 2,
             7 := byte_at value 3]\<rparr>)"

definition parse_sdo_client_response ::
  "can_frame \<Rightarrow> u8 \<Rightarrow> u16 \<Rightarrow> u8 \<Rightarrow> sdo_client_response option" where
  "parse_sdo_client_response frame node index subindex =
     (if can_identifier frame \<noteq> 0x580 + ucast node \<or> can_size frame \<noteq> 8 \<or>
         can_data frame ! 1 \<noteq> byte_at index 0 \<or> can_data frame ! 2 \<noteq> byte_at index 1 \<or>
         can_data frame ! 3 \<noteq> subindex
      then None
      else if can_data frame ! 0 = 0x80 then
        Some \<lparr>response_index = index, response_subindex = subindex, response_value = 0,
              response_aborted = True\<rparr>
      else if can_data frame ! 0 \<noteq> 0x43 then None
      else
        Some \<lparr>response_index = index, response_subindex = subindex,
              response_value = decode_u32 (can_data frame), response_aborted = False\<rparr>)"

section \<open>The mailbox\<close>

record pending_request =
  pending_node :: u8
  pending_index :: u16
  pending_subindex :: u8
  pending_deadline :: u64

text \<open>The mailbox is its optional pending request; each operation returns the next one.\<close>

type_synonym mailbox = "pending_request option"

definition begin_upload ::
  "mailbox \<Rightarrow> u8 \<Rightarrow> u16 \<Rightarrow> u8 \<Rightarrow> u64 \<Rightarrow> u32 \<Rightarrow> mailbox \<times> can_frame option" where
  "begin_upload m node index subindex now timeout =
     (if m \<noteq> None then (m, None)
      else (Some \<lparr>pending_node = node, pending_index = index, pending_subindex = subindex,
                  pending_deadline = now + ucast timeout\<rparr>,
            Some (make_sdo_upload_request node index subindex)))"

definition begin_download ::
  "mailbox \<Rightarrow> u8 \<Rightarrow> u16 \<Rightarrow> u8 \<Rightarrow> u32 \<Rightarrow> u64 \<Rightarrow> u32 \<Rightarrow> mailbox \<times> can_frame option" where
  "begin_download m node index subindex value now timeout =
     (if m \<noteq> None then (m, None)
      else (Some \<lparr>pending_node = node, pending_index = index, pending_subindex = subindex,
                  pending_deadline = now + ucast timeout\<rparr>,
            Some (make_sdo_download_request node index subindex value)))"

definition mailbox_accept :: "mailbox \<Rightarrow> can_frame \<Rightarrow> mailbox \<times> sdo_client_response option" where
  "mailbox_accept m frame =
     (case m of
        None \<Rightarrow> (m, None)
      | Some request \<Rightarrow>
          case parse_sdo_client_response frame (pending_node request) (pending_index request)
                 (pending_subindex request) of
            None \<Rightarrow> (m, None)
          | Some response \<Rightarrow> (None, Some response))"

definition mailbox_timed_out :: "mailbox \<Rightarrow> u64 \<Rightarrow> mailbox \<times> bool" where
  "mailbox_timed_out m now =
     (case m of
        None \<Rightarrow> (m, False)
      | Some request \<Rightarrow> if now < pending_deadline request then (m, False) else (None, True))"

definition mailbox_pending :: "mailbox \<Rightarrow> bool" where
  "mailbox_pending m \<longleftrightarrow> m \<noteq> None"

section \<open>Requests and responses\<close>

lemma base_request_fields [simp]:
  "can_identifier (base_request node i s c) = 0x600 + ucast node"
  "can_size (base_request node i s c) = 8"
  "can_data (base_request node i s c) = [c, byte_at i 0, byte_at i 1, s, 0, 0, 0, 0]"
  by (simp_all add: base_request_def empty_can_frame_def numeral_eq_Suc)

lemma response_header_fields [simp]:
  "can_identifier (response_header r c) = 0x591"
  "can_size (response_header r c) = 8"
  "can_data (response_header r c) =
     [c, can_data r ! 1, can_data r ! 2, can_data r ! 3, 0, 0, 0, 0]"
  by (simp_all add: response_header_def empty_can_frame_def numeral_eq_Suc)

lemma put_bytes_fields [simp]:
  "can_identifier (put_bytes k bs f) = can_identifier f"
  "can_size (put_bytes k bs f) = can_size f"
  by (simp_all add: put_bytes_def)

lemma decode_u32_bytes [simp]:
  "decode_u32 [a, b, c, e, byte_at v 0, byte_at v (Suc 0), byte_at v 2, byte_at v 3] = v"
proof -
  have "decode_u32 [a, b, c, e, w, x, y, z] = be32 z y x w" for w x y z
    by (simp add: decode_u32_def be32_def ac_simps)
  then show ?thesis by simp
qed

lemma object_index_request [simp]:
  "can_data r = a # byte_at i 0 # byte_at i (Suc 0) # xs \<Longrightarrow> object_index r = i"
  by (rule bit_word_eqI) (auto simp: object_index_def octet_simps bit_simps)

lemma make_sdo_download_fields [simp]:
  "can_identifier (make_sdo_download_request node i s v) = 0x600 + ucast node"
  "can_size (make_sdo_download_request node i s v) = 8"
  "can_data (make_sdo_download_request node i s v) =
     [0x23, byte_at i 0, byte_at i 1, s, byte_at v 0, byte_at v 1, byte_at v 2, byte_at v 3]"
  by (simp_all add: make_sdo_download_request_def numeral_eq_Suc)

lemma make_sdo_upload_fields [simp]:
  "can_identifier (make_sdo_upload_request node i s) = 0x600 + ucast node"
  "can_size (make_sdo_upload_request node i s) = 8"
  "can_data (make_sdo_upload_request node i s) = [0x40, byte_at i 0, byte_at i 1, s, 0, 0, 0, 0]"
  by (simp_all add: make_sdo_upload_request_def)

lemma abort_response_fields [simp]:
  "can_identifier (sdo_frame (abort_response r a)) = 0x591"
  "can_size (sdo_frame (abort_response r a)) = 8"
  "can_data (sdo_frame (abort_response r a)) =
     [0x80, can_data r ! 1, can_data r ! 2, can_data r ! 3] @ map (byte_at (sdo_abort_code a)) [0..<4]"
  "sdo_effects (abort_response r a) = no_effects"
  by (simp_all add: abort_response_def) (simp add: put_bytes_def numeral_eq_Suc)

lemma word_list_4:
  "length (xs :: 'a list) = 4 \<Longrightarrow> \<exists>a b c d. xs = [a, b, c, d]"
  by (auto simp: numeral_eq_Suc length_Suc_conv)

lemma sdo_handle_download:
  "sdo_handle d (make_sdo_download_request 0x11 i s v) =
     (let (d', w) = dict_write d i s (map (byte_at v) [0..<4]);
          q = make_sdo_download_request 0x11 i s v
      in (d', Some (if write_abort w \<noteq> Sdo_none then abort_response q (write_abort w)
                    else \<lparr>sdo_frame = response_header q 0x60, sdo_effects = write_effects w\<rparr>)))"
proof -
  have "map (byte_at v) [0..<4] = [byte_at v 0, byte_at v 1, byte_at v 2, byte_at v 3]"
    by (simp add: upt_rec flip: numeral_2_eq_2 numeral_3_eq_3)
  then show ?thesis
    by (simp add: sdo_handle_def sdo_download_def Let_def case_prod_beta)
qed

text \<open>
  C31. What a client writes it reads back. A 32-bit download request to this node is either
  acknowledged, and the answer to the following upload request is parsed by the client as
  exactly the value written; or it is refused, the answer is parsed as an abort, and the store
  is unchanged.
\<close>
theorem sdo_write_then_read:
  assumes "wf_dictionary d"
    and "sdo_handle d (make_sdo_download_request 0x11 i s v) = (d', Some r)"
  shows "(can_data (sdo_frame r) ! 0 = 0x60 \<and>
            (\<exists>q. sdo_handle d' (make_sdo_upload_request 0x11 i s) = (d', Some q) \<and>
                 parse_sdo_client_response (sdo_frame q) 0x11 i s =
                   Some \<lparr>response_index = i, response_subindex = s, response_value = v,
                         response_aborted = False\<rparr>)) \<or>
         (can_data (sdo_frame r) ! 0 = 0x80 \<and> d' = d \<and>
            parse_sdo_client_response (sdo_frame r) 0x11 i s =
              Some \<lparr>response_index = i, response_subindex = s, response_value = 0,
                    response_aborted = True\<rparr>)"
proof -
  let ?data = "map (byte_at v) [0..<4]" and ?q = "make_sdo_download_request 0x11 i s v"
  have bs: "?data = [byte_at v 0, byte_at v 1, byte_at v 2, byte_at v 3]"
    by (simp add: upt_rec flip: numeral_2_eq_2 numeral_3_eq_3)
  have d': "d' = fst (dict_write d i s ?data)"
    and r: "r = (if write_check d i s ?data \<noteq> Sdo_none then abort_response ?q (write_check d i s ?data)
          else \<lparr>sdo_frame = response_header ?q 0x60, sdo_effects = write_effects (snd (dict_write d i s ?data))\<rparr>)"
    using assms(2) unfolding sdo_handle_download by (auto simp: case_prod_beta Let_def)
  show ?thesis
  proof (cases "write_check d i s ?data = Sdo_none")
    case True
    have "dict_read d' i s = \<lparr>read_abort = Sdo_none, read_data = ?data\<rparr>"
      unfolding d' by (rule dict_write_read_same [OF assms(1) True])
    then show ?thesis
      by (simp add: r True [unfolded bs, simplified] bs sdo_handle_def sdo_upload_def put_bytes_def parse_sdo_client_response_def)
  next
    case False
    then show ?thesis
      by (simp add: r d' dict_write_refused parse_sdo_client_response_def)
  qed
qed

theorem sdo_write_then_read_witness:
  "\<exists>d' r q. sdo_handle new_dictionary (make_sdo_download_request 0x11 0x1006 0 7) = (d', Some r) \<and>
     sdo_handle d' (make_sdo_upload_request 0x11 0x1006 0) = (d', Some q) \<and>
     parse_sdo_client_response (sdo_frame q) 0x11 0x1006 0 =
       Some \<lparr>response_index = 0x1006, response_subindex = 0, response_value = 7,
             response_aborted = False\<rparr>"
proof -
  obtain d' r where h: "sdo_handle new_dictionary (make_sdo_download_request 0x11 0x1006 0 7) = (d', Some r)"
    unfolding sdo_handle_download by (simp add: case_prod_beta Let_def)
  have "write_check new_dictionary 0x1006 0 (map (byte_at (7::u32)) [0..<4]) = Sdo_none"
    by (simp add: write_check_def entry_at entry_of_def access_def in_four_object_range_def Let_def)
  then have "can_data (sdo_frame r) ! 0 = 0x60"
    using h unfolding sdo_handle_download by (auto simp: case_prod_beta Let_def)
  then show ?thesis
    using sdo_write_then_read [OF wf_new_dictionary h] h by auto
qed

text \<open>What every answer of the server looks like.\<close>

definition answers :: "can_frame \<Rightarrow> sdo_server_result \<Rightarrow> bool" where
  "answers request r \<longleftrightarrow>
     can_identifier (sdo_frame r) = 0x591 \<and> can_size (sdo_frame r) = 8 \<and>
     wf_can_frame (sdo_frame r) \<and>
     take 3 (drop 1 (can_data (sdo_frame r))) = take 3 (drop 1 (can_data request))"

lemma request_address:
  "wf_can_frame request \<Longrightarrow> take 3 (drop (Suc 0) (can_data request)) =
     [can_data request ! 1, can_data request ! 2, can_data request ! 3]"
  by (auto simp: wf_can_frame_def numeral_eq_Suc length_Suc_conv)

lemma read_data_widths:
  assumes "read_abort (dict_read d i s) = Sdo_none"
  obtains a where "read_data (dict_read d i s) = [a]"
    | a b where "read_data (dict_read d i s) = [a, b]"
    | a b c e where "read_data (dict_read d i s) = [a, b, c, e]"
  using entry_sizes [of d i s] assms that
  by (auto simp: dict_read_def absent_object_def split: option.splits if_splits)

lemma answers_abort:
  assumes "wf_can_frame request"
  shows "answers request (abort_response request a)" "can_data (sdo_frame (abort_response request a)) ! 0 = 0x80"
  using assms by (simp_all add: answers_def request_address wf_can_frame_def)

lemma answers_header:
  assumes "wf_can_frame request"
  shows "answers request \<lparr>sdo_frame = response_header request c, sdo_effects = e\<rparr>"
  using assms by (simp add: answers_def request_address wf_can_frame_def [of "response_header _ _"])

lemma answers_upload:
  assumes "wf_can_frame request"
  shows "answers request (sdo_upload d request i s)"
    "can_data (sdo_frame (sdo_upload d request i s)) ! 0 \<in> {0x43, 0x4B, 0x4F, 0x80}"
    "sdo_effects (sdo_upload d request i s) = no_effects"
proof -
  have "answers request (sdo_upload d request i s) \<and>
    can_data (sdo_frame (sdo_upload d request i s)) ! 0 \<in> {0x43, 0x4B, 0x4F, 0x80} \<and>
    sdo_effects (sdo_upload d request i s) = no_effects"
  proof (cases "read_abort (dict_read d i s) = Sdo_none")
    case True
    then show ?thesis
      by (rule read_data_widths [of d i s])
        (simp_all add: sdo_upload_def True Let_def put_bytes_def answers_def wf_can_frame_def
          request_address [OF assms])
  next
    case False
    then show ?thesis
      using answers_abort [OF assms] by (simp add: sdo_upload_def Let_def)
  qed
  then show "answers request (sdo_upload d request i s)"
    "can_data (sdo_frame (sdo_upload d request i s)) ! 0 \<in> {0x43, 0x4B, 0x4F, 0x80}"
    "sdo_effects (sdo_upload d request i s) = no_effects"
    by simp_all
qed

lemma answers_download:
  assumes "wf_can_frame request"
  shows "case sdo_download d request i s c of (d', r) \<Rightarrow> answers request r \<and>
     (can_data (sdo_frame r) ! 0 = 0x60 \<or>
      can_data (sdo_frame r) ! 0 = 0x80 \<and> d' = d \<and> sdo_effects r = no_effects)"
  using answers_abort [OF assms] answers_header [OF assms]
  by (auto simp: sdo_download_def Let_def case_prod_beta dict_write_refused)

lemma sdo_server_answers:
  assumes "wf_can_frame request" "sdo_handle d request = (d', Some r)"
  shows "answers request r"
  using assms(2) answers_upload(1) [OF assms(1), of d "object_index request" "can_data request ! 3"]
    answers_abort(1) [OF assms(1), of Command_specifier]
    answers_download [OF assms(1), of d "object_index request" "can_data request ! 3" "can_data request ! 0"]
  by (auto simp: sdo_handle_def Let_def case_prod_beta split: if_splits)

text \<open>
  The server is total on its own traffic and silent on the rest. A complete request is
  answered by one eight-byte frame under the response identifier that echoes the object address
  and carries an upload, an acknowledgement or an abort; any other frame is ignored; and only an
  acknowledgement may have changed the dictionary.
\<close>
theorem sdo_server_response:
  assumes "wf_can_frame request"
  shows "case sdo_handle d request of
       (d', None) \<Rightarrow>
         d' = d \<and> (can_identifier request \<noteq> 0x611 \<or> can_size request \<noteq> 8)
     | (d', Some r) \<Rightarrow>
         can_identifier request = 0x611 \<and> can_size request = 8 \<and> answers request r \<and>
         can_data (sdo_frame r) ! 0 \<in> {0x43, 0x4B, 0x4F, 0x60, 0x80} \<and>
         (can_data (sdo_frame r) ! 0 = 0x60 \<or> d' = d \<and> sdo_effects r = no_effects)"
proof (cases "can_identifier request = 0x611 \<and> can_size request = 8")
  case True
  then show ?thesis
    using answers_upload [OF assms, of d "object_index request" "can_data request ! 3"]
      answers_abort [OF assms, of Command_specifier]
      answers_download [OF assms, of d "object_index request" "can_data request ! 3" "can_data request ! 0"]
    by (auto simp: sdo_handle_def Let_def case_prod_beta)
qed (auto simp: sdo_handle_def)

theorem sdo_server_response_witness:
  "case sdo_handle new_dictionary (make_sdo_upload_request 0x11 0x2000 0) of (d', None) \<Rightarrow> False
   | (d', Some r) \<Rightarrow> answers (make_sdo_upload_request 0x11 0x2000 0) r"
  using sdo_server_response [of "make_sdo_upload_request 0x11 0x2000 0" new_dictionary]
  by (auto simp: wf_can_frame_def split: option.splits prod.splits)

text \<open>
  The mailbox waits for the answer of an upload, whatever else arrives: a 32-bit object read
  from this node is delivered with its value and frees the mailbox, and until then no second
  request is admitted.
\<close>
theorem mailbox_upload_roundtrip:
  assumes "dict_read d i s = \<lparr>read_abort = Sdo_none, read_data = map (byte_at v) [0..<4]\<rparr>"
    and "begin_upload None 0x11 i s now timeout = (m, Some request)"
    and "sdo_handle d request = (d', Some r)"
  shows "mailbox_accept m (sdo_frame r) =
           (None, Some \<lparr>response_index = i, response_subindex = s, response_value = v,
                       response_aborted = False\<rparr>) \<and>
         begin_upload m node' i' s' now' timeout' = (m, None) \<and>
         begin_download m node' i' s' v' now' timeout' = (m, None)"
proof -
  have bs: "map (byte_at v) [0..<4] = [byte_at v 0, byte_at v 1, byte_at v 2, byte_at v 3]"
    by (simp add: upt_rec flip: numeral_2_eq_2 numeral_3_eq_3)
  have m: "m = Some \<lparr>pending_node = 0x11, pending_index = i, pending_subindex = s,
      pending_deadline = now + ucast timeout\<rparr>" "request = make_sdo_upload_request 0x11 i s"
    using assms(2) by (simp_all add: begin_upload_def)
  show ?thesis
    using assms(3)
    by (auto simp: m sdo_handle_def sdo_upload_def assms(1) bs put_bytes_def mailbox_accept_def
        parse_sdo_client_response_def begin_upload_def begin_download_def)
qed

theorem mailbox_upload_roundtrip_witness:
  "\<exists>m request d' r. begin_upload None 0x11 0x1005 0 1000 100 = (m, Some request) \<and>
     sdo_handle new_dictionary request = (d', Some r) \<and>
     mailbox_accept m (sdo_frame r) =
       (None, Some \<lparr>response_index = 0x1005, response_subindex = 0, response_value = 0x80,
                   response_aborted = False\<rparr>)"
proof -
  have rd: "dict_read new_dictionary 0x1005 0 =
      \<lparr>read_abort = Sdo_none, read_data = map (byte_at (0x80 :: u32)) [0..<4]\<rparr>"
    by (simp add: dict_read_def entry_at entry_of_def access_def encode_little_endian_def
        new_dictionary_def)
  obtain m request where b: "begin_upload None 0x11 0x1005 0 1000 100 = (m, Some request)"
    by (simp add: begin_upload_def)
  then obtain d' r where h: "sdo_handle new_dictionary request = (d', Some r)"
    by (auto simp: begin_upload_def sdo_handle_def)
  show ?thesis
    using mailbox_upload_roundtrip [OF rd b h] b h by blast
qed

text \<open>
  A finished download is never recognised. The acknowledgement that a server sends for a
  download (command byte 0x60) is not a response to the mailbox: it stays pending, the response
  is not delivered, and only the deadline frees it.
\<close>
theorem download_ack_not_recognised:
  assumes "begin_download None 0x11 i s v now timeout = (m, Some request)"
    and "sdo_handle d request = (d', Some r)" and "can_data (sdo_frame r) ! 0 = 0x60"
  shows "mailbox_accept m (sdo_frame r) = (m, None) \<and> mailbox_pending m \<and>
         (mailbox_timed_out m later = (None, True) \<longleftrightarrow> now + ucast timeout \<le> later)"
  using assms
  by (auto simp: begin_download_def mailbox_accept_def parse_sdo_client_response_def
      mailbox_pending_def mailbox_timed_out_def not_less split: if_splits)

theorem download_ack_not_recognised_witness:
  "\<exists>m request d' r. begin_download None 0x11 0x1006 0 7 1000 100 = (m, Some request) \<and>
     sdo_handle new_dictionary request = (d', Some r) \<and> can_data (sdo_frame r) ! 0 = 0x60 \<and>
     mailbox_accept m (sdo_frame r) = (m, None)"
proof -
  obtain m where b: "begin_download None 0x11 0x1006 0 7 1000 100 =
      (m, Some (make_sdo_download_request 0x11 0x1006 0 7))"
    by (simp add: begin_download_def)
  obtain d' r where h: "sdo_handle new_dictionary (make_sdo_download_request 0x11 0x1006 0 7) = (d', Some r)"
    unfolding sdo_handle_download by (simp add: case_prod_beta Let_def)
  have "write_check new_dictionary 0x1006 0 (map (byte_at (7::u32)) [0..<4]) = Sdo_none"
    by (simp add: write_check_def entry_at entry_of_def access_def in_four_object_range_def Let_def)
  then have ack: "can_data (sdo_frame r) ! 0 = 0x60"
    using h unfolding sdo_handle_download by (auto simp: case_prod_beta Let_def)
  show ?thesis
    using download_ack_not_recognised [OF b h ack] b h ack by blast
qed

end
