(* ===== verification/Canopen_Pdo.thy ===== *)
theory Canopen_Pdo
  imports Canopen_Dictionary Canopen_Node
begin

text \<open>
  Process data objects over the dictionary: the receive router
  (\<open>components/core/src/can/canopen_pdo.cpp\<close>) and the event-timed transmit scheduler
  (\<open>canopen_tpdo.cpp\<close>). The lemmas show what an accepted receive PDO stores, what a transmitted
  one carries, and how the scheduler shares its cycles.
\<close>

section \<open>Receive PDOs\<close>

definition pdo_read_u32 :: "bytes \<Rightarrow> u32" where
  "pdo_read_u32 data =
     ucast (data ! 0) OR push_bit 8 (ucast (data ! 1)) OR push_bit 16 (ucast (data ! 2)) OR
     push_bit 24 (ucast (data ! 3))"

definition decode_le :: "bytes \<Rightarrow> nat \<Rightarrow> nat \<Rightarrow> u32" where
  "decode_le data offset width =
     fold (\<lambda>index value. value OR push_bit (8 * index) (ucast (data ! (offset + index))))
       [0..<width] 0"

text \<open>
  The loop over the mapped entries: \<open>None\<close> for the early \<open>return false\<close>, otherwise the final
  payload offset. The dictionary is the state in either case.
\<close>

fun rpdo_entries ::
  "u8 \<Rightarrow> can_frame \<Rightarrow> nat list \<Rightarrow> dictionary \<Rightarrow> nat \<Rightarrow> dictionary \<times> nat option" where
  "rpdo_entries pdo frame [] d payload_offset = (d, Some payload_offset)"
| "rpdo_entries pdo frame (slot # slots) d payload_offset =
     (let mapping = dict_read d (first_rpdo_mapping + ucast pdo) (of_nat (1 + slot))
      in if read_abort mapping \<noteq> Sdo_none \<or> length (read_data mapping) \<noteq> 4 then (d, None)
         else
           let descriptor = pdo_read_u32 (read_data mapping);
               width_bits = unat (descriptor AND 0xff)
           in if width_bits = 0 \<or> width_bits mod 8 \<noteq> 0 \<or> 32 < width_bits \<or>
                 unat (can_size frame) < payload_offset + width_bits div 8
              then (d, None)
              else
                let index = ucast (drop_bit 16 descriptor);
                    subindex = ucast (drop_bit 8 descriptor);
                    width_bytes = width_bits div 8;
                    value = decode_le (can_data frame) payload_offset width_bytes;
                    encoded = map (byte_at value) [0..<width_bytes];
                    (d', w) = dict_write d index subindex encoded
                in if write_abort w \<noteq> Sdo_none then (d', None)
                   else rpdo_entries pdo frame slots d' (payload_offset + width_bytes))"

definition rpdo_receive_from :: "dictionary \<Rightarrow> u8 \<Rightarrow> can_frame \<Rightarrow> dictionary \<times> bool" where
  "rpdo_receive_from d pdo frame =
     (let identifier = dict_read d (first_rpdo_communication + ucast pdo) 1
      in if read_abort identifier \<noteq> Sdo_none \<or> length (read_data identifier) \<noteq> 4 then (d, False)
         else
           let configured = pdo_read_u32 (read_data identifier)
           in if configured AND disabled_identifier_mask \<noteq> 0 \<or>
                 configured AND 0x7ff \<noteq> ucast (can_identifier frame)
              then (d, False)
              else
                let count = dict_read d (first_rpdo_mapping + ucast pdo) 0
                in if read_abort count \<noteq> Sdo_none \<or> length (read_data count) \<noteq> 1 \<or>
                      8 < unat (read_data count ! 0)
                   then (d, False)
                   else
                     let (d', res) = rpdo_entries pdo frame [0..<unat (read_data count ! 0)] d 0
                     in (d', res = Some (unat (can_size frame))))"

fun rpdo_try :: "u8 list \<Rightarrow> dictionary \<Rightarrow> can_frame \<Rightarrow> dictionary \<times> bool" where
  "rpdo_try [] d frame = (d, False)"
| "rpdo_try (pdo # pdos) d frame =
     (let (d', consumed) = rpdo_receive_from d pdo frame
      in if consumed then (d', True) else rpdo_try pdos d' frame)"

definition rpdo_receive :: "dictionary \<Rightarrow> can_frame \<Rightarrow> dictionary \<times> bool" where
  "rpdo_receive d frame = rpdo_try [0, 1, 2, 3] d frame"

section \<open>Transmit PDOs\<close>

text \<open>The scheduler's state is the elapsed time of each of the four objects.\<close>

type_synonym tpdo_scheduler = "u32 list"

definition new_tpdo_scheduler :: tpdo_scheduler where
  "new_tpdo_scheduler = replicate 4 0"

definition read_le :: "dictionary_read_result \<Rightarrow> u32" where
  "read_le result = decode_little_endian (read_data result)"

text \<open>One mapped value appended at \<open>frame.size\<close>.\<close>

definition append_value :: "can_frame \<Rightarrow> bytes \<Rightarrow> can_frame" where
  "append_value frame bs =
     (let size = unat (can_size frame)
      in frame\<lparr>can_data := take size (can_data frame) @ bs @ drop (size + length bs) (can_data frame),
               can_size := of_nat (size + length bs)\<rparr>)"

fun tpdo_entries :: "dictionary \<Rightarrow> u16 \<Rightarrow> nat list \<Rightarrow> can_frame \<Rightarrow> can_frame option" where
  "tpdo_entries d mapping_index [] frame = Some frame"
| "tpdo_entries d mapping_index (slot # slots) frame =
     (let mapping = dict_read d mapping_index (of_nat (1 + slot))
      in if read_abort mapping \<noteq> Sdo_none \<or> length (read_data mapping) \<noteq> 4 then None
         else
           let descriptor = read_le mapping; width = unat (descriptor AND 0xff) div 8
           in if width = 0 \<or> 4 < width \<or> length (can_data frame) < unat (can_size frame) + width
              then None
              else
                let value = dict_read d (ucast (drop_bit 16 descriptor)) (ucast (drop_bit 8 descriptor))
                in if read_abort value \<noteq> Sdo_none \<or> length (read_data value) < width then None
                   else tpdo_entries d mapping_index slots
                          (append_value frame (take width (read_data value))))"

definition build_tpdo :: "dictionary \<Rightarrow> tpdo_scheduler \<Rightarrow> nat \<Rightarrow> can_frame option" where
  "build_tpdo d elapsed pdo =
     (let communication_index = 0x1800 + of_nat pdo;
          identifier = dict_read d communication_index 1;
          transmission = dict_read d communication_index 2;
          timer = dict_read d communication_index 5
      in if read_abort identifier \<noteq> Sdo_none \<or> read_abort transmission \<noteq> Sdo_none \<or>
            read_abort timer \<noteq> Sdo_none \<or> length (read_data identifier) \<noteq> 4 \<or>
            length (read_data transmission) \<noteq> 1 \<or> length (read_data timer) \<noteq> 2 \<or>
            read_le identifier AND disabled_identifier_mask \<noteq> 0 \<or> read_le timer = 0 \<or>
            elapsed ! pdo < read_le timer
         then None
         else
           let mapping_index = 0x1a00 + of_nat pdo; count = dict_read d mapping_index 0
           in if read_abort count \<noteq> Sdo_none \<or> length (read_data count) \<noteq> 1 \<or>
                 8 < unat (read_data count ! 0)
              then None
              else tpdo_entries d mapping_index [0..<unat (read_data count ! 0)]
                     (empty_can_frame\<lparr>can_identifier := ucast (read_le identifier AND 0x7ff)\<rparr>))"

fun tpdo_scan ::
  "nat list \<Rightarrow> dictionary \<Rightarrow> tpdo_scheduler \<Rightarrow> tpdo_scheduler \<times> can_frame option" where
  "tpdo_scan [] d elapsed = (elapsed, None)"
| "tpdo_scan (pdo # pdos) d elapsed =
     (let elapsed = elapsed[pdo := elapsed ! pdo + 10]
      in case build_tpdo d elapsed pdo of
           Some frame \<Rightarrow> (elapsed[pdo := 0], Some frame)
         | None \<Rightarrow> tpdo_scan pdos d elapsed)"

definition tpdo_process_cycle ::
  "dictionary \<Rightarrow> tpdo_scheduler \<Rightarrow> tpdo_scheduler \<times> can_frame option" where
  "tpdo_process_cycle d elapsed = tpdo_scan [0, 1, 2, 3] d elapsed"

section \<open>What an accepted receive PDO stores\<close>

lemma decode_le_bytes:
  assumes "w \<le> 4" "offset + w \<le> length data"
  shows "map (byte_at (decode_le data offset w)) [0..<w] = take w (drop offset data)"
proof -
  have "w \<in> {0, 1, 2, 3, 4}"
    using assms(1) by auto
  moreover have "map (byte_at (decode_le data offset w)) [0..<w] = map (\<lambda>i. data ! (offset + i)) [0..<w]"
    if "w \<in> {0, 1, 2, 3, 4}"
    using that unfolding decode_le_def
    by (elim insertE emptyE; simp only: upt_small)
      (auto intro!: bit_word_eqI simp: octet_simps bit_simps dest: bit_imp_le_length)
  ultimately show ?thesis
    using take_drop_nth [OF assms(2)] by simp
qed

lemma pdo_read_u32_encode: "pdo_read_u32 [byte_at v 0, byte_at v (Suc 0), byte_at v 2, byte_at v 3] = v"
proof -
  have "pdo_read_u32 [a, b, c, e] = be32 e c b a" for a b c e
    by (simp add: pdo_read_u32_def be32_def ac_simps)
  then show ?thesis by simp
qed

text \<open>Under the invariant, a mapped object is one that may be mapped.\<close>

lemma entry_mapping:
  assumes "n < 4" "0 < k" "k \<le> 8"
  shows "entry d (0x1600 + of_nat n) (of_nat k) =
           entry_of (od_rpdo_mapping d ! n ! (k - 1)) (access 32 True True True)"
    "entry d (0x1a00 + of_nat n) (of_nat k) =
           entry_of (od_tpdo_mapping d ! n ! (k - 1)) (access 32 True True True)"
proof -
  have n: "n \<in> {0, 1, 2, 3}" and k: "k \<in> {1, 2, 3, 4, 5, 6, 7, 8}"
    using assms by auto
  have s: "(of_nat k :: u8) \<noteq> 0" "unat (of_nat k :: u8) = k"
    using k by auto
  show "entry d (0x1600 + of_nat n) (of_nat k) =
           entry_of (od_rpdo_mapping d ! n ! (k - 1)) (access 32 True True True)"
    "entry d (0x1a00 + of_nat n) (of_nat k) =
           entry_of (od_tpdo_mapping d ! n ! (k - 1)) (access 32 True True True)"
    using n assms(3) by (elim insertE emptyE; simp add: entry_at s)+
qed

lemma valid_stored_mapping:
  assumes "dict_inv d" "n < 4" "0 < k" "k \<le> 8"
  shows "valid_mapping d (od_rpdo_mapping d ! n ! (k - 1)) False"
    "valid_mapping d (od_tpdo_mapping d ! n ! (k - 1)) True"
proof -
  have "wf_dictionary d" using assms(1) by (simp add: dict_inv_def)
  note len = wf_lengths [OF this]
  have "od_rpdo_mapping d ! n \<in> set (od_rpdo_mapping d)" "od_tpdo_mapping d ! n \<in> set (od_tpdo_mapping d)"
    using assms(2) len by simp_all
  moreover have "od_rpdo_mapping d ! n ! (k - 1) \<in> set (od_rpdo_mapping d ! n)"
    "od_tpdo_mapping d ! n ! (k - 1) \<in> set (od_tpdo_mapping d ! n)"
    using assms(2-4) len by simp_all
  ultimately show "valid_mapping d (od_rpdo_mapping d ! n ! (k - 1)) False"
    "valid_mapping d (od_tpdo_mapping d ! n ! (k - 1)) True"
    using assms(1) unfolding dict_inv_def by blast+
qed

definition rpdo_target :: "u32 \<Rightarrow> u16 \<times> u8" where
  "rpdo_target descriptor = (ucast (drop_bit 16 descriptor), ucast (drop_bit 8 descriptor))"

text \<open>The objects that a receive PDO may address.\<close>

definition rpdo_key :: "u16 \<times> u8 \<Rightarrow> bool" where
  "rpdo_key k \<longleftrightarrow> (\<exists>p. permissions new_dictionary (fst k) (snd k) = Some p \<and> rpdo_mappable p)"

lemma rpdo_key_iff:
  "rpdo_key (i, s) \<longleftrightarrow>
     i = 0x1280 \<and> s \<in> {1, 2} \<or> i = 0x6001 \<and> s = 1 \<or>
     i \<in> {0x1600, 0x1601, 0x1602, 0x1603, 0x1a00, 0x1a01, 0x1a02, 0x1a03} \<and> s \<noteq> 0 \<and> unat s \<le> 8"
proof (cases "index_supported i")
  case True
  then show ?thesis
    unfolding index_supported_iff rpdo_key_def permissions_def
    by (elim insertE emptyE; hypsubst) (auto simp: entry_at entry_of_def access_def split: if_splits)
next
  case False
  then show ?thesis
    by (auto simp: rpdo_key_def permissions_def entry_unsupported index_supported_iff)
qed

lemma rpdo_slot_target:
  assumes inv: "dict_inv d" and "pdo < 4" "slot < 8"
    and m: "dict_read d (first_rpdo_mapping + of_nat pdo) (of_nat (1 + slot)) = m"
    and nz: "unat (pdo_read_u32 (read_data m) AND 0xff) div 8 \<noteq> 0"
  shows "rpdo_key (rpdo_target (pdo_read_u32 (read_data m)))"
proof -
  let ?x = "od_rpdo_mapping d ! pdo ! slot"
  have x: "pdo_read_u32 (read_data m) = ?x"
    using m entry_mapping(1) [OF assms(2), of "1 + slot" d] assms(3)
    by (auto simp: dict_read_def entry_of_def access_def pdo_read_u32_encode)
  have "valid_mapping d ?x False"
    using valid_stored_mapping(1) [OF inv assms(2), of "1 + slot"] assms(3) by simp
  moreover have "?x \<noteq> 0"
    using nz unfolding x by auto
  moreover have "permissions d i s = permissions new_dictionary i s" for i s
    using inv by (intro permissions_const) (simp_all add: dict_inv_def)
  ultimately show ?thesis
    unfolding x rpdo_key_def rpdo_target_def fst_conv snd_conv valid_mapping_def
    by (auto split: option.splits if_splits)
qed

lemma rpdo_entries_keys:
  assumes "dict_inv d" "pdo < 4" "\<forall>slot \<in> set slots. slot < 8"
  shows "\<exists>kxs. put_all dict_put d kxs = Some (fst (rpdo_entries (of_nat pdo) frame slots d offset)) \<and>
     (\<forall>k \<in> fst ` set kxs. rpdo_key k) \<and>
     (\<forall>n. snd (rpdo_entries (of_nat pdo) frame slots d offset) = Some n \<longrightarrow>
        wf_can_frame frame \<longrightarrow> offset \<le> 8 \<longrightarrow>
        length kxs = length slots \<and> offset \<le> n \<and> n \<le> 8 \<and>
        concat (map snd kxs) = take (n - offset) (drop offset (can_data frame)))"
  using assms
proof (induction slots arbitrary: d offset)
  case Nil
  then show ?case by (intro exI [of _ "[]"]) simp
next
  case (Cons slot slots)
  let ?m = "dict_read d (first_rpdo_mapping + ucast (of_nat pdo :: u8)) (of_nat (1 + slot))"
  define descriptor where "descriptor = pdo_read_u32 (read_data ?m)"
  define width where "width = unat (descriptor AND 0xff) div 8"
  define encoded where "encoded = map (byte_at (decode_le (can_data frame) offset width)) [0..<width]"
  have cast: "(ucast (of_nat pdo :: u8) :: u16) = of_nat pdo"
  proof -
    have "pdo \<in> {0, 1, 2, 3}"
      using Cons.prems(2) by auto
    then show ?thesis by auto
  qed
  show ?case
  proof (cases "unat (descriptor AND 0xff) = 0 \<or> unat (descriptor AND 0xff) mod 8 \<noteq> 0 \<or>
      32 < unat (descriptor AND 0xff) \<or> unat (can_size frame) < offset + width \<or>
      read_abort ?m \<noteq> Sdo_none \<or> length (read_data ?m) \<noteq> 4 \<or>
      dict_put d (rpdo_target descriptor) encoded = None")
    case True
    then have "rpdo_entries (of_nat pdo) frame (slot # slots) d offset = (d, None)"
      by (auto simp: Let_def case_prod_beta dict_put_def dict_write_cases rpdo_target_def encoded_def width_def descriptor_def
        split: if_splits)
    then show ?thesis by (intro exI [of _ "[]"]) simp
  next
    case False
    then obtain e where put: "dict_put d (rpdo_target descriptor) encoded = Some e" by auto
    then have step: "rpdo_entries (of_nat pdo) frame (slot # slots) d offset =
        rpdo_entries (of_nat pdo) frame slots e (offset + width)"
      using False
      by (auto simp: Let_def case_prod_beta dict_put_Some rpdo_target_def encoded_def width_def descriptor_def
        split: if_splits)
    have key: "rpdo_key (rpdo_target descriptor)"
      unfolding descriptor_def
      by (rule rpdo_slot_target [OF Cons.prems(1,2)])
        (use False Cons.prems(3) in \<open>auto simp: cast descriptor_def\<close>)
    have bytes: "encoded = take width (drop offset (can_data frame))"
      if "wf_can_frame frame"
      unfolding encoded_def 
      by (rule decode_le_bytes) (use False that in \<open>auto simp: wf_can_frame_def word_le_nat_alt width_def\<close>)
    have len: "offset + width \<le> 8" if "wf_can_frame frame"
      using False that by (auto simp: wf_can_frame_def word_le_nat_alt)
    obtain kxs where IH: "put_all dict_put e kxs = Some (fst (rpdo_entries (of_nat pdo) frame slots e (offset + width)))"
      "\<forall>k \<in> fst ` set kxs. rpdo_key k"
      "\<forall>n. snd (rpdo_entries (of_nat pdo) frame slots e (offset + width)) = Some n \<longrightarrow>
        wf_can_frame frame \<longrightarrow> offset + width \<le> 8 \<longrightarrow>
        length kxs = length slots \<and> offset + width \<le> n \<and> n \<le> 8 \<and>
        concat (map snd kxs) = take (n - (offset + width)) (drop (offset + width) (can_data frame))"
    proof -
      have "\<forall>slot \<in> set slots. slot < 8" using Cons.prems(3) by simp
      from Cons.IH [OF od.wr_inv [OF Cons.prems(1) put] Cons.prems(2) this, of "offset + width"] that
      show ?thesis by blast
    qed
    have split: "take (n - offset) (drop offset (can_data frame)) =
      encoded @ take (n - (offset + width)) (drop (offset + width) (can_data frame))"
      if "offset + width \<le> n" "wf_can_frame frame" for n
    proof -
      have "n - offset = width + (n - (offset + width))"
        using that by simp
      then show ?thesis
        unfolding bytes [OF that(2)] by (simp add: take_add drop_drop add.commute)
    qed
    show ?thesis
      unfolding step
      by (intro exI [of _ "(rpdo_target descriptor, encoded) # kxs"])
        (use IH put key split len in auto)
  qed
qed


lemma separate_distinct:
  "distinct ks \<Longrightarrow> (\<And>k k'. k \<in> set ks \<Longrightarrow> \<not> disturbs k k') \<Longrightarrow> separate disturbs ks"
  by (induction ks) auto

lemma put_all_append:
  "put_all wr d (xs @ ys) = (case put_all wr d xs of None \<Rightarrow> None | Some e \<Rightarrow> put_all wr e ys)"
  by (induction xs arbitrary: d) (auto split: option.splits)

lemma rpdo_receive_from_keys:
  assumes inv: "dict_inv d" and pdo: "pdo < 4"
  shows "\<exists>kxs. put_all dict_put d kxs = Some (fst (rpdo_receive_from d (of_nat pdo) frame)) \<and>
     (\<forall>k \<in> fst ` set kxs. rpdo_key k) \<and>
     (snd (rpdo_receive_from d (of_nat pdo) frame) \<longrightarrow> wf_can_frame frame \<longrightarrow>
        concat (map snd kxs) = take (unat (can_size frame)) (can_data frame))"
proof -
  define n where "n = unat (read_data (dict_read d (first_rpdo_mapping + ucast (of_nat pdo :: u8)) 0) ! 0)"
  show ?thesis
  proof (cases "fst (rpdo_receive_from d (of_nat pdo) frame) = d \<and>
      \<not> snd (rpdo_receive_from d (of_nat pdo) frame)")
    case True
    then show ?thesis by (intro exI [of _ "[]"]) simp
  next
    case False
    then have "n \<le> 8" and
      *: "rpdo_receive_from d (of_nat pdo) frame =
        (fst (rpdo_entries (of_nat pdo) frame [0..<n] d 0),
         snd (rpdo_entries (of_nat pdo) frame [0..<n] d 0) = Some (unat (can_size frame)))"
      by (auto simp: rpdo_receive_from_def n_def Let_def case_prod_beta split: if_splits)
    then show ?thesis
      unfolding * using rpdo_entries_keys [OF inv pdo, of "[0..<n]" frame 0] by fastforce
  qed
qed

lemma rpdo_try_keys:
  assumes "dict_inv d" "\<forall>p \<in> set ps. p < 4"
  shows "\<exists>kxs. put_all dict_put d kxs = Some (fst (rpdo_try (map of_nat ps) d frame)) \<and>
     (\<forall>k \<in> fst ` set kxs. rpdo_key k)"
  using assms
proof (induction ps arbitrary: d)
  case Nil
  then show ?case by (intro exI [of _ "[]"]) simp
next
  case (Cons p ps)
  let ?r = "rpdo_receive_from d (of_nat p) frame"
  obtain kxs where kxs: "put_all dict_put d kxs = Some (fst ?r)" "\<forall>k \<in> fst ` set kxs. rpdo_key k"
    using rpdo_receive_from_keys [OF Cons.prems(1), of p frame] Cons.prems(2) by auto
  show ?case
  proof (cases "snd ?r")
    case True
    with kxs show ?thesis by (intro exI [of _ kxs]) (simp add: case_prod_beta)
  next
    case False
    obtain kxs' where "put_all dict_put (fst ?r) kxs' = Some (fst (rpdo_try (map of_nat ps) (fst ?r) frame))"
      "\<forall>k \<in> fst ` set kxs'. rpdo_key k"
      using Cons.IH [OF od.put_all_inv [OF Cons.prems(1) kxs(1)]] Cons.prems(2) by auto
    with kxs False show ?thesis
      by (intro exI [of _ "kxs @ kxs'"]) (auto simp add: case_prod_beta put_all_append)
  qed
qed

lemma rpdo_receive_keys:
  assumes "dict_inv d"
  shows "\<exists>kxs. put_all dict_put d kxs = Some (fst (rpdo_receive d frame)) \<and>
     (\<forall>k \<in> fst ` set kxs. rpdo_key k)"
  using rpdo_try_keys [OF assms, of "[0, 1, 2, 3]" frame] by (simp add: rpdo_receive_def)

text \<open>
  An accepted receive PDO delivers its whole payload. Under the dictionary invariant, the
  frame's bytes are cut in order into one value per mapped object, every object written is one
  that the dictionary allows in a receive mapping, and when the mapped objects are distinct each
  of them reads back its part.
\<close>
theorem rpdo_payload_stored:
  assumes "dict_inv d" "pdo < 4" "wf_can_frame frame"
    and "rpdo_receive_from d (of_nat pdo) frame = (d', True)"
  shows "\<exists>kxs. concat (map snd kxs) = take (unat (can_size frame)) (can_data frame) \<and>
     (\<forall>(k, x) \<in> set kxs. rpdo_key k) \<and>
     (distinct (map fst kxs) \<longrightarrow> (\<forall>(k, x) \<in> set kxs. dict_get d' k = Some x)) \<and>
     (\<forall>k. k \<notin> fst ` set kxs \<longrightarrow> dict_get d' k = dict_get d k)"
proof -
  obtain kxs where kxs: "put_all dict_put d kxs = Some d'" "\<forall>k \<in> fst ` set kxs. rpdo_key k"
    "concat (map snd kxs) = take (unat (can_size frame)) (can_data frame)"
    using rpdo_receive_from_keys [OF assms(1,2), of frame] assms(3,4) by auto
  have no_history: "\<not> clears_history k k'" if "rpdo_key k" for k k'
    using that by (cases k) (auto simp: clears_history_def rpdo_key_iff)
  have sep: "distinct (map fst kxs) \<Longrightarrow> separate clears_history (map fst kxs)"
    using kxs(2) no_history by (intro separate_distinct) auto
  have other: "dict_get d' k = dict_get d k" if "k \<notin> fst ` set kxs" for k
    by (rule od.put_all_other [OF assms(1) kxs(1)]) (use kxs(2) no_history that in blast)
  show ?thesis
    using kxs od.put_all_read [OF assms(1) kxs(1) sep] other
    by (intro exI [of _ kxs]) auto
qed


lemma dict_get_Some: "dict_get d (i, s) = Some x \<longleftrightarrow> dict_read d i s = \<lparr>read_abort = Sdo_none, read_data = x\<rparr>"
  by (auto simp: dict_get_def Let_def)

text \<open>A configured dictionary for the examples: receive PDO 0 enabled, with its mapping.\<close>

definition configure :: "((u16 \<times> u8) \<times> bytes) list \<Rightarrow> dictionary" where
  "configure settings =
     (case put_all dict_put new_dictionary settings of None \<Rightarrow> new_dictionary | Some d \<Rightarrow> d)"

lemma dict_inv_configure [simp]: "dict_inv (configure settings)"
  using od.put_all_inv [OF dict_inv_new, of settings] by (auto simp: configure_def split: option.splits)

abbreviation rpdo_settings :: "((u16 \<times> u8) \<times> bytes) list" where
  "rpdo_settings \<equiv>
     [((0x1400, 1), [0x11, 0x02, 0, 0]), ((0x1600, 1), [0x20, 0x01, 0x01, 0x60]),
      ((0x1600, 2), [0x20, 0x02, 0x80, 0x12]), ((0x1600, 0), [2])]"

lemma put_check:
  "write_check d i s x = Sdo_none \<Longrightarrow> dict_put d (i, s) x = Some (fst (dict_write d i s x))"
  by (simp add: dict_put_Some)

lemma configure_rpdo: "\<exists>d. put_all dict_put new_dictionary rpdo_settings = Some d"
proof -
  have "write_check d 0x1400 1 [0x11, 0x02, 0, 0] = Sdo_none" for d
    by (simp add: write_check_def entry_at entry_of_def access_def in_four_object_range_def Let_def)
  moreover have "write_check d 0x1600 1 [0x20, 0x01, 0x01, 0x60] = Sdo_none"
    "write_check d 0x1600 2 [0x20, 0x02, 0x80, 0x12] = Sdo_none"  "write_check d 0x1600 0 [2] = Sdo_none" for d
    by (simp_all add: write_check_def entry_at entry_of_def access_def in_four_object_range_def Let_def
      valid_mapping_def permissions_def be32_def byte_at_def del: byte_at_truncated)
  ultimately show ?thesis
    by (simp add: put_check)
qed

lemma configure_rpdo_reads:
  "dict_read (configure rpdo_settings) 0x1400 1 = \<lparr>read_abort = Sdo_none, read_data = [0x11, 0x02, 0, 0]\<rparr>"
  "dict_read (configure rpdo_settings) 0x1600 1 = \<lparr>read_abort = Sdo_none, read_data = [0x20, 0x01, 0x01, 0x60]\<rparr>"
  "dict_read (configure rpdo_settings) 0x1600 2 = \<lparr>read_abort = Sdo_none, read_data = [0x20, 0x02, 0x80, 0x12]\<rparr>"
  "dict_read (configure rpdo_settings) 0x1600 0 = \<lparr>read_abort = Sdo_none, read_data = [2]\<rparr>"
proof -
  obtain d where d: "put_all dict_put new_dictionary rpdo_settings = Some d"
    using configure_rpdo by blast
  have sep: "separate clears_history (map fst rpdo_settings)"
    by (simp add: clears_history_def)
  show "dict_read (configure rpdo_settings) 0x1400 1 = \<lparr>read_abort = Sdo_none, read_data = [0x11, 0x02, 0, 0]\<rparr>"
  "dict_read (configure rpdo_settings) 0x1600 1 = \<lparr>read_abort = Sdo_none, read_data = [0x20, 0x01, 0x01, 0x60]\<rparr>"
  "dict_read (configure rpdo_settings) 0x1600 2 = \<lparr>read_abort = Sdo_none, read_data = [0x20, 0x02, 0x80, 0x12]\<rparr>"
  "dict_read (configure rpdo_settings) 0x1600 0 = \<lparr>read_abort = Sdo_none, read_data = [2]\<rparr>"
    unfolding configure_def d option.case
    by (rule dict_get_Some [THEN iffD1, OF od.put_all_read [OF dict_inv_new d sep]]; simp)+
qed

lemma wf_configure [simp]: "wf_dictionary (configure settings)"
  using dict_inv_configure [of settings] by (simp add: dict_inv_def)

declare byte_at_truncated [simp del]

lemma output_write_checks:
  "length x = 4 \<Longrightarrow> write_check d 0x6001 1 x = Sdo_none"
  "length x = 4 \<Longrightarrow> write_check d 0x1280 2 x = Sdo_none"
  by (simp_all add: write_check_def entry_at entry_of_def access_def in_four_object_range_def Let_def)

lemma reduced_literals: "(6291713 :: u8) = 1" "(1212418 :: u8) = 2"
  by simp_all

lemma configure_rpdo_entries:
  assumes "can_size frame \<le> 8"
  shows "rpdo_entries 0 frame [0, 1] (configure rpdo_settings) 0 =
    (let d1 = fst (dict_write (configure rpdo_settings) 0x6001 1
                     (map (byte_at (decode_le (can_data frame) 0 4)) [0..<4]));
         d2 = fst (dict_write d1 0x1280 2 (map (byte_at (decode_le (can_data frame) 4 4)) [0..<4]))
     in if unat (can_size frame) < 4 then (configure rpdo_settings, None)
        else if unat (can_size frame) < 8 then (d1, None) else (d2, Some 8))"
  by (simp add: configure_rpdo_reads Let_def case_prod_beta pdo_read_u32_def output_write_checks
      dict_write_read_other reduced_literals)

lemma configure_rpdo_receive:
  assumes "can_size frame \<le> 8" "can_identifier frame = 0x211"
  shows "rpdo_receive_from (configure rpdo_settings) 0 frame =
    (let (d, res) = rpdo_entries 0 frame [0, 1] (configure rpdo_settings) 0
     in (d, res = Some (unat (can_size frame))))"
  using assms(2)
  by (simp add: rpdo_receive_from_def configure_rpdo_reads pdo_read_u32_def upt_small Let_def
     del: rpdo_entries.simps)

theorem rpdo_payload_stored_witness:
  "\<exists>d' kxs. rpdo_receive_from (configure rpdo_settings) (of_nat 0)
       (empty_can_frame\<lparr>can_identifier := 0x211, can_size := 8\<rparr>) = (d', True) \<and>
     concat (map snd kxs) = replicate 8 (0 :: u8) \<and>
     (\<forall>(k, x) \<in> set kxs. rpdo_key k) \<and>
     (distinct (map fst kxs) \<longrightarrow> (\<forall>(k, x) \<in> set kxs. dict_get d' k = Some x))"
proof -
  let ?f = "empty_can_frame\<lparr>can_identifier := 0x211, can_size := 8\<rparr>"
  obtain d' where r: "rpdo_receive_from (configure rpdo_settings) (of_nat 0) ?f = (d', True)"
    using configure_rpdo_receive [of ?f] configure_rpdo_entries [of ?f]
    by (simp add: Let_def del: rpdo_entries.simps)
  show ?thesis
    using rpdo_payload_stored [OF dict_inv_configure _ _ r] r
    by (auto simp: wf_can_frame_def empty_can_frame_def)
qed

text \<open>
  A malformed receive PDO may leave half of itself behind: the mapped objects are written
  one by one, so a frame that ends too early is refused after its first value has been stored.
\<close>
theorem rpdo_refused_after_partial_write:
  "\<exists>d frame. dict_inv d \<and> wf_can_frame frame \<and> \<not> snd (rpdo_receive_from d 0 frame) \<and>
     dict_get (fst (rpdo_receive_from d 0 frame)) (0x6001, 1) \<noteq> dict_get d (0x6001, 1)"
proof -
  define data where "data = (if dict_get (configure rpdo_settings) (0x6001, 1) = Some [0, 0, 0, 0]
                     then [1, 0, 0, 0] else [0, 0, 0, 0 :: u8])"
  define frame where "frame = \<lparr>can_identifier = 0x211, can_data = data @ [0, 0, 0, 0], can_size = 6\<rparr>"
  define d1 where "d1 = fst (dict_write (configure rpdo_settings) 0x6001 1 data)"
  have len: "length data = 4" by (simp add: data_def)
  have "map (byte_at (decode_le (can_data frame) 0 4)) [0..<4] = data"
    using decode_le_bytes [of 4 0 "can_data frame"] len by (simp add: frame_def)
  then have r: "rpdo_receive_from (configure rpdo_settings) 0 frame = (d1, False)"
    using configure_rpdo_receive [of frame] configure_rpdo_entries [of frame]
    by (simp add: Let_def d1_def frame_def del: rpdo_entries.simps)
  have "dict_put (configure rpdo_settings) (0x6001, 1) data = Some d1"
    unfolding d1_def by (rule put_check [OF output_write_checks(1) [OF len]])
  then have "dict_get d1 (0x6001, 1) = Some data"
    by (rule od.rd_written [OF dict_inv_configure])
  moreover have "dict_get (configure rpdo_settings) (0x6001, 1) \<noteq> Some data"
    by (auto simp: data_def)
  ultimately show ?thesis
    using r len by (intro exI [of _ "configure rpdo_settings"] exI [of _ frame])
      (simp add: wf_can_frame_def frame_def)
qed

section \<open>What a transmitted PDO carries\<close>

text \<open>The object mapped at a slot, and its current bytes.\<close>

definition tpdo_target :: "dictionary \<Rightarrow> u16 \<Rightarrow> nat \<Rightarrow> u16 \<times> u8" where
  "tpdo_target d mapping_index slot =
     rpdo_target (read_le (dict_read d mapping_index (of_nat (1 + slot))))"

lemma decode_encode_32 [simp]:
  "decode_little_endian [byte_at v 0, byte_at v (Suc 0), byte_at v 2, byte_at v 3] = (v :: u32)"
  by simp

lemma tpdo_slot_value:
  assumes inv: "dict_inv d" and "pdo < 4" "slot < 8"
    and desc: "read_le (dict_read d (first_tpdo_mapping + of_nat pdo) (of_nat (1 + slot))) = descriptor"
    and width: "width = unat (descriptor AND 0xff) div 8" "width \<noteq> 0"
    and val: "dict_read d (ucast (drop_bit 16 descriptor)) (ucast (drop_bit 8 descriptor)) = v"
      "read_abort v = Sdo_none"
  shows "length (read_data v) = width"
proof -
  let ?x = "od_tpdo_mapping d ! pdo ! slot"
  have x: "descriptor = ?x"
    using desc entry_mapping(2) [OF assms(2), of "1 + slot" d] assms(3)
    by (auto simp: dict_read_def entry_of_def access_def read_le_def)
  have "valid_mapping d ?x True"
    using valid_stored_mapping(2) [OF inv assms(2), of "1 + slot"] assms(3) by simp
  moreover have "descriptor \<noteq> 0"
    using width by auto
  ultimately obtain e where e: "entry d (ucast (drop_bit 16 descriptor)) (ucast (drop_bit 8 descriptor)) = Some e"
    "size_bits (entry_permissions e) = ucast descriptor"
    unfolding x [symmetric] by (auto simp: valid_mapping_def permissions_def split: option.splits if_splits)
  have "unat (ucast descriptor :: u8) = unat (descriptor AND 0xff)"
  proof -
    have "descriptor AND 0xff = take_bit 8 descriptor"
      by (simp add: take_bit_eq_mask mask_eq_decr_exp)
    then show ?thesis
      by (simp add: unsigned_ucast_eq unsigned_take_bit_eq)
  qed
  then show ?thesis
    using val e width by (auto simp: dict_read_def encode_little_endian_def)
qed

lemma append_value_wf:
  assumes "length (can_data f) = 8" "unat (can_size f) + length bs \<le> 8"
  shows "length (can_data (append_value f bs)) = 8"
    "unat (can_size (append_value f bs)) = unat (can_size f) + length bs"
    "take (unat (can_size (append_value f bs))) (can_data (append_value f bs)) =
       take (unat (can_size f)) (can_data f) @ bs"
proof -
  have u: "unat (of_nat (unat (can_size f) + length bs) :: u8) = unat (can_size f) + length bs"
    using assms(2) by (simp add: unat_of_nat del: of_nat_add)
  show "length (can_data (append_value f bs)) = 8"
    "unat (can_size (append_value f bs)) = unat (can_size f) + length bs"
    "take (unat (can_size (append_value f bs))) (can_data (append_value f bs)) =
       take (unat (can_size f)) (can_data f) @ bs"
    using assms u by (simp_all add: append_value_def Let_def del: of_nat_add)
qed

lemma tpdo_entries_carry:
  assumes "dict_inv d" "pdo < 4" "\<forall>slot \<in> set slots. slot < 8"
    and "length (can_data f) = 8" "unat (can_size f) \<le> 8"
    and "tpdo_entries d (first_tpdo_mapping + of_nat pdo) slots f = Some g"
  shows "can_identifier g = can_identifier f \<and> length (can_data g) = 8 \<and> unat (can_size g) \<le> 8 \<and>
     (\<forall>slot \<in> set slots. dict_get d (tpdo_target d (first_tpdo_mapping + of_nat pdo) slot) \<noteq> None) \<and>
     take (unat (can_size g)) (can_data g) = take (unat (can_size f)) (can_data f) @
       concat (map (\<lambda>slot. the (dict_get d (tpdo_target d (first_tpdo_mapping + of_nat pdo) slot))) slots)"
  using assms(3-6)
proof (induction slots arbitrary: f)
  case (Cons slot slots)
  let ?i = "first_tpdo_mapping + of_nat pdo :: u16"
  define descriptor where "descriptor = read_le (dict_read d ?i (of_nat (1 + slot)))"
  define width where "width = unat (descriptor AND 0xff) div 8"
  define v where "v = dict_read d (ucast (drop_bit 16 descriptor)) (ucast (drop_bit 8 descriptor))"
  have facts: "width \<noteq> 0" "unat (can_size f) + width \<le> 8" "read_abort v = Sdo_none"
    and rest: "tpdo_entries d ?i slots (append_value f (take width (read_data v))) = Some g"
    using Cons.prems(2,4)
    by (auto simp: Let_def v_def descriptor_def width_def split: if_splits)
  have len: "length (read_data v) = width"
    by (rule tpdo_slot_value [OF assms(1,2)])
      (use Cons.prems(1) facts in \<open>auto simp: descriptor_def width_def v_def\<close>)
  have get: "dict_get d (tpdo_target d ?i slot) = Some (read_data v)"
    using facts(3) by (simp add: dict_get_def tpdo_target_def rpdo_target_def v_def descriptor_def Let_def)
  let ?f = "append_value f (read_data v)"
  note w = append_value_wf [OF Cons.prems(2), of "read_data v"]
  have f: "length (can_data ?f) = 8" "unat (can_size ?f) = unat (can_size f) + width"
    "take (unat (can_size ?f)) (can_data ?f) = take (unat (can_size f)) (can_data f) @ read_data v"
    using w facts(2) len by simp_all
  have id: "can_identifier ?f = can_identifier f"
    by (simp add: append_value_def Let_def)
  show ?case
    using Cons.IH [of ?f] Cons.prems(1) f facts(2) rest len get id by auto
qed simp


lemma tpdo_frame_wf:
  assumes inv: "dict_inv d" and pdo: "pdo < 4" and built: "build_tpdo d elapsed pdo = Some frame"
  shows "wf_can_frame frame"
proof -
  let ?n = "unat (read_data (dict_read d (first_tpdo_mapping + of_nat pdo) 0) ! 0)"
  obtain i where entries: "tpdo_entries d (first_tpdo_mapping + of_nat pdo) [0..<?n]
      (empty_can_frame\<lparr>can_identifier := i\<rparr>) = Some frame" and n: "?n \<le> 8"
    using built by (auto simp: build_tpdo_def Let_def split: if_splits)
  then show ?thesis
    using tpdo_entries_carry [OF inv pdo _ _ _ entries] n
    by (auto simp: empty_can_frame_def wf_can_frame_def word_le_nat_alt)
qed

text \<open>
  A transmitted PDO carries what the dictionary holds: under the invariant, a frame built for
  an enabled PDO is a well-formed CAN frame under the configured identifier whose meaningful
  bytes are the current values of the mapped objects, one after the other in mapping order.
\<close>
theorem tpdo_payload:
  assumes inv: "dict_inv d" and pdo: "pdo < 4" and built: "build_tpdo d elapsed pdo = Some frame"
  shows "wf_can_frame frame \<and>
     can_identifier frame =
       ucast (read_le (dict_read d (first_tpdo_communication + of_nat pdo) 1) AND 0x7ff) \<and>
     take (unat (can_size frame)) (can_data frame) =
       concat (map (\<lambda>slot. the (dict_get d (tpdo_target d (first_tpdo_mapping + of_nat pdo) slot)))
         [0..<unat (hd (read_data (dict_read d (first_tpdo_mapping + of_nat pdo) 0)))])"
proof -
  let ?c = "dict_read d (first_tpdo_mapping + of_nat pdo) 0"
  let ?f = "empty_can_frame\<lparr>can_identifier :=
    ucast (read_le (dict_read d (first_tpdo_communication + of_nat pdo) 1) AND 0x7ff)\<rparr>"
  have n: "unat (read_data ?c ! 0) \<le> 8" "length (read_data ?c) = 1"
    and entries: "tpdo_entries d (first_tpdo_mapping + of_nat pdo) [0..<unat (read_data ?c ! 0)] ?f = Some frame"
    using built by (auto simp: build_tpdo_def Let_def split: if_splits)
  have hd: "hd (read_data ?c) = read_data ?c ! 0"
    using n(2) by (cases "read_data ?c") simp_all
  show ?thesis
    using tpdo_entries_carry [OF inv pdo _ _ _ entries] n(1)
    by (auto simp: hd empty_can_frame_def wf_can_frame_def word_le_nat_alt)
qed

abbreviation tpdo_settings :: "((u16 \<times> u8) \<times> bytes) list" where
  "tpdo_settings \<equiv>
     [((0x1800, 1), [0x91, 0x01, 0, 0]), ((0x1800, 5), [10, 0]),
      ((0x1a00, 1), [0x08, 0x00, 0x01, 0x10]), ((0x1a00, 0), [1])]"

lemma configure_tpdo: "\<exists>d. put_all dict_put new_dictionary tpdo_settings = Some d"
proof -
  have "write_check d 0x1800 1 [0x91, 0x01, 0, 0] = Sdo_none" "write_check d 0x1800 5 [10, 0] = Sdo_none" for d
    by (simp_all add: write_check_def entry_at entry_of_def access_def in_four_object_range_def Let_def)
  moreover have "write_check d 0x1a00 1 [0x08, 0x00, 0x01, 0x10] = Sdo_none" "write_check d 0x1a00 0 [1] = Sdo_none" for d
    by (simp_all add: write_check_def entry_at entry_of_def access_def in_four_object_range_def Let_def
      valid_mapping_def permissions_def be32_def byte_at_def del: byte_at_truncated)
  ultimately show ?thesis
    by (simp add: put_check)
qed

lemma configure_tpdo_reads:
  "dict_read (configure tpdo_settings) 0x1800 1 = \<lparr>read_abort = Sdo_none, read_data = [0x91, 0x01, 0, 0]\<rparr>"
  "dict_read (configure tpdo_settings) 0x1800 5 = \<lparr>read_abort = Sdo_none, read_data = [10, 0]\<rparr>"
  "dict_read (configure tpdo_settings) 0x1a00 1 = \<lparr>read_abort = Sdo_none, read_data = [0x08, 0x00, 0x01, 0x10]\<rparr>"
  "dict_read (configure tpdo_settings) 0x1a00 0 = \<lparr>read_abort = Sdo_none, read_data = [1]\<rparr>"
  "dict_read (configure tpdo_settings) 0x1800 2 = \<lparr>read_abort = Sdo_none, read_data = [0xfe]\<rparr>"
  "dict_read (configure tpdo_settings) 0x1001 0 = \<lparr>read_abort = Sdo_none, read_data = [0]\<rparr>"
proof -
  obtain d where d: "put_all dict_put new_dictionary tpdo_settings = Some d"
    using configure_tpdo by blast
  have sep: "separate clears_history (map fst tpdo_settings)"
    by (simp add: clears_history_def)
  show "dict_read (configure tpdo_settings) 0x1800 1 = \<lparr>read_abort = Sdo_none, read_data = [0x91, 0x01, 0, 0]\<rparr>"
    "dict_read (configure tpdo_settings) 0x1800 5 = \<lparr>read_abort = Sdo_none, read_data = [10, 0]\<rparr>"
    "dict_read (configure tpdo_settings) 0x1a00 1 = \<lparr>read_abort = Sdo_none, read_data = [0x08, 0x00, 0x01, 0x10]\<rparr>"
    "dict_read (configure tpdo_settings) 0x1a00 0 = \<lparr>read_abort = Sdo_none, read_data = [1]\<rparr>"
    unfolding configure_def d option.case
    by (rule dict_get_Some [THEN iffD1, OF od.put_all_read [OF dict_inv_new d sep]]; simp)+
  have "dict_get d (0x1800, 2) = Some [0xfe]" "dict_get d (0x1001, 0) = Some [0]"
    by (subst od.put_all_other [OF dict_inv_new d];
        simp add: clears_history_def dict_get_def dict_read_def entry_at entry_of_def access_def new_dictionary_def upt_small
        byte_at_def)+
  then show "dict_read (configure tpdo_settings) 0x1800 2 = \<lparr>read_abort = Sdo_none, read_data = [0xfe]\<rparr>"
    "dict_read (configure tpdo_settings) 0x1001 0 = \<lparr>read_abort = Sdo_none, read_data = [0]\<rparr>"
    unfolding configure_def d option.case by (simp_all add: dict_get_Some)
qed

lemma reduced_tpdo: "(1048832 :: u8) = 0"
  by simp

lemma configure_tpdo_builds:
  "build_tpdo (configure tpdo_settings) [10, x, y, z] 0 =
     Some (append_value (empty_can_frame\<lparr>can_identifier := 0x191\<rparr>) [0])"
  by (simp add: build_tpdo_def configure_tpdo_reads read_le_def upt_small be32_def Let_def reduced_tpdo
      empty_can_frame_def)

theorem tpdo_payload_witness:
  "\<exists>frame. build_tpdo (configure tpdo_settings) [10, 0, 0, 0] 0 = Some frame \<and> wf_can_frame frame \<and>
     take (unat (can_size frame)) (can_data frame) =
       concat (map (\<lambda>slot. the (dict_get (configure tpdo_settings) (tpdo_target (configure tpdo_settings) 0x1a00 slot))) [0..<1])"
  using tpdo_payload [OF dict_inv_configure, of 0 tpdo_settings "[10, 0, 0, 0]"] configure_tpdo_builds
  by (simp add: configure_tpdo_reads)

text \<open>Cycles of the scheduler over an unchanged dictionary.\<close>

fun tpdo_run :: "nat \<Rightarrow> dictionary \<Rightarrow> tpdo_scheduler \<Rightarrow> tpdo_scheduler \<times> can_frame option list" where
  "tpdo_run 0 d elapsed = (elapsed, [])"
| "tpdo_run (Suc n) d elapsed =
     (let (elapsed, f) = tpdo_process_cycle d elapsed; (elapsed, fs) = tpdo_run n d elapsed
      in (elapsed, f # fs))"

text \<open>
  The first PDO can starve the others: when it is due again after a single cycle (an event
  timer of at most 10 ms), every cycle sends it and the clocks of the other three never advance.
\<close>
theorem tpdo_first_starves_rest:
  assumes "elapsed ! 0 = 0" "elapsed \<noteq> []" "build_tpdo d (elapsed[0 := 10]) 0 = Some frame"
  shows "tpdo_run n d elapsed = (elapsed, replicate n (Some frame))"
proof (induction n)
  case (Suc n)
  have "elapsed[0 := 0] = elapsed"
    using assms(1) by (metis list_update_id)
  then have "tpdo_process_cycle d elapsed = (elapsed, Some frame)"
    using assms by (simp add: tpdo_process_cycle_def Let_def)
  with Suc show ?case by simp
qed simp

theorem tpdo_first_starves_rest_witness:
  "\<exists>frame. tpdo_run 1000 (configure tpdo_settings) new_tpdo_scheduler =
             (new_tpdo_scheduler, replicate 1000 (Some frame))"
proof -
  have "build_tpdo (configure tpdo_settings) (new_tpdo_scheduler[0 := 10]) 0 =
      Some (append_value (empty_can_frame\<lparr>can_identifier := 0x191\<rparr>) [0])"
    using configure_tpdo_builds [of 0 0 0] by (simp add: new_tpdo_scheduler_def numeral_eq_Suc)
  then show ?thesis
    using tpdo_first_starves_rest [of new_tpdo_scheduler "configure tpdo_settings" _ 1000]
    by (auto simp: new_tpdo_scheduler_def)
qed

end
