(* ===== verification/Canopen_Service.thy ===== *)
theory Canopen_Service
  imports Canopen_Sdo Canopen_Pdo
begin

text \<open>
  The composed CANopen service, \<open>components/application/src/can/\<close>: routing of received frames
  through NMT, receive PDOs and the SDO server, the 10 ms cycle, the retrying transmitter and
  the output monitor; and the two remote SDO operations of
  \<open>main/can/canopen_target_service.cpp\<close>. The external operations are recorded as a trace of
  calls. The lemmas carry the component invariants through every history of the service and
  show the ordering guarantee of the transmitter.
\<close>

section \<open>The service\<close>

datatype service_call = Transmit can_frame | Call_restart_mainboard

record service =
  svc_dictionary :: dictionary
  svc_scheduler :: tpdo_scheduler
  svc_node :: node
  svc_calls :: "service_call list"

definition new_service :: service where
  "new_service =
     \<lparr>svc_dictionary = new_dictionary, svc_scheduler = new_tpdo_scheduler, svc_node = new_node,
      svc_calls = []\<rparr>"

definition apply_write_effects :: "node \<Rightarrow> dictionary_write_effects \<Rightarrow> node" where
  "apply_write_effects n effects =
     (case producer_heartbeat_effect effects of
        Some period \<Rightarrow> set_producer_heartbeat_period n period
      | None \<Rightarrow> n)"

definition service_receive :: "service \<Rightarrow> can_frame \<Rightarrow> service" where
  "service_receive s frame =
     (let (n, nmt_effect) = accept_nmt (svc_node s) frame;
          d = (if nmt_effect = Communication_reset
               then dict_communication_reset (svc_dictionary s) else svc_dictionary s);
          s = s\<lparr>svc_node := n\<rparr>;
          (d, consumed) = rpdo_receive d frame
      in if consumed then s\<lparr>svc_dictionary := d\<rparr>
         else
           let (d, response) = sdo_handle d frame; s = s\<lparr>svc_dictionary := d\<rparr>
           in case response of
                None \<Rightarrow> s
              | Some r \<Rightarrow>
                  s\<lparr>svc_node := apply_write_effects (svc_node s) (sdo_effects r),
                    svc_calls := svc_calls s @ [Transmit (sdo_frame r)]\<rparr>)"

definition calls_of :: "can_frame option \<Rightarrow> service_call list" where
  "calls_of f = (case f of None \<Rightarrow> [] | Some f \<Rightarrow> [Transmit f])"

definition service_process_cycle :: "service \<Rightarrow> service" where
  "service_process_cycle s =
     (let (n, result) = node_process_cycle (svc_node s);
          calls = svc_calls s @ calls_of (cycle_frame result);
          (elapsed, pdo) = tpdo_process_cycle (svc_dictionary s) (svc_scheduler s);
          calls = calls @ calls_of pdo;
          calls = (if restart_mainboard result then calls @ [Call_restart_mainboard] else calls)
      in s\<lparr>svc_node := n, svc_scheduler := elapsed, svc_calls := calls\<rparr>)"

definition service_set_error_register :: "service \<Rightarrow> u8 \<Rightarrow> service" where
  "service_set_error_register s v =
     s\<lparr>svc_dictionary := dict_set_error_register (svc_dictionary s) v,
       svc_node := node_set_error_register (svc_node s) v\<rparr>"

section \<open>Reachable states\<close>

text \<open>What the owning task may do with the service, in any order.\<close>

inductive service_step :: "service \<Rightarrow> service \<Rightarrow> bool" where
  receive_step: "wf_can_frame f \<Longrightarrow> service_step s (service_receive s f)"
| cycle_step: "service_step s (service_process_cycle s)"
| error_step: "service_step s (service_set_error_register s v)"

inductive_cases service_stepE: "service_step s s'"

inductive service_reachable :: "service \<Rightarrow> bool" where
  fresh_service: "service_reachable new_service"
| service_later: "service_reachable s \<Longrightarrow> service_step s s' \<Longrightarrow> service_reachable s'"

definition service_inv :: "service \<Rightarrow> bool" where
  "service_inv s \<longleftrightarrow>
     dict_inv (svc_dictionary s) \<and> node_inv (svc_node s) \<and>
     producer_period (svc_node s) = od_heartbeat_period (svc_dictionary s) \<and>
     (\<forall>f. Transmit f \<in> set (svc_calls s) \<longrightarrow> wf_can_frame f)"

text \<open>Only a write of object 0x1017 changes the heartbeat period, and it reports it.\<close>

lemma heartbeat_period_assign:
  "od_heartbeat_period (fst (assign d i s v)) =
     (if i = 0x1017 then ucast v else od_heartbeat_period d)"
  by (auto simp: assign_def Let_def)

lemma heartbeat_effect_assign:
  "producer_heartbeat_effect (snd (assign d i s v)) = (if i = 0x1017 then Some (ucast v) else None)"
  by (auto simp: assign_def no_effects_def Let_def)

lemma heartbeat_dict_write:
  "od_heartbeat_period (fst (dict_write d i s x)) =
     (case producer_heartbeat_effect (write_effects (snd (dict_write d i s x))) of
        None \<Rightarrow> od_heartbeat_period d
      | Some p \<Rightarrow> p)"
  by (simp add: dict_write_cases heartbeat_period_assign heartbeat_effect_assign no_effects_def)

lemma heartbeat_put_all:
  "put_all dict_put d kxs = Some d' \<Longrightarrow> \<forall>k \<in> fst ` set kxs. rpdo_key k \<Longrightarrow>
     od_heartbeat_period d' = od_heartbeat_period d"
proof (induction kxs arbitrary: d)
  case (Cons kx kxs)
  obtain i s x where kx: "kx = ((i, s), x)" by (metis prod.collapse)
  then obtain e where e: "dict_put d (i, s) x = Some e" "put_all dict_put e kxs = Some d'"
    using Cons.prems(1) by (auto split: option.splits)
  have "i \<noteq> 0x1017"
    using Cons.prems(2) kx by (auto simp: rpdo_key_iff)
  then have "od_heartbeat_period e = od_heartbeat_period d"
    using e(1) by (simp add: dict_put_Some dict_write_cases heartbeat_period_assign)
  with Cons.IH [OF e(2)] Cons.prems(2) show ?case by simp
qed simp

lemma heartbeat_sdo_handle:
  assumes "sdo_handle d f = (d', r)"
  shows "od_heartbeat_period d' =
     (case r of None \<Rightarrow> od_heartbeat_period d
      | Some r \<Rightarrow> (case producer_heartbeat_effect (sdo_effects r) of
                     None \<Rightarrow> od_heartbeat_period d | Some p \<Rightarrow> p))"
proof -
  have upload: "producer_heartbeat_effect (sdo_effects (sdo_upload d f i s)) = None" for i s
    by (simp add: sdo_upload_def abort_response_def no_effects_def Let_def)
  have download: "od_heartbeat_period (fst (sdo_download d f i s c)) =
     (case producer_heartbeat_effect (sdo_effects (snd (sdo_download d f i s c))) of
        None \<Rightarrow> od_heartbeat_period d | Some p \<Rightarrow> p)" for i s c
    using dict_write_refused [of d i s] heartbeat_dict_write [of d i s]
    by (simp add: sdo_download_def abort_response_def no_effects_def Let_def case_prod_beta)
  show ?thesis
    using assms upload download
    by (auto simp: sdo_handle_def abort_response_def no_effects_def Let_def case_prod_beta
        split: if_splits)
qed

lemma dict_inv_sdo_handle:
  assumes "dict_inv d" shows "dict_inv (fst (sdo_handle d f))"
  using dict_inv_dict_write [OF assms]
  by (simp add: sdo_handle_def sdo_download_def Let_def case_prod_beta assms)

lemma node_inv_effects: "node_inv n \<Longrightarrow> node_inv (apply_write_effects n e)"
  by (simp add: apply_write_effects_def split: option.splits)

lemma producer_period_effects:
  "producer_period (apply_write_effects n e) =
     (case producer_heartbeat_effect e of None \<Rightarrow> producer_period n | Some p \<Rightarrow> p)"
  by (simp add: apply_write_effects_def set_producer_heartbeat_period_def split: option.splits)

lemma sdo_response_wf:
  assumes "wf_can_frame f" "sdo_handle d f = (d', Some r)"
  shows "wf_can_frame (sdo_frame r)"
  using sdo_server_answers [OF assms] by (simp add: answers_def)

lemma service_inv_receive:
  assumes inv: "service_inv s" and f: "wf_can_frame f"
  shows "service_inv (service_receive s f)"
proof -
  note inv = inv [unfolded service_inv_def]
  obtain d1 consumed where r: "rpdo_receive (svc_dictionary s) f = (d1, consumed)" by fastforce
  obtain kxs where kxs: "put_all dict_put (svc_dictionary s) kxs = Some d1"
    "\<forall>k \<in> fst ` set kxs. rpdo_key k"
    using rpdo_receive_keys [of "svc_dictionary s" f] inv r by auto
  have d1: "dict_inv d1" "od_heartbeat_period d1 = od_heartbeat_period (svc_dictionary s)"
    using od.put_all_inv [OF _ kxs(1)] heartbeat_put_all [OF kxs] inv by auto
  obtain d2 response where h: "sdo_handle d1 f = (d2, response)" by fastforce
  have d2: "dict_inv d2"
    using dict_inv_sdo_handle [OF d1(1), of f] h by simp
  show ?thesis
  proof (cases "consumed \<or> response = None")
    case True
    then show ?thesis
      using inv d1 d2 r h heartbeat_sdo_handle [OF h]
      by (auto simp: service_receive_def service_inv_def dict_communication_reset_def Let_def case_prod_beta)
  next
    case False
    then obtain q where q: "response = Some q" by auto
    then show ?thesis
      using False inv d1 d2 r h heartbeat_sdo_handle [OF h] sdo_response_wf [OF f]
      by (auto simp: service_receive_def service_inv_def dict_communication_reset_def Let_def
          case_prod_beta node_inv_effects producer_period_effects split: option.splits)
  qed
qed

lemma heartbeat_frame_wf [simp]: "wf_can_frame (heartbeat_frame st)"
  by (simp add: wf_can_frame_def heartbeat_frame_def empty_can_frame_def)

lemma cycle_frame_wf: "cycle_frame (snd (node_process_cycle n)) = Some f \<Longrightarrow> wf_can_frame f"
  by (auto simp: node_process_cycle_def heartbeat_cycle_def Let_def case_prod_beta split: if_splits)

lemma tpdo_scan_wf:
  assumes "dict_inv d" "\<forall>p \<in> set ps. p < 4"
  shows "snd (tpdo_scan ps d elapsed) = Some f \<Longrightarrow> wf_can_frame f"
  using assms(2)
proof (induction ps arbitrary: elapsed)
  case (Cons p ps)
  let ?e = "elapsed[p := elapsed ! p + 10]"
  show ?case
  proof (cases "build_tpdo d ?e p")
    case (Some g)
    then show ?thesis
      using tpdo_frame_wf [OF assms(1) _ Some] Cons.prems by (simp add: Let_def)
  qed (use Cons in \<open>auto simp: Let_def\<close>)
qed simp

lemma service_inv_cycle:
  assumes "service_inv s" shows "service_inv (service_process_cycle s)"
  using assms tpdo_scan_wf [of "svc_dictionary s" "[0, 1, 2, 3]" "svc_scheduler s"]
    cycle_frame_wf [of "svc_node s"]
  by (auto simp: service_process_cycle_def service_inv_def calls_of_def tpdo_process_cycle_def Let_def
      case_prod_beta split: option.splits)

lemma heartbeat_set_error [simp]:
  "od_heartbeat_period (dict_set_error_register d v) = od_heartbeat_period d"
  by (simp add: dict_set_error_register_def)

lemma service_inv_error: "service_inv s \<Longrightarrow> service_inv (service_set_error_register s v)"
  by (simp add: service_inv_def service_set_error_register_def dict_inv_error_updates)

lemma service_inv_step: "service_step s s' \<Longrightarrow> service_inv s \<Longrightarrow> service_inv s'"
  by (erule service_stepE) (simp_all add: service_inv_receive service_inv_cycle service_inv_error)

lemma service_inv_new: "service_inv new_service"
  by (simp add: service_inv_def new_service_def) (simp add: new_node_def new_dictionary_def)

text \<open>
  C32. Every history of frames, cycles and error samples keeps the service consistent: the
  dictionary keeps its bounds and legal mappings, the node its timers, everything transmitted is
  a well-formed CAN frame, and the heartbeat period the node runs on is the one stored in object
  0x1017, although SDO writes and receive PDOs both change the dictionary.
\<close>
theorem service_reachable_inv:
  assumes "service_reachable s"
  shows "dict_inv (svc_dictionary s) \<and> node_inv (svc_node s) \<and>
     producer_period (svc_node s) = od_heartbeat_period (svc_dictionary s) \<and>
     (\<forall>f. Transmit f \<in> set (svc_calls s) \<longrightarrow> wf_can_frame f)"
proof -
  have "service_inv s"
    using assms by induction (auto intro: service_inv_new service_inv_step)
  then show ?thesis
    by (simp add: service_inv_def)
qed

theorem service_reachable_inv_witness:
  "producer_period (svc_node (service_receive new_service (make_sdo_download_request 0x11 0x1006 0 500))) =
   od_heartbeat_period (svc_dictionary (service_receive new_service (make_sdo_download_request 0x11 0x1006 0 500)))"
proof -
  have "wf_can_frame (make_sdo_download_request 0x11 0x1006 0 500)"
    by (simp add: wf_can_frame_def)
  then have "service_reachable (service_receive new_service (make_sdo_download_request 0x11 0x1006 0 500))"
    by (blast intro: service_reachable.intros service_step.intros)
  then show ?thesis
    using service_reachable_inv by blast
qed

section \<open>The retrying transmitter\<close>

text \<open>
  \<open>CanPendingTransmitter\<close>. The bus answers each attempt; the answer may depend on everything
  attempted before, so it is an argument over the trace of port calls.
\<close>

datatype transmit_call = Attempt can_frame u32 bool | Delay u32

record pending_transmitter =
  pending_frames :: "can_frame list"
  transmit_calls :: "transmit_call list"

type_synonym bus = "transmit_call list \<Rightarrow> can_frame \<Rightarrow> bool"

fun drain_pending :: "bus \<Rightarrow> can_frame list \<Rightarrow> transmit_call list \<Rightarrow> pending_transmitter" where
  "drain_pending attempt [] calls = \<lparr>pending_frames = [], transmit_calls = calls\<rparr>"
| "drain_pending attempt (frame # frames) calls =
     (let transmitted = attempt calls frame;
          calls = calls @ [Attempt frame 1000 transmitted, Delay 10]
      in if \<not> transmitted then \<lparr>pending_frames = frame # frames, transmit_calls = calls\<rparr>
         else drain_pending attempt frames calls)"

definition offer :: "bus \<Rightarrow> pending_transmitter \<Rightarrow> can_frame \<Rightarrow> pending_transmitter" where
  "offer attempt t frame = drain_pending attempt (pending_frames t @ [frame]) (transmit_calls t)"

definition new_transmitter :: pending_transmitter where
  "new_transmitter = \<lparr>pending_frames = [], transmit_calls = []\<rparr>"

definition sent_frames :: "transmit_call list \<Rightarrow> can_frame list" where
  "sent_frames calls = concat (map (\<lambda>c. case c of Attempt f _ True \<Rightarrow> [f] | _ \<Rightarrow> []) calls)"

lemma sent_frames_simps [simp]:
  "sent_frames [] = []"
  "sent_frames (xs @ ys) = sent_frames xs @ sent_frames ys"
  "sent_frames (Attempt f n ok # cs) = (if ok then f # sent_frames cs else sent_frames cs)"
  "sent_frames (Delay n # cs) = sent_frames cs"
  by (simp_all add: sent_frames_def)

lemma drain_pending_order:
  "sent_frames (transmit_calls (drain_pending attempt fs calls)) @
     pending_frames (drain_pending attempt fs calls) = sent_frames calls @ fs"
  by (induction fs arbitrary: calls) (auto simp: Let_def)

text \<open>
  The transmitter neither loses, duplicates nor reorders a frame, whatever the bus answers:
  after any offers, the frames that went out followed by those still pending are exactly the
  frames offered, in order.
\<close>
theorem transmitter_fifo:
  "sent_frames (transmit_calls (foldl (offer attempt) new_transmitter frames)) @
     pending_frames (foldl (offer attempt) new_transmitter frames) = frames"
proof (induction frames rule: rev_induct)
  case (snoc f fs)
  then show ?case
    using drain_pending_order [of attempt] by (simp add: offer_def)
qed (simp add: new_transmitter_def)


section \<open>Remote reads and writes\<close>

text \<open>
  \<open>CanopenTargetService::read_remote_u32\<close> and \<open>write_remote_u32\<close>. Arguments stand for the RTOS
  and the bus: whether the mutex was taken, whether the driver accepted the request, the frames
  that the receive task hands to the mailbox while the caller waits, and the time when it wakes.
\<close>

fun remote_wait :: "mailbox \<Rightarrow> can_frame list \<Rightarrow> mailbox \<times> sdo_client_response option" where
  "remote_wait m [] = (m, None)"
| "remote_wait m (f # fs) =
     (case mailbox_accept m f of
        (m', Some r) \<Rightarrow> (m', Some r)
      | (m', None) \<Rightarrow> remote_wait m' fs)"

definition remote_exchange ::
  "mailbox \<times> can_frame option \<Rightarrow> bool \<Rightarrow> can_frame list \<Rightarrow> u64 \<Rightarrow>
     mailbox \<times> sdo_client_response option" where
  "remote_exchange begun transmitted arrived later =
     (let (m, request) = begun
      in if request = None \<or> \<not> transmitted then (m, None)
         else
           let (m, result) = remote_wait m arrived
           in if result = None then (fst (mailbox_timed_out m later), None) else (m, result))"

definition read_remote_u32 ::
  "mailbox \<Rightarrow> bool \<Rightarrow> u8 \<Rightarrow> u16 \<Rightarrow> u8 \<Rightarrow> u32 \<Rightarrow> u64 \<Rightarrow> bool \<Rightarrow> can_frame list \<Rightarrow> u64 \<Rightarrow>
     mailbox \<times> u32 option" where
  "read_remote_u32 m taken node index subindex timeout now transmitted arrived later =
     (if \<not> taken then (m, None)
      else
        let (m, result) = remote_exchange (begin_upload m node index subindex now timeout)
                            transmitted arrived later
        in (m, case result of
                 None \<Rightarrow> None
               | Some r \<Rightarrow> if response_aborted r then None else Some (response_value r)))"

definition write_remote_u32 ::
  "mailbox \<Rightarrow> bool \<Rightarrow> u8 \<Rightarrow> u16 \<Rightarrow> u8 \<Rightarrow> u32 \<Rightarrow> u32 \<Rightarrow> u64 \<Rightarrow> bool \<Rightarrow> can_frame list \<Rightarrow> u64 \<Rightarrow>
     mailbox \<times> bool" where
  "write_remote_u32 m taken node index subindex value timeout now transmitted arrived later =
     (if \<not> taken then (m, False)
      else
        let (m, result) = remote_exchange (begin_download m node index subindex value now timeout)
                            transmitted arrived later
        in (m, case result of None \<Rightarrow> False | Some r \<Rightarrow> \<not> response_aborted r))"

lemma remote_wait_acks:
  "\<forall>f \<in> set fs. can_data f ! 0 = 0x60 \<Longrightarrow> remote_wait m fs = (m, None)"
  by (induction fs) (auto simp: mailbox_accept_def parse_sdo_client_response_def split: option.splits)

text \<open>
  A remote write is reported as failed however it is acknowledged: while only download
  acknowledgements arrive, \<open>write_remote_u32\<close> returns false, and it leaves the request pending
  when the task wakes before the stored deadline.
\<close>
theorem write_remote_fails_on_acknowledgement:
  assumes "\<forall>f \<in> set arrived. can_data f ! 0 = 0x60"
  shows "snd (write_remote_u32 None True node i s v timeout now transmitted arrived later) = False \<and>
    (transmitted \<and> later < now + ucast timeout \<longrightarrow>
       fst (write_remote_u32 None True node i s v timeout now transmitted arrived later) \<noteq> None)"
  using remote_wait_acks [OF assms]
  by (simp add: write_remote_u32_def remote_exchange_def begin_download_def mailbox_timed_out_def)

theorem write_remote_fails_on_acknowledgement_witness:
  "snd (write_remote_u32 None True 0x11 0x1006 0 7 500 1000 True
     [response_header (make_sdo_download_request 0x11 0x1006 0 7) 0x60] 1500) = False"
  using write_remote_fails_on_acknowledgement
    [of "[response_header (make_sdo_download_request 0x11 0x1006 0 7) 0x60]"] by simp

text \<open>
  A request that the driver does not take jams the mailbox: \<open>read_remote_u32\<close> returns without
  releasing it, and every later remote read or write returns at once without a result and leaves
  it as it is, whatever the driver, the bus and the clock do.
\<close>
theorem remote_jam_after_transmit_failure:
  assumes "read_remote_u32 None True node i s timeout now False arrived later = (m, r)"
  shows "m \<noteq> None \<and>
    read_remote_u32 m taken node' i' s' timeout' now' transmitted arrived' later' = (m, None) \<and>
    write_remote_u32 m taken node' i' s' v timeout' now' transmitted arrived' later' = (m, False)"
  using assms
  by (auto simp: read_remote_u32_def write_remote_u32_def remote_exchange_def begin_upload_def
      begin_download_def)

theorem remote_jam_after_transmit_failure_witness:
  "\<exists>m. read_remote_u32 None True 1 0x6000 1 100 0 False [] 0 = (m, None) \<and>
     read_remote_u32 m True 1 0x6000 1 100 1000000 True [] 2000000 = (m, None)"
proof -
  obtain m where m: "read_remote_u32 None True 1 0x6000 1 100 0 False [] 0 = (m, None)"
    by (simp add: read_remote_u32_def remote_exchange_def begin_upload_def)
  show ?thesis
    using remote_jam_after_transmit_failure [OF m] m by blast
qed

section \<open>The output monitor\<close>

text \<open>
  \<open>CanOutputMonitor\<close>: the last value logged, and the records emitted. The two fixed start-up
  records are constructors; a sampled record is its text.
\<close>

datatype monitor_record = Startup_record | Gpio_record | Output_record string

record output_monitor =
  previous_value :: "u32 option"
  monitor_log :: "monitor_record list"

definition hex_digit :: "nat \<Rightarrow> char" where
  "hex_digit n = ''0123456789abcdef'' ! n"

definition hex8 :: "u32 \<Rightarrow> string" where
  "hex8 v = map (\<lambda>k. hex_digit (unat (drop_bit (4 * k) v AND 0xf))) [7, 6, 5, 4, 3, 2, 1, 0]"

definition monitor_message :: "u32 \<Rightarrow> string" where
  "monitor_message v =
     ''0x6001:1 DO=0x'' @ hex8 v @ '' (DO2='' @
     (if drop_bit 1 v AND 1 = 0 then ''0'' else ''1'') @ '')''"

definition monitor_start :: "output_monitor \<Rightarrow> output_monitor" where
  "monitor_start m =
     m\<lparr>previous_value := None, monitor_log := monitor_log m @ [Startup_record, Gpio_record]\<rparr>"

definition output_value :: "dictionary \<Rightarrow> u32 option" where
  "output_value d =
     (let r = dict_read d 0x6001 1
      in if read_abort r \<noteq> Sdo_none \<or> length (read_data r) \<noteq> 4 then None
         else Some (decode_little_endian (read_data r)))"

definition monitor_sample :: "output_monitor \<Rightarrow> dictionary \<Rightarrow> output_monitor" where
  "monitor_sample m d =
     (case output_value d of
        None \<Rightarrow> m
      | Some v \<Rightarrow>
          if previous_value m = Some v then m
          else
            let message = monitor_message v
            in if 0 < length message \<and> length message < 48
               then m\<lparr>monitor_log := monitor_log m @ [Output_record message], previous_value := Some v\<rparr>
               else m)"

lemma output_value_digital [simp]: "output_value d = Some (od_digital_output d)"
  by (simp add: output_value_def dict_read_def entry_at entry_of_def access_def Let_def)

lemma length_monitor_message: "length (monitor_message v) = 30"
  by (simp add: monitor_message_def hex8_def)

lemma monitor_message_nonempty [simp]: "monitor_message v \<noteq> []"
  by (simp add: monitor_message_def)

text \<open>
  A sample logs exactly when the output object differs from the last value logged, and then
  remembers it; the message always fits the 48-byte buffer.
\<close>

lemma monitor_sample_changes:
  "monitor_sample m d =
     (if previous_value m = Some (od_digital_output d) then m
      else m\<lparr>monitor_log := monitor_log m @ [Output_record (monitor_message (od_digital_output d))],
             previous_value := Some (od_digital_output d)\<rparr>)"
  by (simp add: monitor_sample_def length_monitor_message Let_def)

end
