(* ===== verification/Crc.thy ===== *)
theory Crc
  imports Firmware_Prelude
begin

text \<open>
  The checksums of \<open>components/core/src/protocol/crc.cpp\<close>: the bit-serial CRC-16 used by
  ordinary frames and by BLUFI, the table-driven compatibility CRC of the controller update
  family, and CRC-32/ISO-HDLC. The lemmas show that the bit-serial step is a linear bijection,
  that the table form with an unmodified table is the same function, and that a single
  corrupted byte always changes the checksum.
\<close>

section \<open>The algorithms\<close>

text \<open>One round of the inner loop over the eight bits of a byte.\<close>

definition crc16_round :: "u16 \<Rightarrow> u16" where
  "crc16_round crc =
     (if crc AND 0x8000 \<noteq> 0 then push_bit 1 crc XOR 0x1021 else push_bit 1 crc)"

definition crc16 :: "bytes \<Rightarrow> u16 \<Rightarrow> u16" where
  "crc16 bs initial =
     foldl (\<lambda>crc b. (crc16_round ^^ 8) (crc XOR push_bit 8 (ucast b))) initial bs"

definition conventional_crc16_table_entry :: "u8 \<Rightarrow> u16" where
  "conventional_crc16_table_entry index = (crc16_round ^^ 8) (push_bit 8 (ucast index))"

definition controller_crc_table_entry :: "u8 \<Rightarrow> u16" where
  "controller_crc_table_entry index =
     (if index = 0xE6 then 0x8FD9
      else if index = 0xE7 then 0x9FF8
      else conventional_crc16_table_entry index)"

definition crc16_ccitt :: "bytes \<Rightarrow> u16" where
  "crc16_ccitt bs = crc16 bs 0"

text \<open>The body of the loop of \<open>crc16_controller_update\<close>, over a given table.\<close>

definition crc16_table_step :: "(u8 \<Rightarrow> u16) \<Rightarrow> u16 \<Rightarrow> u8 \<Rightarrow> u16" where
  "crc16_table_step table remainder b =
     push_bit 8 remainder XOR table (ucast (drop_bit 8 remainder) XOR b)"

definition crc16_controller_update :: "bytes \<Rightarrow> u16" where
  "crc16_controller_update bs = foldl (crc16_table_step controller_crc_table_entry) 0 bs"

definition crc16_blufi :: "bytes \<Rightarrow> u16" where
  "crc16_blufi bs = crc16 bs 0xFFFF XOR 0xFFFF"

definition crc32_round :: "u32 \<Rightarrow> u32" where
  "crc32_round crc =
     (if crc AND 1 \<noteq> 0 then drop_bit 1 crc XOR 0xEDB88320 else drop_bit 1 crc)"

definition crc32_byte :: "u32 \<Rightarrow> u8 \<Rightarrow> u32" where
  "crc32_byte crc b = (crc32_round ^^ 8) (crc XOR ucast b)"

definition crc32_iso_hdlc :: "bytes \<Rightarrow> u32" where
  "crc32_iso_hdlc bs = foldl crc32_byte 0xFFFFFFFF bs XOR 0xFFFFFFFF"

section \<open>The bit-serial step is a linear bijection\<close>

lemma crc16_round_bit:
  "crc16_round crc = push_bit 1 crc XOR (if bit crc 15 then 0x1021 else 0)"
  using and_exp_eq_0_iff_not_bit [of crc 15]
  by (simp add: crc16_round_def)

lemma crc16_round_xor: "crc16_round (a XOR b) = crc16_round a XOR crc16_round b"
  unfolding crc16_round_bit push_bit_xor bit_xor_iff
  by (cases "bit a 15"; cases "bit b 15")
    (simp_all add: xor.assoc xor.left_commute xor.commute)

lemma crc16_rounds_xor:
  "(crc16_round ^^ n) (a XOR b) = (crc16_round ^^ n) a XOR (crc16_round ^^ n) b"
  by (induction n) (simp_all add: crc16_round_xor)

text \<open>Shifting out the top bit of two words that agree there loses no information.\<close>

lemma push_bit_1_inj:
  fixes a b :: u16
  assumes "push_bit 1 a = push_bit 1 b" and "bit a 15 = bit b 15"
  shows "a = b"
proof (rule bit_word_eqI)
  fix n assume n: "n < LENGTH(16)"
  show "bit a n = bit b n"
  proof (cases "n = 15")
    case False
    with n have "bit (push_bit 1 a) (Suc n) = bit a n" "bit (push_bit 1 b) (Suc n) = bit b n"
      unfolding bit_push_bit_iff by simp_all
    with assms(1) show ?thesis by simp
  qed (use assms(2) in simp)
qed

lemma crc16_round_bit_0: "bit (crc16_round x) 0 \<longleftrightarrow> bit x 15"
  unfolding crc16_round_bit bit_xor_iff bit_push_bit_iff by simp

lemma inj_crc16_round: "inj crc16_round"
proof (rule injI)
  fix a b assume eq: "crc16_round a = crc16_round b"
  then have top: "bit a 15 = bit b 15"
    by (metis crc16_round_bit_0)
  have "push_bit 1 a = push_bit 1 b"
    using eq unfolding crc16_round_bit top by (simp only: word_xor_cancel)
  then show "a = b"
    using top by (rule push_bit_1_inj)
qed

lemma inj_crc16_rounds: "inj (crc16_round ^^ n)"
  by (rule inj_fn [OF inj_crc16_round])

lemma crc16_simps [simp]:
  "crc16 [] i = i"
  "crc16 (b # bs) i = crc16 bs ((crc16_round ^^ 8) (i XOR push_bit 8 (ucast b)))"
  by (simp_all add: crc16_def)

lemma crc16_append: "crc16 (xs @ ys) i = crc16 ys (crc16 xs i)"
  by (simp add: crc16_def)

lemma inj_crc16: "inj (crc16 bs)"
proof (induction bs)
  case (Cons b bs)
  show ?case
  proof (rule injI)
    fix i j assume "crc16 (b # bs) i = crc16 (b # bs) j"
    then have "(crc16_round ^^ 8) (i XOR push_bit 8 (ucast b)) =
               (crc16_round ^^ 8) (j XOR push_bit 8 (ucast b))"
      using Cons.IH by (simp add: inj_eq del: funpow.simps)
    then have "i XOR push_bit 8 (ucast b) = j XOR push_bit 8 (ucast b)"
      by (rule injD [OF inj_crc16_rounds])
    then show "i = j"
      by (simp only: word_xor_cancel)
  qed
qed (simp add: inj_def)

lemma push_8_ucast_inj:
  fixes a b :: u8
  assumes "push_bit 8 (ucast a :: u16) = push_bit 8 (ucast b)"
  shows "a = b"
proof (rule bit_word_eqI)
  fix n assume n: "n < LENGTH(8)"
  have "bit (push_bit 8 (ucast a :: u16)) (8 + n) = bit a n"
    "bit (push_bit 8 (ucast b :: u16)) (8 + n) = bit b n"
    using n by (simp_all add: bit_simps)
  with assms show "bit a n = bit b n" by simp
qed

lemma crc16_byte_inj: "crc16 (a # ys) i = crc16 (b # ys) i \<longleftrightarrow> a = b"
proof
  assume "crc16 (a # ys) i = crc16 (b # ys) i"
  then have "(crc16_round ^^ 8) (i XOR push_bit 8 (ucast a)) =
             (crc16_round ^^ 8) (i XOR push_bit 8 (ucast b))"
    by (simp add: inj_eq [OF inj_crc16] del: funpow.simps)
  then have "i XOR push_bit 8 (ucast a) = i XOR push_bit 8 (ucast b)"
    by (rule injD [OF inj_crc16_rounds])
  then show "a = b"
    by (auto simp only: word_xor_cancel intro: push_8_ucast_inj)
qed simp

text \<open>
  A corrupted byte is always detected by the checksum of ordinary frames: two payloads that
  differ in exactly one byte, whatever the bytes before and after it, have different CRCs.
\<close>

theorem crc16_detects_byte_error:
  "crc16_ccitt (xs @ a # ys) = crc16_ccitt (xs @ b # ys) \<longleftrightarrow> a = b"
  by (simp only: crc16_ccitt_def crc16_append crc16_byte_inj)

section \<open>The table form\<close>

lemma crc16_rounds_low:
  assumes "\<And>k. 8 \<le> k \<Longrightarrow> \<not> bit x k" and "n \<le> 8"
  shows "(crc16_round ^^ n) x = push_bit n x"
  using assms(2)
proof (induction n)
  case (Suc n)
  have "\<not> bit (push_bit n x) 15"
    unfolding bit_push_bit_iff using assms(1) [of "15 - n"] Suc.prems by simp
  then have "crc16_round (push_bit n x) = push_bit 1 (push_bit n x)"
    unfolding crc16_round_bit by (simp only: if_False xor.right_neutral)
  with Suc show ?case
    by (simp only: funpow.simps comp_apply push_bit_push_bit) simp
qed simp

lemma crc16_step_table:
  "(crc16_round ^^ 8) (crc XOR push_bit 8 (ucast b)) =
     crc16_table_step conventional_crc16_table_entry crc b"
proof -
  let ?hi = "push_bit 8 (ucast (ucast (drop_bit 8 crc) XOR b :: u8)) :: u16"
  let ?lo = "take_bit 8 crc"
  have split: "crc XOR push_bit 8 (ucast b) = ?hi XOR ?lo"
    by (rule bit_word_eqI) (auto simp: bit_simps)
  have low: "(crc16_round ^^ 8) ?lo = push_bit 8 ?lo"
    by (rule crc16_rounds_low) (auto simp: bit_simps)
  have sh: "push_bit 8 ?lo = push_bit 8 crc"
    by (rule bit_word_eqI) (auto simp: bit_simps)
  show ?thesis
    unfolding split crc16_rounds_xor low sh crc16_table_step_def
      conventional_crc16_table_entry_def
    by (rule xor.commute)
qed

lemma crc16_table_form:
  "foldl (crc16_table_step conventional_crc16_table_entry) i bs = crc16 bs i"
  by (simp only: crc16_def crc16_step_table)

text \<open>The table entries that a run of the table-driven loop reads, in order.\<close>

fun crc16_table_indices :: "(u8 \<Rightarrow> u16) \<Rightarrow> u16 \<Rightarrow> bytes \<Rightarrow> u8 list" where
  "crc16_table_indices table r [] = []"
| "crc16_table_indices table r (b # bs) =
     (ucast (drop_bit 8 r) XOR b) # crc16_table_indices table (crc16_table_step table r b) bs"

lemma foldl_table_cong:
  assumes "\<forall>i \<in> set (crc16_table_indices t r bs). t i = t' i"
  shows "foldl (crc16_table_step t) r bs = foldl (crc16_table_step t') r bs"
  using assms
proof (induction bs arbitrary: r)
  case (Cons b bs)
  have "t (ucast (drop_bit 8 r) XOR b) = t' (ucast (drop_bit 8 r) XOR b)"
    by (rule bspec [OF Cons.prems]) (simp only: crc16_table_indices.simps list.set insertI1)
  then have step: "crc16_table_step t r b = crc16_table_step t' r b"
    by (simp only: crc16_table_step_def)
  have "foldl (crc16_table_step t) (crc16_table_step t r b) bs =
        foldl (crc16_table_step t') (crc16_table_step t r b) bs"
  proof (rule Cons.IH)
    show "\<forall>i \<in> set (crc16_table_indices t (crc16_table_step t r b) bs). t i = t' i"
      using Cons.prems unfolding crc16_table_indices.simps list.set ball_simps
      by (rule conjunct2)
  qed
  then show ?case
    by (simp only: foldl_Cons step)
qed simp

text \<open>
  The table-driven compatibility CRC of the controller update family is the CRC of ordinary
  frames on every input whose run never reads one of the two modified table entries.
\<close>

theorem controller_crc_agrees:
  assumes "0xE6 \<notin> set (crc16_table_indices controller_crc_table_entry 0 bs)"
    and "0xE7 \<notin> set (crc16_table_indices controller_crc_table_entry 0 bs)"
  shows "crc16_controller_update bs = crc16_ccitt bs"
proof -
  have "controller_crc_table_entry i = conventional_crc16_table_entry i"
    if "i \<in> set (crc16_table_indices controller_crc_table_entry 0 bs)" for i
  proof -
    from that assms have "i \<noteq> 0xE6" "i \<noteq> 0xE7" by blast+
    then show ?thesis
      by (simp only: controller_crc_table_entry_def if_False)
  qed
  then have "\<forall>i \<in> set (crc16_table_indices controller_crc_table_entry 0 bs).
          controller_crc_table_entry i = conventional_crc16_table_entry i" by blast
  then show ?thesis
    unfolding crc16_controller_update_def crc16_ccitt_def
    by (rule trans [OF foldl_table_cong crc16_table_form])
qed

theorem controller_crc_agrees_witness:
  "crc16_controller_update [1, 2] = crc16_ccitt [1, 2]"
  by (rule controller_crc_agrees; code_simp)

lemma modified_entries_collide:
  "controller_crc_table_entry 0xE6 = controller_crc_table_entry 0xF6"
  "controller_crc_table_entry 0xE7 = controller_crc_table_entry 0xF7"
  by code_simp+

text \<open>
  The two modified entries cost the compatibility CRC its single-byte error detection: after
  every prefix there are two different bytes that no continuation distinguishes.
\<close>

theorem controller_crc_misses_byte_error:
  "\<exists>a b. a \<noteq> b \<and>
     (\<forall>ys. crc16_controller_update (xs @ a # ys) = crc16_controller_update (xs @ b # ys))"
proof -
  define r where "r = foldl (crc16_table_step controller_crc_table_entry) 0 xs"
  define h :: u8 where "h = ucast (drop_bit 8 r)"
  have cancel: "h XOR (h XOR i) = i" for i
    by (simp only: xor.assoc [symmetric] xor_self_eq xor.left_neutral)
  have step: "crc16_table_step controller_crc_table_entry r (h XOR 0xE6) =
        crc16_table_step controller_crc_table_entry r (h XOR 0xF6)"
    unfolding crc16_table_step_def h_def [symmetric] cancel modified_entries_collide ..
  have same: "crc16_controller_update (xs @ (h XOR 0xE6) # ys) =
        crc16_controller_update (xs @ (h XOR 0xF6) # ys)" for ys
    by (simp only: crc16_controller_update_def foldl_append foldl_Cons r_def [symmetric] step)
  have "(0xE6 :: u8) \<noteq> 0xF6"
    by simp
  then have "h XOR 0xE6 \<noteq> h XOR 0xF6"
    by (simp only: word_xor_cancel not_False_eq_True)
  then show ?thesis
    using same by (intro exI conjI allI)
qed

section \<open>CRC-32\<close>

lemma crc32_round_bit:
  "crc32_round crc = drop_bit 1 crc XOR (if bit crc 0 then 0xEDB88320 else 0)"
  using and_exp_eq_0_iff_not_bit [of crc 0]
  by (simp add: crc32_round_def)

lemma crc32_round_bit_31: "bit (crc32_round x) 31 \<longleftrightarrow> bit x 0"
  unfolding crc32_round_bit bit_xor_iff bit_drop_bit_eq comp_apply
  by (auto dest: bit_imp_le_length)

lemma inj_crc32_round: "inj crc32_round"
proof (rule injI)
  fix a b assume eq: "crc32_round a = crc32_round b"
  then have low: "bit a 0 = bit b 0"
    by (metis crc32_round_bit_31)
  have dr: "drop_bit 1 a = drop_bit 1 b"
    using eq unfolding crc32_round_bit low by (simp only: word_xor_cancel)
  show "a = b"
  proof (rule bit_word_eqI)
    fix n
    show "bit a n = bit b n"
    proof (cases n)
      case (Suc k)
      have "bit (drop_bit 1 a) k = bit (drop_bit 1 b) k"
        using dr by simp
      with Suc show ?thesis
        unfolding bit_drop_bit_eq by simp
    qed (use low in simp)
  qed
qed

lemma inj_crc32_rounds: "inj (crc32_round ^^ n)"
  by (rule inj_fn [OF inj_crc32_round])

lemma inj_crc32_byte: "inj (\<lambda>crc. crc32_byte crc b)"
  by (rule injI) (auto simp only: crc32_byte_def inj_eq [OF inj_crc32_rounds] word_xor_cancel)

lemma inj_crc32_fold: "inj (\<lambda>crc. foldl crc32_byte crc bs)"
proof (induction bs)
  case (Cons b bs)
  show ?case
    by (rule injI) (auto dest!: injD [OF Cons.IH] injD [OF inj_crc32_byte])
qed (simp add: inj_def)

lemma crc32_byte_inj: "crc32_byte i a = crc32_byte i b \<longleftrightarrow> a = b"
proof
  assume "crc32_byte i a = crc32_byte i b"
  then have "ucast a = (ucast b :: u32)"
    by (simp only: crc32_byte_def inj_eq [OF inj_crc32_rounds] word_xor_cancel)
  then show "a = b"
    by (simp add: ucast_octet_eq_iff)
qed simp

lemma crc32_fold_byte:
  "foldl crc32_byte i (xs @ a # ys) = foldl crc32_byte i (xs @ b # ys) \<longleftrightarrow> a = b"
proof
  assume "foldl crc32_byte i (xs @ a # ys) = foldl crc32_byte i (xs @ b # ys)"
  then have "(\<lambda>crc. foldl crc32_byte crc ys) (crc32_byte (foldl crc32_byte i xs) a) =
             (\<lambda>crc. foldl crc32_byte crc ys) (crc32_byte (foldl crc32_byte i xs) b)"
    by simp
  then have "crc32_byte (foldl crc32_byte i xs) a = crc32_byte (foldl crc32_byte i xs) b"
    by (rule injD [OF inj_crc32_fold])
  then show "a = b" by (simp add: crc32_byte_inj)
qed simp

lemma crc32_detects_byte_error:
  "crc32_iso_hdlc (xs @ a # ys) = crc32_iso_hdlc (xs @ b # ys) \<longleftrightarrow> a = b"
  by (simp only: crc32_iso_hdlc_def word_xor_cancel crc32_fold_byte)

end
