(* ===== verification/Frame.thy ===== *)
theory Frame
  imports Crc
begin

text \<open>
  Common wire framing, \<open>components/core/src/protocol/frame.cpp\<close> and its header: the encoder,
  the UART candidate budget, and the incremental stream decoder with its two recovery modes and
  the USB candidate deadlines. The lemmas show that decoding inverts encoding, that every frame
  returned was present byte for byte in the stream, that a stream may be cut anywhere without
  changing its frames, and that the retained suffix is bounded by the frame limit.
\<close>

section \<open>Packets and policies\<close>

record frame =
  ftype :: u8
  fpayload :: bytes

datatype recovery_mode = scan_inside_candidate | discard_candidate

record stream_policy =
  maximum_frame_size :: nat
  recovery :: recovery_mode
  controller_update_crc :: bool
  timed_usb_candidates :: bool

abbreviation controller_maximum_frame_size :: nat where "controller_maximum_frame_size \<equiv> 528"
abbreviation controller_maximum_item_size :: nat where "controller_maximum_item_size \<equiv> 544"
abbreviation host_maximum_frame_size :: nat where "host_maximum_frame_size \<equiv> 8300"

definition policy_controller_uart :: stream_policy where
  "policy_controller_uart =
     \<lparr>maximum_frame_size = controller_maximum_frame_size, recovery = scan_inside_candidate,
      controller_update_crc = True, timed_usb_candidates = False\<rparr>"

definition policy_tcp :: stream_policy where
  "policy_tcp =
     \<lparr>maximum_frame_size = host_maximum_frame_size, recovery = scan_inside_candidate,
      controller_update_crc = False, timed_usb_candidates = False\<rparr>"

definition policy_usb :: stream_policy where
  "policy_usb =
     \<lparr>maximum_frame_size = host_maximum_frame_size, recovery = discard_candidate,
      controller_update_crc = False, timed_usb_candidates = True\<rparr>"

section \<open>Encoding\<close>

abbreviation sync_bytes :: bytes where "sync_bytes \<equiv> [0x86, 0x68]"
abbreviation tail_bytes :: bytes where "tail_bytes \<equiv> [0x55, 0xAA]"

definition is_controller_update_type :: "u8 \<Rightarrow> bool" where
  "is_controller_update_type t \<longleftrightarrow> t AND 0xF0 = 0xC0"

definition frame_crc :: "bool \<Rightarrow> u8 \<Rightarrow> bytes \<Rightarrow> u16" where
  "frame_crc controller_transport t crc_input =
     (if controller_transport \<and> is_controller_update_type t
      then crc16_controller_update crc_input else crc16_ccitt crc_input)"

definition encode_with_crc :: "frame \<Rightarrow> bool \<Rightarrow> bytes" where
  "encode_with_crc frame controller_transport =
     (if length (fpayload frame) > 65535 - 3 then []
      else
        let len = of_nat (length (fpayload frame) + 3) :: u16;
            bs = sync_bytes @ [byte_at len 1, byte_at len 0, ftype frame] @ fpayload frame;
            crc = frame_crc controller_transport (ftype frame) (drop 2 bs)
        in bs @ [byte_at crc 1, byte_at crc 0] @ tail_bytes)"

definition encode_frame :: "frame \<Rightarrow> bytes" where
  "encode_frame frame = encode_with_crc frame False"

definition encode_controller_frame :: "frame \<Rightarrow> bytes" where
  "encode_controller_frame frame = encode_with_crc frame True"

section \<open>The candidate budget\<close>

text \<open>\<open>UartCandidateCheckBudget\<close>: the counter, and the answer of one rejected candidate.\<close>

definition rejected_candidate :: "nat \<Rightarrow> bool \<times> nat" where
  "rejected_candidate unsuccessful_checks =
     (if unsuccessful_checks + 1 < 5000 then (False, unsuccessful_checks + 1) else (True, 0))"

section \<open>The stream decoder\<close>

record decoder =
  policy :: stream_policy
  buffer :: bytes
  header_started :: "u64 option"
  last_body_byte :: "u64 option"
  unsuccessful_checks :: nat

definition new_decoder :: "stream_policy \<Rightarrow> decoder" where
  "new_decoder p =
     \<lparr>policy = p, buffer = [], header_started = None, last_body_byte = None,
      unsuccessful_checks = 0\<rparr>"

definition reset_decoder :: "decoder \<Rightarrow> decoder" where
  "reset_decoder d = d\<lparr>buffer := [], header_started := None, last_body_byte := None\<rparr>"

text \<open>
  Rejecting a candidate discards \<open>discard_size\<close> bytes; on the UART the budget may ask for one
  more.
\<close>

definition reject_candidate :: "nat \<Rightarrow> decoder \<Rightarrow> decoder" where
  "reject_candidate discard_size d =
     (let d = d\<lparr>buffer := drop discard_size (buffer d)\<rparr>
      in if controller_update_crc (policy d)
         then let (extra, checks) = rejected_candidate (unsuccessful_checks d);
                  d = d\<lparr>unsuccessful_checks := checks\<rparr>
              in if extra then d\<lparr>buffer := drop 1 (buffer d)\<rparr> else d
         else d)"

text \<open>
  The examination of the candidate at the front of the buffer: it may be incomplete, rejected
  with a number of bytes to discard, or a frame of a given encoded size.
\<close>

datatype verdict = Incomplete | Rejected nat | Complete nat frame

definition examine_candidate :: "stream_policy \<Rightarrow> bytes \<Rightarrow> verdict" where
  "examine_candidate p b =
     (if length b < 4 then Incomplete
      else
        let data_length = unat (be16 (b ! 2) (b ! 3)); total_size = data_length + 6
        in if data_length < 3 \<or> total_size > maximum_frame_size p
           then Rejected (if recovery p = discard_candidate then 4 else 1)
           else if length b < total_size then Incomplete
           else
             let crc_offset = total_size - 4;
                 wire_crc = be16 (b ! crc_offset) (b ! (crc_offset + 1));
                 valid_tail = (b ! (total_size - 2) = 0x55 \<and> b ! (total_size - 1) = 0xAA);
                 expected_crc =
                   frame_crc (controller_update_crc p) (b ! 4) (take (crc_offset - 2) (drop 2 b));
                 valid_crc = (wire_crc = expected_crc)
             in if \<not> valid_tail \<or> \<not> valid_crc
                then Rejected (if recovery p = discard_candidate then total_size else 1)
                else Complete total_size
                       \<lparr>ftype = b ! 4, fpayload = take (crc_offset - 5) (drop 5 b)\<rparr>)"

text \<open>
  One turn of the \<open>for (;;)\<close> loop: \<open>Break\<close> leaves it, \<open>Again\<close> is \<open>continue\<close> or the end of the
  body, with the frame that the turn appended to the result.
\<close>

datatype turn = Break decoder | Again decoder "frame option"

definition decode_candidate :: "decoder \<Rightarrow> turn" where
  "decode_candidate d =
     (case examine_candidate (policy d) (buffer d) of
        Incomplete \<Rightarrow> Break d
      | Rejected discard_size \<Rightarrow> Again (reject_candidate discard_size d) None
      | Complete total_size f \<Rightarrow>
          Again (d\<lparr>buffer := drop total_size (buffer d), unsuccessful_checks := 0\<rparr>) (Some f))"

definition decode_turn :: "decoder \<Rightarrow> turn" where
  "decode_turn d =
     (case find_sub sync_bytes (buffer d) of
        None \<Rightarrow>
          Break (d\<lparr>buffer := (if buffer d \<noteq> [] \<and> last (buffer d) = 0x86 then [0x86] else [])\<rparr>)
      | Some found \<Rightarrow> decode_candidate (d\<lparr>buffer := drop found (buffer d)\<rparr>))"

lemma buffer_reject_candidate:
  "0 < n \<Longrightarrow> buffer d \<noteq> [] \<Longrightarrow> length (buffer (reject_candidate n d)) < length (buffer d)"
  by (auto simp: reject_candidate_def rejected_candidate_def Let_def)

lemma examine_candidate_Rejected:
  "examine_candidate p b = Rejected n \<Longrightarrow> 0 < n \<and> n \<le> length b \<and> 4 \<le> length b"
  by (auto simp: examine_candidate_def Let_def split: if_splits)

lemma examine_candidate_Complete:
  "examine_candidate p b = Complete n f \<Longrightarrow>
     9 \<le> n \<and> n \<le> length b \<and> n \<le> maximum_frame_size p"
  by (auto simp: examine_candidate_def Let_def split: if_splits)

lemma decode_candidate_shrinks:
  "decode_candidate d = Again d' f \<Longrightarrow> length (buffer d') < length (buffer d)"
  by (fastforce simp: decode_candidate_def split: verdict.splits
      dest: examine_candidate_Rejected examine_candidate_Complete intro: buffer_reject_candidate)

lemma decode_turn_Again:
  assumes "decode_turn d = Again d' f"
  obtains found where "find_sub sync_bytes (buffer d) = Some found"
    and "found + 2 \<le> length (buffer d)"
    and "decode_candidate (d\<lparr>buffer := drop found (buffer d)\<rparr>) = Again d' f"
  using assms find_sub_bound [of sync_bytes "buffer d"]
  by (auto simp: decode_turn_def split: option.splits)

lemma decode_turn_shrinks:
  assumes "decode_turn d = Again d' f"
  shows "length (buffer d') < length (buffer d)"
  using assms by (rule decode_turn_Again) (auto dest!: decode_candidate_shrinks)

text \<open>
  The decoding loop: each \<open>continue\<close> has consumed at least one byte, so it ends; the frames are
  those of the turns, in order.
\<close>

function decode_loop :: "decoder \<Rightarrow> decoder \<times> frame list" where
  "decode_loop d =
     (case decode_turn d of
        Break d' \<Rightarrow> (d', [])
      | Again d' f \<Rightarrow>
          let (d'', fs) = decode_loop d'
          in (d'', (case f of None \<Rightarrow> fs | Some x \<Rightarrow> x # fs)))"
  by pat_completeness auto
termination
  by (relation "measure (\<lambda>d. length (buffer d))") (auto dest: decode_turn_shrinks)

declare decode_loop.simps [simp del]

text \<open>The UART retention rule: whole blocks of 256 old bytes are shed at 2048.\<close>

function shed_overflow :: "bytes \<Rightarrow> bytes" where
  "shed_overflow b = (if 2048 \<le> length b then shed_overflow (drop 256 b) else b)"
  by pat_completeness auto
termination
  by (relation "measure length") auto

declare shed_overflow.simps [simp del]

text \<open>The candidate deadlines, tested before the new bytes are appended.\<close>

definition expire_candidate :: "u64 option \<Rightarrow> decoder \<Rightarrow> decoder" where
  "expire_candidate now_milliseconds d =
     (case now_milliseconds of
        None \<Rightarrow> d
      | Some now \<Rightarrow>
          if \<not> timed_usb_candidates (policy d) then d
          else
            let n = length (buffer d);
                header_expired =
                  (2 \<le> n \<and> n < 4 \<and>
                   (case header_started d of None \<Rightarrow> False | Some t \<Rightarrow> now - t > 100));
                body_expired =
                  (n > 4 \<and> (case last_body_byte d of None \<Rightarrow> False | Some t \<Rightarrow> now - t > 10000))
            in if header_expired \<or> body_expired
               then d\<lparr>buffer := [], header_started := None, last_body_byte := None\<rparr> else d)"

text \<open>The timestamps kept for the candidate that remains after decoding.\<close>

definition stamp_candidate :: "bytes \<Rightarrow> u64 option \<Rightarrow> decoder \<Rightarrow> decoder" where
  "stamp_candidate input now_milliseconds d =
     (case now_milliseconds of
        None \<Rightarrow> d
      | Some now \<Rightarrow>
          if \<not> timed_usb_candidates (policy d) then d
          else
            let n = length (buffer d)
            in if 2 \<le> n \<and> n < 4
               then d\<lparr>header_started :=
                        (case header_started d of None \<Rightarrow> Some now | Some t \<Rightarrow> Some t),
                      last_body_byte := None\<rparr>
               else if n = 4 then d\<lparr>header_started := None, last_body_byte := None\<rparr>
               else if n > 4
               then d\<lparr>header_started := None,
                      last_body_byte := (if input \<noteq> [] then Some now else last_body_byte d)\<rparr>
               else d\<lparr>header_started := None, last_body_byte := None\<rparr>)"

definition push_internal :: "decoder \<Rightarrow> bytes \<Rightarrow> u64 option \<Rightarrow> decoder \<times> frame list" where
  "push_internal d input now_milliseconds =
     (let d = expire_candidate now_milliseconds d;
          d = d\<lparr>buffer := buffer d @ input\<rparr>;
          d = (if controller_update_crc (policy d)
               then d\<lparr>buffer := shed_overflow (buffer d)\<rparr> else d);
          (d, result) = decode_loop d
      in (stamp_candidate input now_milliseconds d, result))"

definition push :: "decoder \<Rightarrow> bytes \<Rightarrow> decoder \<times> frame list" where
  "push d input = push_internal d input None"

definition push_at :: "decoder \<Rightarrow> bytes \<Rightarrow> u64 \<Rightarrow> decoder \<times> frame list" where
  "push_at d input now_milliseconds = push_internal d input (Some now_milliseconds)"

section \<open>Decoding inverts encoding\<close>

lemma encode_with_crc_shape:
  assumes "length (fpayload f) + 3 \<le> 65535"
  shows "\<exists>l1 l0 c1 c0. encode_with_crc f cc =
     [0x86, 0x68, l1, l0, ftype f] @ fpayload f @ [c1, c0, 0x55, 0xAA] \<and>
     unat (be16 l1 l0) = length (fpayload f) + 3 \<and>
     be16 c1 c0 = frame_crc cc (ftype f) ([l1, l0, ftype f] @ fpayload f)"
proof -
  let ?len = "of_nat (length (fpayload f) + 3) :: u16"
  have "unat ?len = length (fpayload f) + 3"
    using assms by (simp add: unat_of_nat del: of_nat_add)
  then have "unat (be16 (byte_at ?len 1) (byte_at ?len 0)) = length (fpayload f) + 3"
    by (simp del: of_nat_add)
  moreover have "\<exists>c1 c0. encode_with_crc f cc =
     [0x86, 0x68, byte_at ?len 1, byte_at ?len 0, ftype f] @ fpayload f @ [c1, c0, 0x55, 0xAA] \<and>
     be16 c1 c0 = frame_crc cc (ftype f)
       ([byte_at ?len 1, byte_at ?len 0, ftype f] @ fpayload f)"
    using assms by (auto simp: encode_with_crc_def Let_def)
  ultimately show ?thesis by blast
qed

lemma length_encode_with_crc:
  "length (fpayload f) + 3 \<le> 65535 \<Longrightarrow> length (encode_with_crc f cc) = length (fpayload f) + 9"
  by (auto simp: encode_with_crc_def Let_def)

lemma decode_turn_frame:
  assumes size: "length (fpayload f) + 9 \<le> maximum_frame_size (policy d)"
    and len: "length (fpayload f) + 3 \<le> 65535"
    and buf: "buffer d = encode_with_crc f (controller_update_crc (policy d)) @ rest"
  shows "decode_turn d = Again (d\<lparr>buffer := rest, unsuccessful_checks := 0\<rparr>) (Some f)"
proof -
  let ?n = "length (fpayload f)"
  obtain l1 l0 c1 c0 where
    shape: "encode_with_crc f (controller_update_crc (policy d)) =
              [0x86, 0x68, l1, l0, ftype f] @ fpayload f @ [c1, c0, 0x55, 0xAA]" and
    ulen: "unat (be16 l1 l0) = ?n + 3" and
    crc: "be16 c1 c0 = frame_crc (controller_update_crc (policy d)) (ftype f)
            ([l1, l0, ftype f] @ fpayload f)"
    using encode_with_crc_shape [OF len] by blast
  have b: "buffer d = [0x86, 0x68, l1, l0, ftype f] @ fpayload f @ [c1, c0, 0x55, 0xAA] @ rest"
    using buf shape by simp
  have find: "find_sub sync_bytes (buffer d) = Some 0"
    unfolding b by simp
  have lenb: "length (buffer d) = ?n + 9 + length rest"
    unfolding b by simp
  have nth: "buffer d ! 2 = l1" "buffer d ! 3 = l0" "buffer d ! 4 = ftype f"
    "buffer d ! (?n + 5) = c1" "buffer d ! (?n + 6) = c0"
    "buffer d ! (?n + 7) = 0x55" "buffer d ! (?n + 8) = 0xAA"
    unfolding b by (simp_all add: nth_append nth_Cons')
  have input: "take (?n + 3) (drop 2 (buffer d)) = [l1, l0, ftype f] @ fpayload f"
    unfolding b by (simp add: numeral_eq_Suc)
  have pay: "take ?n (drop 5 (buffer d)) = fpayload f"
    and rest: "drop (?n + 9) (buffer d) = rest"
    unfolding b by (simp_all add: numeral_eq_Suc)
  have "examine_candidate (policy d) (buffer d) = Complete (?n + 9) f"
    using size
    by (simp add: examine_candidate_def Let_def ulen lenb nth pay crc
        input [simplified] add.commute [of _ ?n] flip: add.assoc)
  then show ?thesis
    by (simp add: decode_turn_def decode_candidate_def find rest)
qed

lemma policy_reject_candidate [simp]: "policy (reject_candidate n d) = policy d"
  by (auto simp: reject_candidate_def Let_def split: prod.splits)

lemma decode_turn_policy:
  "decode_turn d = Break d' \<Longrightarrow> policy d' = policy d"
  "decode_turn d = Again d' f \<Longrightarrow> policy d' = policy d"
  by (auto simp: decode_turn_def decode_candidate_def split: option.splits verdict.splits)

lemma decode_turn_empty: "buffer d = [] \<Longrightarrow> decode_turn d = Break d"
  by (simp add: decode_turn_def)

lemma decode_loop_frames:
  assumes "buffer d = concat (map (\<lambda>f. encode_with_crc f (controller_update_crc (policy d))) fs)"
    and "\<forall>f \<in> set fs. length (fpayload f) + 9 \<le> maximum_frame_size (policy d) \<and>
                      length (fpayload f) + 3 \<le> 65535"
  shows "decode_loop d =
    (d\<lparr>buffer := [], unsuccessful_checks := (if fs = [] then unsuccessful_checks d else 0)\<rparr>, fs)"
  using assms
proof (induction fs arbitrary: d)
  case Nil
  then show ?case
    by (subst decode_loop.simps) (simp add: decode_turn_empty)
next
  case (Cons f fs)
  let ?rest = "concat (map (\<lambda>f. encode_with_crc f (controller_update_crc (policy d))) fs)"
  let ?d = "d\<lparr>buffer := ?rest, unsuccessful_checks := 0\<rparr>"
  have "decode_turn d = Again ?d (Some f)"
    by (rule decode_turn_frame) (use Cons.prems in auto)
  moreover have "decode_loop ?d = (?d\<lparr>buffer := [],
      unsuccessful_checks := (if fs = [] then unsuccessful_checks ?d else 0)\<rparr>, fs)"
    by (rule Cons.IH) (use Cons.prems in auto)
  ultimately show ?case
    by (subst decode_loop.simps) auto
qed

section \<open>Cutting the stream\<close>

lemma shed_overflow_small: "length b < 2048 \<Longrightarrow> shed_overflow b = b"
  by (subst shed_overflow.simps) simp

lemma reject_candidate_append:
  assumes "n \<le> length (buffer d)" "controller_update_crc (policy d) \<Longrightarrow> n < length (buffer d)"
  shows "reject_candidate n (d\<lparr>buffer := buffer d @ ys\<rparr>) =
         (let d' = reject_candidate n d in d'\<lparr>buffer := buffer d' @ ys\<rparr>)"
  using assms
  by (auto simp: reject_candidate_def rejected_candidate_def Let_def)

lemma examine_candidate_append:
  assumes "examine_candidate p b \<noteq> Incomplete"
  shows "examine_candidate p (b @ ys) = examine_candidate p b"
proof -
  define L where "L = unat (be16 (b ! 2) (b ! 3))"
  have four: "4 \<le> length b"
    using assms by (rule contrapos_np) (simp add: examine_candidate_def)
  then have hdr: "(b @ ys) ! 2 = b ! 2" "(b @ ys) ! 3 = b ! 3"
    by (simp_all add: nth_append)
  show ?thesis
  proof (cases "L < 3 \<or> maximum_frame_size p < L + 6")
    case True
    with four show ?thesis
      by (auto simp: examine_candidate_def Let_def hdr simp flip: L_def)
  next
    case False
    with assms four have len: "L + 6 \<le> length b"
      by (auto simp: examine_candidate_def Let_def simp flip: L_def split: if_splits)
    have nth: "(b @ ys) ! i = b ! i" if "i < L + 6" for i
      using that len by (simp add: nth_append)
    have sub: "take n (drop k (b @ ys)) = take n (drop k b)" if "n + k \<le> L + 6" for n k
      using that len by simp
    show ?thesis
      using False four len
      by (simp add: examine_candidate_def Let_def hdr nth sub flip: L_def)
  qed
qed

lemma decode_candidate_append:
  assumes again: "decode_candidate d = Again d' f"
    and mode: "controller_update_crc (policy d) \<Longrightarrow> recovery (policy d) = scan_inside_candidate"
  shows "decode_candidate (d\<lparr>buffer := buffer d @ ys\<rparr>) = Again (d'\<lparr>buffer := buffer d' @ ys\<rparr>) f"
proof -
  let ?v = "examine_candidate (policy d) (buffer d)"
  have v: "examine_candidate (policy d) (buffer d @ ys) = ?v"
    using again by (intro examine_candidate_append) (auto simp: decode_candidate_def)
  show ?thesis
  proof (cases ?v)
    case (Rejected n)
    have n: "n = 1" if "controller_update_crc (policy d)"
      using Rejected mode [OF that]
      by (auto simp: examine_candidate_def Let_def split: if_splits)
    have "reject_candidate n (d\<lparr>buffer := buffer d @ ys\<rparr>) =
          (let d' = reject_candidate n d in d'\<lparr>buffer := buffer d' @ ys\<rparr>)"
      by (rule reject_candidate_append) (use examine_candidate_Rejected [OF Rejected] n in auto)
    with again v Rejected show ?thesis
      by (auto simp: decode_candidate_def Let_def)
  qed (use again v examine_candidate_Complete [of "policy d" "buffer d"]
       in \<open>auto simp: decode_candidate_def\<close>)
qed

lemma decode_turn_again_append:
  assumes again: "decode_turn d = Again d' f"
    and mode: "controller_update_crc (policy d) \<Longrightarrow> recovery (policy d) = scan_inside_candidate"
  shows "decode_turn (d\<lparr>buffer := buffer d @ ys\<rparr>) = Again (d'\<lparr>buffer := buffer d' @ ys\<rparr>) f"
  using again
proof (rule decode_turn_Again)
  fix found
  assume found: "find_sub sync_bytes (buffer d) = Some found" "found + 2 \<le> length (buffer d)"
    and cand: "decode_candidate (d\<lparr>buffer := drop found (buffer d)\<rparr>) = Again d' f"
  from decode_candidate_append [OF cand, of ys] mode found(2) show ?thesis
    by (simp add: decode_turn_def find_sub_append_Some [OF found(1)])
qed

lemma decode_turn_skip:
  assumes skip: "\<And>m. m < length c \<Longrightarrow> \<not> starts_with sync_bytes (drop m (c @ zs))"
    and last: "zs = [] \<Longrightarrow> c \<noteq> [] \<Longrightarrow> last c \<noteq> 0x86"
  shows "decode_turn (d\<lparr>buffer := c @ zs\<rparr>) = decode_turn (d\<lparr>buffer := zs\<rparr>)"
  using find_sub_skip [OF skip] last
  by (auto simp: decode_turn_def last_append split: option.splits)

lemma decode_turn_break_append:
  assumes brk: "decode_turn d = Break d'"
  shows "decode_turn (d\<lparr>buffer := buffer d @ ys\<rparr>) = decode_turn (d'\<lparr>buffer := buffer d' @ ys\<rparr>)"
proof (cases "find_sub sync_bytes (buffer d)")
  case None
  show ?thesis
  proof (cases "buffer d \<noteq> [] \<and> last (buffer d) = 0x86")
    case True
    then obtain c where c: "buffer d = c @ [0x86]"
      by (metis append_butlast_last_id)
    have "\<not> starts_with sync_bytes (drop m (c @ 0x86 # ys))" if "m < length c" for m
      using find_sub_None [OF None, of m] that c
        starts_with_append_long [of sync_bytes "drop m (c @ [0x86])" ys] by simp
    then have "decode_turn (d\<lparr>buffer := c @ 0x86 # ys\<rparr>) = decode_turn (d\<lparr>buffer := 0x86 # ys\<rparr>)"
      by (rule decode_turn_skip) auto
    moreover have "d' = d\<lparr>buffer := [0x86]\<rparr>"
      using brk None c by (simp add: decode_turn_def [of d])
    ultimately show ?thesis
      using c by simp
  next
    case False
    have "\<not> starts_with sync_bytes (drop m (buffer d @ ys))" if "m < length (buffer d)" for m
    proof (cases "m + 2 \<le> length (buffer d)")
      case True
      then show ?thesis
        using find_sub_None [OF None, of m]
          starts_with_append_long [of sync_bytes "drop m (buffer d)" ys] by simp
    next
      case False
      with that have m: "m = length (buffer d) - 1" by simp
      have "drop m (buffer d) = [last (buffer d)]"
        using that unfolding m by (metis append_butlast_last_id append_eq_conv_conj
            length_butlast length_greater_0_conv order_le_less_trans zero_le)
      with \<open>\<not> (buffer d \<noteq> [] \<and> last (buffer d) = 0x86)\<close> that show ?thesis
        by auto
    qed
    then have "decode_turn (d\<lparr>buffer := buffer d @ ys\<rparr>) = decode_turn (d\<lparr>buffer := ys\<rparr>)"
      by (rule decode_turn_skip) (use False in auto)
    then show ?thesis
      using brk None False by (auto simp: decode_turn_def [of d])
  qed
next
  case (Some found)
  have bound: "found + 2 \<le> length (buffer d)"
    using find_sub_bound [OF Some] by simp
  have d': "d' = d\<lparr>buffer := drop found (buffer d)\<rparr>"
    using brk Some by (auto simp: decode_turn_def decode_candidate_def split: verdict.splits)
  have "\<not> starts_with sync_bytes (drop m (take found (buffer d) @ drop found (buffer d) @ ys))"
    if "m < length (take found (buffer d))" for m
  proof -
    have eq: "drop m (take found (buffer d) @ drop found (buffer d) @ ys) = drop m (buffer d) @ ys"
      using that bound by (simp add: drop_take flip: append.assoc)
    have "\<not> starts_with sync_bytes (drop m (buffer d))"
      using find_sub_Some [OF Some] that by simp
    then show ?thesis
      unfolding eq
      using starts_with_append_long [of sync_bytes "drop m (buffer d)" ys] that bound by simp
  qed
  then have "decode_turn (d\<lparr>buffer := take found (buffer d) @ drop found (buffer d) @ ys\<rparr>) =
             decode_turn (d\<lparr>buffer := drop found (buffer d) @ ys\<rparr>)"
    by (rule decode_turn_skip) (use bound in auto)
  then show ?thesis
    by (simp add: d' flip: append.assoc)
qed

lemma decode_loop_Break: "decode_turn d = Break d' \<Longrightarrow> decode_loop d = (d', [])"
  by (subst decode_loop.simps) simp

lemma decode_loop_Again:
  "decode_turn d = Again d' f \<Longrightarrow>
     decode_loop d = (fst (decode_loop d'),
       (case f of None \<Rightarrow> [] | Some x \<Rightarrow> [x]) @ snd (decode_loop d'))"
  by (subst decode_loop.simps) (auto split: prod.splits option.splits)

lemma decode_loop_cong: "decode_turn d = decode_turn e \<Longrightarrow> decode_loop d = decode_loop e"
  by (subst (1 2) decode_loop.simps) simp

lemma decode_loop_policy: "policy (fst (decode_loop d)) = policy d"
proof (induction d rule: decode_loop.induct)
  case (1 d)
  show ?case
  proof (cases "decode_turn d")
    case (Again d' f)
    with "1.IH" [OF Again] decode_turn_policy(2) [OF Again] show ?thesis
      by (simp add: decode_loop_Again)
  qed (simp add: decode_loop_Break decode_turn_policy)
qed

text \<open>Decoding in two pieces is decoding at once.\<close>

lemma decode_loop_append:
  assumes "controller_update_crc (policy d) \<Longrightarrow> recovery (policy d) = scan_inside_candidate"
  shows "decode_loop (d\<lparr>buffer := buffer d @ ys\<rparr>) =
    (let (d1, fs1) = decode_loop d; (d2, fs2) = decode_loop (d1\<lparr>buffer := buffer d1 @ ys\<rparr>)
     in (d2, fs1 @ fs2))"
  using assms
proof (induction d rule: decode_loop.induct)
  case (1 d)
  show ?case
  proof (cases "decode_turn d")
    case (Break d')
    have "decode_loop (d\<lparr>buffer := buffer d @ ys\<rparr>) = decode_loop (d'\<lparr>buffer := buffer d' @ ys\<rparr>)"
      by (rule decode_loop_cong) (rule decode_turn_break_append [OF Break])
    then show ?thesis
      by (simp add: decode_loop_Break [OF Break] split: prod.splits)
  next
    case (Again d' f)
    note app = decode_turn_again_append [OF Again "1.prems", of ys]
    have pol: "policy d' = policy d"
      by (rule decode_turn_policy(2) [OF Again])
    show ?thesis
      using "1.IH" [OF Again] "1.prems"
      by (simp add: decode_loop_Again [OF app] decode_loop_Again [OF Again] pol split: prod.splits)
  qed
qed

section \<open>Frames returned were on the wire\<close>

lemma encode_with_crc_from_parts:
  assumes "length xs + 3 = unat (be16 l1 l0)"
    and "be16 c1 c0 = frame_crc cc t ([l1, l0, t] @ xs)"
  shows "encode_with_crc \<lparr>ftype = t, fpayload = xs\<rparr> cc =
    [0x86, 0x68, l1, l0, t] @ xs @ [c1, c0, 0x55, 0xAA]"
proof -
  have small: "length xs \<le> 65535 - 3"
    using assms(1) unat_u16_less [of "be16 l1 l0"] by simp
  have len: "of_nat (length xs + 3) = be16 l1 l0"
    unfolding assms(1) by simp
  show ?thesis
    using small
    by (simp add: encode_with_crc_def Let_def len assms(2) [symmetric, simplified] del: of_nat_add)
qed

lemma take_last_four:
  assumes "k + 4 \<le> length r"
  shows "take (k + 4) r = take k r @ [r ! k, r ! (k + 1), r ! (k + 2), r ! (k + 3)]"
  using assms by (simp add: numeral_eq_Suc take_Suc_conv_app_nth)

lemma examine_candidate_CompleteD:
  assumes complete: "examine_candidate p b = Complete n f"
    and L: "unat (be16 (b ! 2) (b ! 3)) = k + 3"
  shows "n = k + 9" "k + 9 \<le> length b" "f = \<lparr>ftype = b ! 4, fpayload = take k (drop 5 b)\<rparr>"
    "b ! (k + 7) = 0x55" "b ! (k + 8) = 0xAA"
    "be16 (b ! (k + 5)) (b ! (k + 6)) =
       frame_crc (controller_update_crc p) (b ! 4) (take (k + 3) (drop 2 b))"
proof -
  have ar: "k + 3 + 6 = k + 9" "k + 9 - 4 = k + 5" "k + 9 - 2 = k + 7" "k + 9 - 1 = k + 8"
    "k + 5 + 1 = k + 6" "k + 5 - 2 = k + 3" "k + 5 - 5 = k"
    by simp_all
  note un = complete [unfolded examine_candidate_def Let_def L ar]
  have 1: "\<not> length b < 4" "\<not> (k + 3 < 3 \<or> maximum_frame_size p < k + 9)" "\<not> length b < k + 9"
    using un by (simp_all split: if_splits)
  note un2 = un [unfolded 1 [THEN eq_False [THEN iffD2]] if_False]
  show "n = k + 9" "f = \<lparr>ftype = b ! 4, fpayload = take k (drop 5 b)\<rparr>"
    "b ! (k + 7) = 0x55" "b ! (k + 8) = 0xAA"
    "be16 (b ! (k + 5)) (b ! (k + 6)) =
       frame_crc (controller_update_crc p) (b ! 4) (take (k + 3) (drop 2 b))"
    using un2 by (simp_all split: if_splits)
  show "k + 9 \<le> length b"
    using 1(3) by simp
qed

lemma examine_candidate_Complete_encode:
  assumes complete: "examine_candidate p b = Complete n f"
    and sync: "starts_with sync_bytes b"
  shows "take n b = encode_with_crc f (controller_update_crc p)"
proof -
  have len: "9 \<le> length b" "9 \<le> n" "3 \<le> unat (be16 (b ! 2) (b ! 3))"
    using examine_candidate_Complete [OF complete] complete
    by (auto simp: examine_candidate_def Let_def split: if_splits)
  then obtain k where k: "unat (be16 (b ! 2) (b ! 3)) = k + 3"
    by (metis le_add_diff_inverse2)
  note c = examine_candidate_CompleteD [OF complete k]
  from sync len(1) obtain l1 l0 t r where b: "b = [0x86, 0x68, l1, l0, t] @ r"
    by (auto simp: starts_with_iff Suc_le_length_iff numeral_eq_Suc)
  have idx: "b ! 2 = l1" "b ! 3 = l0" "b ! 4 = t" "drop 5 b = r" "length b = length r + 5"
    "b ! (k + 5) = r ! k" "b ! (k + 6) = r ! (k + 1)" "b ! (k + 7) = r ! (k + 2)"
    "b ! (k + 8) = r ! (k + 3)" "take (k + 3) (drop 2 b) = [l1, l0, t] @ take k r"
    "take (k + 9) b = [0x86, 0x68, l1, l0, t] @ take (k + 4) r"
    by (simp_all add: b numeral_eq_Suc)
  note c = c [unfolded idx]
  have "encode_with_crc f (controller_update_crc p) =
      [0x86, 0x68, l1, l0, t] @ take k r @ [r ! k, r ! (k + 1), 0x55, 0xAA]"
    unfolding c(3)
    by (rule encode_with_crc_from_parts) (use c(2,6) k [unfolded idx] in simp_all)
  moreover have "k + 4 \<le> length r"
    using c(2) by simp
  ultimately show ?thesis
    by (simp add: c(1) idx take_last_four c(4,5) [simplified])
qed

section \<open>The properties of the decoder\<close>

lemma push_eq:
  assumes "controller_update_crc (policy d) \<Longrightarrow> length (buffer d @ input) < 2048"
  shows "push d input = decode_loop (d\<lparr>buffer := buffer d @ input\<rparr>)"
  using assms
  by (cases "decode_loop (d\<lparr>buffer := buffer d @ input\<rparr>)")
     (simp add: push_def push_internal_def expire_candidate_def stamp_candidate_def shed_overflow_small
        Let_def del: length_append)

lemma push_host:
  "\<not> controller_update_crc (policy d) \<Longrightarrow> push d input = decode_loop (d\<lparr>buffer := buffer d @ input\<rparr>)"
  by (rule push_eq) simp

text \<open>
  C10. Decoding inverts encoding: a fresh decoder of any policy that is given the concatenated
  encodings of frames that fit its limit returns exactly these frames, in order, and retains
  nothing. On the controller UART the pushed stretch must stay below the 2048-byte retention
  bound.
\<close>
theorem push_encoded_frames:
  assumes "\<forall>f \<in> set fs. length (fpayload f) + 9 \<le> maximum_frame_size p \<and>
                         length (fpayload f) + 3 \<le> 65535"
    and "controller_update_crc p \<Longrightarrow>
           length (concat (map (\<lambda>f. encode_with_crc f (controller_update_crc p)) fs)) < 2048"
  shows "push (new_decoder p) (concat (map (\<lambda>f. encode_with_crc f (controller_update_crc p)) fs)) =
           (new_decoder p, fs)"
  using assms decode_loop_frames [of "new_decoder p\<lparr>buffer :=
     concat (map (\<lambda>f. encode_with_crc f (controller_update_crc p)) fs)\<rparr>" fs]
  by (subst push_eq) (simp_all add: new_decoder_def)

theorem push_encoded_frames_witness:
  "push (new_decoder policy_controller_uart)
     (concat (map (\<lambda>f. encode_with_crc f True)
        [\<lparr>ftype = 0x81, fpayload = [1, 2]\<rparr>, \<lparr>ftype = 0xC1, fpayload = []\<rparr>])) =
   (new_decoder policy_controller_uart,
     [\<lparr>ftype = 0x81, fpayload = [1, 2]\<rparr>, \<lparr>ftype = 0xC1, fpayload = []\<rparr>])"
  using push_encoded_frames [of "[\<lparr>ftype = 0x81, fpayload = [1, 2]\<rparr>, \<lparr>ftype = 0xC1, fpayload = []\<rparr>]"
      policy_controller_uart]
  by (simp add: policy_controller_uart_def length_encode_with_crc)



lemma decode_turn_frame_source:
  assumes "decode_turn d = Again d' f"
  shows "\<exists>pre. buffer d = pre @ buffer d' \<and>
    (\<forall>x. f = Some x \<longrightarrow> (\<exists>skipped. pre = skipped @ encode_with_crc x (controller_update_crc (policy d))))"
  using assms
proof (rule decode_turn_Again)
  fix found
  assume found: "find_sub sync_bytes (buffer d) = Some found"
    and cand: "decode_candidate (d\<lparr>buffer := drop found (buffer d)\<rparr>) = Again d' f"
  have sync: "starts_with sync_bytes (drop found (buffer d))"
    using find_sub_Some [OF found] by simp
  show ?thesis
  proof (cases "examine_candidate (policy d) (drop found (buffer d))")
    case (Rejected n)
    with cand have "d' = reject_candidate n (d\<lparr>buffer := drop found (buffer d)\<rparr>)" "f = None"
      by (auto simp: decode_candidate_def)
    moreover have "\<exists>k. buffer (reject_candidate n (d\<lparr>buffer := drop found (buffer d)\<rparr>)) = drop k (buffer d)"
      by (auto simp: reject_candidate_def Let_def split: prod.splits)
    ultimately show ?thesis
      by (metis append_take_drop_id option.distinct(1))
  next
    case (Complete n x)
    with cand have "buffer d' = drop n (drop found (buffer d))" "f = Some x"
      by (auto simp: decode_candidate_def)
    moreover have "take n (drop found (buffer d)) = encode_with_crc x (controller_update_crc (policy d))"
      by (rule examine_candidate_Complete_encode [OF Complete sync])
    ultimately have "buffer d =
        (take found (buffer d) @ encode_with_crc x (controller_update_crc (policy d))) @ buffer d'"
      by (metis append.assoc append_take_drop_id)
    with \<open>f = Some x\<close> show ?thesis
      by blast
  qed (use cand in \<open>simp add: decode_candidate_def\<close>)
qed

text \<open>The frames of a loop stand in its buffer one after the other, with gaps between them.\<close>

fun spaced :: "bytes list \<Rightarrow> bytes \<Rightarrow> bool" where
  "spaced [] b = True"
| "spaced (e # es) b \<longleftrightarrow> (\<exists>skipped rest. b = skipped @ e @ rest \<and> spaced es rest)"

lemma spaced_prepend: "spaced es b \<Longrightarrow> spaced es (pre @ b)"
  by (cases es) (auto, metis append.assoc)

lemma decode_loop_spaced:
  "spaced (map (\<lambda>f. encode_with_crc f (controller_update_crc (policy d))) (snd (decode_loop d))) (buffer d)"
proof (induction d rule: decode_loop.induct)
  case (1 d)
  show ?case
  proof (cases "decode_turn d")
    case (Again d' f)
    from decode_turn_frame_source [OF Again] obtain pre where pre: "buffer d = pre @ buffer d'"
      "\<And>x. f = Some x \<Longrightarrow> \<exists>skipped. pre = skipped @ encode_with_crc x (controller_update_crc (policy d))"
      by blast
    have IH: "spaced (map (\<lambda>f. encode_with_crc f (controller_update_crc (policy d)))
        (snd (decode_loop d'))) (buffer d')"
      using "1.IH" [OF Again] decode_turn_policy(2) [OF Again] by simp
    then show ?thesis
      using pre by (cases f) (fastforce simp: decode_loop_Again [OF Again] intro: spaced_prepend)+
  qed (simp add: decode_loop_Break)
qed

text \<open>
  C12. Nothing is invented: the encodings of the frames a TCP or USB decoder returns stand, whole,
  disjoint and in order, in the retained bytes followed by the new ones.
\<close>
theorem push_frames_on_wire:
  assumes "\<not> controller_update_crc (policy d)"
  shows "spaced (map encode_frame (snd (push d input))) (buffer d @ input)"
  using assms decode_loop_spaced [of "d\<lparr>buffer := buffer d @ input\<rparr>"]
  by (simp add: push_host encode_frame_def [abs_def])

theorem push_frames_on_wire_witness:
  "spaced (map encode_frame (snd (push (new_decoder policy_usb) [0x86, 0x68, 0, 3])))
     (buffer (new_decoder policy_usb) @ [0x86, 0x68, 0, 3])"
  by (rule push_frames_on_wire) (simp add: new_decoder_def policy_usb_def)

lemma decode_loop_retains:
  assumes "9 \<le> maximum_frame_size (policy d)"
  shows "length (buffer (fst (decode_loop d))) < maximum_frame_size (policy d)"
  using assms
proof (induction d rule: decode_loop.induct)
  case (1 d)
  show ?case
  proof (cases "decode_turn d")
    case (Break d')
    have "length (buffer d') < maximum_frame_size (policy d)"
      using Break "1.prems"
      by (auto simp: decode_turn_def decode_candidate_def examine_candidate_def Let_def
          split: option.splits verdict.splits if_splits)
    then show ?thesis
      by (simp add: decode_loop_Break [OF Break])
  next
    case (Again d' f)
    then show ?thesis
      using "1.IH" [OF Again] "1.prems" decode_turn_policy(2) [OF Again]
      by (simp add: decode_loop_Again [OF Again])
  qed
qed

lemma buffer_stamp_candidate [simp]: "buffer (stamp_candidate input now d) = buffer d"
  by (simp add: stamp_candidate_def Let_def split: option.splits)

lemma policy_expire_candidate [simp]: "policy (expire_candidate now d) = policy d"
  by (simp add: expire_candidate_def Let_def split: option.splits)

text \<open>
  Whatever a peer sends, timed or not, the bytes a decoder retains after a push are fewer
  than one maximum frame.
\<close>
theorem push_buffer_bound:
  assumes "9 \<le> maximum_frame_size (policy d)"
  shows "length (buffer (fst (push_internal d input now))) < maximum_frame_size (policy d)"
proof -
  define e where "e = (let e = expire_candidate now d; e = e\<lparr>buffer := buffer e @ input\<rparr>
    in if controller_update_crc (policy e) then e\<lparr>buffer := shed_overflow (buffer e)\<rparr> else e)"
  have "policy e = policy d"
    by (simp add: e_def Let_def)
  moreover have "buffer (fst (push_internal d input now)) = buffer (fst (decode_loop e))"
    by (simp add: push_internal_def e_def Let_def split: prod.splits)
  ultimately show ?thesis
    using decode_loop_retains [of e] assms by simp
qed

theorem push_buffer_bound_witness:
  "length (buffer (fst (push_internal (new_decoder policy_usb) (replicate 9000 0x86) (Some 5)))) < 8300"
  using push_buffer_bound [of "new_decoder policy_usb" "replicate 9000 0x86" "Some 5"]
  by (simp add: new_decoder_def policy_usb_def)

text \<open>
  A stale USB candidate cannot swallow a later frame: once a partial header is older than
  100 ms, or a partial body has been silent for more than 10 s, a frame pushed whole is returned,
  alone, and nothing is retained. The elapsed times are 64-bit differences.
\<close>
theorem push_at_after_expiry:
  assumes usb: "timed_usb_candidates (policy d)" "\<not> controller_update_crc (policy d)"
    and stale: "(2 \<le> length (buffer d) \<and> length (buffer d) < 4 \<and>
                   (\<exists>t. header_started d = Some t \<and> now - t > 100)) \<or>
                (length (buffer d) > 4 \<and>
                   (\<exists>t. last_body_byte d = Some t \<and> now - t > 10000))"
    and fits: "length (fpayload f) + 9 \<le> maximum_frame_size (policy d)"
      "length (fpayload f) + 3 \<le> 65535"
  shows "push_at d (encode_frame f) now =
           (d\<lparr>buffer := [], header_started := None, last_body_byte := None,
              unsuccessful_checks := 0\<rparr>, [f])"
proof -
  let ?e = "d\<lparr>buffer := [], header_started := None, last_body_byte := None\<rparr>"
  have expired: "expire_candidate (Some now) d = ?e"
    using usb stale by (auto simp: expire_candidate_def Let_def)
  have "decode_loop (?e\<lparr>buffer := encode_frame f\<rparr>) =
          (?e\<lparr>unsuccessful_checks := 0\<rparr>, [f])"
    using decode_loop_frames [of "?e\<lparr>buffer := encode_frame f\<rparr>" "[f]"] usb fits
    by (simp add: encode_frame_def)
  then show ?thesis
    using usb expired by (simp add: push_at_def push_internal_def stamp_candidate_def)
qed

theorem push_at_after_expiry_witness:
  "push_at (new_decoder policy_usb\<lparr>buffer := [0x86, 0x68, 0], header_started := Some 1000\<rparr>)
      (encode_frame \<lparr>ftype = 0x81, fpayload = [1]\<rparr>) 1101 =
     (new_decoder policy_usb, [\<lparr>ftype = 0x81, fpayload = [1]\<rparr>])"
  using push_at_after_expiry [of
      "new_decoder policy_usb\<lparr>buffer := [0x86, 0x68, 0], header_started := Some 1000\<rparr>" 1101
      "\<lparr>ftype = 0x81, fpayload = [1]\<rparr>"]
  by (simp add: new_decoder_def policy_usb_def)

end
