(* ===== verification/Text_Protocol.thy ===== *)
theory Text_Protocol
  imports Firmware_Prelude
begin

text \<open>
  Text of the host protocol: escape decoding, lexical path normalisation and command recognition
  (\<open>components/core/src/protocol/text.cpp\<close>), and the mapping of commands to service families
  (\<open>application/src/runtime/local_command_classifier.cpp\<close>). The lemmas show that a normalised
  path cannot leave the root and is its own normal form, and that a recognised command's
  argument lies inside the payload.
\<close>

section \<open>Escapes\<close>

fun decode_escaped :: "bytes \<Rightarrow> string" where
  "decode_escaped [] = []"
| "decode_escaped (b # bs) =
     (if b = 0 then []
      else (if 1 \<le> b \<and> b \<le> 5 then '' ?*!~'' ! (unat b - 1) else chr_of b) # decode_escaped bs)"

text \<open>The five codes are gone from the decoded text, and nothing follows a NUL.\<close>

lemma decode_escaped_clean:
  "c \<in> set (decode_escaped bs) \<Longrightarrow> 5 < octet c \<and> octet c \<noteq> 0"
proof (induction bs)
  case (Cons b bs)
  have "5 < octet ('' ?*!~'' ! (unat b - 1))" if "1 \<le> b" "b \<le> 5"
  proof -
    have "unat b \<in> {1, 2, 3, 4, 5}"
      using that by (auto simp: word_le_nat_alt)
    then show ?thesis
      by (elim insertE emptyE) (simp_all add: octet_def)
  qed
  moreover have "5 < b \<or> b = 0" if "\<not> (1 \<le> b \<and> b \<le> 5)"
    using that by (auto simp: word_le_nat_alt word_less_nat_alt not_le unat_eq_zero)
  ultimately show ?case
    using Cons by (auto split: if_splits)
qed simp

lemma decode_escaped_length: "length (decode_escaped bs) \<le> length bs"
  by (induction bs) auto

section \<open>Paths\<close>

text \<open>One component of the path: empty and \<open>.\<close> are dropped, \<open>..\<close> removes the last kept one.\<close>

definition push_part :: "string \<Rightarrow> string list \<Rightarrow> string list" where
  "push_part part parts =
     (if part \<noteq> [] \<and> part \<noteq> ''.''
      then (if part = ''..'' then (if parts \<noteq> [] then butlast parts else parts)
            else parts @ [part])
      else parts)"

function path_parts :: "string \<Rightarrow> string list \<Rightarrow> string list" where
  "path_parts rest parts =
     (case find_char CHR ''/'' rest of
        None \<Rightarrow> push_part rest parts
      | Some n \<Rightarrow> path_parts (drop (n + 1) rest) (push_part (take n rest) parts))"
  by pat_completeness auto
termination
  by (relation "measure (\<lambda>(rest, _). length rest)") (auto dest: find_char_Some)

declare path_parts.simps [simp del]

fun join_parts :: "string list \<Rightarrow> string" where
  "join_parts [] = []"
| "join_parts [p] = p"
| "join_parts (p # q # ps) = p @ ''/'' @ join_parts (q # ps)"

definition normalize_path :: "string \<Rightarrow> string" where
  "normalize_path input = ''/'' @ join_parts (path_parts input [])"

section \<open>Commands\<close>

datatype command_kind =
    Cmd_unknown | Cmd_status | Cmd_list | Cmd_make_directory | Cmd_remove | Cmd_move
  | Cmd_file_type | Cmd_md5_sum | Cmd_config_restore | Cmd_config_default | Cmd_config_get
  | Cmd_config_set | Cmd_time | Cmd_access_point | Cmd_wlan | Cmd_station_parameter_query
  | Cmd_access_point_parameter_query | Cmd_can_exercise | Cmd_record_start | Cmd_record_stop
  | Cmd_serial_get | Cmd_serial_set | Cmd_system_time | Cmd_clear_first_time | Cmd_upgrade
  | Cmd_reset | Cmd_diagnose | Cmd_wifi_diagnose | Cmd_mock_sd_control | Cmd_mock_nvs_control
  | Cmd_mock_network_control | Cmd_version

record command_match =
  cmd_kind :: command_kind
  argument_offset :: nat
  cmd_accepted :: bool

record command_rule =
  rule_prefix :: string
  rule_kind :: command_kind
  rule_offset :: nat
  rule_unlimited :: bool

definition rule :: "string \<Rightarrow> command_kind \<Rightarrow> nat \<Rightarrow> bool \<Rightarrow> command_rule" where
  "rule prefix kind offset unlimited =
     \<lparr>rule_prefix = prefix, rule_kind = kind, rule_offset = offset, rule_unlimited = unlimited\<rparr>"

definition command_rules :: "command_rule list" where
  "command_rules =
     [rule ''?'' Cmd_status 0 True,
      rule ''ls'' Cmd_list 2 False,
      rule ''mkdir'' Cmd_make_directory 5 False,
      rule ''rm'' Cmd_remove 2 False,
      rule ''mv'' Cmd_move 2 False,
      rule ''ftype'' Cmd_file_type 0 True,
      rule ''md5sum'' Cmd_md5_sum 7 False,
      rule ''config-restore'' Cmd_config_restore 15 False,
      rule ''config-default'' Cmd_config_default 15 False,
      rule ''config-get'' Cmd_config_get 11 False,
      rule ''config-set'' Cmd_config_set 11 False,
      rule ''time'' Cmd_time 4 False,
      rule ''M482'' Cmd_station_parameter_query 0 False,
      rule ''M483'' Cmd_access_point_parameter_query 0 False,
      rule ''wlan'' Cmd_wlan 0 False,
      rule ''M942'' Cmd_can_exercise 0 False,
      rule ''M951'' Cmd_record_start 0 True,
      rule ''M952'' Cmd_record_stop 0 True,
      rule ''sn-get'' Cmd_serial_get 0 False,
      rule ''sn-set'' Cmd_serial_set 0 False,
      rule ''sys-time'' Cmd_system_time 0 False,
      rule ''clearftm'' Cmd_clear_first_time 0 False,
      rule ''upgrade'' Cmd_upgrade 0 True,
      rule ''reset'' Cmd_reset 0 True,
      rule ''diagnose'' Cmd_diagnose 0 True,
      rule ''wifi-diag'' Cmd_wifi_diagnose 0 True,
      rule ''mock-sd'' Cmd_mock_sd_control 7 False,
      rule ''mock-nvs'' Cmd_mock_nvs_control 8 False,
      rule ''mock-net'' Cmd_mock_network_control 8 False,
      rule ''version'' Cmd_version 0 True]"

definition ascii_whitespace :: "u8 \<Rightarrow> bool" where
  "ascii_whitespace b \<longleftrightarrow> b = octet CHR '' '' \<or> (9 \<le> b \<and> b \<le> 13)"

definition no_command :: command_match where
  "no_command = \<lparr>cmd_kind = Cmd_unknown, argument_offset = 0, cmd_accepted = False\<rparr>"

definition match_rule :: "bytes \<Rightarrow> command_rule \<Rightarrow> command_match" where
  "match_rule payload r =
     \<lparr>cmd_kind = rule_kind r,
      argument_offset =
        (if rule_offset r < length payload then rule_offset r else length payload),
      cmd_accepted = (rule_unlimited r \<or> length payload \<le> 128)\<rparr>"

definition recognize_command :: "bytes \<Rightarrow> command_match" where
  "recognize_command payload =
     (if 3 \<le> length payload \<and> payload ! 0 = octet CHR ''a'' \<and> payload ! 1 = octet CHR ''p'' \<and>
         (payload ! 2 = 0 \<or> ascii_whitespace (payload ! 2))
      then \<lparr>cmd_kind = Cmd_access_point,
            argument_offset = (if payload ! 2 = octet CHR '' '' then 3 else length payload),
            cmd_accepted = (length payload \<le> 128)\<rparr>
      else
        case find (\<lambda>r. starts_with (octets (rule_prefix r)) payload) command_rules of
          Some r \<Rightarrow> match_rule payload r
        | None \<Rightarrow> no_command)"

datatype local_command_family =
    Family_none | Family_runtime | Family_serial_number | Family_recording | Family_filesystem
  | Family_wlan | Family_access_point

fun classify_local_command :: "command_kind \<Rightarrow> local_command_family" where
  "classify_local_command Cmd_system_time = Family_runtime"
| "classify_local_command Cmd_clear_first_time = Family_runtime"
| "classify_local_command Cmd_serial_get = Family_serial_number"
| "classify_local_command Cmd_serial_set = Family_serial_number"
| "classify_local_command Cmd_record_start = Family_recording"
| "classify_local_command Cmd_record_stop = Family_recording"
| "classify_local_command Cmd_list = Family_filesystem"
| "classify_local_command Cmd_file_type = Family_filesystem"
| "classify_local_command Cmd_md5_sum = Family_filesystem"
| "classify_local_command Cmd_remove = Family_filesystem"
| "classify_local_command Cmd_move = Family_filesystem"
| "classify_local_command Cmd_wlan = Family_wlan"
| "classify_local_command Cmd_access_point = Family_access_point"
| "classify_local_command Cmd_station_parameter_query = Family_access_point"
| "classify_local_command Cmd_access_point_parameter_query = Family_access_point"
| "classify_local_command _ = Family_none"

section \<open>Normal forms of paths\<close>

text \<open>What a kept component looks like.\<close>

definition kept_part :: "string \<Rightarrow> bool" where
  "kept_part p \<longleftrightarrow> p \<noteq> [] \<and> p \<noteq> ''.'' \<and> p \<noteq> ''..'' \<and> CHR ''/'' \<notin> set p"

lemma push_part_kept:
  assumes "\<forall>p \<in> set parts. kept_part p" "CHR ''/'' \<notin> set part"
  shows "\<forall>p \<in> set (push_part part parts). kept_part p"
  using assms by (auto simp: push_part_def kept_part_def dest: in_set_butlastD)

lemma path_parts_kept:
  "\<forall>p \<in> set parts. kept_part p \<Longrightarrow> \<forall>p \<in> set (path_parts rest parts). kept_part p"
proof (induction rest parts rule: path_parts.induct)
  case (1 rest parts)
  show ?case
  proof (cases "find_char CHR ''/'' rest")
    case None
    show ?thesis
      using push_part_kept [OF "1.prems" find_char_None [THEN iffD1, OF None]]
      by (subst path_parts.simps) (simp add: None)
  next
    case (Some n)
    have "CHR ''/'' \<notin> set (take n rest)"
      using find_char_Some [OF Some] by simp
    then show ?thesis
      using 1 push_part_kept Some by (subst path_parts.simps) simp
  qed
qed

lemma path_parts_step:
  "CHR ''/'' \<notin> set p \<Longrightarrow> path_parts (p @ CHR ''/'' # rest) parts = path_parts rest (push_part p parts)"
  by (subst path_parts.simps) (simp add: search_simps)

lemma path_parts_last: "CHR ''/'' \<notin> set p \<Longrightarrow> path_parts p parts = push_part p parts"
  by (subst path_parts.simps) (simp add: find_char_None [THEN iffD2])

lemma path_parts_join:
  "\<forall>p \<in> set ps. kept_part p \<Longrightarrow> path_parts (join_parts ps) parts = parts @ ps"
proof (induction ps arbitrary: parts rule: join_parts.induct)
  case 1
  then show ?case by (simp add: path_parts_last push_part_def)
next
  case (2 p)
  then show ?case by (simp add: path_parts_last push_part_def kept_part_def)
next
  case (3 p q ps)
  then show ?case
    by (simp add: path_parts_step push_part_def kept_part_def)
qed

text \<open>
  C30. A host cannot name anything outside the root: whatever string it sends, the normalised path
  is absolute, none of its components is empty, \<open>.\<close> or \<open>..\<close> or contains a separator, and
  normalising it again changes nothing.
\<close>
theorem normalize_path_contained:
  "\<exists>parts. normalize_path s = ''/'' @ join_parts parts \<and>
     (\<forall>p \<in> set parts. p \<noteq> [] \<and> p \<noteq> ''.'' \<and> p \<noteq> ''..'' \<and> CHR ''/'' \<notin> set p) \<and>
     normalize_path (normalize_path s) = normalize_path s"
proof -
  have kept: "\<forall>p \<in> set (path_parts s []). kept_part p"
    by (rule path_parts_kept) simp
  have "path_parts (normalize_path s) [] = path_parts s []"
    using path_parts_step [of "[]" "join_parts (path_parts s [])" "[]"] path_parts_join [OF kept, of "[]"]
    by (simp add: normalize_path_def push_part_def)
  then have "normalize_path (normalize_path s) = normalize_path s"
    by (simp add: normalize_path_def [of "normalize_path s"]) (simp add: normalize_path_def)
  then show ?thesis
    using kept unfolding kept_part_def by (intro exI [of _ "path_parts s []"]) (auto simp: normalize_path_def)
qed

theorem normalize_path_contained_witness:
  "normalize_path (normalize_path ''a/../../b'') = ''/b''"
proof -
  have "normalize_path ''a/../../b'' = ''/b''"
    by code_simp
  then show ?thesis
    using normalize_path_contained [of "''a/../../b''"] by auto
qed

section \<open>Recognition\<close>

lemma find_Some_in: "find P xs = Some x \<Longrightarrow> x \<in> set xs \<and> P x"
  by (induction xs) (auto split: if_splits)

lemma recognize_command_offset: "argument_offset (recognize_command payload) \<le> length payload"
  by (auto simp: recognize_command_def match_rule_def no_command_def split: option.splits)

lemma command_rules_known: "r \<in> set command_rules \<Longrightarrow> rule_kind r \<noteq> Cmd_unknown"
proof -
  have "list_all (\<lambda>r. rule_kind r \<noteq> Cmd_unknown) command_rules"
    by (simp add: command_rules_def rule_def)
  then show "r \<in> set command_rules \<Longrightarrow> rule_kind r \<noteq> Cmd_unknown"
    by (simp add: list_all_iff)
qed

lemma recognize_command_unknown:
  "cmd_kind (recognize_command payload) = Cmd_unknown \<longleftrightarrow>
     recognize_command payload = no_command"
  using command_rules_known
  by (auto simp: recognize_command_def match_rule_def no_command_def
      split: option.splits dest!: find_Some_in)

end
