(* ===== verification/Routing.thy ===== *)
theory Routing
  imports Frame Text_Protocol
begin

text \<open>
  Ownership and routing, \<open>components/application/src/runtime/ownership.cpp\<close> and \<open>router.cpp\<close>, and
  the dispatch of TCP frames to service sinks, \<open>transport/tcp_frame_dispatcher.cpp\<close>. The lemmas
  show the exclusion of the two owners, that every frame has a destination, and that a frame
  reaches the controller or the transfer service only when the policy allows it.
\<close>

section \<open>Ownership\<close>

datatype host_transport = Tcp | Usb

record host_identity =
  host_transport :: host_transport
  host_slot :: u8
  host_generation :: u32

record file_owner_identity =
  owner_transport :: host_transport
  owner_slot :: u8

record ownership =
  own_file :: "file_owner_identity option"
  own_play :: "host_identity option"

definition new_ownership :: ownership where
  "new_ownership = \<lparr>own_file = None, own_play = None\<rparr>"

definition is_file_owner :: "ownership \<Rightarrow> host_identity \<Rightarrow> bool" where
  "is_file_owner ow h \<longleftrightarrow>
     (case own_file ow of
        None \<Rightarrow> False
      | Some f \<Rightarrow> owner_transport f = host_transport h \<and> owner_slot f = host_slot h)"

definition claim_file :: "ownership \<Rightarrow> host_identity \<Rightarrow> ownership \<times> bool" where
  "claim_file ow h =
     (if own_file ow \<noteq> None \<and> \<not> is_file_owner ow h then (ow, False)
      else (ow\<lparr>own_file := Some \<lparr>owner_transport = host_transport h, owner_slot = host_slot h\<rparr>\<rparr>,
            True))"

definition release_file :: "ownership \<Rightarrow> ownership" where
  "release_file ow = ow\<lparr>own_file := None\<rparr>"

definition has_file_owner :: "ownership \<Rightarrow> bool" where
  "has_file_owner ow \<longleftrightarrow> own_file ow \<noteq> None"

definition file_owner :: "ownership \<Rightarrow> host_identity option" where
  "file_owner ow =
     map_option (\<lambda>f. \<lparr>host_transport = owner_transport f, host_slot = owner_slot f,
                      host_generation = 0\<rparr>) (own_file ow)"

definition is_play_owner :: "ownership \<Rightarrow> host_identity \<Rightarrow> bool" where
  "is_play_owner ow h \<longleftrightarrow> own_play ow = Some h"

definition claim_play :: "ownership \<Rightarrow> host_identity \<Rightarrow> ownership \<times> bool" where
  "claim_play ow h =
     (if own_play ow \<noteq> None \<and> \<not> is_play_owner ow h then (ow, False)
      else (ow\<lparr>own_play := Some h\<rparr>, True))"

definition release_play :: "ownership \<Rightarrow> ownership" where
  "release_play ow = ow\<lparr>own_play := None\<rparr>"

definition has_play_owner :: "ownership \<Rightarrow> bool" where
  "has_play_owner ow \<longleftrightarrow> own_play ow \<noteq> None"

definition transport_disconnected :: "ownership \<Rightarrow> host_identity \<Rightarrow> ownership" where
  "transport_disconnected ow h = (if is_play_owner ow h then release_play ow else ow)"

section \<open>Decisions\<close>

datatype route_target =
    To_none | To_consume | To_broadcast | To_controller | To_local_command | To_file_transfer
  | To_play_status | To_status_snapshot | To_diagnostic_snapshot | To_version_snapshot

fun route_target_code :: "route_target \<Rightarrow> u16" where
  "route_target_code To_none = 0"
| "route_target_code To_consume = 1"
| "route_target_code To_broadcast = 2"
| "route_target_code To_controller = 4"
| "route_target_code To_local_command = 8"
| "route_target_code To_file_transfer = 16"
| "route_target_code To_play_status = 32"
| "route_target_code To_status_snapshot = 64"
| "route_target_code To_diagnostic_snapshot = 128"
| "route_target_code To_version_snapshot = 256"

datatype controller_family =
    Controller_none | Controller_firmware | Controller_configuration | Controller_factory_data
  | Controller_streamed_play

record route_decision =
  targets :: u16
  route_family :: controller_family
  requires_local_acceptance :: bool
  non_owner_file_data :: bool

definition empty_decision :: route_decision where
  "empty_decision =
     \<lparr>targets = 0, route_family = Controller_none, requires_local_acceptance = False,
      non_owner_file_data = False\<rparr>"

definition has_target :: "route_decision \<Rightarrow> route_target \<Rightarrow> bool" where
  "has_target d t \<longleftrightarrow> targets d AND route_target_code t \<noteq> 0"

definition add_target :: "route_target \<Rightarrow> route_decision \<Rightarrow> route_decision" where
  "add_target t d = d\<lparr>targets := targets d OR route_target_code t\<rparr>"

definition suppress_controller :: "route_decision \<Rightarrow> route_decision" where
  "suppress_controller d =
     (let d = d\<lparr>targets := targets d AND NOT (route_target_code To_controller),
                requires_local_acceptance := False\<rparr>
      in if targets d = 0 then add_target To_consume d else d)"

section \<open>The router\<close>

record router =
  router_ownership :: ownership
  controller_transfer_active :: bool

definition controller_family_of :: "u8 \<Rightarrow> controller_family" where
  "controller_family_of t =
     (if t AND 0xF0 = 0xC0 then Controller_firmware
      else if t AND 0xF0 = 0xD0 then Controller_configuration
      else if t AND 0xF0 = 0xE0 then Controller_factory_data
      else if t AND 0xF0 = 0xF0 then Controller_streamed_play
      else Controller_none)"

definition is_file_data_type :: "u8 \<Rightarrow> bool" where
  "is_file_data_type t \<longleftrightarrow> 0xB1 \<le> t \<and> t \<le> 0xB6"

definition from_controller :: "frame \<Rightarrow> route_decision" where
  "from_controller f =
     (let d = empty_decision\<lparr>route_family := controller_family_of (ftype f)\<rparr>
      in if route_family d \<noteq> Controller_none then add_target To_consume d
         else if ftype f = 0x81 then add_target To_status_snapshot d
         else if ftype f = 0x82 then add_target To_diagnostic_snapshot d
         else if ftype f = 0x71 then add_target To_version_snapshot d
         else add_target To_broadcast d)"

text \<open>The destinations of a command frame before suppression.\<close>

definition command_targets :: "frame \<Rightarrow> route_decision" where
  "command_targets f =
     (let d = empty_decision; payload = fpayload f
      in if ftype f = 0xA1 then
           add_target (if payload \<noteq> [] \<and> hd payload = octet CHR ''?'' then To_local_command
                       else To_controller) d
         else if ftype f = 0xA2 \<and> starts_with (octets ''play'') payload then
           (add_target To_controller (add_target To_local_command d))
             \<lparr>requires_local_acceptance := True\<rparr>
         else if ftype f = 0xA2 \<and> starts_with (octets ''M942'') payload then
           add_target To_controller (add_target To_local_command d)
         else if ftype f = 0xA2 then
           let command = recognize_command payload
           in add_target (if cmd_kind command \<noteq> Cmd_unknown \<and> cmd_accepted command
                          then To_local_command else To_controller) d
         else add_target To_controller d)"

definition from_host :: "router \<Rightarrow> host_identity \<Rightarrow> frame \<Rightarrow> route_decision" where
  "from_host r h f =
     (let d = empty_decision; payload = fpayload f
      in if ftype f = 0xB0 \<and>
            (starts_with (octets ''upload'') payload \<or> starts_with (octets ''download'') payload)
         then add_target To_file_transfer d
         else if is_file_data_type (ftype f) then
           let own = is_file_owner (router_ownership r) h
           in (add_target (if own then To_file_transfer else To_consume) d)
                \<lparr>non_owner_file_data := \<not> own \<and> has_file_owner (router_ownership r)\<rparr>
         else if ftype f = 0xB7 then add_target To_play_status d
         else
           let d = command_targets f
           in if controller_transfer_active r \<and> has_target d To_controller
              then suppress_controller d else d)"

definition apply_controller_admission :: "nat \<Rightarrow> bool \<Rightarrow> route_decision \<Rightarrow> route_decision" where
  "apply_controller_admission encoded_size output_capacity_available d =
     (if \<not> has_target d To_controller then d
      else if encoded_size = 0 \<or> encoded_size > 544 \<or> \<not> output_capacity_available
      then suppress_controller d else d)"

section \<open>Dispatch\<close>

text \<open>
  The sinks of a TCP session, and the calls one frame makes; a sink that is not set is absent from
  the set of available ones.
\<close>

datatype dispatch_call =
    Call_non_owner host_identity | Call_controller frame | Call_local_command frame
  | Call_file_transfer frame | Call_play_status frame

record dispatch_sinks =
  sink_controller :: bool
  sink_local_command :: bool
  sink_file_transfer :: bool
  sink_play_status :: bool
  sink_non_owner :: bool

definition tcp_dispatch :: "dispatch_sinks \<Rightarrow> router \<Rightarrow> host_identity \<Rightarrow> frame \<Rightarrow> dispatch_call list" where
  "tcp_dispatch sinks r h f =
     (let d = from_host r h f
      in (if non_owner_file_data d \<and> sink_non_owner sinks
          then (case file_owner (router_ownership r) of Some owner \<Rightarrow> [Call_non_owner owner] | None \<Rightarrow> [])
          else []) @
         (if has_target d To_controller \<and> sink_controller sinks then [Call_controller f] else []) @
         (if has_target d To_local_command \<and> sink_local_command sinks
          then [Call_local_command f] else []) @
         (if has_target d To_file_transfer \<and> sink_file_transfer sinks
          then [Call_file_transfer f] else []) @
         (if has_target d To_play_status \<and> sink_play_status sinks
          then [Call_play_status f] else []))"

section \<open>Exclusion\<close>

text \<open>Two connections share the file role when transport and slot agree.\<close>

definition same_client :: "host_identity \<Rightarrow> host_identity \<Rightarrow> bool" where
  "same_client a b \<longleftrightarrow> host_transport a = host_transport b \<and> host_slot a = host_slot b"

text \<open>
  C21. The two owners are exclusive. A file claim by a client succeeds unless another transport
  slot holds the role, and then exactly its clients own it; a play claim succeeds unless another
  physical connection holds it; a refused claim changes nothing; and a disconnect ends the play
  role of exactly that connection and never the file role.
\<close>
theorem ownership_exclusive:
  "claim_file ow a = (ow', ok) \<Longrightarrow> claim_play ow b = (ow'', ok') \<Longrightarrow>
     (ok \<longleftrightarrow> (\<forall>c. is_file_owner ow c \<longrightarrow> same_client c a)) \<and>
     (if ok then \<forall>c. is_file_owner ow' c \<longleftrightarrow> same_client c a else ow' = ow) \<and>
     (ok' \<longleftrightarrow> (\<forall>c. is_play_owner ow c \<longrightarrow> c = b)) \<and>
     (if ok' then \<forall>c. is_play_owner ow'' c \<longleftrightarrow> c = b else ow'' = ow) \<and>
     (\<forall>c. is_play_owner (transport_disconnected ow a) c \<longleftrightarrow> is_play_owner ow c \<and> c \<noteq> a) \<and>
     own_file (transport_disconnected ow a) = own_file ow"
proof -
  assume fc: "claim_file ow a = (ow', ok)" and pc: "claim_play ow b = (ow'', ok')"
  have other: "is_file_owner ow c \<longleftrightarrow> same_client c h" if "is_file_owner ow h" for h c
    using that by (auto simp: is_file_owner_def same_client_def split: option.splits)
  have someone: "\<exists>c. is_file_owner ow c" if owned: "own_file ow \<noteq> None"
  proof -
    obtain f where f: "own_file ow = Some f" using owned by blast
    have "is_file_owner ow \<lparr>host_transport = owner_transport f, host_slot = owner_slot f, host_generation = 0\<rparr>"
      by (simp add: is_file_owner_def f)
    then show ?thesis by blast
  qed
  have "ok \<longleftrightarrow> (\<forall>c. is_file_owner ow c \<longrightarrow> same_client c a)"
  proof (cases "own_file ow = None \<or> is_file_owner ow a")
    case True
    then have "ok" using fc by (auto simp: claim_file_def split: if_splits)
    with True other [of a] show ?thesis by (auto simp: is_file_owner_def)
  next
    case False
    then have "\<not> ok" using fc by (auto simp: claim_file_def)
    moreover have "own_file ow \<noteq> None" using False by simp
    then obtain c where c: "is_file_owner ow c" using someone by blast
    moreover have "\<not> same_client c a"
      using False c other [OF c, of a] by (auto simp: same_client_def)
    ultimately show ?thesis by blast
  qed
  moreover have "if ok then \<forall>c. is_file_owner ow' c \<longleftrightarrow> same_client c a else ow' = ow"
    using fc by (auto simp: claim_file_def is_file_owner_def same_client_def split: if_splits)
  moreover have "ok' \<longleftrightarrow> (\<forall>c. is_play_owner ow c \<longrightarrow> c = b)"
    "if ok' then \<forall>c. is_play_owner ow'' c \<longleftrightarrow> c = b else ow'' = ow"
    using pc by (auto simp: claim_play_def is_play_owner_def split: if_splits)
  moreover have "\<forall>c. is_play_owner (transport_disconnected ow a) c \<longleftrightarrow> is_play_owner ow c \<and> c \<noteq> a"
    "own_file (transport_disconnected ow a) = own_file ow"
    by (auto simp: transport_disconnected_def release_play_def is_play_owner_def)
  ultimately show ?thesis by blast
qed

section \<open>Destinations\<close>

text \<open>Every target but the empty one is a single bit.\<close>

fun target_bit :: "route_target \<Rightarrow> nat" where
  "target_bit To_none = 16"
| "target_bit To_consume = 0"
| "target_bit To_broadcast = 1"
| "target_bit To_controller = 2"
| "target_bit To_local_command = 3"
| "target_bit To_file_transfer = 4"
| "target_bit To_play_status = 5"
| "target_bit To_status_snapshot = 6"
| "target_bit To_diagnostic_snapshot = 7"
| "target_bit To_version_snapshot = 8"

lemma route_target_code_bit: "bit (route_target_code t) k \<longleftrightarrow> k = target_bit t \<and> k < 16"
proof -
  have "route_target_code t = push_bit (target_bit t) 1"
    by (cases t) (simp_all add: push_bit_eq_mult)
  then show ?thesis
    by (auto simp: bit_simps)
qed

lemma word_nonzero_bit: "(w :: 'a::len word) \<noteq> 0 \<longleftrightarrow> (\<exists>k. bit w k)"
proof
  show "\<exists>k. bit w k" if "w \<noteq> 0"
    using that by (rule contrapos_np) (auto intro: bit_word_eqI)
qed auto

lemma has_target_bit: "has_target d t \<longleftrightarrow> bit (targets d) (target_bit t)"
  using bit_imp_le_length [of "targets d" "target_bit t"]
  by (auto simp: has_target_def word_nonzero_bit bit_simps route_target_code_bit)

lemma has_add_target [simp]:
  "has_target (add_target t d) u \<longleftrightarrow> has_target d u \<or> (u = t \<and> t \<noteq> To_none)"
  by (cases t; cases u) (auto simp: has_target_bit add_target_def bit_simps route_target_code_bit)

lemma has_suppress_controller [simp]:
  "has_target (suppress_controller d) t \<longleftrightarrow>
     (t \<noteq> To_controller \<and> has_target d t) \<or>
     (t = To_consume \<and> targets d AND NOT (route_target_code To_controller) = 0)"
proof -
  have kept: "has_target (d\<lparr>targets := targets d AND NOT (route_target_code To_controller),
      requires_local_acceptance := False\<rparr>) t \<longleftrightarrow> t \<noteq> To_controller \<and> has_target d t"
    using bit_imp_le_length [of "targets d" "target_bit t"]
    by (cases t) (auto simp: has_target_bit bit_simps route_target_code_bit)
  show ?thesis
    using kept by (auto simp: suppress_controller_def Let_def)
qed

lemma has_empty [simp]: "\<not> has_target (empty_decision\<lparr>route_family := f\<rparr>) t" "\<not> has_target empty_decision t"
  by (simp_all add: has_target_def empty_decision_def)

lemma has_target_updates [simp]:
  "has_target (d\<lparr>non_owner_file_data := b\<rparr>) t = has_target d t"
  "has_target (d\<lparr>requires_local_acceptance := b\<rparr>) t = has_target d t"
  by (simp_all add: has_target_def)

lemma command_targets_codes:
  "targets (command_targets f) \<in> {4, 8, 12}"
  by (auto simp: command_targets_def add_target_def empty_decision_def Let_def)

lemma command_targets_acceptance:
  "requires_local_acceptance (command_targets f) \<Longrightarrow> targets (command_targets f) = 12"
  by (auto simp: command_targets_def add_target_def empty_decision_def Let_def split: if_splits)

lemma command_targets_owner [simp]: "non_owner_file_data (command_targets f) = False"
  by (auto simp: command_targets_def add_target_def empty_decision_def Let_def)

lemma has_target_code: "targets d = w \<Longrightarrow> has_target d t \<longleftrightarrow> w AND route_target_code t \<noteq> 0"
  by (simp add: has_target_def)

lemma suppress_codes:
  "targets d = 4 \<Longrightarrow> targets (suppress_controller d) = 1"
  "targets d = 12 \<Longrightarrow> targets (suppress_controller d) = 8"
  "requires_local_acceptance (suppress_controller d) = False"
  "non_owner_file_data (suppress_controller d) = non_owner_file_data d"
  by (simp_all add: suppress_controller_def add_target_def Let_def)

text \<open>Where a host frame may end up, as the bit set of the decision.\<close>

lemma routed_codes:
  defines "upload f \<equiv> ftype f = 0xB0 \<and>
     (starts_with (octets ''upload'') (fpayload f) \<or> starts_with (octets ''download'') (fpayload f))"
  shows "targets (apply_controller_admission n cap (from_host r h f)) \<in>
    (if upload f then {16}
     else if is_file_data_type (ftype f) then {if is_file_owner (router_ownership r) h then 16 else 1}
     else if ftype f = 0xB7 then {32}
     else if controller_transfer_active r \<or> n = 0 \<or> 544 < n \<or> \<not> cap then {1, 8}
     else {4, 8, 12})"
proof (cases "upload f \<or> is_file_data_type (ftype f) \<or> ftype f = 0xB7")
  case True
  then show ?thesis
    by (auto simp: from_host_def upload_def apply_controller_admission_def has_target_def add_target_def
        empty_decision_def Let_def)
next
  case False
  let ?d = "command_targets f"
  have *: "from_host r h f =
      (if controller_transfer_active r \<and> has_target ?d To_controller then suppress_controller ?d else ?d)"
    using False by (auto simp: from_host_def upload_def Let_def)
  have "targets ?d \<in> {4, 8, 12}"
    by (rule command_targets_codes)
  then show ?thesis
    using False unfolding * by (auto simp: apply_controller_admission_def has_target_code suppress_codes)
qed

text \<open>
  C28. Routing decides every host frame. After the output admission there is always a
  destination; the controller is one only outside a controller transfer, for an encoding of 1 to
  544 bytes with output capacity, and never for transfer data or playback state; the transfer
  service is one only for its commands and for data of the owning client; and data of another
  client is consumed alone.
\<close>
theorem routing_policy:
  "let e = apply_controller_admission n cap (from_host r h f) in
    (\<exists>t. has_target e t) \<and>
    (has_target e To_controller \<longrightarrow>
       \<not> controller_transfer_active r \<and> 0 < n \<and> n \<le> 544 \<and> cap \<and>
       \<not> is_file_data_type (ftype f) \<and> ftype f \<noteq> 0xB7) \<and>
    (has_target e To_file_transfer \<longrightarrow>
       is_file_data_type (ftype f) \<and> is_file_owner (router_ownership r) h \<or>
       ftype f = 0xB0 \<and> (starts_with (octets ''upload'') (fpayload f) \<or>
                           starts_with (octets ''download'') (fpayload f))) \<and>
    (is_file_data_type (ftype f) \<and> \<not> is_file_owner (router_ownership r) h \<longrightarrow>
       (\<forall>t. has_target e t \<longleftrightarrow> t = To_consume))"
proof -
  define e where "e = apply_controller_admission n cap (from_host r h f)"
  note codes = routed_codes [of n cap r h f, folded e_def]
  have "targets e \<in> {1, 4, 8, 12, 16, 32}"
    using codes by (auto split: if_splits)
  then have "\<exists>t. has_target e t"
    by (auto simp: has_target_def intro: exI [of _ To_consume] exI [of _ To_controller]
        exI [of _ To_local_command] exI [of _ To_file_transfer] exI [of _ To_play_status])
  moreover have "\<not> controller_transfer_active r \<and> 0 < n \<and> n \<le> 544 \<and> cap \<and>
      \<not> is_file_data_type (ftype f) \<and> ftype f \<noteq> 0xB7" if "has_target e To_controller"
    using codes that by (auto simp: has_target_def split: if_splits)
  moreover have "is_file_data_type (ftype f) \<and> is_file_owner (router_ownership r) h \<or>
      ftype f = 0xB0 \<and> (starts_with (octets ''upload'') (fpayload f) \<or>
        starts_with (octets ''download'') (fpayload f))" if "has_target e To_file_transfer"
    using codes that by (auto simp: has_target_def split: if_splits)
  moreover have "\<forall>t. has_target e t \<longleftrightarrow> t = To_consume"
    if "is_file_data_type (ftype f) \<and> \<not> is_file_owner (router_ownership r) h"
  proof
    have "targets e = 1"
      using codes that by (auto simp: is_file_data_type_def split: if_splits)
    then show "has_target e t \<longleftrightarrow> t = To_consume" for t
      by (cases t) (simp_all add: has_target_def)
  qed
  ultimately show ?thesis
    unfolding Let_def e_def [symmetric] by blast
qed

theorem routing_policy_witness:
  "let r = \<lparr>router_ownership = new_ownership, controller_transfer_active = True\<rparr>;
       h = \<lparr>host_transport = Tcp, host_slot = 0, host_generation = 1\<rparr>
   in \<not> has_target (apply_controller_admission 20 True (from_host r h \<lparr>ftype = 0xA2, fpayload = octets ''G28''\<rparr>))
        To_controller"
  using routing_policy [of 20 True "\<lparr>router_ownership = new_ownership, controller_transfer_active = True\<rparr>"
    "\<lparr>host_transport = Tcp, host_slot = 0, host_generation = 1\<rparr>" "\<lparr>ftype = 0xA2, fpayload = octets ''G28''\<rparr>"]
  by (auto simp: Let_def)

theorem ownership_exclusive_witness:
  "let a = \<lparr>host_transport = Tcp, host_slot = 0, host_generation = 1\<rparr>;
       b = \<lparr>host_transport = Usb, host_slot = 0, host_generation = 0\<rparr>
   in snd (claim_file (fst (claim_file new_ownership a)) b) = False"
proof -
  let ?a = "\<lparr>host_transport = Tcp, host_slot = 0, host_generation = 1\<rparr>"
  let ?b = "\<lparr>host_transport = Usb, host_slot = 0, host_generation = 0\<rparr>"
  let ?o = "fst (claim_file new_ownership ?a)"
  have own: "is_file_owner ?o ?a"
    by (simp add: claim_file_def new_ownership_def is_file_owner_def)
  obtain o1 ok o2 ok' where c: "claim_file ?o ?b = (o1, ok)" "claim_play ?o ?b = (o2, ok')"
    by (meson surj_pair)
  have "ok \<longleftrightarrow> (\<forall>c. is_file_owner ?o c \<longrightarrow> same_client c ?b)"
    using ownership_exclusive [OF c] by blast
  moreover have "\<not> same_client ?a ?b"
    by (simp add: same_client_def)
  ultimately show ?thesis
    using own c(1) by (auto simp: Let_def)
qed

end
