(* ===== verification/Bounded_Fifo.thy ===== *)
theory Bounded_Fifo
  imports Firmware_Prelude
begin

text \<open>
  The interface of a bounded first-in first-out queue. Several parts of the firmware hold one (the
  output of a TCP connection, the local commands, the USB output); each refuses what is not
  admissible or exceeds its capacity. The lemmas are about histories of calls: accepted items leave
  in their order of arrival, none is lost or duplicated, and the capacity is never exceeded.
\<close>

datatype 'a fifo_op = Put 'a | Take

text \<open>A history of calls: the final queue, the accepted items and the delivered ones.\<close>

fun fifo_run :: "('a \<Rightarrow> 'q \<Rightarrow> 'q \<times> bool) \<Rightarrow> ('q \<Rightarrow> 'q \<times> 'a option) \<Rightarrow> 'a fifo_op list \<Rightarrow> 'q \<Rightarrow>
    'q \<times> 'a list \<times> 'a list" where
  "fifo_run put get [] q = (q, [], [])"
| "fifo_run put get (Put x # ops) q =
     (let (q', ok) = put x q; (r, accepted, delivered) = fifo_run put get ops q'
      in (r, if ok then x # accepted else accepted, delivered))"
| "fifo_run put get (Take # ops) q =
     (let (q', x) = get q; (r, accepted, delivered) = fifo_run put get ops q'
      in (r, accepted, case x of None \<Rightarrow> delivered | Some y \<Rightarrow> y # delivered))"

locale bounded_fifo =
  fixes put :: "'a \<Rightarrow> 'q \<Rightarrow> 'q \<times> bool"
    and get :: "'q \<Rightarrow> 'q \<times> 'a option"
    and items :: "'q \<Rightarrow> 'a list"
    and admissible :: "'a \<Rightarrow> bool"
    and capacity :: nat
  assumes put_accepted: "snd (put x q) \<longleftrightarrow> admissible x \<and> length (items q) < capacity"
    and put_items: "items (fst (put x q)) = (if snd (put x q) then items q @ [x] else items q)"
    and get_front: "snd (get q) = (case items q of [] \<Rightarrow> None | x # xs \<Rightarrow> Some x)"
    and get_items: "items (fst (get q)) = tl (items q)"
begin

lemma run_conserves:
  "fifo_run put get ops q = (r, accepted, delivered) \<Longrightarrow> items q @ accepted = delivered @ items r"
proof (induction ops arbitrary: q r accepted delivered)
  case Nil
  then show ?case by simp
next
  case (Cons op ops)
  show ?case
  proof (cases op)
    case (Put x)
    obtain q' ok where p: "put x q = (q', ok)" by (cases "put x q")
    obtain r' a d where run: "fifo_run put get ops q' = (r', a, d)" by (metis prod_cases3)
    show ?thesis
      using Cons.prems Cons.IH [OF run] put_items [of x q] p run
      by (auto simp: Put split: if_splits)
  next
    case Take
    obtain q' x where g: "get q = (q', x)" by (cases "get q")
    obtain r' a d where run: "fifo_run put get ops q' = (r', a, d)" by (metis prod_cases3)
    show ?thesis
      using Cons.prems Cons.IH [OF run] get_front [of q] get_items [of q] g run
      by (auto simp: Take split: list.splits option.splits)
  qed
qed

lemma run_bound:
  "fifo_run put get ops q = (r, accepted, delivered) \<Longrightarrow> length (items q) \<le> capacity \<Longrightarrow>
     length (items r) \<le> capacity \<and> (\<forall>x \<in> set accepted. admissible x)"
proof (induction ops arbitrary: q r accepted delivered)
  case Nil
  then show ?case by auto
next
  case (Cons op ops)
  show ?case
  proof (cases op)
    case (Put x)
    obtain q' ok where p: "put x q = (q', ok)" by (cases "put x q")
    obtain r' a d where run: "fifo_run put get ops q' = (r', a, d)" by (metis prod_cases3)
    have "length (items q') \<le> capacity"
      using put_items [of x q] put_accepted [of x q] p Cons.prems(2) by (auto split: if_splits)
    then show ?thesis
      using Cons.prems Cons.IH [OF run] put_accepted [of x q] p run
      by (auto simp: Put split: if_splits)
  next
    case Take
    obtain q' x where g: "get q = (q', x)" by (cases "get q")
    obtain r' a d where run: "fifo_run put get ops q' = (r', a, d)" by (metis prod_cases3)
    show ?thesis
      using Cons.prems Cons.IH [OF run] get_items [of q] g run
      by (auto simp: Take split: option.splits)
  qed
qed

text \<open>Enough room for every item means that none is refused.\<close>

lemma put_all_accepted:
  "\<forall>x \<in> set xs. admissible x \<Longrightarrow> length (items q) + length xs \<le> capacity \<Longrightarrow>
     fifo_run put get (map Put xs) q = (r, accepted, delivered) \<Longrightarrow>
     accepted = xs \<and> delivered = [] \<and> items r = items q @ xs"
proof (induction xs arbitrary: q r accepted delivered)
  case Nil
  then show ?case by simp
next
  case (Cons x xs)
  obtain q' ok where p: "put x q = (q', ok)" by (cases "put x q")
  obtain r' a d where run: "fifo_run put get (map Put xs) q' = (r', a, d)" by (metis prod_cases3)
  have ok: "ok" "items q' = items q @ [x]"
    using put_items [of x q] put_accepted [of x q] p Cons.prems by auto
  then show ?case
    using Cons.prems Cons.IH [OF _ _ run] p run by simp
qed

end

end
