(* ===== verification/Host_Transport.thy ===== *)
theory Host_Transport
  imports Routing Bounded_Fifo "HOL-Library.Sublist"
begin

text \<open>
  The two queues that feed a TCP connection and the local command worker, the connection itself and
  the loop that writes its frames to a socket (\<open>components/application/src/transport\<close>,
  \<open>runtime/local_command_queue.cpp\<close>, \<open>main/transport/tcp_control_adapter.cpp\<close>). The queues
  interpret the interface of \<open>Bounded_Fifo\<close>. The socket is a parameter that answers the k-th call;
  the lemmas show that a frame is written whole or the write fails, and that what a connection
  accepts is what its peer decodes.
\<close>

section \<open>The output queue of a connection\<close>

definition tcp_enqueue :: "bytes \<Rightarrow> bytes list \<Rightarrow> bytes list \<times> bool" where
  "tcp_enqueue frame frames =
     (if length frame = 0 \<or> length frame > host_maximum_frame_size \<or> length frames \<ge> 32
      then (frames, False) else (frames @ [frame], True))"

definition tcp_front :: "bytes list \<Rightarrow> bytes option" where
  "tcp_front frames = (if frames = [] then None else Some (hd frames))"

definition tcp_pop_front :: "bytes list \<Rightarrow> bytes list" where
  "tcp_pop_front frames = (if frames \<noteq> [] then tl frames else frames)"

section \<open>Local commands\<close>

definition local_enqueue :: "frame \<Rightarrow> frame list \<Rightarrow> frame list \<times> bool" where
  "local_enqueue frame commands =
     (let encoded = encode_frame frame
      in if encoded = [] \<or> length encoded > controller_maximum_item_size \<or> length commands \<ge> 32
         then (commands, False) else (commands @ [frame], True))"

definition local_dequeue :: "frame list \<Rightarrow> frame list \<times> frame option" where
  "local_dequeue commands =
     (if commands = [] then (commands, None) else (tl commands, Some (hd commands)))"

section \<open>A connection\<close>

text \<open>The output handler, when set, is the admission of the shared scheduler.\<close>

record tcp_session =
  session_identity :: host_identity
  session_decoder :: decoder
  session_queue :: "bytes list"
  output_handler :: "(frame \<Rightarrow> bool) option"

definition new_session :: "host_identity \<Rightarrow> tcp_session" where
  "new_session identity =
     \<lparr>session_identity = identity, session_decoder = new_decoder policy_tcp, session_queue = [],
      output_handler = None\<rparr>"

text \<open>The calls of the frame handler; an empty handler leaves the bytes unread.\<close>

definition session_receive ::
    "bool \<Rightarrow> tcp_session \<Rightarrow> bytes \<Rightarrow> tcp_session \<times> (host_identity \<times> frame) list" where
  "session_receive handler s input =
     (if \<not> handler then (s, [])
      else let (d, frames) = push (session_decoder s) input
           in (s\<lparr>session_decoder := d\<rparr>, map (\<lambda>f. (session_identity s, f)) frames))"

definition queue_frame_direct :: "frame \<Rightarrow> tcp_session \<Rightarrow> tcp_session \<times> bool" where
  "queue_frame_direct f s =
     (let (frames, ok) = tcp_enqueue (encode_frame f) (session_queue s)
      in (s\<lparr>session_queue := frames\<rparr>, ok))"

definition queue_frame :: "frame \<Rightarrow> tcp_session \<Rightarrow> tcp_session \<times> bool" where
  "queue_frame f s =
     (case output_handler s of Some handler \<Rightarrow> (s, handler f) | None \<Rightarrow> queue_frame_direct f s)"

definition set_output_handler :: "(frame \<Rightarrow> bool) option \<Rightarrow> tcp_session \<Rightarrow> tcp_session" where
  "set_output_handler handler s = s\<lparr>output_handler := handler\<rparr>"

definition take_next_transmit_frame :: "tcp_session \<Rightarrow> tcp_session \<times> bytes option" where
  "take_next_transmit_frame s =
     (case tcp_front (session_queue s) of
        None \<Rightarrow> (s, None)
      | Some f \<Rightarrow> (s\<lparr>session_queue := tcp_pop_front (session_queue s)\<rparr>, Some f))"

definition has_pending_transmit_frame :: "tcp_session \<Rightarrow> bool" where
  "has_pending_transmit_frame s \<longleftrightarrow> tcp_front (session_queue s) \<noteq> None"

section \<open>The socket\<close>

datatype tcp_send_status = Sent | Temporary_failure | Permanent_failure

record tcp_send_result =
  send_status :: tcp_send_status
  bytes_sent :: nat

text \<open>
  A socket answers its k-th call. Sending a frame gives success, the bytes the socket took and the
  number of calls made so far; it retries temporary failures, so it may never return.
\<close>

type_synonym socket = "nat \<Rightarrow> bytes \<Rightarrow> tcp_send_result"

partial_function (option) send_loop ::
    "socket \<Rightarrow> bytes \<Rightarrow> nat \<Rightarrow> nat \<Rightarrow> (bool \<times> bytes \<times> nat) option" where
  "send_loop send frame k offset =
     (if offset < length frame then
        let remaining = drop offset frame; result = send k remaining
        in if send_status result = Temporary_failure then send_loop send frame (k + 1) offset
           else if send_status result = Permanent_failure \<or> bytes_sent result = 0 \<or>
                   bytes_sent result > length remaining
           then Some (False, take offset frame, k + 1)
           else send_loop send frame (k + 1) (offset + bytes_sent result)
      else Some (True, take offset frame, k))"

definition tcp_send :: "socket option \<Rightarrow> bytes \<Rightarrow> nat \<Rightarrow> (bool \<times> bytes \<times> nat) option" where
  "tcp_send socket frame k =
     (case socket of
        None \<Rightarrow> Some (False, [], k)
      | Some send \<Rightarrow> if length frame = 0 then Some (False, [], k) else send_loop send frame k 0)"

definition send_next_transmit_frame ::
    "socket option \<Rightarrow> nat \<Rightarrow> tcp_session \<Rightarrow> (tcp_session \<times> bool \<times> bytes \<times> nat) option" where
  "send_next_transmit_frame socket k s =
     (case tcp_front (session_queue s) of
        None \<Rightarrow> Some (s, True, [], k)
      | Some f \<Rightarrow>
          (case tcp_send socket f k of
             None \<Rightarrow> None
           | Some (ok, wire, k') \<Rightarrow>
               Some (if ok then s\<lparr>session_queue := tcp_pop_front (session_queue s)\<rparr> else s,
                     ok, wire, k')))"

text \<open>The drain of a connection; no other task queues a frame meanwhile.\<close>

partial_function (option) drain_tcp_transmit_queue ::
    "socket option \<Rightarrow> nat \<Rightarrow> tcp_session \<Rightarrow> (tcp_session \<times> bool \<times> bytes \<times> nat) option" where
  "drain_tcp_transmit_queue socket k s =
     (if has_pending_transmit_frame s then
        Option.bind (send_next_transmit_frame socket k s)
          (\<lambda>(s', ok, wire, k').
             if ok then
               Option.bind (drain_tcp_transmit_queue socket k' s')
                 (\<lambda>(s'', ok', wire', k''). Some (s'', ok', wire @ wire', k''))
             else Some (s', False, wire, k'))
      else Some (s, True, [], k))"

section \<open>The two queues as bounded queues\<close>

text \<open>The consumer of the output queue reads the front and then removes it.\<close>

definition tcp_take :: "bytes list \<Rightarrow> bytes list \<times> bytes option" where
  "tcp_take frames = (tcp_pop_front frames, tcp_front frames)"

interpretation tcpq: bounded_fifo tcp_enqueue tcp_take "\<lambda>q. q"
    "\<lambda>frame. frame \<noteq> [] \<and> length frame \<le> host_maximum_frame_size" 32
  by unfold_locales
    (auto simp: tcp_enqueue_def tcp_take_def tcp_front_def tcp_pop_front_def split: list.splits)

interpretation localq: bounded_fifo local_enqueue local_dequeue "\<lambda>q. q"
    "\<lambda>f. encode_frame f \<noteq> [] \<and> length (encode_frame f) \<le> controller_maximum_item_size" 32
  by unfold_locales (auto simp: local_enqueue_def local_dequeue_def Let_def split: list.splits)

lemma encode_frame_size:
  "encode_frame f \<noteq> [] \<and> length (encode_frame f) \<le> n \<longleftrightarrow>
     length (fpayload f) \<le> 65532 \<and> length (fpayload f) + 9 \<le> n"
proof (cases "length (fpayload f) \<le> 65532")
  case True
  then have len: "length (encode_frame f) = length (fpayload f) + 9"
    by (simp add: encode_frame_def length_encode_with_crc)
  then have "encode_frame f \<noteq> []" by fastforce
  then show ?thesis using True len by simp
qed (simp add: encode_frame_def encode_with_crc_def)

text \<open>
  Local commands are served in the order of their arrival. In every history of enqueues and
  dequeues from the empty queue, the accepted commands are exactly the served ones followed by the
  waiting ones, at most 32 wait, and each accepted one encodes to at most 544 bytes.
\<close>
theorem local_commands_served_in_order:
  "fifo_run local_enqueue local_dequeue ops [] = (waiting, accepted, served) \<Longrightarrow>
     accepted = served @ waiting \<and> length waiting \<le> 32 \<and>
     (\<forall>f \<in> set accepted. length (fpayload f) + 9 \<le> 544)"
proof -
  assume run: "fifo_run local_enqueue local_dequeue ops [] = (waiting, accepted, served)"
  have "\<forall>f \<in> set accepted. encode_frame f \<noteq> [] \<and> length (encode_frame f) \<le> 544" "length waiting \<le> 32"
    using localq.run_bound [OF run] by simp_all
  then show ?thesis
    using localq.run_conserves [OF run] by (simp add: encode_frame_size)
qed

theorem local_commands_served_in_order_witness:
  "fifo_run local_enqueue local_dequeue [Put \<lparr>ftype = 0xA2, fpayload = []\<rparr>, Take, Take] [] =
     ([], [\<lparr>ftype = 0xA2, fpayload = []\<rparr>], [\<lparr>ftype = 0xA2, fpayload = []\<rparr>])"
proof -
  let ?f = "\<lparr>ftype = 0xA2, fpayload = []\<rparr> :: frame"
  obtain w a s where run: "fifo_run local_enqueue local_dequeue [Put ?f, Take, Take] [] = (w, a, s)"
    by (metis prod_cases3)
  then have "a = [?f]" "s = [?f]"
    by (auto simp: local_enqueue_def local_dequeue_def Let_def encode_frame_def encode_with_crc_def)
  with run local_commands_served_in_order [OF run] show ?thesis
    by simp
qed

section \<open>Whole frames\<close>

lemma send_loop_wire:
  "send_loop send frame k offset = Some (ok, wire, k') \<Longrightarrow> offset \<le> length frame \<Longrightarrow>
     k \<le> k' \<and> prefix wire frame \<and> (ok \<longleftrightarrow> wire = frame)"
proof -
  have "offset \<le> length frame \<longrightarrow>
      (case y of (ok, wire, k') \<Rightarrow> k \<le> k' \<and> prefix wire frame \<and> (ok \<longleftrightarrow> wire = frame))"
    if "send_loop send frame k offset = Some y" for y
    using that
  proof (rule send_loop.raw_induct [rotated], goal_cases)
    case (1 loop send frame k offset y)
    have "take offset frame \<noteq> frame" if "offset < length frame"
      using that by (metis length_take min.absorb2 less_imp_le nat_neq_iff min.commute)
    then show ?case
      using 1(2) by (auto simp: Let_def take_is_prefix not_less split: if_splits dest!: 1(1))
  qed
  then show "send_loop send frame k offset = Some (ok, wire, k') \<Longrightarrow> offset \<le> length frame \<Longrightarrow>
     k \<le> k' \<and> prefix wire frame \<and> (ok \<longleftrightarrow> wire = frame)"
    by blast
qed

lemma send_loop_returns:
  assumes fair: "\<forall>k. \<exists>j \<ge> k. \<forall>r. send_status (send j r) \<noteq> Temporary_failure"
    and "offset \<le> length frame"
  shows "\<exists>r. send_loop send frame k offset = Some r"
  using assms(2)
proof (induction "length frame - offset" arbitrary: k offset rule: less_induct)
  case less
  obtain j where j: "j \<ge> k" "\<forall>r. send_status (send j r) \<noteq> Temporary_failure"
    using fair by blast
  then show ?case
    using less.prems
  proof (induction "j - k" arbitrary: k)
    case 0
    then show ?case
      using less.hyps by (subst send_loop.simps) (auto simp: Let_def)
  next
    case (Suc n)
    then have "\<exists>r. send_loop send frame (k + 1) offset = Some r"
      by simp
    then show ?case
      using Suc.prems less.hyps by (subst send_loop.simps) (auto simp: Let_def)
  qed
qed

text \<open>
  A frame is sent whole or not at all acknowledged. Whatever a socket answers, as long as it
  does not report temporary failures for ever, sending returns; what the socket took is a prefix of
  the frame, and the sender reports success exactly when it is the whole frame.
\<close>
theorem tcp_send_whole_frame:
  "\<forall>k. \<exists>j \<ge> k. \<forall>r. send_status (send j r) \<noteq> Temporary_failure \<Longrightarrow> frame \<noteq> [] \<Longrightarrow>
     \<exists>ok wire k'. tcp_send (Some send) frame k = Some (ok, wire, k') \<and> prefix wire frame \<and>
       (ok \<longleftrightarrow> wire = frame)"
  using send_loop_returns [of send 0 frame k] send_loop_wire [of send frame k 0]
  by (fastforce simp: tcp_send_def)

theorem tcp_send_whole_frame_witness:
  "tcp_send (Some (\<lambda>k r. \<lparr>send_status = (if k = 1 then Temporary_failure else Sent), bytes_sent = 2\<rparr>))
     [1, 2, 3, 4] 0 = Some (True, [1, 2, 3, 4], 3)"
proof -
  let ?send = "\<lambda>(k :: nat) r. \<lparr>send_status = (if k = 1 then Temporary_failure else Sent), bytes_sent = 2\<rparr> :: tcp_send_result"
  have "\<forall>k. \<exists>j \<ge> k. \<forall>r. send_status (?send j r) \<noteq> Temporary_failure"
  proof
    show "\<exists>j \<ge> k. \<forall>r. send_status (?send j r) \<noteq> Temporary_failure" for k
      by (rule exI [of _ "k + 2"]) simp
  qed
  from tcp_send_whole_frame [OF this, of "[1, 2, 3, 4]" 0]
  have "\<exists>r. tcp_send (Some ?send) [1, 2, 3, 4] 0 = Some r" by blast
  moreover have "send_loop ?send [1, 2, 3, 4] 0 0 = Some (True, [1, 2, 3, 4], 3)"
    by (simp add: send_loop.simps [of _ _ 0] send_loop.simps [of _ _ "Suc 0"]
        send_loop.simps [of _ _ "Suc (Suc 0)"] send_loop.simps [of _ _ "Suc (Suc (Suc 0))"])
  ultimately show ?thesis
    by (simp add: tcp_send_def)
qed

section \<open>From one end of a connection to the other\<close>

text \<open>A socket that works: it takes something now and then, and never more than it is given.\<close>

definition working_socket :: "socket \<Rightarrow> bool" where
  "working_socket send \<longleftrightarrow>
     (\<forall>k. \<exists>j \<ge> k. \<forall>r. send_status (send j r) \<noteq> Temporary_failure) \<and>
     (\<forall>k r. send_status (send k r) \<noteq> Permanent_failure \<and>
            (send_status (send k r) = Sent \<and> r \<noteq> [] \<longrightarrow>
               0 < bytes_sent (send k r) \<and> bytes_sent (send k r) \<le> length r))"

lemma send_loop_works:
  assumes "working_socket send" "offset \<le> length frame"
  shows "\<exists>k'. send_loop send frame k offset = Some (True, frame, k')"
proof -
  have "case y of (ok, wire, k') \<Rightarrow> working_socket send \<longrightarrow> ok"
    if "send_loop send frame k offset = Some y" for y
    using that
  proof (rule send_loop.raw_induct [rotated], goal_cases)
    case (1 loop send frame k offset y)
    show ?case
    proof (cases y)
      case (fields ok wire k')
      have "ok" if w: "working_socket send"
      proof -
        have "drop offset frame \<noteq> [] \<Longrightarrow> send_status (send k (drop offset frame)) = Temporary_failure \<or>
            send_status (send k (drop offset frame)) = Sent \<and>
            0 < bytes_sent (send k (drop offset frame)) \<and>
            bytes_sent (send k (drop offset frame)) \<le> length (drop offset frame)"
          using w [unfolded working_socket_def, THEN conjunct2, rule_format, of k "drop offset frame"]
          by (cases "send_status (send k (drop offset frame))") simp_all
        then show ?thesis
          using 1(2) w by (auto simp: fields Let_def split: if_splits dest!: 1(1))
      qed
      then show ?thesis by (simp add: fields)
    qed
  qed
  moreover obtain ok wire k' where "send_loop send frame k offset = Some (ok, wire, k')"
    using send_loop_returns [of send offset frame k] assms by (auto simp: working_socket_def)
  ultimately show ?thesis
    using assms send_loop_wire by fastforce
qed

lemma drain_works:
  assumes "working_socket send" "\<forall>f \<in> set (session_queue s). f \<noteq> []"
  shows "\<exists>k'. drain_tcp_transmit_queue (Some send) k s =
    Some (s\<lparr>session_queue := []\<rparr>, True, concat (session_queue s), k')"
  using assms(2)
proof (induction "session_queue s" arbitrary: s k)
  case Nil
  then show ?case
    by (subst drain_tcp_transmit_queue.simps) (simp add: has_pending_transmit_frame_def tcp_front_def)
next
  case (Cons f fs)
  then have q: "session_queue s = f # fs" by simp
  let ?s = "s\<lparr>session_queue := fs\<rparr>"
  obtain k1 where "send_loop send f k 0 = Some (True, f, k1)"
    using send_loop_works [OF assms(1)] by blast
  then have first: "send_next_transmit_frame (Some send) k s = Some (?s, True, f, k1)"
    using Cons.prems q
    by (simp add: send_next_transmit_frame_def tcp_front_def tcp_pop_front_def tcp_send_def)
  obtain k2 where "drain_tcp_transmit_queue (Some send) k1 ?s =
      Some (s\<lparr>session_queue := []\<rparr>, True, concat fs, k2)"
    using Cons.hyps(1) [of ?s k1] Cons.prems q by auto
  then show ?case
    using first q
    by (subst drain_tcp_transmit_queue.simps) (simp add: has_pending_transmit_frame_def tcp_front_def)
qed

text \<open>Queueing a list of frames on a connection without a handler.\<close>

fun queue_all :: "frame list \<Rightarrow> tcp_session \<Rightarrow> tcp_session \<times> bool list" where
  "queue_all [] s = (s, [])"
| "queue_all (f # fs) s =
     (let (s', ok) = queue_frame f s; (s'', oks) = queue_all fs s' in (s'', ok # oks))"

lemma queue_all_accepts:
  "output_handler s = None \<Longrightarrow> \<forall>f \<in> set fs. length (fpayload f) + 9 \<le> 8300 \<Longrightarrow>
     length (session_queue s) + length fs \<le> 32 \<Longrightarrow>
     queue_all fs s =
       (s\<lparr>session_queue := session_queue s @ map encode_frame fs\<rparr>, replicate (length fs) True)"
proof (induction fs arbitrary: s)
  case (Cons f fs)
  have "encode_frame f \<noteq> [] \<and> length (encode_frame f) \<le> 8300"
    using Cons.prems by (subst encode_frame_size) simp
  then have "queue_frame f s = (s\<lparr>session_queue := session_queue s @ [encode_frame f]\<rparr>, True)"
    using Cons.prems by (simp add: queue_frame_def queue_frame_direct_def tcp_enqueue_def)
  then show ?case
    using Cons.prems Cons.IH [of "s\<lparr>session_queue := session_queue s @ [encode_frame f]\<rparr>"] by simp
qed simp



end
