(* ===== verification/Host_Output.thy ===== *)
theory Host_Output
  imports Host_Transport
begin

text \<open>
  The scheduler of host output, \<open>components/application/src/transport/host_output_scheduler.cpp\<close>:
  one pair of bounded queues for every producer. Each operation is one critical section of the
  mutex; the listing admission, which waits for capacity in between, takes the state it entered with
  and the state it resumes in. Whether memory can be allocated is an argument.
\<close>

section \<open>The scheduler\<close>

type_synonym output_destination = "host_identity option"

definition addressed :: "host_identity \<Rightarrow> output_destination" where
  "addressed identity = Some identity"

definition broadcast :: output_destination where
  "broadcast = None"

datatype output_source =
  Ordinary | Motion_board_unchanged | Inactivity_alarm | Rate_limited_console_error

datatype output_admission = Accepted | Capacity_drop | Purged_at_capacity | Allocation_failure

record pending_output =
  output_frame :: frame
  output_destination :: output_destination

record output_selection =
  selected_download :: "pending_output option"
  selected_others :: "pending_output list"
  delay_before_next :: bool

record output_scheduler =
  download_data :: "pending_output list"
  non_download :: "pending_output list"
  usb_active :: bool
  tcp_active :: bool

definition new_scheduler :: output_scheduler where
  "new_scheduler = \<lparr>download_data = [], non_download = [], usb_active = False, tcp_active = False\<rparr>"

definition is_download_data :: "frame \<Rightarrow> bool" where
  "is_download_data f \<longleftrightarrow> ftype f = 0xB3 \<and> length (fpayload f) > 4"

definition purges_on_full :: "output_source \<Rightarrow> bool" where
  "purges_on_full source \<longleftrightarrow>
     source = Motion_board_unchanged \<or> source = Inactivity_alarm \<or> source = Rate_limited_console_error"

definition pending :: "frame \<Rightarrow> output_destination \<Rightarrow> pending_output" where
  "pending f destination = \<lparr>output_frame = f, output_destination = destination\<rparr>"

definition admit :: "frame \<Rightarrow> output_destination \<Rightarrow> output_source \<Rightarrow> bool \<Rightarrow> output_scheduler \<Rightarrow>
    output_scheduler \<times> output_admission" where
  "admit f destination source memory s =
     (if \<not> is_download_data f \<and> \<not> usb_active s \<and> \<not> tcp_active s then (s, Capacity_drop)
      else let queue = (if is_download_data f then download_data s else non_download s)
           in if length queue \<ge> 32 then
                if \<not> is_download_data f \<and> purges_on_full source
                then (s\<lparr>non_download := []\<rparr>, Purged_at_capacity) else (s, Capacity_drop)
              else if \<not> memory then (s, Allocation_failure)
              else (if is_download_data f then s\<lparr>download_data := queue @ [pending f destination]\<rparr>
                    else s\<lparr>non_download := queue @ [pending f destination]\<rparr>, Accepted))"

definition admit_listing :: "frame \<Rightarrow> output_destination \<Rightarrow> bool \<Rightarrow> output_scheduler \<Rightarrow>
    output_scheduler \<Rightarrow> output_scheduler \<times> output_admission" where
  "admit_listing f destination memory entered s =
     (if \<not> usb_active entered \<and> \<not> tcp_active entered then (s, Capacity_drop)
      else if \<not> length (non_download s) < 32 then (s, Capacity_drop)
      else if \<not> memory then (s, Allocation_failure)
      else (s\<lparr>non_download := non_download s @ [pending f destination]\<rparr>, Accepted))"

definition set_active_destinations :: "bool \<Rightarrow> bool \<Rightarrow> output_scheduler \<Rightarrow> output_scheduler" where
  "set_active_destinations usb tcp s =
     (let s = s\<lparr>usb_active := usb, tcp_active := tcp\<rparr>
      in if \<not> usb_active s \<and> \<not> tcp_active s then s\<lparr>non_download := []\<rparr> else s)"

definition select_output :: "output_scheduler \<Rightarrow> output_scheduler \<times> output_selection" where
  "select_output s =
     (let download = (if download_data s \<noteq> [] then Some (hd (download_data s)) else None);
          selected = min 32 (length (non_download s));
          others = take selected (non_download s)
      in (s\<lparr>download_data := (if download_data s \<noteq> [] then tl (download_data s) else download_data s),
            non_download := drop selected (non_download s)\<rparr>,
          \<lparr>selected_download = download, selected_others = others,
           delay_before_next = (download \<noteq> None \<or> others = [])\<rparr>))"

section \<open>Histories\<close>

datatype output_call =
    Admit frame output_destination output_source bool
  | Listing frame output_destination bool output_scheduler
  | Active bool bool
  | Select

text \<open>
  One call: the new state, what entered the two queues, and what it handed out of them.
\<close>

type_synonym traffic = "pending_output list \<times> pending_output list"

fun output_step :: "output_call \<Rightarrow> output_scheduler \<Rightarrow> output_scheduler \<times> traffic \<times> traffic" where
  "output_step (Admit f d source memory) s =
     (let (s', r) = admit f d source memory s; x = (if r = Accepted then [pending f d] else [])
      in (s', if is_download_data f then (x, []) else ([], x), [], []))"
| "output_step (Listing f d memory entered) s =
     (let (s', r) = admit_listing f d memory entered s
      in (s', ([], if r = Accepted then [pending f d] else []), [], []))"
| "output_step (Active usb tcp) s = (set_active_destinations usb tcp s, ([], []), [], [])"
| "output_step Select s =
     (let (s', r) = select_output s
      in (s', ([], []), case selected_download r of None \<Rightarrow> [] | Some x \<Rightarrow> [x], selected_others r))"

fun output_run :: "output_call list \<Rightarrow> output_scheduler \<Rightarrow> output_scheduler \<times> traffic \<times> traffic" where
  "output_run [] s = (s, ([], []), [], [])"
| "output_run (c # cs) s =
     (let (s1, (a1, b1), d1, o1) = output_step c s; (s2, (a2, b2), d2, o2) = output_run cs s1
      in (s2, (a1 @ a2, b1 @ b2), d1 @ d2, o1 @ o2))"

definition scheduler_inv :: "output_scheduler \<Rightarrow> bool" where
  "scheduler_inv s \<longleftrightarrow> length (download_data s) \<le> 32 \<and> length (non_download s) \<le> 32"

text \<open>The calls that may discard frames which were accepted before.\<close>

fun discards :: "output_call \<Rightarrow> bool" where
  "discards (Admit f d source memory) = purges_on_full source"
| "discards (Listing f d memory entered) = False"
| "discards (Active usb tcp) = (\<not> usb \<and> \<not> tcp)"
| "discards Select = False"

lemma output_step_conserves:
  assumes "output_step c s = (s', (din, oin), dout, oout)" "scheduler_inv s"
  shows "scheduler_inv s'" "download_data s @ din = dout @ download_data s'"
    "subseq (oout @ non_download s') (non_download s @ oin)"
    "\<not> discards c \<Longrightarrow> non_download s @ oin = oout @ non_download s'"
  using assms
  by (cases c; auto simp: scheduler_inv_def admit_def admit_listing_def set_active_destinations_def
      select_output_def Let_def split: if_splits)+

lemma traffic_cases:
  obtains s a b d e where "(x :: 's \<times> ('a \<times> 'b) \<times> 'c \<times> 'd) = (s, (a, b), d, e)"
  by (cases x) auto

lemma output_run_conserves:
  "output_run cs s = (s', (din, oin), dout, oout) \<Longrightarrow> scheduler_inv s \<Longrightarrow>
     scheduler_inv s' \<and> download_data s @ din = dout @ download_data s' \<and>
     subseq (oout @ non_download s') (non_download s @ oin) \<and>
     ((\<forall>c \<in> set cs. \<not> discards c) \<longrightarrow> non_download s @ oin = oout @ non_download s')"
proof (induction cs arbitrary: s s' din oin dout oout)
  case Nil
  then show ?case by simp
next
  case (Cons c cs)
  obtain s1 a1 b1 d1 o1 where step: "output_step c s = (s1, (a1, b1), d1, o1)"
    by (rule traffic_cases)
  obtain a2 b2 d2 o2 where run: "output_run cs s1 = (s', (a2, b2), d2, o2)"
    and parts: "din = a1 @ a2" "oin = b1 @ b2" "dout = d1 @ d2" "oout = o1 @ o2"
    using Cons.prems(1) step by (auto split: prod.splits)
  note first = output_step_conserves [OF step Cons.prems(2)]
  note rest = Cons.IH [OF run first(1)]
  have "subseq (o1 @ o2 @ non_download s') (o1 @ non_download s1 @ b2)"
    using list_emb_append_mono [OF subseq_order.refl, of "o2 @ non_download s'" "non_download s1 @ b2" o1]
      rest by simp
  moreover have "subseq (o1 @ non_download s1 @ b2) (non_download s @ b1 @ b2)"
    using list_emb_append_mono [OF first(3), of b2 b2] by simp
  ultimately have "subseq (o1 @ o2 @ non_download s') (non_download s @ b1 @ b2)"
    by (rule subseq_order.trans)
  moreover have "download_data s @ a1 @ a2 = d1 @ d2 @ download_data s'"
    using first(2) rest by (metis append_assoc)
  moreover have "non_download s @ b1 @ b2 = o1 @ o2 @ non_download s'" if "\<forall>c \<in> set (c # cs). \<not> discards c"
    using first(4) rest that by (metis append_assoc list.set_intros)
  ultimately show ?case
    using rest parts by simp
qed



text \<open>
  A listing that waits for capacity while the last destination disappears is admitted afterwards:
  its wait is ended by the very call that empties the queue, and the destinations are not examined
  again.
\<close>

lemma listing_survives_last_destination:
  assumes "usb_active s \<or> tcp_active s"
  shows "let s' = set_active_destinations False False s in
    admit_listing f d True s s' = (s'\<lparr>non_download := [pending f d]\<rparr>, Accepted)"
  using assms by (auto simp: admit_listing_def set_active_destinations_def Let_def)

end
