(* ===== verification/Usb_Link.thy ===== *)
theory Usb_Link
  imports Frame "HOL-Library.Sublist"
begin

text \<open>
  The USB link of \<open>components/application/src/usb\<close>: the descriptors, the staging of received
  blocks, the transmit queue, its drain into the endpoint with the no-progress deadline, the
  protocol state that decides whether the host may be sent to, and the recovery schedule after a
  lost connection. Every method is one critical section or one atomic access; \<open>enqueue\<close>, which
  waits for room in between, is its admission check and its completion.

  The drain recognises the frame it has partly sent by the address of the queue's element. A queued
  frame is therefore an address and its bytes; addresses of queued frames are distinct, but a
  container that was emptied may hand out an old address again.
\<close>

section \<open>Descriptors\<close>

definition utf16_string :: "string \<Rightarrow> bytes" where
  "utf16_string text =
     [of_nat (2 + length text * 2), 0x03] @ concat (map (\<lambda>character. [octet character, 0]) text)"

definition usb_device_descriptor :: bytes where
  "usb_device_descriptor =
     [0x12, 0x01, 0x00, 0x02, 0x00, 0x00, 0x00, 0x40,
      0x3a, 0x30, 0x02, 0x40, 0x00, 0x01, 0x01, 0x02,
      0x03, 0x01]"

definition usb_configuration_descriptor :: bytes where
  "usb_configuration_descriptor =
     [0x09, 0x02, 0x20, 0x00, 0x01, 0x01, 0x00, 0x80,
      0xfa, 0x09, 0x04, 0x00, 0x00, 0x02, 0xff, 0x00,
      0x00, 0x00, 0x07, 0x05, 0x01, 0x02, 0x40, 0x00,
      0x00, 0x07, 0x05, 0x81, 0x02, 0x40, 0x00, 0x00]"

definition usb_string_descriptor :: "u8 \<Rightarrow> bytes" where
  "usb_string_descriptor index =
     (if index = 0 then [0x04, 0x03, 0x09, 0x04]
      else if index = 1 then utf16_string ''Espressif''
      else if index = 2 then utf16_string ''MakeraZ1 (USB)''
      else if index = 3 then utf16_string ''123456''
      else [])"

section \<open>Receive staging\<close>

abbreviation usb_staging_capacity :: nat where "usb_staging_capacity \<equiv> 32768"

definition usb_stage :: "bytes \<Rightarrow> bytes \<Rightarrow> bytes \<times> bool" where
  "usb_stage block staged =
     (if length block > usb_staging_capacity \<or> length staged > usb_staging_capacity - length block
      then ([], False)
      else (staged @ block, True))"

definition usb_take_staged :: "bytes \<Rightarrow> bytes \<times> bytes" where
  "usb_take_staged staged = ([], staged)"

section \<open>The transmit queue\<close>

abbreviation usb_maximum_items :: nat where "usb_maximum_items \<equiv> 30"

record usb_queue =
  uq_frames :: "(nat \<times> bytes) list"
  uq_failed :: bool

definition empty_usb_queue :: usb_queue where
  "empty_usb_queue = \<lparr>uq_frames = [], uq_failed = False\<rparr>"

definition usb_enqueue_admissible :: "bytes \<Rightarrow> usb_queue \<Rightarrow> bool" where
  "usb_enqueue_admissible frame q \<longleftrightarrow>
     \<not> (uq_failed q \<or> length frame = 0 \<or> length frame > host_maximum_frame_size)"

text \<open>
  The completion runs once the wait is over: either its condition holds, or the time has run out
  with the queue still full.
\<close>

definition usb_enqueue_complete :: "nat \<Rightarrow> bytes \<Rightarrow> usb_queue \<Rightarrow> usb_queue \<times> bool" where
  "usb_enqueue_complete address frame q =
     (if \<not> (uq_failed q \<or> length (uq_frames q) < usb_maximum_items)
      then (q\<lparr>uq_frames := [], uq_failed := True\<rparr>, False)
      else if uq_failed q then (q, False)
      else (q\<lparr>uq_frames := uq_frames q @ [(address, frame)]\<rparr>, True))"

definition usb_enqueue :: "nat \<Rightarrow> bytes \<Rightarrow> usb_queue \<Rightarrow> usb_queue \<times> bool" where
  "usb_enqueue address frame q =
     (if usb_enqueue_admissible frame q then usb_enqueue_complete address frame q else (q, False))"

definition usb_front :: "usb_queue \<Rightarrow> (nat \<times> bytes) option" where
  "usb_front q = (case uq_frames q of [] \<Rightarrow> None | front # _ \<Rightarrow> Some front)"

definition usb_pop_front :: "usb_queue \<Rightarrow> usb_queue" where
  "usb_pop_front q = (if uq_frames q \<noteq> [] then q\<lparr>uq_frames := tl (uq_frames q)\<rparr> else q)"

definition usb_queue_clear :: "usb_queue \<Rightarrow> usb_queue" where
  "usb_queue_clear q = q\<lparr>uq_frames := []\<rparr>"

definition usb_reset_failure :: "usb_queue \<Rightarrow> usb_queue" where
  "usb_reset_failure q = q\<lparr>uq_failed := False\<rparr>"

section \<open>Transmit progress\<close>

record usb_progress =
  up_active :: bool
  up_last :: u64

definition idle_progress :: usb_progress where
  "idle_progress = \<lparr>up_active = False, up_last = 0\<rparr>"

definition begin_progress :: "u64 \<Rightarrow> usb_progress \<Rightarrow> usb_progress" where
  "begin_progress now p = p\<lparr>up_active := True, up_last := now\<rparr>"

definition record_progress :: "u64 \<Rightarrow> usb_progress \<Rightarrow> usb_progress" where
  "record_progress now p = (if up_active p then p\<lparr>up_last := now\<rparr> else p)"

definition progress_expired :: "u64 \<Rightarrow> usb_progress \<Rightarrow> bool" where
  "progress_expired now p \<longleftrightarrow> up_active p \<and> now \<ge> up_last p \<and> now - up_last p > 500"

definition clear_progress :: "usb_progress \<Rightarrow> usb_progress" where
  "clear_progress p = p\<lparr>up_active := False, up_last := 0\<rparr>"

section \<open>The drain\<close>

record usb_drain =
  ud_tracked :: "nat option"
  ud_transmitted :: nat
  ud_progress :: usb_progress

definition idle_drain :: usb_drain where
  "idle_drain = \<lparr>ud_tracked = None, ud_transmitted = 0, ud_progress = idle_progress\<rparr>"

definition clear_tracking :: "usb_drain \<Rightarrow> usb_drain" where
  "clear_tracking d =
     d\<lparr>ud_tracked := None, ud_transmitted := 0, ud_progress := clear_progress (ud_progress d)\<rparr>"

text \<open>The beginning of a poll: a new front frame restarts the offset and the deadline.\<close>

definition track_front :: "u64 \<Rightarrow> (nat \<times> bytes) option \<Rightarrow> usb_drain \<Rightarrow> usb_drain" where
  "track_front now front d =
     (if map_option fst front \<noteq> ud_tracked d
      then d\<lparr>ud_tracked := map_option fst front, ud_transmitted := 0,
             ud_progress := (if front \<noteq> None then begin_progress now (ud_progress d)
                             else ud_progress d)\<rparr>
      else d)"

text \<open>
  One transmission to the endpoint, whose free space and answer to \<open>write\<close> are arguments: the drain
  and the calls of the endpoint, with the bytes that reached it.
\<close>

datatype endpoint_call = Endpoint_write bytes | Endpoint_flush

fun endpoint_bytes :: "endpoint_call list \<Rightarrow> bytes" where
  "endpoint_bytes [] = []"
| "endpoint_bytes (Endpoint_write bytes # calls) = bytes @ endpoint_bytes calls"
| "endpoint_bytes (Endpoint_flush # calls) = endpoint_bytes calls"

definition transmit_fragment ::
    "u64 \<Rightarrow> nat \<Rightarrow> nat \<Rightarrow> bytes \<Rightarrow> usb_drain \<Rightarrow> usb_drain \<times> endpoint_call list" where
  "transmit_fragment now available answer frame d =
     (if available > 0
      then let requested = min available (length frame - ud_transmitted d);
               remainder = take requested (drop (ud_transmitted d) frame);
               written = min answer requested
           in (if written > 0
               then (d\<lparr>ud_transmitted := ud_transmitted d + written,
                       ud_progress := record_progress now (ud_progress d)\<rparr>,
                     [Endpoint_write (take written remainder), Endpoint_flush])
               else (d, [Endpoint_write []]))
      else (d, []))"

text \<open>The end of a poll: the deadline of a frame that is not yet through.\<close>

definition expire_front :: "u64 \<Rightarrow> usb_queue \<Rightarrow> usb_drain \<Rightarrow> usb_queue \<times> usb_drain" where
  "expire_front now q d =
     (if progress_expired now (ud_progress d) then (usb_queue_clear q, clear_tracking d)
      else (q, d))"

definition usb_drain_process ::
    "bool \<Rightarrow> u64 \<Rightarrow> nat \<Rightarrow> nat \<Rightarrow> usb_queue \<Rightarrow> usb_drain \<Rightarrow>
      usb_queue \<times> usb_drain \<times> endpoint_call list" where
  "usb_drain_process can_send now available answer q d =
     (if \<not> can_send then (usb_queue_clear q, clear_tracking d, [])
      else let front = usb_front q; d = track_front now front d
           in (case front of
                 None \<Rightarrow> (q, d, [])
               | Some (_, frame) \<Rightarrow>
                   if ud_transmitted d < length frame
                   then let (d, out) = transmit_fragment now available answer frame d
                        in (if ud_transmitted d = length frame
                            then (usb_pop_front q, clear_tracking d, out @ [Endpoint_flush])
                            else let (q, d) = expire_front now q d in (q, d, out))
                   else let (q, d) = expire_front now q d in (q, d, [])))"

section \<open>Protocol state\<close>

record usb_state =
  us_present :: bool
  us_active :: bool
  us_staging :: bytes
  us_queue :: usb_queue

definition initial_usb_state :: usb_state where
  "initial_usb_state =
     \<lparr>us_present = False, us_active = False, us_staging = [], us_queue = empty_usb_queue\<rparr>"

definition usb_enumerated :: "usb_state \<Rightarrow> usb_state" where
  "usb_enumerated s =
     s\<lparr>us_queue := usb_reset_failure (us_queue s), us_present := True, us_active := False\<rparr>"

definition usb_valid_frame_received :: "usb_state \<Rightarrow> usb_state" where
  "usb_valid_frame_received s = (if us_present s then s\<lparr>us_active := True\<rparr> else s)"

definition usb_disconnected :: "usb_state \<Rightarrow> usb_state" where
  "usb_disconnected s =
     s\<lparr>us_present := False, us_active := False, us_staging := [],
       us_queue := usb_queue_clear (us_queue s)\<rparr>"

definition usb_can_send :: "usb_state \<Rightarrow> bool" where
  "usb_can_send s \<longleftrightarrow> us_present s \<and> us_active s \<and> \<not> uq_failed (us_queue s)"

section \<open>Reconnect recovery\<close>

datatype reconnect_phase =
  Reconnect_inactive | Waiting_to_disconnect | Holding_disconnected | Waiting_for_mount

datatype reconnect_action = No_reconnect | Drive_bvalid_low | Drive_bvalid_high

record reconnect_recovery =
  rr_phase :: reconnect_phase
  rr_deadline :: u64

definition idle_recovery :: reconnect_recovery where
  "idle_recovery = \<lparr>rr_phase = Reconnect_inactive, rr_deadline = 0\<rparr>"

definition connection_lost :: "u64 \<Rightarrow> reconnect_recovery \<Rightarrow> reconnect_recovery" where
  "connection_lost now r =
     (if rr_phase r = Reconnect_inactive
      then r\<lparr>rr_phase := Waiting_to_disconnect, rr_deadline := now + 1000\<rparr> else r)"

definition connection_restored :: "reconnect_recovery \<Rightarrow> reconnect_recovery" where
  "connection_restored r = r\<lparr>rr_phase := Reconnect_inactive, rr_deadline := 0\<rparr>"

definition reconnect_poll ::
    "u64 \<Rightarrow> reconnect_recovery \<Rightarrow> reconnect_recovery \<times> reconnect_action" where
  "reconnect_poll now r =
     (if rr_phase r = Reconnect_inactive \<or> now < rr_deadline r then (r, No_reconnect)
      else if rr_phase r = Waiting_to_disconnect \<or> rr_phase r = Waiting_for_mount
      then (r\<lparr>rr_phase := Holding_disconnected, rr_deadline := now + 100\<rparr>, Drive_bvalid_low)
      else (r\<lparr>rr_phase := Waiting_for_mount, rr_deadline := now + 1000\<rparr>, Drive_bvalid_high))"

section \<open>The link as a machine\<close>

text \<open>
  The link with its history: the bytes sent and the frames accepted since output was last discarded,
  and the same of the earlier stretches. \<open>uw_unpolled\<close> says that output was discarded and the
  transmit task has not polled since. A poll that removes frames without a flush has discarded them.
\<close>

record usb_world =
  uw_state :: usb_state
  uw_drain :: usb_drain
  uw_sent :: bytes
  uw_accepted :: "bytes list"
  uw_earlier :: "(bytes list \<times> bytes) list"
  uw_unpolled :: bool

definition initial_usb_world :: usb_world where
  "initial_usb_world =
     \<lparr>uw_state = initial_usb_state, uw_drain = idle_drain, uw_sent = [], uw_accepted = [],
      uw_earlier = [], uw_unpolled = False\<rparr>"

datatype usb_event =
  Usb_enumerated | Usb_valid_frame | Usb_disconnected | Usb_enqueue nat bytes | Usb_poll u64 nat nat

abbreviation queued :: "usb_world \<Rightarrow> (nat \<times> bytes) list" where
  "queued w \<equiv> uq_frames (us_queue (uw_state w))"

definition forget_output :: "usb_world \<Rightarrow> usb_world" where
  "forget_output w =
     w\<lparr>uw_earlier := uw_earlier w @ [(uw_accepted w, uw_sent w)], uw_sent := [], uw_accepted := []\<rparr>"

definition poll_link :: "u64 \<Rightarrow> nat \<Rightarrow> nat \<Rightarrow> usb_world \<Rightarrow> usb_world" where
  "poll_link now available answer w =
     (let s = uw_state w;
          (q, d, calls) =
            usb_drain_process (usb_can_send s) now available answer (us_queue s) (uw_drain w);
          w' = w\<lparr>uw_state := s\<lparr>us_queue := q\<rparr>, uw_drain := d,
                 uw_sent := uw_sent w @ endpoint_bytes calls, uw_unpolled := False\<rparr>
      in if uq_frames q \<noteq> queued w \<and> Endpoint_flush \<notin> set calls then forget_output w' else w')"

definition enqueue_link :: "nat \<Rightarrow> bytes \<Rightarrow> usb_world \<Rightarrow> usb_world" where
  "enqueue_link address frame w =
     (let s = uw_state w; (q, accepted) = usb_enqueue address frame (us_queue s);
          w' = w\<lparr>uw_state := s\<lparr>us_queue := q\<rparr>\<rparr>
      in if accepted then w'\<lparr>uw_accepted := uw_accepted w @ [frame]\<rparr>
         else if uq_failed q \<and> \<not> uq_failed (us_queue s)
         then (forget_output w')\<lparr>uw_unpolled := True\<rparr> else w')"

fun usb_link_step :: "usb_event \<Rightarrow> usb_world \<Rightarrow> usb_world" where
  "usb_link_step Usb_enumerated w = w\<lparr>uw_state := usb_enumerated (uw_state w)\<rparr>"
| "usb_link_step Usb_valid_frame w = w\<lparr>uw_state := usb_valid_frame_received (uw_state w)\<rparr>"
| "usb_link_step Usb_disconnected w =
     (forget_output w)\<lparr>uw_state := usb_disconnected (uw_state w), uw_unpolled := True\<rparr>"
| "usb_link_step (Usb_enqueue address frame) w = enqueue_link address frame w"
| "usb_link_step (Usb_poll now available answer) w = poll_link now available answer w"

text \<open>
  The events that can happen: the transmit task, which polls every 20 milliseconds, has polled before
  a link that was lost is enumerated again and sends its first valid frame.
\<close>

fun usb_event_possible :: "usb_world \<Rightarrow> usb_event \<Rightarrow> bool" where
  "usb_event_possible w Usb_valid_frame \<longleftrightarrow> \<not> uw_unpolled w"
| "usb_event_possible w _ \<longleftrightarrow> True"

inductive usb_reachable :: "usb_world \<Rightarrow> bool" where
  start: "usb_reachable initial_usb_world"
| event: "usb_reachable (usb_link_step ev w)" if "usb_reachable w" "usb_event_possible w ev"

definition usb_pending :: "usb_queue \<Rightarrow> usb_drain \<Rightarrow> bytes" where
  "usb_pending q d =
     (case uq_frames q of [] \<Rightarrow> []
      | (a, frame) # rest \<Rightarrow>
          drop (if ud_tracked d = Some a then ud_transmitted d else 0) frame @
          concat (map snd rest))"

text \<open>A tracked address is that of the front frame, part of which is still to be sent.\<close>

definition drain_coherent :: "usb_queue \<Rightarrow> usb_drain \<Rightarrow> bool" where
  "drain_coherent q d \<longleftrightarrow>
     (\<forall>a. ud_tracked d = Some a \<longrightarrow>
        (\<exists>frame rest. uq_frames q = (a, frame) # rest \<and> ud_transmitted d < length frame))"

definition queue_sound :: "usb_queue \<Rightarrow> bool" where
  "queue_sound q \<longleftrightarrow> length (uq_frames q) \<le> usb_maximum_items \<and>
     (\<forall>frame \<in> snd ` set (uq_frames q). frame \<noteq> [] \<and> length frame \<le> host_maximum_frame_size) \<and>
     (uq_failed q \<longrightarrow> uq_frames q = [])"

lemma track_front_tracks: "ud_tracked (track_front now front d) = map_option fst front"
  by (simp add: track_front_def)

lemma tracked_offset:
  "ud_transmitted (track_front now (Some (a, frame)) d) =
     (if ud_tracked d = Some a then ud_transmitted d else 0)"
  by (auto simp: track_front_def)

lemma transmit_fragment_splits:
  assumes "transmit_fragment now available answer frame d = (d', calls)"
    and "ud_transmitted d \<le> length frame"
  shows "drop (ud_transmitted d) frame = endpoint_bytes calls @ drop (ud_transmitted d') frame"
    and "ud_transmitted d' \<le> length frame" and "ud_tracked d' = ud_tracked d"
proof -
  define n where "n = min answer (min available (length frame - ud_transmitted d))"
  have n: "ud_transmitted d + n \<le> length frame" "n \<le> min available (length frame - ud_transmitted d)"
    using assms(2) by (auto simp: n_def)
  have whole: "min n (min available (length frame - ud_transmitted d)) = n"
    using n(2) by simp
  show "drop (ud_transmitted d) frame = endpoint_bytes calls @ drop (ud_transmitted d') frame"
    using assms(1) append_take_drop_id [of n "drop (ud_transmitted d) frame"]
    by (auto simp: transmit_fragment_def Let_def whole add.commute
        simp flip: n_def split: if_split_asm)
  show "ud_transmitted d' \<le> length frame" "ud_tracked d' = ud_tracked d"
    using assms n by (auto simp: transmit_fragment_def Let_def simp flip: n_def
        split: if_split_asm)
qed


lemma transmit_fragment_flush:
  "transmit_fragment now available answer frame d = (d', calls) \<Longrightarrow>
     (Endpoint_flush \<in> set calls \<longleftrightarrow> available > 0 \<and> answer > 0 \<and> ud_transmitted d < length frame) \<and>
     (Endpoint_flush \<notin> set calls \<longrightarrow> d' = d \<and> endpoint_bytes calls = []) \<and>
     (Endpoint_flush \<in> set calls \<longrightarrow> endpoint_bytes calls \<noteq> [] \<and>
        ud_progress d' = record_progress now (ud_progress d))"
  by (auto simp: transmit_fragment_def Let_def split: if_split_asm)

lemma fresh_progress_lasts: "\<not> progress_expired now (record_progress now p)"
  by (simp add: progress_expired_def record_progress_def)

text \<open>
  One poll of a link that may be sent to: nothing is queued; or the endpoint takes a part of what is
  pending and at most the front frame leaves; or everything queued is given up.
\<close>

lemma poll_cases:
  assumes poll: "usb_drain_process True now available answer q d = (q', d', calls)"
    and coherent: "drain_coherent q d" and sound: "queue_sound q"
  obtains (idle) "uq_frames q = []" "q' = q" "ud_tracked d' = None" "calls = []"
  | (moved) "uq_frames q \<noteq> []" "usb_pending q d = endpoint_bytes calls @ usb_pending q' d'"
      "drain_coherent q' d'" "q' = q \<or> q' = usb_pop_front q \<and> Endpoint_flush \<in> set calls"
      "available > 0 \<Longrightarrow> answer > 0 \<Longrightarrow> endpoint_bytes calls \<noteq> []"
      "ud_tracked d' = None \<or> ud_progress d' =
         (if available > 0 \<and> answer > 0 then record_progress now else id)
           (ud_progress (track_front now (usb_front q) d))"
  | (expired) d'' where "uq_frames q \<noteq> []" "q' = usb_queue_clear q" "d' = clear_tracking d''"
      "endpoint_bytes calls = []" "Endpoint_flush \<notin> set calls"
      "d'' = track_front now (usb_front q) d" "progress_expired now (ud_progress d'')"
      "\<not> (available > 0 \<and> answer > 0)"
proof (cases "uq_frames q")
  case Nil
  then have "q' = q \<and> ud_tracked d' = None \<and> calls = []"
    using poll by (auto simp: usb_drain_process_def usb_front_def Let_def track_front_tracks)
  then show ?thesis by (intro idle) (simp_all add: Nil)
next
  case (Cons front rest)
  obtain a frame where front: "front = (a, frame)" by (cases front)
  have q: "usb_front q = Some (a, frame)" "uq_frames q = (a, frame) # rest"
    using Cons front by (simp_all add: usb_front_def)
  define e where "e = track_front now (usb_front q) d"
  have tracked: "ud_tracked e = Some a" and offset:
      "ud_transmitted e = (if ud_tracked d = Some a then ud_transmitted d else 0)"
    by (simp_all add: e_def q track_front_tracks tracked_offset)
  have frame: "frame \<noteq> []" using sound q by (auto simp: queue_sound_def)
  have open_frame: "ud_transmitted e < length frame"
  proof (cases "ud_tracked d = Some a")
    case True
    then obtain frame' rest' where "uq_frames q = (a, frame') # rest'" "ud_transmitted d < length frame'"
      using coherent unfolding drain_coherent_def by blast
    then show ?thesis using True q(2) by (simp add: offset)
  qed (use frame in \<open>simp add: offset\<close>)
  obtain e' out where sent: "transmit_fragment now available answer frame e = (e', out)"
    by (cases "transmit_fragment now available answer frame e")
  note splits = transmit_fragment_splits [OF sent less_imp_le [OF open_frame]]
  note flush = transmit_fragment_flush [OF sent]
  have pending: "usb_pending q d = drop (ud_transmitted e) frame @ concat (map snd rest)"
    by (simp add: usb_pending_def q offset)
  have result: "(q', d', calls) =
      (if ud_transmitted e' = length frame then (usb_pop_front q, clear_tracking e', out @ [Endpoint_flush])
       else if progress_expired now (ud_progress e') then (usb_queue_clear q, clear_tracking e', out)
       else (q, e', out))"
    using poll open_frame sent
    by (simp add: usb_drain_process_def Let_def q e_def expire_front_def split: if_split_asm)
  consider (full) "ud_transmitted e' = length frame"
    | (gone) "ud_transmitted e' \<noteq> length frame" "progress_expired now (ud_progress e')"
    | (part) "ud_transmitted e' \<noteq> length frame" "\<not> progress_expired now (ud_progress e')"
    by blast
  then show ?thesis
  proof cases
    case full
    have more: "endpoint_bytes (out @ [Endpoint_flush]) = endpoint_bytes out"
      by (induction out rule: endpoint_bytes.induct) simp_all
    have "usb_pending (usb_pop_front q) (clear_tracking e') = concat (map snd rest)"
      by (simp add: usb_pending_def usb_pop_front_def q clear_tracking_def split: list.split)
    then show ?thesis
      using moved result full more splits(1) flush open_frame
      by (simp add: q pending drain_coherent_def clear_tracking_def)
  next
    case gone
    then have quiet: "Endpoint_flush \<notin> set out" using flush fresh_progress_lasts by auto
    then show ?thesis
      using expired [of e] gone result flush open_frame by (simp add: q e_def)
  next
    case part
    then have "drain_coherent q e'" "usb_pending q e' = drop (ud_transmitted e') frame @ concat (map snd rest)"
      using splits tracked by (auto simp: drain_coherent_def usb_pending_def q)
    then show ?thesis
      using moved result part splits(1) flush open_frame by (simp add: q pending e_def)
  qed
qed


definition usb_link_inv :: "usb_world \<Rightarrow> bool" where
  "usb_link_inv w \<longleftrightarrow>
     queue_sound (us_queue (uw_state w)) \<and>
     (if uw_unpolled w
      then \<not> usb_can_send (uw_state w) \<and> uw_sent w = [] \<and> uw_accepted w = map snd (queued w)
      else drain_coherent (us_queue (uw_state w)) (uw_drain w) \<and>
           uw_sent w @ usb_pending (us_queue (uw_state w)) (uw_drain w) = concat (uw_accepted w)) \<and>
     (\<forall>(accepted, sent) \<in> set (uw_earlier w). prefix sent (concat accepted))"

lemma queue_sound_clear [simp]: "queue_sound (usb_queue_clear q)"
  by (simp add: queue_sound_def usb_queue_clear_def)

lemma frames_cleared [simp]: "uq_frames (usb_queue_clear q) = []"
  by (simp add: usb_queue_clear_def)

lemma pending_cleared [simp]: "usb_pending (usb_queue_clear q) d = []"
  by (simp add: usb_pending_def usb_queue_clear_def)

lemma coherent_cleared [simp]: "drain_coherent q (clear_tracking d)"
  by (simp add: drain_coherent_def clear_tracking_def)

lemma queue_sound_pop [simp]: "queue_sound q \<Longrightarrow> queue_sound (usb_pop_front q)"
  by (cases "uq_frames q") (auto simp: queue_sound_def usb_pop_front_def)

lemma failure_reset:
  "drain_coherent (usb_reset_failure q) d = drain_coherent q d"
  "usb_pending (usb_reset_failure q) d = usb_pending q d"
  "queue_sound q \<Longrightarrow> queue_sound (usb_reset_failure q)"
  "uq_frames (usb_reset_failure q) = uq_frames q"
  by (simp_all add: drain_coherent_def usb_pending_def queue_sound_def usb_reset_failure_def)

lemma sent_is_prefix:
  "usb_link_inv w \<Longrightarrow> prefix (uw_sent w) (concat (uw_accepted w))"
  unfolding usb_link_inv_def by (metis Nil_prefix prefixI)

lemma poll_link_inv:
  assumes inv: "usb_link_inv w"
  shows "usb_link_inv (poll_link now available answer w)"
proof -
  let ?s = "uw_state w"
  obtain q d calls where poll: "usb_drain_process (usb_can_send ?s) now available answer
      (us_queue ?s) (uw_drain w) = (q, d, calls)"
    by (metis prod_cases3)
  have earlier: "\<forall>(accepted, sent) \<in> set (uw_earlier w). prefix sent (concat accepted)"
    and sound: "queue_sound (us_queue ?s)"
    using inv by (simp_all add: usb_link_inv_def)
  note prefix = sent_is_prefix [OF inv]
  show ?thesis
  proof (cases "usb_can_send ?s")
    case False
    have "q = usb_queue_clear (us_queue ?s) \<and> d = clear_tracking (uw_drain w) \<and> calls = []"
      using poll False by (simp add: usb_drain_process_def)
    moreover have "queued w = [] \<Longrightarrow> uw_sent w = concat (uw_accepted w)"
      using inv by (auto simp: usb_link_inv_def usb_pending_def split: if_split_asm)
    ultimately show ?thesis
      using poll earlier prefix
      by (cases "queued w = []")
         (simp_all add: poll_link_def usb_link_inv_def forget_output_def Let_def)
  next
    case True
    then have polled: "\<not> uw_unpolled w" using inv by (auto simp: usb_link_inv_def)
    then have coherent: "drain_coherent (us_queue ?s) (uw_drain w)"
      and stream: "uw_sent w @ usb_pending (us_queue ?s) (uw_drain w) = concat (uw_accepted w)"
      using inv by (simp_all add: usb_link_inv_def)
    have "usb_drain_process True now available answer (us_queue ?s) (uw_drain w) = (q, d, calls)"
      using poll True by simp
    from this coherent sound
    show ?thesis
    proof (cases rule: poll_cases)
      case idle
      then show ?thesis
        using earlier sound stream
        by (simp add: poll_link_def poll usb_link_inv_def drain_coherent_def usb_pending_def Let_def)
    next
      case moved
      then have "queue_sound q" and kept: "\<not> (uq_frames q \<noteq> queued w \<and> Endpoint_flush \<notin> set calls)"
        using sound by auto
      moreover have "poll_link now available answer w =
          w\<lparr>uw_state := ?s\<lparr>us_queue := q\<rparr>, uw_drain := d,
            uw_sent := uw_sent w @ endpoint_bytes calls, uw_unpolled := False\<rparr>"
        using kept unfolding poll_link_def poll Let_def by (simp only: prod.case if_False)
      ultimately show ?thesis
        using moved(2,3) earlier stream by (simp add: usb_link_inv_def)
    next
      case expired
      then show ?thesis
        using earlier prefix
        by (simp add: poll_link_def poll usb_link_inv_def forget_output_def Let_def)
    qed
  qed
qed


lemma enqueue_link_inv:
  assumes inv: "usb_link_inv w"
  shows "usb_link_inv (enqueue_link address frame w)"
proof -
  let ?s = "uw_state w" and ?q = "us_queue (uw_state w)"
  note link = enqueue_link_def usb_enqueue_def Let_def
  consider (refused) "\<not> usb_enqueue_admissible frame ?q"
    | (full) "usb_enqueue_admissible frame ?q" "length (queued w) \<ge> usb_maximum_items"
    | (room) "usb_enqueue_admissible frame ?q" "length (queued w) < usb_maximum_items"
    by linarith
  then show ?thesis
  proof cases
    case refused
    then have "enqueue_link address frame w = w" by (simp add: link)
    then show ?thesis using inv by simp
  next
    case full
    then have "\<not> uq_failed ?q" by (simp add: usb_enqueue_admissible_def)
    then show ?thesis
      using full inv sent_is_prefix [OF inv]
      by (simp add: link usb_enqueue_complete_def forget_output_def usb_link_inv_def usb_can_send_def
          queue_sound_def)
  next
    case room
    then have ok: "\<not> uq_failed ?q" "frame \<noteq> []" "length frame \<le> host_maximum_frame_size"
      by (simp_all add: usb_enqueue_admissible_def)
    let ?q' = "?q\<lparr>uq_frames := queued w @ [(address, frame)]\<rparr>"
    have eq: "enqueue_link address frame w =
        w\<lparr>uw_state := ?s\<lparr>us_queue := ?q'\<rparr>, uw_accepted := uw_accepted w @ [frame]\<rparr>"
      using room ok by (simp add: link usb_enqueue_complete_def)
    have sound: "queue_sound ?q'"
      using inv room ok by (auto simp: usb_link_inv_def queue_sound_def)
    have same: "usb_can_send (?s\<lparr>us_queue := ?q'\<rparr>) = usb_can_send ?s"
      by (simp add: usb_can_send_def)
    have "drain_coherent ?q (uw_drain w) \<Longrightarrow> drain_coherent ?q' (uw_drain w) \<and>
        usb_pending ?q' (uw_drain w) = usb_pending ?q (uw_drain w) @ frame"
      by (cases "queued w") (auto simp: drain_coherent_def usb_pending_def)
    then show ?thesis
      using inv sound unfolding eq usb_link_inv_def by (simp add: same)
  qed
qed

lemma usb_link_step_inv:
  "usb_link_inv w \<Longrightarrow> usb_event_possible w ev \<Longrightarrow> usb_link_inv (usb_link_step ev w)"
proof (cases ev)
  case Usb_enumerated
  assume inv: "usb_link_inv w"
  then show ?thesis
    by (simp add: Usb_enumerated usb_link_inv_def usb_enumerated_def usb_can_send_def failure_reset)
next
  case Usb_valid_frame
  assume inv: "usb_link_inv w" "usb_event_possible w ev"
  then show ?thesis
    by (simp add: Usb_valid_frame usb_link_inv_def usb_valid_frame_received_def)
next
  case Usb_disconnected
  assume inv: "usb_link_inv w"
  then show ?thesis
    using sent_is_prefix [OF inv]
    by (simp add: Usb_disconnected usb_link_inv_def usb_disconnected_def forget_output_def usb_can_send_def)
qed (simp_all add: poll_link_inv enqueue_link_inv)

lemma reachable_usb_link_inv: "usb_reachable w \<Longrightarrow> usb_link_inv w"
  by (induction rule: usb_reachable.induct)
     (simp_all add: usb_link_step_inv, simp add: initial_usb_world_def usb_link_inv_def
       initial_usb_state_def empty_usb_queue_def queue_sound_def drain_coherent_def idle_drain_def
       usb_pending_def)

section \<open>Delivery\<close>

text \<open>
  A host is patient when its polls never leave the endpoint without room for more than 500
  milliseconds; \<open>since\<close> is the time of the last poll that could write.
\<close>

type_synonym usb_poll_record = "u64 \<times> nat \<times> nat"

abbreviation poll_writes :: "usb_poll_record \<Rightarrow> bool" where
  "poll_writes p \<equiv> fst (snd p) > 0 \<and> snd (snd p) > 0"

fun patient_host :: "u64 \<Rightarrow> usb_poll_record list \<Rightarrow> bool" where
  "patient_host since [] \<longleftrightarrow> True"
| "patient_host since (p # ps) \<longleftrightarrow> since \<le> fst p \<and>
     (if poll_writes p then patient_host (fst p) ps else fst p - since \<le> 500 \<and> patient_host since ps)"

fun usb_poll_all :: "usb_poll_record list \<Rightarrow> usb_world \<Rightarrow> usb_world" where
  "usb_poll_all [] w = w"
| "usb_poll_all ((now, available, answer) # ps) w =
     usb_poll_all ps (usb_link_step (Usb_poll now available answer) w)"

text \<open>No deadline of the frame in flight began before the given time.\<close>

definition progress_since :: "u64 \<Rightarrow> usb_drain \<Rightarrow> bool" where
  "progress_since since d \<longleftrightarrow>
     (\<forall>a. ud_tracked d = Some a \<longrightarrow> up_active (ud_progress d) \<longrightarrow> since \<le> up_last (ud_progress d))"

abbreviation pending_of :: "usb_world \<Rightarrow> bytes" where
  "pending_of w \<equiv> usb_pending (us_queue (uw_state w)) (uw_drain w)"

lemma elapsed_mono:
  fixes a b c :: u64
  shows "a \<le> b \<Longrightarrow> b \<le> c \<Longrightarrow> c - b \<le> c - a"
  by (simp add: word_le_nat_alt unat_sub)

lemma track_front_since:
  "progress_since since d \<Longrightarrow> since \<le> now \<Longrightarrow> front \<noteq> None \<Longrightarrow>
     up_active (ud_progress (track_front now front d)) \<Longrightarrow>
     since \<le> up_last (ud_progress (track_front now front d))"
  by (auto simp: track_front_def progress_since_def begin_progress_def)

lemma pop_front_failed [simp]: "uq_failed (usb_pop_front q) = uq_failed q"
  by (simp add: usb_pop_front_def)

lemma patient_poll:
  assumes inv: "usb_link_inv w" and can: "usb_can_send (uw_state w)"
    and started: "progress_since since (uw_drain w)" and time: "since \<le> now"
    and writes: "available > 0 \<and> answer > 0 \<or> now - since \<le> 500"
    and w': "w' = poll_link now available answer w"
  shows "usb_can_send (uw_state w')" "uw_accepted w' = uw_accepted w" "uw_earlier w' = uw_earlier w"
    "progress_since (if available > 0 \<and> answer > 0 then now else since) (uw_drain w')"
    "length (pending_of w') \<le> length (pending_of w) - (if available > 0 \<and> answer > 0 then 1 else 0)"
proof -
  let ?s = "uw_state w"
  obtain q d calls where poll: "usb_drain_process True now available answer
      (us_queue ?s) (uw_drain w) = (q, d, calls)"
    by (metis prod_cases3)
  have polled: "\<not> uw_unpolled w" using inv can by (auto simp: usb_link_inv_def)
  have coherent: "drain_coherent (us_queue ?s) (uw_drain w)" and sound: "queue_sound (us_queue ?s)"
    using inv polled by (simp_all add: usb_link_inv_def)
  have front: "usb_front (us_queue ?s) \<noteq> None \<longleftrightarrow> queued w \<noteq> []"
    by (simp add: usb_front_def split: list.split)
  have "uq_failed q = uq_failed (us_queue ?s) \<and> \<not> (uq_frames q \<noteq> queued w \<and> Endpoint_flush \<notin> set calls) \<and>
      progress_since (if available > 0 \<and> answer > 0 then now else since) d \<and>
      length (usb_pending q d) \<le>
        length (pending_of w) - (if available > 0 \<and> answer > 0 then 1 else 0)"
    using poll coherent sound
  proof (cases rule: poll_cases)
    case idle
    then show ?thesis by (simp add: progress_since_def usb_pending_def)
  next
    case moved
    let ?p = "ud_progress (track_front now (usb_front (us_queue ?s)) (uw_drain w))"
    have "up_active ?p \<Longrightarrow> since \<le> up_last ?p"
      using track_front_since [OF started time] front moved(1) by blast
    then have "progress_since (if available > 0 \<and> answer > 0 then now else since) d"
      using moved(6) by (auto simp: progress_since_def record_progress_def)
    moreover have "available > 0 \<Longrightarrow> answer > 0 \<Longrightarrow> length (endpoint_bytes calls) \<ge> 1"
      using moved(5) by (simp add: Suc_le_eq)
    ultimately show ?thesis
      using moved(2,4) by auto
  next
    case (expired d'')
    then have "since \<le> up_last (ud_progress d'')"
      using track_front_since [OF started time] front by (simp add: progress_expired_def)
    then have "now - up_last (ud_progress d'') \<le> now - since"
      using expired(7) by (intro elapsed_mono) (simp_all add: progress_expired_def)
    then have False
      using expired(7,8) writes by (auto simp: progress_expired_def)
    then show ?thesis ..
  qed
  note result = this
  have eq: "w' = w\<lparr>uw_state := ?s\<lparr>us_queue := q\<rparr>, uw_drain := d,
      uw_sent := uw_sent w @ endpoint_bytes calls, uw_unpolled := False\<rparr>"
  proof -
    have "usb_drain_process (usb_can_send ?s) now available answer (us_queue ?s) (uw_drain w) = (q, d, calls)"
      using poll can by simp
    then show ?thesis
      using result unfolding w' poll_link_def Let_def by (simp only: prod.case if_False)
  qed
  show "usb_can_send (uw_state w')" "uw_accepted w' = uw_accepted w" "uw_earlier w' = uw_earlier w"
    "progress_since (if available > 0 \<and> answer > 0 then now else since) (uw_drain w')"
    "length (pending_of w') \<le> length (pending_of w) - (if available > 0 \<and> answer > 0 then 1 else 0)"
    using result can by (simp_all add: eq usb_can_send_def)
qed

lemma patient_polls:
  "usb_link_inv w \<Longrightarrow> usb_can_send (uw_state w) \<Longrightarrow> progress_since since (uw_drain w) \<Longrightarrow>
     patient_host since ps \<Longrightarrow> w' = usb_poll_all ps w \<Longrightarrow>
     usb_link_inv w' \<and> usb_can_send (uw_state w') \<and> uw_accepted w' = uw_accepted w \<and>
     uw_earlier w' = uw_earlier w \<and>
     length (pending_of w') \<le> length (pending_of w) - length (filter poll_writes ps)"
proof (induction ps arbitrary: w since)
  case Nil
  then show ?case by simp
next
  case (Cons p ps)
  obtain now available answer where p: "p = (now, available, answer)" by (cases p)
  let ?w = "poll_link now available answer w"
  let ?since = "if available > 0 \<and> answer > 0 then now else since"
  have rest: "patient_host ?since ps" "since \<le> now" "available > 0 \<and> answer > 0 \<or> now - since \<le> 500"
    using Cons.prems(4) unfolding p patient_host.simps fst_conv snd_conv
    by (cases "available > 0 \<and> answer > 0"; simp only: if_True if_False simp_thms)+
  note step = patient_poll [OF Cons.prems(1-3) rest(2,3) refl]
  have "w' = usb_poll_all ps ?w" using Cons.prems(5) by (simp add: p)
  note later = Cons.IH [OF poll_link_inv [OF Cons.prems(1)] step(1) step(4) rest(1) this]
  have count: "length (filter poll_writes (p # ps)) =
      (if available > 0 \<and> answer > 0 then 1 else 0) + length (filter poll_writes ps)"
    by (simp add: p)
  have "length (pending_of w') \<le> length (pending_of w) - length (filter poll_writes (p # ps))"
    using later step(5) unfolding count by linarith
  then show ?case using later step(2,3) by simp
qed


lemma nothing_pending:
  assumes "usb_link_inv w" "usb_can_send (uw_state w)" "pending_of w = []"
  shows "queued w = [] \<and> uw_sent w = concat (uw_accepted w)"
proof -
  have inv: "drain_coherent (us_queue (uw_state w)) (uw_drain w)" "queue_sound (us_queue (uw_state w))"
    "uw_sent w @ pending_of w = concat (uw_accepted w)"
    using assms(1,2) by (auto simp: usb_link_inv_def split: if_split_asm)
  have "queued w = []"
  proof (cases "queued w")
    case (Cons front rest)
    obtain a frame where front: "front = (a, frame)" by (cases front)
    have "frame \<noteq> []" using inv(2) Cons front by (simp add: queue_sound_def)
    moreover have "ud_tracked (uw_drain w) = Some a \<Longrightarrow> ud_transmitted (uw_drain w) < length frame"
      using inv(1) Cons front by (simp add: drain_coherent_def)
    ultimately show ?thesis
      using assms(3) Cons front by (simp add: usb_pending_def split: if_split_asm)
  qed
  then show ?thesis using inv(3) assms(3) by simp
qed

section \<open>Properties\<close>


definition sample_link :: usb_world where
  "sample_link =
     usb_link_step (Usb_poll 60 1 64) (usb_link_step (Usb_poll 40 2 64)
       (usb_link_step (Usb_enqueue 8 [4, 5]) (usb_link_step (Usb_enqueue 7 [1, 2, 3])
         (usb_link_step Usb_valid_frame (usb_link_step Usb_enumerated initial_usb_world)))))"

lemmas link_evaluation = usb_enumerated_def usb_valid_frame_received_def initial_usb_world_def
  initial_usb_state_def empty_usb_queue_def idle_drain_def idle_progress_def usb_reset_failure_def
  enqueue_link_def usb_enqueue_def usb_enqueue_admissible_def usb_enqueue_complete_def poll_link_def
  usb_can_send_def usb_drain_process_def usb_front_def track_front_def transmit_fragment_def
  begin_progress_def record_progress_def expire_front_def progress_expired_def usb_pop_front_def
  clear_tracking_def clear_progress_def Let_def

lemma sample_link_value:
  "uw_sent sample_link = [1, 2, 3]" "uw_accepted sample_link = [[1, 2, 3], [4, 5]]"
  "usb_can_send (uw_state sample_link)" "pending_of sample_link = [4, 5]"
  "ud_tracked (uw_drain sample_link) = None"
  by (simp_all add: sample_link_def link_evaluation usb_pending_def)

lemma sample_link_reachable: "usb_reachable sample_link"
  unfolding sample_link_def
  by (intro usb_reachable.intros) (simp_all add: link_evaluation)


text \<open>
  A host that takes output at least every 500 milliseconds gets all of it. From any reachable
  state of a link that may be sent to, polls of the transmit task that are never longer than the
  deadline without an accepting endpoint, and write as often as there are pending bytes, deliver
  every accepted frame, discard nothing and leave the queue empty.
\<close>

theorem usb_patient_host_receives_all:
  assumes "usb_reachable w" "usb_can_send (uw_state w)" "progress_since since (uw_drain w)"
    and "patient_host since ps" "length (pending_of w) \<le> length (filter poll_writes ps)"
  shows "uw_sent (usb_poll_all ps w) = concat (uw_accepted w) \<and> queued (usb_poll_all ps w) = [] \<and>
    uw_earlier (usb_poll_all ps w) = uw_earlier w"
  using patient_polls [OF reachable_usb_link_inv [OF assms(1)] assms(2-4) refl] assms(5)
    nothing_pending [of "usb_poll_all ps w"]
  by simp

theorem usb_patient_host_receives_all_witness:
  "uw_sent (usb_poll_all [(80, 1, 1), (500, 0, 0), (580, 9, 9)] sample_link) = [1, 2, 3, 4, 5]"
  using usb_patient_host_receives_all [OF sample_link_reachable, of 60 "[(80, 1, 1), (500, 0, 0), (580, 9, 9)]"]
  by (simp add: sample_link_value progress_since_def)

text \<open>
  An element's address may come back once the queue was emptied. Without a poll between the loss of
  the link and the first valid frame after it, the drain takes the new frame for the one it had
  partly sent: the condition on events is needed.
\<close>

lemma unpolled_link_skips_bytes:
  "uw_sent (usb_link_step (Usb_poll 60 64 64) (usb_link_step (Usb_enqueue 7 [4, 5, 6])
     (usb_link_step Usb_valid_frame (usb_link_step Usb_enumerated (usb_link_step Usb_disconnected
       (usb_link_step (Usb_poll 40 2 64) (usb_link_step (Usb_enqueue 7 [1, 2, 3])
         (usb_link_step Usb_valid_frame (usb_link_step Usb_enumerated initial_usb_world))))))))) = [6]"
  by (simp add: link_evaluation usb_disconnected_def usb_queue_clear_def forget_output_def)

text \<open>The descriptors state their own lengths, the configuration that of its whole chain.\<close>

lemma descriptor_lengths:
  "hd usb_device_descriptor = of_nat (length usb_device_descriptor)"
  "be16 (usb_configuration_descriptor ! 3) (usb_configuration_descriptor ! 2) =
     of_nat (length usb_configuration_descriptor)"
  "\<forall>index \<in> {0, 1, 2, 3}.
     hd (usb_string_descriptor index) = of_nat (length (usb_string_descriptor index))"
  by (simp_all add: usb_device_descriptor_def usb_configuration_descriptor_def be16_def
      usb_string_descriptor_def utf16_string_def)

text \<open>
  Received blocks: the staging area never exceeds its capacity, and what a reader takes is the
  blocks received since it was last emptied.
\<close>

lemma usb_stage_bound:
  "length staged \<le> usb_staging_capacity \<Longrightarrow>
     length (fst (usb_stage block staged)) \<le> usb_staging_capacity \<and>
     (snd (usb_stage block staged) \<longleftrightarrow> length staged + length block \<le> usb_staging_capacity) \<and>
     (snd (usb_stage block staged) \<longrightarrow> fst (usb_stage block staged) = staged @ block)"
  by (auto simp: usb_stage_def)

section \<open>The recovery schedule\<close>

fun reconnect_run :: "u64 list \<Rightarrow> reconnect_recovery \<Rightarrow> (u64 \<times> reconnect_action) list" where
  "reconnect_run [] r = []"
| "reconnect_run (now # ts) r =
     (let (r', action) = reconnect_poll now r
      in (if action = No_reconnect then reconnect_run ts r'
          else (now, action) # reconnect_run ts r'))"

text \<open>The cable goes low and high in turn, each action no earlier than its time.\<close>

fun cable_cycles :: "bool \<Rightarrow> u64 \<Rightarrow> (u64 \<times> reconnect_action) list \<Rightarrow> bool" where
  "cable_cycles high due [] \<longleftrightarrow> True"
| "cable_cycles high due ((now, action) # rest) \<longleftrightarrow>
     action = (if high then Drive_bvalid_low else Drive_bvalid_high) \<and> due \<le> now \<and>
     cable_cycles (\<not> high) (now + (if high then 100 else 1000)) rest"

lemma reconnect_run_cycles:
  "rr_phase r \<noteq> Reconnect_inactive \<Longrightarrow>
     cable_cycles (rr_phase r \<noteq> Holding_disconnected) (rr_deadline r) (reconnect_run ts r)"
proof (induction ts arbitrary: r)
  case Nil
  then show ?case by simp
next
  case (Cons now ts)
  show ?case
  proof (cases "now < rr_deadline r")
    case True
    then show ?thesis using Cons by (simp add: reconnect_poll_def)
  next
    case False
    then have due: "rr_deadline r \<le> now" by (simp add: not_less)
    show ?thesis
      using Cons.prems Cons.IH [of "r\<lparr>rr_phase := Holding_disconnected, rr_deadline := now + 100\<rparr>"]
        Cons.IH [of "r\<lparr>rr_phase := Waiting_for_mount, rr_deadline := now + 1000\<rparr>"]
      by (cases "rr_phase r") (simp_all add: reconnect_poll_def False due)
  qed
qed

lemma recovery_alternates:
  "cable_cycles True (lost + 1000) (reconnect_run ts (connection_lost lost idle_recovery))"
  "connection_lost again (connection_lost lost r) = connection_lost lost r"
  using reconnect_run_cycles [of "connection_lost lost idle_recovery" ts]
  by (simp_all add: connection_lost_def idle_recovery_def)

end
