(* ===== verification/Update_Package.thy ===== *)
theory Update_Package
  imports Frame
begin

text \<open>
  Aggregate firmware packages, \<open>components/core/src/update/update_package.cpp\<close>, and the check of the
  mainboard image they carry, \<open>main/update/esp_image_validator.cpp\<close>. A view that reaches past the
  end of the loaded file reads whatever lies there: \<open>beyond\<close> is that memory, by its distance from
  the start of the file. The layout of ESP images is that of the library's \<open>esp_app_format.h\<close> and a
  parameter. The lemmas show that no corrupted byte of an accepted package goes unnoticed, when the
  images lie inside the file, and what an accepted image consists of.
\<close>

section \<open>The package\<close>

abbreviation (input) update_package_header_size :: nat where "update_package_header_size \<equiv> 32"

record update_header =
  uh_version :: u8
  uh_flags :: u8
  uh_mainboard_size :: u32
  uh_controller_size :: u32
  uh_mainboard_version :: u32
  uh_controller_version :: u32

datatype update_error =
    Package_short_file | Package_magic | Package_version | Package_header_length | Package_flags
  | Package_header_crc | Package_file_crc | Package_size | Package_image

definition read_le32 :: "bytes \<Rightarrow> nat \<Rightarrow> u32" where
  "read_le32 bs offset =
     le32 (bs ! offset) (bs ! (offset + 1)) (bs ! (offset + 2)) (bs ! (offset + 3))"

definition aggregate_file_crc :: "bytes \<Rightarrow> u32" where
  "aggregate_file_crc package =
     (if length package < update_package_header_size then 0
      else foldl crc32_byte (foldl crc32_byte 0xFFFFFFFF (take 28 package))
             (drop update_package_header_size package) XOR 0xFFFFFFFF)"

definition byte_in :: "(nat \<Rightarrow> u8) \<Rightarrow> bytes \<Rightarrow> nat \<Rightarrow> u8" where
  "byte_in beyond bs i = (if i < length bs then bs ! i else beyond i)"

definition view_in :: "(nat \<Rightarrow> u8) \<Rightarrow> bytes \<Rightarrow> nat \<Rightarrow> nat \<Rightarrow> bytes" where
  "view_in beyond bs offset count = map (byte_in beyond bs) [offset..<offset + count]"

definition parse_update_package :: "(nat \<Rightarrow> u8) \<Rightarrow> bytes \<Rightarrow> update_error + update_header" where
  "parse_update_package beyond package =
     (if length package < update_package_header_size then Inl Package_short_file
      else if read_le32 package 0 \<noteq> 0x4D5173EE then Inl Package_magic
      else if package ! 4 < 1 \<or> package ! 4 > 2 then Inl Package_version
      else if package ! 5 \<noteq> of_nat update_package_header_size then Inl Package_header_length
      else
        let mainboard_size = read_le32 package 8; controller_size = read_le32 package 12;
            expected_flags = (if mainboard_size \<noteq> 0 then 1 else 0) OR
                             (if controller_size \<noteq> 0 then 2 else 0)
        in if package ! 6 AND 3 \<noteq> expected_flags then Inl Package_flags
           else if crc32_iso_hdlc (take 24 package) \<noteq> read_le32 package 24
           then Inl Package_header_crc
           else if aggregate_file_crc package \<noteq> read_le32 package 28 then Inl Package_file_crc
           else
             let controller_offset = of_nat update_package_header_size + mainboard_size :: u32;
                 required_size = controller_offset + controller_size
             in if required_size > of_nat (length package) then Inl Package_size
                else if mainboard_size \<noteq> 0 \<and>
                        byte_in beyond package update_package_header_size \<noteq> 0xE9
                then Inl Package_image
                else Inr \<lparr>uh_version = package ! 4, uh_flags = package ! 6,
                          uh_mainboard_size = mainboard_size, uh_controller_size = controller_size,
                          uh_mainboard_version = read_le32 package 16,
                          uh_controller_version = read_le32 package 20\<rparr>)"

text \<open>The two image views the services take of an accepted package.\<close>

definition mainboard_view :: "(nat \<Rightarrow> u8) \<Rightarrow> update_header \<Rightarrow> bytes \<Rightarrow> bytes" where
  "mainboard_view beyond header package =
     view_in beyond package update_package_header_size (unat (uh_mainboard_size header))"

definition controller_view :: "(nat \<Rightarrow> u8) \<Rightarrow> update_header \<Rightarrow> bytes \<Rightarrow> bytes" where
  "controller_view beyond header package =
     (let controller_offset = of_nat update_package_header_size + uh_mainboard_size header :: u32
      in view_in beyond package (unat controller_offset) (unat (uh_controller_size header)))"

section \<open>The mainboard image\<close>

record esp_format =
  esp_header_size :: nat
  esp_segment_header_size :: nat
  esp_max_segments :: nat
  esp_magic :: u8
  esp_magic_of :: "bytes \<Rightarrow> u8"
  esp_segments_of :: "bytes \<Rightarrow> u8"
  esp_data_len :: "bytes \<Rightarrow> u32"

definition can_read :: "nat \<Rightarrow> nat \<Rightarrow> nat \<Rightarrow> bool" where
  "can_read size_of offset image_size \<longleftrightarrow> offset \<le> image_size \<and> size_of \<le> image_size - offset"

text \<open>The loop over the segments: the offset behind them and the checksum, or a failed bound.\<close>

fun scan_segments :: "esp_format \<Rightarrow> bytes \<Rightarrow> nat \<Rightarrow> nat \<Rightarrow> u8 \<Rightarrow> (nat \<times> u8) option" where
  "scan_segments esp img 0 offset checksum = Some (offset, checksum)"
| "scan_segments esp img (Suc n) offset checksum =
     (if \<not> can_read (esp_segment_header_size esp) offset (length img) then None
      else let segment = take (esp_segment_header_size esp) (drop offset img);
               offset = offset + esp_segment_header_size esp;
               data_len = unat (esp_data_len esp segment)
           in if data_len > length img - offset then None
              else scan_segments esp img n (offset + data_len)
                     (foldl (XOR) checksum (take data_len (drop offset img))))"

definition valid_mainboard_image :: "esp_format \<Rightarrow> bytes \<Rightarrow> bool" where
  "valid_mainboard_image esp img =
     (if \<not> can_read (esp_header_size esp) 0 (length img) then False
      else let header = take (esp_header_size esp) img; count = unat (esp_segments_of esp header)
           in if esp_magic_of esp header \<noteq> esp_magic esp \<or> count = 0 \<or>
                 count > esp_max_segments esp
              then False
              else case scan_segments esp img count (esp_header_size esp) 0xEF of
                     None \<Rightarrow> False
                   | Some (offset, checksum) \<Rightarrow>
                       offset < length img \<and> img ! offset = checksum)"

text \<open>
  The format of the ESP-IDF release the firmware is built with: a header of 24 octets that begins
  with the magic and the segment count, at most 16 segments, and a segment header of load address
  and data length.
\<close>

definition esp_idf_format :: esp_format where
  "esp_idf_format =
     \<lparr>esp_header_size = 24, esp_segment_header_size = 8, esp_max_segments = 16, esp_magic = 0xE9,
      esp_magic_of = (\<lambda>header. header ! 0), esp_segments_of = (\<lambda>header. header ! 1),
      esp_data_len = (\<lambda>segment. read_le32 segment 4)\<rparr>"

section \<open>Damaged packages\<close>

lemma read_le32_append:
  "offset + 4 \<le> length xs \<Longrightarrow> read_le32 (xs @ ys) offset = read_le32 xs offset"
  by (simp add: read_le32_def nth_append)

lemma byte_of_read_le32:
  assumes "k < 4"
  shows "byte_at (read_le32 bs offset) k = bs ! (offset + k)"
proof -
  consider "k = 0" | "k = Suc 0" | "k = 2" | "k = 3" using assms by linarith
  then show ?thesis by cases (simp_all add: read_le32_def)
qed

lemma read_le32_byte_differs:
  assumes "offset \<le> i" "i < offset + 4" "offset + 4 \<le> length bs" "bs ! i \<noteq> b"
  shows "read_le32 (bs[i := b]) offset \<noteq> read_le32 bs offset"
proof -
  have "i - offset < 4" using assms by linarith
  note byte_of_read_le32 [OF this, of "bs[i := b]" offset] byte_of_read_le32 [OF this, of bs offset]
  then show ?thesis using assms by auto
qed

lemma read_le32_other:
  "i < offset \<or> offset + 4 \<le> i \<Longrightarrow> read_le32 (bs[i := b]) offset = read_le32 bs offset"
  by (auto simp: read_le32_def nth_list_update)

lemma crc32_detects_update:
  "i < length bs \<Longrightarrow> bs ! i \<noteq> b \<Longrightarrow> crc32_iso_hdlc (bs[i := b]) \<noteq> crc32_iso_hdlc bs"
  using crc32_detects_byte_error [of "take i bs" "bs ! i" "drop (Suc i) bs" b]
  by (simp add: upd_conv_take_nth_drop id_take_nth_drop [symmetric])

lemma crc32_fold_update:
  assumes "i < length bs" "bs ! i \<noteq> b"
  shows "foldl crc32_byte crc (bs[i := b]) \<noteq> foldl crc32_byte crc bs"
  using crc32_fold_byte [of crc "take i bs" "bs ! i" "drop (Suc i) bs" b] assms
  by (simp add: upd_conv_take_nth_drop id_take_nth_drop [symmetric])

lemma aggregate_file_crc_update:
  assumes "update_package_header_size \<le> length bs" "i < length bs" "bs ! i \<noteq> b"
  shows "aggregate_file_crc (bs[i := b]) = aggregate_file_crc bs \<longleftrightarrow> 28 \<le> i \<and> i < 32"
proof -
  consider "i < 28" | "28 \<le> i" "i < 32" | "32 \<le> i" by linarith
  then show ?thesis
  proof cases
    case 1
    have "foldl crc32_byte 0xFFFFFFFF ((take 28 bs)[i := b]) \<noteq> foldl crc32_byte 0xFFFFFFFF (take 28 bs)"
      using 1 assms by (intro crc32_fold_update) simp_all
    then show ?thesis
      using assms 1 inj_crc32_fold [THEN injD]
      by (auto simp: aggregate_file_crc_def take_update_swap drop_update_cancel)
  next
    case 2
    then show ?thesis using assms by (simp add: aggregate_file_crc_def)
  next
    case 3
    have "foldl crc32_byte crc ((drop 32 bs)[i - 32 := b]) \<noteq> foldl crc32_byte crc (drop 32 bs)" for crc
      using 3 assms by (intro crc32_fold_update) simp_all
    then show ?thesis
      using assms 3 by (simp add: aggregate_file_crc_def drop_update_swap)
  qed
qed

lemma accepted_checksums:
  assumes "parse_update_package beyond bs = Inr header"
  shows "update_package_header_size \<le> length bs"
    "crc32_iso_hdlc (take 24 bs) = read_le32 bs 24" "aggregate_file_crc bs = read_le32 bs 28"
  using assms by (auto simp: parse_update_package_def Let_def split: if_split_asm)

text \<open>
  C8. A damaged firmware package is refused. If an accepted package differs in one byte, anywhere in
  it, the checksums of the header and of the file no longer both fit, and the package is not
  accepted.
\<close>

theorem damaged_package_refused:
  assumes accepted: "parse_update_package beyond package = Inr header"
    and i: "i < length package" "package ! i \<noteq> b"
  shows "\<nexists>header'. parse_update_package beyond (package[i := b]) = Inr header'"
proof
  assume "\<exists>header'. parse_update_package beyond (package[i := b]) = Inr header'"
  then obtain header' where other: "parse_update_package beyond (package[i := b]) = Inr header'" ..
  note ok = accepted_checksums [OF accepted] accepted_checksums [OF other]
  consider "i < 24" | "24 \<le> i" "i < 28" | "28 \<le> i" "i < 32" | "32 \<le> i" by linarith
  then show False
  proof cases
    case 1
    then show False
      using ok crc32_detects_update [of i "take 24 package" b] i
      by (simp add: take_update_swap read_le32_other)
  next
    case 2
    then show False
      using ok read_le32_byte_differs [of 24 i package b] i by simp
  next
    case 3
    then show False
      using ok read_le32_byte_differs [of 28 i package b] aggregate_file_crc_update [OF ok(1) i] i by simp
  next
    case 4
    then show False
      using ok aggregate_file_crc_update [OF ok(1) i] by (simp add: read_le32_other)
  qed
qed

section \<open>Packages as the build tool writes them\<close>

text \<open>
  \<open>tools/package_firmware.py\<close>. Its integers are unbounded; \<open>pack_u32\<close> is
  \<open>struct.pack_into("<I", ...)\<close> of a value in range.
\<close>

definition pack_u32 :: "int \<Rightarrow> bytes" where
  "pack_u32 v = (let w = word_of_int v :: u32
                 in [byte_at w 0, byte_at w 1, byte_at w 2, byte_at w 3])"

definition package_header :: "nat \<Rightarrow> int \<Rightarrow> nat \<Rightarrow> int \<Rightarrow> bytes" where
  "package_header mainboard_length mainboard_version controller_length controller_version =
     pack_u32 0x4D5173EE @
     [1, of_nat update_package_header_size,
      (if mainboard_length > 0 then 1 else 0) OR (if controller_length > 0 then 2 else 0), 0] @
     pack_u32 (int mainboard_length) @ pack_u32 (int controller_length) @
     pack_u32 mainboard_version @ pack_u32 controller_version"

definition build_firmware_package :: "bytes \<Rightarrow> int \<Rightarrow> bytes \<Rightarrow> int \<Rightarrow> bytes option" where
  "build_firmware_package mainboard_image mainboard_version controller_image controller_version =
     (if mainboard_image = [] \<and> controller_image = [] then None
      else if mainboard_image \<noteq> [] \<and> hd mainboard_image \<noteq> 0xE9 then None
      else if length mainboard_image > 0xFFFFFFFF then None
      else if \<not> (0 \<le> mainboard_version \<and> mainboard_version \<le> 0xFFFFFFFF) then None
      else if mainboard_image = [] \<and> mainboard_version \<noteq> 0 then None
      else if length controller_image > 0xFFFFFFFF then None
      else if \<not> (0 \<le> controller_version \<and> controller_version \<le> 0xFFFFFFFF) then None
      else if controller_image = [] \<and> controller_version \<noteq> 0 then None
      else
        let fields = package_header (length mainboard_image) mainboard_version
                       (length controller_image) controller_version;
            header = fields @ pack_u32 (uint (crc32_iso_hdlc fields));
            payload = mainboard_image @ controller_image;
            file_crc_input = header @ payload
        in Some (header @ pack_u32 (uint (crc32_iso_hdlc file_crc_input)) @ payload))"

lemma length_pack_u32 [simp]: "length (pack_u32 v) = 4"
  by (simp add: pack_u32_def Let_def)

lemma length_package_header [simp]: "length (package_header a b c d) = 24"
  by (simp add: package_header_def)

lemma read_le32_pack:
  "length xs = offset \<Longrightarrow> read_le32 (xs @ pack_u32 v @ ys) offset = word_of_int v"
  by (auto simp: read_le32_def pack_u32_def Let_def nth_append)

lemma package_fields:
  fixes m c :: nat and mv cv :: int
  defines "h \<equiv> package_header m mv c cv"
  shows "read_le32 (h @ rest) 0 = 0x4D5173EE" "(h @ rest) ! 4 = 1" "(h @ rest) ! 5 = 32"
    "(h @ rest) ! 6 = (if m > 0 then 1 else 0) OR (if c > 0 then 2 else 0)"
    "read_le32 (h @ rest) 8 = of_nat m" "read_le32 (h @ rest) 12 = of_nat c"
    "read_le32 (h @ rest) 16 = word_of_int mv" "read_le32 (h @ rest) 20 = word_of_int cv"
proof -
  let ?m = "pack_u32 0x4D5173EE"
  let ?b = "[1, 32, (if m > 0 then 1 else 0) OR (if c > 0 then 2 else 0), 0] :: bytes"
  have h: "h @ rest = ?m @ ?b @ pack_u32 (int m) @ pack_u32 (int c) @ pack_u32 mv @ pack_u32 cv @ rest"
    by (simp add: h_def package_header_def)
  show "read_le32 (h @ rest) 0 = 0x4D5173EE" unfolding h
    using read_le32_pack [of "[]" 0] by simp
  show "(h @ rest) ! 4 = 1" "(h @ rest) ! 5 = 32"
    "(h @ rest) ! 6 = (if m > 0 then 1 else 0) OR (if c > 0 then 2 else 0)"
    unfolding h by (simp_all add: nth_append)
  show "read_le32 (h @ rest) 8 = of_nat m" unfolding h
    using read_le32_pack [of "?m @ ?b" 8] by simp
  show "read_le32 (h @ rest) 12 = of_nat c" unfolding h
    using read_le32_pack [of "?m @ ?b @ pack_u32 (int m)" 12] by simp
  show "read_le32 (h @ rest) 16 = word_of_int mv" unfolding h
    using read_le32_pack [of "?m @ ?b @ pack_u32 (int m) @ pack_u32 (int c)" 16] by simp
  show "read_le32 (h @ rest) 20 = word_of_int cv" unfolding h
    using read_le32_pack [of "?m @ ?b @ pack_u32 (int m) @ pack_u32 (int c) @ pack_u32 mv" 20] by simp
qed

lemma aggregate_crc_of_parts:
  "length xs = 28 \<Longrightarrow> length ys = 4 \<Longrightarrow> aggregate_file_crc (xs @ ys @ zs) = crc32_iso_hdlc (xs @ zs)"
  by (simp add: aggregate_file_crc_def crc32_iso_hdlc_def)

lemma package_flags:
  "((if m > 0 then 1 else 0) OR (if c > 0 then 2 else 0) :: u8) AND 3 =
     (if m > 0 then 1 else 0) OR (if c > 0 then 2 else 0)"
  by simp

lemma view_in_inside:
  "offset + count \<le> length bs \<Longrightarrow> view_in beyond bs offset count = take count (drop offset bs)"
  by (rule nth_equalityI) (simp_all add: view_in_def byte_in_def)

lemma parse_accepts:
  assumes "32 \<le> length p" "read_le32 p 0 = 0x4D5173EE" "p ! 4 = 1" "p ! 5 = 32"
    "p ! 6 AND 3 = (if read_le32 p 8 \<noteq> 0 then 1 else 0) OR (if read_le32 p 12 \<noteq> 0 then 2 else 0)"
    "crc32_iso_hdlc (take 24 p) = read_le32 p 24" "aggregate_file_crc p = read_le32 p 28"
    "32 + read_le32 p 8 + read_le32 p 12 \<le> of_nat (length p)"
    "read_le32 p 8 \<noteq> 0 \<Longrightarrow> byte_in beyond p 32 = 0xE9"
  shows "parse_update_package beyond p =
    Inr \<lparr>uh_version = 1, uh_flags = p ! 6, uh_mainboard_size = read_le32 p 8,
      uh_controller_size = read_le32 p 12, uh_mainboard_version = read_le32 p 16,
      uh_controller_version = read_le32 p 20\<rparr>"
proof -
  have "\<not> length p < 32" "\<not> 32 + read_le32 p 8 + read_le32 p 12 > of_nat (length p)"
    "\<not> (read_le32 p 8 \<noteq> 0 \<and> byte_in beyond p 32 \<noteq> 0xE9)" "\<not> (p ! 4 < 1 \<or> p ! 4 > 2)"
    "p ! 5 = of_nat 32"
    using assms by (auto simp: not_less)
  then show ?thesis
    unfolding parse_update_package_def Let_def using assms(2-7)
    by (simp only: if_False of_nat_numeral simp_thms)
qed

lemma built_package:
  fixes mv cv :: int and mainboard controller :: bytes
  defines "h \<equiv> package_header (length mainboard) mv (length controller) cv"
  defines "c \<equiv> pack_u32 (uint (crc32_iso_hdlc h))"
  assumes built: "build_firmware_package mainboard mv controller cv = Some package"
    and fits: "length mainboard + length controller + update_package_header_size < 2 ^ 32"
  shows "package = h @ c @ pack_u32 (uint (crc32_iso_hdlc ((h @ c) @ mainboard @ controller))) @
      mainboard @ controller" (is "_ = ?h @ ?c @ ?f @ _")
    and "length package = 32 + length mainboard + length controller"
    and "unat (32 + of_nat (length mainboard) :: u32) = 32 + length mainboard"
    and "parse_update_package beyond package = Inr \<lparr>uh_version = 1, uh_flags = package ! 6, uh_mainboard_size = of_nat (length mainboard),
    uh_controller_size = of_nat (length controller), uh_mainboard_version = word_of_int mv,
    uh_controller_version = word_of_int cv\<rparr>"
proof -
  have magic: "mainboard \<noteq> [] \<Longrightarrow> hd mainboard = 0xE9"
    using built by (auto simp: build_firmware_package_def Let_def h_def c_def split: if_split_asm)
  show p: "package = ?h @ ?c @ ?f @ mainboard @ controller"
    using built by (auto simp: build_firmware_package_def Let_def h_def c_def split: if_split_asm)
  have fields: "read_le32 package 0 = 0x4D5173EE" "package ! 4 = 1" "package ! 5 = 32"
    "package ! 6 = (if length mainboard > 0 then 1 else 0) OR (if length controller > 0 then 2 else 0)"
    "read_le32 package 8 = of_nat (length mainboard)" "read_le32 package 12 = of_nat (length controller)"
    "read_le32 package 16 = word_of_int mv" "read_le32 package 20 = word_of_int cv"
    unfolding p h_def by (rule package_fields)+
  have crcs: "crc32_iso_hdlc (take 24 package) = read_le32 package 24"
    "aggregate_file_crc package = read_le32 package 28"
    using read_le32_pack [of h 24] read_le32_pack [of "h @ c" 28] aggregate_crc_of_parts [of "h @ c" ?f]
    by (simp_all add: p h_def c_def)
  show length: "length package = 32 + length mainboard + length controller" by (simp add: p h_def c_def)
  have nonzero: "of_nat n \<noteq> (0 :: u32) \<longleftrightarrow> n > 0" if "n < 2 ^ 32" for n :: nat
    using that by (simp add: word_unat_eq_iff unat_of_nat)
  have sizes: "length mainboard < 2 ^ 32" "length controller < 2 ^ 32" using fits by simp_all
  show offset: "unat (32 + of_nat (length mainboard) :: u32) = 32 + length mainboard"
    using fits unat_of_nat [of "32 + length mainboard", where 'a = 32] by simp
  have first: "length mainboard > 0 \<Longrightarrow> byte_in beyond package 32 = 0xE9"
    using magic length by (simp add: byte_in_def) (simp add: p h_def c_def nth_append hd_conv_nth)
  have total: "(32 + of_nat (length mainboard)) + of_nat (length controller) = (of_nat (length package) :: u32)"
    by (simp add: length)
  show "parse_update_package beyond package = Inr \<lparr>uh_version = 1, uh_flags = package ! 6, uh_mainboard_size = of_nat (length mainboard),
    uh_controller_size = of_nat (length controller), uh_mainboard_version = word_of_int mv,
    uh_controller_version = word_of_int cv\<rparr>"
    unfolding fields(5-8) [symmetric]
  proof (rule parse_accepts)
    have present: "read_le32 package 8 \<noteq> 0 \<longleftrightarrow> length mainboard > 0"
      "read_le32 package 12 \<noteq> 0 \<longleftrightarrow> length controller > 0"
      unfolding fields(5,6) using nonzero sizes by blast+
    show "package ! 6 AND 3 =
        (if read_le32 package 8 \<noteq> 0 then 1 else 0) OR (if read_le32 package 12 \<noteq> 0 then 2 else 0)"
      unfolding present fields(4) by (rule package_flags)
    show "32 + read_le32 package 8 + read_le32 package 12 \<le> of_nat (length package)"
      unfolding fields(5,6) total by (rule order_refl)
    show "byte_in beyond package 32 = 0xE9" if "read_le32 package 8 \<noteq> 0"
      using first that unfolding present .
  qed (use length fields(1-3) crcs in simp_all)
qed

text \<open>
  C7. What the build tool packs, the firmware unpacks. Every package the tool writes for images
  that together fit the 32-bit size field is accepted, its header carries the sizes and versions the
  tool was given, and the views the update takes of it are exactly the two images.
\<close>

theorem package_roundtrip:
  assumes built: "build_firmware_package mainboard mv controller cv = Some package"
    and fits: "length mainboard + length controller + update_package_header_size < 2 ^ 32"
  shows "\<exists>header. parse_update_package beyond package = Inr header \<and>
    uh_mainboard_version header = word_of_int mv \<and> uh_controller_version header = word_of_int cv \<and>
    mainboard_view beyond header package = mainboard \<and>
    controller_view beyond header package = controller"
proof -
  let ?header = "\<lparr>uh_version = 1, uh_flags = package ! 6, uh_mainboard_size = of_nat (length mainboard),
    uh_controller_size = of_nat (length controller), uh_mainboard_version = word_of_int mv,
    uh_controller_version = word_of_int cv\<rparr>"
  note facts = built_package [OF built fits]
  have "length mainboard < 2 ^ 32" "length controller < 2 ^ 32" using fits by simp_all
  then have "mainboard_view beyond ?header package = mainboard"
    "controller_view beyond ?header package = controller"
    using facts(2,3)
    by (simp_all add: mainboard_view_def controller_view_def Let_def view_in_inside unat_of_nat)
       (simp_all add: facts(1))
  then show ?thesis using facts(4) [of beyond] by auto
qed

definition sample_package :: bytes where
  "sample_package = the (build_firmware_package [0xE9, 1, 2] 5 [0x41, 0x42] 7)"

lemma sample_package_built:
  "build_firmware_package [0xE9, 1, 2] 5 [0x41, 0x42] 7 = Some sample_package"
  by (simp add: sample_package_def build_firmware_package_def Let_def)

theorem package_roundtrip_witness:
  "\<exists>header. parse_update_package (\<lambda>_. 0) sample_package = Inr header \<and>
     controller_view (\<lambda>_. 0) header sample_package = [0x41, 0x42]"
  using package_roundtrip [OF sample_package_built, of "\<lambda>_. 0"] by auto

theorem damaged_package_refused_witness:
  "\<nexists>header. parse_update_package (\<lambda>_. 0) (sample_package[36 := 0x40]) = Inr header"
proof -
  note facts = built_package [OF sample_package_built]
  obtain a b c where parts: "length a = 24" "length b = 4" "length c = 4"
    "sample_package = a @ b @ c @ [0xE9, 1, 2] @ [0x41, 0x42]"
    by (rule that [OF _ _ _ facts(1)]) simp_all
  have "length sample_package = 37" "sample_package ! 36 = 0x42"
    unfolding parts(4) using parts(1-3) by (simp_all add: nth_append)
  then show ?thesis
    using damaged_package_refused [OF facts(4) [of "\<lambda>_. 0"], of 36 "0x40"] by simp
qed


section \<open>Images inside the file\<close>

text \<open>
  An accepted package whose sizes do not wrap around holds both images. If the announced sizes
  and the header together stay below 2^32, the two images lie one behind the other inside the loaded
  file, the mainboard image begins with the ESP magic, and the flags say which images are there.
\<close>

theorem accepted_images_inside:
  assumes accepted: "parse_update_package beyond package = Inr header"
    and sizes: "unat (uh_mainboard_size header) + unat (uh_controller_size header) +
      update_package_header_size < 2 ^ 32" "length package < 2 ^ 32"
  shows "mainboard_view beyond header package =
      take (unat (uh_mainboard_size header)) (drop update_package_header_size package) \<and>
    length (mainboard_view beyond header package) = unat (uh_mainboard_size header) \<and>
    controller_view beyond header package = take (unat (uh_controller_size header))
      (drop (update_package_header_size + unat (uh_mainboard_size header)) package) \<and>
    length (controller_view beyond header package) = unat (uh_controller_size header) \<and>
    (uh_mainboard_size header \<noteq> 0 \<longrightarrow> hd (mainboard_view beyond header package) = 0xE9) \<and>
    uh_flags header AND 3 = (if uh_mainboard_size header \<noteq> 0 then 1 else 0) OR
      (if uh_controller_size header \<noteq> 0 then 2 else 0)"
proof -
  let ?m = "uh_mainboard_size header" and ?c = "uh_controller_size header"
  have facts: "\<not> 32 + ?m + ?c > of_nat (length package)" "\<not> length package < 32"
    "?m \<noteq> 0 \<Longrightarrow> byte_in beyond package 32 = 0xE9"
    "uh_flags header AND 3 = (if ?m \<noteq> 0 then 1 else 0) OR (if ?c \<noteq> 0 then 2 else 0)"
    using accepted by (auto simp: parse_update_package_def Let_def split: if_split_asm)
  have offset: "unat (32 + ?m) = 32 + unat ?m"
    using sizes(1) unat_of_nat [of "32 + unat ?m", where 'a = 32] by simp
  have "unat (32 + ?m + ?c) = 32 + unat ?m + unat ?c"
    using sizes(1) unat_of_nat [of "32 + unat ?m + unat ?c", where 'a = 32] by simp
  then have inside: "32 + unat ?m + unat ?c \<le> length package"
    using facts(1) sizes(2) by (simp add: not_less word_le_nat_alt unat_of_nat)
  have "hd (mainboard_view beyond header package) = 0xE9" if "?m \<noteq> 0"
  proof -
    have "unat ?m > 0" using that by (simp add: unat_gt_0)
    then show ?thesis
      using facts(3) [OF that] by (simp add: mainboard_view_def view_in_def hd_map upt_conv_Cons)
  qed
  then show ?thesis
    using inside offset facts(4)
    by (simp add: mainboard_view_def controller_view_def Let_def view_in_inside)
qed

theorem accepted_images_inside_witness:
  "\<exists>header. parse_update_package (\<lambda>_. 0) sample_package = Inr header \<and>
     length (controller_view (\<lambda>_. 0) header sample_package) = 2"
proof -
  note facts = built_package [OF sample_package_built]
  show ?thesis
    using accepted_images_inside [OF facts(4), of "\<lambda>_. 0"] facts(2) facts(4) [of "\<lambda>_. 0"] by simp
qed

text \<open>
  The sum of the sizes is computed in 32 bits, as the tests of the package demand: a package of a
  bare header that announces 4294967264 octets of controller image is accepted, and the view of that
  image lies beyond the file.
\<close>

definition wrapping_package :: bytes where
  "wrapping_package =
     (let fields = package_header 0 0 0xFFFFFFE0 0; header = fields @ pack_u32 (uint (crc32_iso_hdlc fields))
      in header @ pack_u32 (uint (crc32_iso_hdlc header)))"

lemma wrapping_sizes_accepted:
  "\<exists>header. parse_update_package beyond wrapping_package = Inr header \<and> length wrapping_package = 32 \<and>
     uh_controller_size header = 0xFFFFFFE0"
proof -
  let ?h = "package_header 0 0 0xFFFFFFE0 0"
  let ?c = "pack_u32 (uint (crc32_iso_hdlc ?h))"
  let ?f = "pack_u32 (uint (crc32_iso_hdlc (?h @ ?c)))"
  have p: "wrapping_package = ?h @ ?c @ ?f" by (simp add: wrapping_package_def Let_def)
  have fields: "read_le32 wrapping_package 0 = 0x4D5173EE" "wrapping_package ! 4 = 1"
    "wrapping_package ! 5 = 32"
    "wrapping_package ! 6 = (if (0::nat) > 0 then 1 else 0) OR (if (0xFFFFFFE0::nat) > 0 then 2 else 0)"
    "read_le32 wrapping_package 8 = of_nat 0" "read_le32 wrapping_package 12 = of_nat 0xFFFFFFE0"
    unfolding p by (rule package_fields)+
  have crcs: "crc32_iso_hdlc (take 24 wrapping_package) = read_le32 wrapping_package 24"
    "aggregate_file_crc wrapping_package = read_le32 wrapping_package 28"
    using read_le32_pack [of ?h 24] read_le32_pack [of "?h @ ?c" 28 _ "[]"]
      aggregate_crc_of_parts [of "?h @ ?c" ?f "[]"]
    by (simp_all add: p)
  have length: "length wrapping_package = 32" by (simp add: p)
  have "parse_update_package beyond wrapping_package =
    Inr \<lparr>uh_version = 1, uh_flags = wrapping_package ! 6, uh_mainboard_size = read_le32 wrapping_package 8,
      uh_controller_size = read_le32 wrapping_package 12,
      uh_mainboard_version = read_le32 wrapping_package 16,
      uh_controller_version = read_le32 wrapping_package 20\<rparr>"
    by (rule parse_accepts) (use crcs in \<open>simp_all add: fields(1-3) length, simp_all add: fields\<close>)
  then show ?thesis using length fields by simp
qed

section \<open>The structure of an accepted image\<close>

text \<open>A segment is its header and its data, whose length the header gives.\<close>

definition image_segment :: "esp_format \<Rightarrow> bytes \<times> bytes \<Rightarrow> bool" where
  "image_segment esp seg \<longleftrightarrow> length (fst seg) = esp_segment_header_size esp \<and>
     length (snd seg) = unat (esp_data_len esp (fst seg))"

definition segment_bytes :: "(bytes \<times> bytes) list \<Rightarrow> bytes" where
  "segment_bytes segs = concat (map (\<lambda>seg. fst seg @ snd seg) segs)"

abbreviation segment_data :: "(bytes \<times> bytes) list \<Rightarrow> bytes" where
  "segment_data segs \<equiv> concat (map snd segs)"

lemma segment_bytes_simps [simp]:
  "segment_bytes [] = []" "segment_bytes (seg # segs) = fst seg @ snd seg @ segment_bytes segs"
  by (simp_all add: segment_bytes_def)

lemma scan_segments_complete:
  "\<forall>seg \<in> set segs. image_segment esp seg \<Longrightarrow> img = before @ segment_bytes segs @ rest \<Longrightarrow>
     scan_segments esp img (length segs) (length before) checksum =
       Some (length before + length (segment_bytes segs), foldl (XOR) checksum (segment_data segs))"
proof (induction segs arbitrary: before checksum)
  case Nil
  then show ?case by simp
next
  case (Cons seg segs)
  have seg: "length (fst seg) = esp_segment_header_size esp"
    "length (snd seg) = unat (esp_data_len esp (fst seg))"
    using Cons.prems(1) by (simp_all add: image_segment_def)
  have "scan_segments esp img (length segs) (length (before @ fst seg @ snd seg))
      (foldl (XOR) checksum (snd seg)) =
    Some (length (before @ fst seg @ snd seg) + length (segment_bytes segs),
      foldl (XOR) (foldl (XOR) checksum (snd seg)) (segment_data segs))"
    using Cons.prems by (intro Cons.IH) simp_all
  then show ?case
    using Cons.prems(2) by (simp add: can_read_def Let_def add.assoc flip: seg)
qed

lemma scan_segments_sound:
  "scan_segments esp img n offset checksum = Some (offset', checksum') \<Longrightarrow> offset \<le> length img \<Longrightarrow>
     \<exists>segs rest. length segs = n \<and> (\<forall>seg \<in> set segs. image_segment esp seg) \<and>
       img = take offset img @ segment_bytes segs @ rest \<and>
       offset' = offset + length (segment_bytes segs) \<and>
       checksum' = foldl (XOR) checksum (segment_data segs)"
proof (induction n arbitrary: offset checksum)
  case 0
  then show ?case by (intro exI [of _ "[]"] exI [of _ "drop offset img"]) simp
next
  case (Suc n)
  let ?size = "esp_segment_header_size esp"
  let ?header = "take ?size (drop offset img)"
  let ?len = "unat (esp_data_len esp ?header)"
  let ?data = "take ?len (drop (offset + ?size) img)"
  have bounds: "offset + ?size + ?len \<le> length img"
    and scan: "scan_segments esp img n (offset + ?size + ?len) (foldl (XOR) checksum ?data) =
      Some (offset', checksum')"
    using Suc.prems by (auto simp: can_read_def Let_def split: if_split_asm)
  obtain segs rest where segs: "length segs = n" "\<forall>seg \<in> set segs. image_segment esp seg"
    "img = take (offset + ?size + ?len) img @ segment_bytes segs @ rest"
    "offset' = offset + ?size + ?len + length (segment_bytes segs)"
    "checksum' = foldl (XOR) (foldl (XOR) checksum ?data) (segment_data segs)"
    using Suc.IH [OF scan bounds] by blast
  have seg: "image_segment esp (?header, ?data)" "length ?header = ?size" "length ?data = ?len"
    using bounds by (simp_all add: image_segment_def min_absorb1)
  have "take (offset + ?size + ?len) img = take offset img @ ?header @ ?data"
    by (simp add: take_add add.commute)
  then have "img = take offset img @ segment_bytes ((?header, ?data) # segs) @ rest"
    using segs(3) by simp
  moreover have "offset' = offset + length (segment_bytes ((?header, ?data) # segs))"
    unfolding segs(4) segment_bytes_simps fst_conv snd_conv length_append seg(2,3) by simp
  ultimately show ?case
    using segs(1,2,5) seg(1) by (intro exI [of _ "(?header, ?data) # segs"] exI [of _ rest]) simp
qed

text \<open>
  C9. The image check accepts exactly the well-formed images: a header with the magic and a segment
  count from one to the maximum, as many segments of a header and as much data as it says, and then
  the exclusive or of all data, seeded with 0xEF. What follows is not looked at.
\<close>

theorem valid_image_structure:
  "valid_mainboard_image esp img \<longleftrightarrow>
     (\<exists>header segs rest. img = header @ segment_bytes segs @
        foldl (XOR) 0xEF (segment_data segs) # rest \<and>
        length header = esp_header_size esp \<and> esp_magic_of esp header = esp_magic esp \<and>
        length segs = unat (esp_segments_of esp header) \<and> segs \<noteq> [] \<and>
        length segs \<le> esp_max_segments esp \<and> (\<forall>seg \<in> set segs. image_segment esp seg))"
    (is "?valid \<longleftrightarrow> ?structure")
proof
  assume valid: ?valid
  let ?header = "take (esp_header_size esp) img"
  have header: "esp_header_size esp \<le> length img" "esp_magic_of esp ?header = esp_magic esp"
    "unat (esp_segments_of esp ?header) \<noteq> 0" "unat (esp_segments_of esp ?header) \<le> esp_max_segments esp"
    using valid by (auto simp: valid_mainboard_image_def Let_def can_read_def split: if_split_asm)
  obtain offset checksum where
    scan: "scan_segments esp img (unat (esp_segments_of esp ?header)) (esp_header_size esp) 0xEF =
      Some (offset, checksum)" and last: "offset < length img" "img ! offset = checksum"
    using valid by (auto simp: valid_mainboard_image_def Let_def split: if_split_asm option.split_asm)
  obtain segs rest where segs: "length segs = unat (esp_segments_of esp ?header)"
    "\<forall>seg \<in> set segs. image_segment esp seg" "img = ?header @ segment_bytes segs @ rest"
    "offset = esp_header_size esp + length (segment_bytes segs)"
    "checksum = foldl (XOR) 0xEF (segment_data segs)"
    using scan_segments_sound [OF scan header(1)] by blast
  have length: "length (?header @ segment_bytes segs) = offset"
    using segs(4) header(1) by simp
  have "rest \<noteq> [] \<and> hd rest = checksum"
  proof -
    have split: "img = (?header @ segment_bytes segs) @ rest" using segs(3) by simp
    have "rest = drop offset img" unfolding length [symmetric] by (subst split) simp
    then show ?thesis using last by (simp add: hd_drop_conv_nth)
  qed
  then have "rest = foldl (XOR) 0xEF (segment_data segs) # tl rest"
    using segs(5) by (metis list.collapse)
  then show ?structure
    using segs(1-3) header by (intro exI [of _ ?header] exI [of _ segs] exI [of _ "tl rest"]) auto
next
  assume ?structure
  then obtain header segs rest where
    img: "img = header @ segment_bytes segs @ foldl (XOR) 0xEF (segment_data segs) # rest"
    and header: "length header = esp_header_size esp" "esp_magic_of esp header = esp_magic esp"
      "length segs = unat (esp_segments_of esp header)" "segs \<noteq> []"
      "length segs \<le> esp_max_segments esp" "\<forall>seg \<in> set segs. image_segment esp seg"
    by blast
  have taken: "take (esp_header_size esp) img = header"
    unfolding header(1) [symmetric] img by simp
  have "scan_segments esp img (length segs) (length header) 0xEF =
    Some (length header + length (segment_bytes segs), foldl (XOR) 0xEF (segment_data segs))"
    using header(6) img by (rule scan_segments_complete)
  moreover have "can_read (esp_header_size esp) 0 (length img)"
    by (simp add: can_read_def img header(1))
  moreover have "length header + length (segment_bytes segs) < length img"
    "img ! (length header + length (segment_bytes segs)) = foldl (XOR) 0xEF (segment_data segs)"
    by (simp_all add: img nth_append)
  moreover have "unat (esp_segments_of esp header) > 0"
    using header(4) by (simp flip: header(3))
  ultimately show ?valid
    using header by (simp add: valid_mainboard_image_def taken Let_def)
qed

text \<open>
  The images of the ESP tools are padded with zeros so that the checksum is the last octet of a block
  of 16. The check expects it directly behind the last segment: an image with one segment of four
  octets is refused as the tools build it and accepted without the padding.
\<close>

definition one_segment_image :: "nat \<Rightarrow> bytes" where
  "one_segment_image padding =
     [0xE9, 1] @ replicate 22 0 @ [0, 0, 0, 0, 4, 0, 0, 0] @ [1, 2, 4, 8] @
     replicate padding 0 @ [0xE0]"

lemma padded_image_refused:
  "length (one_segment_image 11) = 48"
  "\<not> valid_mainboard_image esp_idf_format (one_segment_image 11)"
  "valid_mainboard_image esp_idf_format (one_segment_image 0)"
  by code_simp+


theorem valid_image_structure_witness:
  "\<exists>header segs rest. one_segment_image 0 = header @ segment_bytes segs @
     foldl (XOR) 0xEF (segment_data segs) # rest \<and> length header = 24 \<and> segs \<noteq> []"
proof -
  note parts = valid_image_structure [of esp_idf_format "one_segment_image 0", THEN iffD1,
      OF padded_image_refused(3)]
  have "esp_header_size esp_idf_format = 24" by (simp add: esp_idf_format_def)
  then show ?thesis using parts by (elim exE) (intro exI, auto)
qed

end
