(* ===== verification/Ports.thy ===== *)
theory Ports
  imports Frame
begin

text \<open>
  Services reach files, transports and other services through port objects. A model of a service
  keeps the history of its port calls; the answer of a call is given by the environment, a function
  of the history before the call and of the call itself, so the answers may depend on everything
  that happened. This theory holds the counting of calls in a history and the big-endian numbers of
  the transfer protocols.
\<close>

section \<open>Histories of calls\<close>

type_synonym 'c answers = "'c list \<Rightarrow> 'c \<Rightarrow> bool"

definition count_calls :: "('c \<Rightarrow> bool) \<Rightarrow> 'c list \<Rightarrow> nat" where
  "count_calls P h = length (filter P h)"

lemma count_calls_simps [simp]:
  "count_calls P [] = 0"
  "count_calls P (h @ h') = count_calls P h + count_calls P h'"
  "count_calls P (c # h) = (if P c then 1 else 0) + count_calls P h"
  by (simp_all add: count_calls_def)

text \<open>The calls of a history that the environment answered positively.\<close>

fun successes :: "'c answers \<Rightarrow> 'c list \<Rightarrow> 'c list \<Rightarrow> 'c list" where
  "successes env h [] = []"
| "successes env h (c # cs) = (if env h c then [c] else []) @ successes env (h @ [c]) cs"

abbreviation succeeded :: "'c answers \<Rightarrow> 'c list \<Rightarrow> 'c list" where
  "succeeded env h \<equiv> successes env [] h"

lemma successes_append [simp]:
  "successes env h (cs @ ds) = successes env h cs @ successes env (h @ cs) ds"
  by (induction cs arbitrary: h) simp_all

lemma succeeded_snoc [simp]:
  "succeeded env (h @ [c]) = succeeded env h @ (if env h c then [c] else [])"
  by simp

section \<open>Big-endian numbers\<close>

definition encode_u32 :: "u32 \<Rightarrow> bytes" where
  "encode_u32 v = [byte_at v 3, byte_at v 2, byte_at v 1, byte_at v 0]"

definition decode_be32 :: "bytes \<Rightarrow> u32" where
  "decode_be32 bs = be32 (bs ! 0) (bs ! 1) (bs ! 2) (bs ! 3)"

lemma length_encode_u32 [simp]: "length (encode_u32 v) = 4"
  by (simp add: encode_u32_def)

lemma decode_encode_u32 [simp]: "decode_be32 (encode_u32 v @ rest) = v"
  by (simp add: decode_be32_def encode_u32_def)

lemma drop_encode_u32 [simp]: "drop 4 (encode_u32 v @ rest) = rest"
  by (simp add: encode_u32_def)

lemma encode_u32_inject [simp]: "encode_u32 v = encode_u32 w \<longleftrightarrow> v = w"
  by (metis append_Nil2 decode_encode_u32)

section \<open>Packet types of a family\<close>

text \<open>\<open>core::protocol::family_packet\<close>.\<close>

definition family_packet :: "u8 \<Rightarrow> u8 \<Rightarrow> u8" where
  "family_packet family operation = (family AND 0xF0) OR (operation AND 0x0F)"

end
