(* ===== verification/Update_Service.thy ===== *)
theory Update_Service
  imports Update_Package Ports Transfer_Paths "HOL-Library.Monad_Syntax"
begin

text \<open>
  The firmware update, \<open>components/application/src/update\<close>: validation of the package on the card,
  its application to the inactive partition and the staged controller image, the published phases,
  the monitor of the staged image, deletion with recovery, the trigger, the direct updates of the
  web interface and the start of the update task. The services share one datatype of port calls,
  answered by an environment record. The lemmas show what must have happened before the boot
  partition is switched or the board restarts, and the bounds of phases, progress and retries.
\<close>

section \<open>The ports\<close>

abbreviation aggregate_path :: string where
  "aggregate_path \<equiv> physical_sd_path ''/firmware.bin''"

abbreviation partial_aggregate_path :: string where
  "partial_aggregate_path \<equiv> physical_sd_path ''/firmware.bin.part''"

abbreviation controller_image_path :: string where
  "controller_image_path \<equiv> physical_sd_path ''/lpc1768.bin''"

datatype update_load_result = Load_absent | Load_allocation | Load_short_read | Load_ok bytes

datatype update_call =
    Up_remove_partial string | Up_clear_attributes string | Up_load_aggregate string
  | Up_aggregate_opened | Up_remove_aggregate string | Up_publish_error
  | Up_broadcast_validation_error u64 | Up_send_controller_packet u8 bytes
  | Up_valid_image bytes | Up_report_header update_header bytes
  | Up_publish_phase u8 | Up_select_partition | Up_begin_write u32 | Up_write bytes
  | Up_finalize_write | Up_select_boot | Up_abort_write | Up_stage_controller string bytes
  | Up_persist_phase_direct u8 | Up_send_controller_reset | Up_restart

record update_env =
  up_load :: "update_call list \<Rightarrow> update_load_result"
  up_answer :: "update_call answers"

section \<open>Validation\<close>

definition reject_format :: "u64 \<Rightarrow> update_call list" where
  "reject_format now =
     [Up_broadcast_validation_error now, Up_remove_aggregate aggregate_path, Up_publish_error]"

text \<open>
  The result is the calls of this run and the validated package. The image check is a call of the
  port whose answer depends on the image alone.
\<close>

definition validate_update ::
    "(nat \<Rightarrow> u8) \<Rightarrow> (bytes \<Rightarrow> bool) \<Rightarrow> update_env \<Rightarrow> update_call list \<Rightarrow> u64 \<Rightarrow>
      update_call list \<times> (update_header \<times> bytes) option" where
  "validate_update beyond valid_image env h now =
     (let calls = [Up_remove_partial partial_aggregate_path, Up_clear_attributes aggregate_path];
          loaded = up_load env (h @ calls);
          calls = calls @ [Up_load_aggregate aggregate_path]
      in case loaded of
           Load_absent \<Rightarrow>
             (calls @ [Up_send_controller_packet 0xA2 (octets ''reset'' @ [0])], None)
         | Load_allocation \<Rightarrow> (calls @ [Up_aggregate_opened, Up_publish_error], None)
         | Load_short_read \<Rightarrow>
             (calls @ [Up_aggregate_opened, Up_remove_aggregate aggregate_path, Up_publish_error],
              None)
         | Load_ok package \<Rightarrow>
             let calls = calls @ [Up_aggregate_opened]
             in (case parse_update_package beyond package of
                   Inl _ \<Rightarrow> (calls @ reject_format now, None)
                 | Inr header \<Rightarrow>
                     let calls =
                           calls @ [Up_report_header header (take update_package_header_size package)]
                     in if uh_mainboard_size header \<noteq> 0
                        then let img = mainboard_view beyond header package;
                                 calls = calls @ [Up_valid_image img]
                             in if \<not> valid_image img then (calls @ reject_format now, None)
                                else (calls, Some (header, package))
                        else (calls, Some (header, package))))"

section \<open>Application\<close>

definition stage_controller :: "(nat \<Rightarrow> u8) \<Rightarrow> update_header \<Rightarrow> bytes \<Rightarrow> update_call list" where
  "stage_controller beyond header package =
     (if uh_controller_size header = 0 then []
      else [Up_stage_controller controller_image_path (controller_view beyond header package)])"

definition fail_mainboard :: "bool \<Rightarrow> update_call list" where
  "fail_mainboard write_active =
     (if write_active then [Up_abort_write] else []) @ [Up_publish_phase 3]"

definition apply_update ::
    "(nat \<Rightarrow> u8) \<Rightarrow> update_env \<Rightarrow> update_call list \<Rightarrow> update_header \<Rightarrow> bytes \<Rightarrow>
      update_call list \<times> bool" where
  "apply_update beyond env h header package =
     (if uh_mainboard_size header = 0
      then (stage_controller beyond header package @
              [Up_remove_aggregate aggregate_path, Up_send_controller_reset], True)
      else
        let calls = [Up_publish_phase 1];
            ok = up_answer env (h @ calls) Up_select_partition; calls = calls @ [Up_select_partition]
        in if \<not> ok then (calls @ fail_mainboard False, False) else
        let begin_write = Up_begin_write (uh_mainboard_size header);
            ok = up_answer env (h @ calls) begin_write; calls = calls @ [begin_write]
        in if \<not> ok then (calls @ fail_mainboard False, False) else
        let write = Up_write (mainboard_view beyond header package);
            ok = up_answer env (h @ calls) write; calls = calls @ [write]
        in if \<not> ok then (calls @ fail_mainboard True, False) else
        let ok = up_answer env (h @ calls) Up_finalize_write; calls = calls @ [Up_finalize_write]
        in if \<not> ok then (calls @ fail_mainboard True, False) else
        let ok = up_answer env (h @ calls) Up_select_boot; calls = calls @ [Up_select_boot]
        in if \<not> ok then (calls @ fail_mainboard False, False)
           else (calls @ stage_controller beyond header package @
                   [Up_persist_phase_direct 2, Up_remove_aggregate aggregate_path, Up_restart], True))"

text \<open>One run of the update task, with the image check of the mainboard.\<close>

definition process_update_once ::
    "(nat \<Rightarrow> u8) \<Rightarrow> esp_format \<Rightarrow> update_env \<Rightarrow> update_call list \<Rightarrow> update_call list" where
  "process_update_once beyond esp env h =
     (let (calls, validated) = validate_update beyond (valid_mainboard_image esp) env h 0
      in case validated of
           None \<Rightarrow> calls
         | Some (header, package) \<Rightarrow>
             calls @ fst (apply_update beyond env (h @ calls) header package))"

section \<open>Phases\<close>

record update_status =
  us_phase :: u8
  us_progress :: u8

datatype phase_call = Phase_persist u8 | Phase_broadcast u8 string

record update_phases =
  ph_pending :: "u8 list"
  ph_persisted :: u8
  ph_volatile :: update_status
  ph_last_broadcast :: "u64 option"
  ph_success_deadline :: "u64 option"

definition initial_phases :: update_phases where
  "initial_phases =
     \<lparr>ph_pending = [], ph_persisted = 0, ph_volatile = \<lparr>us_phase = 0, us_progress = 0\<rparr>,
      ph_last_broadcast = None, ph_success_deadline = None\<rparr>"

text \<open>Persisting may fail; \<open>stored\<close> is its answer.\<close>

definition persist_phase :: "bool \<Rightarrow> u8 \<Rightarrow> update_phases \<Rightarrow> update_phases \<times> phase_call list" where
  "persist_phase stored phase p =
     ((if stored then p\<lparr>ph_persisted := phase\<rparr> else p), [Phase_persist phase])"

definition broadcast_limited ::
    "string \<Rightarrow> u64 \<Rightarrow> update_phases \<Rightarrow> update_phases \<times> phase_call list" where
  "broadcast_limited message now p =
     (case ph_last_broadcast p of
        Some since \<Rightarrow>
          if now \<ge> since \<and> now - since < 1000 then (p, [])
          else (p\<lparr>ph_last_broadcast := Some now\<rparr>, [Phase_broadcast 0x90 message])
      | None \<Rightarrow> (p\<lparr>ph_last_broadcast := Some now\<rparr>, [Phase_broadcast 0x90 message]))"

abbreviation validation_error :: string where
  "validation_error \<equiv>
     ''Error: The firmware file format is incorrect or it has been damaged. Please re-upload''"

abbreviation previous_failure_error :: string where
  "previous_failure_error \<equiv>
     ''Error: Previous firmware upgrade failed. Please re-upload the firmware package.''"

definition reconcile_boot ::
    "bool \<Rightarrow> u8 \<Rightarrow> u64 \<Rightarrow> update_phases \<Rightarrow> update_phases \<times> phase_call list" where
  "reconcile_boot stored persisted now p =
     (let p = p\<lparr>ph_persisted := persisted\<rparr>
      in if persisted = 3 then broadcast_limited previous_failure_error now p
         else if persisted = 4 then persist_phase stored 0 p else (p, []))"

definition aggregate_opened :: "bool \<Rightarrow> update_phases \<Rightarrow> update_phases \<times> phase_call list" where
  "aggregate_opened stored p =
     (if ph_persisted p = 3 then persist_phase stored 0 p else (p, []))"

definition publish_phase :: "u8 \<Rightarrow> update_phases \<Rightarrow> update_phases" where
  "publish_phase phase p =
     (let p = p\<lparr>ph_volatile := \<lparr>us_phase = phase, us_progress = 0\<rparr>, ph_success_deadline := None\<rparr>
      in if length (ph_pending p) < 4 then p\<lparr>ph_pending := ph_pending p @ [phase]\<rparr> else p)"

definition process_pending :: "bool \<Rightarrow> update_phases \<Rightarrow> update_phases \<times> phase_call list" where
  "process_pending stored p =
     (if ph_pending p = [] then (p, [])
      else let newest = last (ph_pending p) in persist_phase stored newest (p\<lparr>ph_pending := []\<rparr>))"

definition broadcast_validation_error :: "u64 \<Rightarrow> update_phases \<Rightarrow> update_phases \<times> phase_call list" where
  "broadcast_validation_error now p = broadcast_limited validation_error now p"

definition set_controller_progress :: "u32 \<Rightarrow> u32 \<Rightarrow> update_phases \<Rightarrow> update_phases" where
  "set_controller_progress index frame_count p =
     (if us_phase (ph_volatile p) \<noteq> 2 \<or> frame_count = 0 then p
      else let rounded = (100 * ucast index + ucast (frame_count div 2)) div ucast frame_count :: u64
           in p\<lparr>ph_volatile := (ph_volatile p)\<lparr>us_progress := ucast (min rounded 100)\<rparr>\<rparr>)"

definition phases_controller_completed :: "u64 \<Rightarrow> update_phases \<Rightarrow> update_phases" where
  "phases_controller_completed now p =
     (let p = publish_phase 4 p
      in p\<lparr>ph_volatile := (ph_volatile p)\<lparr>us_progress := 100\<rparr>, ph_success_deadline := Some (now + 3000)\<rparr>)"

definition phases_tick :: "u64 \<Rightarrow> update_phases \<Rightarrow> update_phases" where
  "phases_tick now p =
     (case ph_success_deadline p of
        Some deadline \<Rightarrow>
          if now \<ge> deadline
          then p\<lparr>ph_volatile := \<lparr>us_phase = 0, us_progress = 0\<rparr>, ph_success_deadline := None\<rparr> else p
      | None \<Rightarrow> p)"

definition phases_status :: "update_phases \<Rightarrow> update_status" where
  "phases_status p =
     (if us_phase (ph_volatile p) \<noteq> 0 then ph_volatile p
      else if ph_persisted p = 3 then \<lparr>us_phase = 3, us_progress = 0\<rparr>
      else \<lparr>us_phase = 0, us_progress = 0\<rparr>)"

section \<open>The monitor of the staged image\<close>

record monitor_env =
  me_staged :: bool
  me_firmware_active :: bool
  me_configuration_active :: bool
  me_factory_active :: bool

datatype monitor_call =
    Mon_controller_reset | Mon_publish_error | Mon_remove_staged string | Mon_completed u64

record controller_monitor =
  cm_next_check :: u64
  cm_started :: bool

definition controller_monitor_start :: "u64 \<Rightarrow> controller_monitor \<Rightarrow> controller_monitor" where
  "controller_monitor_start now m = m\<lparr>cm_next_check := now, cm_started := True\<rparr>"

text \<open>The loop that finds the next check after now; the sum is computed in 64 bits.\<close>

partial_function (option) advance_check :: "u64 \<Rightarrow> u64 \<Rightarrow> u64 option" where
  "advance_check now t =
     (let t = t + 5000 in if t \<le> now then advance_check now t else Some t)"

definition transfer_channels_idle :: "monitor_env \<Rightarrow> bool" where
  "transfer_channels_idle env \<longleftrightarrow>
     \<not> me_firmware_active env \<and> \<not> me_configuration_active env \<and> \<not> me_factory_active env"

definition monitor_tick ::
    "monitor_env \<Rightarrow> u64 \<Rightarrow> controller_monitor \<Rightarrow> (controller_monitor \<times> monitor_call list) option" where
  "monitor_tick env now m =
     (if \<not> cm_started m \<or> now < cm_next_check m then Some (m, [])
      else do {
        t \<leftarrow> advance_check now (cm_next_check m);
        Some (m\<lparr>cm_next_check := t\<rparr>,
              if me_staged env \<and> transfer_channels_idle env then [Mon_controller_reset] else [])
      })"

definition publish_failure_if_available :: "monitor_env \<Rightarrow> monitor_call list" where
  "publish_failure_if_available env = (if me_staged env then [Mon_publish_error] else [])"

definition monitor_transfer_failed :: "monitor_env \<Rightarrow> monitor_call list" where
  "monitor_transfer_failed env = publish_failure_if_available env"

definition monitor_transfer_cancelled :: "monitor_call list" where
  "monitor_transfer_cancelled = [Mon_publish_error]"

definition monitor_transfer_timed_out :: "bool \<Rightarrow> monitor_env \<Rightarrow> monitor_call list" where
  "monitor_transfer_timed_out qualifying env =
     (if qualifying then publish_failure_if_available env else [])"

definition monitor_controller_completed :: "monitor_env \<Rightarrow> u64 \<Rightarrow> monitor_call list" where
  "monitor_controller_completed env now =
     (if me_staged env then [Mon_remove_staged controller_image_path] else []) @ [Mon_completed now]"

section \<open>Deletion\<close>

datatype delete_result =
  Delete_success | Delete_busy | Delete_permission_denied | Delete_read_only | Delete_other_failure

datatype delete_call =
    Del_unlink string | Del_clear_attributes string | Del_set_mode string u32
  | Del_report_mode_failure string | Del_report_unrecoverable string | Del_delay u32
  | Del_broadcast u8 string

record delete_env =
  de_unlink :: "delete_call list \<Rightarrow> delete_result"
  de_answer :: "delete_call answers"

definition recover_permissions ::
    "delete_env \<Rightarrow> string \<Rightarrow> delete_result \<Rightarrow> delete_call list \<Rightarrow> delete_call list \<times> bool" where
  "recover_permissions env path failure h =
     (let adjusted = de_answer env h (Del_clear_attributes path); h = h @ [Del_clear_attributes path];
          (h, adjusted) =
            (if \<not> adjusted \<and> failure = Delete_permission_denied
             then let call = Del_set_mode path 438; adjusted = de_answer env h call; h = h @ [call]
                  in (if \<not> adjusted then h @ [Del_report_mode_failure path] else h, adjusted)
             else (h, adjusted))
      in (if adjusted then h @ [Del_delay 100] else h, adjusted))"


definition deletion_failure_message :: "string \<Rightarrow> string" where
  "deletion_failure_message path =
     ''Error: failed to delete ['' @ path @ ''], please delete manually.'' @ [CHR 0x0D, CHR 0x0A]"

definition broadcast_failure :: "string \<Rightarrow> delete_call" where
  "broadcast_failure path = Del_broadcast 0x90 (deletion_failure_message path)"

text \<open>The attempts from the given one on; \<open>rest\<close> attempts follow it.\<close>

fun delete_attempts ::
    "delete_env \<Rightarrow> string \<Rightarrow> nat \<Rightarrow> delete_call list \<Rightarrow> delete_call list \<times> bool" where
  "delete_attempts env path 0 h = (h @ [broadcast_failure path], False)"
| "delete_attempts env path (Suc rest) h =
     (let result = de_unlink env h; h = h @ [Del_unlink path]
      in if result = Delete_success then (h, True)
         else
           let (h, recoverable) =
                 (if result = Delete_busy then (h @ [Del_delay 500], True)
                  else if result = Delete_permission_denied \<or> result = Delete_read_only
                  then recover_permissions env path result h
                  else (h, False))
           in if \<not> recoverable
              then (h @ [Del_report_unrecoverable path, broadcast_failure path], False)
              else delete_attempts env path rest (if rest > 0 then h @ [Del_delay 200] else h))"

definition delete_update_file ::
    "delete_env \<Rightarrow> string \<Rightarrow> delete_call list \<Rightarrow> delete_call list \<times> bool" where
  "delete_update_file env path h = delete_attempts env path 3 h"

section \<open>The trigger and the start of the update task\<close>

datatype trigger_call = Trigger_remove_partial string | Trigger_reconcile

definition trigger_boot :: "bool \<Rightarrow> bool \<times> trigger_call list" where
  "trigger_boot pending = (True, [Trigger_remove_partial partial_aggregate_path, Trigger_reconcile])"

definition begins_with :: "string \<Rightarrow> string \<Rightarrow> bool" where
  "begins_with text prefix \<longleftrightarrow> length text \<ge> length prefix \<and> take (length prefix) text = prefix"

definition trigger_command :: "string \<Rightarrow> bool \<Rightarrow> bool \<times> bool" where
  "trigger_command command pending =
     (if \<not> begins_with command ''upgrade'' \<and> \<not> begins_with command ''reset''
      then (pending, False) else (True, True))"

definition take_update_request :: "bool \<Rightarrow> bool \<times> bool" where
  "take_update_request pending = (False, pending)"

datatype task_call =
  Task_start | Task_started | Task_start_failed | Task_warn_not_started | Task_trigger

record task_initialization =
  ti_available :: bool
  ti_initializing :: bool

definition try_initialize ::
    "bool \<Rightarrow> task_initialization \<Rightarrow> task_initialization \<times> task_call list \<times> bool" where
  "try_initialize starts t =
     (if ti_available t then (t, [], True)
      else if ti_initializing t then (t, [], False)
      else if starts
      then (t\<lparr>ti_available := True, ti_initializing := False\<rparr>, [Task_start, Task_started], True)
      else (t\<lparr>ti_initializing := False\<rparr>, [Task_start, Task_start_failed], False))"

definition task_request :: "bool \<Rightarrow> task_initialization \<Rightarrow> task_initialization \<times> task_call list" where
  "task_request starts t =
     (if \<not> ti_available t
      then let (t, calls, ok) = try_initialize starts t
           in (t, [Task_warn_not_started] @ calls @ (if ok then [Task_trigger] else []))
      else (t, [Task_trigger]))"

definition task_boot :: "bool \<Rightarrow> bool \<Rightarrow> task_initialization \<Rightarrow> task_initialization \<times> task_call list" where
  "task_boot starts again t =
     (let (t, calls, _) = try_initialize starts t; (t, more) = task_request again t
      in (t, calls @ more))"

definition monitor_initialization_start :: "bool \<Rightarrow> bool \<times> bool" where
  "monitor_initialization_start attempted = (True, \<not> attempted)"

section \<open>Direct updates of the web interface\<close>

datatype direct_call =
    Dir_deinitialize_camera | Dir_select_inactive | Dir_erase | Dir_begin u32 | Dir_write bytes
  | Dir_finish | Dir_abort | Dir_select_boot | Dir_partition_size | Dir_write_at u32 bytes
  | Dir_respond u16 string | Dir_delay u32 | Dir_restart

definition direct_fail :: "string \<Rightarrow> direct_call list" where
  "direct_fail body = [Dir_respond 500 body]"

definition direct_begin ::
    "direct_call answers \<Rightarrow> direct_call list \<Rightarrow> direct_call list \<times> bool" where
  "direct_begin env h =
     (let ok = env h Dir_deinitialize_camera; h = h @ [Dir_deinitialize_camera]
      in if \<not> ok then (h @ direct_fail ''OTA finish Failed'', False) else
      let ok = env h Dir_select_inactive; h = h @ [Dir_select_inactive]
      in if \<not> ok then (h @ direct_fail ''No valid OTA partition detected'', False) else
      let ok = env h Dir_erase; h = h @ [Dir_erase]
      in if \<not> ok then (h @ direct_fail ''OTA partition wipe unsuccessful'', False) else
      let ok = env h (Dir_begin 0xFFFFFFFF); h = h @ [Dir_begin 0xFFFFFFFF]
      in if \<not> ok then (h @ direct_fail ''Unable to initialize OTA process'', False)
         else (h, True))"

definition direct_offer :: "bytes \<Rightarrow> direct_call list \<Rightarrow> direct_call list" where
  "direct_offer block h = h @ [Dir_write block]"

definition direct_finish ::
    "bool \<Rightarrow> direct_call answers \<Rightarrow> direct_call list \<Rightarrow> direct_call list \<times> bool" where
  "direct_finish content_received env h =
     (if \<not> content_received then (h @ [Dir_abort] @ direct_fail ''OTA finish Failed'', False)
      else
        let ok = env h Dir_finish; h = h @ [Dir_finish]
        in if \<not> ok then (h @ [Dir_abort] @ direct_fail ''OTA finish Failed'', False) else
        let ok = env h Dir_select_boot; h = h @ [Dir_select_boot]
        in if \<not> ok then (h @ direct_fail ''Failed to set boot partition'', False)
           else (h @ [Dir_respond 200
                        ''Firmware upgrade finished. The system will reboot in 2 seconds...'',
                      Dir_delay 2000, Dir_restart], True))"

definition direct_apply ::
    "bytes \<Rightarrow> direct_call answers \<Rightarrow> direct_call list \<Rightarrow> direct_call list \<times> bool" where
  "direct_apply img env h =
     (let (h, ok) = direct_begin env h
      in if \<not> ok then (h, False) else direct_finish (length img \<noteq> 0) env (direct_offer img h))"

text \<open>The raw web volume; the state is the offset of the next block.\<close>

definition volume_begin ::
    "direct_call answers \<Rightarrow> direct_call list \<Rightarrow> u32 \<Rightarrow> direct_call list \<times> u32 \<times> bool" where
  "volume_begin env h offset =
     (let ok = env h Dir_partition_size; h = h @ [Dir_partition_size]
      in if \<not> ok then (h @ direct_fail ''SPIFFS partition not found'', offset, False) else
      let ok = env h Dir_erase; h = h @ [Dir_erase]
      in if \<not> ok then (h @ direct_fail ''SPIFFS erase failed'', offset, False)
         else (h, 0, True))"

definition volume_offer :: "bytes \<Rightarrow> direct_call list \<times> u32 \<Rightarrow> direct_call list \<times> u32" where
  "volume_offer content s =
     (fst s @ [Dir_write_at (snd s) content], snd s + of_nat (length content))"

definition volume_finish :: "direct_call list \<Rightarrow> direct_call list \<times> bool" where
  "volume_finish h =
     (h @ [Dir_respond 200 ''UI upgrade finished. The system will reboot in 2 seconds...'',
           Dir_delay 2000, Dir_restart], True)"

definition volume_apply ::
    "bytes \<Rightarrow> direct_call answers \<Rightarrow> direct_call list \<Rightarrow> direct_call list \<times> bool" where
  "volume_apply content env h =
     (let (h, offset, ok) = volume_begin env h 0
      in if \<not> ok then (h, False) else volume_finish (fst (volume_offer content (h, offset))))"

section \<open>What precedes a switch of the boot partition\<close>

definition mainboard_writing :: "(nat \<Rightarrow> u8) \<Rightarrow> update_header \<Rightarrow> bytes \<Rightarrow> update_call list" where
  "mainboard_writing beyond header package =
     [Up_publish_phase 1, Up_select_partition, Up_begin_write (uh_mainboard_size header),
      Up_write (mainboard_view beyond header package), Up_finalize_write]"

text \<open>Every call of a list, made one after the other, was answered positively.\<close>

definition all_answered :: "'c answers \<Rightarrow> 'c list \<Rightarrow> 'c list \<Rightarrow> bool" where
  "all_answered env h calls \<longleftrightarrow>
     (\<forall>i < length calls. env (h @ take i calls) (calls ! i))"

lemma all_answered_Nil [simp]: "all_answered env h []"
  by (simp add: all_answered_def)

lemma all_answered_Cons [simp]:
  "all_answered env h (c # calls) \<longleftrightarrow> env h c \<and> all_answered env (h @ [c]) calls"
  by (auto simp: all_answered_def less_Suc_eq_0_disj)

text \<open>The outcomes of the application, in the order of its steps.\<close>

lemma apply_update_cases:
  fixes header :: update_header and package :: bytes and beyond :: "nat \<Rightarrow> u8"
  defines "opening \<equiv> Up_begin_write (uh_mainboard_size header)"
    and "writing \<equiv> Up_write (mainboard_view beyond header package)"
  assumes "apply_update beyond env h header package = (calls, ok)"
  obtains (controller) "uh_mainboard_size header = 0" "ok"
      "calls = stage_controller beyond header package @
         [Up_remove_aggregate aggregate_path, Up_send_controller_reset]"
  | (failed) steps active where "uh_mainboard_size header \<noteq> 0" "\<not> ok"
      "(steps, active) \<in> {([Up_publish_phase 1, Up_select_partition], False),
         ([Up_publish_phase 1, Up_select_partition, opening], False),
         ([Up_publish_phase 1, Up_select_partition, opening, writing], True),
         (mainboard_writing beyond header package, True)}"
      "calls = steps @ fail_mainboard active"
  | (unselected) "uh_mainboard_size header \<noteq> 0" "\<not> ok"
      "calls = mainboard_writing beyond header package @ Up_select_boot # fail_mainboard False"
      "all_answered (up_answer env) (h @ [Up_publish_phase 1]) (tl (mainboard_writing beyond header package))"
  | (installed) "uh_mainboard_size header \<noteq> 0" "ok"
      "calls = mainboard_writing beyond header package @ Up_select_boot #
         stage_controller beyond header package @
         [Up_persist_phase_direct 2, Up_remove_aggregate aggregate_path, Up_restart]"
      "all_answered (up_answer env) (h @ [Up_publish_phase 1]) (tl (mainboard_writing beyond header package))"
      "up_answer env (h @ mainboard_writing beyond header package) Up_select_boot"
proof -
  let ?h = "h @ [Up_publish_phase 1]"
  note eq = assms(3) [unfolded apply_update_def Let_def, folded opening_def writing_def]
  note names = opening_def [symmetric] writing_def [symmetric] mainboard_writing_def
  consider "uh_mainboard_size header = 0"
    | "uh_mainboard_size header \<noteq> 0" "\<not> up_answer env ?h Up_select_partition"
    | "uh_mainboard_size header \<noteq> 0" "up_answer env ?h Up_select_partition"
      "\<not> up_answer env (?h @ [Up_select_partition]) opening"
    | "uh_mainboard_size header \<noteq> 0" "up_answer env ?h Up_select_partition"
      "up_answer env (?h @ [Up_select_partition]) opening"
      "\<not> up_answer env (?h @ [Up_select_partition, opening]) writing"
    | "uh_mainboard_size header \<noteq> 0" "up_answer env ?h Up_select_partition"
      "up_answer env (?h @ [Up_select_partition]) opening"
      "up_answer env (?h @ [Up_select_partition, opening]) writing"
      "\<not> up_answer env (?h @ [Up_select_partition, opening, writing]) Up_finalize_write"
    | "uh_mainboard_size header \<noteq> 0" "up_answer env ?h Up_select_partition"
      "up_answer env (?h @ [Up_select_partition]) opening"
      "up_answer env (?h @ [Up_select_partition, opening]) writing"
      "up_answer env (?h @ [Up_select_partition, opening, writing]) Up_finalize_write"
      "\<not> up_answer env (?h @ [Up_select_partition, opening, writing, Up_finalize_write]) Up_select_boot"
    | "uh_mainboard_size header \<noteq> 0" "up_answer env ?h Up_select_partition"
      "up_answer env (?h @ [Up_select_partition]) opening"
      "up_answer env (?h @ [Up_select_partition, opening]) writing"
      "up_answer env (?h @ [Up_select_partition, opening, writing]) Up_finalize_write"
      "up_answer env (?h @ [Up_select_partition, opening, writing, Up_finalize_write]) Up_select_boot"
    by blast
  then show thesis
  proof cases
    case 1
    then show thesis using controller eq by simp
  next
    case 2
    then show thesis using failed [of "[Up_publish_phase 1, Up_select_partition]" False] eq by simp
  next
    case 3
    then show thesis
      using failed [of "[Up_publish_phase 1, Up_select_partition, opening]" False] eq by simp
  next
    case 4
    then show thesis
      using failed [of "[Up_publish_phase 1, Up_select_partition, opening, writing]" True] eq by simp
  next
    case 5
    then show thesis using failed [of "mainboard_writing beyond header package" True] eq by (simp add: names)
  next
    case 6
    then show thesis using unselected eq by (simp add: names)
  next
    case 7
    then show thesis using installed eq by (simp add: names)
  qed
qed

lemma not_switching:
  "Up_select_boot \<notin> set (fail_mainboard active)" "Up_restart \<notin> set (fail_mainboard active)"
  "Up_select_boot \<notin> set (stage_controller beyond header package)"
  "Up_restart \<notin> set (stage_controller beyond header package)"
  "Up_select_boot \<notin> set (mainboard_writing beyond header package)"
  "Up_restart \<notin> set (mainboard_writing beyond header package)"
  by (simp_all add: fail_mainboard_def stage_controller_def mainboard_writing_def)

lemma apply_update_switches:
  assumes "apply_update beyond env h header package = (calls, ok)"
    and "Up_select_boot \<in> set calls \<or> Up_restart \<in> set calls"
  shows "uh_mainboard_size header \<noteq> 0 \<and>
    (\<exists>rest. calls = mainboard_writing beyond header package @ Up_select_boot # rest \<and>
       (Up_restart \<in> set rest \<longrightarrow>
          up_answer env (h @ mainboard_writing beyond header package) Up_select_boot)) \<and>
    all_answered (up_answer env) (h @ [Up_publish_phase 1]) (tl (mainboard_writing beyond header package))"
  using assms(1)
proof (cases rule: apply_update_cases)
  case controller
  then show ?thesis using assms(2) by (simp add: not_switching)
next
  case (failed steps active)
  then have "Up_select_boot \<notin> set steps" "Up_restart \<notin> set steps"
    by (auto simp: mainboard_writing_def)
  then show ?thesis using failed(4) assms(2) by (simp add: not_switching)
next
  case unselected
  then show ?thesis
    by (intro conjI exI [of _ "fail_mainboard False"]) (simp_all add: not_switching)
next
  case installed
  then show ?thesis by (intro conjI exI) simp_all
qed

text \<open>
  A failed application leaves the package on the card and stages nothing; it closes the write it had
  opened and ends with the failure phase.
\<close>

lemma apply_update_fails:
  assumes "apply_update beyond env h header package = (calls, False)"
  shows "Up_remove_aggregate path \<notin> set calls \<and> Up_restart \<notin> set calls \<and>
    Up_stage_controller path img \<notin> set calls \<and> last calls = Up_publish_phase 3 \<and>
    (Up_write (mainboard_view beyond header package) \<in> set calls \<and> Up_select_boot \<notin> set calls \<longrightarrow>
       Up_abort_write \<in> set calls)"
  using assms
proof (cases rule: apply_update_cases)
  case (failed steps active)
  then show ?thesis by (auto simp: mainboard_writing_def fail_mainboard_def)
qed (auto simp: mainboard_writing_def fail_mainboard_def)

lemma validated_update:
  assumes "validate_update beyond valid_image env h now = (calls, Some (header, package))"
  shows "up_load env (h @ [Up_remove_partial partial_aggregate_path, Up_clear_attributes aggregate_path]) =
      Load_ok package"
    "parse_update_package beyond package = Inr header"
    "uh_mainboard_size header \<noteq> 0 \<Longrightarrow> valid_image (mainboard_view beyond header package)"
    "Up_select_boot \<notin> set calls" "Up_restart \<notin> set calls" "Up_remove_aggregate path \<notin> set calls"
  using assms
  by (auto simp: validate_update_def Let_def split: if_split_asm update_load_result.splits sum.splits)

lemma rejected_update:
  assumes "validate_update beyond valid_image env h now = (calls, None)"
  shows "Up_select_boot \<notin> set calls" "Up_restart \<notin> set calls"
  using assms
  by (auto simp: validate_update_def Let_def reject_format_def
      split: if_split_asm update_load_result.splits sum.splits)

text \<open>
  C5. The boot partition is switched, and the board restarted, only for a checked image that is
  completely written. Whatever the card, the flash and the other ports answer, if a run of the update
  task selects the new partition or restarts, then the card held a package that parses with an image
  that passes the image check, the write was opened with the announced size, exactly that image was
  written and finalised, each step was answered positively, and a restart follows only a successful
  selection.
\<close>

theorem update_switches_checked_image:
  assumes "Up_select_boot \<in> set (process_update_once beyond esp env h) \<or>
    Up_restart \<in> set (process_update_once beyond esp env h)"
  shows "\<exists>package header before rest.
    up_load env (h @ [Up_remove_partial partial_aggregate_path, Up_clear_attributes aggregate_path]) =
      Load_ok package \<and>
    parse_update_package beyond package = Inr header \<and> uh_mainboard_size header \<noteq> 0 \<and>
    valid_mainboard_image esp (mainboard_view beyond header package) \<and>
    process_update_once beyond esp env h =
      before @ mainboard_writing beyond header package @ Up_select_boot # rest \<and>
    all_answered (up_answer env) (h @ before @ [Up_publish_phase 1])
      (tl (mainboard_writing beyond header package)) \<and>
    (Up_restart \<in> set rest \<longrightarrow>
       up_answer env (h @ before @ mainboard_writing beyond header package) Up_select_boot)"
proof -
  obtain calls validated where
    v: "validate_update beyond (valid_mainboard_image esp) env h 0 = (calls, validated)"
    by (cases "validate_update beyond (valid_mainboard_image esp) env h 0")
  have "validated \<noteq> None"
  proof
    assume "validated = None"
    then show False
      using assms v rejected_update [of beyond "valid_mainboard_image esp" env h 0 calls]
      by (simp add: process_update_once_def)
  qed
  then obtain header package where hp: "validated = Some (header, package)" by auto
  note ok = validated_update [OF v [unfolded hp]]
  obtain more finished where a: "apply_update beyond env (h @ calls) header package = (more, finished)"
    by (cases "apply_update beyond env (h @ calls) header package")
  have run: "process_update_once beyond esp env h = calls @ more"
    using v hp a by (simp add: process_update_once_def)
  then have "Up_select_boot \<in> set more \<or> Up_restart \<in> set more" using assms ok(4,5) by auto
  from apply_update_switches [OF a this] show ?thesis
    using ok(1-3) run by (metis append.assoc)
qed


definition installable_package :: bytes where
  "installable_package = the (build_firmware_package (one_segment_image 0) 5 [0x41, 0x42] 7)"

definition willing_env :: "bytes \<Rightarrow> update_env" where
  "willing_env package = \<lparr>up_load = (\<lambda>_. Load_ok package), up_answer = (\<lambda>_ _. True)\<rparr>"

lemma installable_package_built:
  "build_firmware_package (one_segment_image 0) 5 [0x41, 0x42] 7 = Some installable_package"
  by (simp add: installable_package_def build_firmware_package_def Let_def one_segment_image_def)


theorem update_switches_checked_image_witness:
  "valid_mainboard_image esp_idf_format (one_segment_image 0) \<and>
   (\<exists>header before rest.
     parse_update_package (\<lambda>_. 0) installable_package = Inr header \<and>
     process_update_once (\<lambda>_. 0) esp_idf_format (willing_env installable_package) [] =
       before @ mainboard_writing (\<lambda>_. 0) header installable_package @ Up_select_boot # rest)"
proof -
  have image: "length (one_segment_image 0) = 37" "one_segment_image 0 \<noteq> []"
    by (simp_all add: one_segment_image_def)
  let ?run = "process_update_once (\<lambda>_. 0) esp_idf_format (willing_env installable_package) []"
  note facts = built_package [OF installable_package_built]
  obtain header where parsed: "parse_update_package (\<lambda>_. 0) installable_package = Inr header"
      "uh_mainboard_size header = 37" "uh_controller_size header = 2"
    using facts(4) [of "\<lambda>_. 0"] image(1) by simp
  have view: "mainboard_view (\<lambda>_. 0) header installable_package = one_segment_image 0"
    using facts(2) image(1)
    by (simp add: mainboard_view_def view_in_inside parsed(2)) (simp add: facts(1) image(1))
  have "Up_select_boot \<in> set ?run"
    using parsed(1) padded_image_refused(3)
    by (simp add: process_update_once_def validate_update_def willing_env_def view parsed(2) Let_def
        apply_update_def)
  then obtain package header' before rest where
    "up_load (willing_env installable_package) ([] @ [Up_remove_partial partial_aggregate_path,
       Up_clear_attributes aggregate_path]) = Load_ok package"
    "parse_update_package (\<lambda>_. 0) package = Inr header'"
    "?run = before @ mainboard_writing (\<lambda>_. 0) header' package @ Up_select_boot # rest"
    using update_switches_checked_image [of "\<lambda>_. 0" esp_idf_format "willing_env installable_package" "[]"]
    by blast
  then show ?thesis using padded_image_refused(3) by (auto simp: willing_env_def)
qed

section \<open>Phases and progress\<close>

datatype phase_op =
    Op_reconcile bool u8 u64 | Op_opened bool | Op_publish u8 | Op_process bool | Op_validation u64
  | Op_progress u32 u32 | Op_completed u64 | Op_tick u64

fun phase_step :: "phase_op \<Rightarrow> update_phases \<Rightarrow> update_phases \<times> phase_call list" where
  "phase_step (Op_reconcile stored persisted now) p = reconcile_boot stored persisted now p"
| "phase_step (Op_opened stored) p = aggregate_opened stored p"
| "phase_step (Op_publish phase) p = (publish_phase phase p, [])"
| "phase_step (Op_process stored) p = process_pending stored p"
| "phase_step (Op_validation now) p = broadcast_validation_error now p"
| "phase_step (Op_progress index count) p = (set_controller_progress index count p, [])"
| "phase_step (Op_completed now) p = (phases_controller_completed now p, [])"
| "phase_step (Op_tick now) p = (phases_tick now p, [])"

definition phase_run :: "phase_op list \<Rightarrow> update_phases \<Rightarrow> update_phases" where
  "phase_run ops p = foldl (\<lambda>p op. fst (phase_step op p)) p ops"

text \<open>The values the interface names: idle 0, mainboard 1, controller 2, failure 3, success 4.\<close>

definition phase_value :: "u8 \<Rightarrow> bool" where
  "phase_value phase \<longleftrightarrow> phase \<le> 4"

fun phase_op_typed :: "phase_op \<Rightarrow> bool" where
  "phase_op_typed (Op_reconcile stored persisted now) \<longleftrightarrow> phase_value persisted"
| "phase_op_typed (Op_publish phase) \<longleftrightarrow> phase_value phase"
| "phase_op_typed _ \<longleftrightarrow> True"

definition status_typed :: "update_status \<Rightarrow> bool" where
  "status_typed st \<longleftrightarrow> phase_value (us_phase st) \<and> us_progress st \<le> 100 \<and>
     (us_progress st \<noteq> 0 \<longrightarrow> us_phase st = 2 \<or> us_phase st = 4)"

definition phases_typed :: "update_phases \<Rightarrow> bool" where
  "phases_typed p \<longleftrightarrow> status_typed (ph_volatile p) \<and> phase_value (ph_persisted p) \<and>
     (\<forall>phase \<in> set (ph_pending p). phase_value phase) \<and> length (ph_pending p) \<le> 4 \<and>
     (ph_success_deadline p \<noteq> None \<longrightarrow> us_phase (ph_volatile p) = 2 \<or> us_phase (ph_volatile p) = 4)"

lemma status_typed_start: "phase_value phase \<Longrightarrow> status_typed \<lparr>us_phase = phase, us_progress = 0\<rparr>"
  by (simp add: status_typed_def)

lemma phase_value_consts [simp]:
  "phase_value 0" "phase_value 1" "phase_value 2" "phase_value 3" "phase_value 4"
  by (simp_all add: phase_value_def)

lemma persist_phase_typed:
  "phases_typed p \<Longrightarrow> phase_value phase \<Longrightarrow> phases_typed (fst (persist_phase stored phase p))"
  by (simp add: persist_phase_def phases_typed_def)

lemma broadcast_limited_typed:
  "phases_typed p \<Longrightarrow> phases_typed (fst (broadcast_limited message now p))"
  by (simp add: broadcast_limited_def phases_typed_def split: option.split)

lemma publish_phase_typed: "phases_typed p \<Longrightarrow> phase_value phase \<Longrightarrow> phases_typed (publish_phase phase p)"
  by (simp add: publish_phase_def Let_def phases_typed_def status_typed_start)

lemma progress_octet: "ucast (min rounded 100 :: u64) \<le> (100 :: u8)"
proof -
  have "unat (min rounded 100 :: u64) \<le> 100" by (simp add: min_def word_le_nat_alt)
  then show ?thesis by (simp add: word_le_nat_alt unsigned_ucast_eq take_bit_eq_mod)
qed

lemma phase_step_typed:
  assumes "phases_typed p" "phase_op_typed op"
  shows "phases_typed (fst (phase_step op p))"
proof (cases op)
  case (Op_reconcile stored persisted now)
  have "phases_typed (p\<lparr>ph_persisted := persisted\<rparr>)"
    using assms Op_reconcile by (simp add: phases_typed_def)
  then show ?thesis
    unfolding Op_reconcile phase_step.simps reconcile_boot_def Let_def
    by (auto intro: broadcast_limited_typed persist_phase_typed)
next
  case (Op_opened stored)
  then show ?thesis using assms by (simp add: aggregate_opened_def persist_phase_typed)
next
  case (Op_process stored)
  have "ph_pending p \<noteq> [] \<Longrightarrow> phase_value (last (ph_pending p))" "phases_typed (p\<lparr>ph_pending := []\<rparr>)"
    using assms(1) by (simp_all add: phases_typed_def)
  then show ?thesis using assms by (simp add: Op_process process_pending_def Let_def persist_phase_typed)
next
  case (Op_progress index count)
  then show ?thesis
    using assms(1) by (simp add: set_controller_progress_def Let_def phases_typed_def status_typed_def progress_octet)
next
  case (Op_completed now)
  have "phases_typed (publish_phase 4 p)" using assms(1) by (simp add: publish_phase_typed)
  moreover have "us_phase (ph_volatile (publish_phase 4 p)) = 4" by (simp add: publish_phase_def Let_def)
  ultimately show ?thesis
    by (simp add: Op_completed phases_controller_completed_def Let_def phases_typed_def status_typed_def)
next
  case (Op_tick now)
  then show ?thesis
    using assms(1) by (auto simp: phases_tick_def phases_typed_def status_typed_start split: option.split)
qed (use assms in \<open>simp_all add: publish_phase_typed broadcast_validation_error_def broadcast_limited_typed\<close>)

text \<open>
  C35. The update status is always a value of its type. In every history of the phase service, with
  published and recovered phases among the five named ones, the reported phase is one of them, the
  progress is a percentage and nonzero only in the controller and the success phase, and at most four
  phases wait to be stored.
\<close>

theorem update_status_typed:
  assumes "\<forall>op \<in> set ops. phase_op_typed op"
  shows "phases_typed (phase_run ops initial_phases) \<and>
    status_typed (phases_status (phase_run ops initial_phases))"
proof -
  have "phases_typed (foldl (\<lambda>p op. fst (phase_step op p)) p ops)" if "phases_typed p" for p
    using assms that by (induction ops arbitrary: p) (simp_all add: phase_step_typed)
  moreover have "phases_typed initial_phases"
    by (simp add: initial_phases_def phases_typed_def status_typed_start)
  ultimately have "phases_typed (phase_run ops initial_phases)" by (simp add: phase_run_def)
  then show ?thesis by (simp add: phases_status_def phases_typed_def status_typed_start)
qed

theorem update_status_typed_witness:
  "phases_status (phase_run [Op_publish 2, Op_progress 1 3, Op_process True] initial_phases) =
     \<lparr>us_phase = 2, us_progress = 33\<rparr> \<and>
   status_typed (phases_status (phase_run [Op_publish 2, Op_progress 1 3, Op_process True] initial_phases))"
  using update_status_typed [of "[Op_publish 2, Op_progress 1 3, Op_process True]"]
  by (simp add: phase_run_def initial_phases_def publish_phase_def set_controller_progress_def
      process_pending_def persist_phase_def phases_status_def Let_def)

section \<open>Bounds of deletion and of the monitor\<close>

fun delay_total :: "delete_call list \<Rightarrow> nat" where
  "delay_total [] = 0"
| "delay_total (Del_delay ms # calls) = unat ms + delay_total calls"
| "delay_total (_ # calls) = delay_total calls"

definition is_unlink :: "delete_call \<Rightarrow> bool" where
  "is_unlink c \<longleftrightarrow> (\<exists>path. c = Del_unlink path)"

lemma is_unlink_simps [simp]:
  "is_unlink (Del_unlink path)" "\<not> is_unlink (Del_delay ms)" "\<not> is_unlink (Del_clear_attributes path)"
  "\<not> is_unlink (Del_set_mode path mode)" "\<not> is_unlink (Del_report_mode_failure path)"
  "\<not> is_unlink (Del_report_unrecoverable path)" "\<not> is_unlink (broadcast_failure path)"
  by (simp_all add: is_unlink_def broadcast_failure_def)

lemma delay_total_append [simp]: "delay_total (xs @ ys) = delay_total xs + delay_total ys"
  by (induction xs rule: delay_total.induct) simp_all

lemma delay_broadcast [simp]: "delay_total [broadcast_failure path] = 0"
  by (simp add: broadcast_failure_def)

lemma recover_permissions_calls:
  assumes "recover_permissions env path failure h = (h', ok)"
  shows "\<exists>calls. h' = h @ calls \<and> count_calls is_unlink calls = 0 \<and> delay_total calls \<le> 100"
proof -
  have "\<exists>calls \<in> {[Del_clear_attributes path], [Del_clear_attributes path, Del_delay 100],
      [Del_clear_attributes path, Del_set_mode path 438, Del_report_mode_failure path],
      [Del_clear_attributes path, Del_set_mode path 438, Del_delay 100]}. h' = h @ calls"
    using assms by (auto simp: recover_permissions_def Let_def split: if_split_asm)
  then show ?thesis by auto
qed

lemma delete_attempts_bounds:
  "delete_attempts env path n h = (h', ok) \<Longrightarrow> \<exists>calls. h' = h @ calls \<and>
     count_calls is_unlink calls \<le> n \<and> delay_total calls \<le> n * 700 \<and> calls \<noteq> [] \<and>
     (if ok then last calls = Del_unlink path \<and> de_unlink env (butlast h') = Delete_success
      else last calls = broadcast_failure path)"
proof (induction n arbitrary: h)
  case 0
  then show ?case by (auto intro!: exI [of _ "[broadcast_failure path]"])
next
  case (Suc n)
  let ?result = "de_unlink env h" and ?h = "h @ [Del_unlink path]"
  obtain g recoverable where g: "(if ?result = Delete_busy then (?h @ [Del_delay 500], True)
      else if ?result = Delete_permission_denied \<or> ?result = Delete_read_only
      then recover_permissions env path ?result ?h else (?h, False)) = (g, recoverable)"
    by (metis surj_pair)
  obtain more where more: "g = ?h @ more" "count_calls is_unlink more = 0" "delay_total more \<le> 500"
    using g recover_permissions_calls [of env path ?result ?h] by (fastforce split: if_split_asm)
  consider (success) "?result = Delete_success"
    | (lost) "?result \<noteq> Delete_success" "\<not> recoverable"
    | (again) "?result \<noteq> Delete_success" "recoverable" by blast
  then show ?case
  proof cases
    case success
    then show ?thesis using Suc.prems by (auto simp: Let_def intro!: exI [of _ "[Del_unlink path]"])
  next
    case lost
    let ?calls = "Del_unlink path # more @ [Del_report_unrecoverable path, broadcast_failure path]"
    have "h' = h @ ?calls" "\<not> ok"
      using Suc.prems lost g more(1) by (simp_all add: Let_def)
    then show ?thesis using more(2,3) by (intro exI [of _ ?calls]) simp
  next
    case again
    let ?gap = "if n > 0 then [Del_delay 200] else []"
    have "delete_attempts env path n (g @ ?gap) = (h', ok)"
      using Suc.prems again g by (auto simp: Let_def)
    from Suc.IH [OF this] obtain calls where calls: "h' = (g @ ?gap) @ calls"
      "count_calls is_unlink calls \<le> n" "delay_total calls \<le> n * 700"
      "calls \<noteq> []" "if ok then last calls = Del_unlink path \<and> de_unlink env (butlast h') = Delete_success
       else last calls = broadcast_failure path" by blast
    let ?calls = "Del_unlink path # more @ ?gap @ calls"
    have "h' = h @ ?calls" using calls(1) more(1) by simp
    moreover have "count_calls is_unlink ?calls \<le> Suc n \<and> delay_total ?calls \<le> Suc n * 700"
      using calls(2,3) more(2,3) by (cases n) simp_all
    moreover have "last ?calls = last calls \<and> ?calls \<noteq> []" using calls(4) by (cases n) simp_all
    ultimately show ?thesis using calls(5) by metis
  qed
qed


text \<open>
  Deleting a file takes at most three attempts and 2.1 seconds of waiting. It succeeds exactly when
  the last attempt did, and otherwise tells the hosts.
\<close>

lemma delete_update_file_bounds:
  assumes "delete_update_file env path h = (h', ok)"
  shows "\<exists>calls. h' = h @ calls \<and> count_calls is_unlink calls \<le> 3 \<and> delay_total calls \<le> 2100 \<and>
    (if ok then last calls = Del_unlink path \<and> de_unlink env (butlast h') = Delete_success
     else last calls = broadcast_failure path)"
  using delete_attempts_bounds [OF assms [unfolded delete_update_file_def]] by auto

text \<open>
  The monitor's loop ends unless the clock is within five seconds of its 64-bit end: the next check is
  the first multiple of five seconds after the previous one that lies after now.
\<close>

lemma advance_check_returns:
  assumes "t \<le> now" "unat now + 5000 < 2 ^ 64"
  shows "\<exists>t'. advance_check now t = Some t' \<and> now < t' \<and> t' \<le> now + 5000 \<and>
    (unat t' - unat t) mod 5000 = 0"
  using assms(1)
proof (induction "unat now - unat t" arbitrary: t rule: less_induct)
  case less
  have le: "unat t \<le> unat now" using less.prems by (simp add: word_le_nat_alt)
  have sum: "unat (t + 5000) = unat t + 5000"
    using le assms(2) unat_of_nat [of "unat t + 5000", where 'a = 64] by simp
  have now: "unat (now + 5000) = unat now + 5000"
    using assms(2) unat_of_nat [of "unat now + 5000", where 'a = 64] by simp
  show ?case
  proof (cases "t + 5000 \<le> now")
    case True
    then have room: "unat t + 5000 \<le> unat now" by (simp add: word_le_nat_alt sum)
    have "unat now - unat (t + 5000) < unat now - unat t" using room unfolding sum by linarith
    from less.hyps [OF this True] obtain t' where t': "advance_check now (t + 5000) = Some t'" "now < t'" "t' \<le> now + 5000"
        "(unat t' - unat (t + 5000)) mod 5000 = 0"
      by (elim exE conjE) (rule that)
    have "unat now < unat t'" using t'(2) by (simp only: word_less_nat_alt)
    then have "unat t' - unat t = (unat t' - unat (t + 5000)) + 5000"
      using room unfolding sum by linarith
    then have "(unat t' - unat t) mod 5000 = 0" using t'(4) by (simp only: mod_add_self2)
    moreover have "advance_check now t = Some t'"
      using t'(1) True by (subst advance_check.simps) (simp only: Let_def if_True)
    ultimately show ?thesis using t'(2,3) by (intro exI [of _ t'] conjI)
  next
    case False
    then have "now < t + 5000" by (simp only: not_le)
    moreover have "t + 5000 \<le> now + 5000" using le by (simp add: word_le_nat_alt sum now)
    moreover have "advance_check now t = Some (t + 5000)"
      using False by (subst advance_check.simps) (simp only: Let_def if_False)
    moreover have "(unat (t + 5000) - unat t) mod 5000 = 0" unfolding sum by simp
    ultimately show ?thesis by (intro exI [of _ "t + 5000"] conjI)
  qed
qed

end
