(* ===== verification/Web_Upload.thy ===== *)
theory Web_Upload
  imports Update_Service
begin

text \<open>
  Uploads over HTTP: the boundary of the Content-Type header, \<open>core/src/web/multipart_policy.cpp\<close>,
  the block-local extraction, \<open>core/src/web/multipart_extractor.cpp\<close>, and the receive loop with the
  two update handlers of \<open>main/media/http_server_adapter.cpp\<close>, which drive the direct updates of
  Update_Service. The socket is a parameter: what the n-th receive of at most r octets returns,
  nothing standing for a result of zero or below.
\<close>

section \<open>The boundary\<close>

definition content_type_capacity :: nat where
  "content_type_capacity = 512"

definition parse_multipart_content_type :: "string \<Rightarrow> string option" where
  "parse_multipart_content_type content_type =
     (if content_type = [] \<or> length content_type > content_type_capacity then None
      else case find_sub ''boundary='' content_type of
          None \<Rightarrow> None
        | Some marker_start \<Rightarrow> Some (drop (marker_start + 9) content_type))"

section \<open>Block-local extraction\<close>

datatype extract_status = Reading_headers | Reading_content | Extract_complete | Extract_failed

record extractor =
  ex_boundary :: string
  ex_content :: bytes
  ex_status :: extract_status
  last_boundary_detected :: bool

definition new_extractor :: "string \<Rightarrow> extractor" where
  "new_extractor boundary =
     \<lparr>ex_boundary = boundary, ex_content = [], ex_status = Reading_headers, last_boundary_detected = False\<rparr>"

definition header_terminator :: string where
  "header_terminator = [CHR 0x0D, CHR 0x0A, CHR 0x0D, CHR 0x0A]"

text \<open>The octets in front of the first zero, as the text that is searched.\<close>

definition visible_text :: "bytes \<Rightarrow> string" where
  "visible_text accessible = chars (takeWhile (\<lambda>b. b \<noteq> 0) accessible)"

text \<open>\<open>find(pattern, position)\<close>.\<close>

definition find_after :: "'a list \<Rightarrow> 'a list \<Rightarrow> nat \<Rightarrow> nat option" where
  "find_after pat xs position = map_option (\<lambda>n. position + n) (find_sub pat (drop position xs))"

definition feed_accepted :: "bytes \<Rightarrow> nat \<Rightarrow> extractor \<Rightarrow> extractor" where
  "feed_accepted accessible current_size x =
     (let detection = visible_text accessible in
      case find_sub (ex_boundary x) detection of
        None \<Rightarrow> x\<lparr>ex_content := ex_content x @ take current_size accessible,
                 ex_status := Reading_content, last_boundary_detected := False\<rparr>
      | Some boundary \<Rightarrow>
          (case find_after header_terminator detection boundary of
             None \<Rightarrow> x\<lparr>last_boundary_detected := True\<rparr>
           | Some terminator \<Rightarrow>
               let content_start = terminator + length header_terminator in
               x\<lparr>ex_content := ex_content x @
                    (if content_start \<le> current_size
                     then drop content_start (take current_size accessible) else []),
                 ex_status := Reading_content, last_boundary_detected := True\<rparr>))"

definition feed :: "bytes \<Rightarrow> nat \<Rightarrow> bool \<Rightarrow> extractor \<Rightarrow> extractor \<times> bool" where
  "feed accessible current_size transport_finished x =
     (if ex_status x = Extract_complete \<or> ex_status x = Extract_failed \<or> current_size > length accessible
      then (x, False)
      else
        let x = feed_accepted accessible current_size x
        in (if transport_finished then x\<lparr>ex_status := Extract_complete\<rparr> else x, True))"

definition take_content :: "extractor \<Rightarrow> extractor \<times> bytes" where
  "take_content x = (x\<lparr>ex_content := []\<rparr>, ex_content x)"

section \<open>The receive loop\<close>

record web_request =
  content_type_header :: string
  content_type_readable :: bool
  request_size :: nat

type_synonym socket = "nat \<Rightarrow> nat \<Rightarrow> bytes"

definition receive_block_size :: nat where
  "receive_block_size = 1024"

text \<open>The block keeps what an earlier, longer receive left behind the octets of this one.\<close>

definition overwrite_front :: "bytes \<Rightarrow> bytes \<Rightarrow> bytes" where
  "overwrite_front new block = new @ drop (length new) block"

type_synonym offers = "(bytes \<times> bool) list"

function receive_blocks ::
    "socket \<Rightarrow> nat \<Rightarrow> nat \<Rightarrow> nat \<Rightarrow> bytes \<Rightarrow> extractor \<Rightarrow> offers \<times> extractor \<times> bool" where
  "receive_blocks recv whole index received block x =
     (if received \<ge> whole then ([], x, True) else
      let chunk = recv index (min receive_block_size (whole - received)) in
      if chunk = [] then ([], fst (feed [] 0 True x), True) else
      let received = received + length chunk;
          block = overwrite_front chunk block;
          (x, progress) = feed block (length chunk) (received = whole) x
      in if \<not> progress then ([], x, False) else
      let (x, accepted) = take_content x;
          (later, x', ok) = receive_blocks recv whole (Suc index) received block x
      in ((accepted, last_boundary_detected x) # later, x', ok))"
  by pat_completeness auto

termination
  by (relation "measure (\<lambda>(recv, whole, index, received, block, x). whole - received)")
     (auto simp: diff_less_mono2 length_greater_0_conv [symmetric] simp del: length_greater_0_conv)

declare receive_blocks.simps [simp del]

text \<open>The refusals, as the text of the 400 response.\<close>

definition receive_multipart_part ::
    "socket \<Rightarrow> web_request \<Rightarrow> nat option \<Rightarrow> offers \<times> string option" where
  "receive_multipart_part recv request maximum_request_body =
     (let header_length = length (content_type_header request) in
      if header_length = 0 \<or> header_length \<ge> content_type_capacity
        then ([], Some ''Invalid multipart Content-Type'')
      else if \<not> content_type_readable request then ([], Some ''Invalid multipart Content-Type'')
      else case parse_multipart_content_type (content_type_header request) of
          None \<Rightarrow> ([], Some ''Invalid multipart request'')
        | Some boundary \<Rightarrow>
            if (\<exists>limit. maximum_request_body = Some limit \<and> request_size request > limit)
            then ([], Some ''Invalid multipart request'')
            else
              let (offers, x, ok) = receive_blocks recv (request_size request) 0 0
                    (replicate receive_block_size 0) (new_extractor boundary)
              in if ok \<and> ex_status x = Extract_complete then (offers, None)
                 else (offers, Some ''Invalid multipart request''))"

section \<open>The update handlers\<close>

definition firmware_update_handler ::
    "socket \<Rightarrow> web_request \<Rightarrow> direct_call answers \<Rightarrow> direct_call list \<Rightarrow> direct_call list" where
  "firmware_update_handler recv request env h =
     (let (h, begun) = direct_begin env h in
      if \<not> begun then h else
      let (offers, refusal) = receive_multipart_part recv request (Some (2 * 1024 * 1024));
          h = fold direct_offer (map fst offers) h
      in case refusal of
           Some message \<Rightarrow> h @ [Dir_respond 400 message]
         | None \<Rightarrow> fst (direct_finish (\<exists>block\<in>set offers. fst block \<noteq> []) env h))"

definition web_volume_update_handler ::
    "socket \<Rightarrow> web_request \<Rightarrow> direct_call answers \<Rightarrow> direct_call list \<Rightarrow> direct_call list" where
  "web_volume_update_handler recv request env h =
     (let (h, offset, begun) = volume_begin env h 0 in
      if \<not> begun then h else
      let (offers, refusal) = receive_multipart_part recv request None;
          (h, offset) = fold volume_offer (map fst offers) (h, offset)
      in case refusal of
           Some message \<Rightarrow> h @ [Dir_respond 400 message]
         | None \<Rightarrow> fst (volume_finish h))"

section \<open>The camera behind the live video\<close>

text \<open>
  \<open>LiveInitialization\<close> of the application tries the camera once; the adapter
  \<open>main/media/camera_adapter.cpp\<close> keeps whether the driver runs. What the driver answers are
  parameters.
\<close>

record camera =
  dma_reserved :: bool
  camera_initialized :: bool

definition camera_initialize :: "bool \<Rightarrow> bool \<Rightarrow> camera \<Rightarrow> camera \<times> bool" where
  "camera_initialize driver_started sensor_found c =
     (if camera_initialized c then (c, True) else
      let c = c\<lparr>dma_reserved := False\<rparr> in
      if \<not> driver_started then (c\<lparr>camera_initialized := False\<rparr>, False)
      else if \<not> sensor_found then (c\<lparr>camera_initialized := False\<rparr>, False)
      else (c\<lparr>camera_initialized := True\<rparr>, True))"

definition camera_deinitialize :: "bool \<Rightarrow> camera \<Rightarrow> camera \<times> bool" where
  "camera_deinitialize driver_stopped c =
     (if \<not> camera_initialized c then (c, True)
      else if \<not> driver_stopped then (c, False)
      else (c\<lparr>camera_initialized := False\<rparr>, True))"

datatype live_state = Live_not_attempted | Live_initializing | Live_available | Live_unavailable

definition ensure_available ::
    "(camera \<Rightarrow> camera \<times> bool) \<Rightarrow> live_state \<times> camera \<Rightarrow> (live_state \<times> camera) \<times> bool" where
  "ensure_available initialize_live_media s =
     (case s of (live, c) \<Rightarrow>
        if live = Live_available then (s, True)
        else if live \<noteq> Live_not_attempted then (s, False)
        else
          let (c, available) = initialize_live_media c
          in ((if available then Live_available else Live_unavailable, c), available))"

section \<open>What an upload leaves in the partition\<close>

text \<open>A socket that hands out the segments of a request, one at each receive.\<close>

definition socket_of :: "bytes list \<Rightarrow> socket" where
  "socket_of segments index requested =
     (if index < length segments then take requested (segments ! index) else [])"

definition segment_fits :: "bytes \<Rightarrow> bool" where
  "segment_fits segment \<longleftrightarrow> segment \<noteq> [] \<and> length segment \<le> receive_block_size"

text \<open>A header that opens the part: the boundary is found in it, and after it the first empty line ends it.\<close>

definition opens_part :: "string \<Rightarrow> bytes \<Rightarrow> bool" where
  "opens_part boundary header \<longleftrightarrow> 0 \<notin> set header \<and>
     (case find_sub boundary (chars header) of
        None \<Rightarrow> False
      | Some position \<Rightarrow>
          find_after header_terminator (chars header) position = Some (length header - length header_terminator))"

text \<open>A segment of the image: a zero octet ends its visible text before any occurrence of the boundary.\<close>

definition hides_boundary :: "string \<Rightarrow> bytes \<Rightarrow> bool" where
  "hides_boundary boundary segment \<longleftrightarrow>
     0 \<in> set segment \<and> find_sub boundary (visible_text segment) = None"

text \<open>The contents of a partition after the writes of a trace.\<close>

fun partition_after :: "direct_call list \<Rightarrow> bytes \<Rightarrow> bytes" where
  "partition_after [] contents = contents"
| "partition_after (Dir_write_at offset data # calls) contents =
     partition_after calls
       (take (unat offset) contents @ data @ drop (unat offset + length data) contents)"
| "partition_after (call # calls) contents = partition_after calls contents"

lemma visible_text_zero [simp]: "0 \<in> set segment \<Longrightarrow> visible_text (segment @ rest) = visible_text segment"
  by (simp add: visible_text_def)

lemma visible_text_prefix: "0 \<notin> set header \<Longrightarrow> visible_text (header @ rest) = chars header @ visible_text rest"
  by (induction header) (auto simp: visible_text_def)

lemma find_after_append_Some:
  assumes "find_after pat xs n = Some k" "n \<le> length xs"
  shows "find_after pat (xs @ ys) n = Some k"
proof -
  from assms(1) obtain m where m: "find_sub pat (drop n xs) = Some m" "k = n + m"
    by (auto simp: find_after_def)
  with find_sub_append_Some [OF m(1), of ys] assms(2) show ?thesis
    by (simp add: find_after_def)
qed

lemma find_after_bound: "find_after pat xs n = Some k \<Longrightarrow> n \<le> length xs \<Longrightarrow> k + length pat \<le> length xs"
  by (auto simp: find_after_def dest!: find_sub_bound)

lemma feed_hidden:
  assumes "hides_boundary (ex_boundary x) segment" "ex_status x \<noteq> Extract_complete" "ex_status x \<noteq> Extract_failed"
  shows "feed (segment @ rest) (length segment) finished x =
    (x\<lparr>ex_content := ex_content x @ segment,
       ex_status := if finished then Extract_complete else Reading_content,
       last_boundary_detected := False\<rparr>, True)"
  using assms by (simp add: feed_def feed_accepted_def hides_boundary_def Let_def)

lemma feed_opening:
  assumes opens: "opens_part (ex_boundary x) header"
    and open_status: "ex_status x \<noteq> Extract_complete" "ex_status x \<noteq> Extract_failed"
  shows "feed ((header @ first_part) @ rest) (length header + length first_part) finished x =
    (x\<lparr>ex_content := ex_content x @ first_part,
       ex_status := if finished then Extract_complete else Reading_content,
       last_boundary_detected := True\<rparr>, True)"
proof -
  let ?text = "visible_text ((header @ first_part) @ rest)"
  from opens obtain position where nul: "0 \<notin> set header"
    and found: "find_sub (ex_boundary x) (chars header) = Some position"
    and line: "find_after header_terminator (chars header) position
      = Some (length header - length header_terminator)"
    by (auto simp: opens_part_def split: option.splits)
  have inside: "position \<le> length (chars header)"
    using find_sub_Some [OF found] by simp
  have visible: "?text = chars header @ visible_text (first_part @ rest)"
    using nul by (simp add: visible_text_prefix)
  have "find_sub (ex_boundary x) ?text = Some position"
    unfolding visible by (rule find_sub_append_Some [OF found])
  moreover have "find_after header_terminator ?text position
      = Some (length header - length header_terminator)"
    unfolding visible by (rule find_after_append_Some [OF line inside])
  moreover have "length header - length header_terminator + length header_terminator = length header"
    using find_after_bound [OF line inside] by simp
  ultimately show ?thesis
    using open_status by (simp add: feed_def feed_accepted_def Let_def)
qed

lemma receive_blocks_end: "whole \<le> received \<Longrightarrow> receive_blocks recv whole index received block x = ([], x, True)"
  by (simp add: receive_blocks.simps)

text \<open>One accepted receive.\<close>

lemma receive_blocks_step:
  assumes "recv index (min receive_block_size (whole - received)) = segment" "segment \<noteq> []" "received < whole"
    "feed (segment @ drop (length segment) block) (length segment) (received + length segment = whole) x = (x1, True)"
  shows "receive_blocks recv whole index received block x =
    (let (later, x', ok) = receive_blocks recv whole (Suc index) (received + length segment)
           (segment @ drop (length segment) block) (x1\<lparr>ex_content := []\<rparr>)
     in ((ex_content x1, last_boundary_detected x1) # later, x', ok))"
  using assms
  by (subst receive_blocks.simps) (simp add: overwrite_front_def take_content_def Let_def split_beta)

lemma receive_hidden_blocks:
  assumes "drop index segments = later" "received + sum_list (map length later) = whole"
    "ex_content x = []" "ex_status x \<noteq> Extract_complete" "ex_status x \<noteq> Extract_failed"
    "list_all segment_fits later" "list_all (hides_boundary (ex_boundary x)) later"
  shows "\<exists>x'. receive_blocks (socket_of segments) whole index received block x =
      (map (\<lambda>segment. (segment, False)) later, x', True) \<and>
      ex_status x' = (if later = [] then ex_status x else Extract_complete)"
  using assms
proof (induction later arbitrary: index received block x)
  case Nil
  then show ?case by (simp add: receive_blocks.simps)
next
  case (Cons segment later)
  let ?received = "received + length segment"
  define x1 where "x1 = x\<lparr>ex_content := segment,
    ex_status := if ?received = whole then Extract_complete else Reading_content, last_boundary_detected := False\<rparr>"
  from Cons.prems have fits: "segment \<noteq> []" "length segment \<le> receive_block_size"
    and open_ended: "\<not> whole \<le> received" "length segment \<le> whole - received"
    by (auto simp: segment_fits_def)
  have index: "index < length segments" "segments ! index = segment" "drop (Suc index) segments = later"
    using Cons.prems(1)
    by (metis drop_eq_Nil list.distinct(1) not_le_imp_less,
        metis Cons_nth_drop_Suc drop_eq_Nil list.distinct(1) list.inject not_le_imp_less,
        metis drop_Suc list.sel(3) tl_drop)
  have chunk: "socket_of segments index (min receive_block_size (whole - received)) = segment"
    using index fits open_ended by (simp add: socket_of_def)
  have fed: "feed (segment @ drop (length segment) block) (length segment) (?received = whole) x = (x1, True)"
    using feed_hidden [of x segment "drop (length segment) block" "?received = whole"] Cons.prems
    by (simp add: x1_def)
  let ?block = "segment @ drop (length segment) block" and ?x = "x1\<lparr>ex_content := []\<rparr>"
  have step: "receive_blocks (socket_of segments) whole index received block x =
      (let (rest, x', ok) = receive_blocks (socket_of segments) whole (Suc index) ?received ?block ?x
       in ((segment, False) # rest, x', ok))"
    using receive_blocks_step [where recv = "socket_of segments" and segment = segment and block = block,
        OF chunk fits(1) _ fed] open_ended by (simp add: x1_def)
  show ?case
  proof (cases "later = []")
    case True
    with Cons.prems have "?received = whole" by simp
    with True show ?thesis
      by (simp add: step receive_blocks_end x1_def)
  next
    case False
    with Cons.prems have more: "?received \<noteq> whole"
      by (cases later) (auto simp: segment_fits_def)
    have "\<exists>x'. receive_blocks (socket_of segments) whole (Suc index) ?received
        ?block ?x = (map (\<lambda>segment. (segment, False)) later, x', True) \<and>
        ex_status x' = (if later = [] then ex_status ?x else Extract_complete)"
      by (rule Cons.IH) (use index Cons.prems more in \<open>auto simp: x1_def\<close>)
    with False show ?thesis by (auto simp: step)
  qed
qed

lemma receive_request:
  assumes opens: "opens_part boundary header"
    and fits: "list_all segment_fits ((header @ first_part) # later)"
    and hidden: "list_all (hides_boundary boundary) later"
  shows "\<exists>x'. receive_blocks (socket_of ((header @ first_part) # later))
      (sum_list (map length ((header @ first_part) # later))) 0 0 block (new_extractor boundary) =
      ((first_part, True) # map (\<lambda>segment. (segment, False)) later, x', True) \<and> ex_status x' = Extract_complete"
proof -
  let ?segment = "header @ first_part"
  let ?segments = "?segment # later"
  define whole where "whole = sum_list (map length ?segments)"
  define x1 where "x1 = (new_extractor boundary)\<lparr>ex_content := first_part,
    ex_status := if 0 + length ?segment = whole then Extract_complete else Reading_content,
    last_boundary_detected := True\<rparr>"
  let ?block = "?segment @ drop (length ?segment) block" and ?x = "x1\<lparr>ex_content := []\<rparr>"
  from fits have nonempty: "?segment \<noteq> []" and size: "length ?segment \<le> receive_block_size"
    by (simp_all add: segment_fits_def)
  have positive: "0 < whole"
    using nonempty by (auto simp: whole_def)
  have chunk: "socket_of ?segments 0 (min receive_block_size (whole - 0)) = ?segment"
    using size by (simp add: socket_of_def whole_def)
  have fed: "feed (?segment @ drop (length ?segment) block) (length ?segment) (0 + length ?segment = whole)
      (new_extractor boundary) = (x1, True)"
    using feed_opening [of "new_extractor boundary" header first_part] opens
    by (simp add: x1_def new_extractor_def)
  note step = receive_blocks_step [where recv = "socket_of ?segments" and index = 0 and received = 0
      and segment = ?segment and block = block, OF chunk nonempty positive fed]
  show ?thesis
  proof (cases "later = []")
    case True
    then have all: "whole = length ?segment" by (simp add: whole_def)
    have "receive_blocks (socket_of ?segments) whole 0 0 block (new_extractor boundary) =
        ((first_part, True) # map (\<lambda>segment. (segment, False)) later, ?x, True)"
      by (subst step) (simp add: all receive_blocks_end x1_def True)
    moreover have "ex_status ?x = Extract_complete"
      by (simp add: x1_def all)
    ultimately show ?thesis
      unfolding whole_def [symmetric] by blast
  next
    case False
    then have more: "length ?segment \<noteq> whole"
      using fits by (cases later) (auto simp: segment_fits_def whole_def)
    have "\<exists>x'. receive_blocks (socket_of ?segments) whole (Suc 0) (0 + length ?segment) ?block ?x =
        (map (\<lambda>segment. (segment, False)) later, x', True) \<and>
        ex_status x' = (if later = [] then ex_status ?x else Extract_complete)"
      by (rule receive_hidden_blocks)
         (use fits hidden more in \<open>auto simp: x1_def new_extractor_def whole_def\<close>)
    with False show ?thesis
      unfolding whole_def [symmetric] by (auto simp: step x1_def)
  qed
qed

definition accepted_header :: "web_request \<Rightarrow> string \<Rightarrow> bool" where
  "accepted_header request boundary \<longleftrightarrow>
     content_type_header request \<noteq> [] \<and> length (content_type_header request) < content_type_capacity \<and>
     content_type_readable request \<and>
     parse_multipart_content_type (content_type_header request) = Some boundary"

lemma receive_accepted_header:
  assumes "accepted_header request boundary" "\<And>limit. maximum = Some limit \<Longrightarrow> request_size request \<le> limit"
  shows "receive_multipart_part recv request maximum =
    (let (offers, x, ok) = receive_blocks recv (request_size request) 0 0
           (replicate receive_block_size 0) (new_extractor boundary)
     in if ok \<and> ex_status x = Extract_complete then (offers, None)
        else (offers, Some ''Invalid multipart request''))"
  using assms by (cases maximum) (auto simp: receive_multipart_part_def accepted_header_def Let_def)

text \<open>The blocks that the writes carry, and their offsets.\<close>

fun volume_writes :: "u32 \<Rightarrow> bytes list \<Rightarrow> direct_call list" where
  "volume_writes offset [] = []"
| "volume_writes offset (block # blocks) =
     Dir_write_at offset block # volume_writes (offset + of_nat (length block)) blocks"

lemma fold_volume_offer:
  "fst (fold volume_offer blocks (h, offset)) = h @ volume_writes offset blocks"
  by (induction blocks arbitrary: h offset) (simp_all add: volume_offer_def)

lemma partition_after_append: "partition_after (calls @ rest) p = partition_after rest (partition_after calls p)"
  by (induction calls p rule: partition_after.induct) simp_all

lemma partition_after_writes:
  assumes "unat offset + length (concat blocks) \<le> length p" "length p < 2 ^ 32"
  shows "partition_after (volume_writes offset blocks) p =
    take (unat offset) p @ concat blocks @ drop (unat offset + length (concat blocks)) p"
  using assms
proof (induction blocks arbitrary: offset p)
  case Nil
  then show ?case by simp
next
  case (Cons block blocks)
  let ?p = "take (unat offset) p @ block @ drop (unat offset + length block) p"
  have next_offset: "unat (offset + of_nat (length block)) = unat offset + length block"
    using Cons.prems by (simp add: unat_word_ariths unat_of_nat)
  have same: "length ?p = length p"
    using Cons.prems by simp
  have "partition_after (volume_writes (offset + of_nat (length block)) blocks) ?p =
      take (unat offset + length block) ?p @ concat blocks @
      drop (unat offset + length block + length (concat blocks)) ?p"
    using Cons.IH [of "offset + of_nat (length block)" ?p] Cons.prems same by (simp add: next_offset)
  moreover have "take (unat offset + length block) ?p = take (unat offset) p @ block"
    using Cons.prems by simp
  moreover have "drop (unat offset + length block + length (concat blocks)) ?p =
      drop (unat offset + length block + length (concat blocks)) p"
    using Cons.prems by (simp add: ac_simps)
  ultimately show ?case
    by (simp add: add.assoc)
qed


text \<open>The example: a boundary of one character, a part header, and an image cut in two segments.\<close>

definition sample_request :: web_request where
  "sample_request = \<lparr>content_type_header = ''multipart/form-data; boundary=B'', content_type_readable = True, request_size = 15\<rparr>"

definition sample_segments :: "bytes list" where
  "sample_segments = [octets ([CHR ''-'', CHR ''-'', CHR ''B''] @ header_terminator) @ [1, 0, 2], [3, 0, 4, 45, 66]]"


text \<open>What the loop reports: it ends as complete as soon as one octet was announced.\<close>

lemma feed_progress:
  assumes "ex_status x \<noteq> Extract_complete" "ex_status x \<noteq> Extract_failed" "current_size \<le> length accessible"
  shows "\<exists>x'. feed accessible current_size finished x = (x', True) \<and>
    ex_status x' \<noteq> Extract_failed \<and> (ex_status x' = Extract_complete \<longleftrightarrow> finished)"
  using assms by (auto simp: feed_def feed_accepted_def Let_def split: option.splits)

lemma receive_blocks_completes:
  assumes "\<forall>index requested. length (recv index requested) \<le> requested" "received < whole"
    "ex_status x \<noteq> Extract_complete" "ex_status x \<noteq> Extract_failed"
  shows "\<exists>offers x'. receive_blocks recv whole index received block x = (offers, x', True) \<and>
    ex_status x' = Extract_complete"
  using assms
proof (induction recv whole index received block x rule: receive_blocks.induct)
  case (1 recv whole index received block x)
  let ?chunk = "recv index (min receive_block_size (whole - received))"
  show ?case
  proof (cases "?chunk = []")
    case True
    with 1(3) feed_progress [OF 1(4,5), of 0 "[]" True] show ?thesis
      by (subst receive_blocks.simps) auto
  next
    case False
    let ?block = "overwrite_front ?chunk block"
    have "length ?chunk \<le> length ?block"
      by (simp add: overwrite_front_def)
    then obtain x1 where fed: "feed ?block (length ?chunk) (received + length ?chunk = whole) x = (x1, True)"
      and status: "ex_status x1 \<noteq> Extract_failed" "ex_status x1 = Extract_complete \<longleftrightarrow> received + length ?chunk = whole"
      using feed_progress [OF 1(4,5)] by blast
    let ?x = "x1\<lparr>ex_content := []\<rparr>"
    have most: "received + length ?chunk \<le> whole"
      using 1(2) [rule_format, of index "min receive_block_size (whole - received)"] 1(3) by linarith
    have "\<exists>offers x'. receive_blocks recv whole (Suc index) (received + length ?chunk) ?block ?x = (offers, x', True) \<and>
        ex_status x' = Extract_complete"
    proof (cases "received + length ?chunk = whole")
      case True
      with status show ?thesis by (simp add: receive_blocks_end)
    next
      case more: False
      show ?thesis
        by (rule 1(1) [OF _ refl False refl refl fed [symmetric] refl])
           (use 1(2,3) most more status in \<open>auto simp: take_content_def\<close>)
    qed
    then show ?thesis
      using 1(3) False fed by (subst receive_blocks.simps) (auto simp: take_content_def Let_def)
  qed
qed

definition acceptable_request :: "web_request \<Rightarrow> nat option \<Rightarrow> bool" where
  "acceptable_request request maximum \<longleftrightarrow>
     content_type_header request \<noteq> [] \<and> length (content_type_header request) < content_type_capacity \<and>
     content_type_readable request \<and>
     parse_multipart_content_type (content_type_header request) \<noteq> None \<and>
     (case maximum of None \<Rightarrow> True | Some limit \<Rightarrow> request_size request \<le> limit) \<and> 0 < request_size request"

lemma receive_outcome:
  assumes bounded: "\<forall>index requested. length (recv index requested) \<le> requested"
  shows "if acceptable_request request maximum then snd (receive_multipart_part recv request maximum) = None
    else fst (receive_multipart_part recv request maximum) = [] \<and>
         snd (receive_multipart_part recv request maximum) \<noteq> None"
proof (cases "(\<exists>boundary. accepted_header request boundary) \<and>
    (case maximum of None \<Rightarrow> True | Some limit \<Rightarrow> request_size request \<le> limit)")
  case True
  then obtain boundary where header: "accepted_header request boundary" by auto
  have limit: "\<And>limit. maximum = Some limit \<Longrightarrow> request_size request \<le> limit"
    using True by simp
  note accepted = receive_accepted_header [OF header limit, where recv = recv]
  show ?thesis
  proof (cases "request_size request = 0")
    case True
    then show ?thesis
      by (simp add: accepted receive_blocks_end new_extractor_def acceptable_request_def)
  next
    case False
    then have "0 < request_size request" by simp
    then obtain offers x' where "receive_blocks recv (request_size request) 0 0
        (replicate receive_block_size 0) (new_extractor boundary) = (offers, x', True)" "ex_status x' = Extract_complete"
      using receive_blocks_completes [OF bounded, of 0 "request_size request" "new_extractor boundary" 0
          "replicate receive_block_size 0"]
      by (auto simp: new_extractor_def)
    with False True header show ?thesis
      by (simp add: accepted acceptable_request_def accepted_header_def)
  qed
next
  case False
  then show ?thesis
    by (cases maximum)
       (auto simp: receive_multipart_part_def accepted_header_def acceptable_request_def Let_def split: option.splits)
qed

text \<open>
  With a socket that never returns more than asked for, an upload is accepted exactly when its
  Content-Type names a boundary, the request is within the limit and at least one octet was
  announced: a connection that breaks off, at any point, is accepted as well.
\<close>

theorem upload_accepted_iff:
  assumes "\<forall>index requested. length (recv index requested) \<le> requested"
  shows "snd (receive_multipart_part recv request maximum) = None \<longleftrightarrow> acceptable_request request maximum"
  using receive_outcome [OF assms, of request maximum] by (auto split: if_splits)

theorem upload_accepted_iff_witness:
  "snd (receive_multipart_part (\<lambda>_ _. []) sample_request None) = None \<longleftrightarrow> acceptable_request sample_request None"
  by (rule upload_accepted_iff) simp

text \<open>
  A firmware upload that is refused after the update was begun (no usable Content-Type, more than
  two mebibytes, or an empty body) has stopped the camera, erased the inactive partition and opened
  the update, which nothing ends or aborts; and when the camera was in use, live video takes it for
  available from then on and never starts it again.
\<close>

theorem refused_upload_disables_camera:
  assumes bounded: "\<forall>index requested. length (recv index requested) \<le> requested"
    and refused: "\<not> acceptable_request request (Some (2 * 1024 * 1024))"
    and granted: "\<And>h call. env h call"
    and running: "camera_initialized c"
  shows "(\<exists>message. firmware_update_handler recv request env [] =
      [Dir_deinitialize_camera, Dir_select_inactive, Dir_erase, Dir_begin 0xFFFFFFFF, Dir_respond 400 message]) \<and>
    ensure_available start (Live_available, fst (camera_deinitialize True c)) =
      ((Live_available, c\<lparr>camera_initialized := False\<rparr>), True)"
proof -
  from receive_outcome [OF bounded, of request "Some (2 * 1024 * 1024)"] refused
  obtain message where "receive_multipart_part recv request (Some (2 * 1024 * 1024)) = ([], Some message)"
    by (metis option.collapse prod.collapse)
  moreover have "direct_begin env [] =
      ([Dir_deinitialize_camera, Dir_select_inactive, Dir_erase, Dir_begin 0xFFFFFFFF], True)"
    by (simp add: direct_begin_def granted)
  ultimately show ?thesis
    using running by (simp add: firmware_update_handler_def camera_deinitialize_def ensure_available_def)
qed

theorem refused_upload_disables_camera_witness:
  "(\<exists>message. firmware_update_handler (\<lambda>_ _. []) (sample_request\<lparr>content_type_header := ''text/plain''\<rparr>) (\<lambda>_ _. True) [] =
      [Dir_deinitialize_camera, Dir_select_inactive, Dir_erase, Dir_begin 0xFFFFFFFF, Dir_respond 400 message]) \<and>
    ensure_available (camera_initialize True True)
        (Live_available, fst (camera_deinitialize True \<lparr>dma_reserved = False, camera_initialized = True\<rparr>)) =
      ((Live_available, \<lparr>dma_reserved = False, camera_initialized = True\<rparr>\<lparr>camera_initialized := False\<rparr>), True)"
  by (rule refused_upload_disables_camera)
     (simp_all add: acceptable_request_def parse_multipart_content_type_def content_type_capacity_def)

end
