(* ===== verification/Configuration_Text.thy ===== *)
theory Configuration_Text
  imports Text_Protocol
begin

text \<open>
  The text of the configuration, \<open>components/core/src/configuration/configuration_syntax.cpp\<close>: trimming,
  the selector hash, the lines of the card's file and of the live view, the tokens of the
  configuration commands and the rewriting of a file. The first section is the interface that
  every store of settings provides, a lookup and an update that agree on which keys are the same.
\<close>

section \<open>Stores of settings\<close>

fun assign_all :: "('k \<Rightarrow> 'v \<Rightarrow> 's \<Rightarrow> 's) \<Rightarrow> ('k \<times> 'v) list \<Rightarrow> 's \<Rightarrow> 's" where
  "assign_all put [] s = s"
| "assign_all put ((k, v) # kvs) s = assign_all put kvs (put k v s)"

text \<open>The last of the assignments to the same key, if there is one.\<close>

fun last_assigned :: "('k \<Rightarrow> 'k \<Rightarrow> bool) \<Rightarrow> 'k \<Rightarrow> ('k \<times> 'v) list \<Rightarrow> 'v option" where
  "last_assigned same k [] = None"
| "last_assigned same k ((k', v) # kvs) =
     (case last_assigned same k kvs of
        None \<Rightarrow> if same k' k then Some v else None
      | Some w \<Rightarrow> Some w)"

text \<open>Every assignment of the list is admitted in the state it meets.\<close>

fun admits_all ::
    "('k \<Rightarrow> 'v \<Rightarrow> 's \<Rightarrow> 's) \<Rightarrow> ('s \<Rightarrow> 'k \<Rightarrow> 'v \<Rightarrow> bool) \<Rightarrow> 's \<Rightarrow> ('k \<times> 'v) list \<Rightarrow> bool" where
  "admits_all put admits s [] \<longleftrightarrow> True"
| "admits_all put admits s ((k, v) # kvs) \<longleftrightarrow>
     admits s k v \<and> admits_all put admits (put k v s) kvs"

locale settings_store =
  fixes lookup :: "'s \<Rightarrow> 'k \<Rightarrow> 'v option"
    and put :: "'k \<Rightarrow> 'v \<Rightarrow> 's \<Rightarrow> 's"
    and same :: "'k \<Rightarrow> 'k \<Rightarrow> bool"
    and admits :: "'s \<Rightarrow> 'k \<Rightarrow> 'v \<Rightarrow> bool"
  assumes lookup_same: "admits s k v \<Longrightarrow> same k k' \<Longrightarrow> lookup (put k v s) k' = Some v"
    and lookup_other: "admits s k v \<Longrightarrow> \<not> same k k' \<Longrightarrow> lookup (put k v s) k' = lookup s k'"
begin

lemma lookup_assign_all:
  "admits_all put admits s kvs \<Longrightarrow> lookup (assign_all put kvs s) k =
     (case last_assigned same k kvs of None \<Rightarrow> lookup s k | Some v \<Rightarrow> Some v)"
proof (induction kvs arbitrary: s)
  case Nil
  then show ?case by simp
next
  case (Cons kv kvs)
  obtain k' v where kv: "kv = (k', v)" by (cases kv)
  show ?case
    using Cons.IH [of "put k' v s"] Cons.prems lookup_same [of s k' v k] lookup_other [of s k' v k]
    by (auto simp: kv split: option.split)
qed

lemma admits_all_invariant:
  assumes "\<And>s k v. Inv s \<Longrightarrow> good k v \<Longrightarrow> admits s k v \<and> Inv (put k v s)"
  shows "Inv s \<Longrightarrow> \<forall>(k, v) \<in> set kvs. good k v \<Longrightarrow> admits_all put admits s kvs"
  by (induction kvs arbitrary: s) (use assms in auto)

end

section \<open>Characters and trimming\<close>

definition is_ascii_whitespace :: "char \<Rightarrow> bool" where
  "is_ascii_whitespace c \<longleftrightarrow>
     c \<in> {CHR '' '', CHR 0x09, CHR 0x0A, CHR 0x0D, CHR 0x0B, CHR 0x0C}"

definition trim_ascii :: "string \<Rightarrow> string" where
  "trim_ascii text = rev (dropWhile is_ascii_whitespace (rev (dropWhile is_ascii_whitespace text)))"

definition configuration_hash :: "string \<Rightarrow> u16" where
  "configuration_hash text = foldl (\<lambda>value c. value * 33 + ucast (octet c)) 0 text"

section \<open>Lines\<close>

type_synonym configuration_entry = "string \<times> string"

definition find_delimiter :: "string \<Rightarrow> nat option" where
  "find_delimiter line =
     (case find_char CHR ''='' line of None \<Rightarrow> find_char CHR '' '' line | Some n \<Rightarrow> Some n)"

definition parse_sd_config_line :: "string \<Rightarrow> configuration_entry option" where
  "parse_sd_config_line line =
     (let line = trim_ascii line
      in if line = [] \<or> hd line = CHR '';'' then None
         else case find_delimiter line of
                None \<Rightarrow> None
              | Some delimiter \<Rightarrow>
                  let key = trim_ascii (take delimiter line)
                  in if key = [] then None
                     else
                       let value = drop (delimiter + 1) line;
                           value = (case find_char CHR ''#'' value of
                                      None \<Rightarrow> value | Some comment \<Rightarrow> take comment value)
                       in Some (key, trim_ascii value))"

definition parse_live_config_chunk :: "bytes \<Rightarrow> configuration_entry option" where
  "parse_live_config_chunk chunk =
     (if length chunk = 0 \<or> chunk ! 0 = octet CHR '';'' \<or> chunk ! 0 = 0x0A \<or> chunk ! 0 = 0x0D
      then None
      else let text = chars chunk
           in case find_char CHR ''='' text of
                None \<Rightarrow> None
              | Some delimiter \<Rightarrow>
                  let key = trim_ascii (take delimiter text)
                  in if key = [] then None
                     else Some (key, trim_ascii (drop (delimiter + 1) text)))"

section \<open>Tokens\<close>

text \<open>The number is that of the tokens that may still be taken.\<close>

fun configuration_tokens :: "nat \<Rightarrow> bytes \<Rightarrow> string list" where
  "configuration_tokens 0 argument = []"
| "configuration_tokens (Suc n) argument =
     (let argument = dropWhile (\<lambda>b. b = octet CHR '' '') argument
      in if argument = [] then []
         else decode_escaped (takeWhile (\<lambda>b. b \<noteq> octet CHR '' '') argument) #
              configuration_tokens n (dropWhile (\<lambda>b. b \<noteq> octet CHR '' '') argument))"

definition parse_configuration_tokens :: "bytes \<Rightarrow> nat \<Rightarrow> string list" where
  "parse_configuration_tokens argument maximum_tokens = configuration_tokens maximum_tokens argument"

section \<open>Rewriting\<close>

text \<open>One line without its line feed; \<open>ended\<close> says whether it had one.\<close>

definition rewrite_line :: "string \<Rightarrow> string \<Rightarrow> string \<Rightarrow> bool \<Rightarrow> string \<times> bool" where
  "rewrite_line key value raw ended =
     (let line = (if raw \<noteq> [] \<and> last raw = CHR 0x0D then butlast raw else raw)
      in case find_delimiter line of
           None \<Rightarrow> (raw @ (if ended then [CHR 0x0A] else []), False)
         | Some delimiter \<Rightarrow>
             if trim_ascii (take delimiter line) = key
             then let old = dropWhile is_ascii_whitespace (drop (delimiter + 1) line);
                      suffix = dropWhile (\<lambda>c. \<not> is_ascii_whitespace c \<and> c \<noteq> CHR ''#'') old
                  in (key @ [line ! delimiter] @ value @ suffix @ [CHR 0x0A], True)
             else (raw @ (if ended then [CHR 0x0A] else []), False))"

function rewrite_lines :: "string \<Rightarrow> string \<Rightarrow> string \<Rightarrow> string \<times> bool" where
  "rewrite_lines key value content =
     (if content = [] then ([], False)
      else case find_char CHR 0x0A content of
             None \<Rightarrow> rewrite_line key value content False
           | Some n \<Rightarrow>
               let (text, replaced) = rewrite_line key value (take n content) True;
                   (rest, again) = rewrite_lines key value (drop (n + 1) content)
               in (text @ rest, replaced \<or> again))"
  by pat_completeness auto

termination
  by (relation "measure (\<lambda>(key, value, content). length content)") auto

definition rewrite_sd_configuration :: "string \<Rightarrow> string \<Rightarrow> string \<Rightarrow> string" where
  "rewrite_sd_configuration content key value =
     (let (rewritten, replaced) = rewrite_lines key value content
      in if \<not> replaced
         then rewritten @ (if rewritten \<noteq> [] \<and> last rewritten \<noteq> CHR 0x0A then [CHR 0x0A] else []) @
              key @ '' '' @ value @ [CHR 0x0A]
         else rewritten)"

text \<open>Trimming: what is left has no white space at its ends, and trimmed text is kept.\<close>

definition trimmed :: "string \<Rightarrow> bool" where
  "trimmed s \<longleftrightarrow> s = [] \<or> \<not> is_ascii_whitespace (hd s) \<and> \<not> is_ascii_whitespace (last s)"

lemma trimmed_trim_ascii: "trimmed (trim_ascii s)"
proof (cases "trim_ascii s = []")
  case False
  define t where "t = dropWhile is_ascii_whitespace s"
  have u: "trim_ascii s = rev (dropWhile is_ascii_whitespace (rev t))" by (simp add: trim_ascii_def t_def)
  have ne: "dropWhile is_ascii_whitespace (rev t) \<noteq> []" using False u by simp
  have "\<not> is_ascii_whitespace (last (trim_ascii s))"
    using hd_dropWhile [OF ne] ne by (simp add: u last_rev)
  moreover have "hd (trim_ascii s) = hd t"
  proof -
    have "t = trim_ascii s @ rev (takeWhile is_ascii_whitespace (rev t))"
      unfolding u rev_append [symmetric] takeWhile_dropWhile_id by simp
    then show ?thesis using False by (metis hd_append2)
  qed
  moreover have "t \<noteq> []" using ne by auto
  then have "\<not> is_ascii_whitespace (hd t)" unfolding t_def by (rule hd_dropWhile)
  ultimately show ?thesis by (simp add: trimmed_def)
qed (simp add: trimmed_def)

lemma dropWhile_not_hd: "xs \<noteq> [] \<Longrightarrow> \<not> P (hd xs) \<Longrightarrow> dropWhile P xs = xs"
  by (cases xs) simp_all

lemma trim_ascii_trimmed:
  assumes "trimmed s"
  shows "trim_ascii s = s"
proof (cases "s = []")
  case False
  then have "dropWhile is_ascii_whitespace s = s"
    "dropWhile is_ascii_whitespace (rev s) = rev s"
    using assms by (auto simp: trimmed_def hd_rev intro!: dropWhile_not_hd)
  then show ?thesis by (simp add: trim_ascii_def)
qed (simp add: trim_ascii_def)

lemma set_dropWhile_subset: "set (dropWhile P xs) \<subseteq> set xs"
  by (auto dest: set_dropWhileD)

lemma set_trim_ascii: "set (trim_ascii s) \<subseteq> set s"
  unfolding trim_ascii_def set_rev
  using set_dropWhile_subset [of is_ascii_whitespace s]
    set_dropWhile_subset [of is_ascii_whitespace "rev (dropWhile is_ascii_whitespace s)"]
  by simp

end
