(* ===== verification/Configuration_Document.thy ===== *)
theory Configuration_Document
  imports Configuration_Text Transfer_Paths
begin

text \<open>
  The configuration document, \<open>components/application/src/configuration/configuration_document.cpp\<close>,
  and its namespaces. Document and namespace are settings stores; a document that was read, with its
  keys in upper case, survives being written and read again.
\<close>

section \<open>The document\<close>

record document_line =
  line_original :: string
  line_key :: string
  line_value :: string
  line_is_entry :: bool

type_synonym document = "document_line list"

definition lower_char :: "char \<Rightarrow> char" where
  "lower_char c =
     (if octet CHR ''A'' \<le> octet c \<and> octet c \<le> octet CHR ''Z'' then chr_of (octet c + 32) else c)"

definition upper_char :: "char \<Rightarrow> char" where
  "upper_char c =
     (if octet CHR ''a'' \<le> octet c \<and> octet c \<le> octet CHR ''z'' then chr_of (octet c - 32) else c)"

definition uppercase_ascii :: "string \<Rightarrow> string" where
  "uppercase_ascii value = map upper_char value"

definition equal_case_insensitive :: "string \<Rightarrow> string \<Rightarrow> bool" where
  "equal_case_insensitive left right \<longleftrightarrow>
     length left = length right \<and> (\<forall>i < length left. lower_char (left ! i) = lower_char (right ! i))"

definition begins_case_insensitive :: "string \<Rightarrow> string \<Rightarrow> bool" where
  "begins_case_insensitive value prefix \<longleftrightarrow>
     length value \<ge> length prefix \<and> equal_case_insensitive (take (length prefix) value) prefix"

definition key_separator :: "string \<Rightarrow> nat option" where
  "key_separator content =
     (case find_char CHR ''='' content of
        Some n \<Rightarrow> Some n
      | None \<Rightarrow> (let n = length (takeWhile (\<lambda>c. c \<noteq> CHR '' '' \<and> c \<noteq> CHR 0x09) content)
                 in if n < length content then Some n else None))"

definition parse_document_line :: "string \<Rightarrow> document_line" where
  "parse_document_line text =
     (let original = (if text \<noteq> [] \<and> last text = CHR 0x0D then butlast text else text);
          content = trim_ascii original;
          other = \<lparr>line_original = original, line_key = [], line_value = [], line_is_entry = False\<rparr>
      in if content \<noteq> [] \<and> hd content \<noteq> CHR ''#'' \<and> hd content \<noteq> CHR '';''
         then case key_separator content of
                None \<Rightarrow> other
              | Some separator \<Rightarrow>
                  let key = trim_ascii (take separator content);
                      value = trim_ascii (drop (separator + 1) content)
                  in if key \<noteq> []
                     then other\<lparr>line_key := key, line_value := value, line_is_entry := True\<rparr>
                     else other
         else other)"

text \<open>The texts between the line feeds; nothing follows a final line feed.\<close>

function document_texts :: "string \<Rightarrow> string list" where
  "document_texts text =
     (if text = [] then []
      else case find_char CHR 0x0A text of
             None \<Rightarrow> [text]
           | Some n \<Rightarrow> take n text # document_texts (drop (n + 1) text))"
  by pat_completeness auto

termination
  by (relation "measure length") auto

declare document_texts.simps [simp del]

definition parse_document :: "string \<Rightarrow> document" where
  "parse_document text = map parse_document_line (document_texts text)"

definition line_matches :: "string \<Rightarrow> document_line \<Rightarrow> bool" where
  "line_matches key line \<longleftrightarrow> line_is_entry line \<and> equal_case_insensitive (line_key line) key"

definition document_get :: "document \<Rightarrow> string \<Rightarrow> string option" where
  "document_get document key = map_option line_value (find (line_matches key) document)"

definition entry_line :: "string \<Rightarrow> string \<Rightarrow> document_line" where
  "entry_line key value =
     \<lparr>line_original = key @ ''='' @ value, line_key = key, line_value = value, line_is_entry = True\<rparr>"

fun document_set :: "string \<Rightarrow> string \<Rightarrow> document \<Rightarrow> document" where
  "document_set key value [] = [entry_line (uppercase_ascii key) value]"
| "document_set key value (line # document) =
     (if line_matches key line then entry_line (uppercase_ascii key) value # document
      else line # document_set key value document)"

definition uppercase_keys :: "document \<Rightarrow> document" where
  "uppercase_keys document =
     map (\<lambda>line. if \<not> line_is_entry line then line
                 else let key = uppercase_ascii (line_key line)
                      in line\<lparr>line_key := key, line_original := key @ ''='' @ line_value line\<rparr>)
       document"

definition document_entries :: "document \<Rightarrow> configuration_entry list" where
  "document_entries document =
     map (\<lambda>line. (line_key line, line_value line)) (filter line_is_entry document)"

fun join_lines :: "string list \<Rightarrow> string" where
  "join_lines [] = []"
| "join_lines [line] = line"
| "join_lines (line # lines) = line @ [CHR 0x0A] @ join_lines lines"

definition serialize_document :: "document \<Rightarrow> string" where
  "serialize_document document =
     join_lines (map line_original document) @ (if document \<noteq> [] then [CHR 0x0A] else [])"

definition document_lines :: "document \<Rightarrow> string list" where
  "document_lines document = map line_original document"

section \<open>Namespaces\<close>

definition namespace_prefix :: "string \<Rightarrow> string" where
  "namespace_prefix tag = (if tag \<noteq> [] \<and> last tag \<noteq> CHR ''_'' then tag @ ''_'' else tag)"

definition namespace_get :: "string \<Rightarrow> document \<Rightarrow> string \<Rightarrow> string option" where
  "namespace_get tag document key = document_get document (namespace_prefix tag @ key)"

definition namespace_set :: "string \<Rightarrow> string \<Rightarrow> string \<Rightarrow> document \<Rightarrow> document" where
  "namespace_set tag key value document = document_set (namespace_prefix tag @ key) value document"

definition namespace_get_all :: "string \<Rightarrow> document \<Rightarrow> configuration_entry list" where
  "namespace_get_all tag document =
     map (\<lambda>(key, value). (drop (length (namespace_prefix tag)) key, value))
       (filter (\<lambda>(key, value). begins_case_insensitive key (namespace_prefix tag))
         (document_entries document))"

section \<open>Keys that are the same\<close>

lemma octet_letters [simp]:
  "octet CHR ''A'' = 65" "octet CHR ''Z'' = 90" "octet CHR ''a'' = 97" "octet CHR ''z'' = 122"
  by (simp_all add: octet_def)

lemma lower_upper [simp]: "lower_char (upper_char c) = lower_char c"
proof (cases "octet CHR ''a'' \<le> octet c \<and> octet c \<le> octet CHR ''z''")
  case True
  then have range: "97 \<le> unat (octet c)" "unat (octet c) \<le> 122"
    by (simp_all add: word_le_nat_alt)
  then have "unat (octet c - 32) = unat (octet c) - 32"
    using unat_sub [of 32 "octet c"] by (simp add: word_le_nat_alt)
  then have "65 \<le> octet c - 32" "octet c - 32 \<le> 90" "\<not> octet c \<le> 90"
    using range by (simp_all add: word_le_nat_alt)
  then show ?thesis using True by (simp add: lower_char_def upper_char_def)
next
  case False
  then show ?thesis unfolding upper_char_def by (simp only: if_False)
qed

lemma map_lower_upper [simp]: "map lower_char (uppercase_ascii s) = map lower_char s"
  by (simp add: uppercase_ascii_def)

lemma equal_case_insensitive_iff:
  "equal_case_insensitive l r \<longleftrightarrow> map lower_char l = map lower_char r"
  by (auto simp: equal_case_insensitive_def list_eq_iff_nth_eq)

lemma line_matches_cong:
  "equal_case_insensitive k k' \<Longrightarrow> line_matches k = line_matches k'"
  by (auto simp: line_matches_def equal_case_insensitive_iff fun_eq_iff)

lemma document_get_set:
  "document_get (document_set key value document) key' =
     (if equal_case_insensitive key key' then Some value else document_get document key')"
proof (induction document)
  case Nil
  then show ?case
    by (simp add: document_get_def line_matches_def entry_line_def equal_case_insensitive_iff)
next
  case (Cons line document)
  have matches: "line_matches key' (entry_line (uppercase_ascii key) value) \<longleftrightarrow>
      equal_case_insensitive key key'"
    by (simp add: line_matches_def entry_line_def equal_case_insensitive_iff)
  have "line_matches key line \<Longrightarrow> line_matches key' line \<longleftrightarrow> equal_case_insensitive key key'"
    by (auto simp: line_matches_def equal_case_insensitive_iff)
  then show ?case
    using Cons.IH matches line_matches_cong [of key key']
    by (auto simp: document_get_def entry_line_def)
qed

interpretation document: settings_store document_get document_set equal_case_insensitive
    "\<lambda>document key value. True"
  by unfold_locales (simp_all add: document_get_set)

lemma namespace_same_prefix:
  "equal_case_insensitive (p @ k) (p @ k') \<longleftrightarrow> equal_case_insensitive k k'"
  by (simp add: equal_case_insensitive_iff)

interpretation namespace: settings_store "namespace_get tag" "namespace_set tag"
    equal_case_insensitive "\<lambda>document key value. True" for tag
  by unfold_locales
    (simp_all add: namespace_get_def namespace_set_def document_get_set namespace_same_prefix)

section \<open>The document as text\<close>

text \<open>
  Keys and values that survive as one line of text: trimmed, on one line, the key not empty, without
  the separator and not a comment.
\<close>

definition textual_key :: "string \<Rightarrow> bool" where
  "textual_key key \<longleftrightarrow> key \<noteq> [] \<and> trimmed key \<and> CHR ''='' \<notin> set key \<and> CHR 0x0A \<notin> set key \<and>
     hd key \<noteq> CHR ''#'' \<and> hd key \<noteq> CHR '';''"

definition textual_value :: "string \<Rightarrow> bool" where
  "textual_value value \<longleftrightarrow> trimmed value \<and> CHR 0x0A \<notin> set value"

definition textual_line :: "document_line \<Rightarrow> bool" where
  "textual_line line \<longleftrightarrow> CHR 0x0A \<notin> set (line_original line) \<and>
     (if line_is_entry line
      then line_original line = line_key line @ ''='' @ line_value line \<and>
           textual_key (line_key line) \<and> textual_value (line_value line)
      else \<not> line_is_entry (parse_document_line (line_original line)))"

lemma parse_entry_line:
  assumes "textual_key key" "textual_value value"
  shows "line_is_entry (parse_document_line (key @ ''='' @ value))"
    "line_key (parse_document_line (key @ ''='' @ value)) = key"
    "line_value (parse_document_line (key @ ''='' @ value)) = value"
proof -
  let ?text = "key @ ''='' @ value"
  have key: "key \<noteq> []" "trimmed key" "CHR ''='' \<notin> set key" "hd key \<noteq> CHR ''#''" "hd key \<noteq> CHR '';''"
    and val: "trimmed value"
    using assms by (simp_all add: textual_key_def textual_value_def)
  have "last ?text \<noteq> CHR 0x0D"
    using val by (auto simp: trimmed_def is_ascii_whitespace_def)
  moreover have "trimmed ?text"
    using key(1,2) val by (auto simp: trimmed_def is_ascii_whitespace_def)
  moreover have "find_char CHR ''='' ?text = Some (length key)"
    using key(3) by (simp add: find_char_append)
  ultimately have "parse_document_line ?text =
      \<lparr>line_original = ?text, line_key = key, line_value = value, line_is_entry = True\<rparr>"
    using key val
    by (simp add: parse_document_line_def Let_def trim_ascii_trimmed key_separator_def)
  then show "line_is_entry (parse_document_line ?text)"
    "line_key (parse_document_line ?text) = key" "line_value (parse_document_line ?text) = value"
    by simp_all
qed

lemma upper_char_id: "\<not> (97 \<le> octet c \<and> octet c \<le> 122) \<Longrightarrow> upper_char c = c"
  unfolding upper_char_def octet_letters by (simp only: if_False)

lemma octet_upper: "97 \<le> octet c \<Longrightarrow> octet c \<le> 122 \<Longrightarrow> octet (upper_char c) = octet c - 32"
  unfolding upper_char_def octet_letters by (simp only: if_True simp_thms octet_chr_of)

lemma upper_char_eq_iff:
  assumes "octet d < 65"
  shows "upper_char c = d \<longleftrightarrow> c = d"
proof (cases "97 \<le> octet c \<and> octet c \<le> 122")
  case True
  then have "65 \<le> octet (upper_char c)"
    using unat_sub [of 32 "octet c"] by (simp add: octet_upper word_le_nat_alt) linarith
  moreover have "\<not> octet c < 65" using True by (simp add: word_less_nat_alt word_le_nat_alt)
  ultimately show ?thesis using assms by (metis not_less)
next
  case False
  then show ?thesis by (simp only: upper_char_id not_False_eq_True)
qed

lemma upper_char_consts [simp]:
  "upper_char c = CHR ''='' \<longleftrightarrow> c = CHR ''=''" "CHR ''='' = upper_char c \<longleftrightarrow> c = CHR ''=''"
  "upper_char c = CHR 0x0A \<longleftrightarrow> c = CHR 0x0A" "CHR 0x0A = upper_char c \<longleftrightarrow> c = CHR 0x0A"
  "upper_char c = CHR ''#'' \<longleftrightarrow> c = CHR ''#''" "upper_char c = CHR '';'' \<longleftrightarrow> c = CHR '';''"
  "is_ascii_whitespace (upper_char c) \<longleftrightarrow> is_ascii_whitespace c"
proof -
  have small: "octet CHR ''='' < 65" "octet CHR 0x0A < 65" "octet CHR ''#'' < 65" "octet CHR '';'' < 65"
    "octet CHR '' '' < 65" "octet CHR 0x09 < 65" "octet CHR 0x0D < 65" "octet CHR 0x0B < 65"
    "octet CHR 0x0C < 65"
    by (simp_all add: octet_def)
  note eqs = small [THEN upper_char_eq_iff, of c]
  show "upper_char c = CHR ''='' \<longleftrightarrow> c = CHR ''=''" "upper_char c = CHR 0x0A \<longleftrightarrow> c = CHR 0x0A"
    "upper_char c = CHR ''#'' \<longleftrightarrow> c = CHR ''#''" "upper_char c = CHR '';'' \<longleftrightarrow> c = CHR '';''"
    by (rule eqs)+
  show "CHR ''='' = upper_char c \<longleftrightarrow> c = CHR ''=''" "CHR 0x0A = upper_char c \<longleftrightarrow> c = CHR 0x0A"
    using eqs(1,2) by metis+
  show "is_ascii_whitespace (upper_char c) \<longleftrightarrow> is_ascii_whitespace c"
    unfolding is_ascii_whitespace_def insert_iff empty_iff eqs ..
qed

lemma textual_key_upper: "textual_key key \<Longrightarrow> textual_key (uppercase_ascii key)"
  by (simp add: textual_key_def uppercase_ascii_def trimmed_def hd_map last_map image_iff) blast

text \<open>Splitting joined lines gives them back.\<close>

lemma document_texts_Cons:
  "CHR 0x0A \<notin> set line \<Longrightarrow>
     document_texts (line @ CHR 0x0A # text) = line # document_texts text"
  by (subst document_texts.simps) (simp add: find_char_append)

lemma document_texts_lines:
  "\<forall>line \<in> set ls. CHR 0x0A \<notin> set line \<Longrightarrow>
     document_texts (concat (map (\<lambda>line. line @ [CHR 0x0A]) ls)) = ls"
  by (induction ls) (simp_all add: document_texts_Cons document_texts.simps [of "[]"])

lemma serialize_document_concat:
  "serialize_document document = concat (map (\<lambda>line. line_original line @ [CHR 0x0A]) document)"
proof -
  have "ls \<noteq> [] \<Longrightarrow> join_lines ls @ [CHR 0x0A] = concat (map (\<lambda>line. line @ [CHR 0x0A]) ls)" for ls
    by (induction ls rule: join_lines.induct) simp_all
  from this [of "map line_original document"] show ?thesis
    by (simp add: serialize_document_def comp_def)
qed

text \<open>The entries of a textual document survive being written and read.\<close>

lemma parse_serialize_entries:
  assumes "\<forall>line \<in> set document. textual_line line"
  shows "document_entries (parse_document (serialize_document document)) = document_entries document"
proof -
  have "document_texts (serialize_document document) = map line_original document"
    using assms document_texts_lines [of "map line_original document"]
    by (simp add: serialize_document_concat textual_line_def comp_def)
  then have "parse_document (serialize_document document) =
      map (\<lambda>line. parse_document_line (line_original line)) document"
    by (simp add: parse_document_def)
  moreover have "document_entries (map (\<lambda>line. parse_document_line (line_original line)) document) =
      document_entries document"
    using assms
  proof (induction document)
    case (Cons line document)
    have line: "textual_line line" using Cons.prems by simp
    show ?case
    proof (cases "line_is_entry line")
      case True
      then have "line_original line = line_key line @ ''='' @ line_value line"
        "textual_key (line_key line)" "textual_value (line_value line)"
        using line by (simp_all add: textual_line_def)
      then show ?thesis
        using Cons parse_entry_line [of "line_key line" "line_value line"] True
        by (simp add: document_entries_def)
    next
      case False
      then show ?thesis using Cons line by (simp add: document_entries_def textual_line_def)
    qed
  qed simp
  ultimately show ?thesis by simp
qed


text \<open>Whatever text is read, the document is textual once its keys are in upper case.\<close>

lemma trim_ascii_snoc: "is_ascii_whitespace c \<Longrightarrow> trim_ascii (s @ [c]) = trim_ascii s"
proof (cases "dropWhile is_ascii_whitespace s = []")
  case True
  moreover assume "is_ascii_whitespace c"
  ultimately have "dropWhile is_ascii_whitespace (s @ [c]) = []"
    by (simp add: dropWhile_eq_Nil_conv)
  then show ?thesis using True by (simp only: trim_ascii_def)
next
  case False
  moreover assume "is_ascii_whitespace c"
  ultimately have "dropWhile is_ascii_whitespace (s @ [c]) = dropWhile is_ascii_whitespace s @ [c]"
    by (metis dropWhile_append1 dropWhile_eq_Nil_conv)
  then show ?thesis using \<open>is_ascii_whitespace c\<close> by (simp add: trim_ascii_def)
qed

definition without_return :: "string \<Rightarrow> string" where
  "without_return line = (if line \<noteq> [] \<and> last line = CHR 0x0D then butlast line else line)"

lemma trim_without_return: "trim_ascii (without_return line) = trim_ascii line"
proof (cases "line \<noteq> [] \<and> last line = CHR 0x0D")
  case True
  then have line: "line = butlast line @ [CHR 0x0D]"
    using append_butlast_last_id [of line] by simp
  have "trim_ascii (butlast line @ [CHR 0x0D]) = trim_ascii (butlast line)"
    by (rule trim_ascii_snoc) (simp add: is_ascii_whitespace_def)
  then have "trim_ascii line = trim_ascii (butlast line)" using line by simp
  then show ?thesis using True by (simp add: without_return_def)
next
  case False
  then show ?thesis by (simp only: without_return_def if_False)
qed

lemma set_without_return: "set (without_return line) \<subseteq> set line"
  by (auto simp: without_return_def dest: in_set_butlastD)

lemma parse_document_line_original: "line_original (parse_document_line line) = without_return line"
  by (auto simp: parse_document_line_def Let_def without_return_def split: option.split)

lemma parse_document_line_cong:
  "trim_ascii s = trim_ascii t \<Longrightarrow>
     line_is_entry (parse_document_line s) = line_is_entry (parse_document_line t)"
  using trim_without_return [of s] trim_without_return [of t]
  unfolding parse_document_line_def Let_def without_return_def [symmetric]
  by (auto split: option.split)

lemma trimmed_prefix_hd:
  assumes t: "t = trim_ascii (take n content)" "t \<noteq> []" and content: "trimmed content"
  shows "hd t = hd content"
proof -
  have "take n content \<noteq> []"
  proof
    assume "take n content = []"
    then have "t = []" using t(1) by (simp only: trim_ascii_def dropWhile.simps rev.simps)
    then show False using t(2) by simp
  qed
  then have "n \<noteq> 0" "content \<noteq> []" by auto
  then have hd: "hd (take n content) = hd content" "\<not> is_ascii_whitespace (hd (take n content))"
    using content by (simp_all add: trimmed_def)
  then have "dropWhile is_ascii_whitespace (take n content) = take n content"
    using \<open>take n content \<noteq> []\<close> by (intro dropWhile_not_hd)
  then have "t = rev (dropWhile is_ascii_whitespace (rev (take n content)))"
    using t(1) by (simp add: trim_ascii_def)
  then have "take n content = t @ rev (takeWhile is_ascii_whitespace (rev (take n content)))"
    by (metis rev_append rev_rev_ident takeWhile_dropWhile_id)
  then show ?thesis using t(2) hd(1) by (metis hd_append2)
qed

lemma parsed_entry_textual:
  assumes "line_is_entry (parse_document_line line)" "CHR 0x0A \<notin> set line"
  shows "textual_key (line_key (parse_document_line line))"
    "textual_value (line_value (parse_document_line line))"
proof -
  let ?c = "trim_ascii (without_return line)"
  obtain n where n: "key_separator ?c = Some n" "trim_ascii (take n ?c) \<noteq> []" "?c \<noteq> []"
      "hd ?c \<noteq> CHR ''#''" "hd ?c \<noteq> CHR '';''"
    and kv: "line_key (parse_document_line line) = trim_ascii (take n ?c)"
      "line_value (parse_document_line line) = trim_ascii (drop (n + 1) ?c)"
    using assms(1) unfolding parse_document_line_def Let_def without_return_def [symmetric]
    by (auto split: option.split_asm if_split_asm)
  have lf: "CHR 0x0A \<notin> set ?c"
    using assms(2) set_trim_ascii [of "without_return line"] set_without_return [of line] by blast
  have "CHR ''='' \<notin> set (take n ?c)"
  proof (cases "find_char CHR ''='' ?c")
    case None
    then have "CHR ''='' \<notin> set ?c" by (simp add: find_char_None)
    then show ?thesis by (auto dest: in_set_takeD)
  next
    case (Some m)
    then have "m = n" using n(1) by (simp add: key_separator_def)
    then show ?thesis using find_char_Some [OF Some] by auto
  qed
  then have "CHR ''='' \<notin> set (trim_ascii (take n ?c))"
    using set_trim_ascii [of "take n ?c"] by blast
  moreover have "CHR 0x0A \<notin> set (trim_ascii (take n ?c))"
    using lf set_trim_ascii [of "take n ?c"] set_take_subset [of n ?c] by blast
  moreover have "CHR 0x0A \<notin> set (trim_ascii (drop (n + 1) ?c))"
    using lf set_trim_ascii [of "drop (n + 1) ?c"] set_drop_subset [of "n + 1" ?c] by blast
  moreover have "hd (trim_ascii (take n ?c)) = hd ?c"
    using trimmed_prefix_hd [OF refl n(2) trimmed_trim_ascii] .
  ultimately show "textual_key (line_key (parse_document_line line))"
    "textual_value (line_value (parse_document_line line))"
    using n by (simp_all only: kv textual_key_def textual_value_def trimmed_trim_ascii simp_thms)
qed

lemma document_texts_no_line_feed: "line \<in> set (document_texts s) \<Longrightarrow> CHR 0x0A \<notin> set line"
proof (induction s rule: document_texts.induct)
  case (1 s)
  show ?case
  proof (cases "s = []")
    case True
    then show ?thesis using 1 by (simp add: document_texts.simps [of "[]"])
  next
    case False
    show ?thesis
    proof (cases "find_char CHR 0x0A s")
      case None
      then show ?thesis
        using 1(2) False None by (simp add: document_texts.simps [of s]) (simp add: find_char_None)
    next
      case (Some n)
      then show ?thesis
        using 1 False find_char_Some [OF Some]
        by (auto simp: document_texts.simps [of s])
    qed
  qed
qed

text \<open>A document that was read, with its keys in upper case, is textual, and stays so.\<close>

definition textual_document :: "document \<Rightarrow> bool" where
  "textual_document document \<longleftrightarrow> (\<forall>line \<in> set document. textual_line line)"

lemma textual_entry_line:
  "textual_key key \<Longrightarrow> textual_value value \<Longrightarrow> textual_line (entry_line key value)"
  by (simp add: textual_line_def entry_line_def textual_key_def textual_value_def)

lemma textual_uppercase_line:
  assumes "CHR 0x0A \<notin> set line"
  shows "\<forall>l \<in> set (uppercase_keys [parse_document_line line]). textual_line l"
proof (cases "line_is_entry (parse_document_line line)")
  case True
  then show ?thesis
    using parsed_entry_textual [OF True assms] textual_key_upper
    by (simp add: uppercase_keys_def Let_def textual_line_def textual_key_def textual_value_def)
next
  case False
  have "line_is_entry (parse_document_line (without_return line)) = line_is_entry (parse_document_line line)"
    by (rule parse_document_line_cong) (rule trim_without_return)
  then show ?thesis
    using False assms set_without_return [of line]
    by (auto simp: uppercase_keys_def textual_line_def parse_document_line_original)
qed

lemma textual_parsed_document: "textual_document (uppercase_keys (parse_document s))"
proof -
  have "\<forall>line \<in> set ls. CHR 0x0A \<notin> set line \<Longrightarrow>
      textual_document (uppercase_keys (map parse_document_line ls))" for ls
    using textual_uppercase_line
    by (induction ls) (simp_all add: textual_document_def uppercase_keys_def)
  then show ?thesis
    using document_texts_no_line_feed by (simp add: parse_document_def)
qed

lemma textual_document_set:
  "textual_document document \<Longrightarrow> textual_key key \<Longrightarrow> textual_value value \<Longrightarrow>
     textual_document (document_set key value document)"
  by (induction document) (auto simp: textual_document_def intro!: textual_entry_line textual_key_upper)

lemma document_get_entries:
  "document_get document key =
     map_option snd (find (\<lambda>(k, v). equal_case_insensitive k key) (document_entries document))"
  by (induction document) (simp_all add: document_get_def document_entries_def line_matches_def)

lemma parse_serialize_get:
  "textual_document document \<Longrightarrow>
     document_get (parse_document (serialize_document document)) key = document_get document key"
  unfolding document_get_entries textual_document_def by (simp only: parse_serialize_entries)

lemma document_get_uppercase: "document_get (uppercase_keys document) key = document_get document key"
  by (induction document)
    (auto simp: document_get_def uppercase_keys_def line_matches_def equal_case_insensitive_iff Let_def)

end
