(* ===== verification/Configuration_Store.thy ===== *)
theory Configuration_Store
  imports Configuration_Document Frame
begin

text \<open>
  Where settings are kept: the live view in memory (\<open>live_configuration.cpp\<close>, bounded, looked up by a
  16-bit hash) and the file on the card (\<open>main/configuration/configuration_file_store.cpp\<close>), with every
  state the card passes through while the file is replaced; then the commands that read and write them
  (\<open>configuration_get.cpp\<close>, \<open>configuration_set.cpp\<close>). Both stores interpret \<open>settings_store\<close>.
\<close>

section \<open>The live view\<close>

record live_configuration =
  live_entries :: "configuration_entry list"
  live_loaded :: bool

definition new_live_configuration :: live_configuration where
  "new_live_configuration = \<lparr>live_entries = [], live_loaded = False\<rparr>"

abbreviation (input) maximum_chunk_size :: nat where "maximum_chunk_size \<equiv> 511"
abbreviation (input) maximum_entries :: nat where "maximum_entries \<equiv> 100"
abbreviation (input) maximum_key_size :: nat where "maximum_key_size \<equiv> 63"
abbreviation (input) maximum_value_size :: nat where "maximum_value_size \<equiv> 255"

definition bounded_text :: "string \<Rightarrow> nat \<Rightarrow> string" where
  "bounded_text s maximum_size = take maximum_size s"

text \<open>The chunks that \<open>ensure_loaded\<close> goes through, the entries read so far before it.\<close>

fun load_chunks :: "configuration_entry list \<Rightarrow> bytes list \<Rightarrow> configuration_entry list" where
  "load_chunks entries [] = entries"
| "load_chunks entries (chunk # chunks) =
     (if length entries = maximum_entries then entries
      else case parse_live_config_chunk chunk of
             None \<Rightarrow> load_chunks entries chunks
           | Some (key, value) \<Rightarrow>
               load_chunks
                 (entries @ [(bounded_text key maximum_key_size, bounded_text value maximum_value_size)])
                 chunks)"

text \<open>The reader of the chunks is given their greatest size; it is asked only when nothing is loaded.\<close>

definition ensure_loaded ::
    "(nat \<Rightarrow> bytes list option) \<Rightarrow> live_configuration \<Rightarrow> live_configuration" where
  "ensure_loaded read_chunks live =
     (if live_loaded live then live
      else case read_chunks maximum_chunk_size of
             None \<Rightarrow> \<lparr>live_entries = [], live_loaded = True\<rparr>
           | Some chunks \<Rightarrow> \<lparr>live_entries = load_chunks [] chunks, live_loaded = True\<rparr>)"

definition reset_live :: "live_configuration \<Rightarrow> live_configuration" where
  "reset_live live = live\<lparr>live_entries := [], live_loaded := False\<rparr>"

definition live_find :: "live_configuration \<Rightarrow> string \<Rightarrow> string option" where
  "live_find live key =
     map_option snd (find (\<lambda>(k, v). configuration_hash k = configuration_hash key) (live_entries live))"

fun update_first :: "string \<Rightarrow> string \<Rightarrow> configuration_entry list \<Rightarrow> configuration_entry list option" where
  "update_first key value [] = None"
| "update_first key value ((k, v) # entries) =
     (if k = key then Some ((k, bounded_text value maximum_value_size) # entries)
      else map_option (\<lambda>entries. (k, v) # entries) (update_first key value entries))"

definition live_set :: "string \<Rightarrow> string \<Rightarrow> live_configuration \<Rightarrow> live_configuration \<times> bool" where
  "live_set key value live =
     (case update_first key value (live_entries live) of
        Some entries \<Rightarrow> (live\<lparr>live_entries := entries\<rparr>, True)
      | None \<Rightarrow>
          if length (live_entries live) = maximum_entries then (live, False)
          else (live\<lparr>live_entries := live_entries live @
                  [(bounded_text key maximum_key_size, bounded_text value maximum_value_size)]\<rparr>, True))"

definition entry_count :: "live_configuration \<Rightarrow> nat" where
  "entry_count live = length (live_entries live)"

text \<open>The bounds of the view.\<close>

definition entry_bounded :: "configuration_entry \<Rightarrow> bool" where
  "entry_bounded e \<longleftrightarrow> length (fst e) \<le> maximum_key_size \<and> length (snd e) \<le> maximum_value_size"

definition live_bounded :: "live_configuration \<Rightarrow> bool" where
  "live_bounded live \<longleftrightarrow> entry_count live \<le> maximum_entries \<and> (\<forall>e \<in> set (live_entries live). entry_bounded e)"

lemma entry_bounded_update:
  "entry_bounded (key, v) \<Longrightarrow> entry_bounded (key, bounded_text value maximum_value_size)"
  by (simp add: entry_bounded_def bounded_text_def)

lemma load_chunks_bounded:
  "length entries \<le> maximum_entries \<Longrightarrow> \<forall>e \<in> set entries. entry_bounded e \<Longrightarrow>
     length (load_chunks entries chunks) \<le> maximum_entries \<and>
     (\<forall>e \<in> set (load_chunks entries chunks). entry_bounded e)"
proof (induction chunks arbitrary: entries)
  case (Cons chunk chunks)
  show ?case
  proof (cases "parse_live_config_chunk chunk")
    case None
    then show ?thesis using Cons.IH [OF Cons.prems] Cons.prems by simp
  next
    case (Some kv)
    obtain k v where kv: "kv = (k, v)" by (cases kv)
    have "entry_bounded (bounded_text k maximum_key_size, bounded_text v maximum_value_size)"
      by (simp add: entry_bounded_def bounded_text_def)
    then show ?thesis
      using Cons.IH [of "entries @ [(bounded_text k maximum_key_size, bounded_text v maximum_value_size)]"]
        Cons.prems Some
      by (simp add: kv)
  qed
qed simp

lemma ensure_loaded_bounded: "live_bounded live \<Longrightarrow> live_bounded (ensure_loaded read_chunks live)"
  using load_chunks_bounded [of "[]"]
  by (simp add: ensure_loaded_def live_bounded_def entry_count_def split: option.split)

lemma reset_live_bounded: "live_bounded (reset_live live)"
  by (simp add: reset_live_def live_bounded_def entry_count_def)

lemma update_first_Some:
  "update_first key value entries = Some entries' \<Longrightarrow>
     \<exists>before v after. entries = before @ (key, v) # after \<and>
       entries' = before @ (key, bounded_text value maximum_value_size) # after"
proof (induction entries arbitrary: entries')
  case (Cons kv entries)
  obtain k v where kv: "kv = (k, v)" by (cases kv)
  show ?case
  proof (cases "k = key")
    case True
    then show ?thesis using Cons.prems
      by (intro exI [of _ "[]"] exI [of _ v] exI [of _ entries]) (simp add: kv)
  next
    case False
    then obtain rest where "update_first key value entries = Some rest" "entries' = (k, v) # rest"
      using Cons.prems by (auto simp: kv)
    then show ?thesis using Cons.IH [of rest] by (metis append_Cons kv)
  qed
qed simp

lemma live_set_bounded:
  assumes "live_bounded live"
  shows "live_bounded (fst (live_set key value live))"
proof (cases "update_first key value (live_entries live)")
  case None
  then show ?thesis
    using assms by (simp add: live_set_def live_bounded_def entry_count_def bounded_text_def entry_bounded_def)
next
  case (Some entries)
  then show ?thesis
    using assms update_first_Some [OF Some] entry_bounded_update [of key]
    by (auto simp: live_set_def live_bounded_def entry_count_def)
qed

text \<open>
  The view is a settings store whose keys are the same when their hashes are, for keys and values
  that fit and whose hash no other key of the view has.
\<close>

definition live_admits :: "live_configuration \<Rightarrow> string \<Rightarrow> string \<Rightarrow> bool" where
  "live_admits live key value \<longleftrightarrow> length key \<le> maximum_key_size \<and> length value \<le> maximum_value_size \<and>
     (entry_count live < maximum_entries \<or> key \<in> fst ` set (live_entries live)) \<and>
     (\<forall>k \<in> fst ` set (live_entries live). configuration_hash k = configuration_hash key \<longrightarrow> k = key)"

lemma update_first_None: "update_first key value entries = None \<longleftrightarrow> key \<notin> fst ` set entries"
  by (induction entries) (auto split: if_splits)

lemma update_first_find:
  "update_first key value entries = Some entries' \<Longrightarrow> length value \<le> maximum_value_size \<Longrightarrow>
     \<forall>k \<in> fst ` set entries. h k = h key \<longrightarrow> k = key \<Longrightarrow>
     find (\<lambda>(k, v). h k = h key') entries' =
       (if h key = h key' then Some (key, value) else find (\<lambda>(k, v). h k = h key') entries)"
  by (induction entries arbitrary: entries') (auto simp: bounded_text_def split: if_splits)

lemma find_append: "find P (xs @ ys) = (case find P xs of None \<Rightarrow> find P ys | Some x \<Rightarrow> Some x)"
  by (induction xs) auto

lemma live_find_set:
  assumes "live_admits live key value"
  shows "live_find (fst (live_set key value live)) key' =
      (if configuration_hash key = configuration_hash key' then Some value else live_find live key')"
proof (cases "update_first key value (live_entries live)")
  case None
  then have "\<forall>k \<in> fst ` set (live_entries live). configuration_hash k \<noteq> configuration_hash key"
    using assms unfolding update_first_None live_admits_def by blast
  then have "configuration_hash key = configuration_hash key' \<Longrightarrow>
      find (\<lambda>(k, v). configuration_hash k = configuration_hash key') (live_entries live) = None"
    by (auto simp: find_None_iff)
  then show ?thesis
    using assms None unfolding update_first_None
    by (auto simp: live_set_def live_find_def live_admits_def entry_count_def bounded_text_def find_append
        None [unfolded update_first_None] update_first_None [THEN iffD2] split: option.split)
next
  case (Some entries)
  then show ?thesis
    using assms update_first_find [OF Some, of configuration_hash key']
    by (simp add: live_set_def live_find_def live_admits_def)
qed

interpretation live: settings_store live_find "\<lambda>key value live. fst (live_set key value live)"
    "\<lambda>key key'. configuration_hash key = configuration_hash key'" live_admits
  by unfold_locales (simp_all add: live_find_set)

section \<open>The file on the card\<close>

text \<open>
  The files by path, and what the file system answers during one operation: whether the reading of
  \<open>config.txt\<close> meets no error, whether the temporary file can be opened, whether it is written
  completely or else how much of it was, and whether removing and renaming work. A file is
  never renamed over another, as the code says of FAT.
\<close>

type_synonym card_files = "string \<rightharpoonup> string"

record file_answers =
  reads_cleanly :: bool
  opens_temporary :: bool
  writes_completely :: bool
  written_part :: nat
  removes_active :: bool
  renames_temporary :: bool
  removes_temporary :: bool

definition active_path :: string where
  "active_path = physical_sd_path ''/config.txt''"

definition temporary_path :: string where
  "temporary_path = physical_sd_path ''/config.tmp''"

definition effective_tag :: "string \<Rightarrow> string" where
  "effective_tag tag = (if tag = [] then ''MAINBOARD'' else tag)"

definition read_card_file :: "file_answers \<Rightarrow> card_files \<Rightarrow> string \<Rightarrow> string option" where
  "read_card_file a files path =
     (case files path of
        None \<Rightarrow> None
      | Some content \<Rightarrow> if reads_cleanly a then Some content else None)"

definition write_card_file :: "file_answers \<Rightarrow> card_files \<Rightarrow> string \<Rightarrow> string \<Rightarrow> bool \<times> card_files" where
  "write_card_file a files path content =
     (if \<not> opens_temporary a then (False, files)
      else if writes_completely a then (True, files(path \<mapsto> content))
      else (False, files(path \<mapsto> take (written_part a) content)))"

definition read_document :: "file_answers \<Rightarrow> card_files \<Rightarrow> document" where
  "read_document a files =
     (case read_card_file a files active_path of
        None \<Rightarrow> parse_document []
      | Some content \<Rightarrow> parse_document content)"

definition store_exists :: "card_files \<Rightarrow> bool" where
  "store_exists files \<longleftrightarrow> files active_path \<noteq> None"

definition store_get :: "file_answers \<Rightarrow> card_files \<Rightarrow> string \<Rightarrow> string \<Rightarrow> string option" where
  "store_get a files tag key = namespace_get (effective_tag tag) (read_document a files) key"

definition store_get_all :: "file_answers \<Rightarrow> card_files \<Rightarrow> string \<Rightarrow> configuration_entry list" where
  "store_get_all a files tag = namespace_get_all (effective_tag tag) (read_document a files)"

definition store_get_hashed :: "file_answers \<Rightarrow> card_files \<Rightarrow> string \<Rightarrow> string \<Rightarrow> string option" where
  "store_get_hashed a files tag key =
     (let start = namespace_prefix (effective_tag tag)
      in map_option snd
           (find (\<lambda>(k, v). begins_case_insensitive k start \<and>
                    configuration_hash (drop (length start) k) = configuration_hash key)
             (document_entries (read_document a files))))"

definition store_read_lines :: "file_answers \<Rightarrow> card_files \<Rightarrow> string list" where
  "store_read_lines a files = document_lines (read_document a files)"

text \<open>
  The replacement of the file: what it reports and the contents of the card after each operation,
  the last of which is what remains. A loss of power leaves one of them.
\<close>

definition replace_active :: "file_answers \<Rightarrow> document \<Rightarrow> card_files \<Rightarrow> bool \<times> card_files list" where
  "replace_active a document files =
     (let (written, files1) = write_card_file a files temporary_path (serialize_document document)
      in if \<not> written then (False, [files1])
         else
           let files2 = (if removes_active a then files1(active_path := None) else files1)
           in if renames_temporary a \<and> files2 active_path = None
              then (True, [files1, files2,
                      files2(active_path := files2 temporary_path, temporary_path := None)])
              else (False, [files1, files2,
                      if removes_temporary a then files2(temporary_path := None) else files2]))"

definition store_set ::
    "file_answers \<Rightarrow> string \<Rightarrow> string \<Rightarrow> string \<Rightarrow> card_files \<Rightarrow> bool \<times> card_files list" where
  "store_set a tag key value files =
     replace_active a
       (uppercase_keys (namespace_set (effective_tag tag) key value (read_document a files))) files"

definition store_set_raw_key :: "file_answers \<Rightarrow> string \<Rightarrow> string \<Rightarrow> card_files \<Rightarrow> bool \<times> card_files list" where
  "store_set_raw_key a key value files =
     replace_active a (uppercase_keys (document_set key value (read_document a files))) files"

text \<open>What a caller sees: the report and the files that remain.\<close>

definition store_put ::
    "file_answers \<Rightarrow> string \<Rightarrow> string \<Rightarrow> string \<Rightarrow> card_files \<Rightarrow> bool \<times> card_files" where
  "store_put a tag key value files = (let (ok, states) = store_set a tag key value files in (ok, last states))"


section \<open>What an update leaves on the card\<close>

text \<open>The text of the configuration that an update aims at.\<close>

definition updated_text :: "file_answers \<Rightarrow> string \<Rightarrow> string \<Rightarrow> string \<Rightarrow> card_files \<Rightarrow> string" where
  "updated_text a tag key value files =
     serialize_document
       (uppercase_keys (namespace_set (effective_tag tag) key value (read_document a files)))"

lemma paths_distinct [simp]: "active_path \<noteq> temporary_path" "temporary_path \<noteq> active_path"
  by (simp_all add: active_path_def temporary_path_def physical_sd_path_def)

text \<open>The states an update passes through, one by one.\<close>

lemma store_set_cases:
  obtains (unopened) "\<not> opens_temporary a" "store_set a tag key value files = (False, [files])"
  | (unwritten) "opens_temporary a" "\<not> writes_completely a"
      "store_set a tag key value files =
         (False, [files(temporary_path \<mapsto> take (written_part a) (updated_text a tag key value files))])"
  | (replaced) f1 f2 where "f1 = files(temporary_path \<mapsto> updated_text a tag key value files)"
      "f2 = (if removes_active a then f1(active_path := None) else f1)" "f2 active_path = None"
      "renames_temporary a" "opens_temporary a" "writes_completely a"
      "store_set a tag key value files = (True, [f1, f2,
         f2(active_path \<mapsto> updated_text a tag key value files, temporary_path := None)])"
  | (unrenamed) f1 f2 where "f1 = files(temporary_path \<mapsto> updated_text a tag key value files)"
      "f2 = (if removes_active a then f1(active_path := None) else f1)"
      "\<not> renames_temporary a \<or> f2 active_path \<noteq> None" "opens_temporary a" "writes_completely a"
      "store_set a tag key value files = (False, [f1, f2,
         if removes_temporary a then f2(temporary_path := None) else f2])"
proof (cases "opens_temporary a \<and> writes_completely a")
  case False
  then show thesis
    using unopened unwritten
    by (cases "opens_temporary a")
      (auto simp: store_set_def replace_active_def write_card_file_def updated_text_def)
next
  case True
  define f1 where "f1 = files(temporary_path \<mapsto> updated_text a tag key value files)"
  define f2 where "f2 = (if removes_active a then f1(active_path := None) else f1)"
  have "write_card_file a files temporary_path (updated_text a tag key value files) = (True, f1)"
    using True by (simp add: write_card_file_def f1_def)
  moreover have "f2 temporary_path = Some (updated_text a tag key value files)"
    by (simp add: f2_def f1_def)
  ultimately have set: "store_set a tag key value files =
      (if renames_temporary a \<and> f2 active_path = None
       then (True, [f1, f2, f2(active_path \<mapsto> updated_text a tag key value files, temporary_path := None)])
       else (False, [f1, f2, if removes_temporary a then f2(temporary_path := None) else f2]))"
    unfolding store_set_def replace_active_def updated_text_def [symmetric]
    by (simp add: Let_def f2_def)
  show thesis
  proof (cases "renames_temporary a \<and> f2 active_path = None")
    case r: True
    show thesis
      by (rule replaced [of f1 f2]) (use True r set in \<open>simp_all add: f1_def f2_def\<close>)
  next
    case r: False
    show thesis
      by (rule unrenamed [of f1 f2]) (use True r set in \<open>auto simp: f1_def f2_def\<close>)
  qed
qed

lemma updated_text_ok:
  "store_set a tag key value files = (True, states) \<Longrightarrow>
     last states active_path = Some (updated_text a tag key value files) \<and> last states temporary_path = None"
  by (rule store_set_cases [of a tag key "value" files]) auto

text \<open>
  C19. The configuration file is never torn. Whatever the file system answers, every state the card
  passes through during an update has the old \<open>config.txt\<close>, none, or the whole new text, and no
  other file but \<open>config.tmp\<close> changes; an update that reports success leaves the new text, one
  that reports failure leaves the old file or none.
\<close>
theorem configuration_never_torn:
  assumes "store_set a tag key value files = (ok, states)"
  shows "(\<forall>f \<in> set states.
            (f active_path = files active_path \<or> f active_path = None \<or>
             f active_path = Some (updated_text a tag key value files)) \<and>
            (\<forall>path. path \<noteq> active_path \<and> path \<noteq> temporary_path \<longrightarrow> f path = files path)) \<and>
         (if ok then last states active_path = Some (updated_text a tag key value files)
          else last states active_path = files active_path \<or> last states active_path = None)"
proof (rule store_set_cases [of a tag key "value" files])
qed (use assms in \<open>auto split: if_splits\<close>)

definition faultless :: file_answers where
  "faultless = \<lparr>reads_cleanly = True, opens_temporary = True, writes_completely = True,
     written_part = 0, removes_active = True, renames_temporary = True, removes_temporary = True\<rparr>"

theorem configuration_never_torn_witness:
  "\<exists>ok states. store_set faultless ''CAMERA'' ''fps'' ''10''
       [active_path \<mapsto> ''#x'' @ [CHR 0x0A]] = (ok, states) \<and>
     (\<forall>f \<in> set states.
            (f active_path = Some (''#x'' @ [CHR 0x0A]) \<or> f active_path = None \<or>
             f active_path = Some (updated_text faultless ''CAMERA'' ''fps'' ''10'' [active_path \<mapsto> ''#x'' @ [CHR 0x0A]])))"
proof -
  obtain ok states where s: "store_set faultless ''CAMERA'' ''fps'' ''10''
       [active_path \<mapsto> ''#x'' @ [CHR 0x0A]] = (ok, states)" by (cases "store_set faultless ''CAMERA'' ''fps'' ''10'' [active_path \<mapsto> ''#x'' @ [CHR 0x0A]]")
  show ?thesis using configuration_never_torn [OF s] s by auto
qed

text \<open>
  An update whose renaming fails loses the configuration: the old file has been removed by
  then, and the temporary file that holds the new text is removed as well.
\<close>
theorem failed_rename_loses_configuration:
  assumes "opens_temporary a" "writes_completely a" "removes_active a" "\<not> renames_temporary a"
    "removes_temporary a"
  shows "\<exists>states. store_set a tag key value files = (False, states) \<and>
     last states active_path = None \<and> last states temporary_path = None"
  by (rule store_set_cases [of a tag key "value" files]) (use assms in auto)

theorem failed_rename_loses_configuration_witness:
  "\<exists>states. store_set (faultless\<lparr>renames_temporary := False\<rparr>) [] ''a'' ''b''
       [active_path \<mapsto> ''MAINBOARD_K=1''] = (False, states) \<and>
     last states active_path = None \<and> last states temporary_path = None"
  by (rule failed_rename_loses_configuration) (simp_all add: faultless_def)

section \<open>The file as a settings store\<close>

text \<open>Settings are addressed by a tag and a key; both together make the key of the file.\<close>

definition file_key :: "string \<times> string \<Rightarrow> string" where
  "file_key = (\<lambda>(tag, key). namespace_prefix (effective_tag tag) @ key)"

definition file_lookup :: "file_answers \<Rightarrow> card_files \<Rightarrow> string \<times> string \<Rightarrow> string option" where
  "file_lookup a files = (\<lambda>(tag, key). store_get a files tag key)"

definition file_put :: "file_answers \<Rightarrow> string \<times> string \<Rightarrow> string \<Rightarrow> card_files \<Rightarrow> card_files" where
  "file_put a = (\<lambda>(tag, key) value files. snd (store_put a tag key value files))"

definition answers_well :: "file_answers \<Rightarrow> bool" where
  "answers_well a \<longleftrightarrow> reads_cleanly a \<and> opens_temporary a \<and> writes_completely a \<and>
     removes_active a \<and> renames_temporary a"

lemma faultless_well [simp]: "answers_well faultless"
  by (simp add: answers_well_def faultless_def)

lemma store_set_well:
  assumes "answers_well a"
  shows "\<exists>states. store_set a tag key value files = (True, states) \<and>
     last states active_path = Some (updated_text a tag key value files)"
  by (rule store_set_cases [of a tag key "value" files]) (use assms in \<open>auto simp: answers_well_def\<close>)

lemma store_put_well:
  "answers_well a \<Longrightarrow> fst (store_put a tag key value files) \<and>
     snd (store_put a tag key value files) active_path = Some (updated_text a tag key value files)"
  using store_set_well [of a tag key "value" files] by (auto simp: store_put_def)

lemma upper_upper [simp]: "upper_char (upper_char c) = upper_char c"
proof (cases "97 \<le> octet c \<and> octet c \<le> 122")
  case True
  then have "unat (octet c - 32) < 97"
    using unat_sub [of 32 "octet c"] by (simp add: word_le_nat_alt) linarith
  then have "\<not> 97 \<le> octet (upper_char c)"
    using True by (simp add: octet_upper word_le_nat_alt)
  then show ?thesis by (simp only: upper_char_id simp_thms not_False_eq_True)
next
  case False
  then show ?thesis by (simp only: upper_char_id not_False_eq_True)
qed

lemma uppercase_uppercase [simp]: "uppercase_ascii (uppercase_ascii s) = uppercase_ascii s"
  by (simp add: uppercase_ascii_def)

lemma document_set_uppercase:
  "uppercase_keys (document_set key value document) = document_set key value (uppercase_keys document)"
proof (induction document)
  case Nil
  then show ?case by (simp add: uppercase_keys_def entry_line_def Let_def uppercase_ascii_def)
next
  case (Cons line document)
  then show ?case
    by (auto simp: uppercase_keys_def line_matches_def entry_line_def Let_def
        equal_case_insensitive_iff)
qed

lemma read_document_put:
  assumes "answers_well a" "textual_key (file_key (tag, key))" "textual_value value"
  shows "document_get (read_document a (snd (store_put a tag key value files))) k =
     (if equal_case_insensitive (file_key (tag, key)) k then Some value
      else document_get (read_document a files) k)"
proof -
  let ?d = "uppercase_keys (read_document a files)"
  have clean: "reads_cleanly a" using assms(1) by (simp add: answers_well_def)
  have "textual_document ?d"
    by (simp add: read_document_def textual_parsed_document split: option.split)
  then have textual: "textual_document (document_set (file_key (tag, key)) value ?d)"
    using assms(2,3) by (rule textual_document_set)
  have "updated_text a tag key value files =
      serialize_document (document_set (file_key (tag, key)) value ?d)"
    by (simp add: updated_text_def namespace_set_def document_set_uppercase file_key_def)
  then have "read_document a (snd (store_put a tag key value files)) =
      parse_document (serialize_document (document_set (file_key (tag, key)) value ?d))"
    using store_put_well [OF assms(1), of tag key "value" files] clean
    by (simp add: read_document_def read_card_file_def)
  then show ?thesis
    using parse_serialize_get [OF textual] by (simp add: document_get_set document_get_uppercase)
qed

interpretation card_file: settings_store "file_lookup a" "file_put a"
    "\<lambda>k k'. equal_case_insensitive (file_key k) (file_key k')"
    "\<lambda>files k value. answers_well a \<and> textual_key (file_key k) \<and> textual_value value" for a
  by unfold_locales
    (auto simp: file_lookup_def file_put_def store_get_def namespace_get_def file_key_def
        read_document_put [unfolded file_key_def, simplified] split: prod.splits)

lemma admits_all_const:
  "admits_all put (\<lambda>s k v. P k v) s kvs \<longleftrightarrow> (\<forall>(k, v) \<in> set kvs. P k v)"
  by (induction kvs arbitrary: s) auto



section \<open>The commands\<close>

abbreviation (input) text_response :: u8 where "text_response \<equiv> 0x83"
abbreviation (input) console_message :: u8 where "console_message \<equiv> 0x90"

definition selector_matches :: "string \<Rightarrow> string \<Rightarrow> bool" where
  "selector_matches supplied expected \<longleftrightarrow> configuration_hash supplied = configuration_hash expected"

definition get_result :: "u8 \<Rightarrow> string \<Rightarrow> string \<Rightarrow> string option \<Rightarrow> frame" where
  "get_result packet_type source key result =
     (let message = source @ '': '' @ key @
            (case result of Some v \<Rightarrow> '' is set to '' @ v | None \<Rightarrow> '' is not in config'') @
            [CHR 0x0D, CHR 0x0A];
          limit = (case result of Some _ \<Rightarrow> 511 | None \<Rightarrow> 255)
      in \<lparr>ftype = packet_type, fpayload = octets (take limit message)\<rparr>)"

text \<open>
  The port's two readings, of the chunks and of a value, and the view before; the view after and
  the replies.
\<close>

definition configuration_get ::
    "(nat \<Rightarrow> bytes list option) \<Rightarrow> (string \<Rightarrow> string \<Rightarrow> string option) \<Rightarrow> bytes \<Rightarrow>
     live_configuration \<Rightarrow> live_configuration \<times> frame list" where
  "configuration_get read_chunks read_value argument live =
     (case parse_configuration_tokens argument 3 of
        [] \<Rightarrow> (live, [])
      | [key] \<Rightarrow>
          let live = ensure_loaded read_chunks (reset_live live)
          in (reset_live live, [get_result text_response ''cached'' key (live_find live key)])
      | source # token # rest \<Rightarrow>
          if selector_matches source ''sd''
          then let (tag, key) = (case rest of [] \<Rightarrow> (''MAINBOARD'', token) | third # _ \<Rightarrow> (token, third))
               in (live, [get_result console_message source key (read_value tag key)])
          else if selector_matches source ''live''
          then let live = ensure_loaded read_chunks live
               in (live, [get_result console_message source token (live_find live token)])
          else (live, []))"

definition usage_message :: string where
  "usage_message = ''Usage: config-set source setting value # where source is sd, setting is the key and value is the new value'' @ [CHR 0x0D, CHR 0x0A]"

definition set_console :: "string \<Rightarrow> nat \<Rightarrow> frame" where
  "set_console message limit = \<lparr>ftype = console_message, fpayload = octets (take limit message)\<rparr>"

definition set_result :: "string \<Rightarrow> string \<Rightarrow> string \<Rightarrow> bool \<Rightarrow> frame" where
  "set_result source key result success =
     set_console
       (source @ '': '' @ key @
        (if success then '' has been set to '' @ result
         else '' not enough space to overwrite existing key/value'') @ [CHR 0x0D, CHR 0x0A]) 511"

text \<open>The settings on the card are threaded through the port's update.\<close>

definition configuration_set ::
    "(nat \<Rightarrow> bytes list option) \<Rightarrow> (string \<Rightarrow> string \<Rightarrow> string \<Rightarrow> 's \<Rightarrow> bool \<times> 's) \<Rightarrow> bytes \<Rightarrow>
     live_configuration \<Rightarrow> 's \<Rightarrow> live_configuration \<times> 's \<times> frame" where
  "configuration_set read_chunks set_value argument live s =
     (let tokens = parse_configuration_tokens argument 4
      in if length tokens < 3 \<or> tokens ! 0 = [] \<or> tokens ! 1 = [] \<or> tokens ! 2 = []
         then (live, s, set_console usage_message 511)
         else if selector_matches (tokens ! 0) ''live''
         then let (live, success) = live_set (tokens ! 1) (tokens ! 2) (ensure_loaded read_chunks live)
              in (live, s, set_result (tokens ! 0) (tokens ! 1) (tokens ! 2) success)
         else if selector_matches (tokens ! 0) ''sd''
         then let tag = (if length tokens = 4 then tokens ! 1 else ''MAINBOARD'');
                  key = (if length tokens = 4 then tokens ! 2 else tokens ! 1);
                  v = (if length tokens = 4 then tokens ! 3 else tokens ! 2);
                  (success, s) = set_value tag key v s
              in (live, s, set_result (tokens ! 0) key v success)
         else (live, s, set_console (tokens ! 0 @ '' source does not exist'' @ [CHR 0x0D, CHR 0x0A]) 255))"

text \<open>
  The target's reader of chunks, \<open>main/configuration/tcp_configuration_adapter.cpp\<close>: the lines of the file, each
  with a line feed, cut every \<open>maximum\<close> octets.
\<close>

function cut_chunks :: "nat \<Rightarrow> bytes \<Rightarrow> bytes list" where
  "cut_chunks maximum content =
     (if content = [] \<or> maximum = 0 then []
      else take maximum content # cut_chunks maximum (drop maximum content))"
  by pat_completeness auto

termination
  by (relation "measure (\<lambda>(maximum, content). length content)") auto

declare cut_chunks.simps [simp del]

definition read_configuration_chunks :: "file_answers \<Rightarrow> card_files \<Rightarrow> nat \<Rightarrow> bytes list option" where
  "read_configuration_chunks a files maximum =
     (if maximum = 0 then None
      else Some (cut_chunks maximum
             (octets (concat (map (\<lambda>line. line @ [CHR 0x0A]) (store_read_lines a files))))))"

section \<open>Looking settings up by their hash\<close>

lemma find_entries_put:
  assumes "answers_well a" "textual_key (file_key (tag, key))" "textual_value v"
  shows "document_entries (read_document a (snd (store_put a tag key v files))) =
     document_entries (document_set (file_key (tag, key)) v (uppercase_keys (read_document a files)))"
proof -
  let ?d = "document_set (file_key (tag, key)) v (uppercase_keys (read_document a files))"
  have clean: "reads_cleanly a" using assms(1) by (simp add: answers_well_def)
  have "textual_document (uppercase_keys (read_document a files))"
    by (simp add: read_document_def textual_parsed_document split: option.split)
  then have textual: "\<forall>line \<in> set ?d. textual_line line"
    using assms(2,3) textual_document_set unfolding textual_document_def by blast
  have "updated_text a tag key v files = serialize_document ?d"
    by (simp add: updated_text_def namespace_set_def document_set_uppercase file_key_def)
  then have "read_document a (snd (store_put a tag key v files)) = parse_document (serialize_document ?d)"
    using store_put_well [OF assms(1), of tag key v files] clean
    by (simp add: read_document_def read_card_file_def)
  then show ?thesis using parse_serialize_entries [OF textual] by simp
qed

lemma upper_lower [simp]: "upper_char (lower_char c) = upper_char c"
proof (cases "octet CHR ''A'' \<le> octet c \<and> octet c \<le> octet CHR ''Z''")
  case True
  then have range: "65 \<le> unat (octet c)" "unat (octet c) \<le> 90"
    by (simp_all add: word_le_nat_alt)
  then have "unat (octet c + 32) = unat (octet c) + 32"
    by (intro unat_add_lem [THEN iffD1, of "octet c" 32, simplified]) simp
  then have "97 \<le> octet c + 32" "octet c + 32 \<le> 122" "\<not> 97 \<le> octet c"
    using range by (simp_all add: word_le_nat_alt)
  then show ?thesis using True by (simp add: lower_char_def upper_char_def)
next
  case False
  then show ?thesis unfolding lower_char_def by (simp only: if_False)
qed

lemma uppercase_cong: "equal_case_insensitive s t \<Longrightarrow> uppercase_ascii s = uppercase_ascii t"
proof -
  assume "equal_case_insensitive s t"
  then have "map upper_char (map lower_char s) = map upper_char (map lower_char t)"
    by (simp only: equal_case_insensitive_iff)
  then show ?thesis by (simp add: uppercase_ascii_def comp_def)
qed

lemma equal_uppercase [simp]:
  "equal_case_insensitive (uppercase_ascii s) t = equal_case_insensitive s t"
  "equal_case_insensitive s (uppercase_ascii t) = equal_case_insensitive s t"
  by (simp_all add: equal_case_insensitive_iff)

lemma entries_uppercase:
  "document_entries (uppercase_keys document) =
     map (\<lambda>(k, v). (uppercase_ascii k, v)) (document_entries document)"
  by (induction document) (auto simp: document_entries_def uppercase_keys_def Let_def)

lemma find_entries_hit:
  "P (uppercase_ascii key) \<Longrightarrow>
     \<forall>(k, v) \<in> set (document_entries document). P k \<longrightarrow> equal_case_insensitive k key \<Longrightarrow>
     find (\<lambda>(k, v). P k) (document_entries (document_set key v document)) = Some (uppercase_ascii key, v)"
proof (induction document)
  case (Cons line document)
  then show ?case
    by (auto simp: document_entries_def entry_line_def line_matches_def split: if_splits)
qed (simp add: document_entries_def entry_line_def)

lemma set_entries_document_set:
  "set (document_entries (document_set key v document)) \<subseteq>
     insert (uppercase_ascii key, v) (set (document_entries document))"
  by (induction document) (auto simp: document_entries_def entry_line_def)

lemma find_entries_miss:
  "\<not> P (uppercase_ascii key) \<Longrightarrow>
     \<forall>(k, v) \<in> set (document_entries document). \<not> P k \<Longrightarrow>
     find (\<lambda>(k, v). P k) (document_entries (document_set key v document)) = None"
  using set_entries_document_set [of key v document] by (fastforce simp: find_None_iff)

text \<open>The entries that a look-up by hash can find.\<close>

definition hashed_entry :: "string \<Rightarrow> string \<Rightarrow> string \<Rightarrow> bool" where
  "hashed_entry tag key k \<longleftrightarrow> begins_case_insensitive k (namespace_prefix (effective_tag tag)) \<and>
     configuration_hash (drop (length (namespace_prefix (effective_tag tag))) k) = configuration_hash key"

lemma store_get_hashed_find:
  "store_get_hashed a files tag key =
     map_option snd (find (\<lambda>(k, v). hashed_entry tag key k) (document_entries (read_document a files)))"
  by (simp add: store_get_hashed_def hashed_entry_def Let_def case_prod_unfold)

lemma equal_append_prefix: "equal_case_insensitive (take (length p) (p @ s)) p"
  by (simp add: equal_case_insensitive_def)

lemma hashed_entry_put:
  "hashed_entry tag key' (uppercase_ascii (file_key (tag, key))) \<longleftrightarrow>
     configuration_hash (uppercase_ascii key) = configuration_hash key'"
  by (simp add: hashed_entry_def file_key_def begins_case_insensitive_def uppercase_ascii_def
      equal_case_insensitive_iff comp_def)

lemma hashed_get_after_put:
  assumes "answers_well a" "textual_key (file_key (tag, key))" "textual_value v"
    and "\<forall>(k, w) \<in> set (document_entries (read_document a files)).
      hashed_entry tag key' (uppercase_ascii k) \<longrightarrow> equal_case_insensitive k (file_key (tag, key))"
  shows "store_get_hashed a (snd (store_put a tag key v files)) tag key' =
     (if configuration_hash (uppercase_ascii key) = configuration_hash key' then Some v else None)"
proof -
  let ?d = "uppercase_keys (read_document a files)"
  have others: "\<forall>(k, w) \<in> set (document_entries ?d).
      hashed_entry tag key' k \<longrightarrow> equal_case_insensitive k (file_key (tag, key))"
    using assms(4) by (auto simp: entries_uppercase)
  show ?thesis
  proof (cases "configuration_hash (uppercase_ascii key) = configuration_hash key'")
    case True
    then show ?thesis
      using find_entries_hit [of "hashed_entry tag key'" "file_key (tag, key)" ?d v, OF _ others]
      by (simp add: store_get_hashed_find find_entries_put [OF assms(1-3)] hashed_entry_put)
  next
    case False
    have "\<not> hashed_entry tag key' k" if "(k, w) \<in> set (document_entries ?d)" for k w
    proof
      assume hit: "hashed_entry tag key' k"
      then have "equal_case_insensitive k (file_key (tag, key))" using others that by auto
      moreover have "uppercase_ascii k = k" using that by (auto simp: entries_uppercase)
      ultimately have "k = uppercase_ascii (file_key (tag, key))" using uppercase_cong by metis
      then show False using hit False hashed_entry_put by metis
    qed
    then show ?thesis
      using False find_entries_miss [of "hashed_entry tag key'" "file_key (tag, key)" ?d v]
      by (auto simp: store_get_hashed_find find_entries_put [OF assms(1-3)] hashed_entry_put)
  qed
qed

text \<open>
  What \<open>config-get sd\<close> answers after a successful \<open>config-set sd\<close>. The key is stored in upper
  case but looked up by the hash of the key as it was typed. So, unless another key of the file
  has the hash that is asked for, the value just set is answered if and only if the key asked for has the
  hash of the upper-case key; a setting whose key was typed in lower case is answered to be missing.
\<close>
theorem set_key_is_read_in_upper_case:
  assumes "answers_well a" "textual_key (file_key (''MAINBOARD'', key))" "textual_value v"
    and "parse_configuration_tokens set_argument 4 = [source, key, v]" "key \<noteq> []" "v \<noteq> []"
    and "selector_matches source ''sd''" "source \<noteq> []"
    and "parse_configuration_tokens get_argument 3 = [source, key']"
    and "\<forall>(k, w) \<in> set (document_entries (read_document a files)).
      hashed_entry ''MAINBOARD'' key' (uppercase_ascii k) \<longrightarrow>
      equal_case_insensitive k (file_key (''MAINBOARD'', key))"
  shows "\<exists>files'. configuration_set chunks (store_put a) set_argument live files =
      (live, files', set_result source key v True) \<and>
    configuration_get chunks' (store_get_hashed a files') get_argument live =
      (live, [get_result console_message source key'
         (if configuration_hash (uppercase_ascii key) = configuration_hash key' then Some v else None)])"
proof -
  define files' where "files' = snd (store_put a ''MAINBOARD'' key v files)"
  have put: "store_put a ''MAINBOARD'' key v files = (True, files')"
    using store_put_well [OF assms(1), of "''MAINBOARD''" key v files]
    by (simp add: files'_def prod_eq_iff)
  have live: "\<not> selector_matches source ''live''"
    using assms(7) unfolding selector_matches_def by (auto simp: configuration_hash_def octet_def)
  have "store_get_hashed a files' ''MAINBOARD'' key' =
      (if configuration_hash (uppercase_ascii key) = configuration_hash key' then Some v else None)"
    unfolding files'_def by (rule hashed_get_after_put) (use assms in simp_all)
  then have get: "configuration_get chunks' (store_get_hashed a files') get_argument live =
      (live, [get_result console_message source key'
         (if configuration_hash (uppercase_ascii key) = configuration_hash key' then Some v else None)])"
    using assms(7,9) by (simp add: configuration_get_def)
  have "configuration_set chunks (store_put a) set_argument live files =
      (live, files', set_result source key v True)"
    using assms live put by (simp add: configuration_set_def Let_def)
  then show ?thesis using get by blast
qed

theorem set_key_is_read_in_upper_case_witness:
  "\<exists>files'. configuration_set (\<lambda>_. None) (store_put faultless) (octets ''sd fps 10'') new_live_configuration Map.empty =
      (new_live_configuration, files', set_result ''sd'' ''fps'' ''10'' True) \<and>
    configuration_get (\<lambda>_. None) (store_get_hashed faultless files') (octets ''sd fps'') new_live_configuration =
      (new_live_configuration, [get_result console_message ''sd'' ''fps'' None])"
proof -
  have no: "configuration_hash (uppercase_ascii ''fps'') \<noteq> configuration_hash ''fps''" by code_simp
  have doc: "document_entries (read_document faultless Map.empty) = []" by code_simp
  have "\<exists>files'. configuration_set (\<lambda>_. None) (store_put faultless) (octets ''sd fps 10'') new_live_configuration Map.empty =
      (new_live_configuration, files', set_result ''sd'' ''fps'' ''10'' True) \<and>
    configuration_get (\<lambda>_. None) (store_get_hashed faultless files') (octets ''sd fps'') new_live_configuration =
      (new_live_configuration, [get_result console_message ''sd'' ''fps''
         (if configuration_hash (uppercase_ascii ''fps'') = configuration_hash ''fps'' then Some ''10'' else None)])"
  proof (rule set_key_is_read_in_upper_case)
    show "textual_key (file_key (''MAINBOARD'', ''fps''))" "textual_value ''10''"
      "parse_configuration_tokens (octets ''sd fps 10'') 4 = [''sd'', ''fps'', ''10'']"
      "parse_configuration_tokens (octets ''sd fps'') 3 = [''sd'', ''fps'']"
      by code_simp+
  qed (simp_all add: doc selector_matches_def)
  then show ?thesis using no by simp
qed

section \<open>One setting per chunk\<close>

lemma parse_chunk_textual:
  assumes "textual_key key"
  shows "parse_live_config_chunk (octets (key @ ''='' @ s)) = Some (key, trim_ascii s)"
proof -
  have key: "key \<noteq> []" "trimmed key" "CHR ''='' \<notin> set key" "hd key \<noteq> CHR '';''"
    using assms by (simp_all add: textual_key_def)
  obtain c cs where c: "key = c # cs" using key(1) by (cases key) auto
  have nw: "\<not> is_ascii_whitespace c" "c \<noteq> CHR '';''" using key(2,4) by (simp_all add: c trimmed_def)
  then have "octet c \<noteq> octet CHR '';''" "octet c \<noteq> octet CHR 0x0A" "octet c \<noteq> octet CHR 0x0D"
    unfolding octet_eq_iff by (auto simp: is_ascii_whitespace_def)
  moreover have "octet CHR 0x0A = 0x0A" "octet CHR 0x0D = 0x0D" by (simp_all add: octet_def)
  moreover have "find_char CHR ''='' (key @ ''='' @ s) = Some (length key)"
    using key(3) by (simp add: find_char_append)
  ultimately show ?thesis
    using key(1,2) chars_octets [of "key @ ''='' @ s"]
    by (simp add: parse_live_config_chunk_def trim_ascii_trimmed c)
qed

text \<open>
  The view loaded from a small file holds one setting. The target's reader cuts the file every 511
  octets, and the view takes one setting from each piece: for a file of at most 511 octets whose
  first line is a setting, \<open>config-get\<close> answers that setting with everything behind it in the file as
  its value, and that any key of another hash is not in the configuration.
\<close>
theorem live_view_holds_one_setting_per_chunk:
  assumes "store_read_lines a files = (key @ ''='' @ v) # rest" "textual_key key"
    and "content = concat (map (\<lambda>line. line @ [CHR 0x0A]) rest)"
    and "length (key @ ''='' @ v @ [CHR 0x0A] @ content) \<le> 511"
    and "parse_configuration_tokens argument 3 = [key']"
  shows "configuration_get (read_configuration_chunks a files) read_value argument live =
     (reset_live live, [get_result text_response ''cached'' key'
        (if configuration_hash (take 63 key) = configuration_hash key'
         then Some (take 255 (trim_ascii (v @ [CHR 0x0A] @ content))) else None)])"
proof -
  let ?all = "key @ ''='' @ (v @ [CHR 0x0A] @ content)"
  have "cut_chunks 511 (octets ?all) = [octets ?all]"
    using assms(4) by (simp add: cut_chunks.simps [of 511] cut_chunks.simps [of _ "[]"])
  then have "read_configuration_chunks a files 511 = Some [octets ?all]"
    using assms(1,3) by (simp add: read_configuration_chunks_def)
  then have "ensure_loaded (read_configuration_chunks a files) (reset_live live) =
      \<lparr>live_entries = [(take 63 key, take 255 (trim_ascii (v @ [CHR 0x0A] @ content)))], live_loaded = True\<rparr>"
    using parse_chunk_textual [OF assms(2), of "v @ [CHR 0x0A] @ content"]
    by (simp add: ensure_loaded_def reset_live_def bounded_text_def)
  then show ?thesis
    using assms(5) by (simp add: configuration_get_def live_find_def reset_live_def)
qed

theorem live_view_holds_one_setting_per_chunk_witness:
  "configuration_get (read_configuration_chunks faultless [active_path \<mapsto> ''A=1'' @ [CHR 0x0A] @ ''B=2''])
     (\<lambda>_ _. None) (octets ''B'') new_live_configuration =
   (new_live_configuration, [get_result text_response ''cached'' ''B'' None])"
proof -
  have no: "configuration_hash (take 63 ''A'') \<noteq> configuration_hash ''B''" by code_simp
  have "configuration_get (read_configuration_chunks faultless [active_path \<mapsto> ''A=1'' @ [CHR 0x0A] @ ''B=2''])
     (\<lambda>_ _. None) (octets ''B'') new_live_configuration =
   (reset_live new_live_configuration, [get_result text_response ''cached'' ''B''
      (if configuration_hash (take 63 ''A'') = configuration_hash ''B''
       then Some (take 255 (trim_ascii (''1'' @ [CHR 0x0A] @ (''B=2'' @ [CHR 0x0A])))) else None)])"
  proof (rule live_view_holds_one_setting_per_chunk)
    show "store_read_lines faultless [active_path \<mapsto> ''A=1'' @ [CHR 0x0A] @ ''B=2''] =
        (''A'' @ ''='' @ ''1'') # [''B=2'']" "textual_key ''A''"
      "parse_configuration_tokens (octets ''B'') 3 = [''B'']" by code_simp+
  qed simp_all
  then show ?thesis using no by (simp add: reset_live_def new_live_configuration_def)
qed

section \<open>Copies of the file\<close>

text \<open>
  What the files answer during a copy: whether source and destination open, how many octets can be read
  and written before the call after them fails, and whether closing the destination works.
\<close>

record copy_answers =
  opens_source :: bool
  opens_destination :: bool
  read_failure :: "nat option"
  write_failure :: "nat option"
  closes_destination :: bool

text \<open>The octets written so far, those still to be read; the octets written, and whether it went well.\<close>

fun copy_octets :: "copy_answers \<Rightarrow> string \<Rightarrow> string \<Rightarrow> string \<times> bool" where
  "copy_octets a written [] = (written, read_failure a \<noteq> Some (length written))"
| "copy_octets a written (c # rest) =
     (if read_failure a = Some (length written) then (written, False)
      else if write_failure a = Some (length written) then (written, False)
      else copy_octets a (written @ [c]) rest)"

definition copy_file :: "copy_answers \<Rightarrow> string \<Rightarrow> string \<Rightarrow> card_files \<Rightarrow> bool \<times> card_files" where
  "copy_file a source destination files =
     (case files source of
        None \<Rightarrow> (False, files)
      | Some content \<Rightarrow>
          if \<not> opens_source a \<or> \<not> opens_destination a then (False, files)
          else let (written, succeeded) = copy_octets a [] content
               in (succeeded \<and> closes_destination a, files(destination \<mapsto> written)))"

definition default_path :: string where
  "default_path = physical_sd_path ''/config.default''"

definition execute_copy ::
    "copy_answers \<Rightarrow> string \<Rightarrow> string \<Rightarrow> string \<Rightarrow> string \<Rightarrow> string \<Rightarrow> card_files \<Rightarrow> card_files \<times> frame" where
  "execute_copy a source destination missing_message failure_message success_message files =
     (let console = (\<lambda>message. \<lparr>ftype = console_message, fpayload = octets (message @ [CHR 0x0D, CHR 0x0A])\<rparr>)
      in if files source = None then (files, console missing_message)
         else let (copied, files) = copy_file a source destination files
              in (files, console (if copied then success_message else failure_message)))"

definition restore_configuration :: "copy_answers \<Rightarrow> card_files \<Rightarrow> card_files \<times> frame" where
  "restore_configuration a =
     execute_copy a default_path active_path ''Default file not found: /config.default''
       ''Config file not found or created fail: /config.txt'' ''Settings restored complete.''"

definition save_default_configuration :: "copy_answers \<Rightarrow> card_files \<Rightarrow> card_files \<times> frame" where
  "save_default_configuration a =
     execute_copy a active_path default_path ''Config file not found: /config.txt''
       ''Default file not found or created fail: /config.default'' ''Settings save as default complete.''"

lemma copy_octets_prefix:
  "copy_octets a written rest = (out, ok) \<Longrightarrow>
     \<exists>n. out = written @ take n rest \<and> (ok \<longrightarrow> out = written @ rest)"
proof (induction rest arbitrary: written)
  case (Cons c rest)
  show ?case
  proof (cases "read_failure a = Some (length written) \<or> write_failure a = Some (length written)")
    case True
    then have "out = written" "\<not> ok" using Cons.prems by (auto split: if_splits)
    then show ?thesis by (intro exI [of _ 0]) simp
  next
    case False
    then obtain n where "out = (written @ [c]) @ take n rest \<and> (ok \<longrightarrow> out = (written @ [c]) @ rest)"
      using Cons.IH [of "written @ [c]"] Cons.prems by (auto split: if_splits)
    then have "out = written @ take (Suc n) (c # rest) \<and> (ok \<longrightarrow> out = written @ c # rest)"
      unfolding append_assoc append_Cons append_Nil take_Suc_Cons .
    then show ?thesis by blast
  qed
qed auto

lemma copy_file_outcome:
  assumes "copy_file a source destination files = (ok, files')"
  shows "(ok \<longrightarrow> files source \<noteq> None \<and> files' destination = files source) \<and>
    (files' = files \<or> (\<exists>content n. files source = Some content \<and>
       files' = files(destination \<mapsto> take n content)))"
proof (cases "files source = None \<or> \<not> opens_source a \<or> \<not> opens_destination a")
  case True
  then show ?thesis using assms by (auto simp: copy_file_def split: option.splits)
next
  case False
  then obtain content where content: "files source = Some content" by auto
  obtain written s where w: "copy_octets a [] content = (written, s)" by (cases "copy_octets a [] content")
  obtain n where n: "written = [] @ take n content \<and> (s \<longrightarrow> written = [] @ content)"
    using copy_octets_prefix [OF w] by blast
  have "ok = (s \<and> closes_destination a)" "files' = files(destination \<mapsto> written)"
    using assms False content w by (auto simp: copy_file_def)
  then show ?thesis using n content by auto
qed

text \<open>
  Restoring the configuration, whatever fails: the answer that it is complete is given only when
  \<open>config.txt\<close> has exactly the octets of \<open>config.default\<close>; otherwise \<open>config.txt\<close> is as it was or
  holds the first octets of the default file, and no other file changes.
\<close>
theorem restore_outcome:
  "case restore_configuration a files of (files', reply) \<Rightarrow>
     (reply = \<lparr>ftype = console_message, fpayload = octets (''Settings restored complete.'' @ [CHR 0x0D, CHR 0x0A])\<rparr> \<longrightarrow>
        files default_path \<noteq> None \<and> files' active_path = files default_path) \<and>
     (files' = files \<or> (\<exists>content n. files default_path = Some content \<and>
        files' = files(active_path \<mapsto> take n content)))"
proof (cases "files default_path")
  case None
  then show ?thesis by (simp add: restore_configuration_def execute_copy_def)
next
  case (Some content)
  obtain ok files' where c: "copy_file a default_path active_path files = (ok, files')"
    by (cases "copy_file a default_path active_path files")
  have "(''Settings restored complete.'' = (if ok then ''Settings restored complete.'' else ''Config file not found or created fail: /config.txt'')) = ok"
    by simp
  then show ?thesis
    using copy_file_outcome [OF c] Some c
    by (auto simp: restore_configuration_def execute_copy_def Let_def split: if_splits)
qed

theorem restore_outcome_witness:
  "case restore_configuration \<lparr>opens_source = True, opens_destination = True, read_failure = None,
       write_failure = Some 2, closes_destination = True\<rparr> [default_path \<mapsto> ''A=1'', active_path \<mapsto> ''B''] of (files', reply) \<Rightarrow>
     files' = [default_path \<mapsto> ''A=1'', active_path \<mapsto> ''B''] \<or>
     (\<exists>content n. Some ''A=1'' = Some content \<and>
        files' = [default_path \<mapsto> ''A=1'', active_path \<mapsto> take n content])"
proof -
  have d: "default_path \<noteq> active_path"
    by (simp add: default_path_def active_path_def physical_sd_path_def)
  show ?thesis
    using restore_outcome [where a = "\<lparr>opens_source = True, opens_destination = True, read_failure = None,
       write_failure = Some 2, closes_destination = True\<rparr>" and files = "[default_path \<mapsto> ''A=1'', active_path \<mapsto> ''B'']"] d
    by (auto split: prod.splits)
qed

end
