(* ===== verification/Filesystem_Commands.thy ===== *)
theory Filesystem_Commands
  imports Number_Text Transfer_Paths Ports
begin

text \<open>
  The filesystem commands of the hosts: their arguments (\<open>core/src/filesystem/filesystem_syntax.cpp\<close>), the
  mutations (\<open>application/src/storage/filesystem_commands.cpp\<close>), the listing of a directory
  (\<open>directory_listing.cpp\<close>), the digest command (\<open>file_hash_command.cpp\<close>) and the removal of a tree
  (\<open>main/storage/posix_filesystem_mutation.cpp\<close>).
\<close>

section \<open>Arguments\<close>

definition is_trailing_path_space :: "char \<Rightarrow> bool" where
  "is_trailing_path_space c \<longleftrightarrow> c \<in> {CHR 0x09, CHR 0x0A, CHR 0x0D, CHR '' ''}"

definition skip_spaces :: "string \<Rightarrow> string" where
  "skip_spaces s = dropWhile (\<lambda>c. c = CHR '' '') s"

definition clean_path_text :: "string \<Rightarrow> string" where
  "clean_path_text s =
     (let s = skip_spaces s
      in if s = [] then []
         else let s = rev (dropWhile is_trailing_path_space (rev s))
              in case rfind_sub '' -'' s of None \<Rightarrow> s | Some suffix \<Rightarrow> take suffix s)"

definition parse_filesystem_path :: "bytes \<Rightarrow> string option" where
  "parse_filesystem_path argument =
     (let path = clean_path_text (decode_escaped argument)
      in if path = [] then None else Some (normalize_path path))"

record directory_list_arguments =
  list_path :: string
  include_details :: bool

text \<open>
  The leading options and what follows them; the number bounds the tokens, of which each takes at
  least one character.
\<close>

function list_options :: "string \<Rightarrow> string \<Rightarrow> string \<times> string" where
  "list_options combined s =
     (if s \<noteq> [] \<and> hd s = CHR ''-''
      then let option = takeWhile (\<lambda>c. c \<noteq> CHR '' '') s
           in list_options
                (if length combined + length option + 2 \<le> 63 then combined @ option else combined)
                (skip_spaces (drop (length option) s))
      else (combined, s))"
  by pat_completeness auto

termination
proof (relation "measure (\<lambda>(combined, s). length s)")
  fix combined s option :: string
  assume s: "s \<noteq> [] \<and> hd s = CHR ''-''" and option: "option = takeWhile (\<lambda>c. c \<noteq> CHR '' '') s"
  then have "0 < length option" by (cases s) auto
  moreover have "length (skip_spaces (drop (length option) s)) \<le> length s - length option"
    using length_dropWhile_le [of "\<lambda>c. c = CHR '' ''" "drop (length option) s"]
    by (simp add: skip_spaces_def)
  ultimately show "((if length combined + length option + 2 \<le> 63 then combined @ option else combined,
      skip_spaces (drop (length option) s)), (combined, s)) \<in> measure (\<lambda>(combined, s). length s)"
    using s by (simp add: less_le_trans) (metis diff_less le_less_trans length_greater_0_conv)
qed simp

declare list_options.simps [simp del]

definition parse_directory_list_arguments :: "bytes \<Rightarrow> directory_list_arguments" where
  "parse_directory_list_arguments argument =
     (let (combined, rest) = list_options [] (skip_spaces (decode_escaped argument));
          path = clean_path_text rest
      in \<lparr>list_path = normalize_path (if path = [] then ''.'' else path),
          include_details = (find_sub ''-s'' combined \<noteq> None)\<rparr>)"

definition parse_remove_path :: "bytes \<Rightarrow> string option" where
  "parse_remove_path argument =
     (let decoded = skip_spaces (decode_escaped argument)
      in if decoded = [] then None
         else let recursive = length decoded \<ge> 3 \<and> decoded ! 0 = CHR ''-'' \<and>
                    (decoded ! 1 = CHR ''r'' \<or> decoded ! 1 = CHR ''R'') \<and> decoded ! 2 = CHR '' '';
                  path = clean_path_text (if recursive then drop 3 decoded else decoded)
              in if path = [] then None else Some (normalize_path path))"

datatype move_path_error = Missing_separator | Empty_path

definition parse_move_paths_detailed :: "bytes \<Rightarrow> move_path_error + string \<times> string" where
  "parse_move_paths_detailed argument =
     (let decoded = skip_spaces (decode_escaped argument)
      in if decoded = [] then Inl Missing_separator
         else case (case find_sub '' /'' decoded of Some n \<Rightarrow> Some n | None \<Rightarrow> find_char CHR '' '' decoded) of
                None \<Rightarrow> Inl Missing_separator
              | Some separator \<Rightarrow>
                  let source = clean_path_text (take separator decoded);
                      destination = clean_path_text (drop (separator + 1) decoded)
                  in if source = [] \<or> destination = [] then Inl Empty_path
                     else Inr (normalize_path source, normalize_path destination))"

section \<open>Mutations\<close>

datatype filesystem_call =
  Fs_create string u32
| Fs_remove string
| Fs_exists string
| Fs_rename string string
| Fs_send frame
| Fs_warning string

abbreviation (input) operation_success :: u8 where "operation_success \<equiv> 0x84"
abbreviation (input) operation_failure :: u8 where "operation_failure \<equiv> 0x85"

definition text_frame :: "u8 \<Rightarrow> string \<Rightarrow> frame" where
  "text_frame packet_type s = \<lparr>ftype = packet_type, fpayload = octets s\<rparr>"

abbreviation (input) crlf :: string where "crlf \<equiv> [CHR 0x0D, CHR 0x0A]"

text \<open>The calls for one mapped path, when there is one.\<close>

fun on_cache :: "(string \<Rightarrow> filesystem_call) \<Rightarrow> string option \<Rightarrow> filesystem_call list" where
  "on_cache call None = []"
| "on_cache call (Some path) = [call path]"

definition create_cache_directories :: "string \<Rightarrow> filesystem_call list" where
  "create_cache_directories path =
     (let cache = map_file_cache_paths path
      in on_cache (\<lambda>p. Fs_create p 511) (md5_path cache) @
         on_cache (\<lambda>p. Fs_create p 511) (compressed_path cache))"

definition remove_cache_entries :: "string \<Rightarrow> filesystem_call list" where
  "remove_cache_entries path =
     (let cache = map_file_cache_paths path
      in on_cache Fs_remove (md5_path cache) @ on_cache Fs_remove (compressed_path cache))"

fun rename_cache_entry :: "string option \<Rightarrow> string option \<Rightarrow> filesystem_call list" where
  "rename_cache_entry (Some source) (Some destination) = [Fs_rename source destination]"
| "rename_cache_entry _ _ = []"

text \<open>Each command yields its calls; the environment answers those that have an answer.\<close>

definition make_directory :: "filesystem_call answers \<Rightarrow> bytes \<Rightarrow> filesystem_call list" where
  "make_directory env argument =
     (case parse_filesystem_path argument of
        None \<Rightarrow> []
      | Some path \<Rightarrow>
          let create = Fs_create path 511
          in if \<not> env [] create
             then [create, Fs_send (text_frame operation_failure (''could not create directory '' @ path @ crlf))]
             else [create, Fs_send (text_frame operation_success (''ok'' @ crlf)),
                   Fs_send (text_frame 0x90 (''created directory '' @ path @ crlf))] @
                  create_cache_directories path)"

definition remove_path :: "filesystem_call answers \<Rightarrow> bytes \<Rightarrow> filesystem_call list" where
  "remove_path env argument =
     (case parse_remove_path argument of
        None \<Rightarrow> []
      | Some path \<Rightarrow>
          if env [Fs_remove path] (Fs_exists path)
          then [Fs_remove path, Fs_exists path,
                Fs_send (text_frame operation_failure (''Could not delete '' @ path @ '' '' @ crlf))]
          else [Fs_remove path, Fs_exists path] @ remove_cache_entries path @
               [Fs_send (text_frame operation_success (''ok'' @ crlf))])"

definition move_path :: "filesystem_call answers \<Rightarrow> bytes \<Rightarrow> filesystem_call list" where
  "move_path env argument =
     (case parse_move_paths_detailed argument of
        Inl Missing_separator \<Rightarrow> [Fs_warning ''mv: missing separator in params'']
      | Inl Empty_path \<Rightarrow> [Fs_warning ''mv: empty from/to path'']
      | Inr (source, destination) \<Rightarrow>
          let rename = Fs_rename source destination
          in if \<not> env [] rename
             then [rename, Fs_send (text_frame operation_failure
                     (''Could not rename '' @ source @ '' to '' @ destination @ crlf))]
             else let from_cache = map_file_cache_paths source;
                      to_cache = map_file_cache_paths destination
                  in [rename] @ rename_cache_entry (md5_path from_cache) (md5_path to_cache) @
                     rename_cache_entry (compressed_path from_cache) (compressed_path to_cache) @
                     [Fs_send (text_frame operation_success (''ok'' @ crlf)),
                      Fs_send (text_frame 0x90 (''renamed '' @ source @ '' to '' @ destination @ crlf))])"

definition file_type :: "filesystem_call list" where
  "file_type = [Fs_send (text_frame 0x90 (''ftype = nc'' @ crlf))]"

section \<open>Removing a tree\<close>

datatype tree_node =
  File_node bytes
| Directory_node "(string \<times> tree_node) list"

text \<open>
  What is left of the tree_node at a path; \<open>deletes\<close> says whether \<open>unlink\<close> and \<open>rmdir\<close> work on a path,
  \<open>opens\<close> whether the directory can be read. \<open>rmdir\<close> fails on a directory that is not empty.
\<close>

fun remove_tree :: "(string \<Rightarrow> bool) \<Rightarrow> (string \<Rightarrow> bool) \<Rightarrow> string \<Rightarrow> tree_node \<Rightarrow> tree_node option"
and remove_entries :: "(string \<Rightarrow> bool) \<Rightarrow> (string \<Rightarrow> bool) \<Rightarrow> string \<Rightarrow> (string \<times> tree_node) list \<Rightarrow> (string \<times> tree_node) list" where
  "remove_tree deletes opens path (File_node content) =
     (if deletes path then None else Some (File_node content))"
| "remove_tree deletes opens path (Directory_node entries) =
     (let rest = (if opens path then remove_entries deletes opens path entries else entries)
      in if rest = [] \<and> deletes path then None else Some (Directory_node rest))"
| "remove_entries deletes opens path [] = []"
| "remove_entries deletes opens path ((name, tree_node) # entries) =
     (case remove_tree deletes opens (path @ ''/'' @ name) tree_node of
        None \<Rightarrow> remove_entries deletes opens path entries
      | Some left \<Rightarrow> (name, left) # remove_entries deletes opens path entries)"

section \<open>Listings\<close>

record utc_file_time =
  year :: u16
  month :: u8
  day :: u8
  hour :: u8
  minute :: u8
  second :: u8

record directory_entry =
  entry_name :: bytes
  entry_directory :: bool
  entry_size :: u64
  entry_modified :: utc_file_time
  entry_metadata :: bool

datatype listing_call =
  Ls_memory nat
| Ls_send frame
| Ls_warning bytes

definition visible_name :: "bytes \<Rightarrow> bool" where
  "visible_name name \<longleftrightarrow> name \<noteq> [] \<and>
     (hd name \<noteq> octet CHR ''.'' \<or> name = octets ''.md5'' \<or> name = octets ''.lz'')"

definition encode_name :: "bytes \<Rightarrow> bytes" where
  "encode_name name = map (\<lambda>b. if b = octet CHR '' '' then 0x01 else b) name"

definition format_timestamp :: "utc_file_time \<Rightarrow> string" where
  "format_timestamp t =
     (let s = padded_decimal 4 (unat (year t)) @ padded_decimal 2 (unat (month t)) @
            padded_decimal 2 (unat (day t)) @ padded_decimal 2 (unat (hour t)) @
            padded_decimal 2 (unat (minute t)) @ padded_decimal 2 (unat (second t))
      in if length s \<noteq> 14 then [] else s)"

text \<open>The line of an entry, empty when there is none, and the warning of a line that is too long.\<close>

definition format_line :: "directory_entry \<Rightarrow> bool \<Rightarrow> bytes \<times> listing_call list" where
  "format_line entry details =
     (if \<not> entry_metadata entry \<or> \<not> visible_name (entry_name entry) then ([], [])
      else let line = encode_name (entry_name entry) @
                 (if entry_directory entry then octets ''/'' else []);
               listed = (if entry_directory entry then 0 else ucast (entry_size entry) :: u32);
               timestamp = format_timestamp (entry_modified entry)
           in if details \<and> timestamp = [] then ([], [])
              else let line = line @
                         (if details then octets ('' '' @ decimal (unat listed) @ '' '' @ timestamp) else []) @
                         octets crlf
                   in if length line \<ge> 256 then ([], [Ls_warning (octets ''Output string too long, truncated'')])
                      else (line, []))"

definition flush_chunk ::
    "listing_call answers \<Rightarrow> listing_call list \<Rightarrow> bytes \<Rightarrow> string \<Rightarrow> listing_call list" where
  "flush_chunk env h chunk failure =
     (if chunk = [] then h
      else let send = Ls_send \<lparr>ftype = 0x83, fpayload = chunk\<rparr>
           in if env h send then h @ [send] else h @ [send, Ls_warning (octets failure)])"

definition send_completion :: "listing_call answers \<Rightarrow> listing_call list \<Rightarrow> listing_call list" where
  "send_completion env h =
     (let send = Ls_send (text_frame operation_success (''Load directory finished.'' @ crlf))
      in if env h send then h @ [send]
         else h @ [send, Ls_warning (octets ''ls: xRx2ControllerQueue send timeout (LOAD_FINISH)'')])"

definition list_entry ::
    "listing_call answers \<Rightarrow> string \<Rightarrow> bool \<Rightarrow> directory_entry \<Rightarrow> listing_call list \<times> bytes \<Rightarrow>
     listing_call list \<times> bytes" where
  "list_entry env path details entry = (\<lambda>(h, chunk).
     let probe = Ls_memory (length path + 1 + length (entry_name entry) + 1)
     in if \<not> env h probe
        then (h @ [probe, Ls_warning (octets ''ls: xRx2ControllerQueue send timeout (malloc err path)'')], chunk)
        else let entry_path = octets path @ octets ''/'' @ entry_name entry
             in if length entry_path \<ge> 256
                then (h @ [probe, Ls_warning (octets ''Path too long, truncated: '' @ entry_path)], chunk)
                else let (line, warnings) = format_line entry details;
                         h = h @ [probe] @ warnings
                     in if line = [] then (h, chunk)
                        else let chunk = chunk @ line
                             in if length chunk > 411
                                then (flush_chunk env h chunk ''ls: xRx2ControllerQueue send timeout, drop partial chunk'', [])
                                else (h, chunk))"

text \<open>The directory is read through the port: \<open>None\<close> when it cannot be.\<close>

definition directory_listing ::
    "listing_call answers \<Rightarrow> (string \<Rightarrow> directory_entry list option) \<Rightarrow> bytes \<Rightarrow> listing_call list" where
  "directory_listing env list_directory argument =
     (let arguments = parse_directory_list_arguments argument
      in case list_directory (list_path arguments) of
           None \<Rightarrow> send_completion env []
         | Some entries \<Rightarrow>
             let (h, chunk) = fold (list_entry env (list_path arguments) (include_details arguments)) entries ([], [])
             in send_completion env (flush_chunk env h chunk ''ls: xRx2ControllerQueue send timeout (tail LOAD_INFO)''))"

section \<open>Digests\<close>

datatype hash_path_state = Resolution_failure | Path_missing | Not_regular | Regular_file

definition normalize_md5 :: "bytes \<Rightarrow> string option" where
  "normalize_md5 result =
     (if length result \<noteq> md5_text_size then None
      else if \<not> list_all ascii_xdigit result then None
      else Some (chars (map ascii_lower result)))"

text \<open>The path is inspected and hashed through the port; the value is the console reply.\<close>

definition file_hash ::
    "(string \<Rightarrow> hash_path_state) \<Rightarrow> (string \<Rightarrow> nat \<Rightarrow> bytes option) \<Rightarrow> bytes \<Rightarrow> string option" where
  "file_hash inspect_path calculate_md5 argument =
     (case parse_filesystem_path argument of
        None \<Rightarrow> Some (''Error: md5sum requires a file path'' @ crlf)
      | Some path \<Rightarrow>
          (case inspect_path path of
             Resolution_failure \<Rightarrow> None
           | Path_missing \<Rightarrow> Some (''Error: file not found ['' @ path @ '']'' @ crlf)
           | Not_regular \<Rightarrow> Some (''Error: not a file ['' @ path @ '']'' @ crlf)
           | Regular_file \<Rightarrow>
               (case Option.bind (calculate_md5 path 4096) normalize_md5 of
                  None \<Rightarrow> Some (''Error: md5sum failed ['' @ path @ '']'' @ crlf)
                | Some digest \<Rightarrow> Some (digest @ path @ crlf))))"

section \<open>Replies\<close>

text \<open>The verdicts among the calls, true for success, and the changes of the file system.\<close>

fun verdict_of :: "filesystem_call \<Rightarrow> bool list" where
  "verdict_of (Fs_send f) =
     (if ftype f = operation_success then [True] else if ftype f = operation_failure then [False] else [])"
| "verdict_of _ = []"

fun is_mutation :: "filesystem_call \<Rightarrow> bool" where
  "is_mutation (Fs_create path mode) = True"
| "is_mutation (Fs_remove path) = True"
| "is_mutation (Fs_rename source destination) = True"
| "is_mutation _ = False"

definition verdicts :: "filesystem_call list \<Rightarrow> bool list" where
  "verdicts calls = concat (map verdict_of calls)"

definition mutations :: "filesystem_call list \<Rightarrow> filesystem_call list" where
  "mutations calls = filter is_mutation calls"

lemma verdicts_simps [simp]:
  "verdicts [] = []" "verdicts (c # cs) = verdict_of c @ verdicts cs"
  "verdicts (cs @ ds) = verdicts cs @ verdicts ds"
  "mutations [] = []" "mutations (c # cs) = (if is_mutation c then [c] else []) @ mutations cs"
  "mutations (cs @ ds) = mutations cs @ mutations ds"
  by (simp_all add: verdicts_def mutations_def)

lemma cache_verdicts [simp]:
  "verdicts (create_cache_directories p) = []" "verdicts (remove_cache_entries p) = []"
  "verdicts (rename_cache_entry s d) = []"
  "mutations (create_cache_directories p) = create_cache_directories p"
  "mutations (remove_cache_entries p) = remove_cache_entries p"
  "mutations (rename_cache_entry s d) = rename_cache_entry s d"
proof -
  have on: "verdicts (on_cache (\<lambda>p. Fs_create p m) q) = []" "verdicts (on_cache Fs_remove q) = []"
    "mutations (on_cache (\<lambda>p. Fs_create p m) q) = on_cache (\<lambda>p. Fs_create p m) q"
    "mutations (on_cache Fs_remove q) = on_cache Fs_remove q" for m q
    by (cases q; simp)+
  show "verdicts (create_cache_directories p) = []" "verdicts (remove_cache_entries p) = []"
    "mutations (create_cache_directories p) = create_cache_directories p"
    "mutations (remove_cache_entries p) = remove_cache_entries p"
    by (simp_all add: create_cache_directories_def remove_cache_entries_def Let_def on)
  show "verdicts (rename_cache_entry s d) = []" "mutations (rename_cache_entry s d) = rename_cache_entry s d"
    by (cases "(s, d)" rule: rename_cache_entry.cases; simp)+
qed

text \<open>
  The verdict of a filesystem command is that of its primary operation. A command whose argument is
  refused changes nothing; otherwise exactly one verdict is sent, success exactly when the directory was
  created, the path is gone or the rename worked, whatever becomes of the cache entries, and after a
  failure the cache entries are not touched.
\<close>
theorem filesystem_verdict_is_primary:
  "(case parse_filesystem_path a of
      None \<Rightarrow> make_directory env a = []
    | Some path \<Rightarrow> let ok = env [] (Fs_create path 511) in
        verdicts (make_directory env a) = [ok] \<and>
        mutations (make_directory env a) = Fs_create path 511 # (if ok then create_cache_directories path else [])) \<and>
   (case parse_remove_path a of
      None \<Rightarrow> remove_path env a = []
    | Some path \<Rightarrow> let ok = \<not> env [Fs_remove path] (Fs_exists path) in
        verdicts (remove_path env a) = [ok] \<and>
        mutations (remove_path env a) = Fs_remove path # (if ok then remove_cache_entries path else [])) \<and>
   (case parse_move_paths_detailed a of
      Inl e \<Rightarrow> verdicts (move_path env a) = [] \<and> mutations (move_path env a) = []
    | Inr (source, destination) \<Rightarrow> let ok = env [] (Fs_rename source destination) in
        verdicts (move_path env a) = [ok] \<and>
        mutations (move_path env a) = Fs_rename source destination #
          (if ok then rename_cache_entry (md5_path (map_file_cache_paths source)) (md5_path (map_file_cache_paths destination)) @
             rename_cache_entry (compressed_path (map_file_cache_paths source)) (compressed_path (map_file_cache_paths destination))
           else []))"
proof (intro conjI)
  show "case parse_filesystem_path a of
      None \<Rightarrow> make_directory env a = []
    | Some path \<Rightarrow> let ok = env [] (Fs_create path 511) in
        verdicts (make_directory env a) = [ok] \<and>
        mutations (make_directory env a) = Fs_create path 511 # (if ok then create_cache_directories path else [])"
    by (simp add: make_directory_def text_frame_def Let_def split: option.split)
  show "case parse_remove_path a of
      None \<Rightarrow> remove_path env a = []
    | Some path \<Rightarrow> let ok = \<not> env [Fs_remove path] (Fs_exists path) in
        verdicts (remove_path env a) = [ok] \<and>
        mutations (remove_path env a) = Fs_remove path # (if ok then remove_cache_entries path else [])"
    by (simp add: remove_path_def text_frame_def Let_def split: option.split)
  show "case parse_move_paths_detailed a of
      Inl e \<Rightarrow> verdicts (move_path env a) = [] \<and> mutations (move_path env a) = []
    | Inr (source, destination) \<Rightarrow> let ok = env [] (Fs_rename source destination) in
        verdicts (move_path env a) = [ok] \<and>
        mutations (move_path env a) = Fs_rename source destination #
          (if ok then rename_cache_entry (md5_path (map_file_cache_paths source)) (md5_path (map_file_cache_paths destination)) @
             rename_cache_entry (compressed_path (map_file_cache_paths source)) (compressed_path (map_file_cache_paths destination))
           else [])"
    by (simp add: move_path_def text_frame_def Let_def split: sum.split move_path_error.split)
qed

section \<open>Removal\<close>

text \<open>A tree_node can be removed when everything in it can.\<close>

fun removable :: "(string \<Rightarrow> bool) \<Rightarrow> (string \<Rightarrow> bool) \<Rightarrow> string \<Rightarrow> tree_node \<Rightarrow> bool" where
  "removable deletes opens path (File_node content) \<longleftrightarrow> deletes path"
| "removable deletes opens path (Directory_node entries) \<longleftrightarrow>
     deletes path \<and> (opens path \<or> entries = []) \<and>
     (\<forall>e \<in> set entries. removable deletes opens (path @ ''/'' @ fst e) (snd e))"

text \<open>The files of a tree_node with their contents, by the path from it.\<close>

fun files_of :: "string \<Rightarrow> tree_node \<Rightarrow> (string \<times> bytes) list" where
  "files_of path (File_node content) = [(path, content)]"
| "files_of path (Directory_node entries) =
     concat (map (\<lambda>e. files_of (path @ ''/'' @ fst e) (snd e)) entries)"

lemma remove_tree_None:
  "remove_tree deletes opens path tree_node = None \<longleftrightarrow> removable deletes opens path tree_node"
  "remove_entries deletes opens path entries = [] \<longleftrightarrow>
     (\<forall>e \<in> set entries. removable deletes opens (path @ ''/'' @ fst e) (snd e))"
  by (induction deletes opens path tree_node and deletes opens path entries
      rule: remove_tree_remove_entries.induct)
    (auto split: option.split)

lemma remove_tree_files:
  "remove_tree deletes opens path tree_node = Some rest \<Longrightarrow>
     set (files_of path rest) \<subseteq> set (files_of path tree_node)"
  "set (concat (map (\<lambda>e. files_of (path @ ''/'' @ fst e) (snd e)) (remove_entries deletes opens path entries)))
     \<subseteq> set (concat (map (\<lambda>e. files_of (path @ ''/'' @ fst e) (snd e)) entries))"
proof (induction deletes opens path tree_node and deletes opens path entries arbitrary: rest and
    rule: remove_tree_remove_entries.induct)
  case (4 deletes opens path name tree_node entries)
  then show ?case by (cases "remove_tree deletes opens (path @ ''/'' @ name) tree_node") auto
qed (auto simp: Let_def split: if_splits)

text \<open>
  Removing a path. The command answers success exactly when everything below the path can be
  removed: every file and directory deleted and every directory that is not empty read. Otherwise only
  files of the tree are gone, and none of the others has changed.
\<close>
theorem remove_succeeds_iff_removable:
  assumes "parse_remove_path a = Some path"
    and "env [Fs_remove path] (Fs_exists path) \<longleftrightarrow> remove_tree deletes opens path tree_node \<noteq> None"
  shows "verdicts (remove_path env a) = [removable deletes opens path tree_node] \<and>
    (case remove_tree deletes opens path tree_node of
       None \<Rightarrow> True
     | Some rest \<Rightarrow> set (files_of path rest) \<subseteq> set (files_of path tree_node))"
  using assms(2) remove_tree_files(1) [of deletes opens path tree_node]
  by (simp add: remove_path_def assms(1) text_frame_def remove_tree_None [symmetric] split: option.split)

theorem remove_succeeds_iff_removable_witness:
  "verdicts (remove_path (\<lambda>_ _. True) (octets ''-r /sd/x'')) = [False]"
proof -
  let ?tree_node = "Directory_node [(''a'', File_node [1]), (''b'', File_node [2])]"
  have "parse_remove_path (octets ''-r /sd/x'') = Some ''/sd/x''" by code_simp
  moreover have "remove_tree (\<lambda>p. p \<noteq> ''/sd/x/b'') (\<lambda>_. True) ''/sd/x'' ?tree_node \<noteq> None" by simp
  ultimately show ?thesis
    using remove_succeeds_iff_removable [of "octets ''-r /sd/x''" "''/sd/x''" "\<lambda>_ _. True"
        "\<lambda>p. p \<noteq> ''/sd/x/b''" "\<lambda>_. True" ?tree_node] by simp
qed

section \<open>Names that come back\<close>

lemma decode_encode_name:
  "\<forall>b \<in> set name. 5 < b \<Longrightarrow> decode_escaped (encode_name name) = chars name"
proof (induction name)
  case (Cons b name)
  show ?case
  proof (cases "b = octet CHR '' ''")
    case True
    then show ?thesis using Cons by (simp add: encode_name_def)
  next
    case False
    then have "\<not> b \<le> 5" "b \<noteq> 0" using Cons.prems by auto
    then show ?thesis using Cons False by (simp add: encode_name_def)
  qed
qed (simp add: encode_name_def)

text \<open>
  A listed name comes back. When a host sends a name of a listing, spaces and all, as the argument of a
  command, the path is that of the name, provided the name has no space at its ends and no space before
  a hyphen; with one, everything from the last space and hyphen on is cut off, so that the command is
  about another file.
\<close>
theorem listed_name_comes_back:
  assumes "\<forall>b \<in> set name. 5 < b" "name \<noteq> []" "hd name \<noteq> octet CHR '' ''"
    "\<not> is_trailing_path_space (chr_of (last name))"
  shows "parse_filesystem_path (encode_name name) =
    (case rfind_sub '' -'' (chars name) of
       None \<Rightarrow> Some (normalize_path (chars name))
     | Some n \<Rightarrow> Some (normalize_path (take n (chars name))))"
proof -
  let ?s = "chars name"
  obtain b bs where b: "name = b # bs" using assms(2) by (cases name) auto
  then have hd: "chr_of b \<noteq> CHR '' ''" using assms(3) by (metis list.sel(1) octet_chr_of)
  then have skip: "skip_spaces ?s = ?s" by (simp add: skip_spaces_def b)
  obtain cs c where c: "name = cs @ [c]" using assms(2) by (cases name rule: rev_cases) auto
  then have "\<not> is_trailing_path_space (chr_of c)" using assms(4) by simp
  then have "rev (dropWhile is_trailing_path_space (rev ?s)) = ?s" by (simp add: c)
  then have clean: "clean_path_text ?s =
      (case rfind_sub '' -'' ?s of None \<Rightarrow> ?s | Some n \<Rightarrow> take n ?s)"
    using assms(2) skip by (simp only: clean_path_text_def Let_def map_is_Nil_conv if_False)
  have "n \<noteq> 0" if "rfind_sub '' -'' ?s = Some n" for n
    using that hd by (auto simp: b split: option.splits if_splits)
  then show ?thesis
    using assms(2) by (auto simp: parse_filesystem_path_def Let_def decode_encode_name [OF assms(1)] clean split: option.split)
qed

theorem listed_name_comes_back_witness:
  "parse_filesystem_path (encode_name (octets ''top -v2.nc'')) = Some ''/top''"
proof -
  have "parse_filesystem_path (encode_name (octets ''top -v2.nc'')) =
     (case rfind_sub '' -'' (chars (octets ''top -v2.nc'')) of
       None \<Rightarrow> Some (normalize_path (chars (octets ''top -v2.nc'')))
     | Some n \<Rightarrow> Some (normalize_path (take n (chars (octets ''top -v2.nc'')))))"
    by (rule listed_name_comes_back) code_simp+
  moreover have "rfind_sub '' -'' (chars (octets ''top -v2.nc'')) = Some 3"
    "normalize_path (take 3 (chars (octets ''top -v2.nc''))) = ''/top''" by code_simp+
  ultimately show ?thesis by simp
qed

section \<open>Listings\<close>

fun listing_frames :: "listing_call list \<Rightarrow> frame list" where
  "listing_frames [] = []"
| "listing_frames (Ls_send f # cs) = f # listing_frames cs"
| "listing_frames (_ # cs) = listing_frames cs"

lemma listing_frames_append [simp]: "listing_frames (cs @ ds) = listing_frames cs @ listing_frames ds"
  by (induction cs rule: listing_frames.induct) simp_all

definition entry_line_bytes :: "string \<Rightarrow> bool \<Rightarrow> directory_entry \<Rightarrow> bytes" where
  "entry_line_bytes path details entry =
     (if length path + 1 + length (entry_name entry) \<ge> 256 then [] else fst (format_line entry details))"

lemma format_line_length: "length (fst (format_line entry details)) < 256"
  by (simp add: format_line_def Let_def)

lemma format_line_warnings: "listing_frames (snd (format_line entry details)) = []"
  by (simp add: format_line_def Let_def)

lemma flush_frames:
  "listing_frames (flush_chunk env h chunk failure) =
     listing_frames h @ (if chunk = [] then [] else [\<lparr>ftype = 0x83, fpayload = chunk\<rparr>])"
  by (simp add: flush_chunk_def Let_def)

text \<open>The listing so far: the chunks sent, each a short list frame, and what is kept of the next.\<close>

definition listing_so_far :: "bytes \<Rightarrow> listing_call list \<times> bytes \<Rightarrow> bool" where
  "listing_so_far lines = (\<lambda>(h, chunk).
     concat (map fpayload (listing_frames h)) @ chunk = lines \<and> length chunk \<le> 411 \<and>
     (\<forall>f \<in> set (listing_frames h). ftype f = 0x83 \<and> fpayload f \<noteq> [] \<and> length (fpayload f) \<le> 666))"

lemma list_entry_step:
  assumes "\<And>h n. env h (Ls_memory n)" "listing_so_far lines s"
  shows "listing_so_far (lines @ entry_line_bytes path details entry) (list_entry env path details entry s)"
proof -
  obtain h chunk where s: "s = (h, chunk)" by (cases s)
  obtain line warnings where f: "format_line entry details = (line, warnings)"
    by (cases "format_line entry details")
  have line: "length line < 256" "listing_frames warnings = []"
    using format_line_length [of entry details] format_line_warnings [of entry details] f by simp_all
  show ?thesis
  proof (cases "length path + 1 + length (entry_name entry) \<ge> 256")
    case True
    then show ?thesis
      using assms by (simp add: list_entry_def s Let_def entry_line_bytes_def listing_so_far_def)
  next
    case False
    then show ?thesis
      using assms line
      by (auto simp: list_entry_def s Let_def f entry_line_bytes_def listing_so_far_def flush_frames)
  qed
qed

lemma list_entries:
  assumes "\<And>h n. env h (Ls_memory n)"
  shows "listing_so_far lines s \<Longrightarrow>
    listing_so_far (lines @ concat (map (entry_line_bytes path details) entries))
      (fold (list_entry env path details) entries s)"
proof (induction entries arbitrary: lines s)
  case (Cons entry entries)
  then show ?case
    using list_entry_step [of env lines s path details entry, OF assms Cons.prems] by (simp add: append_assoc [symmetric] del: append_assoc)
qed simp

text \<open>
  A listing is complete. When the directory can be read and memory for the paths is at hand, the
  list frames together hold the line of every entry that has one, in order, each frame at most 666
  octets; whether or not frames are accepted, one completion comes last.
\<close>
theorem listing_delivers_entries:
  assumes "\<And>h n. env h (Ls_memory n)"
    and "parse_directory_list_arguments a = \<lparr>list_path = path, include_details = details\<rparr>"
    and "list_directory path = Some entries"
  shows "\<exists>frames. listing_frames (directory_listing env list_directory a) =
      frames @ [text_frame operation_success (''Load directory finished.'' @ crlf)] \<and>
    concat (map fpayload frames) = concat (map (entry_line_bytes path details) entries) \<and>
    (\<forall>f \<in> set frames. ftype f = 0x83 \<and> fpayload f \<noteq> [] \<and> length (fpayload f) \<le> 666)"
proof -
  obtain h chunk where s: "fold (list_entry env path details) entries ([], []) = (h, chunk)"
    by (cases "fold (list_entry env path details) entries ([], [])")
  have "listing_so_far [] ([], [])" by (simp add: listing_so_far_def)
  then have so_far: "listing_so_far (concat (map (entry_line_bytes path details) entries)) (h, chunk)"
    using list_entries [of env "[]" "([], [])" path details entries, OF assms(1)] s by simp
  define frames where "frames = listing_frames h @ (if chunk = [] then [] else [\<lparr>ftype = 0x83, fpayload = chunk\<rparr>])"
  have "listing_frames (directory_listing env list_directory a) =
      frames @ [text_frame operation_success (''Load directory finished.'' @ crlf)]"
    by (simp add: directory_listing_def assms(2,3) s send_completion_def Let_def flush_frames frames_def)
  moreover have "concat (map fpayload frames) = concat (map (entry_line_bytes path details) entries)"
    "\<forall>f \<in> set frames. ftype f = 0x83 \<and> fpayload f \<noteq> [] \<and> length (fpayload f) \<le> 666"
    using so_far by (auto simp: listing_so_far_def frames_def)
  ultimately show ?thesis by blast
qed

definition sample_entry :: "string \<Rightarrow> directory_entry" where
  "sample_entry name = \<lparr>entry_name = octets name, entry_directory = False, entry_size = 3,
     entry_modified = \<lparr>year = 2026, month = 8, day = 20, hour = 12, minute = 0, second = 0\<rparr>, entry_metadata = True\<rparr>"

theorem listing_delivers_entries_witness:
  "\<exists>frames. listing_frames (directory_listing (\<lambda>_ _. True) (\<lambda>_. Some [sample_entry ''a b'', sample_entry ''.x'']) (octets ''-s /sd'')) =
      frames @ [text_frame operation_success (''Load directory finished.'' @ crlf)] \<and>
    concat (map fpayload frames) = octets ([CHR ''a'', CHR 0x01, CHR ''b''] @ '' 3 20260820120000'' @ crlf)"
proof -
  have args: "parse_directory_list_arguments (octets ''-s /sd'') = \<lparr>list_path = ''/sd'', include_details = True\<rparr>"
    by code_simp
  have lines: "concat (map (entry_line_bytes ''/sd'' True) [sample_entry ''a b'', sample_entry ''.x'']) =
      octets ([CHR ''a'', CHR 0x01, CHR ''b''] @ '' 3 20260820120000'' @ crlf)"
    by code_simp
  have "\<exists>frames. listing_frames (directory_listing (\<lambda>_ _. True) (\<lambda>_. Some [sample_entry ''a b'', sample_entry ''.x'']) (octets ''-s /sd'')) =
      frames @ [text_frame operation_success (''Load directory finished.'' @ crlf)] \<and>
    concat (map fpayload frames) = concat (map (entry_line_bytes ''/sd'' True) [sample_entry ''a b'', sample_entry ''.x'']) \<and>
    (\<forall>f \<in> set frames. ftype f = 0x83 \<and> fpayload f \<noteq> [] \<and> length (fpayload f) \<le> 666)"
    by (rule listing_delivers_entries) (simp_all only: args)
  then show ?thesis unfolding lines by blast
qed

end
