(* ===== verification/Blufi.thy ===== *)
theory Blufi
  imports Frame Text_Protocol
begin

text \<open>
  BLUFI provisioning over Bluetooth, \<open>application/src/provisioning\<close>: the frame envelope with its sequence
  numbers, checksum and encryption (\<open>blufi_wire.cpp\<close>), fragmentation (\<open>blufi_fragment.cpp\<close>), key
  negotiation (\<open>blufi_security.cpp\<close>), dispatch (\<open>blufi_product.cpp\<close>), their composition
  (\<open>blufi_session.cpp\<close>), the attribute writes (\<open>blufi_gatt.cpp\<close>) and the advertisement
  (\<open>blufi_advertising.cpp\<close>). The cryptography is a library: the cipher is an argument.
\<close>

section \<open>Frames\<close>

datatype blufi_type = Blufi_control | Blufi_data | Blufi_unknown_two | Blufi_unknown_three

definition blufi_type_of :: "u8 \<Rightarrow> blufi_type" where
  "blufi_type_of b =
     (if b AND 3 = 0 then Blufi_control else if b AND 3 = 1 then Blufi_data
      else if b AND 3 = 2 then Blufi_unknown_two else Blufi_unknown_three)"

fun blufi_type_bits :: "blufi_type \<Rightarrow> u8" where
  "blufi_type_bits Blufi_control = 0"
| "blufi_type_bits Blufi_data = 1"
| "blufi_type_bits Blufi_unknown_two = 2"
| "blufi_type_bits Blufi_unknown_three = 3"

record blufi_frame =
  bf_type :: blufi_type
  bf_subtype :: u8
  bf_data :: bytes
  bf_non_final :: bool

record blufi_wire =
  incoming_sequence :: u8
  outgoing_sequence :: u8
  checksum_ordinary_data :: bool
  encrypt_ordinary_data :: bool
  checksum_control_frames :: bool

definition new_wire :: blufi_wire where
  "new_wire = \<lparr>incoming_sequence = 0, outgoing_sequence = 0, checksum_ordinary_data = False,
     encrypt_ordinary_data = False, checksum_control_frames = False\<rparr>"

text \<open>What a cipher offers: whether a key is there, and the transformation by sequence number and direction.\<close>

record blufi_cipher =
  cipher_ready :: bool
  cipher_crypt :: "u8 \<Rightarrow> bytes \<Rightarrow> bool \<Rightarrow> bytes option"

definition type_byte :: "blufi_type \<Rightarrow> u8 \<Rightarrow> u8" where
  "type_byte type subtype = push_bit 2 subtype OR blufi_type_bits type"

definition checksum_input :: "u8 \<Rightarrow> bytes \<Rightarrow> bytes" where
  "checksum_input sequence plaintext = [sequence, of_nat (length plaintext)] @ plaintext"

definition security_exempt_data_subtype :: "u8 \<Rightarrow> bool" where
  "security_exempt_data_subtype subtype \<longleftrightarrow> subtype = 0 \<or> subtype = 0x12"

text \<open>The characteristic value sent, or the error reported instead.\<close>

definition wire_send ::
    "blufi_cipher \<Rightarrow> blufi_type \<Rightarrow> u8 \<Rightarrow> bytes \<Rightarrow> bool \<Rightarrow> bool \<Rightarrow> blufi_wire \<Rightarrow> blufi_wire \<times> (u8 + bytes)" where
  "wire_send c type subtype plaintext acknowledge non_final w =
     (if type \<noteq> Blufi_control \<and> type \<noteq> Blufi_data \<or> length plaintext > 255 then (w, Inl 9)
      else
        let ordinary = (type = Blufi_data \<and> \<not> security_exempt_data_subtype subtype);
            add_checksum = (if ordinary then checksum_ordinary_data w
                            else type = Blufi_control \<and> checksum_control_frames w);
            encrypt = (ordinary \<and> encrypt_ordinary_data w);
            control = 0x04 OR (if encrypt then 0x01 else 0) OR (if add_checksum then 0x02 else 0) OR
              (if acknowledge then 0x08 else 0) OR (if non_final then 0x10 else 0);
            sequence = outgoing_sequence w
        in if encrypt \<and> \<not> cipher_ready c then (w, Inl 4)
           else case (if encrypt then cipher_crypt c sequence plaintext True else Some plaintext) of
                  None \<Rightarrow> (w, Inl 3)
                | Some wire_data \<Rightarrow>
                    if length wire_data \<noteq> length plaintext then (w, Inl 3)
                    else let checksum = crc16_blufi (checksum_input sequence plaintext)
                         in (w\<lparr>outgoing_sequence := sequence + 1\<rparr>,
                             Inr ([type_byte type subtype, control, sequence, of_nat (length plaintext)] @
                               wire_data @
                               (if add_checksum then [byte_at checksum 0, byte_at checksum 1] else []))))"

datatype wire_output = Wire_characteristic bytes | Wire_error u8

definition send_outputs :: "u8 + bytes \<Rightarrow> wire_output list" where
  "send_outputs r = (case r of Inl e \<Rightarrow> [Wire_error e] | Inr f \<Rightarrow> [Wire_characteristic f])"

text \<open>The outputs are acknowledgements and errors, in the order they are made.\<close>

definition wire_receive ::
    "blufi_cipher \<Rightarrow> bytes \<Rightarrow> blufi_wire \<Rightarrow> blufi_wire \<times> wire_output list \<times> blufi_frame option" where
  "wire_receive c frame w =
     (if length frame < 4 \<or> frame ! 1 AND 0xE0 \<noteq> 0 then (w, [Wire_error 9], None)
      else
        let control = frame ! 1;
            has_checksum = (control AND 0x02 \<noteq> 0);
            size = unat (frame ! 3);
            sequence = frame ! 2
        in if length frame \<noteq> 4 + size + (if has_checksum then 2 else 0) then (w, [Wire_error 9], None)
           else if sequence \<noteq> incoming_sequence w then (w, [Wire_error 0], None)
           else
             let w = w\<lparr>incoming_sequence := incoming_sequence w + 1\<rparr>;
                 encrypted = (control AND 0x01 \<noteq> 0);
                 carried = take size (drop 4 frame)
             in if encrypted \<and> \<not> cipher_ready c then (w, [Wire_error 4], None)
                else case (if encrypted then cipher_crypt c sequence carried False else Some carried) of
                       None \<Rightarrow> (w, [Wire_error 2], None)
                     | Some plaintext \<Rightarrow>
                         if length plaintext \<noteq> size then (w, [Wire_error 2], None)
                         else if has_checksum \<and>
                           be16 (frame ! (size + 5)) (frame ! (size + 4)) \<noteq>
                             crc16_blufi (checksum_input sequence plaintext)
                         then (w, [Wire_error 1], None)
                         else
                           let (w, outputs) =
                                 (if control AND 0x08 \<noteq> 0
                                  then let (w, r) = wire_send c Blufi_control 0 [sequence] False False w
                                       in (w, send_outputs r)
                                  else (w, []));
                               type = blufi_type_of (frame ! 0);
                               subtype = drop_bit 2 (frame ! 0);
                               message = \<lparr>bf_type = type, bf_subtype = subtype, bf_data = plaintext,
                                 bf_non_final = (control AND 0x10 \<noteq> 0)\<rparr>
                           in if type = Blufi_control \<and> subtype = 1
                              then if plaintext = [] then (w, outputs @ [Wire_error 9], None)
                                   else (w\<lparr>checksum_ordinary_data := (plaintext ! 0 AND 0x01 \<noteq> 0),
                                           encrypt_ordinary_data := (plaintext ! 0 AND 0x02 \<noteq> 0),
                                           checksum_control_frames := (plaintext ! 0 AND 0x10 \<noteq> 0)\<rparr>,
                                         outputs, Some message)
                              else (w, outputs, Some message))"

section \<open>Fragments\<close>

record blufi_fragments =
  att_mtu :: u16
  partial_message :: "bytes option"
  accumulated_size :: nat
  partial_type :: blufi_type
  partial_subtype :: u8
  fragmented_input_active :: bool

definition new_fragments :: blufi_fragments where
  "new_fragments = \<lparr>att_mtu = 23, partial_message = None, accumulated_size = 0,
     partial_type = Blufi_control, partial_subtype = 0, fragmented_input_active = False\<rparr>"

definition clear_partial :: "blufi_fragments \<Rightarrow> blufi_fragments" where
  "clear_partial f = f\<lparr>partial_message := None, accumulated_size := 0, partial_type := Blufi_control,
     partial_subtype := 0, fragmented_input_active := False\<rparr>"

definition set_att_mtu :: "u16 \<Rightarrow> blufi_fragments \<Rightarrow> blufi_fragments" where
  "set_att_mtu mtu f = f\<lparr>att_mtu := mtu\<rparr>"

definition fragment_content_capacity :: "blufi_fragments \<Rightarrow> nat" where
  "fragment_content_capacity f =
     (let mtu = min (unat (att_mtu f)) 255 in if mtu \<le> 11 then 0 else mtu - 11)"

text \<open>The pieces of a message and whether each is followed by another one.\<close>

function fragment_pieces :: "nat \<Rightarrow> bytes \<Rightarrow> (bytes \<times> bool) list" where
  "fragment_pieces capacity message =
     (if capacity = 0 \<or> length message \<le> capacity then [(message, False)]
      else ([of_nat (length message), of_nat (length message div 256)] @ take capacity message, True) #
           fragment_pieces capacity (drop capacity message))"
  by pat_completeness auto

termination
  by (relation "measure (\<lambda>(capacity, message). length message)") auto

declare fragment_pieces.simps [simp del]

definition matches_partial :: "blufi_frame \<Rightarrow> blufi_fragments \<Rightarrow> bool" where
  "matches_partial m f \<longleftrightarrow> bf_type m = partial_type f \<and> bf_subtype m = partial_subtype f"

text \<open>\<open>allocates\<close> says whether memory for a message of a size can be had; an error or a message results.\<close>

definition fragment_receive ::
    "(nat \<Rightarrow> bool) \<Rightarrow> blufi_frame \<Rightarrow> blufi_fragments \<Rightarrow> blufi_fragments \<times> (u8 + blufi_frame option)" where
  "fragment_receive allocates m f =
     (if \<not> bf_non_final m \<and> \<not> fragmented_input_active f then (f, Inr (Some m))
      else if bf_non_final m
      then
        if length (bf_data m) < 2 then (f, Inl 9)
        else if partial_message f \<noteq> None \<and> accumulated_size f = 0 then (f, Inl 12)
        else
          let required = unat (bf_data m ! 0) + 256 * unat (bf_data m ! 1);
              store = (\<lambda>f. case partial_message f of
                  None \<Rightarrow> (f, Inr None)
                | Some partial \<Rightarrow>
                    let content = drop 2 (bf_data m)
                    in if length content > length partial - accumulated_size f then (f, Inl 9)
                       else (f\<lparr>partial_message := Some (take (accumulated_size f) partial @ content @
                                drop (accumulated_size f + length content) partial),
                              accumulated_size := accumulated_size f + length content\<rparr>, Inr None))
          in if partial_message f = None
             then let f = f\<lparr>fragmented_input_active := True, partial_type := bf_type m,
                            partial_subtype := bf_subtype m\<rparr>
                  in if \<not> allocates required then (f, Inl 5)
                     else store (f\<lparr>partial_message := Some (replicate required 0)\<rparr>)
             else if \<not> matches_partial m f then (f, Inl 9)
             else store f
      else case partial_message f of
             None \<Rightarrow> (f, Inl 5)
           | Some partial \<Rightarrow>
               if \<not> matches_partial m f \<or> length (bf_data m) \<noteq> length partial - accumulated_size f
               then (f, Inl 9)
               else (clear_partial f,
                     Inr (Some \<lparr>bf_type = partial_type f, bf_subtype = partial_subtype f,
                       bf_data = take (accumulated_size f) partial @ bf_data m, bf_non_final = False\<rparr>)))"

section \<open>The session\<close>

record blufi_session =
  bs_wire :: blufi_wire
  bs_fragments :: blufi_fragments

text \<open>
  Errors are sent as data, through the fragments and the wire. When nothing fits a fragment the report of
  the error meets the same error again: it does not return, which is the value \<open>None\<close>.
\<close>

partial_function (option) report_error ::
    "blufi_cipher \<Rightarrow> u8 \<Rightarrow> blufi_session \<Rightarrow> (blufi_session \<times> bytes list) option" where
  "report_error c e s =
     (if fragment_content_capacity (bs_fragments s) = 0 then report_error c 9 s
      else let (w, r) = wire_send c Blufi_data 0x12 [e] False False (bs_wire s)
           in case r of
                Inl e' \<Rightarrow> report_error c e' (s\<lparr>bs_wire := w\<rparr>)
              | Inr frame \<Rightarrow> Some (s\<lparr>bs_wire := w\<rparr>, [frame]))"

text \<open>The pieces are sent until one fails, whose error is reported.\<close>

fun send_pieces ::
    "blufi_cipher \<Rightarrow> u8 \<Rightarrow> (bytes \<times> bool) list \<Rightarrow> blufi_session \<Rightarrow> (blufi_session \<times> bytes list \<times> bool) option" where
  "send_pieces c subtype [] s = Some (s, [], True)"
| "send_pieces c subtype ((piece, non_final) # pieces) s =
     (let (w, r) = wire_send c Blufi_data subtype piece False non_final (bs_wire s);
          s = s\<lparr>bs_wire := w\<rparr>
      in case r of
           Inl e \<Rightarrow> map_option (\<lambda>(s, frames). (s, frames, False)) (report_error c e s)
         | Inr frame \<Rightarrow> map_option (\<lambda>(s, frames, ok). (s, frame # frames, ok)) (send_pieces c subtype pieces s))"

definition send_product_data ::
    "blufi_cipher \<Rightarrow> u8 \<Rightarrow> bytes \<Rightarrow> blufi_session \<Rightarrow> (blufi_session \<times> bytes list \<times> bool) option" where
  "send_product_data c subtype message s =
     (let capacity = fragment_content_capacity (bs_fragments s)
      in if length message > 65535 \<or> capacity = 0
         then map_option (\<lambda>(s, frames). (s, frames, False)) (report_error c 9 s)
         else send_pieces c subtype (fragment_pieces capacity message) s)"

definition reset_session :: "blufi_session \<Rightarrow> blufi_session" where
  "reset_session s = s\<lparr>bs_wire := new_wire, bs_fragments := clear_partial (bs_fragments s)\<rparr>"

text \<open>The reports of a list of outputs, characteristic values among them.\<close>

fun deliver_outputs ::
    "blufi_cipher \<Rightarrow> wire_output list \<Rightarrow> blufi_session \<Rightarrow> (blufi_session \<times> bytes list) option" where
  "deliver_outputs c [] s = Some (s, [])"
| "deliver_outputs c (Wire_characteristic frame # outputs) s =
     map_option (\<lambda>(s, frames). (s, frame # frames)) (deliver_outputs c outputs s)"
| "deliver_outputs c (Wire_error e # outputs) s =
     (case report_error c e s of
        None \<Rightarrow> None
      | Some (s, sent) \<Rightarrow> map_option (\<lambda>(s, frames). (s, sent @ frames)) (deliver_outputs c outputs s))"

text \<open>One characteristic value: the session, the frames sent in reply and the message to dispatch.\<close>

definition receive_characteristic ::
    "blufi_cipher \<Rightarrow> (nat \<Rightarrow> bool) \<Rightarrow> bytes \<Rightarrow> blufi_session \<Rightarrow>
     (blufi_session \<times> bytes list \<times> blufi_frame option) option" where
  "receive_characteristic c allocates frame s =
     (let (w, outputs, message) = wire_receive c frame (bs_wire s)
      in case deliver_outputs c outputs (s\<lparr>bs_wire := w\<rparr>) of
           None \<Rightarrow> None
         | Some (s, frames) \<Rightarrow>
             (case message of
                None \<Rightarrow> Some (s, frames, None)
              | Some m \<Rightarrow>
                  let (f, r) = fragment_receive allocates m (bs_fragments s);
                      s = s\<lparr>bs_fragments := f\<rparr>
                  in case r of
                       Inl e \<Rightarrow> map_option (\<lambda>(s, sent). (s, frames @ sent, None)) (report_error c e s)
                     | Inr product \<Rightarrow> Some (s, frames, product)))"

section \<open>The envelope\<close>

lemma type_byte_data:
  assumes "take_bit 6 (subtype :: u8) = subtype"
  shows "blufi_type_of (type_byte Blufi_data subtype) = Blufi_data"
    "drop_bit 2 (type_byte Blufi_data subtype) = subtype"
proof -
  have low: "type_byte Blufi_data subtype AND 3 = 1"
  proof -
    have three: "(3 :: u8) = mask 2" by (simp add: mask_eq_decr_exp)
    show ?thesis
      unfolding type_byte_def three by (rule bit_word_eqI) (auto simp: bit_simps)
  qed
  show "blufi_type_of (type_byte Blufi_data subtype) = Blufi_data"
    by (simp add: blufi_type_of_def low)
  have high: "bit subtype n \<Longrightarrow> n < 6" for n
    using assms by (metis bit_take_bit_iff)
  show "drop_bit 2 (type_byte Blufi_data subtype) = subtype"
    unfolding type_byte_def
    by (rule bit_word_eqI) (auto simp: bit_simps dest: high)
qed

lemma be16_bytes: "be16 (byte_at (v :: u16) 1) (byte_at v 0) = v"
  unfolding be16_def byte_at_def by (rule bit_word_eqI) (auto simp: bit_simps)

text \<open>A cipher whose decryption undoes its encryption, whatever the sequence number.\<close>

definition cipher_works :: "blufi_cipher \<Rightarrow> bool" where
  "cipher_works c \<longleftrightarrow> cipher_ready c \<and>
     (\<forall>sequence p. \<exists>e. cipher_crypt c sequence p True = Some e \<and> length e = length p \<and>
        cipher_crypt c sequence e False = Some p)"

lemma wire_transmission:
  assumes "cipher_works c" "take_bit 6 subtype = subtype" "length piece \<le> 255"
    and "incoming_sequence v = outgoing_sequence w"
  shows "\<exists>frame. wire_send c Blufi_data subtype piece False non_final w =
      (w\<lparr>outgoing_sequence := outgoing_sequence w + 1\<rparr>, Inr frame) \<and>
    wire_receive c frame v = (v\<lparr>incoming_sequence := incoming_sequence v + 1\<rparr>, [],
      Some \<lparr>bf_type = Blufi_data, bf_subtype = subtype, bf_data = piece, bf_non_final = non_final\<rparr>)"
proof -
  define q where "q = outgoing_sequence w"
  define ordinary where "ordinary = (\<not> security_exempt_data_subtype subtype)"
  define ck where "ck = (ordinary \<and> checksum_ordinary_data w)"
  define en where "en = (ordinary \<and> encrypt_ordinary_data w)"
  define sum where "sum = crc16_blufi (checksum_input q piece)"
  obtain e where e: "cipher_crypt c q piece True = Some e" "length e = length piece"
      "cipher_crypt c q e False = Some piece"
    using assms(1) unfolding cipher_works_def by blast
  define d where "d = (if en then e else piece)"
  have d: "length d = length piece" by (simp add: d_def e)
  define control :: u8 where "control = 0x04 OR (if en then 0x01 else 0) OR (if ck then 0x02 else 0) OR
      (if non_final then 0x10 else 0)"
  define frame where "frame = [type_byte Blufi_data subtype, control, q, of_nat (length piece)] @ d @
      (if ck then [byte_at sum 0, byte_at sum 1] else [])"
  have len: "unat (of_nat (length piece) :: u8) = length piece"
    using assms(3) by (simp add: unat_of_nat)
  have bits: "control AND 0xE0 = 0" "(control AND 0x02 \<noteq> 0) = ck" "(control AND 0x01 \<noteq> 0) = en"
    "control AND 0x08 = 0" "(control AND 0x10 \<noteq> 0) = non_final"
    unfolding control_def by (cases en; cases ck; cases non_final; simp)+
  have send: "wire_send c Blufi_data subtype piece False non_final w =
      (w\<lparr>outgoing_sequence := outgoing_sequence w + 1\<rparr>, Inr frame)"
    using assms(1,3) e d
    by (simp add: wire_send_def Let_def cipher_works_def frame_def control_def ck_def en_def ordinary_def
        q_def sum_def d_def)
  have at: "frame ! 0 = type_byte Blufi_data subtype" "frame ! 1 = control" "frame ! 2 = q"
    "frame ! 3 = of_nat (length piece)" "take (length piece) (drop 4 frame) = d"
    "length frame = 4 + length piece + (if ck then 2 else 0)"
    using d by (simp_all add: frame_def)
  have check: "be16 (frame ! (length piece + 5)) (frame ! (length piece + 4)) = sum" if ck
    using d that by (simp add: frame_def nth_append be16_bytes)
  have crypt: "(if en then cipher_crypt c q d False else Some d) = Some piece"
    using e by (simp add: d_def)
  have "wire_receive c frame v = (v\<lparr>incoming_sequence := incoming_sequence v + 1\<rparr>, [],
      Some \<lparr>bf_type = Blufi_data, bf_subtype = subtype, bf_data = piece, bf_non_final = non_final\<rparr>)"
    unfolding wire_receive_def Let_def at len bits crypt
    using assms(1,4) check by (simp add: q_def [symmetric] cipher_works_def type_byte_data [OF assms(2)] sum_def crypt)
  then show ?thesis using send by blast
qed

text \<open>A value that was accepted is refused when it comes again.\<close>

lemma replayed_value_refused:
  assumes "wire_receive c frame w = (w', outputs, Some m)"
  shows "wire_receive c frame w' = (w', [Wire_error 0], None)"
proof -
  have size: "\<not> (length frame < 4 \<or> frame ! 1 AND 0xE0 \<noteq> 0)"
    "length frame = 4 + unat (frame ! 3) + (if frame ! 1 AND 0x02 \<noteq> 0 then 2 else 0)"
    "frame ! 2 = incoming_sequence w"
    using assms by (auto simp: wire_receive_def Let_def split: if_splits)
  have ack: "incoming_sequence (fst (wire_send c t st p a nf w)) = incoming_sequence w" for t st p a nf w
    by (simp add: wire_send_def Let_def split: option.split)
  have "incoming_sequence w' = incoming_sequence w + 1"
    using assms ack [of Blufi_control 0 "[frame ! 2]" False False "w\<lparr>incoming_sequence := incoming_sequence w + 1\<rparr>"]
    by (auto simp: wire_receive_def Let_def split: if_splits option.splits prod.splits)
  then have "frame ! 2 \<noteq> incoming_sequence w'" using size(3) by simp
  then show ?thesis using size by (simp add: wire_receive_def Let_def)
qed

section \<open>Error reports\<close>

lemma error_frame:
  "\<exists>frame. wire_send c Blufi_data 0x12 [e] False False w =
     (w\<lparr>outgoing_sequence := outgoing_sequence w + 1\<rparr>, Inr frame)"
  by (simp add: wire_send_def security_exempt_data_subtype_def Let_def)

lemma report_error_stuck:
  "report_error c e s = Some r \<Longrightarrow> fragment_content_capacity (bs_fragments s) \<noteq> 0"
proof (erule report_error.raw_induct [rotated])
  fix rec c e s r
  assume IH: "\<And>c e s r. rec c e s = Some r \<Longrightarrow> fragment_content_capacity (bs_fragments s) \<noteq> 0"
    and body: "(if fragment_content_capacity (bs_fragments s) = 0 then rec c 9 s
      else let (w, r) = wire_send c Blufi_data 0x12 [e] False False (bs_wire s)
           in case r of
                Inl e' \<Rightarrow> rec c e' (s\<lparr>bs_wire := w\<rparr>)
              | Inr frame \<Rightarrow> Some (s\<lparr>bs_wire := w\<rparr>, [frame])) = Some r"
  show "fragment_content_capacity (bs_fragments s) \<noteq> 0"
  proof
    assume none: "fragment_content_capacity (bs_fragments s) = 0"
    then have "rec c 9 s = Some r" using body by simp
    then show False using IH none by blast
  qed
qed

text \<open>
  An error report returns exactly when a fragment can carry anything, which is when the attribute
  size agreed on exceeds 11 octets; otherwise reporting the error meets the same error again,
  without end.
\<close>
theorem error_report_returns_iff_mtu:
  "(\<exists>s' frames. report_error c e s = Some (s', frames)) \<longleftrightarrow> 11 < min (unat (att_mtu (bs_fragments s))) 255"
proof -
  have "fragment_content_capacity (bs_fragments s) \<noteq> 0 \<longleftrightarrow> 11 < min (unat (att_mtu (bs_fragments s))) 255"
    by (auto simp: fragment_content_capacity_def Let_def)
  moreover have "\<exists>s' frames. report_error c e s = Some (s', frames)"
    if "fragment_content_capacity (bs_fragments s) \<noteq> 0"
  proof -
    obtain frame where "wire_send c Blufi_data 0x12 [e] False False (bs_wire s) =
        (bs_wire s\<lparr>outgoing_sequence := outgoing_sequence (bs_wire s) + 1\<rparr>, Inr frame)"
      using error_frame by blast
    then show ?thesis using that by (subst report_error.simps) simp
  qed
  ultimately show ?thesis using report_error_stuck by blast
qed

section \<open>Messages\<close>

text \<open>After memory for a message was refused, no whole message passes until the next connection.\<close>

lemma refused_memory_blocks:
  assumes "partial_message f = None" "fragmented_input_active f" "\<not> bf_non_final m"
  shows "fragment_receive allocates m f = (f, Inl 5)"
  using assms by (simp add: fragment_receive_def)

lemma refused_memory_state:
  "partial_message f = None \<Longrightarrow> bf_non_final m \<Longrightarrow> 2 \<le> length (bf_data m) \<Longrightarrow> (\<And>n. \<not> allocates n) \<Longrightarrow>
     snd (fragment_receive allocates m f) = Inl 5 \<and>
     partial_message (fst (fragment_receive allocates m f)) = None \<and>
     fragmented_input_active (fst (fragment_receive allocates m f))"
  by (simp add: fragment_receive_def Let_def)

text \<open>A run of values, with the replies and the messages dispatched.\<close>

fun receive_values ::
    "blufi_cipher \<Rightarrow> (nat \<Rightarrow> bool) \<Rightarrow> bytes list \<Rightarrow> blufi_session \<Rightarrow>
     (blufi_session \<times> bytes list \<times> blufi_frame list) option" where
  "receive_values c allocates [] s = Some (s, [], [])"
| "receive_values c allocates (frame # frames) s =
     (case receive_characteristic c allocates frame s of
        None \<Rightarrow> None
      | Some (s, replies, message) \<Rightarrow>
          map_option (\<lambda>(s, more, messages). (s, replies @ more,
              (case message of None \<Rightarrow> [] | Some m \<Rightarrow> [m]) @ messages))
            (receive_values c allocates frames s))"

text \<open>The receiver holds the first \<open>n\<close> octets of a message.\<close>

definition holds_prefix :: "u8 \<Rightarrow> bytes \<Rightarrow> nat \<Rightarrow> blufi_fragments \<Rightarrow> bool" where
  "holds_prefix subtype message n f \<longleftrightarrow>
     (if n = 0 then partial_message f = None \<and> \<not> fragmented_input_active f \<and> accumulated_size f = 0
      else partial_message f = Some (take n message @ replicate (length message - n) 0) \<and>
        accumulated_size f = n \<and> partial_type f = Blufi_data \<and> partial_subtype f = subtype \<and>
        fragmented_input_active f)"

lemma required_length:
  assumes "length message \<le> 65535"
  shows "unat (of_nat (length message) :: u8) + 256 * unat (of_nat (length message div 256) :: u8) = length message"
proof -
  have "length message div 256 < 256" using assms by simp
  then show ?thesis by (simp add: unat_of_nat)
qed


lemma fragment_step:
  assumes "length message \<le> 65535" "0 < n'" "n' = n + length content" "n' < length message"
    and "content = take (length content) (drop n message)"
    and "holds_prefix subtype message n f" "\<And>n. allocates n"
    and "m = \<lparr>bf_type = Blufi_data, bf_subtype = subtype,
      bf_data = [of_nat (length message - n), of_nat ((length message - n) div 256)] @ content, bf_non_final = True\<rparr>"
  shows "\<exists>f'. fragment_receive allocates m f = (f', Inr None) \<and> holds_prefix subtype message n' f' \<and>
    att_mtu f' = att_mtu f"
proof (cases "n = 0")
  case True
  then have content: "content = take n' message" "n' = length content" using assms(3,5) by simp_all
  have required: "unat (bf_data m ! 0) + 256 * unat (bf_data m ! 1) = length message"
    using required_length [OF assms(1)] True by (simp add: assms(8))
  have f: "partial_message f = None" "\<not> fragmented_input_active f" "accumulated_size f = 0"
    using assms(6) True by (simp_all add: holds_prefix_def)
  define f' where "f' = f\<lparr>fragmented_input_active := True, partial_type := Blufi_data,
      partial_subtype := subtype, partial_message := Some (take n' message @ replicate (length message - n') 0),
      accumulated_size := n'\<rparr>"
  have m: "bf_non_final m" "bf_type m = Blufi_data" "bf_subtype m = subtype" "drop 2 (bf_data m) = content"
    "\<not> length (bf_data m) < 2"
    by (simp_all add: assms(8))
  have "n' \<le> length message" using assms(4) by simp
  then have "fragment_receive allocates m f = (f', Inr None)"
    unfolding fragment_receive_def Let_def required m content(1)
    using m(1,5) f assms(7) by (simp add: f'_def)
  moreover have "holds_prefix subtype message n' f'" "att_mtu f' = att_mtu f"
    using assms(2) by (simp_all add: holds_prefix_def f'_def)
  ultimately show ?thesis by blast
next
  case False
  then have f: "partial_message f = Some (take n message @ replicate (length message - n) 0)"
    "accumulated_size f = n" "partial_type f = Blufi_data" "partial_subtype f = subtype"
    "fragmented_input_active f"
    using assms(6) by (simp_all add: holds_prefix_def)
  define f' where "f' = f\<lparr>partial_message := Some (take n' message @ replicate (length message - n') 0),
      accumulated_size := n'\<rparr>"
  have taken: "take n message @ content = take n' message"
    using assms(3,5) by (metis take_add)
  have n: "n \<le> length message" "\<not> length content > length message - n" using assms(3,4) by simp_all
  have m: "bf_non_final m" "bf_type m = Blufi_data" "bf_subtype m = subtype" "drop 2 (bf_data m) = content"
    "\<not> length (bf_data m) < 2"
    by (simp_all add: assms(8))
  have "take n (take n message @ replicate (length message - n) 0) @ content @
      drop (n + length content) (take n message @ replicate (length message - n) 0) =
      take n' message @ replicate (length message - n') (0 :: u8)"
    using n taken assms(3) by simp
  moreover have "length (take n message @ replicate (length message - n) (0 :: u8)) = length message"
    using n by simp
  ultimately have "fragment_receive allocates m f = (f', Inr None)"
    unfolding fragment_receive_def Let_def m matches_partial_def f
    using m f n False assms(3) by (simp add: f'_def)
  moreover have "holds_prefix subtype message n' f'" "att_mtu f' = att_mtu f"
    using assms(2) f by (simp_all add: holds_prefix_def f'_def)
  ultimately show ?thesis by blast
qed

lemma fragment_last:
  assumes "holds_prefix subtype message n f" "n \<le> length message"
    and "m = \<lparr>bf_type = Blufi_data, bf_subtype = subtype, bf_data = drop n message, bf_non_final = False\<rparr>"
  shows "\<exists>f'. fragment_receive allocates m f = (f', Inr (Some (m\<lparr>bf_data := message\<rparr>))) \<and>
    holds_prefix subtype message 0 f' \<and> att_mtu f' = att_mtu f"
proof (cases "n = 0")
  case True
  then show ?thesis using assms by (simp add: fragment_receive_def holds_prefix_def)
next
  case False
  then show ?thesis
    using assms
    by (simp add: fragment_receive_def holds_prefix_def matches_partial_def clear_partial_def)
qed

text \<open>The pieces from octet \<open>n\<close> on, sent by one session and received by another.\<close>

lemma pieces_arrive:
  assumes "cipher_works c" "take_bit 6 subtype = subtype" "0 < capacity" "capacity \<le> 253"
    and "length message \<le> 65535" "\<And>n. allocates n"
  shows "n \<le> length message \<Longrightarrow> holds_prefix subtype message n (bs_fragments r) \<Longrightarrow>
     incoming_sequence (bs_wire r) = outgoing_sequence (bs_wire s) \<Longrightarrow>
     \<exists>s' r' frames. send_pieces c subtype (fragment_pieces capacity (drop n message)) s = Some (s', frames, True) \<and>
       receive_values c allocates frames r = Some (r', [],
         [\<lparr>bf_type = Blufi_data, bf_subtype = subtype, bf_data = message, bf_non_final = False\<rparr>]) \<and>
       holds_prefix subtype message 0 (bs_fragments r') \<and>
       incoming_sequence (bs_wire r') = outgoing_sequence (bs_wire s')"
proof (induction "length message - n" arbitrary: n r s rule: less_induct)
  case less
  let ?rest = "drop n message"
  show ?case
  proof (cases "length ?rest \<le> capacity")
    case True
    have "length ?rest \<le> 255" using True assms(4) by simp
    from wire_transmission [OF assms(1,2) this less.prems(3), of False]
    obtain frame where send: "wire_send c Blufi_data subtype ?rest False False (bs_wire s) =
          (bs_wire s\<lparr>outgoing_sequence := outgoing_sequence (bs_wire s) + 1\<rparr>, Inr frame)"
      and receive: "wire_receive c frame (bs_wire r) =
          (bs_wire r\<lparr>incoming_sequence := incoming_sequence (bs_wire r) + 1\<rparr>, [],
            Some \<lparr>bf_type = Blufi_data, bf_subtype = subtype, bf_data = ?rest, bf_non_final = False\<rparr>)"
      by blast
    obtain f' where f': "fragment_receive allocates
          \<lparr>bf_type = Blufi_data, bf_subtype = subtype, bf_data = ?rest, bf_non_final = False\<rparr> (bs_fragments r) =
          (f', Inr (Some \<lparr>bf_type = Blufi_data, bf_subtype = subtype, bf_data = message, bf_non_final = False\<rparr>))"
        "holds_prefix subtype message 0 f'"
      using fragment_last [OF less.prems(2,1) refl, of allocates] by auto
    show ?thesis
      using True send receive f' less.prems(3)
      by (simp add: fragment_pieces.simps [of capacity] receive_characteristic_def)
  next
    case False
    let ?content = "take capacity ?rest"
    let ?piece = "[of_nat (length ?rest), of_nat (length ?rest div 256)] @ ?content"
    have len: "length ?content = capacity" using False by simp
    have "length ?piece \<le> 255" using len assms(4) by simp
    from wire_transmission [OF assms(1,2) this less.prems(3), of True]
    obtain frame where send: "wire_send c Blufi_data subtype ?piece False True (bs_wire s) =
          (bs_wire s\<lparr>outgoing_sequence := outgoing_sequence (bs_wire s) + 1\<rparr>, Inr frame)"
      and receive: "wire_receive c frame (bs_wire r) =
          (bs_wire r\<lparr>incoming_sequence := incoming_sequence (bs_wire r) + 1\<rparr>, [],
            Some \<lparr>bf_type = Blufi_data, bf_subtype = subtype, bf_data = ?piece, bf_non_final = True\<rparr>)"
      by blast
    define s1 where "s1 = s\<lparr>bs_wire := bs_wire s\<lparr>outgoing_sequence := outgoing_sequence (bs_wire s) + 1\<rparr>\<rparr>"
    have "\<exists>f'. fragment_receive allocates
          \<lparr>bf_type = Blufi_data, bf_subtype = subtype, bf_data = ?piece, bf_non_final = True\<rparr> (bs_fragments r) =
          (f', Inr None) \<and> holds_prefix subtype message (n + capacity) f' \<and> att_mtu f' = att_mtu (bs_fragments r)"
      by (rule fragment_step [OF assms(5) _ _ _ _ less.prems(2)])
        (use assms(3,6) False len less.prems(1) in \<open>simp_all\<close>)
    then obtain f' where f': "fragment_receive allocates
          \<lparr>bf_type = Blufi_data, bf_subtype = subtype, bf_data = ?piece, bf_non_final = True\<rparr> (bs_fragments r) =
          (f', Inr None)" "holds_prefix subtype message (n + capacity) f'" by blast
    define r1 where "r1 = \<lparr>bs_wire = bs_wire r\<lparr>incoming_sequence := incoming_sequence (bs_wire r) + 1\<rparr>,
        bs_fragments = f'\<rparr>"
    have first: "receive_characteristic c allocates frame r = Some (r1, [], None)"
      using receive f'(1) by (simp add: receive_characteristic_def r1_def)
    have "length message - (n + capacity) < length message - n" using False assms(3) by simp
    moreover have "n + capacity \<le> length message" using False by simp
    moreover have "holds_prefix subtype message (n + capacity) (bs_fragments r1)"
      "incoming_sequence (bs_wire r1) = outgoing_sequence (bs_wire s1)"
      using f'(2) less.prems(3) by (simp_all add: r1_def s1_def)
    ultimately have "\<exists>s' r' frames.
        send_pieces c subtype (fragment_pieces capacity (drop (n + capacity) message)) s1 = Some (s', frames, True) \<and>
        receive_values c allocates frames r1 = Some (r', [],
           [\<lparr>bf_type = Blufi_data, bf_subtype = subtype, bf_data = message, bf_non_final = False\<rparr>]) \<and>
        holds_prefix subtype message 0 (bs_fragments r') \<and>
        incoming_sequence (bs_wire r') = outgoing_sequence (bs_wire s')"
      by (rule less.hyps)
    then
    obtain s' r' frames where rest:
        "send_pieces c subtype (fragment_pieces capacity (drop (n + capacity) message)) s1 = Some (s', frames, True)"
        "receive_values c allocates frames r1 = Some (r', [],
           [\<lparr>bf_type = Blufi_data, bf_subtype = subtype, bf_data = message, bf_non_final = False\<rparr>])"
        "holds_prefix subtype message 0 (bs_fragments r')"
        "incoming_sequence (bs_wire r') = outgoing_sequence (bs_wire s')"
      by blast
    have "fragment_pieces capacity ?rest = (?piece, True) # fragment_pieces capacity (drop (n + capacity) message)"
      using False assms(3) by (subst fragment_pieces.simps) (simp add: add.commute)
    then have "send_pieces c subtype (fragment_pieces capacity ?rest) s = Some (s', frame # frames, True)"
      using send rest(1) by (simp add: s1_def [symmetric])
    moreover have "receive_values c allocates (frame # frames) r = Some (r', [],
        [\<lparr>bf_type = Blufi_data, bf_subtype = subtype, bf_data = message, bf_non_final = False\<rparr>])"
      using first rest(2) by simp
    ultimately show ?thesis using rest(3,4) by blast
  qed
qed

text \<open>
  C23. A message survives the air. Whatever security modes are in force, a message of at most 65535 octets
  that one session sends, in as many pieces as the attribute size asks for, is dispatched whole and once
  by a session whose expected sequence number is the sender's, provided the key decrypts what it
  encrypts and memory for the message can be had; no reply is provoked, and the numbers agree again.
\<close>
theorem blufi_message_survives:
  assumes "cipher_works c" "take_bit 6 subtype = subtype" "length message \<le> 65535"
    and "11 < unat (att_mtu (bs_fragments s))" "\<And>n. allocates n"
    and "partial_message (bs_fragments r) = None" "\<not> fragmented_input_active (bs_fragments r)"
    and "accumulated_size (bs_fragments r) = 0"
    and "incoming_sequence (bs_wire r) = outgoing_sequence (bs_wire s)"
  shows "\<exists>s' r' frames. send_product_data c subtype message s = Some (s', frames, True) \<and>
     receive_values c allocates frames r = Some (r', [],
       [\<lparr>bf_type = Blufi_data, bf_subtype = subtype, bf_data = message, bf_non_final = False\<rparr>]) \<and>
     incoming_sequence (bs_wire r') = outgoing_sequence (bs_wire s')"
proof -
  let ?capacity = "fragment_content_capacity (bs_fragments s)"
  have "0 < ?capacity" "?capacity \<le> 253" using assms(4) by (auto simp: fragment_content_capacity_def Let_def)
  moreover have "holds_prefix subtype message 0 (bs_fragments r)" using assms(6-8) by (simp add: holds_prefix_def)
  ultimately show ?thesis
    using pieces_arrive [OF assms(1,2) _ _ assms(3), of ?capacity allocates 0 r s] assms(3,5,9)
    by (auto simp: send_product_data_def Let_def)
qed

text \<open>A cipher for the examples: it inverts every octet.\<close>

definition inverting_cipher :: blufi_cipher where
  "inverting_cipher = \<lparr>cipher_ready = True, cipher_crypt = (\<lambda>sequence p encrypt. Some (map (\<lambda>b. NOT b) p))\<rparr>"

lemma inverting_cipher_works: "cipher_works inverting_cipher"
  by (simp add: cipher_works_def inverting_cipher_def comp_def)

theorem blufi_message_survives_witness:
  "\<exists>s' r' frames. send_product_data inverting_cipher 2 (octets ''a network name of many letters'')
       \<lparr>bs_wire = new_wire\<lparr>outgoing_sequence := 255, encrypt_ordinary_data := True, checksum_ordinary_data := True\<rparr>,
         bs_fragments = new_fragments\<rparr> = Some (s', frames, True) \<and>
     receive_values inverting_cipher (\<lambda>_. True) frames
       \<lparr>bs_wire = new_wire\<lparr>incoming_sequence := 255\<rparr>, bs_fragments = new_fragments\<rparr> =
       Some (r', [], [\<lparr>bf_type = Blufi_data, bf_subtype = 2,
         bf_data = octets ''a network name of many letters'', bf_non_final = False\<rparr>]) \<and>
     incoming_sequence (bs_wire r') = outgoing_sequence (bs_wire s')"
  by (rule blufi_message_survives [OF inverting_cipher_works]) (simp_all add: new_wire_def new_fragments_def)

end
