(* ===== verification/Network_Policy.thy ===== *)
theory Network_Policy
  imports Configuration_Store Number_Text Ports
begin

text \<open>
  Names, channels and scans, \<open>core/src/network/network_policy.cpp\<close>, and discovery,
  \<open>core/src/network/discovery_policy.cpp\<close> with \<open>application/src/connectivity/discovery_service.cpp\<close>. The
  machine name is read from the configuration file, so its properties compose with the file store.
\<close>

section \<open>The machine name\<close>

definition upper_hex_digit :: "nat \<Rightarrow> char" where
  "upper_hex_digit n = (if n < 10 then char_of (48 + n) else char_of (55 + n))"

definition hex_octet :: "u8 \<Rightarrow> string" where
  "hex_octet b = [upper_hex_digit (unat b div 16), upper_hex_digit (unat b mod 16)]"

definition machine_name_key :: string where
  "machine_name_key = ''wifi.machine_name''"

text \<open>The six octets of the station address; the last two name the machine.\<close>

definition fallback_machine_name :: "bytes \<Rightarrow> string" where
  "fallback_machine_name station_mac =
     ''Makera_Z1_'' @ hex_octet (station_mac ! 4) @ hex_octet (station_mac ! 5)"

fun derive_machine_name :: "string list \<Rightarrow> bytes \<Rightarrow> string" where
  "derive_machine_name [] station_mac = fallback_machine_name station_mac"
| "derive_machine_name (line # lines) station_mac =
     (case parse_sd_config_line line of
        None \<Rightarrow> derive_machine_name lines station_mac
      | Some (key, name) \<Rightarrow>
          if key \<noteq> machine_name_key then derive_machine_name lines station_mac
          else if name = [] then fallback_machine_name station_mac
          else take 31 name)"

section \<open>Channels\<close>

text \<open>The counts of channels 1 to 11, in octets that wrap.\<close>

definition channel_count :: "u8 list \<Rightarrow> u8 \<Rightarrow> u8" where
  "channel_count observed channel = of_nat (length (filter (\<lambda>c. c = channel) observed))"

fun lowest_channel :: "u8 list \<Rightarrow> u8 \<Rightarrow> u8 list \<Rightarrow> u8" where
  "lowest_channel observed selected [] = selected"
| "lowest_channel observed selected (channel # channels) =
     lowest_channel observed
       (if channel_count observed channel < channel_count observed selected then channel else selected)
       channels"

definition select_access_point_channel :: "u8 list \<Rightarrow> bool \<Rightarrow> u8" where
  "select_access_point_channel observed storage_available =
     (if \<not> storage_available \<or> observed = [] then 1
      else lowest_channel observed 1 [2, 3, 4, 5, 6, 7, 8, 9, 10, 11])"

section \<open>Scans\<close>

record wifi_observation =
  raw_ssid :: bytes
  observed_rssi :: int
  observed_authentication :: u8

record wifi_scan_result =
  scan_ssid :: bytes
  scan_rssi :: int
  scan_authentication :: u8
  scan_selected :: bool

fun merge_duplicate :: "wifi_observation \<Rightarrow> wifi_scan_result list \<Rightarrow> wifi_scan_result list option" where
  "merge_duplicate observation [] = None"
| "merge_duplicate observation (r # results) =
     (if scan_ssid r = raw_ssid observation
      then Some ((if observed_rssi observation > scan_rssi r
                  then r\<lparr>scan_rssi := observed_rssi observation,
                         scan_authentication := observed_authentication observation\<rparr>
                  else r) # results)
      else map_option (\<lambda>results. r # results) (merge_duplicate observation results))"

definition collect_observation :: "bytes \<Rightarrow> wifi_observation \<Rightarrow> wifi_scan_result list \<Rightarrow> wifi_scan_result list" where
  "collect_observation selected observation results =
     (if raw_ssid observation = [] then results
      else case merge_duplicate observation results of
             Some results \<Rightarrow> results
           | None \<Rightarrow>
               let ssid = take 31 (raw_ssid observation)
               in results @ [\<lparr>scan_ssid = ssid, scan_rssi = observed_rssi observation,
                    scan_authentication = observed_authentication observation,
                    scan_selected = (ssid = selected)\<rparr>])"

definition process_wifi_scan :: "wifi_observation list \<Rightarrow> bytes \<Rightarrow> wifi_scan_result list" where
  "process_wifi_scan observations selected =
     sort_key (\<lambda>r. - scan_rssi r) (fold (collect_observation selected) (take 20 observations) [])"

definition int_text :: "int \<Rightarrow> string" where
  "int_text i = (if i < 0 then ''-'' @ decimal (nat (- i)) else decimal (nat i))"

definition format_wifi_scan :: "wifi_scan_result list \<Rightarrow> bytes" where
  "format_wifi_scan results =
     concat (map (\<lambda>r. scan_ssid r @ octets ('','' @ (if scan_authentication r = 0 then ''0'' else ''1'') @ '','' @
         int_text (scan_rssi r) @ '','' @ (if scan_selected r then ''1'' else ''0'') @ [CHR 0x0A])) results)"

datatype wlan_action = Wlan_none | Wlan_connect | Wlan_disconnect

record wlan_command =
  wlan_action :: wlan_action
  wlan_ssid :: string
  wlan_password :: string

definition take_wlan_token :: "string \<Rightarrow> string \<times> string \<times> bool \<Rightarrow> string \<times> string \<times> bool" where
  "take_wlan_token token = (\<lambda>(ssid, password, disconnect).
     if token = ''-d'' then (ssid, password, True)
     else if token = ''-e'' then (ssid, password, disconnect)
     else if ssid = [] then (token, password, disconnect)
     else if password = [] then (ssid, token, disconnect)
     else (ssid, password, disconnect))"

definition parse_wlan_command :: "bytes \<Rightarrow> wlan_command" where
  "parse_wlan_command payload =
     (if \<not> starts_with (octets ''wlan'') payload \<or> length payload < 6 \<or> length payload > 128 \<or>
        payload ! 4 \<noteq> octet CHR '' ''
      then \<lparr>wlan_action = Wlan_none, wlan_ssid = [], wlan_password = []\<rparr>
      else let (ssid, password, disconnect) =
                 fold take_wlan_token (parse_configuration_tokens (drop 5 payload) (length payload)) ([], [], False)
           in \<lparr>wlan_action = (if disconnect then Wlan_disconnect
                              else if ssid \<noteq> [] then Wlan_connect else Wlan_none),
               wlan_ssid = ssid, wlan_password = password\<rparr>)"

section \<open>Discovery\<close>

text \<open>One decimal octet: the digits up to the first other character, at most 255.\<close>

fun parse_ipv4_octet :: "string \<Rightarrow> nat \<Rightarrow> nat \<Rightarrow> (nat \<times> string) option" where
  "parse_ipv4_octet [] result digits = (if digits = 0 then None else Some (result, []))"
| "parse_ipv4_octet (c # cs) result digits =
     (if is_digit c
      then let result = result * 10 + (of_char c - 48)
           in if result > 255 then None else parse_ipv4_octet cs result (digits + 1)
      else if digits = 0 then None else Some (result, c # cs))"

fun parse_ipv4_octets :: "nat \<Rightarrow> string \<Rightarrow> (nat list \<times> string) option" where
  "parse_ipv4_octets 0 s = Some ([], s)"
| "parse_ipv4_octets (Suc n) s =
     (if s = [] then None
      else case parse_ipv4_octet s 0 0 of
             None \<Rightarrow> None
           | Some (result, rest) \<Rightarrow>
               if n = 0 then Some ([result], rest)
               else case rest of
                      [] \<Rightarrow> None
                    | c # rest \<Rightarrow>
                        if c \<noteq> CHR ''.'' then None
                        else map_option (\<lambda>(results, rest). (result # results, rest)) (parse_ipv4_octets n rest))"

definition parse_ipv4 :: "string \<Rightarrow> u32 option" where
  "parse_ipv4 s =
     (case parse_ipv4_octets 4 s of
        Some ([a, b, c, d], []) \<Rightarrow>
          Some (be32 (of_nat a) (of_nat b) (of_nat c) (of_nat d))
      | _ \<Rightarrow> None)"

definition format_ipv4 :: "u32 \<Rightarrow> string" where
  "format_ipv4 address =
     decimal (unat (byte_at address 3)) @ ''.'' @ decimal (unat (byte_at address 2)) @ ''.'' @
     decimal (unat (byte_at address 1)) @ ''.'' @ decimal (unat (byte_at address 0))"

definition ipv4_broadcast_address :: "string \<Rightarrow> string \<Rightarrow> string option" where
  "ipv4_broadcast_address ipv4 netmask =
     (case (parse_ipv4 ipv4, parse_ipv4 netmask) of
        (Some address, Some netbits) \<Rightarrow> Some (format_ipv4 (address OR NOT netbits))
      | _ \<Rightarrow> None)"

definition discovery_machine_state :: "string option \<Rightarrow> string" where
  "discovery_machine_state controller_status =
     (case controller_status of
        None \<Rightarrow> ''Idle''
      | Some s \<Rightarrow>
          (case find_char CHR ''<'' s of
             None \<Rightarrow> ''Unknown''
           | Some opening \<Rightarrow>
               (case find_char CHR ''|'' (drop (opening + 1) s) of
                  None \<Rightarrow> ''Unknown''
                | Some n \<Rightarrow> take (min n 31) (drop (opening + 1) s))))"

definition format_discovery_payload :: "string \<Rightarrow> string \<Rightarrow> nat \<Rightarrow> string \<Rightarrow> string" where
  "format_discovery_payload machine_name interface_ipv4 active_tcp_clients machine_state =
     take 127 (machine_name @ '','' @ interface_ipv4 @ '','' @ ''2222'' @ '','' @
       (if active_tcp_clients = 4 then ''1'' else ''0'') @ '','' @ machine_state)"

record discovery =
  disc_machine_name :: string
  disc_station_ipv4 :: string
  disc_station_broadcast :: string
  disc_long_socket_open :: bool
  disc_recreate_long_socket :: bool

datatype discovery_call =
  Disc_open_long
| Disc_close_long
| Disc_enable_broadcast
| Disc_send_long string string
| Disc_open_temporary
| Disc_send_temporary string string
| Disc_close_temporary
| Disc_delay nat

definition periodic_cycle ::
    "bool \<Rightarrow> string option \<Rightarrow> nat \<Rightarrow> discovery \<Rightarrow> discovery \<times> discovery_call list" where
  "periodic_cycle opens controller_status clients d =
     (let closing = (if disc_recreate_long_socket d \<and> disc_long_socket_open d then [Disc_close_long] else []);
          d = (if disc_recreate_long_socket d
               then d\<lparr>disc_long_socket_open := False, disc_recreate_long_socket := False\<rparr> else d)
      in if \<not> disc_long_socket_open d \<and> \<not> opens then (d, closing @ [Disc_open_long, Disc_delay 2000])
         else
           let opening = (if disc_long_socket_open d then [] else [Disc_open_long, Disc_enable_broadcast]);
               state = discovery_machine_state controller_status;
               station = (if disc_station_ipv4 d \<noteq> [] \<and> disc_station_broadcast d \<noteq> []
                          then [Disc_send_long (disc_station_broadcast d)
                            (format_discovery_payload (disc_machine_name d) (disc_station_ipv4 d) clients state)]
                          else [])
           in (d\<lparr>disc_long_socket_open := True\<rparr>,
               closing @ opening @ station @
               [Disc_send_long ''192.168.4.255''
                  (format_discovery_payload (disc_machine_name d) ''192.168.4.1'' clients state),
                Disc_delay 500]))"

definition send_temporary_burst ::
    "bool \<Rightarrow> string option \<Rightarrow> nat \<Rightarrow> bool \<Rightarrow> discovery \<Rightarrow> discovery_call list" where
  "send_temporary_burst opens controller_status clients delay_after d =
     (if disc_station_ipv4 d = [] \<or> disc_station_broadcast d = [] then []
      else if \<not> opens then [Disc_open_temporary]
      else
        let payload = format_discovery_payload (disc_machine_name d) (disc_station_ipv4 d) clients
              (discovery_machine_state controller_status);
            copy = Disc_send_temporary (disc_station_broadcast d) payload #
              (if delay_after then [Disc_delay 100] else [])
        in [Disc_open_temporary] @ concat (replicate 3 copy) @ [Disc_close_temporary])"

definition station_address_assigned ::
    "bool \<Rightarrow> string \<Rightarrow> string \<Rightarrow> string option \<Rightarrow> nat \<Rightarrow> discovery \<Rightarrow> discovery \<times> discovery_call list" where
  "station_address_assigned opens ipv4 netmask controller_status clients d =
     (let d = d\<lparr>disc_station_ipv4 := ipv4,
                disc_station_broadcast := (case ipv4_broadcast_address ipv4 netmask of Some b \<Rightarrow> b | None \<Rightarrow> []),
                disc_recreate_long_socket := True\<rparr>
      in (d, send_temporary_burst opens controller_status clients False d))"

definition discovery_station_disconnected :: "discovery \<Rightarrow> discovery" where
  "discovery_station_disconnected d =
     d\<lparr>disc_station_ipv4 := [], disc_station_broadcast := [], disc_recreate_long_socket := True\<rparr>"

definition recreate_socket :: "discovery \<Rightarrow> discovery" where
  "recreate_socket d = d\<lparr>disc_recreate_long_socket := True\<rparr>"

definition send_command_burst ::
    "bool \<Rightarrow> string option \<Rightarrow> nat \<Rightarrow> discovery \<Rightarrow> discovery_call list" where
  "send_command_burst opens controller_status clients d =
     send_temporary_burst opens controller_status clients True d"

section \<open>Names across a reboot\<close>

lemma without_return_cong: "parse_sd_config_line (without_return s) = parse_sd_config_line s"
  unfolding parse_sd_config_line_def trim_without_return ..

lemma document_texts_serialize:
  assumes "textual_document document"
  shows "document_lines (parse_document (serialize_document document)) =
    map (\<lambda>line. without_return (line_original line)) document"
proof -
  have "document_texts (serialize_document document) = map line_original document"
    using assms document_texts_lines [of "map line_original document"]
    by (simp add: serialize_document_concat textual_line_def textual_document_def comp_def)
  then show ?thesis
    by (simp add: document_lines_def parse_document_def parse_document_line_original comp_def)
qed

text \<open>No line of a document whose keys are in upper case names the machine.\<close>

definition names_machine :: "string \<Rightarrow> bool" where
  "names_machine line \<longleftrightarrow> (case parse_sd_config_line line of None \<Rightarrow> False | Some (k, v) \<Rightarrow> k = machine_name_key)"

lemma machine_name_key_lower: "uppercase_ascii machine_name_key \<noteq> machine_name_key"
  by code_simp

lemma derive_without_name:
  "\<forall>line \<in> set lines. \<not> names_machine line \<Longrightarrow> derive_machine_name lines mac = fallback_machine_name mac"
  by (induction lines) (auto simp: names_machine_def split: option.splits)

lemma entry_names_no_machine:
  assumes "textual_key key" "textual_value v" "uppercase_ascii key = key"
  shows "\<not> names_machine (key @ ''='' @ v)"
proof -
  have key: "key \<noteq> []" "trimmed key" "CHR ''='' \<notin> set key" "hd key \<noteq> CHR '';''"
    using assms(1) by (simp_all add: textual_key_def)
  have "trimmed (key @ ''='' @ v)"
    using key(1,2) assms(2) by (auto simp: trimmed_def textual_value_def is_ascii_whitespace_def)
  moreover have "find_delimiter (key @ ''='' @ v) = Some (length key)"
    using key(3) by (simp add: find_delimiter_def find_char_append)
  moreover have "key \<noteq> machine_name_key" using assms(3) machine_name_key_lower by auto
  ultimately show ?thesis
    using key by (simp add: names_machine_def parse_sd_config_line_def trim_ascii_trimmed Let_def)
qed

lemma find_char_takeWhile: "c \<in> set s \<Longrightarrow> find_char c s = Some (length (takeWhile (\<lambda>x. x \<noteq> c) s))"
  by (induction s) auto

lemma other_names_no_machine:
  assumes "\<not> line_is_entry (parse_document_line line)"
  shows "\<not> names_machine line"
proof
  assume "names_machine line"
  define c where "c = trim_ascii line"
  obtain n v where n: "c \<noteq> []" "hd c \<noteq> CHR '';''" "find_delimiter c = Some n"
      "trim_ascii (take n c) = machine_name_key"
    using \<open>names_machine line\<close>
    by (auto simp: names_machine_def parse_sd_config_line_def Let_def c_def split: option.splits if_splits)
  have key: "trim_ascii (take n c) \<noteq> []" "hd (trim_ascii (take n c)) = CHR ''w''"
    unfolding n(4) by (simp_all add: machine_name_key_def)
  have "hd c = CHR ''w''"
    using trimmed_prefix_hd [OF refl key(1)] key(2) by (simp add: c_def trimmed_trim_ascii)
  then have hd: "hd c \<noteq> CHR ''#''" by simp
  have c': "trim_ascii (without_return line) = c" by (simp add: c_def trim_without_return)
  have entry: "key_separator c = None \<or> (\<exists>m. key_separator c = Some m \<and> trim_ascii (take m c) = [])"
    using assms n(1,2) hd
    unfolding parse_document_line_def Let_def without_return_def [symmetric] c'
    by (auto split: option.splits if_splits)
  show False
  proof (cases "find_char CHR ''='' c")
    case (Some m)
    then have "m = n" using n(3) by (simp add: find_delimiter_def)
    then show False using entry Some key(1) by (simp add: key_separator_def)
  next
    case None
    then have space: "find_char CHR '' '' c = Some n" using n(3) by (simp add: find_delimiter_def)
    then have "CHR '' '' \<in> set c" using find_char_Some [OF space] by (metis nth_mem)
    then have "takeWhile (\<lambda>x. x \<noteq> CHR '' '' \<and> x \<noteq> CHR 0x09) c \<noteq> c"
      by (metis (mono_tags, lifting) set_takeWhileD)
    then have m: "length (takeWhile (\<lambda>x. x \<noteq> CHR '' '' \<and> x \<noteq> CHR 0x09) c) < length c"
      by (metis le_neq_implies_less length_takeWhile_le takeWhile_eq_take take_all_iff)
    let ?m = "length (takeWhile (\<lambda>x. x \<noteq> CHR '' '' \<and> x \<noteq> CHR 0x09) c)"
    have sep: "key_separator c = Some ?m" using None m by (simp add: key_separator_def Let_def)
    have nw: "\<not> is_ascii_whitespace (hd c)" using n(1) trimmed_trim_ascii [of line] by (simp add: c_def trimmed_def)
    then have "hd c \<noteq> CHR '' ''" "hd c \<noteq> CHR 0x09" by (auto simp: is_ascii_whitespace_def)
    then have "0 < ?m" using n(1) by (cases c) simp_all
    then have "take ?m c \<noteq> []" "hd (take ?m c) = hd c" using n(1) by simp_all
    then have "trim_ascii (take ?m c) \<noteq> []"
      using nw by (cases "take ?m c") (auto simp: trim_ascii_def dropWhile_eq_Nil_conv)
    then show False using entry sep by simp
  qed
qed

lemma uppercase_document_names_no_machine:
  assumes "textual_document (uppercase_keys document)"
  shows "\<forall>line \<in> set (document_lines (parse_document (serialize_document (uppercase_keys document)))).
    \<not> names_machine line"
proof -
  have "\<not> names_machine (without_return (line_original line))" if "line \<in> set (uppercase_keys document)" for line
  proof -
    have textual: "textual_line line" using assms that by (simp add: textual_document_def)
    show ?thesis
    proof (cases "line_is_entry line")
      case True
      then have "uppercase_ascii (line_key line) = line_key line"
        using that by (auto simp: uppercase_keys_def Let_def split: if_splits)
      then have "\<not> names_machine (line_original line)"
        using True textual entry_names_no_machine [of "line_key line" "line_value line"]
        by (simp add: textual_line_def)
      then show ?thesis unfolding names_machine_def without_return_cong .
    next
      case False
      then have "\<not> names_machine (line_original line)"
        using textual other_names_no_machine by (simp add: textual_line_def)
      then show ?thesis unfolding names_machine_def without_return_cong .
    qed
  qed
  then show ?thesis unfolding document_texts_serialize [OF assms] by simp
qed

lemma textual_read_document: "textual_document (uppercase_keys (read_document a files))"
  by (simp add: read_document_def textual_parsed_document split: option.split)

text \<open>
  Any update of the configuration loses the machine's name at the next start. An update writes every
  key of the file in upper case, but the name is only read from a key in lower case; so whatever was
  set, the name that itself was stored for the access point included, the machine is named after its
  address again.
\<close>
theorem update_loses_machine_name:
  assumes "answers_well a" "textual_key (file_key (tag, key))" "textual_value v" "textual_value name"
    and "store_set a tag key v files = (True, states)"
    and "store_set_raw_key a machine_name_key name files = (True, states')"
  shows "derive_machine_name (store_read_lines a (last states)) mac = fallback_machine_name mac \<and>
    derive_machine_name (store_read_lines a (last states')) mac = fallback_machine_name mac"
proof -
  have clean: "reads_cleanly a" using assms(1) by (simp add: answers_well_def)
  have lines: "derive_machine_name (store_read_lines a f) mac = fallback_machine_name mac"
    if "f active_path = Some (serialize_document (uppercase_keys d))" "textual_document (uppercase_keys d)" for f d
    using that(1) clean uppercase_document_names_no_machine [OF that(2)]
    by (intro derive_without_name) (simp add: store_read_lines_def read_document_def read_card_file_def)
  have written: "textual_document (uppercase_keys (document_set k w (read_document a files)))"
    if "textual_key k" "textual_value w" for k w
    unfolding document_set_uppercase using that textual_read_document by (intro textual_document_set)
  have "textual_key machine_name_key" by code_simp
  then have raw: "textual_document (uppercase_keys (document_set machine_name_key name (read_document a files)))"
    using assms(4) by (rule written)
  have "last states active_path = Some (updated_text a tag key v files)"
    using updated_text_ok [OF assms(5)] by blast
  moreover have "last states' active_path =
      Some (serialize_document (uppercase_keys (document_set machine_name_key name (read_document a files))))"
    using assms(1,6)
    by (simp add: store_set_raw_key_def replace_active_def write_card_file_def answers_well_def) auto
  ultimately show ?thesis
    using lines written [OF assms(2,3)] raw
    by (simp add: updated_text_def namespace_set_def file_key_def)
qed

theorem update_loses_machine_name_witness:
  "derive_machine_name (store_read_lines faultless
     (last (snd (store_set_raw_key faultless machine_name_key ''Mill'' Map.empty)))) [0, 0, 0, 0, 0x1A, 0xB2] = ''Makera_Z1_1AB2''"
proof -
  obtain states where s: "store_set faultless [] ''k'' ''v'' Map.empty = (True, states)"
    using store_set_well [OF faultless_well, of "[]" "''k''" "''v''" Map.empty] by blast
  obtain ok states' where s': "store_set_raw_key faultless machine_name_key ''Mill'' Map.empty = (ok, states')"
    by (cases "store_set_raw_key faultless machine_name_key ''Mill'' Map.empty")
  then have ok: "ok = True"
    by (auto simp: store_set_raw_key_def replace_active_def write_card_file_def faultless_def Let_def)
  have "textual_key (file_key ([], ''k''))" "textual_value ''v''" "textual_value ''Mill''" by code_simp+
  then have "derive_machine_name (store_read_lines faultless (last states')) [0, 0, 0, 0, 0x1A, 0xB2] =
      fallback_machine_name [0, 0, 0, 0, 0x1A, 0xB2]"
    using update_loses_machine_name [OF faultless_well _ _ _ s, of "''Mill''" states'] s' ok by simp
  moreover have "fallback_machine_name [0, 0, 0, 0, 0x1A, 0xB2] = ''Makera_Z1_1AB2''" by code_simp
  ultimately show ?thesis using s' by simp
qed

section \<open>Addresses\<close>

lemma parse_octet_digits:
  "\<forall>c \<in> set ds. is_digit c \<Longrightarrow> foldl (\<lambda>v c. v * 10 + (of_char c - 48)) result ds \<le> 255 \<Longrightarrow>
     ds \<noteq> [] \<or> 0 < digits \<Longrightarrow> rest = [] \<or> \<not> is_digit (hd rest) \<Longrightarrow>
     parse_ipv4_octet (ds @ rest) result digits =
       Some (foldl (\<lambda>v c. v * 10 + (of_char c - 48)) result ds, rest)"
proof (induction ds arbitrary: result digits)
  case Nil
  then show ?case by (cases rest) simp_all
next
  case (Cons c ds)
  have mono: "v \<le> foldl (\<lambda>v c. v * 10 + (of_char c - 48)) v ds" for v :: nat
  proof (induction ds arbitrary: v)
    case (Cons d ds)
    have "v \<le> v * 10 + (of_char d - 48)" by simp
    also have "\<dots> \<le> foldl (\<lambda>v c. v * 10 + (of_char c - 48)) (v * 10 + (of_char d - 48)) ds" by (rule Cons)
    finally show ?case by simp
  qed simp
  let ?next = "result * 10 + (of_char c - 48) :: nat"
  have digits: "is_digit c" "\<forall>c \<in> set ds. is_digit c" using Cons.prems(1) by simp_all
  have all: "foldl (\<lambda>v c. v * 10 + (of_char c - 48)) ?next ds \<le> 255" using Cons.prems(2) by simp
  then have "\<not> 255 < ?next" using mono [of ?next] by linarith
  then have "parse_ipv4_octet ((c # ds) @ rest) result digits = parse_ipv4_octet (ds @ rest) ?next (digits + 1)"
    using digits(1) by (simp only: append_Cons parse_ipv4_octet.simps if_True Let_def if_False)
  also have "\<dots> = Some (foldl (\<lambda>v c. v * 10 + (of_char c - 48)) ?next ds, rest)"
    by (rule Cons.IH [OF digits(2) all]) (use Cons.prems(4) in simp_all)
  finally show ?case by simp
qed

lemma parse_octet_decimal:
  "n \<le> 255 \<Longrightarrow> rest = [] \<or> \<not> is_digit (hd rest) \<Longrightarrow> parse_ipv4_octet (decimal n @ rest) 0 0 = Some (n, rest)"
  using parse_octet_digits [of "decimal n" 0 0 rest] decimal_digits [of n] decimal_value_decimal [of n]
  by (simp add: decimal_value_def)

lemma u8_le_255: "unat (b :: u8) \<le> 255"
proof -
  have "unat b < 2 ^ 8" using unsigned_less [of b] by simp
  then show ?thesis by simp
qed

lemma parse_octet_byte:
  "parse_ipv4_octet (decimal (unat (b :: u8)) @ CHR ''.'' # rest) 0 0 = Some (unat b, CHR ''.'' # rest)"
  "parse_ipv4_octet (decimal (unat b)) 0 0 = Some (unat b, [])"
  using parse_octet_decimal [OF u8_le_255 [of b], of "CHR ''.'' # rest"]
    parse_octet_decimal [OF u8_le_255 [of b], of "[]"] by (simp_all add: is_digit_def)

lemma join_bytes: "be32 (byte_at a 3) (byte_at a 2) (byte_at a 1) (byte_at a 0) = a"
  using decode_encode_u32 [of a "[]"] by (simp add: decode_be32_def encode_u32_def)

lemma parse_format_ipv4 [simp]: "parse_ipv4 (format_ipv4 a) = Some a"
proof -
  have four: "parse_ipv4_octets 4 (format_ipv4 a) =
      Some ([unat (byte_at a 3), unat (byte_at a 2), unat (byte_at a 1), unat (byte_at a 0)], [])"
    by (simp add: format_ipv4_def eval_nat_numeral(2,3) parse_octet_byte)
  show ?thesis
    unfolding parse_ipv4_def four by (simp only: option.case prod.case list.case of_nat_unat ucast_id join_bytes)
qed

text \<open>
  Addresses survive being written and read, and the broadcast address that discovery sends to is
  the address with every host bit set.
\<close>
theorem ipv4_text_roundtrip:
  "parse_ipv4 (format_ipv4 a) = Some a \<and>
   ipv4_broadcast_address (format_ipv4 a) (format_ipv4 m) = Some (format_ipv4 (a OR NOT m))"
  by (simp add: ipv4_broadcast_address_def)

section \<open>The least used channel\<close>

lemma lowest_channel_least:
  "lowest_channel observed selected channels \<in> insert selected (set channels) \<and>
   (\<forall>c \<in> insert selected (set channels).
      channel_count observed (lowest_channel observed selected channels) \<le> channel_count observed c)"
proof (induction channels arbitrary: selected)
  case (Cons channel channels)
  let ?next = "if channel_count observed channel < channel_count observed selected then channel else selected"
  have "channel_count observed ?next \<le> channel_count observed channel"
    "channel_count observed ?next \<le> channel_count observed selected" by auto
  then show ?case using Cons.IH [of ?next] by (auto intro: order_trans)
qed simp

text \<open>
  The access point takes a least used channel of 1 to 11, as long as fewer than 256 networks are
  seen: the counts are octets.
\<close>
theorem access_point_channel_least_used:
  assumes "length observed < 256" "channel \<in> {1, 2, 3, 4, 5, 6, 7, 8, 9, 10, 11}"
  shows "select_access_point_channel observed True \<in> {1, 2, 3, 4, 5, 6, 7, 8, 9, 10, 11} \<and>
    length (filter (\<lambda>c. c = select_access_point_channel observed True) observed) \<le>
    length (filter (\<lambda>c. c = channel) observed)"
proof -
  have wrap: "unat (channel_count observed c) = length (filter (\<lambda>c'. c' = c) observed)" for c
  proof -
    have "length (filter (\<lambda>c'. c' = c) observed) < 256"
      using assms(1) length_filter_le [of "\<lambda>c'. c' = c" observed] by (rule le_less_trans [rotated])
    then show ?thesis by (simp add: channel_count_def unat_of_nat)
  qed
  show ?thesis
  proof (cases "observed = []")
    case False
    define c where "c = lowest_channel observed 1 [2, 3, 4, 5, 6, 7, 8, 9, 10, 11]"
    have c: "c \<in> insert 1 (set [2, 3, 4, 5, 6, 7, 8, 9, 10, 11])"
      "channel \<in> insert 1 (set [2, 3, 4, 5, 6, 7, 8, 9, 10, 11]) \<longrightarrow> channel_count observed c \<le> channel_count observed channel"
      using lowest_channel_least [of observed 1 "[2, 3, 4, 5, 6, 7, 8, 9, 10, 11]"] unfolding c_def by blast+
    have "set [2, 3, 4, 5, 6, 7, 8, 9, 10, 11 :: u8] = {2, 3, 4, 5, 6, 7, 8, 9, 10, 11}" by simp
    then have "c \<in> {1, 2, 3, 4, 5, 6, 7, 8, 9, 10, 11}" "channel_count observed c \<le> channel_count observed channel"
      using c assms(2) by (simp_all only:)
    moreover have "select_access_point_channel observed True = c"
      using False by (simp only: select_access_point_channel_def c_def if_False simp_thms)
    ultimately show ?thesis
      using wrap [of c] wrap [of channel] by (simp only: word_le_nat_alt)
  qed (simp add: select_access_point_channel_def)
qed

theorem access_point_channel_least_used_witness:
  "select_access_point_channel [1, 1, 6] True = 2 \<and> length (filter (\<lambda>c. c = 2) [1, 1, (6 :: u8)]) \<le> 0"
proof -
  have "select_access_point_channel [1, 1, 6] True = 2" by code_simp
  then show ?thesis
    using access_point_channel_least_used [of "[1, 1, 6]" 3] by simp
qed

section \<open>Scans\<close>

lemma merge_duplicate_None: "merge_duplicate o' results = None \<longleftrightarrow> raw_ssid o' \<notin> scan_ssid ` set results"
  by (induction results) (auto split: if_splits)

lemma merge_duplicate_Some:
  "merge_duplicate o' results = Some merged \<Longrightarrow> map scan_ssid merged = map scan_ssid results"
  by (induction results arbitrary: merged) (auto split: if_splits)

lemma collect_distinct:
  "length (raw_ssid o') \<le> 31 \<Longrightarrow> distinct (map scan_ssid results) \<Longrightarrow>
     distinct (map scan_ssid (collect_observation selected o' results)) \<and>
     set (map scan_ssid (collect_observation selected o' results)) =
       (if raw_ssid o' = [] then {} else {raw_ssid o'}) \<union> set (map scan_ssid results)"
proof (cases "merge_duplicate o' results")
  case None
  then show "length (raw_ssid o') \<le> 31 \<Longrightarrow> distinct (map scan_ssid results) \<Longrightarrow> ?thesis"
    using merge_duplicate_None [of o' results]
    by (auto simp: collect_observation_def Let_def)
next
  case (Some merged)
  then have "raw_ssid o' \<in> scan_ssid ` set results" using merge_duplicate_None [of o' results] by auto
  moreover have "map scan_ssid merged = map scan_ssid results" using merge_duplicate_Some [OF Some] .
  then have "set (map scan_ssid merged) = set (map scan_ssid results)" by simp
  ultimately show "length (raw_ssid o') \<le> 31 \<Longrightarrow> distinct (map scan_ssid results) \<Longrightarrow> ?thesis"
    using Some \<open>map scan_ssid merged = map scan_ssid results\<close>
    by (auto simp: collect_observation_def simp del: set_map simp flip: set_map)
qed

lemma collect_all_distinct:
  "\<forall>o' \<in> set observations. length (raw_ssid o') \<le> 31 \<Longrightarrow> distinct (map scan_ssid results) \<Longrightarrow>
     distinct (map scan_ssid (fold (collect_observation selected) observations results)) \<and>
     set (map scan_ssid (fold (collect_observation selected) observations results)) =
       {raw_ssid o' | o'. o' \<in> set observations \<and> raw_ssid o' \<noteq> []} \<union> set (map scan_ssid results)"
proof (induction observations arbitrary: results)
  case (Cons o' observations)
  have step: "distinct (map scan_ssid (collect_observation selected o' results))"
    "set (map scan_ssid (collect_observation selected o' results)) =
       (if raw_ssid o' = [] then {} else {raw_ssid o'}) \<union> set (map scan_ssid results)"
    using collect_distinct [of o' results selected] Cons.prems by auto
  have "\<forall>o'' \<in> set observations. length (raw_ssid o'') \<le> 31" using Cons.prems(1) by simp
  from Cons.IH [OF this step(1)] show ?case
    unfolding fold_Cons comp_apply step(2) by auto
qed simp

text \<open>
  A scan lists every named network among the first 20 observations once, strongest first, when no
  name exceeds 31 octets. (A name of the full 32 octets is cut to 31 and so never recognised again.)
\<close>
theorem scan_lists_networks_once:
  assumes "\<forall>o' \<in> set observations. length (raw_ssid o') \<le> 31"
  shows "distinct (map scan_ssid (process_wifi_scan observations selected)) \<and>
    set (map scan_ssid (process_wifi_scan observations selected)) =
      {raw_ssid o' | o'. o' \<in> set (take 20 observations) \<and> raw_ssid o' \<noteq> []} \<and>
    sorted (map (\<lambda>r. - scan_rssi r) (process_wifi_scan observations selected))"
proof -
  have "\<forall>o' \<in> set (take 20 observations). length (raw_ssid o') \<le> 31"
    using assms by (auto dest: in_set_takeD)
  from collect_all_distinct [OF this, of "[]" selected]
  have "distinct (map scan_ssid (fold (collect_observation selected) (take 20 observations) []))"
    "set (map scan_ssid (fold (collect_observation selected) (take 20 observations) [])) =
      {raw_ssid o' | o'. o' \<in> set (take 20 observations) \<and> raw_ssid o' \<noteq> []}" by auto
  then show ?thesis
    by (simp add: process_wifi_scan_def distinct_map)
qed

theorem scan_lists_networks_once_witness:
  "distinct (map scan_ssid (process_wifi_scan [\<lparr>raw_ssid = octets ''a'', observed_rssi = -70, observed_authentication = 0\<rparr>,
     \<lparr>raw_ssid = octets ''b'', observed_rssi = -50, observed_authentication = 3\<rparr>,
     \<lparr>raw_ssid = octets ''a'', observed_rssi = -40, observed_authentication = 3\<rparr>] []))"
  using scan_lists_networks_once [of "[\<lparr>raw_ssid = octets ''a'', observed_rssi = -70, observed_authentication = 0\<rparr>,
     \<lparr>raw_ssid = octets ''b'', observed_rssi = -50, observed_authentication = 3\<rparr>,
     \<lparr>raw_ssid = octets ''a'', observed_rssi = -40, observed_authentication = 3\<rparr>]" "[]"] by simp

lemma full_length_names_repeat:
  "map scan_ssid (process_wifi_scan (replicate 2 \<lparr>raw_ssid = replicate 32 65, observed_rssi = 0, observed_authentication = 0\<rparr>) []) =
     [replicate 31 65, replicate 31 65]"
  by code_simp

end
