(* ===== verification/Access_Point.thy ===== *)
theory Access_Point
  imports Network_Policy Text_Protocol
begin

text \<open>
  The access point: the \<open>ap\<close> command and the parameter queries,
  \<open>application/src/connectivity/access_point_command.cpp\<close>, the settings it persists through
  \<open>main/connectivity/access_point_command_adapter.cpp\<close>, and the start of the radio from them,
  \<open>application/src/connectivity/connectivity_startup.cpp\<close>. The radio and the NVS answer as an
  environment.
\<close>

section \<open>State and port\<close>

record access_point_state =
  saved_channel :: "u8 option"
  ap_password :: string
  ap_enabled :: bool
  ap_machine_name :: string
  last_access_point_name :: string
  fallback_name :: string
  last_channel :: u8

record radio_config =
  radio_ssid :: string
  radio_password :: string
  radio_channel :: u8

datatype access_point_call =
    Ap_persist_channel "u8 option" | Ap_persist_password string | Ap_persist_enabled bool
  | Ap_persist_machine_name string | Ap_enable radio_config | Ap_disable
  | Ap_query_failed bool u8

section \<open>Parsing\<close>

definition trim_ap_suffix :: "string \<Rightarrow> string" where
  "trim_ap_suffix s =
     rev (dropWhile (\<lambda>c. c = CHR '' '' \<or> c = CHR 0x0D \<or> c = CHR 0x0A) (rev s))"

definition until_nul :: "string \<Rightarrow> string" where
  "until_nul s = takeWhile (\<lambda>c. c \<noteq> CHR 0x00) s"

definition ap_decode :: "string \<Rightarrow> string" where
  "ap_decode s = decode_escaped (octets (until_nul s))"

definition ap_response :: "string \<Rightarrow> frame" where
  "ap_response payload = \<lparr>ftype = 0x90, fpayload = octets payload\<rparr>"

definition selected_name :: "access_point_state \<Rightarrow> string" where
  "selected_name s =
     (if ap_machine_name s \<noteq> [] then take 31 (ap_machine_name s)
      else if last_access_point_name s \<noteq> [] then take 31 (last_access_point_name s)
      else take 31 (fallback_name s))"

text \<open>The digits of a number in front of other text; \<open>None\<close> when the limit would be passed.\<close>

fun read_digits :: "nat \<Rightarrow> string \<Rightarrow> nat \<Rightarrow> nat option" where
  "read_digits limit [] n = Some n"
| "read_digits limit (c # cs) n =
     (if \<not> is_digit c then Some n
      else
        let digit = of_char c - 48
        in if n > (limit - digit) div 10 then None else read_digits limit cs (n * 10 + digit))"

definition saved_channel_of :: "nat option \<Rightarrow> u8 option" where
  "saved_channel_of number =
     (case number of
        None \<Rightarrow> None
      | Some n \<Rightarrow> if 1 \<le> n \<and> n \<le> 11 then Some (of_nat n) else None)"

definition initial_channel :: "string \<Rightarrow> u8 option" where
  "initial_channel token =
     (let rest = dropWhile (\<lambda>c. ascii_whitespace (octet c)) token;
          negative = (rest \<noteq> [] \<and> hd rest = CHR ''-'');
          rest = (if rest \<noteq> [] \<and> (hd rest = CHR ''+'' \<or> hd rest = CHR ''-'') then tl rest else rest)
      in if rest = [] \<or> \<not> is_digit (hd rest) then None
         else case read_digits (2 ^ 31 - 1) rest 0 of
             None \<Rightarrow> None
           | Some n \<Rightarrow> if negative then None else saved_channel_of (Some n))"

text \<open>Operation and remainder.\<close>

definition parse_ap :: "bytes \<Rightarrow> (string \<times> string) option" where
  "parse_ap payload =
     (if length payload < 3 \<or> take 3 payload \<noteq> octets ''ap '' then None
      else
        let input = trim_ap_suffix (until_nul (chars (drop 3 payload)))
        in case find_char (CHR '' '') input of
            None \<Rightarrow> Some (input, [])
          | Some delimiter \<Rightarrow> Some (take delimiter input, drop (delimiter + 1) input))"

definition ap_skip_spaces :: "string \<Rightarrow> string" where
  "ap_skip_spaces s = dropWhile (\<lambda>c. c = CHR '' '') s"

definition first_literal_space_token :: "string \<Rightarrow> string" where
  "first_literal_space_token input =
     (if ap_skip_spaces input = [] then [] else ap_decode (takeWhile (\<lambda>c. c \<noteq> CHR '' '') (ap_skip_spaces input)))"

definition has_later_literal_space_token :: "string \<Rightarrow> bool" where
  "has_later_literal_space_token input \<longleftrightarrow>
     ap_skip_spaces (dropWhile (\<lambda>c. c \<noteq> CHR '' '') (ap_skip_spaces input)) \<noteq> []"

section \<open>The command\<close>

text \<open>Each branch gives the new state, the port calls and the answer.\<close>

type_synonym ap_result = "access_point_state \<times> access_point_call list \<times> string"

definition ap_get :: "access_point_state \<Rightarrow> string" where
  "ap_get s =
     ''AP enable='' @ decimal (if ap_enabled s then 1 else 0) @ '' ssid='' @ selected_name s @
     '' password='' @ (if ap_password s = [] then ''null'' else ap_password s) @ '' channel='' @
     decimal (unat (case saved_channel s of Some c \<Rightarrow> c | None \<Rightarrow> last_channel s)) @ [CHR 0x0D, CHR 0x0A]"

definition persisted ::
    "access_point_call answers \<Rightarrow> access_point_state \<Rightarrow> access_point_call \<Rightarrow> string \<Rightarrow> string \<Rightarrow> ap_result" where
  "persisted env s call saved failed =
     (s, [call], (if env [] call then saved else failed) @ [CHR 0x0D, CHR 0x0A])"

definition ap_channel :: "access_point_call answers \<Rightarrow> string \<Rightarrow> access_point_state \<Rightarrow> ap_result" where
  "ap_channel env remainder s =
     (let token = ap_decode remainder in
      if token = ''clear'' \<and> \<not> has_later_literal_space_token remainder
      then persisted env (s\<lparr>saved_channel := None\<rparr>) (Ap_persist_channel None)
             ''AP channel cleared, auto select on reboot'' ''Failed to clear AP channel''
      else case initial_channel token of
          None \<Rightarrow> (s, [], ''WiFi AP Channel should between 1 to 11'' @ [CHR 0x0D, CHR 0x0A])
        | Some channel \<Rightarrow>
            persisted env (s\<lparr>saved_channel := Some channel\<rparr>) (Ap_persist_channel (Some channel))
              ''AP channel saved, apply on reboot'' ''Failed to save AP channel'')"

definition ap_ssid :: "access_point_call answers \<Rightarrow> string \<Rightarrow> access_point_state \<Rightarrow> ap_result" where
  "ap_ssid env remainder s =
     (let name = (if ap_skip_spaces remainder = [] then [] else ap_decode (ap_skip_spaces remainder)) in
      if name = [] \<or> length name > 23
      then (s, [], ''WiFi AP SSID length should between 1 to 23'' @ [CHR 0x0D, CHR 0x0A])
      else persisted env (s\<lparr>ap_machine_name := name\<rparr>) (Ap_persist_machine_name name)
             ''AP ssid saved, apply on reboot'' ''Failed to save AP ssid'')"

definition ap_set_password :: "access_point_call answers \<Rightarrow> string \<Rightarrow> access_point_state \<Rightarrow> ap_result" where
  "ap_set_password env remainder s =
     (let password = first_literal_space_token remainder in
      if password = ''clear'' \<and> \<not> has_later_literal_space_token remainder
      then persisted env (s\<lparr>ap_password := []\<rparr>) (Ap_persist_password [])
             ''AP password cleared, open network on reboot'' ''Failed to clear AP password''
      else if length password < 8 \<or> length password > 63
      then (s, [], ''WiFi AP password length should between 8 to 63'' @ [CHR 0x0D, CHR 0x0A])
      else persisted env (s\<lparr>ap_password := password\<rparr>) (Ap_persist_password password)
             ''AP password saved, apply on reboot'' ''Failed to save AP password'')"

definition enable_config :: "access_point_state \<Rightarrow> radio_config" where
  "enable_config s =
     \<lparr>radio_ssid = selected_name s, radio_password = ap_password s,
      radio_channel =
        (case saved_channel s of
           Some channel \<Rightarrow> channel
         | None \<Rightarrow> if last_channel s \<ge> 1 \<and> last_channel s \<le> 11 then last_channel s else 1)\<rparr>"

definition ap_switch :: "access_point_call answers \<Rightarrow> bool \<Rightarrow> access_point_state \<Rightarrow> ap_result" where
  "ap_switch env enable s =
     (let s = s\<lparr>ap_enabled := enable\<rparr>; save = Ap_persist_enabled enable in
      if \<not> env [] save
      then (s, [save], (if enable then ''Failed to save AP enable'' else ''Failed to save AP disable'') @ [CHR 0x0D, CHR 0x0A])
      else
        let radio = (if enable then Ap_enable (enable_config s) else Ap_disable)
        in (s, [save, radio],
            (if env [save] radio
             then (if enable then ''AP enabled'' else ''AP disabled'')
             else (if enable then ''Failed to enable AP'' else ''Failed to disable AP'')) @ [CHR 0x0D, CHR 0x0A]))"

definition execute_ap ::
    "access_point_call answers \<Rightarrow> bytes \<Rightarrow> access_point_state \<Rightarrow> ap_result" where
  "execute_ap env payload s =
     (case parse_ap payload of
        None \<Rightarrow> (s, [], ''ERROR: Invalid AP Command!'' @ [CHR 0x0D, CHR 0x0A])
      | Some (operation, remainder) \<Rightarrow>
          if operation = ''get'' then (s, [], ap_get s)
          else if operation = ''channel'' then ap_channel env remainder s
          else if operation = ''ssid'' then ap_ssid env remainder s
          else if operation = ''password'' then ap_set_password env remainder s
          else if operation = ''enable'' \<or> operation = ''disable''
          then ap_switch env (operation = ''enable'') s
          else (s, [], ''ERROR: Invalid AP Command!'' @ [CHR 0x0D, CHR 0x0A]))"

text \<open>The parameter queries; the parameters are what the port looks up.\<close>

definition trim_query :: "string \<Rightarrow> string" where
  "trim_query s =
     rev (dropWhile (\<lambda>c. c = CHR '' '' \<or> c = CHR 0x09 \<or> c = CHR 0x0D \<or> c = CHR 0x0A) (rev s))"

definition execute_query ::
    "bool \<Rightarrow> (u8 \<Rightarrow> string option) \<Rightarrow> bytes \<Rightarrow> access_point_call list \<times> string" where
  "execute_query station parameters payload =
     (let input = trim_query (chars payload);
          failed = ''Query WiFi '' @ (if station then ''STA'' else ''AP'') @ '' parameters ERROR!'' @ [CHR 0x0A]
      in if \<not> (length input = 4 \<or>
               length input = 6 \<and> input ! 4 = CHR ''.'' \<and> (48 :: nat) \<le> of_char (input ! 5) \<and> of_char (input ! 5) \<le> (55 :: nat))
         then ([], failed)
         else
           let parameter = (if length input = 6 then of_char (input ! 5) - 48 else 0 :: u8)
           in case parameters parameter of
               None \<Rightarrow> ([Ap_query_failed station parameter], failed)
             | Some found \<Rightarrow>
                 ([], (if station then ''M482'' else ''M483'') @ '' param['' @ decimal (unat parameter) @ '']:'' @
                      (if found = [] then ''null'' else found) @ [CHR 0x0A]))"

definition execute_access_point ::
    "command_kind \<Rightarrow> access_point_call answers \<Rightarrow> (u8 \<Rightarrow> string option) \<Rightarrow> (u8 \<Rightarrow> string option) \<Rightarrow>
     bytes \<Rightarrow> access_point_state \<Rightarrow> access_point_state \<times> access_point_call list \<times> frame option" where
  "execute_access_point kind env station access_point payload s =
     (if kind = Cmd_access_point
      then (let (s, calls, answer) = execute_ap env payload s in (s, calls, Some (ap_response answer)))
      else if kind = Cmd_station_parameter_query
      then (let (calls, answer) = execute_query True station payload in (s, calls, Some (ap_response answer)))
      else if kind = Cmd_access_point_parameter_query
      then (let (calls, answer) = execute_query False access_point payload in (s, calls, Some (ap_response answer)))
      else (s, [], None))"

section \<open>What is stored, and the start of the radio\<close>

text \<open>The NVS namespace \<open>softap\<close>: a key holds a string or an octet.\<close>

record softap_store =
  stored_channel :: "string option"
  stored_channel_octet :: "u8 option"
  stored_password :: "string option"
  stored_enabled :: "u8 option"

text \<open>\<open>persist_channel\<close>, \<open>persist_password\<close> and \<open>persist_enabled\<close> write through the worker task.\<close>

fun softap_write :: "access_point_call \<Rightarrow> softap_store \<Rightarrow> softap_store" where
  "softap_write (Ap_persist_channel channel) store =
     store\<lparr>stored_channel := Some (case channel of None \<Rightarrow> [] | Some c \<Rightarrow> decimal (unat c)),
           stored_channel_octet := None\<rparr>"
| "softap_write (Ap_persist_password password) store = store\<lparr>stored_password := Some password\<rparr>"
| "softap_write (Ap_persist_enabled enabled) store =
     store\<lparr>stored_enabled := Some (if enabled then 1 else 0)\<rparr>"
| "softap_write call store = store"

record startup_settings =
  startup_channel :: "u8 option"
  startup_password :: string
  startup_enabled :: bool

definition initial_saved_channel :: "string \<Rightarrow> u8 option" where
  "initial_saved_channel text' =
     (if text' = [] \<or> \<not> is_digit (hd text') then None
      else saved_channel_of (read_digits (2 ^ 32 - 1) text' 0))"

definition parse_startup_settings ::
    "string option \<Rightarrow> u8 option \<Rightarrow> string option \<Rightarrow> u8 option \<Rightarrow> startup_settings" where
  "parse_startup_settings channel legacy_channel password enabled =
     \<lparr>startup_channel =
        (case channel of
           Some found \<Rightarrow> initial_saved_channel found
         | None \<Rightarrow>
             (case legacy_channel of
                Some c \<Rightarrow> if c \<ge> 1 \<and> c \<le> 11 then Some c else None
              | None \<Rightarrow> None)),
      startup_password = (case password of Some found \<Rightarrow> found | None \<Rightarrow> []),
      startup_enabled = (case enabled of None \<Rightarrow> True | Some e \<Rightarrow> e \<noteq> 0)\<rparr>"

definition load_settings :: "softap_store \<Rightarrow> startup_settings" where
  "load_settings store =
     parse_startup_settings (stored_channel store)
       (case stored_channel store of Some _ \<Rightarrow> None | None \<Rightarrow> stored_channel_octet store)
       (stored_password store) (stored_enabled store)"

text \<open>The live configuration of the radio, when it can be read, fills the last name and channel.\<close>

definition initialize_access_point ::
    "string \<Rightarrow> startup_settings \<Rightarrow> (string \<times> u8) option \<Rightarrow> access_point_state" where
  "initialize_access_point machine_name settings live =
     \<lparr>saved_channel = startup_channel settings, ap_password = startup_password settings,
      ap_enabled = startup_enabled settings, ap_machine_name = machine_name,
      last_access_point_name = (case live of Some (ssid, channel) \<Rightarrow> take 32 ssid | None \<Rightarrow> []),
      fallback_name = machine_name,
      last_channel = (case live of Some (ssid, channel) \<Rightarrow> channel | None \<Rightarrow> 1)\<rparr>"

datatype startup_scan_state =
    Scan_success | Scan_allocation_failure | Scan_start_failure | Scan_count_failure | Scan_records_failure

record startup_config =
  start_ssid :: string
  start_open :: bool
  start_password :: string
  start_channel :: u8
  start_visible :: bool
  start_maximum_clients :: u8
  start_power_save :: bool
  start_socket_capacity :: u8
  start_hostname :: string
  start_ipv4 :: string
  start_prefix_length :: u8
  start_dhcp_server :: bool
  start_dhcp_client :: bool

datatype startup_call =
    Enter_station_only | Scan_channels | Finish_station_only | Start_access_point_and_station startup_config

definition fatal_scan_failure :: "startup_scan_state \<Rightarrow> bool" where
  "fatal_scan_failure state \<longleftrightarrow>
     state = Scan_start_failure \<or> state = Scan_count_failure \<or> state = Scan_records_failure"

definition startup_access_point ::
    "string \<Rightarrow> startup_settings \<Rightarrow> startup_scan_state \<times> u8 list \<Rightarrow> startup_config" where
  "startup_access_point machine_name settings scan =
     \<lparr>start_ssid = take 31 machine_name, start_open = (startup_password settings = []),
      start_password = startup_password settings,
      start_channel =
        (case startup_channel settings of
           Some channel \<Rightarrow> channel
         | None \<Rightarrow> select_access_point_channel (snd scan) (fst scan \<noteq> Scan_allocation_failure)),
      start_visible = True, start_maximum_clients = 4, start_power_save = False, start_socket_capacity = 16,
      start_hostname = ''espressif'', start_ipv4 = ''192.168.4.1'', start_prefix_length = 24,
      start_dhcp_server = True, start_dhcp_client = True\<rparr>"

definition connectivity_start ::
    "startup_call answers \<Rightarrow> startup_scan_state \<times> u8 list \<Rightarrow> string \<Rightarrow> startup_settings \<Rightarrow> startup_call list \<times> bool" where
  "connectivity_start env scan machine_name settings =
     (if \<not> env [] Enter_station_only then ([Enter_station_only], False)
      else if fatal_scan_failure (fst scan) then ([Enter_station_only, Scan_channels], False)
      else
        let final = (if \<not> startup_enabled settings then Finish_station_only
                     else Start_access_point_and_station (startup_access_point machine_name settings scan))
        in ([Enter_station_only, Scan_channels, final], env [Enter_station_only, Scan_channels] final))"

section \<open>Command sequences\<close>

text \<open>Commands one after the other, with the store that the successful writes leave.\<close>

fun ap_run ::
    "access_point_call answers \<Rightarrow> bytes list \<Rightarrow> access_point_state \<times> softap_store \<Rightarrow>
     (access_point_state \<times> softap_store) \<times> access_point_call list" where
  "ap_run env [] s = (s, [])"
| "ap_run env (payload # payloads) s =
     (let (command, calls, answer) = execute_ap env payload (fst s);
          (s, later) = ap_run env payloads (command, fold softap_write (succeeded env calls) (snd s))
      in (s, calls @ later))"

text \<open>The settings in memory, and the ones the next start reads.\<close>

definition memory_settings :: "access_point_state \<Rightarrow> startup_settings" where
  "memory_settings s =
     \<lparr>startup_channel = saved_channel s, startup_password = ap_password s, startup_enabled = ap_enabled s\<rparr>"

lemma read_digits_value:
  assumes "list_all is_digit s" "foldl (\<lambda>n c. n * 10 + (of_char c - 48)) n s \<le> limit" "10 \<le> limit"
  shows "read_digits limit s n = Some (foldl (\<lambda>n c. n * 10 + (of_char c - 48)) n s)"
  using assms
proof (induction s arbitrary: n)
  case (Cons c s)
  let ?step = "\<lambda>n c. n * 10 + (of_char c - 48) :: nat"
  have grows: "m \<le> foldl ?step m s" for m
  proof (induction s arbitrary: m)
    case (Cons d s)
    show ?case using Cons.IH [of "?step m d"] by simp
  qed simp
  have "?step n c \<le> limit"
    using grows [of "?step n c"] Cons.prems(2) by simp
  then have "\<not> (limit - (of_char c - 48)) div 10 < n"
    by (simp add: not_less less_eq_div_iff_mult_less_eq)
  then show ?case
    using Cons by (simp add: Let_def)
qed simp

lemma initial_saved_channel_decimal:
  assumes "1 \<le> n" "n \<le> 11"
  shows "initial_saved_channel (decimal n) = Some (of_nat n)"
proof -
  have "read_digits (2 ^ 32 - 1) (decimal n) 0 = Some n"
    using read_digits_value [of "decimal n" 0 "2 ^ 32 - 1"] decimal_digits [of n] assms
      decimal_value_decimal [of n]
    by (simp add: decimal_value_def list_all_iff)
  moreover have "is_digit (hd (decimal n))"
    using decimal_digits [of n] by (simp add: list.set_sel)
  ultimately show ?thesis
    using assms by (simp add: initial_saved_channel_def saved_channel_of_def)
qed

lemma saved_channel_of_range: "saved_channel_of number = Some c \<Longrightarrow> 1 \<le> unat c \<and> unat c \<le> 11"
  by (auto simp: saved_channel_of_def unat_of_nat split: option.splits if_splits)

lemma initial_channel_range: "initial_channel token = Some c \<Longrightarrow> 1 \<le> unat c \<and> unat c \<le> 11"
  by (auto simp: initial_channel_def Let_def split: option.splits if_splits dest: saved_channel_of_range)

lemma load_after_channel:
  assumes "case channel of None \<Rightarrow> True | Some c \<Rightarrow> 1 \<le> unat c \<and> unat c \<le> 11"
  shows "load_settings (softap_write (Ap_persist_channel channel) store) = (load_settings store)\<lparr>startup_channel := channel\<rparr>"
  using assms
  by (auto simp: load_settings_def parse_startup_settings_def initial_saved_channel_decimal initial_saved_channel_def [of "[]"]
      split: option.splits)

lemma load_after_password:
  "load_settings (softap_write (Ap_persist_password password) store) = (load_settings store)\<lparr>startup_password := password\<rparr>"
  by (simp add: load_settings_def parse_startup_settings_def split: option.split)

lemma load_after_enabled:
  "load_settings (softap_write (Ap_persist_enabled enabled) store) = (load_settings store)\<lparr>startup_enabled := enabled\<rparr>"
  by (simp add: load_settings_def parse_startup_settings_def split: option.split)

lemmas load_after = load_after_channel load_after_password load_after_enabled

text \<open>What a command changes, stores and asks of the radio.\<close>

lemma execute_ap_cases:
  assumes "execute_ap env payload s = (s', calls, answer)"
  obtains (unchanged) "s' = s" "calls = []"
  | (stored_channel) channel where "s' = s\<lparr>saved_channel := channel\<rparr>" "calls = [Ap_persist_channel channel]"
      "case channel of None \<Rightarrow> True | Some c \<Rightarrow> 1 \<le> unat c \<and> unat c \<le> 11"
  | (stored_name) machine where "s' = s\<lparr>ap_machine_name := machine\<rparr>" "calls = [Ap_persist_machine_name machine]"
      "machine \<noteq> []" "length machine \<le> 23"
  | (password) password where "s' = s\<lparr>ap_password := password\<rparr>" "calls = [Ap_persist_password password]"
      "password = [] \<or> 8 \<le> length password \<and> length password \<le> 63"
  | (switched) enable radio where "s' = s\<lparr>ap_enabled := enable\<rparr>" "calls = Ap_persist_enabled enable # radio"
      "radio \<in> {[], [Ap_disable], [Ap_enable (enable_config s')]}"
proof -
  consider "s' = s \<and> calls = []"
    | remainder where "ap_channel env remainder s = (s', calls, answer)"
    | remainder where "ap_ssid env remainder s = (s', calls, answer)"
    | remainder where "ap_set_password env remainder s = (s', calls, answer)"
    | enable where "ap_switch env enable s = (s', calls, answer)"
    using assms by (auto simp: execute_ap_def split: option.splits if_splits)
  then show thesis
  proof cases
    case 1
    then show ?thesis using unchanged by blast
  next
    case 2
    then show ?thesis
      using unchanged stored_channel [of None] stored_channel
      by (auto simp: ap_channel_def persisted_def Let_def dest: initial_channel_range split: if_splits option.splits)
  next
    case 3
    then show ?thesis
      using unchanged stored_name by (auto simp: ap_ssid_def persisted_def Let_def split: if_splits)
  next
    case 4
    then show ?thesis
      using unchanged password [of "[]"] password
      by (auto simp: ap_set_password_def persisted_def Let_def not_less split: if_splits)
  next
    case 5
    then show ?thesis
      using switched by (auto simp: ap_switch_def Let_def split: if_splits)
  qed
qed

lemma execute_ap_mirrors:
  assumes "load_settings store = memory_settings s" "execute_ap env payload s = (s', calls, answer)"
  shows "load_settings (fold softap_write calls store) = memory_settings s'"
  using assms(2)
proof (cases rule: execute_ap_cases)
  case (stored_channel channel)
  then show ?thesis using assms(1) by (simp add: load_after memory_settings_def del: softap_write.simps)
next
  case (switched enable radio)
  then have "fold softap_write calls store = softap_write (Ap_persist_enabled enable) store"
    by auto
  then show ?thesis
    using switched(1) assms(1) by (simp only: load_after) (simp add: memory_settings_def)
qed (use assms(1) in \<open>simp_all add: load_after memory_settings_def del: softap_write.simps(1-3)\<close>)

lemma successes_granted: "(\<And>h call. env h call) \<Longrightarrow> successes env h calls = calls"
  by (induction calls arbitrary: h) simp_all

lemma ap_run_mirrors:
  assumes "load_settings store = memory_settings s" "\<And>h call. env h call"
  shows "load_settings (snd (fst (ap_run env payloads (s, store)))) = memory_settings (fst (fst (ap_run env payloads (s, store))))"
  using assms(1)
proof (induction payloads arbitrary: s store)
  case (Cons payload payloads)
  obtain s' calls answer where run: "execute_ap env payload s = (s', calls, answer)"
    by (cases "execute_ap env payload s")
  show ?case
    using Cons.IH [OF execute_ap_mirrors [OF Cons.prems run]] run
    by (simp add: split_beta successes_granted [of env, OF assms(2)])
qed simp

text \<open>
  C20. From a start with whatever the store holds, after any sequence of \<open>ap\<close> commands whose writes
  all succeed, the next start reads the channel, the password and the enable flag that are in force:
  a restart changes none of them.
\<close>

theorem access_point_settings_survive_restart:
  assumes "\<And>h call. env h call"
  shows "let ((s, store'), calls) =
      ap_run env payloads (initialize_access_point machine_name (load_settings store) live, store)
    in load_settings store' = memory_settings s"
  using ap_run_mirrors [of store "initialize_access_point machine_name (load_settings store) live" env payloads]
    assms by (simp add: memory_settings_def initialize_access_point_def split_beta Let_def)

theorem access_point_settings_survive_restart_witness:
  "let ((s, store'), calls) = ap_run (\<lambda>_ _. True) [octets ''ap channel 6'', octets ''ap disable'']
      (initialize_access_point ''Z1''
         (load_settings \<lparr>stored_channel = None, stored_channel_octet = Some 3, stored_password = None, stored_enabled = None\<rparr>) None,
       \<lparr>stored_channel = None, stored_channel_octet = Some 3, stored_password = None, stored_enabled = None\<rparr>)
   in load_settings store' = memory_settings s"
  by (rule access_point_settings_survive_restart) simp

section \<open>What the radio is given\<close>

definition valid_password :: "string \<Rightarrow> bool" where
  "valid_password password \<longleftrightarrow> password = [] \<or> 8 \<le> length password \<and> length password \<le> 63"

definition valid_channel :: "u8 \<Rightarrow> bool" where
  "valid_channel channel \<longleftrightarrow> 1 \<le> unat channel \<and> unat channel \<le> 11"

definition radio_ready :: "access_point_state \<Rightarrow> bool" where
  "radio_ready s \<longleftrightarrow> valid_password (ap_password s) \<and>
     (case saved_channel s of None \<Rightarrow> True | Some channel \<Rightarrow> valid_channel channel) \<and>
     length (ap_machine_name s) \<le> 31"

definition valid_radio_call :: "access_point_call \<Rightarrow> bool" where
  "valid_radio_call call \<longleftrightarrow>
     (\<forall>config. call = Ap_enable config \<longrightarrow>
        valid_password (radio_password config) \<and> valid_channel (radio_channel config) \<and>
        length (radio_ssid config) \<le> 31)"

lemma enable_config_valid: "radio_ready s \<Longrightarrow> valid_radio_call (Ap_enable (enable_config s))"
  by (auto simp: radio_ready_def valid_radio_call_def enable_config_def selected_name_def valid_channel_def
      word_le_nat_alt split: option.splits)

lemma execute_ap_ready:
  assumes "radio_ready s" "execute_ap env payload s = (s', calls, answer)"
  shows "radio_ready s' \<and> list_all valid_radio_call calls"
  using assms(2)
proof (cases rule: execute_ap_cases)
  case (switched enable radio)
  then have "radio_ready s'" using assms(1) by (simp add: radio_ready_def)
  then show ?thesis
    using switched enable_config_valid by (auto simp: valid_radio_call_def)
qed (use assms(1) in \<open>auto simp: radio_ready_def valid_radio_call_def valid_password_def valid_channel_def split: option.splits\<close>)

text \<open>
  From a state whose password, channel and name are acceptable, no sequence of commands gives the
  radio anything else: every configuration has an empty password or one of 8 to 63 characters, a
  channel of 1 to 11 and a name of at most 31 characters.
\<close>

theorem ap_configures_valid_radio:
  assumes "radio_ready s"
  shows "radio_ready (fst (fst (ap_run env payloads (s, store)))) \<and>
    list_all valid_radio_call (snd (ap_run env payloads (s, store)))"
  using assms
proof (induction payloads arbitrary: s store)
  case (Cons payload payloads)
  obtain s' calls answer where run: "execute_ap env payload s = (s', calls, answer)"
    by (cases "execute_ap env payload s")
  show ?case
    using Cons.IH execute_ap_ready [OF Cons.prems run] run by (simp add: split_beta)
qed simp

theorem ap_configures_valid_radio_witness:
  "let store = \<lparr>stored_channel = None, stored_channel_octet = None, stored_password = None, stored_enabled = None\<rparr>;
       s = initialize_access_point ''Makera'' \<lparr>startup_channel = Some 6, startup_password = [], startup_enabled = True\<rparr> None
   in radio_ready (fst (fst (ap_run (\<lambda>_ _. True) [octets ''ap enable''] (s, store)))) \<and>
      list_all valid_radio_call (snd (ap_run (\<lambda>_ _. True) [octets ''ap enable''] (s, store)))"
  unfolding Let_def
  by (rule ap_configures_valid_radio)
     (simp add: radio_ready_def initialize_access_point_def valid_password_def valid_channel_def)

end
