(* ===== verification/Station.thy ===== *)
theory Station
  imports Network_Policy Text_Protocol
begin

text \<open>
  The station: manual connection, \<open>application/src/connectivity/station_connection.cpp\<close>, automatic
  reconnection with the saved credentials, \<open>automatic_connection.cpp\<close>, and the host's \<open>wlan\<close>
  command, \<open>wlan_request.cpp\<close> and \<open>wlan_command.cpp\<close>. The radio, the clock and the credential
  store answer as an environment.
\<close>

section \<open>State and port\<close>

datatype station_state = Sta_idle | Sta_attempt_started | Sta_associated | Sta_address_ready | Sta_error

record station_runtime =
  sta_state :: station_state
  sta_ssid :: string
  sta_password :: string
  sta_ipv4 :: string
  sta_has_error :: bool
  sta_error_detail :: string
  sta_retry :: u8

record station_snapshot =
  snap_state :: station_state
  snap_ssid :: string
  snap_ipv4 :: string

record station_configuration =
  cfg_ssid :: string
  cfg_password :: string
  cfg_scan_all_channels :: bool
  cfg_fast_scan :: bool
  cfg_sort_by_signal :: bool
  cfg_fixed_bssid :: bool
  cfg_channel :: u8
  cfg_minimum_authentication :: u8
  cfg_optional_protection :: bool

definition station_config :: "string \<Rightarrow> string \<Rightarrow> station_configuration" where
  "station_config ssid password =
     \<lparr>cfg_ssid = ssid, cfg_password = password, cfg_scan_all_channels = True, cfg_fast_scan = False,
      cfg_sort_by_signal = True, cfg_fixed_bssid = False, cfg_channel = 0,
      cfg_minimum_authentication = 0, cfg_optional_protection = True\<rparr>"

datatype station_call =
    St_diagnostic string | St_disconnect | St_delay u32 | St_apply station_configuration | St_connect
  | St_snapshot | St_error_detail | St_save string string | St_schedule u32

record station_env =
  st_ok :: "station_call answers"
  st_error_name :: "station_call list \<Rightarrow> string"
  st_snapshot :: "station_call list \<Rightarrow> station_snapshot"
  st_error_text :: "station_call list \<Rightarrow> string"

type_synonym station = "station_runtime \<times> station_call list"

definition call_station :: "station_call \<Rightarrow> station \<Rightarrow> station" where
  "call_station call s = (fst s, snd s @ [call])"

section \<open>Manual connection\<close>

definition clear_connection_data :: "station_runtime \<Rightarrow> station_runtime" where
  "clear_connection_data rt =
     rt\<lparr>sta_state := Sta_idle, sta_ssid := [], sta_password := [], sta_ipv4 := [],
        sta_has_error := False, sta_error_detail := []\<rparr>"

record connection_result =
  cr_success :: bool
  cr_ipv4 :: string
  cr_error_name :: string

definition connection_fail :: "string \<Rightarrow> string \<Rightarrow> station \<Rightarrow> station \<times> connection_result" where
  "connection_fail detail error_name s =
     (let rt = (fst s)\<lparr>sta_state := Sta_error, sta_has_error := True, sta_error_detail := take 64 detail\<rparr>
      in ((rt, snd s), \<lparr>cr_success = False, cr_ipv4 = sta_ipv4 rt, cr_error_name = error_name\<rparr>))"

definition station_associated :: "string \<Rightarrow> station_runtime \<Rightarrow> station_runtime" where
  "station_associated ssid rt = rt\<lparr>sta_state := Sta_associated, sta_ssid := take 31 ssid\<rparr>"

definition station_address_ready :: "string \<Rightarrow> station_runtime \<Rightarrow> station_runtime" where
  "station_address_ready ipv4 rt =
     rt\<lparr>sta_state := Sta_address_ready, sta_ipv4 := ipv4, sta_retry := 0, sta_has_error := False,
        sta_error_detail := []\<rparr>"

definition retain_snapshot :: "station_snapshot \<Rightarrow> station_runtime \<Rightarrow> station_runtime" where
  "retain_snapshot snapshot rt =
     (if snap_state snapshot = Sta_associated then station_associated (snap_ssid snapshot) rt
      else if snap_state snapshot = Sta_address_ready then station_address_ready (snap_ipv4 snapshot) rt
      else rt)"

text \<open>One poll: wait, take a snapshot, keep what it says.\<close>

definition station_poll :: "station_env \<Rightarrow> station \<Rightarrow> station \<times> station_state" where
  "station_poll env s =
     (let h = snd s @ [St_delay 100]; snapshot = st_snapshot env h
      in ((retain_snapshot snapshot (fst s), h @ [St_snapshot]), snap_state snapshot))"

primrec await_association :: "station_env \<Rightarrow> nat \<Rightarrow> station \<Rightarrow> station \<times> bool" where
  "await_association env 0 s = (s, False)"
| "await_association env (Suc n) s =
     (let (s, seen) = station_poll env s in
      if seen = Sta_associated then (call_station (St_diagnostic ''policy.associated'') s, True)
      else if seen = Sta_address_ready
      then (call_station (St_diagnostic ''policy.address_ready_as_associated'') s, True)
      else await_association env n s)"

primrec await_address :: "station_env \<Rightarrow> nat \<Rightarrow> station \<Rightarrow> station \<times> bool" where
  "await_address env 0 s = (s, False)"
| "await_address env (Suc n) s =
     (let (s, seen) = station_poll env s in
      if seen = Sta_address_ready then (s, True) else await_address env n s)"

text \<open>The polls of a phase: 10000 ms in steps of 100 ms.\<close>

definition phase_polls :: nat where
  "phase_polls = 100"

definition phase_failed ::
    "station_env \<Rightarrow> string \<Rightarrow> string \<Rightarrow> station \<Rightarrow> station \<times> connection_result" where
  "phase_failed env diagnostic fallback s =
     (let s = call_station (St_diagnostic diagnostic) s;
          detail = st_error_text env (snd s);
          s = call_station St_error_detail s
      in connection_fail (if detail = [] then fallback else detail) [] s)"

definition address_obtained :: "station \<Rightarrow> station \<times> connection_result" where
  "address_obtained s =
     (let s = call_station (St_diagnostic ''policy.address_ready'') s;
          rt = (fst s)\<lparr>sta_has_error := False, sta_error_detail := []\<rparr>;
          s = call_station (St_diagnostic ''policy.connect.success'')
                (call_station (St_save (sta_ssid rt) (sta_password rt)) (rt, snd s))
      in (s, \<lparr>cr_success = True, cr_ipv4 = sta_ipv4 rt, cr_error_name = []\<rparr>))"

definition leave_previous :: "station \<Rightarrow> station" where
  "leave_previous s =
     (if sta_state (fst s) \<noteq> Sta_idle
      then call_station (St_delay 1000) (call_station St_disconnect
             (call_station (St_diagnostic ''policy.disconnect_previous'') s))
      else s)"

definition stage_credentials :: "string \<Rightarrow> string \<Rightarrow> station_runtime \<Rightarrow> station_runtime" where
  "stage_credentials ssid password rt =
     (clear_connection_data rt)\<lparr>sta_ssid := take 31 ssid, sta_password := take 63 password\<rparr>"

definition await_connection :: "station_env \<Rightarrow> station \<Rightarrow> station \<times> connection_result" where
  "await_connection env s =
     (let (s, associated) = await_association env phase_polls s in
      if \<not> associated then phase_failed env ''policy.association.timeout'' ''Failed to connect to AP'' s else
      let (s, ready) = await_address env phase_polls s in
      if ready then address_obtained s
      else phase_failed env ''policy.address.timeout'' ''IP assignment timeout'' s)"

definition station_connect ::
    "station_env \<Rightarrow> string \<Rightarrow> string \<Rightarrow> station \<Rightarrow> station \<times> connection_result" where
  "station_connect env ssid password s =
     (let s = leave_previous (call_station (St_diagnostic ''policy.connect.begin'') s);
          s = (stage_credentials ssid password (fst s), snd s);
          apply' = St_apply (station_config (sta_ssid (fst s)) (sta_password (fst s)));
          configured = st_ok env (snd s) apply';
          s = call_station apply' s
      in if \<not> configured
         then connection_fail (''Failed to set WiFi config: '' @ st_error_name env (snd s)) (st_error_name env (snd s))
                (call_station (St_diagnostic ''policy.config.failed'') s)
         else
      let s = ((fst s)\<lparr>sta_state := Sta_attempt_started\<rparr>, snd s);
          started = st_ok env (snd s) St_connect;
          s = call_station St_connect s
      in if \<not> started
         then connection_fail (''Failed to start WiFi connection: '' @ st_error_name env (snd s)) (st_error_name env (snd s))
                (call_station (St_diagnostic ''policy.connect_request.failed'') s)
         else await_connection env s)"

definition station_disconnect :: "station_env \<Rightarrow> station \<Rightarrow> station \<times> bool" where
  "station_disconnect env s =
     (let success = st_ok env (snd s) St_disconnect; s = call_station St_disconnect s
      in ((if success then (clear_connection_data (fst s), snd s) else s), success))"

definition current_rssi :: "bool \<Rightarrow> int \<Rightarrow> int" where
  "current_rssi available rssi = (if available then rssi else 0)"

section \<open>Saved credentials and automatic reconnection\<close>

datatype stored_string = Stored_found string | Stored_missing | Stored_failure

type_synonym credential_reader = "string \<Rightarrow> stored_string"

definition load_and_schedule :: "station_env \<Rightarrow> credential_reader \<Rightarrow> station \<Rightarrow> station \<times> bool" where
  "load_and_schedule env read s =
     (case read ''ssid'' of
        Stored_found ssid \<Rightarrow>
          if ssid = [] then (s, False) else
          let stored_password = read ''password'' in
          if stored_password = Stored_failure then (s, False) else
          let password = (case stored_password of Stored_found p \<Rightarrow> take 63 p | _ \<Rightarrow> []);
              rt = (fst s)\<lparr>sta_ssid := take 31 ssid, sta_password := password\<rparr>;
              s = call_station (St_apply (station_config (sta_ssid rt) (sta_password rt))) (rt, snd s)
          in (call_station (St_schedule 500) s, st_ok env (snd s) (St_schedule 500))
      | _ \<Rightarrow> (s, False))"

definition begin_scheduled :: "station_env \<Rightarrow> station \<Rightarrow> station \<times> bool" where
  "begin_scheduled env s =
     (let s = ((fst s)\<lparr>sta_retry := 1, sta_state := Sta_attempt_started\<rparr>, snd s)
      in (call_station St_connect s, st_ok env (snd s) St_connect))"

definition handle_disconnect :: "station \<Rightarrow> station \<times> bool" where
  "handle_disconnect s =
     (if sta_retry (fst s) < 1 \<or> sta_retry (fst s) > 4
      then ((if sta_retry (fst s) > 4 then ((fst s)\<lparr>sta_retry := 0\<rparr>, snd s) else s), False)
      else
        let s = call_station (St_delay 1000) s;
            s = ((fst s)\<lparr>sta_retry := sta_retry (fst s) + 1\<rparr>, snd s);
            s = call_station (St_delay 200) s;
            s = ((fst s)\<lparr>sta_state := Sta_attempt_started\<rparr>, snd s)
        in (call_station St_connect s, True))"

section \<open>Radio events on the target\<close>

text \<open>
  \<open>main/main.cpp\<close> gives every client a runtime of its own: the automatic connection and the BLE
  provisioning have one each, and \<open>main/connectivity/wlan_event_adapter.cpp\<close> hands the loss of the
  association to both, but an assigned address to the provisioning only.
\<close>

record station_runtimes =
  automatic_runtime :: station
  provisioning_runtime :: station_runtime

datatype radio_event = Ev_disconnected | Ev_got_address string string

definition handle_radio_event :: "radio_event \<Rightarrow> station_runtimes \<Rightarrow> station_runtimes" where
  "handle_radio_event event w =
     (case event of
        Ev_disconnected \<Rightarrow>
          w\<lparr>automatic_runtime := fst (handle_disconnect (automatic_runtime w)),
            provisioning_runtime := (provisioning_runtime w)\<lparr>sta_state := Sta_idle, sta_ipv4 := []\<rparr>\<rparr>
      | Ev_got_address ssid ipv4 \<Rightarrow>
          w\<lparr>provisioning_runtime :=
              station_address_ready ipv4 (station_associated ssid (provisioning_runtime w))\<rparr>)"

section \<open>The wlan command\<close>

datatype wlan_request_kind = Request_scan | Request_connect | Request_disconnect | Request_save

record wlan_request =
  request_kind :: wlan_request_kind
  request_ssid :: string
  request_password :: string

definition request_space :: "char \<Rightarrow> bool" where
  "request_space c \<longleftrightarrow> ascii_whitespace (octet c)"

function request_tokens :: "string \<Rightarrow> string list" where
  "request_tokens s =
     (let rest = dropWhile request_space s in
      if rest = [] then []
      else decode_escaped (octets (takeWhile (\<lambda>c. \<not> request_space c) rest))
             # request_tokens (dropWhile (\<lambda>c. \<not> request_space c) rest))"
  by pat_completeness auto

termination
proof (relation "measure length")
  fix s rest :: string
  assume rest: "rest = dropWhile request_space s" "rest \<noteq> []"
  then have "\<not> request_space (hd rest)"
    using hd_dropWhile by metis
  with rest(2) have "length (dropWhile (\<lambda>c. \<not> request_space c) rest) < length rest"
    by (cases rest) (simp_all add: le_imp_less_Suc length_dropWhile_le)
  also have "\<dots> \<le> length s"
    by (simp add: rest(1) length_dropWhile_le)
  finally show "(dropWhile (\<lambda>c. \<not> request_space c) rest, s) \<in> measure length" by simp
qed simp

declare request_tokens.simps [simp del]

definition parse_wlan_request :: "string \<Rightarrow> wlan_request" where
  "parse_wlan_request command =
     (let scan = \<lparr>request_kind = Request_scan, request_ssid = [], request_password = []\<rparr> in
      if length command < 5 \<or> take 4 command \<noteq> ''wlan'' \<or> command ! 4 \<noteq> CHR '' '' then scan
      else
        let tokens = request_tokens (drop 5 command);
            disconnect = (''-d'' \<in> set tokens);
            save = (''-s'' \<in> set tokens);
            arguments = filter (\<lambda>token. token \<notin> {''-d'', ''-s'', ''-e''}) tokens
        in if disconnect
           then \<lparr>request_kind = Request_disconnect, request_ssid = [], request_password = []\<rparr>
           else if save \<and> length arguments \<ge> 2
           then \<lparr>request_kind = Request_save, request_ssid = arguments ! 0, request_password = arguments ! 1\<rparr>
           else if length arguments \<ge> 2
           then \<lparr>request_kind = Request_connect, request_ssid = arguments ! 0, request_password = arguments ! 1\<rparr>
           else scan)"

definition wlan_frame :: "u8 \<Rightarrow> string \<Rightarrow> frame" where
  "wlan_frame type' message = \<lparr>ftype = type', fpayload = octets message\<rparr>"

text \<open>The responses of a connection request and, after success, whether discovery is announced.\<close>

definition wlan_connect ::
    "station_env \<Rightarrow> string \<Rightarrow> string \<Rightarrow> station \<Rightarrow> station \<times> frame list \<times> bool" where
  "wlan_connect env ssid password s =
     (let (s, result) = station_connect env ssid password s in
      if \<not> cr_success result
      then
        let detail = (if sta_error_detail (fst s) = [] then cr_error_name result else sta_error_detail (fst s));
            report = ''Error: '' @ take 100 detail @ [CHR 0x0A]
        in (s, [wlan_frame 0x83 report,
                wlan_frame 0x85
                  (if starts_with ''WiFi association failed'' detail then report
                   else ''Connect error.'' @ [CHR 0x0D, CHR 0x0A])], False)
      else
        (call_station (St_delay 500) s,
         [wlan_frame 0x83 (''WiFi connected, ip: '' @ cr_ipv4 result @ [CHR 0x0A]),
          wlan_frame 0x84 (''ok'' @ [CHR 0x0D, CHR 0x0A])], True))"

definition wlan_disconnect :: "station_env \<Rightarrow> station \<Rightarrow> station \<times> frame list" where
  "wlan_disconnect env s =
     (let (s, success) = station_disconnect env s in
      if \<not> success
      then (s, [wlan_frame 0x83 (''Error: '' @ st_error_name env (snd s) @ [CHR 0x0A]),
                wlan_frame 0x85 (''Disconnect error.'' @ [CHR 0x0D, CHR 0x0A])])
      else (s, [wlan_frame 0x83 (''WiFi Disconnected!'' @ [CHR 0x0A]),
                wlan_frame 0x84 (''ok'' @ [CHR 0x0D, CHR 0x0A])]))"

text \<open>A scan; the message is Chinese text in UTF-8.\<close>

definition scanning_message :: bytes where
  "scanning_message = [0xE6, 0xAD, 0xA3, 0xE5, 0x9C, 0xA8, 0xE6, 0x89, 0xAB, 0xE6, 0x8F, 0x8F, 0x57, 0x69, 0x46, 0x69, 0xE7, 0xBD, 0x91, 0xE7, 0xBB, 0x9C, 0x2E, 0x2E, 0x2E, 0x0A]"

definition wlan_scan :: "bytes \<Rightarrow> string + wifi_observation list \<Rightarrow> frame list" where
  "wlan_scan connected_ssid outcome =
     \<lparr>ftype = 0x83, fpayload = scanning_message\<rparr> #
     (case outcome of
        Inl error_name \<Rightarrow> [wlan_frame 0x85 (''WiFi scan failed: '' @ error_name)]
      | Inr observations \<Rightarrow>
          [\<lparr>ftype = 0x83, fpayload = take 512 (format_wifi_scan (process_wifi_scan observations connected_ssid))\<rparr>,
           wlan_frame 0x84 (''ok'' @ [CHR 0x0D, CHR 0x0A])])"

section \<open>What a connection does\<close>

definition saves :: "station_call list \<Rightarrow> station_call list" where
  "saves calls = filter (\<lambda>call. case call of St_save _ _ \<Rightarrow> True | _ \<Rightarrow> False) calls"

definition waited :: "station_call list \<Rightarrow> nat" where
  "waited calls = sum_list (map (\<lambda>call. case call of St_delay d \<Rightarrow> unat d | _ \<Rightarrow> 0) calls)"

lemma saves_simps [simp]:
  "saves [] = []" "saves (calls @ rest) = saves calls @ saves rest"
  "saves (call # calls) = (case call of St_save _ _ \<Rightarrow> [call] | _ \<Rightarrow> []) @ saves calls"
  by (simp_all add: saves_def split: station_call.split)

lemma waited_simps [simp]:
  "waited [] = 0" "waited (calls @ rest) = waited calls + waited rest"
  "waited (call # calls) = (case call of St_delay d \<Rightarrow> unat d | _ \<Rightarrow> 0) + waited calls"
  by (simp_all add: waited_def)

lemma call_station_sel [simp]:
  "fst (call_station call s) = fst s" "snd (call_station call s) = snd s @ [call]"
  by (simp_all add: call_station_def)

text \<open>A stretch of calls that saves nothing, waits at most so long and keeps the password.\<close>

definition quiet_stretch :: "nat \<Rightarrow> station \<Rightarrow> station \<Rightarrow> bool" where
  "quiet_stretch limit s s' \<longleftrightarrow>
     (\<exists>calls. snd s' = snd s @ calls \<and> saves calls = [] \<and> waited calls \<le> limit) \<and>
     sta_password (fst s') = sta_password (fst s)"

lemma quiet_stretch_refl [simp]: "quiet_stretch n s s"
  by (simp add: quiet_stretch_def)

lemma quiet_stretch_trans: "quiet_stretch m s t \<Longrightarrow> quiet_stretch n t u \<Longrightarrow> quiet_stretch (m + n) s u"
  unfolding quiet_stretch_def by (elim conjE exE) (force intro: add_mono)

lemma quiet_stretch_poll:
  assumes "station_poll env s = (s', seen)"
  shows "quiet_stretch 100 s s'" "seen = Sta_address_ready \<Longrightarrow> sta_state (fst s') = Sta_address_ready"
  using assms
  by (auto simp: station_poll_def quiet_stretch_def retain_snapshot_def station_associated_def
      station_address_ready_def Let_def)

lemma quiet_stretch_diagnostic: "quiet_stretch n s t \<Longrightarrow> quiet_stretch n s (call_station (St_diagnostic d) t)"
  by (auto simp: quiet_stretch_def)

lemma await_association_quiet: "await_association env n s = (s', seen) \<Longrightarrow> quiet_stretch (100 * n) s s'"
proof (induction n arbitrary: s)
  case (Suc n)
  obtain s1 state where poll: "station_poll env s = (s1, state)"
    by (cases "station_poll env s")
  have start: "quiet_stretch (100 * Suc n) s s1"
    using quiet_stretch_trans [OF quiet_stretch_poll(1) [OF poll] quiet_stretch_refl, of "100 * n"] by simp
  show ?case
  proof (cases "state = Sta_associated \<or> state = Sta_address_ready")
    case True
    with Suc.prems poll quiet_stretch_diagnostic [OF start] show ?thesis by (auto split: if_splits)
  next
    case False
    with Suc.prems poll have "await_association env n s1 = (s', seen)" by simp
    from quiet_stretch_trans [OF quiet_stretch_poll(1) [OF poll] Suc.IH [OF this]] show ?thesis by simp
  qed
qed simp

lemma await_address_quiet:
  "await_address env n s = (s', ready) \<Longrightarrow>
     quiet_stretch (100 * n) s s' \<and> (ready \<longrightarrow> sta_state (fst s') = Sta_address_ready)"
proof (induction n arbitrary: s)
  case (Suc n)
  obtain s1 state where poll: "station_poll env s = (s1, state)"
    by (cases "station_poll env s")
  show ?case
  proof (cases "state = Sta_address_ready")
    case True
    with Suc.prems poll have "s' = s1" "ready" by auto
    with True quiet_stretch_poll [OF poll]
      quiet_stretch_trans [OF quiet_stretch_poll(1) [OF poll] quiet_stretch_refl, of "100 * n"]
    show ?thesis by simp
  next
    case False
    with Suc.prems poll have "await_address env n s1 = (s', ready)" by simp
    with Suc.IH quiet_stretch_trans [OF quiet_stretch_poll(1) [OF poll]] show ?thesis by fastforce
  qed
qed simp

text \<open>What holds of a finished attempt, measured from the state before it.\<close>

definition attempt_finished :: "nat \<Rightarrow> station \<Rightarrow> station \<Rightarrow> connection_result \<Rightarrow> bool" where
  "attempt_finished limit s s' result \<longleftrightarrow>
     (\<exists>calls. snd s' = snd s @ calls \<and> waited calls \<le> limit \<and>
        saves calls = (if cr_success result then [St_save (sta_ssid (fst s')) (sta_password (fst s))] else [])) \<and>
     sta_password (fst s') = sta_password (fst s) \<and> cr_ipv4 result = sta_ipv4 (fst s') \<and>
     (if cr_success result then sta_state (fst s') = Sta_address_ready \<and> \<not> sta_has_error (fst s')
      else sta_state (fst s') = Sta_error \<and> sta_has_error (fst s') \<and> length (sta_error_detail (fst s')) \<le> 64)"

lemma connection_fail_finished:
  assumes "quiet_stretch n s t" "connection_fail detail error_name t = (s', result)"
  shows "attempt_finished n s s' result"
  using assms by (auto simp: connection_fail_def attempt_finished_def quiet_stretch_def Let_def)

lemma phase_failed_finished:
  assumes "quiet_stretch n s t" "phase_failed env diagnostic fallback t = (s', result)"
  shows "attempt_finished n s s' result"
proof -
  have "quiet_stretch n s (call_station St_error_detail (call_station (St_diagnostic diagnostic) t))"
    using assms(1) by (auto simp: quiet_stretch_def)
  then show ?thesis
    using assms(2) connection_fail_finished by (auto simp: phase_failed_def Let_def)
qed

lemma address_obtained_finished:
  assumes "quiet_stretch n s t" "sta_state (fst t) = Sta_address_ready" "address_obtained t = (s', result)"
  shows "attempt_finished n s s' result"
  using assms by (auto simp: address_obtained_def attempt_finished_def quiet_stretch_def Let_def)

lemma await_connection_finished:
  assumes "quiet_stretch n s t" "await_connection env t = (s', result)"
  shows "attempt_finished (n + 20000) s s' result"
proof -
  obtain u associated where u: "await_association env phase_polls t = (u, associated)"
    by (cases "await_association env phase_polls t")
  obtain v ready where v: "await_address env phase_polls u = (v, ready)"
    by (cases "await_address env phase_polls u")
  have first: "quiet_stretch (n + 10000) s u"
    using quiet_stretch_trans [OF assms(1) await_association_quiet [OF u]] by (simp add: phase_polls_def)
  have second: "quiet_stretch (n + 20000) s v"
    using quiet_stretch_trans [OF first conjunct1 [OF await_address_quiet [OF v]]]
    by (simp add: phase_polls_def add.commute [of _ n])
  have longer: "quiet_stretch (n + 20000) s u"
    using quiet_stretch_trans [OF first quiet_stretch_refl, of 10000] by (simp add: add.commute [of _ n])
  show ?thesis
  proof (cases "associated \<and> ready")
    case True
    then show ?thesis
      using assms(2) u v address_obtained_finished [OF second] await_address_quiet [OF v]
      by (simp add: await_connection_def)
  next
    case False
    then show ?thesis
      using assms(2) u v phase_failed_finished [OF longer] phase_failed_finished [OF second]
      by (auto simp: await_connection_def split: if_splits)
  qed
qed

lemma attempt_finished_mono: "attempt_finished m s s' result \<Longrightarrow> m \<le> n \<Longrightarrow> attempt_finished n s s' result"
  unfolding attempt_finished_def by fastforce

text \<open>
  A manual connection always ends, after at most 21 seconds of waiting. When it succeeds the
  station has its address, no error is kept and the credentials that were used are saved exactly
  once, at the end; when it fails the state is the error state with at most 64 characters of detail
  and nothing is saved. The password in use is the first 63 characters of the given one.
\<close>

theorem station_connect_outcome:
  "let (s', result) = station_connect env ssid password s in
   (\<exists>calls. snd s' = snd s @ calls \<and> waited calls \<le> 21000 \<and>
      saves calls = (if cr_success result then [St_save (sta_ssid (fst s')) (take 63 password)] else [])) \<and>
   sta_password (fst s') = take 63 password \<and>
   (if cr_success result then sta_state (fst s') = Sta_address_ready \<and> \<not> sta_has_error (fst s')
    else sta_state (fst s') = Sta_error \<and> sta_has_error (fst s') \<and> length (sta_error_detail (fst s')) \<le> 64)"
proof -
  define begun where "begun = leave_previous (call_station (St_diagnostic ''policy.connect.begin'') s)"
  define staged where "staged = (stage_credentials ssid password (fst begun), snd begun)"
  obtain s' result where run: "station_connect env ssid password s = (s', result)"
    by (cases "station_connect env ssid password s")
  have start: "\<exists>calls. snd staged = snd s @ calls \<and> saves calls = [] \<and> waited calls \<le> 1000"
    by (simp add: staged_def begun_def leave_previous_def)
  have password: "sta_password (fst staged) = take 63 password"
    by (simp add: staged_def stage_credentials_def)
  let ?apply = "St_apply (station_config (sta_ssid (fst staged)) (sta_password (fst staged)))"
  let ?configured = "call_station ?apply staged"
  let ?attempt = "((fst ?configured)\<lparr>sta_state := Sta_attempt_started\<rparr>, snd ?configured)"
  note unfolded = run [unfolded station_connect_def Let_def, folded begun_def, folded staged_def]
  have "attempt_finished 20000 staged s' result"
  proof (cases "st_ok env (snd staged) ?apply")
    case configured: True
    show ?thesis
    proof (cases "st_ok env (snd ?attempt) St_connect")
      case True
      have quiet: "quiet_stretch 0 staged (call_station St_connect ?attempt)"
        by (simp add: quiet_stretch_def)
      from unfolded configured True have "await_connection env (call_station St_connect ?attempt) = (s', result)"
        by simp
      from await_connection_finished [OF quiet this] show ?thesis by simp
    next
      case False
      note failed = unfolded [unfolded if_not_P [OF False] if_P [OF False] if_not_P [OF not_not [THEN iffD2, OF configured]]]
      show ?thesis
        by (rule attempt_finished_mono [where m = 0], rule connection_fail_finished [OF _ failed]) (simp_all add: quiet_stretch_def)
    qed
  next
    case False
    note failed = unfolded [unfolded if_P [OF False]]
    show ?thesis
      by (rule attempt_finished_mono [where m = 0], rule connection_fail_finished [OF _ failed]) (simp_all add: quiet_stretch_def)
  qed
  with start password run show ?thesis
    unfolding attempt_finished_def by (fastforce split: if_splits)
qed

section \<open>Reconnections on the target\<close>

definition disconnections :: "radio_event list \<Rightarrow> nat" where
  "disconnections events = length (filter (\<lambda>event. event = Ev_disconnected) events)"

lemma disconnections_simps [simp]:
  "disconnections [] = 0"
  "disconnections (Ev_disconnected # events) = Suc (disconnections events)"
  "disconnections (Ev_got_address ssid ipv4 # events) = disconnections events"
  by (simp_all add: disconnections_def)

text \<open>The retry number after so many disconnections, and the connections they have asked for.\<close>

definition retry_after :: "nat \<Rightarrow> u8" where
  "retry_after n = (if n \<le> 4 then of_nat (Suc n) else 0)"

abbreviation connects :: "station \<Rightarrow> nat" where
  "connects s \<equiv> count_calls (\<lambda>call. call = St_connect) (snd s)"

lemma handle_disconnect_step:
  assumes "sta_retry (fst s) = retry_after n"
  shows "sta_retry (fst (fst (handle_disconnect s))) = retry_after (Suc n) \<and>
    connects (fst (handle_disconnect s)) = connects s + (if n < 4 then 1 else 0)"
proof -
  consider "n = 0" | "n = 1" | "n = 2" | "n = 3" | "n = 4" | "4 < n" by linarith
  then show ?thesis
    by cases (use assms in \<open>simp_all add: handle_disconnect_def retry_after_def\<close>)
qed

lemma radio_events_retry:
  assumes "sta_retry (fst (automatic_runtime w)) = retry_after n"
  shows "connects (automatic_runtime (fold handle_radio_event events w)) =
    connects (automatic_runtime w) + min (4 - n) (disconnections events)"
  using assms
proof (induction events arbitrary: w n)
  case (Cons event events)
  show ?case
  proof (cases event)
    case Ev_disconnected
    let ?w = "handle_radio_event Ev_disconnected w"
    have "automatic_runtime ?w = fst (handle_disconnect (automatic_runtime w))"
      by (simp add: handle_radio_event_def)
    with Cons.IH [of ?w "Suc n"] handle_disconnect_step [OF Cons.prems] Ev_disconnected show ?thesis
      by auto
  next
    case (Ev_got_address ssid ipv4)
    with Cons.IH [of "handle_radio_event event w" n] Cons.prems show ?thesis
      by (simp add: handle_radio_event_def)
  qed
qed simp

text \<open>
  On the target the automatic connection is never told of an assigned address, so its retry number
  is never reset: after it has begun, the first four losses of the association, over the whole run and
  whatever succeeded in between, ask for a reconnection, each also when the host had asked for the
  disconnection, and no later loss does.
\<close>

theorem automatic_retries_never_reset:
  assumes "automatic_runtime w = fst (begin_scheduled env s)"
  shows "connects (automatic_runtime (fold handle_radio_event events w)) =
    Suc (connects s) + min 4 (disconnections events)"
  using radio_events_retry [of w 0 events] assms
  by (simp add: begin_scheduled_def retry_after_def)

definition sample_runtime :: station_runtime where
  "sample_runtime =
     \<lparr>sta_state = Sta_idle, sta_ssid = ''net'', sta_password = [], sta_ipv4 = [], sta_has_error = False,
      sta_error_detail = [], sta_retry = 0\<rparr>"

definition willing_radio :: station_env where
  "willing_radio =
     \<lparr>st_ok = \<lambda>_ _. True, st_error_name = \<lambda>_. [],
      st_snapshot = \<lambda>_. \<lparr>snap_state = Sta_address_ready, snap_ssid = ''net'', snap_ipv4 = ''10.0.0.2''\<rparr>,
      st_error_text = \<lambda>_. []\<rparr>"

theorem automatic_retries_never_reset_witness:
  "connects (automatic_runtime (fold handle_radio_event
      [Ev_got_address ''net'' ''10.0.0.2'', Ev_disconnected, Ev_got_address ''net'' ''10.0.0.2'', Ev_disconnected,
       Ev_disconnected, Ev_disconnected, Ev_disconnected]
      \<lparr>automatic_runtime = fst (begin_scheduled willing_radio (sample_runtime, [])),
       provisioning_runtime = sample_runtime\<rparr>)) =
    Suc (connects (sample_runtime, [])) + min 4 (disconnections
      [Ev_got_address ''net'' ''10.0.0.2'', Ev_disconnected, Ev_got_address ''net'' ''10.0.0.2'', Ev_disconnected,
       Ev_disconnected, Ev_disconnected, Ev_disconnected])"
  by (rule automatic_retries_never_reset) simp

text \<open>The credentials a successful connection saves are the ones the next start stages.\<close>

fun save_credentials :: "station_call \<Rightarrow> (string \<rightharpoonup> string) \<Rightarrow> (string \<rightharpoonup> string)" where
  "save_credentials (St_save ssid password) store = store(''ssid'' \<mapsto> ssid, ''password'' \<mapsto> password)"
| "save_credentials call store = store"

definition read_credentials :: "(string \<rightharpoonup> string) \<Rightarrow> credential_reader" where
  "read_credentials store key = (case store key of Some s \<Rightarrow> Stored_found s | None \<Rightarrow> Stored_missing)"

lemma fold_save_credentials: "fold save_credentials calls store = fold save_credentials (saves calls) store"
proof (induction calls arbitrary: store)
  case (Cons call calls)
  then show ?case by (cases call) (simp_all del: save_credentials.simps(1))
qed simp

text \<open>
  After a manual connection that succeeded and whose credentials were written, the next start
  finds them and stages the same network and password, when the network has a name of at most 31
  characters.
\<close>

theorem connected_network_is_staged_again:
  assumes connected: "station_connect env ssid password (rt, []) = ((rt', h), result)" "cr_success result"
    and named: "sta_ssid rt' \<noteq> []" "length (sta_ssid rt') \<le> 31"
  shows "\<exists>calls. load_and_schedule boot (read_credentials (fold save_credentials h store)) (fresh, []) =
      ((fresh\<lparr>sta_ssid := sta_ssid rt', sta_password := take 63 password\<rparr>, calls),
       st_ok boot [St_apply (station_config (sta_ssid rt') (take 63 password))] (St_schedule 500))"
proof -
  have "saves h = [St_save (sta_ssid rt') (take 63 password)]"
    using station_connect_outcome [of env ssid password "(rt, [])"] connected by auto
  then have "fold save_credentials h store =
      store(''ssid'' \<mapsto> sta_ssid rt', ''password'' \<mapsto> take 63 password)"
    by (subst fold_save_credentials) simp
  then show ?thesis
    using named by (simp add: load_and_schedule_def read_credentials_def call_station_def Let_def)
qed

theorem connected_network_is_staged_again_witness:
  "\<exists>calls. load_and_schedule willing_radio
      (read_credentials (fold save_credentials (snd (fst (station_connect willing_radio ''net'' ''secret'' (sample_runtime, [])))) Map.empty))
      (sample_runtime, []) =
    ((sample_runtime\<lparr>sta_ssid := ''net'', sta_password := take 63 ''secret''\<rparr>, calls), True)"
proof -
  let ?run = "station_connect willing_radio ''net'' ''secret'' (sample_runtime, [])"
  have evaluated: "cr_success (snd ?run)" "sta_ssid (fst (fst ?run)) = ''net''"
    by code_simp+
  have "?run = ((fst (fst ?run), snd (fst ?run)), snd ?run)" by simp
  from connected_network_is_staged_again [OF this evaluated(1), where boot = willing_radio and store = Map.empty and fresh = sample_runtime]
    evaluated(2)
  show ?thesis by (simp add: willing_radio_def)
qed

end
