(* ===== verification/Provisioning.thy ===== *)
theory Provisioning
  imports Station Blufi
begin

text \<open>
  Provisioning over BLE: the product operations and their security gate,
  \<open>application/src/provisioning/ble_provisioning.cpp\<close>, the security context, \<open>blufi_security.cpp\<close>, the
  report layouts and the dispatch of messages, \<open>blufi_product.cpp\<close>, the advertisement,
  \<open>blufi_advertising.cpp\<close>, the GATT transactions, \<open>blufi_gatt.cpp\<close>, and the callbacks through which
  the target drives them, \<open>main/provisioning/blufi_callback_adapter.cpp\<close>. The cryptography is a
  parameter.
\<close>

section \<open>Advertising\<close>

definition blufi_device_name :: "string \<Rightarrow> string" where
  "blufi_device_name machine_name = ''MK_'' @ take 23 machine_name"

definition blufi_advertising_data :: "string \<Rightarrow> u8 \<Rightarrow> bytes" where
  "blufi_advertising_data device_name transmit_power =
     (let normalized_name =
            blufi_device_name (if starts_with ''MK_'' device_name then drop 3 device_name else device_name);
          suffix_size = length normalized_name - 3
      in [0x02, 0x01, 0x06, of_nat (suffix_size + 4), 0x09] @ octets normalized_name @
         (if suffix_size \<le> 20 then [0x02, 0x0A, transmit_power] else []) @
         (if suffix_size \<le> 16 then [0x03, 0x03, 0xFF, 0xFF]
          else if suffix_size = 17 then [0x01, 0x02] else []) @
         (if suffix_size \<le> 10 then [0x05, 0x12, 0x06, 0x00, 0x10, 0x00] else []))"

section \<open>Reports\<close>

datatype report_state = Report_success | Report_failure | Report_connecting

record wifi_report =
  report_mode :: u8
  report_state :: report_state
  report_bssid :: bytes
  report_ssid :: string

record wifi_list_entry =
  entry_ssid :: bytes
  entry_rssi :: int

fun report_state_code :: "report_state \<Rightarrow> u8" where
  "report_state_code Report_success = 0"
| "report_state_code Report_failure = 1"
| "report_state_code Report_connecting = 2"

definition encode_wifi_status :: "wifi_report \<Rightarrow> bytes" where
  "encode_wifi_status r =
     [report_mode r, report_state_code (report_state r), 0, 1, 6] @ report_bssid r @
     [2, of_nat (length (report_ssid r))] @ octets (report_ssid r)"

definition encode_wifi_list :: "wifi_list_entry list \<Rightarrow> bytes" where
  "encode_wifi_list entries =
     concat (map (\<lambda>e. [of_nat (length (entry_ssid e) + 1), of_int (entry_rssi e)] @ entry_ssid e) entries)"

section \<open>The product operations\<close>

datatype ble_call =
    Ble_initialize | Ble_start_advertising string | Ble_stop_advertising
  | Ble_create_security | Ble_destroy_security
  | Ble_apply station_configuration | Ble_disconnect | Ble_connect
  | Ble_stop_scan | Ble_delay u32 | Ble_scan | Ble_error u8
  | Ble_status wifi_report | Ble_list "wifi_list_entry list" | Ble_custom bytes

text \<open>A scan gives no result, no storage for it, or observations.\<close>

datatype ble_scan_outcome = Ble_scan_failed | Ble_scan_unstored | Ble_scanned "wifi_observation list"

record ble_env =
  ble_ok :: "ble_call \<Rightarrow> bool"
  ble_wifi_mode :: u8
  ble_scan :: ble_scan_outcome

record provisioning =
  pr_runtime :: station_runtime
  pr_device_name :: string
  pr_bssid :: bytes
  pr_associated_ssid :: string
  pr_connected :: bool
  pr_security_ready :: bool

type_synonym provisioning_step = "provisioning \<Rightarrow> provisioning \<times> ble_call list"

definition new_provisioning :: "station_runtime \<Rightarrow> string \<Rightarrow> provisioning" where
  "new_provisioning rt machine_name =
     \<lparr>pr_runtime = rt, pr_device_name = blufi_device_name machine_name, pr_bssid = replicate 6 0,
      pr_associated_ssid = [], pr_connected = False, pr_security_ready = False\<rparr>"

definition provisioning_start :: "ble_env \<Rightarrow> provisioning \<Rightarrow> ble_call list \<times> bool" where
  "provisioning_start env p =
     (if \<not> ble_ok env Ble_initialize then ([Ble_initialize], False)
      else let advertise = Ble_start_advertising (pr_device_name p)
           in ([Ble_initialize, advertise], ble_ok env advertise))"

definition client_connected :: provisioning_step where
  "client_connected p =
     (p\<lparr>pr_connected := True, pr_security_ready := False\<rparr>, [Ble_stop_advertising, Ble_create_security])"

definition client_disconnected :: provisioning_step where
  "client_disconnected p =
     (p\<lparr>pr_connected := False, pr_security_ready := False\<rparr>,
      [Ble_destroy_security, Ble_start_advertising (pr_device_name p)])"

definition security_negotiated :: provisioning_step where
  "security_negotiated p = (if pr_connected p then p\<lparr>pr_security_ready := True\<rparr> else p, [])"

definition receive_ssid :: "bytes \<Rightarrow> provisioning_step" where
  "receive_ssid ssid p =
     (if \<not> pr_security_ready p then (p, [])
      else if length ssid > 31 then (p, [Ble_error 9])
      else (p\<lparr>pr_runtime := (pr_runtime p)\<lparr>sta_ssid := decode_escaped ssid\<rparr>\<rparr>, []))"

definition receive_password :: "bytes \<Rightarrow> provisioning_step" where
  "receive_password password p =
     (if \<not> pr_security_ready p then (p, [])
      else if length password > 63 then (p, [Ble_error 9])
      else (p\<lparr>pr_runtime := (pr_runtime p)\<lparr>sta_password := decode_escaped password\<rparr>\<rparr>, []))"

definition connect_station :: provisioning_step where
  "connect_station p =
     (if \<not> pr_security_ready p then (p, [])
      else if sta_ssid (pr_runtime p) = [] then (p, [Ble_error 9])
      else
        let rt = pr_runtime p;
            configuration = (station_config (sta_ssid rt) (sta_password rt))
              \<lparr>cfg_scan_all_channels := False, cfg_fast_scan := True\<rparr>;
            rt = (if sta_state rt \<noteq> Sta_attempt_started then rt\<lparr>sta_state := Sta_idle\<rparr> else rt);
            rt = rt\<lparr>sta_ipv4 := [], sta_has_error := False, sta_error_detail := []\<rparr>
        in (p\<lparr>pr_runtime := rt\<rparr>, [Ble_apply configuration, Ble_disconnect, Ble_connect]))"

definition disconnect_station :: provisioning_step where
  "disconnect_station p = (p, [Ble_disconnect])"

definition set_operation_mode :: "u8 \<Rightarrow> provisioning_step" where
  "set_operation_mode mode p = (p, [])"

definition status_report :: "ble_env \<Rightarrow> report_state \<Rightarrow> provisioning \<Rightarrow> wifi_report" where
  "status_report env state p =
     \<lparr>report_mode = ble_wifi_mode env, report_state = state, report_bssid = pr_bssid p,
      report_ssid = sta_ssid (pr_runtime p)\<rparr>"

definition request_status :: "ble_env \<Rightarrow> provisioning_step" where
  "request_status env p =
     (let rt = pr_runtime p;
          state = (if sta_state rt = Sta_address_ready \<and> sta_error_detail rt = [] then Report_success
                   else if sta_state rt = Sta_attempt_started then Report_connecting
                   else Report_failure)
      in (p, [Ble_status (status_report env state p)]))"

definition provisioning_associated :: "bytes \<Rightarrow> string \<Rightarrow> provisioning_step" where
  "provisioning_associated bssid ssid p =
     (p\<lparr>pr_bssid := bssid, pr_associated_ssid := ssid,
        pr_runtime := station_associated ssid (pr_runtime p)\<rparr>, [])"

definition provisioning_address_ready :: "ble_env \<Rightarrow> string \<Rightarrow> provisioning_step" where
  "provisioning_address_ready env ipv4 p =
     (let p = p\<lparr>pr_runtime := station_address_ready ipv4 (pr_runtime p)\<rparr>
      in (p, if pr_connected p
             then [Ble_status ((status_report env Report_success p)\<lparr>report_ssid := pr_associated_ssid p\<rparr>)]
             else []))"

definition provisioning_station_disconnected :: provisioning_step where
  "provisioning_station_disconnected p =
     (p\<lparr>pr_bssid := replicate 6 0, pr_associated_ssid := [],
        pr_runtime := (pr_runtime p)\<lparr>sta_state := Sta_idle, sta_ipv4 := []\<rparr>\<rparr>, [])"

definition request_wifi_list :: "ble_env \<Rightarrow> provisioning_step" where
  "request_wifi_list env p =
     (p, [Ble_stop_scan, Ble_delay 100, Ble_scan] @
       (case ble_scan env of
          Ble_scanned observations \<Rightarrow>
            (let results = process_wifi_scan observations [] in
             if results = [] then []
             else [Ble_list (map (\<lambda>r. \<lparr>entry_ssid = scan_ssid r, entry_rssi = scan_rssi r\<rparr>) results)])
        | _ \<Rightarrow> [Ble_error 11]))"

definition provisioning_receive_error :: "u8 \<Rightarrow> provisioning_step" where
  "provisioning_receive_error error p = (p, [Ble_error error])"

definition receive_custom_data :: "bytes \<Rightarrow> provisioning_step" where
  "receive_custom_data custom p = (p, [Ble_custom custom])"

section \<open>Dispatch of messages\<close>

datatype product_action =
    Do_connect | Do_disconnect | Do_status | Do_list | Do_send u8 bytes | Do_negotiate bytes
  | Do_ssid bytes | Do_password bytes | Do_report u8 | Do_error u8 | Do_custom bytes

definition dispatch_control :: "blufi_frame \<Rightarrow> product_action list" where
  "dispatch_control m =
     (if bf_subtype m = 3 then [Do_connect]
      else if bf_subtype m = 4 then [Do_disconnect]
      else if bf_subtype m = 5 then [Do_status]
      else if bf_subtype m = 7 then [Do_send 0x10 [0x01, 0x03]]
      else if bf_subtype m = 9 then [Do_list]
      else [])"

definition dispatch_data :: "blufi_frame \<Rightarrow> product_action list" where
  "dispatch_data m =
     (if bf_subtype m = 0 then [Do_negotiate (bf_data m)]
      else if bf_subtype m = 2 then [Do_ssid (bf_data m)]
      else if bf_subtype m = 3 then [Do_password (bf_data m)]
      else if bf_subtype m = 0x12
      then (if length (bf_data m) \<noteq> 1 then [Do_report 9] else [Do_error (bf_data m ! 0)])
      else if bf_subtype m = 0x13 then [Do_custom (bf_data m)]
      else [])"

definition dispatch_message :: "blufi_frame \<Rightarrow> product_action list" where
  "dispatch_message m =
     (if bf_type m = Blufi_control then dispatch_control m
      else if bf_type m = Blufi_data then dispatch_data m else [])"

section \<open>The security context\<close>

datatype dh_failure = Dh_none | Dh_parse | Dh_public_key | Dh_shared_secret

record dh_result =
  dh_failure :: dh_failure
  dh_public_key :: bytes
  dh_secret :: bytes
  dh_error_code :: int

datatype security_diagnostic =
    Sec_initialized | Sec_deinitialized | Sec_invalid_format | Sec_uninitialized
  | Sec_allocation_failed | Sec_parameter_retained nat | Sec_missing_parameter
  | Sec_short_parameter nat nat | Sec_dh_parse_failed int | Sec_dh_length_unsupported nat
  | Sec_public_key_failed int | Sec_shared_secret_failed int | Sec_digest_failed int
  | Sec_negotiation_complete nat

datatype security_output =
    Sec_response bytes | Sec_error u8 | Sec_diagnostic security_diagnostic

record security_crypto =
  sy_allocate :: "nat \<Rightarrow> bytes option"
  sy_derive :: "bytes \<Rightarrow> dh_result"
  sy_md5 :: "bytes \<Rightarrow> bytes option"
  sy_aes :: "bytes \<Rightarrow> bytes \<Rightarrow> bytes \<Rightarrow> bool \<Rightarrow> bytes option"
  sy_last_error :: int

record security_context =
  sc_parameters :: bytes
  sc_key :: bytes
  sc_ready :: bool
  sc_initialized :: bool

definition new_security :: security_context where
  "new_security = \<lparr>sc_parameters = [], sc_key = replicate 16 0, sc_ready = False, sc_initialized = True\<rparr>"

definition security_create :: "security_context \<Rightarrow> security_context \<times> security_output list" where
  "security_create x =
     (x\<lparr>sc_parameters := [], sc_key := replicate 16 0, sc_ready := False, sc_initialized := True\<rparr>,
      if sc_initialized x then [] else [Sec_diagnostic Sec_initialized])"

definition security_destroy :: "security_context \<Rightarrow> security_context \<times> security_output list" where
  "security_destroy x =
     (x\<lparr>sc_parameters := [], sc_key := replicate 16 0, sc_ready := False, sc_initialized := False\<rparr>,
      if sc_initialized x then [Sec_diagnostic Sec_deinitialized] else [])"

definition shared_secret_salt :: bytes where
  "shared_secret_salt =
     [0x5A, 0x31, 0x5F, 0x42, 0x4C, 0x55, 0x46, 0x49, 0x5F, 0x53, 0x41, 0x4C, 0x54, 0x5F, 0x32, 0x30,
      0x32, 0x35, 0xAA, 0xB1, 0xA3, 0x06, 0x88, 0x45, 0x36, 0x67, 0x90, 0x87, 0x21, 0x70, 0x11, 0x82]"

definition salted_secret :: "bytes \<Rightarrow> bytes" where
  "salted_secret secret = map (\<lambda>(index, b). b XOR shared_secret_salt ! (index mod 32)) (enumerate 0 secret)"

fun dh_error :: "dh_failure \<Rightarrow> u8" where
  "dh_error Dh_parse = 7"
| "dh_error Dh_public_key = 8"
| "dh_error Dh_shared_secret = 10"
| "dh_error Dh_none = 10"

definition receive_parameter_length ::
    "security_crypto \<Rightarrow> bytes \<Rightarrow> security_context \<Rightarrow> security_context \<times> security_output list" where
  "receive_parameter_length crypto message x =
     (let announced = unat (message ! 1) * 256 + unat (message ! 2);
          x = x\<lparr>sc_parameters := []\<rparr>
      in if announced = 0 then (x, [Sec_error 5]) else
      case sy_allocate crypto announced of
        None \<Rightarrow> (x, [Sec_diagnostic Sec_allocation_failed, Sec_error 5])
      | Some allocated \<Rightarrow>
          if length allocated \<noteq> announced
          then (x, [Sec_diagnostic Sec_allocation_failed, Sec_error 5])
          else (x\<lparr>sc_parameters := allocated\<rparr>, [Sec_diagnostic (Sec_parameter_retained announced)]))"

definition dh_diagnostic :: "dh_result \<Rightarrow> security_diagnostic" where
  "dh_diagnostic derived =
     (if dh_failure derived = Dh_parse then Sec_dh_parse_failed (dh_error_code derived)
      else if dh_failure derived = Dh_public_key then Sec_public_key_failed (dh_error_code derived)
      else Sec_shared_secret_failed (dh_error_code derived))"

definition receive_parameter_data ::
    "security_crypto \<Rightarrow> bytes \<Rightarrow> security_context \<Rightarrow> security_context \<times> security_output list" where
  "receive_parameter_data crypto message x =
     (if sc_parameters x = [] then (x, [Sec_diagnostic Sec_missing_parameter, Sec_error 6])
      else if length message - 1 < length (sc_parameters x)
      then (x, [Sec_diagnostic (Sec_short_parameter (length (sc_parameters x) + 1) (length message)), Sec_error 6])
      else
        let x = x\<lparr>sc_parameters := take (length (sc_parameters x)) (drop 1 message)\<rparr>;
            derived = sy_derive crypto (sc_parameters x)
        in if dh_failure derived \<noteq> Dh_none
           then (x, [Sec_diagnostic (dh_diagnostic derived), Sec_error (dh_error (dh_failure derived))])
           else if length (dh_public_key derived) > 128
           then (x, [Sec_diagnostic (Sec_dh_length_unsupported (length (dh_public_key derived))), Sec_error 8])
           else if length (dh_secret derived) > 128 then (x, [Sec_error 10])
           else case sy_md5 crypto (salted_secret (dh_secret derived)) of
               None \<Rightarrow> (x, [Sec_diagnostic (Sec_digest_failed (sy_last_error crypto)), Sec_error 10])
             | Some digest \<Rightarrow>
                 (x\<lparr>sc_key := digest, sc_ready := True\<rparr>,
                  [Sec_response (dh_public_key derived),
                   Sec_diagnostic (Sec_negotiation_complete (length (dh_public_key derived)))]))"

definition receive_negotiation ::
    "security_crypto \<Rightarrow> bytes \<Rightarrow> security_context \<Rightarrow> security_context \<times> security_output list" where
  "receive_negotiation crypto message x =
     (if length message < 3 then (x, [Sec_diagnostic Sec_invalid_format, Sec_error 9])
      else if \<not> sc_initialized x then (x, [Sec_diagnostic Sec_uninitialized])
      else if message ! 0 = 0 then receive_parameter_length crypto message x
      else if message ! 0 = 1 then receive_parameter_data crypto message x
      else (x, []))"

definition security_crypt ::
    "security_crypto \<Rightarrow> security_context \<Rightarrow> u8 \<Rightarrow> bytes \<Rightarrow> bool \<Rightarrow> bytes option" where
  "security_crypt crypto x sequence input encrypt =
     (if \<not> sc_ready x then None
      else sy_aes crypto (sc_key x) (sequence # replicate 15 0) input encrypt)"

section \<open>The callbacks of the target\<close>

datatype blufi_callback =
    Cb_ble_connect | Cb_ble_disconnect | Cb_connect_to_ap | Cb_disconnect_from_ap
  | Cb_wifi_status | Cb_wifi_list | Cb_operation_mode "u8 option" | Cb_bssid "bytes option"
  | Cb_ssid "bytes option" | Cb_password "bytes option" | Cb_report_error "u8 option"
  | Cb_custom_data "bytes option" | Cb_negotiate bytes | Cb_other

type_synonym target_provisioning = "provisioning \<times> security_context"

definition on_provisioning ::
    "provisioning_step \<Rightarrow> target_provisioning \<Rightarrow> target_provisioning \<times> ble_call list" where
  "on_provisioning step s = (let (p, calls) = step (fst s) in ((p, snd s), calls))"

definition if_parameter ::
    "'a option \<Rightarrow> ('a \<Rightarrow> provisioning_step) \<Rightarrow> target_provisioning \<Rightarrow> target_provisioning \<times> ble_call list" where
  "if_parameter parameter step s =
     (case parameter of None \<Rightarrow> (s, []) | Some found \<Rightarrow> on_provisioning (step found) s)"

fun blufi_event_callback ::
    "ble_env \<Rightarrow> security_crypto \<Rightarrow> blufi_callback \<Rightarrow> target_provisioning \<Rightarrow> target_provisioning \<times> ble_call list" where
  "blufi_event_callback env crypto Cb_ble_connect s =
     on_provisioning client_connected (fst s, fst (security_create (snd s)))"
| "blufi_event_callback env crypto Cb_ble_disconnect s =
     on_provisioning client_disconnected (fst s, fst (security_destroy (snd s)))"
| "blufi_event_callback env crypto Cb_connect_to_ap s = on_provisioning connect_station s"
| "blufi_event_callback env crypto Cb_disconnect_from_ap s = on_provisioning disconnect_station s"
| "blufi_event_callback env crypto Cb_wifi_status s = on_provisioning (request_status env) s"
| "blufi_event_callback env crypto Cb_wifi_list s = on_provisioning (request_wifi_list env) s"
| "blufi_event_callback env crypto (Cb_operation_mode mode) s = if_parameter mode set_operation_mode s"
| "blufi_event_callback env crypto (Cb_bssid bssid) s =
     if_parameter bssid (\<lambda>bssid. provisioning_associated bssid []) s"
| "blufi_event_callback env crypto (Cb_ssid ssid) s = if_parameter ssid receive_ssid s"
| "blufi_event_callback env crypto (Cb_password password) s = if_parameter password receive_password s"
| "blufi_event_callback env crypto (Cb_report_error error) s = if_parameter error provisioning_receive_error s"
| "blufi_event_callback env crypto (Cb_custom_data custom) s = if_parameter custom receive_custom_data s"
| "blufi_event_callback env crypto (Cb_negotiate message) s =
     ((fst s, fst (receive_negotiation crypto message (snd s))), [])"
| "blufi_event_callback env crypto Cb_other s = (s, [])"

definition encrypt_data :: "security_crypto \<Rightarrow> target_provisioning \<Rightarrow> u8 \<Rightarrow> bytes \<Rightarrow> bool \<Rightarrow> bytes option" where
  "encrypt_data crypto s sequence content encrypt = security_crypt crypto (snd s) sequence content encrypt"

text \<open>The station events that \<open>wlan_event_adapter.cpp\<close> forwards.\<close>

datatype target_event =
    Target_callback blufi_callback | Target_station_lost | Target_station_ready bytes string string

fun target_step ::
    "ble_env \<Rightarrow> security_crypto \<Rightarrow> target_event \<Rightarrow> target_provisioning \<Rightarrow> target_provisioning \<times> ble_call list" where
  "target_step env crypto (Target_callback callback) s = blufi_event_callback env crypto callback s"
| "target_step env crypto Target_station_lost s = on_provisioning provisioning_station_disconnected s"
| "target_step env crypto (Target_station_ready bssid ssid ipv4) s =
     (let (s, calls) = on_provisioning (provisioning_associated bssid ssid) s;
          (s, more_calls) = on_provisioning (provisioning_address_ready env ipv4) s
      in (s, calls @ more_calls))"

fun target_run ::
    "ble_env \<Rightarrow> security_crypto \<Rightarrow> target_event list \<Rightarrow> target_provisioning \<Rightarrow> target_provisioning \<times> ble_call list" where
  "target_run env crypto [] s = (s, [])"
| "target_run env crypto (event # events) s =
     (let (s, calls) = target_step env crypto event s; (s, later) = target_run env crypto events s
      in (s, calls @ later))"

section \<open>GATT transactions\<close>

datatype att_status = Att_success | Att_invalid_offset | Att_invalid_length | Att_allocation_failure

record prepared_response =
  prep_status :: att_status
  prep_handle :: u16
  prep_offset :: nat
  prep_value :: bytes

record gatt =
  gatt_prepared :: "bytes option"
  gatt_recorded_length :: nat

datatype gatt_output = Gatt_write_response att_status | Gatt_decode bytes

definition prepared_capacity :: nat where
  "prepared_capacity = 1024"

definition discard_prepared :: gatt where
  "discard_prepared = \<lparr>gatt_prepared = None, gatt_recorded_length = 0\<rparr>"

definition write_control :: "bytes \<Rightarrow> bool \<Rightarrow> gatt_output list" where
  "write_control control response_requested =
     (if response_requested then [Gatt_write_response Att_success] else []) @ [Gatt_decode control]"

definition write_client_configuration :: "bytes \<Rightarrow> bool \<Rightarrow> gatt_output list" where
  "write_client_configuration setting response_requested =
     (if response_requested then [Gatt_write_response Att_success] else [])"

definition reject_prepared :: "att_status \<Rightarrow> u16 \<Rightarrow> nat \<Rightarrow> gatt \<times> prepared_response" where
  "reject_prepared status handle offset =
     (discard_prepared, \<lparr>prep_status = status, prep_handle = handle, prep_offset = offset, prep_value = []\<rparr>)"

text \<open>The allocation of the shared buffer is a parameter.\<close>

definition prepare_write ::
    "(nat \<Rightarrow> bytes option) \<Rightarrow> u16 \<Rightarrow> nat \<Rightarrow> bytes \<Rightarrow> gatt \<Rightarrow> gatt \<times> prepared_response" where
  "prepare_write allocate handle offset chunk g =
     (if offset > prepared_capacity then reject_prepared Att_invalid_offset handle offset
      else if length chunk > prepared_capacity - offset then reject_prepared Att_invalid_length handle offset
      else if gatt_prepared g = None \<and> offset \<noteq> 0 then reject_prepared Att_invalid_offset handle offset
      else
        case (case gatt_prepared g of Some held \<Rightarrow> Some held | None \<Rightarrow> allocate prepared_capacity) of
          None \<Rightarrow> reject_prepared Att_allocation_failure handle offset
        | Some held \<Rightarrow>
            if gatt_prepared g = None \<and> length held \<noteq> prepared_capacity
            then reject_prepared Att_allocation_failure handle offset
            else
              (\<lparr>gatt_prepared = Some (take offset held @ chunk @ drop (offset + length chunk) held),
                gatt_recorded_length = gatt_recorded_length g + length chunk\<rparr>,
               \<lparr>prep_status = Att_success, prep_handle = handle, prep_offset = offset, prep_value = chunk\<rparr>))"

definition finish_prepared :: "bool \<Rightarrow> gatt \<Rightarrow> gatt \<times> gatt_output list \<times> att_status" where
  "finish_prepared execute g =
     (discard_prepared,
      (case gatt_prepared g of
         Some held \<Rightarrow> if execute then [Gatt_decode (take (min (gatt_recorded_length g) (length held)) held)] else []
       | None \<Rightarrow> []),
      Att_success)"

text \<open>Attempts of a notification: how the attempts end and when the link is gone is the environment's.\<close>

partial_function (option) notify ::
    "(nat \<Rightarrow> bool) \<Rightarrow> (nat \<Rightarrow> bool) \<Rightarrow> (nat \<Rightarrow> bool) \<Rightarrow> nat \<Rightarrow> bool option" where
  "notify connected_before accepted connected_after attempt =
     (if \<not> connected_before attempt then Some False
      else if accepted attempt then Some True
      else if \<not> connected_after attempt then Some False
      else notify connected_before accepted connected_after (Suc attempt))"

section \<open>What the target lets through\<close>

text \<open>Calls that would change the station's network.\<close>

definition provisions :: "ble_call \<Rightarrow> bool" where
  "provisions call \<longleftrightarrow> call = Ble_connect \<or> (\<exists>configuration. call = Ble_apply configuration)"

lemma blufi_event_callback_locked:
  assumes "\<not> pr_security_ready (fst s)"
  shows "\<not> pr_security_ready (fst (fst (blufi_event_callback env crypto callback s))) \<and>
    list_all (\<lambda>call. \<not> provisions call) (snd (blufi_event_callback env crypto callback s)) \<and>
    sta_password (pr_runtime (fst (fst (blufi_event_callback env crypto callback s)))) = sta_password (pr_runtime (fst s))"
  using assms
  by (cases callback)
     (auto simp: on_provisioning_def if_parameter_def client_connected_def client_disconnected_def connect_station_def
        disconnect_station_def request_status_def request_wifi_list_def set_operation_mode_def
        provisioning_associated_def station_associated_def receive_ssid_def receive_password_def
        provisioning_receive_error_def receive_custom_data_def provisions_def Let_def
        split: option.splits ble_scan_outcome.splits)

lemma target_step_locked:
  assumes "\<not> pr_security_ready (fst s)"
  shows "\<not> pr_security_ready (fst (fst (target_step env crypto event s))) \<and>
    list_all (\<lambda>call. \<not> provisions call) (snd (target_step env crypto event s)) \<and>
    sta_password (pr_runtime (fst (fst (target_step env crypto event s)))) = sta_password (pr_runtime (fst s))"
proof (cases event)
  case (Target_callback callback)
  then show ?thesis using blufi_event_callback_locked [OF assms] by simp
qed (use assms in \<open>auto simp: on_provisioning_def provisioning_station_disconnected_def provisioning_associated_def
    provisioning_address_ready_def station_associated_def station_address_ready_def provisions_def Let_def\<close>)


text \<open>
  With the notification that the portable session gives after the key exchange, the same requests do
  join the network.
\<close>

lemma negotiated_client_provisions:
  assumes "pr_connected p" "ssid \<noteq> []" "length ssid \<le> 31" "length password \<le> 63" "hd ssid \<noteq> 0"
  shows "\<exists>p' configuration.
    connect_station (fst (receive_password password (fst (receive_ssid ssid (fst (security_negotiated p)))))) =
      (p', [Ble_apply configuration, Ble_disconnect, Ble_connect]) \<and>
    cfg_ssid configuration = decode_escaped ssid \<and> cfg_password configuration = decode_escaped password"
proof -
  have "decode_escaped ssid \<noteq> []"
    using assms(2,5) by (cases ssid) simp_all
  then show ?thesis
    using assms by (simp add: security_negotiated_def receive_ssid_def receive_password_def connect_station_def
        station_config_def Let_def)
qed

text \<open>A BSSID message is not gated: it takes the network name and the address state from the runtime.\<close>

lemma unsecured_bssid_forgets_network:
  "let p' = fst (fst (blufi_event_callback env crypto (Cb_bssid (Some bssid)) (p, x))) in
   sta_ssid (pr_runtime p') = [] \<and> sta_state (pr_runtime p') = Sta_associated \<and>
   snd (request_status env p') = [Ble_status (status_report env Report_failure p')]"
  by (simp add: if_parameter_def on_provisioning_def provisioning_associated_def station_associated_def
      request_status_def Let_def)

section \<open>The key\<close>

lemma receive_negotiation_ready:
  assumes "receive_negotiation crypto message x = (x', outputs)" "sc_ready x'" "\<not> sc_ready x"
  shows "message ! 0 = 1 \<and> sc_parameters x' = take (length (sc_parameters x)) (drop 1 message) \<and>
    dh_failure (sy_derive crypto (sc_parameters x')) = Dh_none \<and>
    sy_md5 crypto (salted_secret (dh_secret (sy_derive crypto (sc_parameters x')))) = Some (sc_key x') \<and>
    Sec_response (dh_public_key (sy_derive crypto (sc_parameters x'))) \<in> set outputs"
  using assms
  by (auto simp: receive_negotiation_def receive_parameter_length_def receive_parameter_data_def Let_def
      split: if_splits option.splits)

lemma fresh_context_encrypts_nothing:
  "security_crypt crypto (fst (security_create x)) sequence input encrypt = None"
  by (simp add: security_crypt_def security_create_def)

section \<open>The advertisement\<close>

text \<open>The structures of an advertisement: length, type and content.\<close>

function advertised :: "bytes \<Rightarrow> (u8 \<times> bytes) list option" where
  "advertised [] = Some []"
| "advertised (n # content) =
     (if n = 0 \<or> length content < unat n then None
      else map_option (\<lambda>later. (hd content, take (unat n - 1) (tl content)) # later)
             (advertised (drop (unat n) content)))"
  by pat_completeness auto

termination by (relation "measure length") auto

lemma advertised_structure:
  assumes "unat n = Suc (length content)"
  shows "advertised (n # kind # content @ rest) = map_option (\<lambda>later. (kind, content) # later) (advertised rest)"
proof -
  have "n \<noteq> 0" using assms by auto
  with assms show ?thesis by simp
qed

lemma optional_structures:
  "advertised (0x02 # 0x0A # dbm # rest) = map_option (\<lambda>later. (0x0A, [dbm]) # later) (advertised rest)"
  "advertised (0x03 # 0x03 # 0xFF # 0xFF # rest) = map_option (\<lambda>later. (0x03, [0xFF, 0xFF]) # later) (advertised rest)"
  "advertised (0x01 # 0x02 # rest) = map_option (\<lambda>later. (0x02, []) # later) (advertised rest)"
  "advertised (0x05 # 0x12 # 0x06 # 0x00 # 0x10 # 0x00 # rest) =
     map_option (\<lambda>later. (0x12, [0x06, 0x00, 0x10, 0x00]) # later) (advertised rest)"
  using advertised_structure [where n = 2 and content = "[dbm]" and rest = rest]
    advertised_structure [where n = 3 and content = "[0xFF, 0xFF]" and rest = rest]
    advertised_structure [where n = 1 and content = "[]" and rest = rest]
    advertised_structure [where n = 5 and content = "[0x06, 0x00, 0x10, 0x00]" and rest = rest]
  by simp_all

text \<open>
  The advertisement is at most 31 octets, for every machine name, and it reads back as the flags,
  the complete device name of at most 26 characters and the optional fields that still fit.
\<close>

theorem advertisement_fits:
  "length (blufi_advertising_data (blufi_device_name machine_name) dbm) \<le> 31 \<and>
   (\<exists>optional. advertised (blufi_advertising_data (blufi_device_name machine_name) dbm) =
      Some ((0x01, [0x06]) # (0x09, octets (''MK_'' @ take 23 machine_name)) # optional))"
proof -
  obtain short where short: "take 23 machine_name = short" "length short \<le> 23" by simp
  define n where "n = length short"
  have small: "n \<le> 23" using short by (simp add: n_def)
  define optional :: bytes where "optional =
    (if n \<le> 20 then [0x02, 0x0A, dbm] else []) @
    (if n \<le> 16 then [0x03, 0x03, 0xFF, 0xFF] else if n = 17 then [0x01, 0x02] else []) @
    (if n \<le> 10 then [0x05, 0x12, 0x06, 0x00, 0x10, 0x00] else [])"
  have "blufi_device_name machine_name = ''MK_'' @ short" "blufi_device_name short = ''MK_'' @ short"
    using short by (simp_all add: blufi_device_name_def)
  then have data: "blufi_advertising_data (blufi_device_name machine_name) dbm =
      0x02 # 0x01 # [0x06] @ (of_nat (n + 4) # 0x09 # octets (''MK_'' @ short) @ optional)"
    by (simp add: blufi_advertising_data_def Let_def n_def optional_def)
  have "length (octets (''MK_'' @ short)) = n + 3"
    by (simp add: n_def)
  moreover have "n + length optional \<le> 23"
    using small by (auto simp: optional_def)
  ultimately have "length (blufi_advertising_data (blufi_device_name machine_name) dbm) \<le> 31"
    by (simp add: data)
  moreover have name: "unat (of_nat (n + 4) :: u8) = Suc (length (octets (''MK_'' @ short)))"
    using small by (simp add: unat_of_nat n_def del: of_nat_add)
  moreover have "\<exists>later. advertised optional = Some later"
    unfolding optional_def by (auto simp: optional_structures simp del: advertised.simps(2))
  ultimately show ?thesis
    using advertised_structure [where n = 2 and content = "[0x06]"] advertised_structure [OF name]
    unfolding short(1) data by (simp del: of_nat_add advertised.simps)
qed

section \<open>Prepared writes\<close>

text \<open>A value written in pieces, each at the offset where the one before it ended.\<close>

fun prepare_pieces ::
    "(nat \<Rightarrow> bytes option) \<Rightarrow> u16 \<Rightarrow> nat \<Rightarrow> bytes list \<Rightarrow> gatt \<Rightarrow> gatt \<times> prepared_response list" where
  "prepare_pieces allocate handle offset [] g = (g, [])"
| "prepare_pieces allocate handle offset (piece # pieces) g =
     (let (g, response) = prepare_write allocate handle offset piece g;
          (g, responses) = prepare_pieces allocate handle (offset + length piece) pieces g
      in (g, response # responses))"

definition holds_written :: "bytes \<Rightarrow> gatt \<Rightarrow> bool" where
  "holds_written written g \<longleftrightarrow> gatt_recorded_length g = length written \<and>
     (case gatt_prepared g of
        None \<Rightarrow> written = []
      | Some held \<Rightarrow> length held = prepared_capacity \<and> take (length written) held = written)"

lemma prepare_write_holds:
  assumes "holds_written written g" "length written + length piece \<le> prepared_capacity"
    "\<And>n. \<exists>held. allocate n = Some held \<and> length held = n"
  shows "\<exists>g'. prepare_write allocate handle (length written) piece g =
      (g', \<lparr>prep_status = Att_success, prep_handle = handle, prep_offset = length written, prep_value = piece\<rparr>) \<and>
    holds_written (written @ piece) g' \<and> gatt_prepared g' \<noteq> None"
proof (cases "gatt_prepared g")
  case None
  obtain held where "allocate prepared_capacity = Some held" "length held = prepared_capacity"
    using assms(3) by blast
  with None assms(1,2) show ?thesis
    by (simp add: prepare_write_def holds_written_def)
next
  case (Some held)
  from assms(2) have "length piece \<le> prepared_capacity - length written" "length written \<le> prepared_capacity"
    by simp_all
  with Some assms(1,2) show ?thesis
    by (simp add: prepare_write_def holds_written_def)
qed

lemma prepare_pieces_hold:
  assumes "holds_written written g" "length written + length (concat pieces) \<le> prepared_capacity"
    "\<And>n. \<exists>held. allocate n = Some held \<and> length held = n"
  shows "\<exists>g' responses. prepare_pieces allocate handle (length written) pieces g = (g', responses) \<and>
    list_all (\<lambda>r. prep_status r = Att_success) responses \<and> map prep_value responses = pieces \<and>
    holds_written (written @ concat pieces) g' \<and> (pieces \<noteq> [] \<longrightarrow> gatt_prepared g' \<noteq> None)"
  using assms(1,2)
proof (induction pieces arbitrary: written g)
  case (Cons piece pieces)
  from Cons.prems have "length written + length piece \<le> prepared_capacity" by simp
  from prepare_write_holds [OF Cons.prems(1) this assms(3)]
  obtain g1 where one: "prepare_write allocate handle (length written) piece g =
      (g1, \<lparr>prep_status = Att_success, prep_handle = handle, prep_offset = length written, prep_value = piece\<rparr>)"
    "holds_written (written @ piece) g1" "gatt_prepared g1 \<noteq> None" by blast
  from Cons.IH [OF one(2)] Cons.prems(2)
  obtain g' responses where
    "prepare_pieces allocate handle (length (written @ piece)) pieces g1 = (g', responses)"
    "list_all (\<lambda>r. prep_status r = Att_success) responses" "map prep_value responses = pieces"
    "holds_written ((written @ piece) @ concat pieces) g'" "pieces \<noteq> [] \<longrightarrow> gatt_prepared g' \<noteq> None" by auto
  with one show ?case by (cases "pieces = []") auto
qed simp

text \<open>
  A value of at most 1024 octets that arrives in consecutive prepared writes is acknowledged piece
  by piece and, when the client executes it, decoded once as the whole value; the buffer is discarded.
\<close>

theorem prepared_value_reassembled:
  assumes "length (concat pieces) \<le> prepared_capacity" "pieces \<noteq> []"
    "\<And>n. \<exists>held. allocate n = Some held \<and> length held = n"
  shows "let (g, responses) = prepare_pieces allocate handle 0 pieces discard_prepared in
    list_all (\<lambda>r. prep_status r = Att_success) responses \<and> map prep_value responses = pieces \<and>
    finish_prepared True g = (discard_prepared, [Gatt_decode (concat pieces)], Att_success)"
proof -
  have "holds_written [] discard_prepared"
    by (simp add: holds_written_def discard_prepared_def)
  from prepare_pieces_hold [OF this _ assms(3), of pieces handle] assms(1,2)
  show ?thesis
    by (auto simp: finish_prepared_def holds_written_def prepared_capacity_def split: option.splits)
qed

theorem prepared_value_reassembled_witness:
  "let (g, responses) = prepare_pieces (\<lambda>n. Some (replicate n 0)) 42 0 [[1, 2], [3]] discard_prepared in
    list_all (\<lambda>r. prep_status r = Att_success) responses \<and> map prep_value responses = [[1, 2], [3]] \<and>
    finish_prepared True g = (discard_prepared, [Gatt_decode (concat [[1, 2], [3]])], Att_success)"
  by (rule prepared_value_reassembled) (simp_all add: prepared_capacity_def)

text \<open>A notification is delivered as soon as one attempt succeeds while the link stays up.\<close>

lemma notify_delivers:
  assumes "accepted (attempt + n)" "\<And>m. m < n \<Longrightarrow> \<not> accepted (attempt + m)" "\<And>m. connected m"
  shows "notify connected accepted connected attempt = Some True"
  using assms
proof (induction n arbitrary: attempt)
  case 0
  then show ?case by (subst notify.simps) simp
next
  case (Suc n)
  have "\<not> accepted attempt" using Suc.prems(2) [of 0] by simp
  moreover have "notify connected accepted connected (Suc attempt) = Some True"
    by (rule Suc.IH) (use Suc.prems(1,3) Suc.prems(2) [of "Suc _"] in simp_all)
  ultimately show ?case using Suc.prems(3) [of attempt] by (subst notify.simps) simp
qed

end
