(* ===== verification/Json_Input.thy ===== *)
theory Json_Input
  imports Complex_Main "HOL-Library.Log_Nat" Number_Text Transfer_Paths Text_Protocol
begin

text \<open>
  JSON request bodies, \<open>core/src/configuration/json_input.cpp\<close>. The parser's position is the rest of
  the text. A number is the rational value of the double that \<open>strtod\<close> returns.
\<close>

section \<open>Strings and white space\<close>

definition json_space :: "char \<Rightarrow> bool" where
  "json_space c \<longleftrightarrow> ascii_whitespace (octet c)"

definition skip_whitespace :: "string \<Rightarrow> string" where
  "skip_whitespace s = dropWhile json_space s"

definition consume :: "char \<Rightarrow> string \<Rightarrow> string option" where
  "consume expected s = (case s of [] \<Rightarrow> None | c # cs \<Rightarrow> if c = expected then Some cs else None)"

definition unescape :: "char \<Rightarrow> char option" where
  "unescape c =
     (if c = CHR 0x22 then Some (CHR 0x22)
      else if c = CHR 0x5C then Some (CHR 0x5C)
      else if c = CHR ''/'' then Some (CHR ''/'')
      else if c = CHR ''b'' then Some (CHR 0x08)
      else if c = CHR ''f'' then Some (CHR 0x0C)
      else if c = CHR ''n'' then Some (CHR 0x0A)
      else if c = CHR ''r'' then Some (CHR 0x0D)
      else if c = CHR ''t'' then Some (CHR 0x09)
      else None)"

fun string_body :: "string \<Rightarrow> (string \<times> string) option" where
  "string_body [] = None"
| "string_body (c # cs) =
     (if c = CHR 0x22 then Some ([], cs)
      else if c = CHR 0x5C
      then (case cs of
              [] \<Rightarrow> None
            | e # es \<Rightarrow>
                (case unescape e of
                   None \<Rightarrow> None
                 | Some u \<Rightarrow> map_option (\<lambda>(body, rest). (u # body, rest)) (string_body es)))
      else if octet c < 0x20 then None
      else map_option (\<lambda>(body, rest). (c # body, rest)) (string_body cs))"

definition parse_json_string :: "string \<Rightarrow> (string \<times> string) option" where
  "parse_json_string s =
     (case consume (CHR 0x22) s of None \<Rightarrow> None | Some rest \<Rightarrow> string_body rest)"

section \<open>Numbers\<close>

definition split_digits :: "string \<Rightarrow> string \<times> string" where
  "split_digits s = (takeWhile is_digit s, dropWhile is_digit s)"

text \<open>An optional sign.\<close>

definition split_sign :: "string \<Rightarrow> bool \<times> string" where
  "split_sign s =
     (case s of
        [] \<Rightarrow> (False, s)
      | c # cs \<Rightarrow> if c = CHR ''-'' then (True, cs) else if c = CHR ''+'' then (False, cs) else (False, s))"

text \<open>
  The double nearest to a decimal magnitude, ties to even: its last place is \<open>2 powi (k - 52)\<close> for a
  magnitude from \<open>2 powi k\<close> to twice that, and not below \<open>2 powi (- 1074)\<close>. \<open>HUGE_VAL\<close> is \<open>2 ^ 1024\<close> here.
\<close>

definition floor_log2 :: "rat \<Rightarrow> int" where
  "floor_log2 m =
     (let (p, q) = quotient_of m; k = int (floorlog 2 (nat p)) - int (floorlog 2 (nat q))
      in if 2 powi k \<le> m then k else k - 1)"

definition nearest_even :: "rat \<Rightarrow> int" where
  "nearest_even x =
     (let below = \<lfloor>x\<rfloor>; rest = x - of_int below
      in if rest < 1 / 2 \<or> rest = 1 / 2 \<and> even below then below else below + 1)"

definition nearest_double :: "rat \<Rightarrow> rat" where
  "nearest_double m =
     (if m \<le> 0 then 0
      else let unit = 2 powi max (-1074) (floor_log2 m - 52)
           in min (2 ^ 1024) (of_int (nearest_even (m / unit)) * unit))"

text \<open>\<open>strtod\<close> on a text of digits, signs, points and exponent letters: the value when all of it is used.\<close>

definition decimal_exponent :: "string \<Rightarrow> int option" where
  "decimal_exponent s =
     (case s of
        [] \<Rightarrow> Some 0
      | c # cs \<Rightarrow>
          if c \<noteq> CHR ''e'' \<and> c \<noteq> CHR ''E'' then None
          else
            let (negative, rest) = split_sign cs; (digits, rest) = split_digits rest
            in if digits = [] \<or> rest \<noteq> [] then None
               else Some (if negative then - int (decimal_value digits) else int (decimal_value digits)))"

definition strtod :: "string \<Rightarrow> rat option" where
  "strtod s =
     (let (negative, rest) = split_sign s;
          (whole, rest) = split_digits rest;
          (fraction, rest) =
            (case rest of
               [] \<Rightarrow> ([], [])
             | c # cs \<Rightarrow> if c = CHR ''.'' then split_digits cs else ([], rest))
      in if whole = [] \<and> fraction = [] then None
         else case decimal_exponent rest of
             None \<Rightarrow> None
           | Some e \<Rightarrow>
               let magnitude = of_nat (decimal_value (whole @ fraction)) / 10 ^ length fraction *
                     (if e \<ge> 0 then 10 ^ nat e else 1 / 10 ^ nat (- e))
               in Some (if negative then - nearest_double magnitude else nearest_double magnitude))"

definition number_character :: "char \<Rightarrow> bool" where
  "number_character c \<longleftrightarrow>
     is_digit c \<or> c = CHR ''-'' \<or> c = CHR ''+'' \<or> c = CHR ''.'' \<or> c = CHR ''e'' \<or> c = CHR ''E''"

definition parse_number :: "string \<Rightarrow> (rat \<times> string) option" where
  "parse_number s =
     (let number = takeWhile number_character s in
      if number = [] then None
      else map_option (\<lambda>found. (found, dropWhile number_character s)) (strtod number))"

section \<open>Values and objects\<close>

fun skip_body :: "char \<Rightarrow> char \<Rightarrow> nat \<Rightarrow> bool \<Rightarrow> bool \<Rightarrow> string \<Rightarrow> string option" where
  "skip_body open_c close_c 0 in_string escaped s = (if \<not> in_string \<and> \<not> escaped then Some s else None)"
| "skip_body open_c close_c (Suc depth) in_string escaped [] = None"
| "skip_body open_c close_c (Suc depth) in_string escaped (c # cs) =
     (if in_string
      then (if escaped then skip_body open_c close_c (Suc depth) True False cs
            else if c = CHR 0x5C then skip_body open_c close_c (Suc depth) True True cs
            else if c = CHR 0x22 then skip_body open_c close_c (Suc depth) False False cs
            else skip_body open_c close_c (Suc depth) True False cs)
      else if c = CHR 0x22 then skip_body open_c close_c (Suc depth) True escaped cs
      else if c = open_c then skip_body open_c close_c (Suc (Suc depth)) False escaped cs
      else if c = close_c then skip_body open_c close_c depth False escaped cs
      else skip_body open_c close_c (Suc depth) False escaped cs)"

definition skip_composite :: "char \<Rightarrow> char \<Rightarrow> string \<Rightarrow> string option" where
  "skip_composite open_c close_c s =
     (case consume open_c s of None \<Rightarrow> None | Some rest \<Rightarrow> skip_body open_c close_c 1 False False rest)"

record json_member =
  member_name :: string
  member_number :: "rat option"
  member_string :: "string option"

text \<open>A value fills the number or the string of its member.\<close>

definition parse_value :: "string \<Rightarrow> json_member \<Rightarrow> (json_member \<times> string) option" where
  "parse_value s member =
     (let s = skip_whitespace s;
          skipped = map_option (\<lambda>rest. (member, rest))
      in case s of
           [] \<Rightarrow> None
         | c # _ \<Rightarrow>
             if c = CHR 0x22
             then map_option (\<lambda>(found, rest). (member\<lparr>member_string := Some found\<rparr>, rest)) (parse_json_string s)
             else if c = CHR 0x7B then skipped (skip_composite (CHR 0x7B) (CHR 0x7D) s)
             else if c = CHR ''['' then skipped (skip_composite (CHR ''['') (CHR '']'') s)
             else if take 4 s = ''true'' then Some (member, drop 4 s)
             else if take 5 s = ''false'' then Some (member, drop 5 s)
             else if take 4 s = ''null'' then Some (member, drop 4 s)
             else map_option (\<lambda>(found, rest). (member\<lparr>member_number := Some found\<rparr>, rest)) (parse_number s))"

lemma string_body_shorter: "string_body s = Some (body, rest) \<Longrightarrow> length rest < length s"
  by (induction s arbitrary: body rest rule: string_body.induct) (fastforce split: if_splits list.splits option.splits)+

lemma parse_json_string_shorter: "parse_json_string s = Some (body, rest) \<Longrightarrow> length rest < length s"
  by (auto simp: parse_json_string_def consume_def dest!: string_body_shorter split: list.splits option.splits if_splits)

lemma skip_body_shorter: "skip_body open_c close_c depth in_string escaped s = Some rest \<Longrightarrow> length rest \<le> length s"
  by (induction open_c close_c depth in_string escaped s rule: skip_body.induct) (auto split: if_splits)

lemma skip_composite_shorter: "skip_composite open_c close_c s = Some rest \<Longrightarrow> length rest \<le> length s"
  by (auto simp: skip_composite_def consume_def dest!: skip_body_shorter split: list.splits option.splits if_splits)

lemma parse_number_shorter: "parse_number s = Some (found, rest) \<Longrightarrow> length rest \<le> length s"
  by (auto simp: parse_number_def Let_def length_dropWhile_le split: if_splits)

lemma skip_whitespace_shorter: "length (skip_whitespace s) \<le> length s"
  by (simp add: skip_whitespace_def length_dropWhile_le)

lemma parse_value_shorter:
  assumes "parse_value s member = Some (member', rest)"
  shows "length rest \<le> length s"
proof -
  have "length rest \<le> length (skip_whitespace s)"
    using assms
    by (auto simp: parse_value_def Let_def
        dest!: parse_json_string_shorter skip_composite_shorter parse_number_shorter
        split: list.splits if_splits)
  with skip_whitespace_shorter show ?thesis by (rule order_trans [rotated])
qed

section \<open>Documents\<close>

function parse_members :: "string \<Rightarrow> json_member list \<Rightarrow> json_member list option" where
  "parse_members s members =
     (case parse_json_string s of
        None \<Rightarrow> None
      | Some (member, rest) \<Rightarrow>
          (case consume (CHR '':'') (skip_whitespace rest) of
             None \<Rightarrow> None
           | Some rest \<Rightarrow>
               (case parse_value rest \<lparr>member_name = member, member_number = None, member_string = None\<rparr> of
                  None \<Rightarrow> None
                | Some (parsed, rest) \<Rightarrow>
                    (case consume (CHR 0x7D) (skip_whitespace rest) of
                       Some _ \<Rightarrow> Some (members @ [parsed])
                     | None \<Rightarrow>
                         (case consume (CHR '','') (skip_whitespace rest) of
                            None \<Rightarrow> None
                          | Some rest \<Rightarrow> parse_members (skip_whitespace rest) (members @ [parsed]))))))"
  by pat_completeness auto

lemma consume_shorter: "consume c s = Some rest \<Longrightarrow> length rest < length s"
  by (auto simp: consume_def split: list.splits if_splits)

lemma consume_skipped_shorter: "consume c (skip_whitespace s) = Some rest \<Longrightarrow> length rest < length s"
  using consume_shorter skip_whitespace_shorter less_le_trans by blast

termination parse_members
  by (relation "measure (\<lambda>(s, _). length s)")
    (auto dest!: parse_json_string_shorter consume_skipped_shorter parse_value_shorter
       intro: le_less_trans [OF skip_whitespace_shorter])

definition parse_object :: "string \<Rightarrow> json_member list option" where
  "parse_object s =
     (case consume (CHR 0x7B) (skip_whitespace s) of
        None \<Rightarrow> None
      | Some rest \<Rightarrow>
          (case consume (CHR 0x7D) (skip_whitespace rest) of
             Some _ \<Rightarrow> Some []
           | None \<Rightarrow> parse_members (skip_whitespace rest) []))"

definition parse_json_document :: "string \<Rightarrow> json_member list option" where
  "parse_json_document s =
     (case skip_whitespace s of
        [] \<Rightarrow> None
      | c # cs \<Rightarrow>
          if c = CHR 0x7B then parse_object (c # cs)
          else if parse_value (c # cs) \<lparr>member_name = [], member_number = None, member_string = None\<rparr> = None
          then None else Some [])"

definition parse_json_prefix :: "bytes \<Rightarrow> json_member list option" where
  "parse_json_prefix input = parse_json_document (chars (takeWhile (\<lambda>b. b \<noteq> 0) input))"

definition member_names_equal :: "string \<Rightarrow> string \<Rightarrow> bool" where
  "member_names_equal left right \<longleftrightarrow>
     length left = length right \<and> map (ascii_lower \<circ> octet) left = map (ascii_lower \<circ> octet) right"

fun find_json_number :: "json_member list \<Rightarrow> string \<Rightarrow> rat option" where
  "find_json_number [] wanted = None"
| "find_json_number (m # ms) wanted =
     (if member_names_equal (member_name m) wanted then member_number m else find_json_number ms wanted)"

fun find_json_string :: "json_member list \<Rightarrow> string \<Rightarrow> string option" where
  "find_json_string [] wanted = None"
| "find_json_string (m # ms) wanted =
     (if member_names_equal (member_name m) wanted then member_string m else find_json_string ms wanted)"

text \<open>\<open>std::trunc\<close>, for the callers that want a whole number.\<close>

definition truncate_toward_zero :: "rat \<Rightarrow> int" where
  "truncate_toward_zero x = (if x \<ge> 0 then \<lfloor>x\<rfloor> else \<lceil>x\<rceil>)"

section \<open>Documents written and read\<close>

definition escape_char :: "char \<Rightarrow> string" where
  "escape_char c =
     (if c = CHR 0x22 \<or> c = CHR 0x5C then [CHR 0x5C, c]
      else if c = CHR 0x08 then [CHR 0x5C, CHR ''b'']
      else if c = CHR 0x0C then [CHR 0x5C, CHR ''f'']
      else if c = CHR 0x0A then [CHR 0x5C, CHR ''n'']
      else if c = CHR 0x0D then [CHR 0x5C, CHR ''r'']
      else if c = CHR 0x09 then [CHR 0x5C, CHR ''t'']
      else [c])"

definition quoted :: "string \<Rightarrow> string" where
  "quoted s = CHR 0x22 # concat (map escape_char s) @ [CHR 0x22]"

text \<open>Characters that have an escape or need none.\<close>

definition writable :: "char \<Rightarrow> bool" where
  "writable c \<longleftrightarrow> 0x20 \<le> octet c \<or> octet c \<in> {8, 9, 10, 12, 13}"

datatype json_scalar = Json_text string | Json_number nat

fun scalar_text :: "json_scalar \<Rightarrow> string" where
  "scalar_text (Json_text s) = quoted s"
| "scalar_text (Json_number n) = decimal n"

fun scalar_writable :: "json_scalar \<Rightarrow> bool" where
  "scalar_writable (Json_text s) \<longleftrightarrow> list_all writable s"
| "scalar_writable (Json_number n) \<longleftrightarrow> n < 2 ^ 53"

fun scalar_member :: "string \<Rightarrow> json_scalar \<Rightarrow> json_member" where
  "scalar_member k (Json_text s) = \<lparr>member_name = k, member_number = None, member_string = Some s\<rparr>"
| "scalar_member k (Json_number n) = \<lparr>member_name = k, member_number = Some (of_nat n), member_string = None\<rparr>"

fun members_text :: "(string \<times> json_scalar) list \<Rightarrow> string" where
  "members_text [] = []"
| "members_text [(k, v)] = quoted k @ '':'' @ scalar_text v"
| "members_text ((k, v) # m # ms) = quoted k @ '':'' @ scalar_text v @ '','' @ members_text (m # ms)"

definition document_text :: "(string \<times> json_scalar) list \<Rightarrow> string" where
  "document_text ms = CHR 0x7B # members_text ms @ [CHR 0x7D]"

lemma control_octets:
  "octet (CHR 0x08) = 8" "octet (CHR 0x09) = 9" "octet (CHR 0x0A) = 10" "octet (CHR 0x0C) = 12" "octet (CHR 0x0D) = 13"
  by (simp_all add: octet_def)

lemma string_body_plain:
  assumes "c \<noteq> CHR 0x22" "c \<noteq> CHR 0x5C" "0x20 \<le> octet c"
  shows "string_body (c # cs) = map_option (\<lambda>(body, rest). (c # body, rest)) (string_body cs)"
  using assms by (simp add: leD)

lemma string_body_escape:
  assumes "unescape e = Some u"
  shows "string_body (CHR 0x5C # e # cs) = map_option (\<lambda>(body, rest). (u # body, rest)) (string_body cs)"
  using assms by simp

lemma unescape_values:
  "unescape (CHR 0x22) = Some (CHR 0x22)" "unescape (CHR 0x5C) = Some (CHR 0x5C)"
  "unescape (CHR ''b'') = Some (CHR 0x08)" "unescape (CHR ''f'') = Some (CHR 0x0C)"
  "unescape (CHR ''n'') = Some (CHR 0x0A)" "unescape (CHR ''r'') = Some (CHR 0x0D)"
  "unescape (CHR ''t'') = Some (CHR 0x09)"
  by (simp_all add: unescape_def)

lemma writable_cases:
  assumes "writable c"
  obtains (literal) "escape_char c = [c]" "c \<noteq> CHR 0x22" "c \<noteq> CHR 0x5C" "0x20 \<le> octet c"
  | (escaped) e where "escape_char c = [CHR 0x5C, e]" "unescape e = Some c"
proof (cases "0x20 \<le> octet c")
  case True
  then have "c \<noteq> CHR 0x08" "c \<noteq> CHR 0x0C" "c \<noteq> CHR 0x0A" "c \<noteq> CHR 0x0D" "c \<noteq> CHR 0x09"
    by (auto simp: control_octets)
  then consider "c = CHR 0x22" | "c = CHR 0x5C" | "c \<noteq> CHR 0x22" "c \<noteq> CHR 0x5C" "escape_char c = [c]"
    unfolding escape_char_def by fastforce
  then show ?thesis
  proof cases
    case 1
    then show ?thesis using escaped [of "CHR 0x22"] by (simp add: escape_char_def unescape_def)
  next
    case 2
    then show ?thesis using escaped [of "CHR 0x5C"] by (simp add: escape_char_def unescape_def)
  next
    case 3
    then show ?thesis using True by (intro literal)
  qed
next
  case False
  with assms have "octet c \<in> {octet (CHR 0x08), octet (CHR 0x09), octet (CHR 0x0A), octet (CHR 0x0C), octet (CHR 0x0D)}"
    by (auto simp: writable_def control_octets)
  then consider "c = CHR 0x08" | "c = CHR 0x09" | "c = CHR 0x0A" | "c = CHR 0x0C" | "c = CHR 0x0D"
    unfolding insert_iff octet_eq_iff by blast
  then show ?thesis
    by cases (rule escaped, (simp add: escape_char_def; fail), simp add: unescape_values)+
qed

lemma string_body_escaped:
  assumes "writable c"
  shows "string_body (escape_char c @ cs) = map_option (\<lambda>(body, rest). (c # body, rest)) (string_body cs)"
  using assms
proof (cases rule: writable_cases)
  case literal
  then show ?thesis using string_body_plain by simp
next
  case (escaped e)
  then show ?thesis by (simp del: string_body.simps add: string_body_escape)
qed

lemma parse_quoted:
  "list_all writable s \<Longrightarrow> parse_json_string (quoted s @ rest) = Some (s, rest)"
proof -
  assume "list_all writable s"
  then have "string_body (concat (map escape_char s) @ CHR 0x22 # rest) = Some (s, rest)"
    by (induction s) (simp_all add: string_body_escaped)
  then show ?thesis by (simp add: parse_json_string_def consume_def quoted_def)
qed

lemma floor_log2_le:
  assumes "n < 2 ^ 53"
  shows "floor_log2 (of_nat n) \<le> 52"
proof -
  have "floorlog 2 n \<le> 53"
    using floorlog_leI [OF assms] by simp
  moreover have "floorlog 2 1 = 1"
    by (simp add: compute_floorlog floorlog_eq_zero_iff)
  moreover have "quotient_of (of_nat n) = (int n, 1)"
    using quotient_of_int [of "int n"] by simp
  ultimately show ?thesis by (simp add: floor_log2_def Let_def)
qed

lemma nearest_even_int [simp]: "nearest_even (of_int i) = i"
  by (simp add: nearest_even_def)

lemma nearest_double_exact:
  assumes "n < 2 ^ 53"
  shows "nearest_double (of_nat n) = of_nat n"
proof (cases "n = 0")
  case False
  define k where "k = nat (- max (-1074) (floor_log2 (of_nat n) - 52))"
  have k: "max (-1074) (floor_log2 (of_nat n) - 52) = - int k"
    using floor_log2_le [OF assms] by (simp add: k_def)
  have "of_nat n / (2 powi - int k) = (of_int (int n * 2 ^ k) :: rat)"
    by (simp add: power_int_minus field_simps)
  then have nearest: "nearest_even (of_nat n / 2 powi - int k) = int n * 2 ^ k"
    by (simp only: nearest_even_int)
  have "(2::nat) ^ 53 \<le> 2 ^ 1024"
    by (rule power_increasing) simp_all
  with assms have "n \<le> 2 ^ 1024" by (rule less_imp_le [OF less_le_trans])
  then have "(of_nat n :: rat) \<le> of_nat (2 ^ 1024)"
    by (simp only: of_nat_le_iff)
  then have bound: "(of_nat n :: rat) \<le> 2 ^ 1024"
    by (simp only: of_nat_power of_nat_numeral)
  have "of_int (int n * 2 ^ k) * 2 powi - int k = (of_nat n :: rat)"
    by (simp add: power_int_minus field_simps)
  with bound have "min (2 ^ 1024) (of_int (int n * 2 ^ k) * 2 powi - int k) = (of_nat n :: rat)"
    by (simp only: min_absorb2)
  with False show ?thesis
    by (simp only: nearest_double_def k nearest Let_def) simp
qed (simp add: nearest_double_def)

text \<open>Reading a scalar leaves the text after it, which does not continue a number.\<close>

lemma takeWhile_all_stop: "list_all P xs \<Longrightarrow> (\<forall>y ys. rest = y # ys \<longrightarrow> \<not> P y) \<Longrightarrow> takeWhile P (xs @ rest) = xs"
  by (cases rest) (simp_all add: takeWhile_append2 list_all_iff)

lemma dropWhile_all_stop: "list_all P xs \<Longrightarrow> (\<forall>y ys. rest = y # ys \<longrightarrow> \<not> P y) \<Longrightarrow> dropWhile P (xs @ rest) = rest"
  by (cases rest) (simp_all add: list_all_iff)

lemma decimal_all_digits: "list_all is_digit (decimal n)"
  using decimal_digits by (simp add: list_all_iff)

lemma split_decimal: "split_digits (decimal n) = (decimal n, [])"
  using decimal_all_digits [of n] by (simp add: split_digits_def list_all_iff)

lemma digit_first: "\<exists>c cs. decimal n = c # cs \<and> is_digit c"
  using decimal_all_digits [of n] decimal_not_Nil [of n] by (cases "decimal n") auto

lemma digit_not_sign: "is_digit c \<Longrightarrow> c \<noteq> CHR ''-'' \<and> c \<noteq> CHR ''+''"
  by (auto simp: is_digit_def)

lemma strtod_decimal:
  assumes "n < 2 ^ 53"
  shows "strtod (decimal n) = Some (of_nat n)"
proof -
  have "split_sign (decimal n) = (False, decimal n)"
    using digit_first [of n] digit_not_sign by (auto simp: split_sign_def)
  then show ?thesis
    by (simp add: strtod_def split_decimal decimal_exponent_def nearest_double_exact [OF assms])
qed

lemma parse_number_decimal:
  assumes "n < 2 ^ 53" "\<forall>y ys. rest = y # ys \<longrightarrow> \<not> number_character y"
  shows "parse_number (decimal n @ rest) = Some (of_nat n, rest)"
proof -
  have "list_all number_character (decimal n)"
    using decimal_all_digits [of n] by (auto simp: list_all_iff number_character_def)
  with assms show ?thesis
    by (simp add: parse_number_def Let_def takeWhile_all_stop dropWhile_all_stop strtod_decimal)
qed

lemma skip_whitespace_stop: "\<not> json_space c \<Longrightarrow> skip_whitespace (c # cs) = c # cs"
  by (simp add: skip_whitespace_def)

lemma punctuation_not_space:
  "\<not> json_space (CHR 0x22)" "\<not> json_space (CHR '':'')" "\<not> json_space (CHR '','')"
  "\<not> json_space (CHR 0x7B)" "\<not> json_space (CHR 0x7D)"
  by (simp_all add: json_space_def ascii_whitespace_def octet_def)

lemma octet_code: "unat (octet c) = of_char c"
  by (simp add: octet_def unat_of_nat)

lemma digit_not_space: "is_digit c \<Longrightarrow> \<not> json_space c"
proof -
  assume digit: "is_digit c"
  have "octet c \<noteq> octet CHR '' ''" "\<not> octet c \<le> 13"
    using digit octet_code [of c] by (auto simp: is_digit_def word_le_nat_alt)
  then show ?thesis by (simp add: json_space_def ascii_whitespace_def)
qed

lemma digit_other:
  "is_digit c \<Longrightarrow> c \<notin> {CHR 0x22, CHR 0x7B, CHR ''['', CHR ''t'', CHR ''f'', CHR ''n''}"
  by (auto simp: is_digit_def)

lemma parse_value_scalar:
  assumes "scalar_writable v" "\<forall>y ys. rest = y # ys \<longrightarrow> \<not> number_character y"
  shows "parse_value (scalar_text v @ rest) \<lparr>member_name = k, member_number = None, member_string = None\<rparr> =
    Some (scalar_member k v, rest)"
proof (cases v)
  case (Json_text s)
  with assms(1) have "parse_json_string (quoted s @ rest) = Some (s, rest)"
    by (simp add: parse_quoted)
  then show ?thesis
    by (simp add: Json_text quoted_def parse_value_def skip_whitespace_stop punctuation_not_space)
next
  case (Json_number n)
  obtain c cs where digits: "decimal n = c # cs" "is_digit c"
    using digit_first by blast
  from Json_number assms have "parse_number (decimal n @ rest) = Some (of_nat n, rest)"
    by (simp add: parse_number_decimal)
  then show ?thesis
    using digit_other [OF digits(2)] digits
    by (simp add: Json_number parse_value_def skip_whitespace_stop digit_not_space)
qed

lemma parse_members_text:
  assumes "ms \<noteq> []" "\<forall>(k, v) \<in> set ms. list_all writable k \<and> scalar_writable v"
  shows "parse_members (members_text ms @ CHR 0x7D # rest) found = Some (found @ map (\<lambda>(k, v). scalar_member k v) ms)"
  using assms
proof (induction ms arbitrary: found rule: members_text.induct)
  case (2 k v)
  then show ?case
    using parse_value_scalar [of v "CHR 0x7D # rest" k]
    by (subst parse_members.simps)
      (simp add: parse_quoted consume_def skip_whitespace_stop punctuation_not_space number_character_def is_digit_def)
next
  case (3 k v m ms)
  have "\<exists>cs. members_text (m # ms) = CHR 0x22 # cs" for m ms
    by (cases "(m # ms)" rule: members_text.cases) (simp_all add: quoted_def)
  then obtain cs where next_member: "members_text (m # ms) = CHR 0x22 # cs" by blast
  have "parse_members (members_text (m # ms) @ CHR 0x7D # rest) (found @ [scalar_member k v]) =
      Some (found @ map (\<lambda>(k, v). scalar_member k v) ((k, v) # m # ms))"
    using "3.IH" [of "found @ [scalar_member k v]"] "3.prems" by simp
  then show ?case
    using parse_value_scalar [of v "CHR '','' # CHR 0x22 # cs @ CHR 0x7D # rest" k] "3.prems"
    by (subst parse_members.simps)
      (simp add: parse_quoted consume_def skip_whitespace_stop punctuation_not_space number_character_def is_digit_def
        next_member)
qed simp

lemma escape_char_no_nul: "writable c \<Longrightarrow> c' \<in> set (escape_char c) \<Longrightarrow> octet c' \<noteq> 0"
  by (auto simp: escape_char_def writable_def octet_def split: if_splits)

lemma quoted_no_nul: "list_all writable s \<Longrightarrow> c \<in> set (quoted s) \<Longrightarrow> octet c \<noteq> 0"
  using escape_char_no_nul by (auto simp: quoted_def list_all_iff octet_def)

lemma decimal_no_nul: "c \<in> set (decimal n) \<Longrightarrow> octet c \<noteq> 0"
  using decimal_digits [of n] by (auto simp: is_digit_def simp flip: octet_code)

lemma members_no_nul:
  assumes "\<forall>(k, v) \<in> set ms. list_all writable k \<and> scalar_writable v" "c \<in> set (members_text ms)"
  shows "octet c \<noteq> 0"
proof -
  have scalar: "scalar_writable v \<Longrightarrow> c \<in> set (scalar_text v) \<Longrightarrow> octet c \<noteq> 0" for v
    using quoted_no_nul decimal_no_nul by (cases v) auto
  have "octet CHR '':'' \<noteq> 0" "octet CHR '','' \<noteq> 0"
    by (simp_all add: octet_def)
  with assms show ?thesis
    by (induction ms rule: members_text.induct) (auto dest: scalar quoted_no_nul)
qed

lemma json_body:
  assumes "\<forall>(k, v) \<in> set ms. list_all writable k \<and> scalar_writable v"
  shows "parse_json_prefix (octets (document_text ms) @ trailing) = Some (map (\<lambda>(k, v). scalar_member k v) ms)"
proof -
  have parsed: "parse_json_document (document_text ms @ junk) = Some (map (\<lambda>(k, v). scalar_member k v) ms)" for junk
  proof (cases "ms = []")
    case True
    then show ?thesis
      by (simp add: parse_json_document_def parse_object_def document_text_def consume_def skip_whitespace_stop punctuation_not_space)
  next
    case False
    then obtain cs where "members_text ms = CHR 0x22 # cs"
      by (cases ms rule: members_text.cases) (simp_all add: quoted_def)
    then show ?thesis
      using parse_members_text [OF False assms, of junk "[]"]
      by (simp add: parse_json_document_def parse_object_def document_text_def consume_def skip_whitespace_stop punctuation_not_space)
  qed
  have "octet (CHR 0x7B) \<noteq> 0" "octet (CHR 0x7D) \<noteq> 0"
    by (simp_all add: octet_def)
  then have "takeWhile (\<lambda>b. b \<noteq> 0) (octets (document_text ms) @ trailing) =
      octets (document_text ms) @ takeWhile (\<lambda>b. b \<noteq> 0) trailing"
    using members_no_nul [OF assms] by (intro takeWhile_append2) (auto simp: document_text_def)
  then show ?thesis
    by (simp add: parse_json_prefix_def parsed del: map_map)
qed

text \<open>
  C24. A body that writes members with escaped strings and whole numbers below \<open>2 ^ 53\<close> parses to exactly these
  members, in order, and whatever the transport delivered after the closing brace changes nothing, a
  terminating NUL and what follows it included.
\<close>

theorem json_body_roundtrip:
  assumes "\<forall>(k, v) \<in> set ms. list_all writable k \<and> scalar_writable v"
  shows "parse_json_prefix (octets (document_text ms) @ trailing) = Some (map (\<lambda>(k, v). scalar_member k v) ms)"
  by (rule json_body [OF assms])

theorem json_body_roundtrip_witness:
  "parse_json_prefix (octets (document_text [(''command'', Json_text [CHR ''a'', CHR 0x22, CHR 0x0A]), (''resolution'', Json_number 7)]) @ [0, 1]) =
    Some [scalar_member ''command'' (Json_text [CHR ''a'', CHR 0x22, CHR 0x0A]), scalar_member ''resolution'' (Json_number 7)]"
  using json_body_roundtrip [of "[(''command'', Json_text [CHR ''a'', CHR 0x22, CHR 0x0A]), (''resolution'', Json_number 7)]" "[0, 1]"]
  by (simp add: writable_def octet_def)

lemma scalar_member_name: "member_name (scalar_member k v) = k"
  by (cases v) simp_all

text \<open>The first member of a name decides, whatever its type: a text under the name hides a later number.\<close>

lemma first_member_decides:
  assumes "member_names_equal (member_name m) wanted" "\<forall>m' \<in> set before. \<not> member_names_equal (member_name m') wanted"
  shows "find_json_number (before @ m # later) wanted = member_number m"
    "find_json_string (before @ m # later) wanted = member_string m"
  using assms by (induction before) simp_all

end
