(* ===== verification/Camera.thy ===== *)
theory Camera
  imports Json_Input Network_Policy
begin

text \<open>
  The settings of the camera, \<open>application/src/camera/camera_settings.cpp\<close> with the scan of the card's
  configuration in \<open>main/media/camera_settings_adapter.cpp\<close>, and the resolution request,
  \<open>application/src/camera/camera_resolution_endpoint.cpp\<close> with \<open>CameraAdapter::set_frame_dimensions\<close>.
  What the sensor's driver answers for a frame size is a parameter.
\<close>

section \<open>Frame sizes\<close>

record frame_dimensions =
  frame_width :: u16
  frame_height :: u16

definition dimension_table :: "(u16 \<times> u16) list" where
  "dimension_table =
     [(160, 120), (128, 128), (176, 144), (240, 176), (240, 240), (320, 240), (320, 320), (400, 296),
      (480, 320), (640, 480), (800, 600), (1024, 768), (1280, 720), (1280, 1024), (1600, 1200)]"

definition minimum_frame_size :: int where
  "minimum_frame_size = 1"

definition maximum_frame_size :: int where
  "maximum_frame_size = 15"

definition default_frame_size :: int where
  "default_frame_size = 10"

definition fallback_dimensions :: frame_dimensions where
  "fallback_dimensions = \<lparr>frame_width = 1600, frame_height = 1200\<rparr>"

definition camera_dimensions :: "u8 \<Rightarrow> frame_dimensions" where
  "camera_dimensions frame_size =
     (if uint frame_size < minimum_frame_size \<or> uint frame_size > maximum_frame_size then fallback_dimensions
      else let (w, h) = dimension_table ! (unat frame_size - nat minimum_frame_size)
           in \<lparr>frame_width = w, frame_height = h\<rparr>)"

text \<open>A number outside the table selects the default.\<close>

definition normalized_frame_size :: "int \<Rightarrow> u8" where
  "normalized_frame_size v =
     (if v < minimum_frame_size \<or> v > maximum_frame_size then of_int default_frame_size else of_int v)"

section \<open>Signed decimals\<close>

record decimal_result =
  has_digits :: bool
  decimal_number :: int
  decimal_suffix :: string

definition no_decimal :: decimal_result where
  "no_decimal = \<lparr>has_digits = False, decimal_number = 0, decimal_suffix = []\<rparr>"

definition int32_min :: int where
  "int32_min = - (2 ^ 31)"

definition int32_max :: int where
  "int32_max = 2 ^ 31 - 1"

text \<open>
  \<open>std::from_chars\<close> of an \<open>int32_t\<close>: nothing without digits, otherwise the number, absent when out of range,
  and what follows the digits.
\<close>

definition from_chars_int32 :: "string \<Rightarrow> (int option \<times> string) option" where
  "from_chars_int32 text =
     (let negative = (text \<noteq> [] \<and> hd text = CHR ''-'');
          body = (if negative then tl text else text);
          digits = takeWhile is_digit body;
          number = (if negative then - int (decimal_value digits) else int (decimal_value digits))
      in if digits = [] then None
         else Some (if int32_min \<le> number \<and> number \<le> int32_max then Some number else None,
                    dropWhile is_digit body))"

definition maximum_parsed_value_size :: nat where
  "maximum_parsed_value_size = 31"

definition signed_decimal :: "string \<Rightarrow> decimal_result" where
  "signed_decimal source =
     (let text = take maximum_parsed_value_size source in
      if text = [] then no_decimal
      else
        let digits = (if hd text = CHR ''+'' then tl text else text) in
        if digits = [] then no_decimal
        else case from_chars_int32 digits of
            None \<Rightarrow> no_decimal
          | Some (number, suffix) \<Rightarrow>
              \<lparr>has_digits = True,
               decimal_number =
                 (case number of
                    Some v \<Rightarrow> v
                  | None \<Rightarrow> if hd text = CHR ''-'' then int32_min else int32_max),
               decimal_suffix = suffix\<rparr>)"

section \<open>Loading the settings\<close>

datatype camera_diagnostic =
  Value_has_no_digits | Value_has_suffix string | Frames_has_no_digits | Frames_has_suffix string

definition parsed_setting :: "string \<Rightarrow> bool \<Rightarrow> int option \<times> camera_diagnostic list" where
  "parsed_setting text frames_setting =
     (let parsed = signed_decimal text in
      if \<not> has_digits parsed
      then (None, [if frames_setting then Frames_has_no_digits else Value_has_no_digits])
      else if decimal_suffix parsed \<noteq> []
      then (None, [if frames_setting then Frames_has_suffix (decimal_suffix parsed)
                   else Value_has_suffix (decimal_suffix parsed)])
      else (Some (decimal_number parsed), []))"

record camera_settings =
  stream_frame_size :: u8
  recording_frame_size :: u8
  frame_interval_milliseconds :: u64
  frames_per_file :: u64

definition default_camera_settings :: camera_settings where
  "default_camera_settings =
     \<lparr>stream_frame_size = 10, recording_frame_size = 15, frame_interval_milliseconds = 1000, frames_per_file = 300\<rparr>"

record settings_loader =
  loader_settings :: camera_settings
  loader_loaded :: bool

definition new_settings_loader :: settings_loader where
  "new_settings_loader = \<lparr>loader_settings = default_camera_settings, loader_loaded = False\<rparr>"

definition stream_size_key :: string where
  "stream_size_key = ''*mainboard.video_stream_framesize''"

definition recording_size_key :: string where
  "recording_size_key = ''*mainboard.video_rec_framesize''"

definition frame_interval_key :: string where
  "frame_interval_key = ''*mainboard.Time_interval_frames''"

definition frames_per_file_key :: string where
  "frames_per_file_key = ''*mainboard.frames_of_one_file''"

definition minimum_frame_interval :: int where
  "minimum_frame_interval = 1000"

definition apply_setting ::
    "string option \<Rightarrow> bool \<Rightarrow> (int \<Rightarrow> camera_settings \<Rightarrow> camera_settings) \<Rightarrow>
     camera_settings \<times> camera_diagnostic list \<Rightarrow> camera_settings \<times> camera_diagnostic list" where
  "apply_setting text frames_setting update state =
     (case text of
        None \<Rightarrow> state
      | Some text \<Rightarrow>
          (case parsed_setting text frames_setting of
             (None, diagnostics) \<Rightarrow> (fst state, snd state @ diagnostics)
           | (Some v, diagnostics) \<Rightarrow> (update v (fst state), snd state @ diagnostics)))"

definition interval_of :: "int \<Rightarrow> u64" where
  "interval_of v = (if v < minimum_frame_interval then of_int minimum_frame_interval else of_int v)"

text \<open>The count is taken modulo \<open>2 ^ 32\<close>.\<close>

definition frames_of :: "int \<Rightarrow> u64" where
  "frames_of v = ucast (of_int v :: u32)"

definition load_once ::
    "(string \<Rightarrow> string option) \<Rightarrow> settings_loader \<Rightarrow> settings_loader \<times> camera_diagnostic list" where
  "load_once lookup loader =
     (if loader_loaded loader then (loader, [])
      else
        let state = (loader_settings loader, []);
            state = apply_setting (lookup stream_size_key) False
              (\<lambda>v s. s\<lparr>stream_frame_size := normalized_frame_size v\<rparr>) state;
            state = apply_setting (lookup recording_size_key) False
              (\<lambda>v s. s\<lparr>recording_frame_size := normalized_frame_size v\<rparr>) state;
            state = apply_setting (lookup frame_interval_key) False
              (\<lambda>v s. s\<lparr>frame_interval_milliseconds := interval_of v\<rparr>) state;
            (settings, diagnostics) = apply_setting (lookup frames_per_file_key) True
              (\<lambda>v s. s\<lparr>frames_per_file := frames_of v\<rparr>) state
        in (\<lparr>loader_settings = settings, loader_loaded = True\<rparr>, diagnostics))"

section \<open>The scan of the configuration file\<close>

text \<open>The white space of the camera's parser: blank, \<open>\\t\<close>, \<open>\\r\<close>, \<open>\\n\<close>, \<open>\\f\<close> and \<open>\\v\<close>.\<close>

definition camera_space :: "char \<Rightarrow> bool" where
  "camera_space c \<longleftrightarrow> c \<in> {CHR '' '', CHR 0x09, CHR 0x0D, CHR 0x0A, CHR 0x0C, CHR 0x0B}"

definition camera_value_token_from_chunk :: "string \<Rightarrow> string \<Rightarrow> string option" where
  "camera_value_token_from_chunk chunk key =
     (if length chunk < length key \<or> take (length key) chunk \<noteq> key then None
      else
        let chunk = drop (length key) chunk in
        if chunk \<noteq> [] \<and> \<not> camera_space (hd chunk) \<and> hd chunk \<noteq> CHR ''='' then None
        else
          let chunk = dropWhile (\<lambda>c. camera_space c \<or> c = CHR ''='') chunk;
              token = takeWhile (\<lambda>c. \<not> camera_space c) chunk
          in if token = [] then None else Some token)"

text \<open>\<open>fgets\<close> of a buffer with room for \<open>n\<close> characters: through the next line feed, or \<open>n\<close> characters.\<close>

function fgets_chunks :: "nat \<Rightarrow> string \<Rightarrow> string list" where
  "fgets_chunks n s =
     (if s = [] \<or> n = 0 then []
      else
        let chunk = (case find_char CHR 0x0A (take n s) of None \<Rightarrow> take n s | Some i \<Rightarrow> take (i + 1) s)
        in chunk # fgets_chunks n (drop (length chunk) s))"
  by pat_completeness auto

termination
  by (relation "measure (\<lambda>(_, s). length s)") (auto split: option.splits)

declare fgets_chunks.simps [simp del]

definition configuration_chunk_size :: nat where
  "configuration_chunk_size = 255"

text \<open>\<open>std::string_view(chunk.data())\<close> ends at a NUL of the file. A file that does not open has no value.\<close>

definition card_setting :: "string option \<Rightarrow> string \<Rightarrow> string option" where
  "card_setting content key =
     (case content of
        None \<Rightarrow> None
      | Some content \<Rightarrow>
          (case find (\<lambda>t. t \<noteq> None)
                 (map (\<lambda>chunk. camera_value_token_from_chunk (takeWhile (\<lambda>c. c \<noteq> CHR 0x00) chunk) key)
                   (fgets_chunks configuration_chunk_size content)) of
             None \<Rightarrow> None
           | Some token \<Rightarrow> token))"

definition load_camera_settings :: "string option \<Rightarrow> camera_settings" where
  "load_camera_settings content = loader_settings (fst (load_once (card_setting content) new_settings_loader))"

section \<open>The resolution request\<close>

record http_response =
  response_status :: u16
  response_type :: string
  response_body :: string
  response_chunked :: bool
  response_close :: bool

definition html_response :: "u16 \<Rightarrow> string \<Rightarrow> http_response" where
  "html_response status_code content =
     \<lparr>response_status = status_code, response_type = ''text/html'', response_body = content,
      response_chunked = False, response_close = False\<rparr>"

definition normalize_frame_size :: "rat \<Rightarrow> u8" where
  "normalize_frame_size x =
     (let truncated = truncate_toward_zero x;
          signed_value = (if truncated \<le> int32_min then int32_min
                          else if truncated \<ge> int32_max then int32_max else truncated)
      in normalized_frame_size signed_value)"

text \<open>The first table entry of these dimensions; the driver is asked for its number.\<close>

definition set_frame_dimensions :: "(nat \<Rightarrow> bool) \<Rightarrow> frame_dimensions \<Rightarrow> bool" where
  "set_frame_dimensions driver dimensions =
     (case find (\<lambda>i. camera_dimensions (of_nat i) = dimensions) [1..<16] of
        None \<Rightarrow> False
      | Some i \<Rightarrow> driver i)"

definition maximum_resolution_body :: nat where
  "maximum_resolution_body = 63"

definition handle_resolution :: "(frame_dimensions \<Rightarrow> bool) \<Rightarrow> bytes \<Rightarrow> http_response \<times> frame_dimensions list" where
  "handle_resolution camera request_body =
     (if request_body = [] then (html_response 400 ''No Data'', [])
      else
        case parse_json_prefix (take maximum_resolution_body request_body) of
          None \<Rightarrow> (html_response 400 ''Invalid JSON'', [])
        | Some document \<Rightarrow>
            (case find_json_number document ''resolution'' of
               None \<Rightarrow> (html_response 400 (''Missing or invalid '' @ [CHR 0x27] @ ''resolution'' @ [CHR 0x27]), [])
             | Some resolution \<Rightarrow>
                 let dimensions = camera_dimensions (normalize_frame_size resolution) in
                 if \<not> camera dimensions then (html_response 500 ''Failed to set framesize'', [dimensions])
                 else (html_response 200 ''Resolution changed successfully'', [dimensions])))"

section \<open>What the settings satisfy\<close>

definition valid_frame_size :: "u8 \<Rightarrow> bool" where
  "valid_frame_size s \<longleftrightarrow> 1 \<le> s \<and> s \<le> 15"

definition valid_camera_settings :: "camera_settings \<Rightarrow> bool" where
  "valid_camera_settings s \<longleftrightarrow>
     valid_frame_size (stream_frame_size s) \<and> valid_frame_size (recording_frame_size s) \<and>
     1000 \<le> frame_interval_milliseconds s \<and> frame_interval_milliseconds s < 2 ^ 31 \<and>
     frames_per_file s < 2 ^ 32"

lemma normalized_valid: "valid_frame_size (normalized_frame_size v)"
proof (cases "1 \<le> v \<and> v \<le> 15")
  case True
  then have "uint (word_of_int v :: u8) = v"
    by (simp add: uint_word_of_int)
  with True show ?thesis
    by (simp add: valid_frame_size_def normalized_frame_size_def minimum_frame_size_def maximum_frame_size_def word_le_def)
qed (auto simp: valid_frame_size_def normalized_frame_size_def minimum_frame_size_def maximum_frame_size_def
      default_frame_size_def)

lemma decimal_number_range: "int32_min \<le> decimal_number (signed_decimal text) \<and> decimal_number (signed_decimal text) \<le> int32_max"
  by (auto simp: signed_decimal_def from_chars_int32_def Let_def no_decimal_def int32_min_def int32_max_def
      split: option.splits if_splits)

lemma interval_valid:
  assumes "int32_min \<le> v" "v \<le> int32_max"
  shows "1000 \<le> interval_of v \<and> interval_of v < 2 ^ 31"
proof (cases "v < 1000")
  case False
  then have "uint (word_of_int v :: u64) = v"
    using assms by (simp add: uint_word_of_int int32_max_def)
  with False assms show ?thesis
    by (simp add: interval_of_def minimum_frame_interval_def int32_max_def word_le_def word_less_def)
qed (simp add: interval_of_def minimum_frame_interval_def)

lemma frames_valid: "frames_of v < 2 ^ 32"
proof -
  have "uint (of_int v :: u32) < 2 ^ 32"
    using uint_lt2p [of "of_int v :: u32"] by simp
  then show ?thesis
    by (simp add: frames_of_def word_less_def unsigned_ucast_eq take_bit_eq_mod)
qed

text \<open>Valid settings stay valid under every update of one field.\<close>

lemma valid_default: "valid_camera_settings default_camera_settings"
  by (simp add: valid_camera_settings_def valid_frame_size_def default_camera_settings_def)

lemma valid_updates:
  assumes "valid_camera_settings s" "int32_min \<le> v" "v \<le> int32_max"
  shows "valid_camera_settings (s\<lparr>stream_frame_size := normalized_frame_size v\<rparr>)"
    "valid_camera_settings (s\<lparr>recording_frame_size := normalized_frame_size v\<rparr>)"
    "valid_camera_settings (s\<lparr>frame_interval_milliseconds := interval_of v\<rparr>)"
    "valid_camera_settings (s\<lparr>frames_per_file := frames_of v\<rparr>)"
  using assms interval_valid frames_valid by (auto simp: valid_camera_settings_def normalized_valid)

lemma apply_setting_valid:
  assumes "valid_camera_settings (fst state)"
    and "\<And>v s. valid_camera_settings s \<Longrightarrow> int32_min \<le> v \<Longrightarrow> v \<le> int32_max \<Longrightarrow> valid_camera_settings (update v s)"
  shows "valid_camera_settings (fst (apply_setting text frames_setting update state))"
  using assms decimal_number_range
  by (auto simp: apply_setting_def parsed_setting_def Let_def split: option.splits if_splits)

lemma load_once_valid:
  assumes "valid_camera_settings (loader_settings loader)"
  shows "valid_camera_settings (loader_settings (fst (load_once lookup loader)))"
  using assms
  by (simp add: load_once_def Let_def case_prod_beta apply_setting_valid valid_updates)

text \<open>
  Whatever the configuration file holds, the camera runs with a frame size of the table for streaming and
  for recording, at most one frame per second and a frame count below \<open>2 ^ 32\<close>; a second load changes
  nothing and reports nothing.
\<close>

theorem camera_settings_valid:
  "valid_camera_settings (load_camera_settings content) \<and>
   load_once lookup (fst (load_once lookup' loader)) = (fst (load_once lookup' loader), [])"
proof
  show "valid_camera_settings (load_camera_settings content)"
    using load_once_valid [of new_settings_loader] valid_default
    by (simp add: load_camera_settings_def new_settings_loader_def)
  show "load_once lookup (fst (load_once lookup' loader)) = (fst (load_once lookup' loader), [])"
    by (simp add: load_once_def Let_def case_prod_beta)
qed

section \<open>The resolution request\<close>

text \<open>The table number a whole number selects.\<close>

definition selected_size :: "nat \<Rightarrow> nat" where
  "selected_size n = (if 1 \<le> n \<and> n \<le> 15 then n else 10)"

lemma normalize_whole: "normalize_frame_size (of_nat n) = of_nat (selected_size n)"
  by (auto simp: normalize_frame_size_def truncate_toward_zero_def normalized_frame_size_def selected_size_def Let_def
      minimum_frame_size_def maximum_frame_size_def default_frame_size_def int32_min_def int32_max_def)

lemma table_numbers: "[1..<16] = [1, 2, 3, 4, 5, 6, 7, 8, 9, 10, 11, 12, 13, 14, 15]"
  by code_simp

lemma table_selects:
  assumes "1 \<le> n" "n \<le> 15"
  shows "set_frame_dimensions driver (camera_dimensions (of_nat n)) = driver n"
proof -
  have "n \<in> {1, 2, 3, 4, 5, 6, 7, 8, 9, 10, 11, 12, 13, 14, 15}"
    using assms unfolding insert_iff empty_iff by presburger
  then show ?thesis
    by (elim insertE emptyE)
      (simp_all add: set_frame_dimensions_def table_numbers [unfolded One_nat_def] camera_dimensions_def dimension_table_def
        minimum_frame_size_def maximum_frame_size_def fallback_dimensions_def)
qed

text \<open>
  A resolution request that names a whole number selects that entry of the table, or the default for a number
  outside it, on the sensor, whatever else the document holds behind it; the answer says whether the driver took it.
\<close>

theorem resolution_request_selects:
  assumes "\<forall>(k, v) \<in> set ms. list_all writable k \<and> scalar_writable v"
    and "ms = before @ (k, Json_number n) # later" "member_names_equal k ''resolution''"
    and "\<forall>(k, v) \<in> set before. \<not> member_names_equal k ''resolution''"
    and "length (document_text ms) \<le> 63"
  shows "handle_resolution (set_frame_dimensions driver) (octets (document_text ms) @ trailing) =
    ((if driver (selected_size n) then html_response 200 ''Resolution changed successfully''
      else html_response 500 ''Failed to set framesize''), [camera_dimensions (of_nat (selected_size n))])"
proof -
  have "take maximum_resolution_body (octets (document_text ms) @ trailing) =
      octets (document_text ms) @ take (63 - length (document_text ms)) trailing"
    using assms(5) by (simp add: maximum_resolution_body_def)
  then have parsed: "parse_json_prefix (take maximum_resolution_body (octets (document_text ms) @ trailing)) =
      Some (map (\<lambda>(k, v). scalar_member k v) ms)"
    using json_body [OF assms(1)] by simp
  have "find_json_number (map (\<lambda>(k, v). scalar_member k v) ms) ''resolution'' = Some (of_nat n)"
    unfolding assms(2) using assms(3,4)
    by (subst map_append, simp only: list.map prod.case)
      (subst first_member_decides, auto simp: scalar_member_name)
  moreover have "(octets (document_text ms) @ trailing = []) = False"
    by (simp add: document_text_def)
  ultimately show ?thesis
    using table_selects [of "selected_size n" driver]
    by (simp only: handle_resolution_def parsed option.case if_False Let_def normalize_whole) (simp add: selected_size_def)
qed

theorem resolution_request_selects_witness:
  "fst (handle_resolution (set_frame_dimensions (\<lambda>i. i = 7)) (octets (document_text [(''Resolution'', Json_number 7)]) @ [0])) =
    html_response 200 ''Resolution changed successfully''"
  using resolution_request_selects [of "[(''Resolution'', Json_number 7)]" "[]" "''Resolution''" 7 "[]" "\<lambda>i. i = 7" "[0]"]
  by (simp add: member_names_equal_def ascii_lower_def octet_def writable_def document_text_def quoted_def escape_char_def
      selected_size_def decimal.simps)

section \<open>The settings after an update of the configuration\<close>

lemma fgets_lines:
  assumes "\<forall>l \<in> set ls. CHR 0x0A \<notin> set l \<and> length l < n"
  shows "fgets_chunks n (concat (map (\<lambda>l. l @ [CHR 0x0A]) ls)) = map (\<lambda>l. l @ [CHR 0x0A]) ls"
  using assms
proof (induction ls)
  case (Cons l ls)
  then have l: "CHR 0x0A \<notin> set l" "length l < n" by simp_all
  have "take n (l @ CHR 0x0A # rest) = l @ CHR 0x0A # take (n - length l - 1) rest" for rest
    using l(2) by (cases "n - length l") simp_all
  then have "find_char (CHR 0x0A) (take n (l @ CHR 0x0A # rest)) = Some (length l)" for rest
    using l(1) by (simp add: find_char_append)
  then show ?case
    using Cons l(2) by (subst fgets_chunks.simps) simp
qed (simp add: fgets_chunks.simps)

text \<open>The four keys, by their second character.\<close>

lemma key_begins:
  assumes "camera_value_token_from_chunk chunk key = Some token"
    "key \<in> {stream_size_key, recording_size_key, frame_interval_key, frames_per_file_key}"
  shows "take 2 chunk = ''*m''"
proof -
  have "take (length key) chunk = key" "take 2 key = ''*m''" "2 \<le> length key"
    using assms
    by (auto simp: camera_value_token_from_chunk_def stream_size_key_def recording_size_key_def frame_interval_key_def
        frames_per_file_key_def split: if_splits)
  then show ?thesis by (metis min.absorb1 take_take)
qed

lemma upper_not_m: "upper_char c \<noteq> CHR ''m''"
proof
  assume m: "upper_char c = CHR ''m''"
  show False
  proof (cases "97 \<le> octet c \<and> octet c \<le> 122")
    case True
    then have "octet (CHR ''m'') = octet c - 32" using m octet_upper by metis
    moreover have "octet (CHR ''m'') = 109" by (simp add: octet_def)
    ultimately have "octet c = 141" by (simp add: eq_diff_eq)
    with True show False by simp
  next
    case False
    then show False using m upper_char_id [of c] by (auto simp: octet_def)
  qed
qed

definition keeps_camera_text :: "document \<Rightarrow> bool" where
  "keeps_camera_text document \<longleftrightarrow>
     (\<exists>line \<in> set document. \<not> line_is_entry line \<and> take 2 (line_original line) = ''*m'')"

lemma begins_line:
  assumes "take 2 (takeWhile P (l @ [CHR 0x0A])) = ''*m''"
  obtains rest where "l = ''*m'' @ rest"
  using assms by (cases l rule: remdups_adj.cases) (auto split: if_splits)

lemma uppercase_line_begins:
  assumes "line \<in> set (uppercase_keys document)" "\<not> keeps_camera_text document"
    "textual_document (uppercase_keys document)"
  shows "take 2 (takeWhile P (line_original line @ [CHR 0x0A])) \<noteq> ''*m''"
proof
  assume "take 2 (takeWhile P (line_original line @ [CHR 0x0A])) = ''*m''"
  then obtain rest where begins: "line_original line = ''*m'' @ rest" by (rule begins_line)
  obtain l where l: "l \<in> set document"
    "line = (if \<not> line_is_entry l then l
             else l\<lparr>line_key := uppercase_ascii (line_key l),
                    line_original := uppercase_ascii (line_key l) @ ''='' @ line_value l\<rparr>)"
    using assms(1) by (auto simp: uppercase_keys_def Let_def)
  show False
  proof (cases "line_is_entry l")
    case False
    then show ?thesis using l begins assms(2) by (auto simp: keeps_camera_text_def)
  next
    case True
    then have "uppercase_ascii (line_key l) \<noteq> []" "line_original line = uppercase_ascii (line_key l) @ ''='' @ line_value l"
      using l assms(1,3) by (auto simp: textual_document_def textual_line_def textual_key_def)
    then show ?thesis
      using begins upper_not_m by (cases "line_key l" rule: remdups_adj.cases) (auto simp: uppercase_ascii_def)
  qed
qed

lemma uppercase_card_setting:
  assumes "textual_document (uppercase_keys document)" "\<not> keeps_camera_text document"
    "\<forall>line \<in> set (uppercase_keys document). length (line_original line) < configuration_chunk_size"
    "key \<in> {stream_size_key, recording_size_key, frame_interval_key, frames_per_file_key}"
  shows "card_setting (Some (serialize_document (uppercase_keys document))) key = None"
proof -
  have "fgets_chunks configuration_chunk_size (serialize_document (uppercase_keys document)) =
      map (\<lambda>l. l @ [CHR 0x0A]) (map line_original (uppercase_keys document))"
    using assms(1,3) fgets_lines [of "map line_original (uppercase_keys document)" configuration_chunk_size]
    by (simp add: serialize_document_concat textual_document_def textual_line_def comp_def)
  moreover have "camera_value_token_from_chunk (takeWhile (\<lambda>c. c \<noteq> CHR 0x00) (line_original line @ [CHR 0x0A])) key = None"
    if "line \<in> set (uppercase_keys document)" for line
    using key_begins [OF _ assms(4)] uppercase_line_begins [OF that assms(2,1)] by (meson not_Some_eq)
  ultimately show ?thesis
    by (auto simp: card_setting_def find_None_iff split: option.split dest: find_Some_in)
qed

text \<open>
  Any update of the configuration resets the camera at the next start. The update writes every key in upper
  case and the camera only reads its own spelling, so whatever was configured, all four settings are the defaults
  again: where no line is longer than a chunk and no comment begins like a camera key.
\<close>

theorem update_resets_camera:
  assumes "answers_well a" "textual_key (file_key (tag, key))" "textual_value v"
    and "store_set a tag key v files = (True, states)"
    and "document = namespace_set (effective_tag tag) key v (read_document a files)"
    and "\<not> keeps_camera_text document"
    and "\<forall>line \<in> set (uppercase_keys document). length (line_original line) < configuration_chunk_size"
  shows "load_camera_settings (last states active_path) = default_camera_settings"
proof -
  have "last states active_path = Some (serialize_document (uppercase_keys document))"
    using updated_text_ok [OF assms(4)] by (simp add: updated_text_def assms(5))
  moreover have "textual_document (uppercase_keys document)"
    using assms(2,3) textual_read_document
    by (simp add: assms(5) namespace_set_def document_set_uppercase file_key_def textual_document_set)
  ultimately show ?thesis
    using uppercase_card_setting [OF _ assms(6,7)]
    by (simp add: load_camera_settings_def load_once_def apply_setting_def new_settings_loader_def)
qed

theorem update_resets_camera_witness:
  "load_camera_settings (last (snd (store_set faultless [] ''k'' ''v''
     [active_path \<mapsto> ''*mainboard.video_stream_framesize 5'' @ [CHR 0x0A]])) active_path) = default_camera_settings \<and>
   stream_frame_size (load_camera_settings (Some (''*mainboard.video_stream_framesize 5'' @ [CHR 0x0A]))) = 5"
proof
  define files :: card_files where "files = [active_path \<mapsto> ''*mainboard.video_stream_framesize 5'' @ [CHR 0x0A]]"
  define document where "document = namespace_set (effective_tag []) ''k'' ''v'' (read_document faultless files)"
  obtain states where s: "store_set faultless [] ''k'' ''v'' files = (True, states)"
    using store_set_well [OF faultless_well, of "[]" "''k''" "''v''" files] by blast
  have keys: "textual_key (file_key ([], ''k''))" "textual_value ''v''" by code_simp+
  have "read_document faultless files = parse_document (''*mainboard.video_stream_framesize 5'' @ [CHR 0x0A])"
    by (simp add: read_document_def read_card_file_def faultless_def files_def)
  then have doc: "document = namespace_set (effective_tag []) ''k'' ''v''
      (parse_document (''*mainboard.video_stream_framesize 5'' @ [CHR 0x0A]))"
    by (simp add: document_def)
  have "\<forall>line \<in> set (namespace_set (effective_tag []) ''k'' ''v''
      (parse_document (''*mainboard.video_stream_framesize 5'' @ [CHR 0x0A]))). line_is_entry line"
    by code_simp
  then have "\<not> keeps_camera_text document"
    by (auto simp: keeps_camera_text_def doc)
  moreover have "\<forall>line \<in> set (uppercase_keys document). length (line_original line) < configuration_chunk_size"
    unfolding doc by code_simp
  ultimately show "load_camera_settings (last (snd (store_set faultless [] ''k'' ''v''
     [active_path \<mapsto> ''*mainboard.video_stream_framesize 5'' @ [CHR 0x0A]])) active_path) = default_camera_settings"
    using update_resets_camera [OF faultless_well keys s document_def] s by (simp add: files_def)
  show "stream_frame_size (load_camera_settings (Some (''*mainboard.video_stream_framesize 5'' @ [CHR 0x0A]))) = 5"
    by code_simp
qed

end
