(* ===== verification/Avi.thy ===== *)
theory Avi
  imports Firmware_Prelude
begin

text \<open>
  Recorded segments, \<open>core/src/media/avi_writer.cpp\<close>, and the reader of the preview,
  \<open>core/src/media/avi_preview.cpp\<close>. Offsets and sizes in memory are natural numbers.
\<close>

section \<open>Writing into a buffer\<close>

definition overwrite :: "nat \<Rightarrow> bytes \<Rightarrow> bytes \<Rightarrow> bytes" where
  "overwrite offset bs data = take offset data @ bs @ drop (offset + length bs) data"

definition le32_bytes :: "u32 \<Rightarrow> bytes" where
  "le32_bytes v = [byte_at v 0, byte_at v 1, byte_at v 2, byte_at v 3]"

definition put_u32 :: "nat \<Rightarrow> u32 \<Rightarrow> bytes \<Rightarrow> bytes" where
  "put_u32 offset v data = overwrite offset (le32_bytes v) data"

definition put_fourcc :: "nat \<Rightarrow> string \<Rightarrow> bytes \<Rightarrow> bytes" where
  "put_fourcc offset v data = overwrite offset (octets v) data"

section \<open>The writer\<close>

record avi_entry =
  avi_offset :: u32
  avi_size :: u32

record avi_writer =
  avi_data :: bytes
  avi_entries :: "avi_entry list"
  avi_finalized :: bool

definition avi_header :: "u32 \<Rightarrow> u32 \<Rightarrow> bytes" where
  "avi_header width height =
     (put_fourcc 220 ''movi'' \<circ> put_fourcc 212 ''LIST'' \<circ> put_u32 192 (width * height * 3) \<circ>
      put_fourcc 188 ''MJPG'' \<circ> overwrite 186 [24] \<circ> overwrite 184 [1] \<circ> put_u32 180 height \<circ>
      put_u32 176 width \<circ> put_u32 172 0x28 \<circ> put_u32 168 0x28 \<circ> put_fourcc 164 ''strf'' \<circ>
      put_u32 148 0x0C \<circ> put_u32 132 10 \<circ> put_u32 128 1 \<circ> put_fourcc 112 ''MJPG'' \<circ>
      put_fourcc 108 ''vids'' \<circ> put_u32 104 0x38 \<circ> put_fourcc 100 ''strh'' \<circ> put_fourcc 96 ''strl'' \<circ>
      put_u32 92 0x74 \<circ> put_fourcc 88 ''LIST'' \<circ> put_u32 68 height \<circ> put_u32 64 width \<circ>
      put_u32 60 0x800 \<circ> put_u32 56 1 \<circ> put_u32 44 0x810 \<circ> put_u32 40 0x800 \<circ> put_u32 32 100000 \<circ>
      put_u32 28 0x38 \<circ> put_fourcc 24 ''avih'' \<circ> put_fourcc 20 ''hdrl'' \<circ> put_u32 16 0xC0 \<circ>
      put_fourcc 12 ''LIST'' \<circ> put_fourcc 8 ''AVI '' \<circ> put_fourcc 0 ''RIFF'') (replicate 224 0)"

definition new_avi_writer :: "u32 \<Rightarrow> u32 \<Rightarrow> avi_writer" where
  "new_avi_writer width height =
     \<lparr>avi_data = avi_header width height, avi_entries = [], avi_finalized = False\<rparr>"

definition append_frame :: "bytes \<Rightarrow> avi_writer \<Rightarrow> bool \<times> avi_writer" where
  "append_frame jpeg w =
     (if avi_finalized w \<or> length jpeg > 0xFFFFFFFF then (False, w)
      else
        let offset = length (avi_data w) - 220;
            padding = 2048 - length jpeg mod 2048
        in (True, w\<lparr>avi_entries := avi_entries w @ [\<lparr>avi_offset = of_nat offset, avi_size = of_nat (length jpeg)\<rparr>],
                    avi_data := avi_data w @ octets ''00dc'' @ le32_bytes (of_nat (length jpeg)) @ jpeg @
                      replicate padding 0\<rparr>))"

definition index_record :: "avi_entry \<Rightarrow> bytes" where
  "index_record e = octets ''00dc'' @ le32_bytes 0x10 @ le32_bytes (avi_offset e) @ le32_bytes (avi_size e)"

definition finalize :: "avi_writer \<Rightarrow> bytes option \<times> avi_writer" where
  "finalize w =
     (if avi_finalized w then (None, w)
      else
        let count = of_nat (length (avi_entries w)) :: u32;
            data = put_u32 48 count (avi_data w);
            data = put_u32 140 count data;
            data = put_u32 216 (of_nat (length data - 224)) data;
            data = data @ octets ''idx1'' @ le32_bytes (of_nat (length (avi_entries w) * 16)) @
              concat (map index_record (avi_entries w));
            data = put_u32 4 (of_nat (length data - 8)) data
        in (Some data, w\<lparr>avi_data := data, avi_finalized := True\<rparr>))"

section \<open>The reader\<close>

definition avi_read_u32 :: "bytes \<Rightarrow> nat \<Rightarrow> nat \<Rightarrow> u32 option" where
  "avi_read_u32 data offset limit =
     (if offset > limit \<or> limit - offset < 4 \<or> offset > length data \<or> length data - offset < 4 then None
      else Some (be32 (data ! (offset + 3)) (data ! (offset + 2)) (data ! (offset + 1)) (data ! offset)))"

definition avi_has_id :: "bytes \<Rightarrow> nat \<Rightarrow> string \<Rightarrow> nat \<Rightarrow> bool" where
  "avi_has_id data offset ident limit \<longleftrightarrow>
     \<not> (length ident \<noteq> 4 \<or> offset > limit \<or> limit - offset < 4 \<or> offset > length data \<or> length data - offset < 4) \<and>
     (\<forall>i < 4. data ! (offset + i) = octet (ident ! i))"

record avi_preview =
  frame_period_us :: u32
  preview_width :: u32
  preview_height :: u32
  movi_data_offset :: nat
  preview_entries :: "avi_entry list"

definition value_or_zero :: "u32 option \<Rightarrow> u32" where
  "value_or_zero v = (case v of None \<Rightarrow> 0 | Some v \<Rightarrow> v)"

text \<open>The end of the chunk at the cursor, with its padding; nothing when it does not fit.\<close>

definition chunk_end :: "bytes \<Rightarrow> nat \<Rightarrow> nat \<Rightarrow> (u32 \<times> nat) option" where
  "chunk_end data cursor limit =
     (if limit - cursor < 8 then None
      else case avi_read_u32 data (cursor + 4) limit of
          None \<Rightarrow> None
        | Some chunk_size \<Rightarrow>
            if unat chunk_size > limit - cursor - 8 then None
            else let after = cursor + 8 + unat chunk_size + unat (chunk_size AND 1)
                 in if after > limit then None else Some (chunk_size, after))"

lemma chunk_end_grows: "chunk_end data cursor limit = Some (chunk_size, after) \<Longrightarrow> cursor < after"
  by (auto simp: chunk_end_def Let_def split: if_splits option.splits)

function scan_header_list :: "bytes \<Rightarrow> nat \<Rightarrow> nat \<Rightarrow> avi_preview \<Rightarrow> avi_preview option" where
  "scan_header_list data cursor limit result =
     (if cursor < limit
      then case chunk_end data cursor limit of
          None \<Rightarrow> None
        | Some (chunk_size, after) \<Rightarrow>
            let content = cursor + 8;
                result =
                  (if avi_has_id data cursor ''avih'' limit \<and> chunk_size \<ge> 4
                   then result\<lparr>frame_period_us := value_or_zero (avi_read_u32 data content limit)\<rparr>
                   else if avi_has_id data cursor ''strf'' limit \<and> chunk_size \<ge> 20 \<and>
                     value_or_zero (avi_read_u32 data content limit) \<ge> 20
                   then result\<lparr>preview_width := value_or_zero (avi_read_u32 data (content + 4) limit),
                               preview_height := value_or_zero (avi_read_u32 data (content + 8) limit)\<rparr>
                   else result)
            in scan_header_list data after limit result
      else if cursor = limit then Some result else None)"
  by pat_completeness auto

termination
  by (relation "measure (\<lambda>(_, cursor, limit, _). limit - cursor)") (auto dest: chunk_end_grows intro: diff_less_mono2)

declare scan_header_list.simps [simp del]

fun read_index :: "bytes \<Rightarrow> nat \<Rightarrow> nat \<Rightarrow> nat \<Rightarrow> avi_entry list option" where
  "read_index data cursor limit 0 = Some []"
| "read_index data cursor limit (Suc n) =
     (case (avi_read_u32 data (cursor + 8) limit, avi_read_u32 data (cursor + 12) limit) of
        (Some offset, Some advertised) \<Rightarrow>
          map_option (\<lambda>entries. \<lparr>avi_offset = offset, avi_size = advertised\<rparr> # entries)
            (read_index data (cursor + 16) limit n)
      | _ \<Rightarrow> None)"

definition parse_index :: "bytes \<Rightarrow> nat \<Rightarrow> u32 \<Rightarrow> nat \<Rightarrow> avi_preview \<Rightarrow> avi_preview option" where
  "parse_index data start index_size extent result =
     (if index_size = 0 \<or> unat index_size mod 16 \<noteq> 0 \<or> unat index_size > extent - start then None
      else case read_index data start (start + unat index_size) (unat index_size div 16) of
          None \<Rightarrow> None
        | Some entries \<Rightarrow> Some (result\<lparr>preview_entries := entries\<rparr>))"

function parse_chunks :: "bytes \<Rightarrow> nat \<Rightarrow> nat \<Rightarrow> avi_preview \<Rightarrow> avi_preview option" where
  "parse_chunks data cursor extent result =
     (if cursor < extent
      then case chunk_end data cursor extent of
          None \<Rightarrow> None
        | Some (chunk_size, after) \<Rightarrow>
            let content = cursor + 8;
                parsed =
                  (if avi_has_id data cursor ''LIST'' extent \<and> chunk_size \<ge> 4 \<and> avi_has_id data content ''hdrl'' extent
                   then scan_header_list data (content + 4) (content + unat chunk_size) result
                   else if avi_has_id data cursor ''LIST'' extent \<and> chunk_size \<ge> 4 \<and> avi_has_id data content ''movi'' extent
                   then Some (result\<lparr>movi_data_offset := content + 4\<rparr>)
                   else if avi_has_id data cursor ''idx1'' extent
                   then parse_index data content chunk_size extent result
                   else Some result)
            in case parsed of None \<Rightarrow> None | Some result \<Rightarrow> parse_chunks data after extent result
      else Some result)"
  by pat_completeness auto

termination
  by (relation "measure (\<lambda>(_, cursor, extent, _). extent - cursor)") (auto dest: chunk_end_grows intro: diff_less_mono2)

declare parse_chunks.simps [simp del]

definition new_preview :: avi_preview where
  "new_preview = \<lparr>frame_period_us = 100000, preview_width = 0, preview_height = 0, movi_data_offset = 0, preview_entries = []\<rparr>"

definition parse_avi :: "bytes \<Rightarrow> avi_preview option" where
  "parse_avi data =
     (if length data < 32 \<or> \<not> avi_has_id data 0 ''RIFF'' (length data) \<or> \<not> avi_has_id data 8 ''AVI '' (length data) then None
      else case avi_read_u32 data 4 (length data) of
          None \<Rightarrow> None
        | Some riff_size \<Rightarrow>
            if unat riff_size > length data - 8 then None
            else case parse_chunks data 12 (unat riff_size + 8) new_preview of
                None \<Rightarrow> None
              | Some result \<Rightarrow>
                  let result = (if frame_period_us result = 0 then result\<lparr>frame_period_us := 100000\<rparr> else result)
                  in if movi_data_offset result = 0 \<or> preview_entries result = [] then None else Some result)"

definition read_avi_frame :: "bytes \<Rightarrow> avi_preview \<Rightarrow> nat \<Rightarrow> nat \<Rightarrow> bytes option" where
  "read_avi_frame data avi index frame_buffer_size =
     (if index \<ge> length (preview_entries avi) \<or> movi_data_offset avi < 4 then None
      else
        let e = preview_entries avi ! index in
        if avi_size e = 0 \<or> unat (avi_size e) > frame_buffer_size \<or> movi_data_offset avi > length data \<or>
           unat (avi_offset e) > length data - movi_data_offset avi + 4 then None
        else
          let seek = movi_data_offset avi + unat (avi_offset e) - 4 in
          if seek > length data \<or> length data - seek < 8 \<or> \<not> avi_has_id data seek ''00dc'' (length data) then None
          else case avi_read_u32 data (seek + 4) (length data) of
              None \<Rightarrow> None
            | Some actual \<Rightarrow>
                if actual = 0 \<or> unat actual > frame_buffer_size \<or> unat actual > length data - seek - 8 then None
                else Some (take (unat actual) (drop (seek + 8) data)))"

section \<open>Fields\<close>

definition field :: "nat \<Rightarrow> nat \<Rightarrow> bytes \<Rightarrow> bytes" where
  "field offset n data = take n (drop offset data)"

lemma length_overwrite: "offset + length bs \<le> length data \<Longrightarrow> length (overwrite offset bs data) = length data"
  by (simp add: overwrite_def)

lemma length_le32_bytes [simp]: "length (le32_bytes v) = 4"
  by (simp add: le32_bytes_def)

lemma overwrite_append:
  "offset + length bs \<le> length data \<Longrightarrow> overwrite offset bs (data @ rest) = overwrite offset bs data @ rest"
  by (simp add: overwrite_def)

lemma field_append: "offset + n \<le> length data \<Longrightarrow> field offset n (data @ rest) = field offset n data"
  by (simp add: field_def)

lemma field_skip: "field (length data + offset) n (data @ rest) = field offset n rest"
  by (simp add: field_def)

lemma field_same:
  assumes "offset + length bs \<le> length data" "n = length bs"
  shows "field offset n (overwrite offset bs data) = bs"
proof -
  have "length (take offset data) = offset" using assms(1) by simp
  then have "drop offset (overwrite offset bs data) = bs @ drop (offset + length bs) data"
    unfolding overwrite_def by (metis append_eq_conv_conj)
  then show ?thesis by (simp add: field_def assms(2))
qed

lemma nth_overwrite_other:
  assumes "a + length bs \<le> length data" "j < a \<or> a + length bs \<le> j" "j < length data"
  shows "overwrite a bs data ! j = data ! j"
proof (cases "j < a")
  case True
  then show ?thesis using assms by (simp add: overwrite_def nth_append)
next
  case False
  then have "j - a - length bs + (a + length bs) = j" "\<not> j - a < length bs" using assms(2) by linarith+
  then show ?thesis using False assms(1,3) by (simp add: overwrite_def nth_append)
qed

lemma nth_field: "i < n \<Longrightarrow> offset + i < length data \<Longrightarrow> field offset n data ! i = data ! (offset + i)"
  by (simp add: field_def)

lemma field_other:
  assumes "offset + n \<le> a \<or> a + length bs \<le> offset" "a + length bs \<le> length data"
  shows "field offset n (overwrite a bs data) = field offset n data"
proof (rule nth_equalityI)
  show "length (field offset n (overwrite a bs data)) = length (field offset n data)"
    using assms(2) by (simp add: field_def length_overwrite)
  fix i assume "i < length (field offset n (overwrite a bs data))"
  then have "i < n" "offset + i < length data"
    using assms(2) by (auto simp: field_def length_overwrite)
  moreover from this have "offset + i < a \<or> a + length bs \<le> offset + i" using assms(1) by linarith
  ultimately show "field offset n (overwrite a bs data) ! i = field offset n data ! i"
    using assms(2) by (simp add: nth_field nth_overwrite_other length_overwrite)
qed

lemma read_u32_field:
  assumes "field offset 4 data = le32_bytes v" "offset + 4 \<le> limit"
  shows "avi_read_u32 data offset limit = Some v"
proof -
  have "length (field offset 4 data) = 4" by (simp add: assms(1))
  then have len: "offset + 4 \<le> length data" by (simp add: field_def)
  then have "data ! offset = byte_at v 0" "data ! (offset + 1) = byte_at v 1" "data ! (offset + 2) = byte_at v 2"
    "data ! (offset + 3) = byte_at v 3"
    using nth_field [of 0 4 offset data] nth_field [of 1 4 offset data] nth_field [of 2 4 offset data]
      nth_field [of 3 4 offset data]
    by (simp_all add: assms(1) le32_bytes_def)
  then show ?thesis
    using len assms(2) le_diff_conv2 by (simp add: avi_read_u32_def not_less)
qed

lemma has_id_field:
  assumes "length ident = 4" "offset + 4 \<le> limit" "offset + 4 \<le> length data"
  shows "avi_has_id data offset ident limit \<longleftrightarrow> field offset 4 data = octets ident"
proof -
  have "field offset 4 data = octets ident \<longleftrightarrow> (\<forall>i < 4. data ! (offset + i) = octet (ident ! i))"
    using assms by (auto simp: list_eq_iff_nth_eq field_def)
  moreover have "\<not> limit - offset < 4" "\<not> length data - offset < 4" using assms(2,3) by linarith+
  ultimately show ?thesis using assms by (simp add: avi_has_id_def)
qed

text \<open>The fields of a header whose counts and sizes are filled in.\<close>

definition filled_header :: "u32 \<Rightarrow> u32 \<Rightarrow> u32 \<Rightarrow> u32 \<Rightarrow> u32 \<Rightarrow> bytes" where
  "filled_header width height frames movi_size riff_size =
     put_u32 4 riff_size (put_u32 216 movi_size (put_u32 140 frames (put_u32 48 frames (avi_header width height))))"

text \<open>In a buffer of 224 bytes.\<close>

lemma header_overwrite:
  assumes "length data = 224"
  shows "offset + length bs \<le> 224 \<Longrightarrow> length (overwrite offset bs data) = 224"
    "offset + n \<le> 224 \<Longrightarrow> n = length bs \<Longrightarrow> field offset n (overwrite offset bs data) = bs"
    "a + length bs \<le> 224 \<Longrightarrow> offset + n \<le> a \<or> a + length bs \<le> offset \<Longrightarrow>
       field offset n (overwrite a bs data) = field offset n data"
  using assms by (simp_all add: length_overwrite field_same field_other)

lemma length_avi_header [simp]: "length (avi_header width height) = 224"
  by (simp add: avi_header_def put_u32_def put_fourcc_def header_overwrite(1))

lemma length_filled_header [simp]: "length (filled_header width height frames movi_size riff_size) = 224"
  by (simp add: filled_header_def put_u32_def header_overwrite(1))

lemma filled_header_fields:
  "field 0 4 (filled_header w h n m r) = octets ''RIFF''" "field 4 4 (filled_header w h n m r) = le32_bytes r"
  "field 8 4 (filled_header w h n m r) = octets ''AVI ''" "field 12 4 (filled_header w h n m r) = octets ''LIST''"
  "field 16 4 (filled_header w h n m r) = le32_bytes 0xC0" "field 20 4 (filled_header w h n m r) = octets ''hdrl''"
  "field 24 4 (filled_header w h n m r) = octets ''avih''" "field 28 4 (filled_header w h n m r) = le32_bytes 0x38"
  "field 32 4 (filled_header w h n m r) = le32_bytes 100000" "field 88 4 (filled_header w h n m r) = octets ''LIST''"
  "field 92 4 (filled_header w h n m r) = le32_bytes 0x74" "field 212 4 (filled_header w h n m r) = octets ''LIST''"
  "field 216 4 (filled_header w h n m r) = le32_bytes m" "field 220 4 (filled_header w h n m r) = octets ''movi''"
  by (simp_all add: filled_header_def avi_header_def put_u32_def put_fourcc_def header_overwrite)

section \<open>A segment with its frames\<close>

definition record_frames :: "bytes list \<Rightarrow> avi_writer \<Rightarrow> avi_writer" where
  "record_frames frames w = fold (\<lambda>jpeg w. snd (append_frame jpeg w)) frames w"

definition frame_chunk :: "bytes \<Rightarrow> bytes" where
  "frame_chunk jpeg = octets ''00dc'' @ le32_bytes (of_nat (length jpeg)) @ jpeg @ replicate (2048 - length jpeg mod 2048) 0"

definition frame_data :: "bytes list \<Rightarrow> bytes" where
  "frame_data frames = concat (map frame_chunk frames)"

text \<open>The entry of each frame, with the frame data in front of it.\<close>

definition frame_entry :: "bytes list \<Rightarrow> nat \<Rightarrow> avi_entry" where
  "frame_entry frames i =
     \<lparr>avi_offset = of_nat (4 + length (frame_data (take i frames))), avi_size = of_nat (length (frames ! i))\<rparr>"

lemma frame_data_snoc [simp]: "frame_data (frames @ [jpeg]) = frame_data frames @ frame_chunk jpeg"
  by (simp add: frame_data_def)

lemma length_frame_chunk: "length (frame_chunk jpeg) = 8 + 2048 * (length jpeg div 2048 + 1)"
proof -
  define q r where "q = length jpeg div 2048" and "r = length jpeg mod 2048"
  have "length jpeg = 2048 * q + r" "r < 2048" by (simp_all add: q_def r_def)
  moreover have "length (frame_chunk jpeg) = 8 + length jpeg + (2048 - r)"
    by (simp add: frame_chunk_def r_def)
  ultimately show ?thesis by (simp add: q_def [symmetric])
qed

lemma record_frames_shape:
  assumes "\<forall>jpeg \<in> set frames. length jpeg \<le> 0xFFFFFFFF"
  shows "record_frames frames (new_avi_writer w h) =
    \<lparr>avi_data = avi_header w h @ frame_data frames, avi_entries = map (frame_entry frames) [0..<length frames],
     avi_finalized = False\<rparr>"
  using assms
proof (induction frames rule: rev_induct)
  case Nil
  then show ?case by (simp add: record_frames_def new_avi_writer_def frame_data_def)
next
  case (snoc jpeg frames)
  have "map (frame_entry (frames @ [jpeg])) [0..<length frames] = map (frame_entry frames) [0..<length frames]"
    by (simp add: frame_entry_def nth_append)
  moreover have "frame_entry (frames @ [jpeg]) (length frames) =
      \<lparr>avi_offset = of_nat (4 + length (frame_data frames)), avi_size = of_nat (length jpeg)\<rparr>"
    by (simp add: frame_entry_def)
  ultimately show ?case
    using snoc by (simp add: record_frames_def append_frame_def frame_chunk_def not_less Let_def)
qed

definition index_bytes :: "bytes list \<Rightarrow> bytes" where
  "index_bytes frames = octets ''idx1'' @ le32_bytes (of_nat (length frames * 16)) @
     concat (map (index_record \<circ> frame_entry frames) [0..<length frames])"

definition segment_size :: "bytes list \<Rightarrow> nat" where
  "segment_size frames = 224 + length (frame_data frames) + 8 + 16 * length frames"

lemma length_index_bytes: "length (index_bytes frames) = 8 + 16 * length frames"
  by (simp add: index_bytes_def length_concat index_record_def comp_def sum_list_triv)

lemma finalize_shape:
  assumes "\<forall>jpeg \<in> set frames. length jpeg \<le> 0xFFFFFFFF"
  shows "fst (finalize (record_frames frames (new_avi_writer w h))) =
    Some (filled_header w h (of_nat (length frames)) (of_nat (length (frame_data frames))) (of_nat (segment_size frames - 8)) @
      frame_data frames @ index_bytes frames)"
proof -
  have put: "put_u32 offset v (data @ rest) = put_u32 offset v data @ rest" "length (put_u32 offset v data) = 224"
    if "offset + 4 \<le> 224" "length data = 224" for offset v data and rest :: bytes
    using that by (simp_all add: put_u32_def overwrite_append length_overwrite)
  show ?thesis
    by (simp add: record_frames_shape [OF assms] finalize_def Let_def put filled_header_def segment_size_def index_bytes_def
        length_concat index_record_def comp_def sum_list_triv algebra_simps)
qed

lemma even_frame_data: "even (length (frame_data frames))"
  by (induction frames) (simp_all add: frame_data_def length_frame_chunk)

lemma frame_data_covers: "2056 * length frames \<le> length (frame_data frames)"
  by (induction frames) (simp_all add: frame_data_def length_frame_chunk)

section \<open>What the preview does with a segment\<close>

lemma field_beyond: "length data \<le> offset \<Longrightarrow> field offset n (data @ rest) = field (offset - length data) n rest"
  by (simp add: field_def)

lemma segment_fields:
  assumes "data = filled_header w h n m r @ rest"
  shows "field 0 4 data = octets ''RIFF''" "field 4 4 data = le32_bytes r" "field 8 4 data = octets ''AVI ''"
    "field 12 4 data = octets ''LIST''" "field 16 4 data = le32_bytes 0xC0" "field 20 4 data = octets ''hdrl''"
    "field 24 4 data = octets ''avih''" "field 28 4 data = le32_bytes 0x38" "field 32 4 data = le32_bytes 100000"
    "field 88 4 data = octets ''LIST''" "field 92 4 data = le32_bytes 0x74" "field 212 4 data = octets ''LIST''"
    "field 216 4 data = le32_bytes m" "field 220 4 data = octets ''movi''"
  by (simp_all add: assms field_append filled_header_fields)

lemma unat_and_one: "unat ((v :: u32) AND 1) = unat v mod 2"
  by (simp add: and_one_eq unat_mod)

lemma chunk_end_field:
  assumes "field (cursor + 4) 4 data = le32_bytes v" "cursor + 8 \<le> limit"
  shows "chunk_end data cursor limit =
    (if cursor + 8 + unat v > limit \<or> cursor + 8 + unat v + unat (v AND 1) > limit then None
     else Some (v, cursor + 8 + unat v + unat (v AND 1)))"
proof -
  have "avi_read_u32 data (cursor + 4) limit = Some v"
    using assms by (intro read_u32_field) simp_all
  moreover have "\<not> limit - cursor < 8" "unat v > limit - cursor - 8 \<longleftrightarrow> cursor + 8 + unat v > limit"
    using assms(2) by linarith+
  ultimately show ?thesis by (simp add: chunk_end_def Let_def)
qed

lemma chunk_end_beyond:
  "field (cursor + 4) 4 data = le32_bytes v \<Longrightarrow> cursor + 8 + unat v > limit \<Longrightarrow> cursor + 8 \<le> limit \<Longrightarrow>
     chunk_end data cursor limit = None"
  by (simp add: chunk_end_field)

lemma segment_header_scan:
  assumes "data = filled_header w h n m r @ rest"
  shows "scan_header_list data 24 212 result = Some (result\<lparr>frame_period_us := 100000\<rparr>)"
proof -
  have len: "224 \<le> length data" by (simp add: assms)
  note fields = segment_fields [OF assms]
  have "chunk_end data 24 212 = Some (0x38, 88)" "chunk_end data 88 212 = Some (0x74, 212)"
    using chunk_end_field [of 24 data 56 212] chunk_end_field [of 88 data 116 212] fields by simp_all
  moreover have "avi_has_id data 24 ''avih'' 212" "\<not> avi_has_id data 88 ''avih'' 212" "\<not> avi_has_id data 88 ''strf'' 212"
    using len fields by (simp_all add: has_id_field)
  moreover have "avi_read_u32 data 32 212 = Some 100000"
    using fields by (intro read_u32_field) simp_all
  ultimately show ?thesis
    by (simp add: scan_header_list.simps [of data 24] scan_header_list.simps [of data 88] scan_header_list.simps [of data 212]
        value_or_zero_def Let_def)
qed

lemma segment_not_previewed:
  assumes "\<forall>jpeg \<in> set frames. length jpeg \<le> 0xFFFFFFFF" "segment_size frames < 2 ^ 32"
    and "fst (finalize (record_frames frames (new_avi_writer w h))) = Some data"
  shows "parse_avi data = None"
proof -
  define m where "m = length (frame_data frames)"
  define rest where "rest = frame_data frames @ index_bytes frames"
  have data: "data = filled_header w h (of_nat (length frames)) (of_nat m) (of_nat (segment_size frames - 8)) @ rest"
    using finalize_shape [OF assms(1), of w h] assms(3) by (simp add: m_def rest_def)
  note fields = segment_fields [OF data]
  have len: "length data = segment_size frames" "segment_size frames = 232 + m + 16 * length frames"
    by (simp_all add: data rest_def m_def segment_size_def length_index_bytes)
  have m: "unat (of_nat m :: u32) = m" "unat (of_nat (segment_size frames - 8) :: u32) = segment_size frames - 8"
    using assms(2) len(2) by (simp_all only: unat_of_nat) simp_all
  have "even m" using even_frame_data by (simp add: m_def)
  then have "unat ((of_nat m :: u32) AND 1) = 0"
    using m(1) by (simp add: unat_and_one even_iff_mod_2_eq_zero)
  then have movi: "chunk_end data 212 (segment_size frames) = Some (of_nat m, 220 + m)"
    using chunk_end_field [of 212 data "of_nat m" "segment_size frames"] fields len(2) m(1) by simp
  have "field (224 + m) 4 data = octets ''idx1''"
    by (simp add: data rest_def field_beyond m_def field_append index_bytes_def field_def)
  moreover have "octets ''idx1'' = le32_bytes 0x31786469"
    by (simp add: le32_bytes_def byte_at_def octet_def)
  ultimately have "field (220 + m + 4) 4 data = le32_bytes 829973609"
    by (simp add: add.commute)
  moreover have index_as_size: "unat (829973609 :: u32) = 829973609"
    using unat_of_nat [where 'a = 32, of 829973609] by (simp only: of_nat_numeral) simp
  have "220 + m + 8 + unat (829973609 :: u32) > segment_size frames"
    unfolding index_as_size len(2) using frame_data_covers [of frames] assms(2) len(2) by (simp add: m_def [symmetric])
  moreover have "220 + m + 8 \<le> segment_size frames" using len(2) by simp
  ultimately have "chunk_end data (220 + m) (segment_size frames) = None"
    by (rule chunk_end_beyond)
  moreover have "chunk_end data 12 (segment_size frames) = Some (0xC0, 212)"
    using chunk_end_field [of 12 data 192 "segment_size frames"] fields len(2) by simp
  moreover have "avi_has_id data 12 ''LIST'' (segment_size frames)" "avi_has_id data 20 ''hdrl'' (segment_size frames)"
    using fields len by (simp_all add: has_id_field)
  ultimately have "parse_chunks data 12 (segment_size frames) new_preview = None"
    using movi len(2)
    by (simp add: parse_chunks.simps [of data 12] parse_chunks.simps [of data 212] parse_chunks.simps [of data "220 + m"]
        segment_header_scan [OF data] Let_def split: option.split)
  moreover have "avi_read_u32 data 4 (length data) = Some (of_nat (segment_size frames - 8))"
    using fields len by (intro read_u32_field) simp_all
  ultimately show ?thesis
    using len m(2) by (simp add: parse_avi_def add.assoc)
qed

text \<open>
  The preview refuses every recording of the machine itself. The writer leaves the four characters \<open>movi\<close> out of
  the size of their list, so the reader looks for the next chunk four bytes before the index and takes the letters
  \<open>idx1\<close> for a size: whatever was recorded, the finished segment is not accepted.
\<close>

theorem own_recordings_not_previewed:
  assumes "\<forall>jpeg \<in> set frames. length jpeg \<le> 0xFFFFFFFF" "segment_size frames < 2 ^ 32"
    and "fst (finalize (record_frames frames (new_avi_writer w h))) = Some data"
  shows "parse_avi data = None"
  by (rule segment_not_previewed [OF assms])

theorem own_recordings_not_previewed_witness:
  "parse_avi (the (fst (finalize (record_frames [[1, 2, 3]] (new_avi_writer 640 480))))) = None"
proof -
  have "\<forall>jpeg \<in> set [[1, 2, 3]]. length (jpeg :: bytes) \<le> 0xFFFFFFFF" "segment_size [[1, 2, 3]] < 2 ^ 32"
    by (simp_all add: segment_size_def frame_data_def length_frame_chunk)
  then show ?thesis
    using own_recordings_not_previewed [of "[[1, 2, 3]]" 640 480]
      finalize_shape [of "[[1, 2, 3]]" 640 480] by (metis option.sel)
qed


text \<open>The index of a segment and its frames, without the list around them.\<close>

lemma read_index_records:
  assumes "field cursor (16 * length es) data = concat (map index_record es)" "cursor + 16 * length es \<le> limit"
  shows "read_index data cursor limit (length es) = Some es"
  using assms
proof (induction es arbitrary: cursor)
  case (Cons e es)
  have split: "field cursor 16 data = index_record e" "field (cursor + 16) (16 * length es) data = concat (map index_record es)"
  proof -
    have "length (index_record e) = 16" by (simp add: index_record_def)
    moreover have "field cursor (16 * length (e # es)) data = field cursor 16 data @ field (cursor + 16) (16 * length es) data"
      by (simp add: field_def take_add add.commute)
    moreover have "length (field cursor 16 data) = 16"
      using arg_cong [OF Cons.prems(1), of length] by (auto simp: field_def index_record_def)
    ultimately show "field cursor 16 data = index_record e"
      "field (cursor + 16) (16 * length es) data = concat (map index_record es)"
      using Cons.prems(1) by simp_all
  qed
  have part: "field (cursor + k) 4 data = take 4 (drop k (field cursor 16 data))" if "k + 4 \<le> 16" for k
    using that by (simp add: field_def drop_take min_def add.commute)
  have "field (cursor + 8) 4 data = le32_bytes (avi_offset e)" "field (cursor + 12) 4 data = le32_bytes (avi_size e)"
    using part [of 8] part [of 12] split(1) by (simp_all add: index_record_def)
  then have "avi_read_u32 data (cursor + 8) limit = Some (avi_offset e)" "avi_read_u32 data (cursor + 12) limit = Some (avi_size e)"
    using Cons.prems(2) by (simp_all add: read_u32_field)
  then show ?case
    using Cons.IH [OF split(2)] Cons.prems(2) by simp
qed simp

lemma read_frame_at:
  assumes "data = A @ octets ''00dc'' @ le32_bytes (of_nat (length jpeg)) @ jpeg @ B" "length A = 220 + unat (avi_offset e)"
    and "avi_size e = of_nat (length jpeg)" "0 < length jpeg" "length jpeg \<le> buffer_size" "length data < 2 ^ 32"
    and "index < length (preview_entries avi)" "preview_entries avi ! index = e" "movi_data_offset avi = 224"
  shows "read_avi_frame data avi index buffer_size = Some jpeg"
proof -
  have size: "unat (of_nat (length jpeg) :: u32) = length jpeg"
    using assms(1,6) by (simp only: unat_of_nat) simp
  then have nonzero: "(of_nat (length jpeg) :: u32) \<noteq> 0" using assms(4) by auto
  have fields: "field (length A) 4 data = octets ''00dc''" "field (length A + 4) 4 data = le32_bytes (of_nat (length jpeg))"
    "drop (length A + 8) data = jpeg @ B"
    by (simp_all add: assms(1) field_def)
  have id: "avi_has_id data (length A) ''00dc'' (length data)"
    using fields(1) by (subst has_id_field) (simp_all add: assms(1))
  moreover have "avi_read_u32 data (length A + 4) (length data) = Some (of_nat (length jpeg))"
    using fields(2) by (rule read_u32_field) (simp add: assms(1))
  moreover have "224 + unat (avi_offset e) - 4 = length A" using assms(2) by simp
  moreover have "length data = length A + 8 + length jpeg + length B" by (simp add: assms(1))
  ultimately show ?thesis
    using assms(2-5,7-9) size nonzero fields(3)
    by (simp add: read_avi_frame_def Let_def)
qed

text \<open>
  Nothing else is wrong with a recording: its index lists the frames in the order they were taken, and
  read through that index every frame comes back octet for octet.
\<close>

theorem recorded_frames_read_back:
  assumes "\<forall>jpeg \<in> set frames. length jpeg \<le> 0xFFFFFFFF" "segment_size frames < 2 ^ 32"
    and "fst (finalize (record_frames frames (new_avi_writer w h))) = Some data"
    and "i < length frames" "0 < length (frames ! i)" "length (frames ! i) \<le> buffer_size"
  shows "\<exists>entries. read_index data (segment_size frames - 16 * length frames) (segment_size frames) (length frames) = Some entries \<and>
    read_avi_frame data (new_preview\<lparr>movi_data_offset := 224, preview_entries := entries\<rparr>) i buffer_size = Some (frames ! i)"
proof -
  define entries where "entries = map (frame_entry frames) [0..<length frames]"
  obtain header where header: "length header = 224" "data = header @ frame_data frames @ index_bytes frames"
    using finalize_shape [OF assms(1), of w h] assms(3) by (metis length_filled_header option.inject)
  have size: "length data = segment_size frames"
    by (simp add: header segment_size_def length_index_bytes)
  have start: "segment_size frames - 16 * length frames = length (header @ frame_data frames) + 8"
    by (simp add: header(1) segment_size_def)
  have "field (segment_size frames - 16 * length frames) (16 * length entries) data = concat (map index_record entries)"
    unfolding start
    by (simp add: header entries_def index_bytes_def field_def length_concat index_record_def comp_def sum_list_triv)
  moreover have "segment_size frames - 16 * length frames + 16 * length entries \<le> segment_size frames"
    by (simp add: start header(1) entries_def segment_size_def)
  ultimately have index: "read_index data (segment_size frames - 16 * length frames) (segment_size frames) (length frames) = Some entries"
    using read_index_records [of _ entries] by (simp add: entries_def)
  have split: "frame_data frames = frame_data (take i frames) @ frame_chunk (frames ! i) @ frame_data (drop (Suc i) frames)"
    using id_take_nth_drop [OF assms(4)] by (metis frame_data_def append.assoc concat_append list.simps(9) map_append concat.simps(2) append_Cons append_Nil)
  have bound: "4 + length (frame_data (take i frames)) < 2 ^ 32"
    using assms(2) by (simp add: segment_size_def split)
  have "read_avi_frame data (new_preview\<lparr>movi_data_offset := 224, preview_entries := entries\<rparr>) i buffer_size = Some (frames ! i)"
  proof (rule read_frame_at)
    show "data = (header @ frame_data (take i frames)) @ octets ''00dc'' @ le32_bytes (of_nat (length (frames ! i))) @ frames ! i @
        (replicate (2048 - length (frames ! i) mod 2048) 0 @ frame_data (drop (Suc i) frames) @ index_bytes frames)"
      by (simp add: header(2) split frame_chunk_def)
    have "unat (of_nat (4 + length (frame_data (take i frames))) :: u32) = 4 + length (frame_data (take i frames))"
      using bound by (simp only: unat_of_nat) simp
    then show "length (header @ frame_data (take i frames)) = 220 + unat (avi_offset (frame_entry frames i))"
      by (simp add: header(1) frame_entry_def)
  qed (use assms size in \<open>simp_all add: entries_def frame_entry_def\<close>)
  with index show ?thesis by blast
qed

theorem recorded_frames_read_back_witness:
  "\<exists>data entries. fst (finalize (record_frames [[1, 2, 3], [7]] (new_avi_writer 640 480))) = Some data \<and>
     read_avi_frame data (new_preview\<lparr>movi_data_offset := 224, preview_entries := entries\<rparr>) 1 8 = Some [7]"
proof -
  have frames: "\<forall>jpeg \<in> set [[1, 2, 3], [7]]. length (jpeg :: bytes) \<le> 0xFFFFFFFF" "segment_size [[1, 2, 3], [7]] < 2 ^ 32"
    by (simp_all add: segment_size_def frame_data_def length_frame_chunk)
  then obtain data where data: "fst (finalize (record_frames [[1, 2, 3], [7]] (new_avi_writer 640 480))) = Some data"
    using finalize_shape by blast
  show ?thesis
    using recorded_frames_read_back [OF frames data, of 1 8] data by auto
qed

end
