(* ===== verification/Preview.thy ===== *)
theory Preview
  imports Avi Json_Input
begin

text \<open>
  The preview of recordings over a WebSocket: requests, admission, commands, frame schedule and messages of
  \<open>application/src/playback/preview_*.cpp\<close> and \<open>core/src/media\<close>, and the session of
  \<open>main/media/http_server_adapter.cpp\<close>, its generation and its playback tasks. What the file system reads and
  whether a send succeeds are parameters.
\<close>

section \<open>Requests\<close>

datatype preview_command =
  Preview_open | Preview_play | Preview_pause | Preview_resume | Preview_seek | Preview_stop

record preview_request =
  request_command :: preview_command
  request_sequence :: u32
  request_path :: string
  request_session :: string
  from_milliseconds :: u64
  from_frame :: int
  time_milliseconds :: u64
  seek_frame :: int

definition parse_preview_command :: "string \<Rightarrow> preview_command option" where
  "parse_preview_command command =
     (if command = ''open'' then Some Preview_open
      else if command = ''play'' then Some Preview_play
      else if command = ''pause'' then Some Preview_pause
      else if command = ''resume'' then Some Preview_resume
      else if command = ''seek'' then Some Preview_seek
      else if command = ''stop'' then Some Preview_stop
      else None)"

text \<open>
  The bounds are compared as doubles, so \<open>2 ^ 63\<close> and \<open>2 ^ 64\<close> themselves pass the test although they do not fit;
  the conversion, which the language leaves undefined there, is the greatest value in the model.
\<close>

definition signed_selector :: "rat option \<Rightarrow> int \<Rightarrow> int" where
  "signed_selector found default_value =
     (case found of
        None \<Rightarrow> default_value
      | Some x \<Rightarrow>
          let truncated = truncate_toward_zero x in
          if truncated < - (2 ^ 63) \<or> truncated > 2 ^ 63 then default_value else min truncated (2 ^ 63 - 1))"

definition unsigned_selector :: "rat option \<Rightarrow> u64 \<Rightarrow> u64" where
  "unsigned_selector found default_value =
     (case found of
        None \<Rightarrow> default_value
      | Some x \<Rightarrow>
          if x < 0 then default_value
          else
            let truncated = truncate_toward_zero x in
            if truncated > 2 ^ 64 then default_value else of_int (min truncated (2 ^ 64 - 1)))"

definition bounded_request_text :: "string option \<Rightarrow> nat \<Rightarrow> string" where
  "bounded_request_text found maximum_bytes = (case found of None \<Rightarrow> [] | Some s \<Rightarrow> take maximum_bytes s)"

definition maximum_session_bytes :: nat where
  "maximum_session_bytes = 39"

definition parse_preview_request :: "bytes \<Rightarrow> preview_request option" where
  "parse_preview_request input =
     (case parse_json_prefix input of
        None \<Rightarrow> None
      | Some document \<Rightarrow>
          (case find_json_string document ''cmd'' of
             None \<Rightarrow> None
           | Some command_name \<Rightarrow>
               if find_json_string document ''ns'' \<noteq> Some ''vpreview'' then None
               else
                 (case parse_preview_command command_name of
                    None \<Rightarrow> None
                  | Some command \<Rightarrow>
                      Some \<lparr>request_command = command,
                            request_sequence = ucast (unsigned_selector (find_json_number document ''seq'') 0),
                            request_path = bounded_request_text (find_json_string document ''path'') 255,
                            request_session =
                              bounded_request_text (find_json_string document ''session_id'') maximum_session_bytes,
                            from_milliseconds = unsigned_selector (find_json_number document ''from_ms'') 0,
                            from_frame = signed_selector (find_json_number document ''from_frame'') (-1),
                            time_milliseconds = unsigned_selector (find_json_number document ''t_ms'') 0,
                            seek_frame = signed_selector (find_json_number document ''frame'') (-1)\<rparr>)))"

definition accept_preview_socket_message :: "bool \<Rightarrow> bytes \<Rightarrow> preview_request option" where
  "accept_preview_socket_message is_text payload =
     (if \<not> is_text \<or> payload = [] then None else parse_preview_request payload)"

section \<open>Admission\<close>

definition preview_path_allowed :: "string \<Rightarrow> bool" where
  "preview_path_allowed path \<longleftrightarrow>
     (let videos_root = physical_sd_path ''/videos'' in
      (path = videos_root \<or>
       length path > length videos_root \<and> take (length videos_root) path = videos_root \<and>
       path ! length videos_root = CHR ''/'') \<and>
      find_sub ''..'' path = None)"

datatype preview_open_error = Path_not_allowed | Missing_file | Open_failed | Invalid_avi | Buffer_too_large

text \<open>\<open>std::hex\<close> in eight digits.\<close>

definition hex_digit_char :: "nat \<Rightarrow> char" where
  "hex_digit_char n = ''0123456789abcdef'' ! n"

definition session_hex :: "u32 \<Rightarrow> string" where
  "session_hex v = map (\<lambda>i. hex_digit_char (unat (drop_bit (28 - 4 * i) v AND 15))) [0..<8]"

definition maximum_preview_frame_size :: nat where
  "maximum_preview_frame_size = 256 * 1024"

definition decide_preview_open ::
    "string \<Rightarrow> avi_preview option \<Rightarrow> bool \<Rightarrow> bool \<Rightarrow> u32 \<Rightarrow> u32 \<Rightarrow> preview_open_error + string \<times> nat" where
  "decide_preview_open path avi file_exists file_opened random_high random_low =
     (if \<not> preview_path_allowed path then Inl Path_not_allowed
      else if \<not> file_exists then Inl Missing_file
      else if \<not> file_opened then Inl Open_failed
      else case avi of
          None \<Rightarrow> Inl Invalid_avi
        | Some avi \<Rightarrow>
            let largest = foldl (\<lambda>largest e. max largest (unat (avi_size e))) 0 (preview_entries avi) in
            if largest > maximum_preview_frame_size then Inl Buffer_too_large
            else Inr (''pv-'' @ session_hex random_high @ ''-'' @ session_hex random_low,
                      if largest < 512 then 64 * 1024 else largest))"

section \<open>Messages\<close>

definition json_text :: "string \<Rightarrow> string" where
  "json_text s =
     CHR 0x22 # concat (map (\<lambda>c. if c = CHR 0x22 \<or> c = CHR 0x5C then [CHR 0x5C, c] else [c]) s) @ [CHR 0x22]"

fun command_name :: "preview_command \<Rightarrow> string" where
  "command_name Preview_open = ''open''"
| "command_name Preview_play = ''play''"
| "command_name Preview_pause = ''pause''"
| "command_name Preview_resume = ''resume''"
| "command_name Preview_seek = ''seek''"
| "command_name Preview_stop = ''stop''"

definition signed_decimal_text :: "int \<Rightarrow> string" where
  "signed_decimal_text i = (if i < 0 then CHR ''-'' # decimal (nat (- i)) else decimal (nat i))"

text \<open>A member of an object after the first one.\<close>

definition next_member :: "string \<Rightarrow> string \<Rightarrow> string" where
  "next_member k v = '','' @ json_text k @ '':'' @ v"

definition format_preview_response :: "preview_command \<Rightarrow> u32 \<Rightarrow> int \<Rightarrow> string \<Rightarrow> string \<Rightarrow> string" where
  "format_preview_response command sequence error_code session_ident message =
     CHR 0x7B # json_text ''ns'' @ '':'' @ json_text ''vpreview'' @
     next_member ''rsp'' (json_text (command_name command)) @ next_member ''seq'' (decimal (unat sequence)) @
     next_member ''err'' (signed_decimal_text error_code) @
     (if session_ident \<noteq> [] then next_member ''session_id'' (json_text session_ident) else []) @
     (if message \<noteq> [] then next_member ''message'' (json_text message) else []) @ [CHR 0x7D]"

definition format_preview_conflict :: "preview_command \<Rightarrow> u32 \<Rightarrow> string \<Rightarrow> string" where
  "format_preview_conflict command sequence session_ident =
     format_preview_response command sequence 409 session_ident
       ''This conversation is in conflict. Please try again.''"

definition file_name_of :: "string \<Rightarrow> string" where
  "file_name_of path = rev (takeWhile (\<lambda>c. c \<noteq> CHR ''/'') (rev path))"

definition format_preview_metadata :: "avi_preview \<Rightarrow> string \<Rightarrow> string \<Rightarrow> u32 \<Rightarrow> nat \<Rightarrow> string" where
  "format_preview_metadata avi session_ident path sequence first_frame_index =
     (let period = unat (frame_period_us avi);
          fps = (if period = 0 then 10 else 1000000 div period);
          duration_ms = length (preview_entries avi) * period div 1000
      in CHR 0x7B # json_text ''ns'' @ '':'' @ json_text ''vpreview'' @ next_member ''rsp'' (json_text ''meta'') @
         next_member ''seq'' (decimal (unat sequence)) @ next_member ''err'' (decimal 0) @
         next_member ''session_id'' (json_text session_ident) @ next_member ''path'' (json_text path) @
         next_member ''filename'' (json_text (file_name_of path)) @
         next_member ''total_frames'' (decimal (length (preview_entries avi))) @ next_member ''fps'' (decimal fps) @
         next_member ''frame_period_us'' (decimal period) @ next_member ''duration_ms'' (decimal duration_ms) @
         next_member ''width'' (decimal (unat (preview_width avi))) @
         next_member ''height'' (decimal (unat (preview_height avi))) @
         next_member ''first_frame_index'' (decimal first_frame_index) @ next_member ''stream'' (json_text ''jpeg'') @
         [CHR 0x7D])"

definition json_control_text :: "char \<Rightarrow> string" where
  "json_control_text c =
     (if octet c < 0x20 \<and> escape_char c = [c]
      then [CHR 0x5C] @ ''u00'' @
        [hex_digit_char (unat (drop_bit 4 (octet c) AND 15)), hex_digit_char (unat (octet c AND 15))]
      else escape_char c)"

definition media_text :: "string \<Rightarrow> string" where
  "media_text s = CHR 0x22 # concat (map json_control_text s) @ [CHR 0x22]"

definition common_preemption :: "string \<Rightarrow> string \<Rightarrow> string" where
  "common_preemption namespace_name reason =
     CHR 0x7B # json_text ''ns'' @ '':'' @ media_text namespace_name @ next_member ''rsp'' (json_text ''preempted'') @
     next_member ''reason'' (media_text reason) @
     next_member ''message'' (media_text ''The video stream channel is already occupied.'')"

definition format_live_preemption :: "string \<Rightarrow> string" where
  "format_live_preemption reason = common_preemption ''vlive'' reason @ [CHR 0x7D]"

definition format_preview_preemption :: "string \<Rightarrow> string \<Rightarrow> string" where
  "format_preview_preemption reason session_ident =
     common_preemption ''vpreview'' reason @
     (if session_ident \<noteq> [] then next_member ''session_id'' (media_text session_ident) else []) @ [CHR 0x7D]"

section \<open>Commands\<close>

datatype preview_mode = Preview_playing | Preview_paused | Preview_stopped

record preview_result =
  result_reply :: bool
  result_terminated :: bool
  result_frame :: u32
  result_time :: u64
  result_response :: string

definition no_result :: preview_result where
  "no_result = \<lparr>result_reply = False, result_terminated = False, result_frame = 0, result_time = 0, result_response = []\<rparr>"

definition clamp_frame :: "u64 \<Rightarrow> u32 \<Rightarrow> u32" where
  "clamp_frame selected last_frame = ucast (min selected (ucast last_frame))"

definition apply_preview_command ::
    "preview_request \<Rightarrow> preview_mode \<Rightarrow> u32 \<Rightarrow> u32 \<Rightarrow> u32 \<Rightarrow> bool \<Rightarrow> bool \<Rightarrow> preview_result \<times> preview_mode \<times> u32" where
  "apply_preview_command request mode current_frame last_frame period session_matches session_active =
     (if \<not> session_active
      then (if request_command request \<noteq> Preview_open
            then no_result\<lparr>result_reply := True, result_response := ''conflict''\<rparr> else no_result, mode, current_frame)
      else if \<not> session_matches \<and> mode = Preview_playing then (no_result, mode, current_frame)
      else if \<not> session_matches \<and> mode = Preview_paused \<and> request_command request \<noteq> Preview_play \<and>
        request_command request \<noteq> Preview_resume
      then (if request_command request \<noteq> Preview_stop then (no_result, mode, current_frame)
            else (no_result\<lparr>result_terminated := True\<rparr>, Preview_stopped, current_frame))
      else
        (case request_command request of
           Preview_play \<Rightarrow>
             let frame =
               (if from_frame request \<ge> 0 then clamp_frame (of_int (from_frame request)) last_frame
                else if from_milliseconds request \<noteq> 0 \<and> period \<noteq> 0
                then clamp_frame (from_milliseconds request * 1000 div ucast period) last_frame
                else current_frame)
             in (no_result\<lparr>result_reply := True\<rparr>, Preview_playing, frame)
         | Preview_pause \<Rightarrow>
             if mode = Preview_paused then (no_result, mode, current_frame)
             else (no_result\<lparr>result_reply := True\<rparr>, Preview_paused, current_frame)
         | Preview_resume \<Rightarrow> (no_result\<lparr>result_reply := True\<rparr>, Preview_playing, current_frame)
         | Preview_seek \<Rightarrow>
             let selected =
                   (if seek_frame request \<ge> 0 then of_int (seek_frame request)
                    else if period = 0 then 0 else time_milliseconds request * 1000 div ucast period);
                 frame = clamp_frame selected last_frame
             in (no_result\<lparr>result_reply := True, result_frame := frame,
                            result_time := (if period = 0 then 0 else ucast frame * ucast period div 1000)\<rparr>, mode, frame)
         | Preview_stop \<Rightarrow>
             (no_result\<lparr>result_terminated := True, result_reply := mode \<noteq> Preview_paused\<rparr>, Preview_stopped, current_frame)
         | Preview_open \<Rightarrow> (no_result, mode, current_frame)))"

section \<open>The schedule of frames\<close>

datatype preview_action = Send_preview_frame | Preview_delay | Preview_eos | Preview_terminate

record frame_step =
  step_action :: preview_action
  step_frame :: nat
  step_delay :: u32

definition schedule_preview_frame :: "nat \<Rightarrow> nat \<Rightarrow> u32 \<Rightarrow> bool \<Rightarrow> bool \<Rightarrow> bool \<Rightarrow> bool \<Rightarrow> frame_step" where
  "schedule_preview_frame current_frame frame_count period read_succeeded send_succeeded connection_alive explicitly_stopped =
     (let step = \<lparr>step_action = Preview_terminate, step_frame = current_frame, step_delay = 0\<rparr> in
      if \<not> connection_alive \<or> explicitly_stopped \<or> \<not> read_succeeded \<or> \<not> send_succeeded then step
      else if current_frame \<ge> frame_count then step\<lparr>step_action := Preview_eos\<rparr>
      else let rounded_ticks = period div 10000
           in step\<lparr>step_action := Send_preview_frame,
                   step_delay := (if rounded_ticks = 0 then 10 else rounded_ticks * 10)\<rparr>)"

section \<open>The session on the target\<close>

record preview_session =
  session_file :: bytes
  session_avi :: avi_preview
  session_path :: string
  session_ident :: string
  session_socket :: u32
  session_mode :: preview_mode
  session_frame :: u32

record preview_task =
  task_socket :: u32
  task_file :: bytes
  task_avi :: avi_preview
  task_next :: nat
  task_generation :: u32

record preview_service =
  current_session :: "preview_session option"
  preview_generation :: u32
  preview_tasks :: "preview_task list"

datatype preview_output = Preview_text u32 string | Preview_frame u32 bytes

definition bump_generation :: "preview_service \<Rightarrow> preview_service" where
  "bump_generation s = s\<lparr>preview_generation := preview_generation s + 1\<rparr>"

definition drop_session :: "preview_service \<Rightarrow> preview_service" where
  "drop_session s = (bump_generation s)\<lparr>current_session := None\<rparr>"

text \<open>A frame that could not be received ends the session of its socket.\<close>

definition preview_receive_failed :: "u32 \<Rightarrow> preview_service \<Rightarrow> preview_service" where
  "preview_receive_failed socket s =
     (case current_session s of
        Some session \<Rightarrow> if session_socket session = socket then drop_session s else s
      | None \<Rightarrow> s)"

text \<open>Nothing to send when the frame cannot be read; otherwise the send decides.\<close>

definition send_preview_frame :: "bool \<Rightarrow> u32 \<Rightarrow> preview_session \<Rightarrow> preview_output list \<times> bool" where
  "send_preview_frame sent socket session =
     (case read_avi_frame (session_file session) (session_avi session) (unat (session_frame session))
         (length (session_file session)) of
        None \<Rightarrow> ([], False)
      | Some jpeg \<Rightarrow> ([Preview_frame socket jpeg], sent))"

definition start_playback_task :: "bool \<Rightarrow> u32 \<Rightarrow> preview_session \<Rightarrow> preview_service \<Rightarrow> preview_service" where
  "start_playback_task created socket session s =
     (if created
      then s\<lparr>preview_tasks := preview_tasks s @
        [\<lparr>task_socket = socket, task_file = session_file session, task_avi = session_avi session,
          task_next = unat (session_frame session) + 1, task_generation = preview_generation s\<rparr>]\<rparr>
      else s)"

definition last_frame_of :: "avi_preview \<Rightarrow> u32" where
  "last_frame_of avi = (if preview_entries avi = [] then 0 else of_nat (length (preview_entries avi) - 1))"

text \<open>A command other than open: whether the frame was sent and the task created come from outside.\<close>

definition preview_session_command ::
    "bool \<Rightarrow> bool \<Rightarrow> u32 \<Rightarrow> preview_request \<Rightarrow> preview_service \<Rightarrow> preview_output list \<times> preview_service" where
  "preview_session_command sent created socket request s =
     (let command = request_command request;
          conflict = (\<lambda>ident. ([Preview_text socket (format_preview_conflict command (request_sequence request) ident)], s))
      in case current_session s of
           None \<Rightarrow> conflict []
         | Some session \<Rightarrow>
             if request_session request \<noteq> session_ident session \<or> socket \<noteq> session_socket session
             then conflict (session_ident session)
             else
               let s = (if command \<in> {Preview_play, Preview_resume, Preview_seek} then bump_generation s else s);
                   (result, mode, frame) = apply_preview_command request (session_mode session) (session_frame session)
                     (last_frame_of (session_avi session)) (frame_period_us (session_avi session)) True True;
                   session = session\<lparr>session_mode := mode, session_frame := frame\<rparr>;
                   s = s\<lparr>current_session := Some session\<rparr>;
                   (frames, failed) =
                     (if result_reply result \<and> command \<in> {Preview_play, Preview_seek, Preview_resume}
                      then (let (frames, ok) = send_preview_frame sent socket session in (frames, \<not> ok))
                      else ([], False))
               in if failed then (frames, drop_session s)
                  else
                    let s = (if result_reply result \<and> command \<in> {Preview_play, Preview_resume}
                             then start_playback_task created socket session s else s);
                        s = (if result_terminated result then drop_session s else s)
                    in (frames @
                        (if result_reply result
                         then [Preview_text socket
                           (format_preview_response command (request_sequence request) 0 (session_ident session) [])]
                         else []), s))"

definition preview_open ::
    "bool \<Rightarrow> (string \<Rightarrow> bytes option) \<Rightarrow> u32 \<Rightarrow> preview_request \<Rightarrow> preview_service \<Rightarrow> preview_output list \<times> preview_service" where
  "preview_open live_available files socket request s =
     (if \<not> live_available then ([], s)
      else
        let path = normalize_path (request_path request);
            refuse = ([Preview_text socket (format_preview_response (request_command request) (request_sequence request) (-1) [] [])], s)
        in if \<not> preview_path_allowed path then refuse
           else case files path of
               None \<Rightarrow> refuse
             | Some content \<Rightarrow>
                 (case decide_preview_open path (parse_avi content) True True socket (request_sequence request) of
                    Inl _ \<Rightarrow> refuse
                  | Inr (ident, _) \<Rightarrow>
                      let avi = the (parse_avi content);
                          (outputs, s) =
                            (case current_session s of
                               Some session \<Rightarrow>
                                 if session_socket session \<noteq> socket
                                 then ([Preview_text (session_socket session)
                                          (format_preview_preemption ''preview'' (session_ident session))], bump_generation s)
                                 else ([], s)
                             | None \<Rightarrow> ([], s));
                          session = \<lparr>session_file = content, session_avi = avi, session_path = request_path request,
                            session_ident = ident, session_socket = socket, session_mode = Preview_stopped, session_frame = 0\<rparr>
                      in (outputs @ [Preview_text socket
                            (format_preview_metadata avi ident (request_path request) (request_sequence request) 0)],
                          (bump_generation s)\<lparr>current_session := Some session\<rparr>)))"

definition preview_message ::
    "bool \<Rightarrow> (string \<Rightarrow> bytes option) \<Rightarrow> bool \<Rightarrow> bool \<Rightarrow> u32 \<Rightarrow> bool \<Rightarrow> bytes \<Rightarrow> preview_service \<Rightarrow> preview_output list \<times> preview_service" where
  "preview_message live_available files sent created socket is_text payload s =
     (case accept_preview_socket_message is_text payload of
        None \<Rightarrow> ([], s)
      | Some request \<Rightarrow>
          if request_command request = Preview_open then preview_open live_available files socket request s
          else preview_session_command sent created socket request s)"

text \<open>One turn of the i-th playback task; its result is the task that is left, if it goes on.\<close>

definition playback_turn :: "bool \<Rightarrow> bool \<Rightarrow> u32 \<Rightarrow> preview_task \<Rightarrow> preview_output list \<times> preview_task option" where
  "playback_turn connection_alive sent generation task =
     (if task_next task < length (preview_entries (task_avi task)) \<and> generation = task_generation task
      then
        let jpeg = read_avi_frame (task_file task) (task_avi task) (task_next task) (length (task_file task));
            outputs = (case jpeg of
                Some jpeg \<Rightarrow> if connection_alive then [Preview_frame (task_socket task) jpeg] else []
              | None \<Rightarrow> []);
            step = schedule_preview_frame (task_next task) (length (preview_entries (task_avi task)))
              (frame_period_us (task_avi task)) (jpeg \<noteq> None) (connection_alive \<and> jpeg \<noteq> None \<and> sent) connection_alive False
        in (outputs,
            if step_action step \<noteq> Send_preview_frame then None else Some (task\<lparr>task_next := task_next task + 1\<rparr>))
      else ([], None))"

definition run_task :: "bool \<Rightarrow> bool \<Rightarrow> nat \<Rightarrow> preview_service \<Rightarrow> preview_output list \<times> preview_service" where
  "run_task connection_alive sent i s =
     (if i < length (preview_tasks s)
      then
        let (outputs, left) = playback_turn connection_alive sent (preview_generation s) (preview_tasks s ! i)
        in (outputs,
            s\<lparr>preview_tasks :=
               (case left of
                  None \<Rightarrow> take i (preview_tasks s) @ drop (Suc i) (preview_tasks s)
                | Some task \<Rightarrow> (preview_tasks s)[i := task])\<rparr>)
      else ([], s))"

section \<open>Playing a recording\<close>

text \<open>Turns of one task, each with its own answers for the connection and the send.\<close>

fun run_turns :: "(bool \<times> bool) list \<Rightarrow> nat \<Rightarrow> preview_service \<Rightarrow> preview_output list \<times> preview_service" where
  "run_turns [] i s = ([], s)"
| "run_turns ((connection_alive, sent) # turns) i s =
     (let (outputs, s) = run_task connection_alive sent i s; (rest, s) = run_turns turns i s in (outputs @ rest, s))"

definition frames_readable :: "bytes \<Rightarrow> avi_preview \<Rightarrow> bytes list \<Rightarrow> bool" where
  "frames_readable content avi jpegs \<longleftrightarrow>
     length jpegs = length (preview_entries avi) \<and>
     (\<forall>i < length jpegs. read_avi_frame content avi i (length content) = Some (jpegs ! i))"

definition session_addressed :: "u32 \<Rightarrow> preview_request \<Rightarrow> preview_service \<Rightarrow> preview_session \<Rightarrow> bool" where
  "session_addressed socket request s session \<longleftrightarrow>
     current_session s = Some session \<and> request_session request = session_ident session \<and> socket = session_socket session"

definition acknowledgement :: "u32 \<Rightarrow> preview_request \<Rightarrow> preview_session \<Rightarrow> preview_output" where
  "acknowledgement socket request session =
     Preview_text socket (format_preview_response (request_command request) (request_sequence request) 0 (session_ident session) [])"

lemma turns_deliver:
  assumes "frames_readable content avi jpegs"
    and "preview_tasks s = before @ [\<lparr>task_socket = socket, task_file = content, task_avi = avi, task_next = k,
      task_generation = preview_generation s\<rparr>]"
    and "k \<le> length jpegs"
  shows "run_turns (replicate (length jpegs - k) (True, True)) (length before) s =
    (map (Preview_frame socket) (drop k jpegs),
     s\<lparr>preview_tasks := before @ [\<lparr>task_socket = socket, task_file = content, task_avi = avi,
       task_next = length jpegs, task_generation = preview_generation s\<rparr>]\<rparr>)"
  using assms(2,3)
proof (induction "length jpegs - k" arbitrary: k s)
  case 0
  then show ?case by simp
next
  case (Suc n)
  then have k: "k < length jpegs" "length jpegs - k = Suc n" "n = length jpegs - Suc k" by linarith+
  define s' where "s' = s\<lparr>preview_tasks := before @ [\<lparr>task_socket = socket, task_file = content, task_avi = avi,
      task_next = Suc k, task_generation = preview_generation s\<rparr>]\<rparr>"
  have "read_avi_frame content avi k (length content) = Some (jpegs ! k)" "length (preview_entries avi) = length jpegs"
    using assms(1) k(1) by (simp_all add: frames_readable_def)
  then have "run_task True True (length before) s = ([Preview_frame socket (jpegs ! k)], s')"
    using k(1) Suc.prems(1) by (simp add: run_task_def playback_turn_def schedule_preview_frame_def Let_def s'_def)
  moreover have "run_turns (replicate n (True, True)) (length before) s' =
      (map (Preview_frame socket) (drop (Suc k) jpegs),
       s'\<lparr>preview_tasks := before @ [\<lparr>task_socket = socket, task_file = content, task_avi = avi,
         task_next = length jpegs, task_generation = preview_generation s'\<rparr>]\<rparr>)"
    using Suc.hyps(1) [OF k(3), of s'] k(1) by (simp add: s'_def k(3))
  ultimately show ?case
    using k(1) by (simp add: k(2) s'_def Cons_nth_drop_Suc [symmetric])
qed

lemma clamp_frame_exact:
  assumes "k \<le> m" "m < 2 ^ 32"
  shows "clamp_frame (of_nat k) (of_nat m) = of_nat k"
proof -
  have "unat (of_nat k :: u64) = k"
    using assms by (simp only: unat_of_nat) simp
  moreover have "unat (ucast (of_nat m :: u32) :: u64) = m"
    using assms(2) by (simp add: unsigned_ucast_eq unat_of_nat take_bit_eq_mod)
  ultimately have "(of_nat k :: u64) \<le> ucast (of_nat m :: u32)"
    using assms(1) by (simp add: word_le_nat_alt)
  then have "clamp_frame (of_nat k) (of_nat m) = ucast (of_nat k :: u64)"
    by (simp add: clamp_frame_def min_absorb1)
  then show ?thesis
    using \<open>unat (of_nat k :: u64) = k\<close> by (metis of_nat_unat)
qed

lemma task_ends:
  assumes "preview_tasks s = before @ [task]" "length (preview_entries (task_avi task)) \<le> task_next task"
  shows "run_task connection_alive sent (length before) s = ([], s\<lparr>preview_tasks := before\<rparr>)"
  using assms by (simp add: run_task_def playback_turn_def Let_def)

lemma run_turns_append:
  "run_turns (ts @ us) i s =
     (let (a, s) = run_turns ts i s; (b, s) = run_turns us i s in (a @ b, s))"
  by (induction ts arbitrary: s) (auto simp: Let_def split: prod.splits)

text \<open>What a play command does to the session and its tasks.\<close>

lemma play_command:
  assumes "session_addressed socket request s session" "request_command request = Preview_play"
    and "frames_readable (session_file session) (session_avi session) jpegs" "length jpegs < 2 ^ 32"
    and "from_frame request = int k" "k < length jpegs"
  shows "preview_session_command True True socket request s =
    ([Preview_frame socket (jpegs ! k), acknowledgement socket request session],
     s\<lparr>preview_generation := preview_generation s + 1,
       current_session := Some (session\<lparr>session_mode := Preview_playing, session_frame := of_nat k\<rparr>),
       preview_tasks := preview_tasks s @ [\<lparr>task_socket = socket, task_file = session_file session,
         task_avi = session_avi session, task_next = Suc k, task_generation = preview_generation s + 1\<rparr>]\<rparr>)"
proof -
  have entries: "length (preview_entries (session_avi session)) = length jpegs"
    and jpeg: "read_avi_frame (session_file session) (session_avi session) k (length (session_file session)) = Some (jpegs ! k)"
    using assms(3,6) by (simp_all add: frames_readable_def)
  then have "last_frame_of (session_avi session) = of_nat (length jpegs - 1)"
    using assms(6) by (cases "preview_entries (session_avi session)") (simp_all add: last_frame_of_def)
  then have "clamp_frame (of_nat k) (last_frame_of (session_avi session)) = of_nat k"
    using assms(4,6) by (simp only: clamp_frame_exact)
  moreover have "unat (of_nat k :: u32) = k"
    using assms(4,6) by (simp only: unat_of_nat) simp
  ultimately show ?thesis
    using assms(1,2,5) jpeg
    by (simp add: preview_session_command_def session_addressed_def apply_preview_command_def no_result_def Let_def
        send_preview_frame_def start_playback_task_def bump_generation_def acknowledgement_def)
qed

text \<open>
  C16. A play command on the own session delivers the recording: the frame it names, then from the new task every
  frame behind it in order and once, and the task ends, when the frames can be read and the sends succeed.
\<close>

theorem preview_plays_recording:
  assumes "session_addressed socket request s session" "request_command request = Preview_play"
    and "frames_readable (session_file session) (session_avi session) jpegs" "length jpegs < 2 ^ 32"
    and "from_frame request = int k" "k < length jpegs"
    and "preview_session_command True True socket request s = (outputs, s')"
  shows "outputs = [Preview_frame socket (jpegs ! k), acknowledgement socket request session] \<and>
    fst (run_turns (replicate (length jpegs - Suc k) (True, True)) (length (preview_tasks s)) s') =
      map (Preview_frame socket) (drop (Suc k) jpegs) \<and>
    snd (run_turns (replicate (length jpegs - k) (True, True)) (length (preview_tasks s)) s') =
      s'\<lparr>preview_tasks := preview_tasks s\<rparr>"
proof -
  define task where "task n = \<lparr>task_socket = socket, task_file = session_file session, task_avi = session_avi session,
    task_next = n, task_generation = preview_generation s + 1\<rparr>" for n
  have result: "outputs = [Preview_frame socket (jpegs ! k), acknowledgement socket request session]"
    and s': "s' = s\<lparr>preview_generation := preview_generation s + 1,
       current_session := Some (session\<lparr>session_mode := Preview_playing, session_frame := of_nat k\<rparr>),
       preview_tasks := preview_tasks s @ [task (Suc k)]\<rparr>"
    using play_command [OF assms(1-6)] assms(7) by (simp_all add: task_def)
  have turns: "run_turns (replicate (length jpegs - Suc k) (True, True)) (length (preview_tasks s)) s' =
      (map (Preview_frame socket) (drop (Suc k) jpegs), s'\<lparr>preview_tasks := preview_tasks s @ [task (length jpegs)]\<rparr>)"
    using turns_deliver [OF assms(3), of s' "preview_tasks s" socket "Suc k"] assms(6) by (simp add: s' task_def)
  have "length (preview_entries (session_avi session)) = length jpegs"
    using assms(3) by (simp add: frames_readable_def)
  then have "run_task True True (length (preview_tasks s)) (s'\<lparr>preview_tasks := preview_tasks s @ [task (length jpegs)]\<rparr>) =
      ([], s'\<lparr>preview_tasks := preview_tasks s\<rparr>)"
    using task_ends [of "s'\<lparr>preview_tasks := preview_tasks s @ [task (length jpegs)]\<rparr>" "preview_tasks s" "task (length jpegs)"]
    by (simp add: task_def)
  moreover have "replicate (length jpegs - k) (True, True) = replicate (length jpegs - Suc k) (True, True) @ [(True, True)]"
    using assms(6) by (simp add: Suc_diff_Suc [symmetric] replicate_append_same)
  ultimately show ?thesis
    using result turns by (simp add: run_turns_append)
qed

text \<open>
  C26. Pausing does not pause, and resuming goes back. The pause command only notes the mode: the running task
  sends exactly what it would have sent without it. A resume after any number of its turns then sends again the frame
  the session last selected, and starts a second delivery behind that frame.
\<close>

theorem pause_does_not_stop_playback:
  assumes "session_addressed socket request s session" "request_command request = Preview_pause"
    and "session_mode session = Preview_playing"
    and "preview_session_command sent created socket request s = (outputs, s')"
  shows "outputs = [acknowledgement socket request session] \<and>
    map_option session_mode (current_session s') = Some Preview_paused \<and>
    fst (run_turns turns i s') = fst (run_turns turns i s) \<and>
    map_option session_frame (current_session (snd (run_turns turns i s'))) = Some (session_frame session)"
proof -
  have result: "outputs = [acknowledgement socket request session]"
    and s': "s' = s\<lparr>current_session := Some (session\<lparr>session_mode := Preview_paused\<rparr>)\<rparr>"
    using assms
    by (auto simp: preview_session_command_def session_addressed_def apply_preview_command_def no_result_def Let_def
        acknowledgement_def)
  have turn: "run_task connection_alive sent i (s\<lparr>current_session := c\<rparr>) =
      (fst (run_task connection_alive sent i s), snd (run_task connection_alive sent i s)\<lparr>current_session := c\<rparr>)"
    for connection_alive sent i s c
    by (simp add: run_task_def Let_def case_prod_beta split: option.split)
  have "run_turns turns i (s\<lparr>current_session := c\<rparr>) =
      (fst (run_turns turns i s), snd (run_turns turns i s)\<lparr>current_session := c\<rparr>)" for s c
    by (induction turns arbitrary: s) (auto simp: turn Let_def case_prod_beta)
  then show ?thesis
    by (simp add: result s')
qed

text \<open>A session on a file of one frame, and a request for it.\<close>

definition sample_session :: preview_session where
  "sample_session =
     \<lparr>session_file = octets ''00dc'' @ le32_bytes 1 @ [9],
      session_avi = new_preview\<lparr>movi_data_offset := 4, preview_entries := [\<lparr>avi_offset = 0, avi_size = 1\<rparr>]\<rparr>,
      session_path = ''/sd/videos/a.avi'', session_ident = ''pv-1'', session_socket = 5,
      session_mode = Preview_playing, session_frame = 0\<rparr>"

definition sample_request :: "preview_command \<Rightarrow> preview_request" where
  "sample_request command =
     \<lparr>request_command = command, request_sequence = 1, request_path = [], request_session = ''pv-1'',
      from_milliseconds = 0, from_frame = 0, time_milliseconds = 0, seek_frame = -1\<rparr>"

definition sample_service :: preview_service where
  "sample_service = \<lparr>current_session = Some sample_session, preview_generation = 0, preview_tasks = []\<rparr>"

lemma sample_readable: "frames_readable (session_file sample_session) (session_avi sample_session) [[9]]"
proof -
  define content where "content = octets ''00dc'' @ le32_bytes 1 @ [9]"
  have "avi_has_id content 0 ''00dc'' (length content)"
    by (subst has_id_field) (simp_all add: content_def field_def)
  moreover have "avi_read_u32 content 4 (length content) = Some 1"
    by (rule read_u32_field) (simp_all add: content_def field_def)
  ultimately have "read_avi_frame content (session_avi sample_session) 0 (length content) = Some [9]"
    by (simp add: read_avi_frame_def sample_session_def Let_def content_def)
  then show ?thesis by (simp add: frames_readable_def sample_session_def content_def)
qed

lemma sample_addressed: "session_addressed 5 (sample_request command) sample_service sample_session"
  by (simp add: session_addressed_def sample_request_def sample_service_def sample_session_def)

theorem preview_plays_recording_witness:
  "fst (preview_session_command True True 5 (sample_request Preview_play) sample_service) =
    [Preview_frame 5 [9], acknowledgement 5 (sample_request Preview_play) sample_session]"
  using preview_plays_recording [OF sample_addressed _ sample_readable, of Preview_play 0]
  by (cases "preview_session_command True True 5 (sample_request Preview_play) sample_service") (simp add: sample_request_def)

theorem pause_does_not_stop_playback_witness:
  "fst (preview_session_command True True 5 (sample_request Preview_pause) sample_service) =
    [acknowledgement 5 (sample_request Preview_pause) sample_session]"
  using pause_does_not_stop_playback [OF sample_addressed, of Preview_pause]
  by (cases "preview_session_command True True 5 (sample_request Preview_pause) sample_service")
    (simp add: sample_request_def sample_session_def)

text \<open>A text, a path and the numbers of a request written as a document are the request that is read.\<close>

lemma request_document_read:
  assumes "list_all writable path" "list_all writable ident" "n < 2 ^ 53"
  shows "map_option (\<lambda>r. (request_command r, request_path r, request_session r, from_frame r))
    (parse_preview_request (octets (document_text
      [(''ns'', Json_text ''vpreview''), (''cmd'', Json_text (command_name command)), (''path'', Json_text path),
       (''session_id'', Json_text ident), (''from_frame'', Json_number n)]) @ trailing)) =
    Some (command, take 255 path, take 39 ident, int n)"
proof -
  have "list_all writable (command_name command)"
    by (cases command) (simp_all add: writable_def octet_def)
  moreover have "parse_preview_command (command_name command) = Some command"
    by (cases command) (simp_all add: parse_preview_command_def)
  moreover have "truncate_toward_zero (of_nat n) = int n" by (simp add: truncate_toward_zero_def)
  ultimately show ?thesis
    using assms
    by (simp add: parse_preview_request_def json_body writable_def octet_def member_names_equal_def ascii_lower_def
        bounded_request_text_def maximum_session_bytes_def signed_selector_def)
qed

end
