(* ===== verification/Live.thy ===== *)
theory Live
  imports Preview
begin

text \<open>
  Live video: the ownership policy and the order of one frame (\<open>application/src/runtime/live_control_policy.cpp\<close>,
  \<open>live_frame_iteration.cpp\<close>), with the arbiter and the streaming tasks of
  \<open>main/media/http_server_adapter.cpp\<close>: their generation and the semaphore that a task gives when it ends.
\<close>

section \<open>Ownership\<close>

datatype live_action = Live_start | Live_stop | Live_preempted

type_synonym live_decision = "live_action \<times> u32"

definition live_handle :: "u32 \<Rightarrow> string \<Rightarrow> u32 option \<Rightarrow> live_decision list \<times> u32 option" where
  "live_handle socket payload owner =
     (let payload = takeWhile (\<lambda>c. c \<noteq> CHR 0x00) payload in
      if payload = ''stop_stream''
      then (if owner = Some socket then ([(Live_stop, socket)], None) else ([], owner))
      else if payload \<noteq> ''start_stream'' then ([], owner)
      else if owner = Some socket then ([], owner)
      else ((case owner of Some o' \<Rightarrow> [(Live_stop, o'), (Live_preempted, o')] | None \<Rightarrow> []) @ [(Live_start, socket)],
            Some socket))"

definition live_disconnect :: "u32 \<Rightarrow> u32 option \<Rightarrow> live_decision list \<times> u32 option" where
  "live_disconnect socket owner = (if owner \<noteq> Some socket then ([], owner) else ([(Live_stop, socket)], None))"

section \<open>One frame\<close>

datatype live_frame_call = Validate_socket u32 | Capture_jpeg | Send_jpeg u32 bytes

definition live_frame_iteration :: "bool \<Rightarrow> bytes option \<Rightarrow> bool \<Rightarrow> u32 \<Rightarrow> live_frame_call list \<times> bool" where
  "live_frame_iteration valid captured sent socket =
     (if \<not> valid then ([Validate_socket socket], False)
      else case captured of
          None \<Rightarrow> ([Validate_socket socket, Capture_jpeg], False)
        | Some jpeg \<Rightarrow> ([Validate_socket socket, Capture_jpeg, Send_jpeg socket jpeg], sent))"

section \<open>The arbiter\<close>

record live_service =
  live_owner :: "u32 option"
  live_generation :: u32
  live_tasks :: "(u32 \<times> u32) list"
  stopped_token :: bool
  live_preview :: preview_service

datatype live_output = Live_text u32 string | Close_socket u32

text \<open>
  What the outside answers while one request is handled: whether a revoked task ends within the wait, and
  whether the task of a start is created.
\<close>

record live_answers =
  task_ends_in_time :: bool
  task_created :: bool

text \<open>
  The wait for the token. One that is there is taken; otherwise a revoked task may end in time, give it, and be gone.
\<close>

definition await_stopped :: "live_answers \<Rightarrow> live_service \<Rightarrow> bool \<times> live_service" where
  "await_stopped a s =
     (if stopped_token s then (True, s\<lparr>stopped_token := False\<rparr>)
      else case find (\<lambda>(_, g). g \<noteq> live_generation s) (live_tasks s) of
          Some task \<Rightarrow> if task_ends_in_time a then (True, s\<lparr>live_tasks := remove1 task (live_tasks s)\<rparr>) else (False, s)
        | None \<Rightarrow> (False, s))"

definition preempt_preview_for_live :: "live_service \<Rightarrow> live_output list \<times> live_service" where
  "preempt_preview_for_live s =
     (case current_session (live_preview s) of
        None \<Rightarrow> ([], s)
      | Some session \<Rightarrow>
          ([Live_text (session_socket session) (format_preview_preemption ''live'' (session_ident session))],
           s\<lparr>live_preview := drop_session (live_preview s)\<rparr>))"

definition start_live_stream :: "live_answers \<Rightarrow> u32 \<Rightarrow> live_service \<Rightarrow> bool \<times> live_service" where
  "start_live_stream a socket s =
     (let s = s\<lparr>stopped_token := False, live_generation := live_generation s + 1\<rparr>
      in if task_created a then (True, s\<lparr>live_tasks := live_tasks s @ [(socket, live_generation s)]\<rparr>) else (False, s))"

definition release_owner :: "u32 \<Rightarrow> live_service \<Rightarrow> live_service" where
  "release_owner socket s = s\<lparr>live_owner := snd (live_disconnect socket (live_owner s))\<rparr>"

definition apply_decision ::
    "live_answers \<Rightarrow> live_decision \<Rightarrow> bool \<times> live_output list \<times> live_service \<Rightarrow> bool \<times> live_output list \<times> live_service" where
  "apply_decision a decision state =
     (let (preceding_stopped, outputs, s) = state; (action, socket) = decision in
      case action of
        Live_preempted \<Rightarrow> (preceding_stopped, outputs @ [Live_text socket (format_live_preemption ''live'')], s)
      | Live_stop \<Rightarrow>
          (let (stopped, s) = await_stopped a (s\<lparr>live_generation := live_generation s + 1\<rparr>) in (stopped, outputs, s))
      | Live_start \<Rightarrow>
          if \<not> preceding_stopped then (preceding_stopped, outputs @ [Close_socket socket], release_owner socket s)
          else
            let (notices, s) = preempt_preview_for_live s; (started, s) = start_live_stream a socket s
            in (preceding_stopped, outputs @ notices, if started then s else release_owner socket s))"

definition arbiter_request :: "live_answers \<Rightarrow> u32 \<Rightarrow> bool \<Rightarrow> live_service \<Rightarrow> live_output list \<times> live_service" where
  "arbiter_request a socket is_start s =
     (let (decisions, owner) = live_handle socket (if is_start then ''start_stream'' else ''stop_stream'') (live_owner s)
      in snd (fold (apply_decision a) decisions (True, [], s\<lparr>live_owner := owner\<rparr>)))"

text \<open>
  A turn of the i-th task. One that is revoked or whose frame fails ends and gives the token; the failed one also
  asks the arbiter to stop, which is the result, and has its socket closed.
\<close>

definition live_task_turn :: "bool \<Rightarrow> bool \<Rightarrow> nat \<Rightarrow> live_service \<Rightarrow> (u32 option \<times> live_output list) \<times> live_service" where
  "live_task_turn frame_sent socket_open i s =
     (if i < length (live_tasks s)
      then
        let (socket, generation) = live_tasks s ! i;
            ended = s\<lparr>live_tasks := take i (live_tasks s) @ drop (Suc i) (live_tasks s), stopped_token := True\<rparr>
        in if generation \<noteq> live_generation s then ((None, []), ended)
           else if frame_sent then ((None, []), s)
           else ((Some socket, if socket_open then [Close_socket socket] else []), ended)
      else ((None, []), s))"

section \<open>One stream at a time\<close>

definition new_live_service :: live_service where
  "new_live_service =
     \<lparr>live_owner = None, live_generation = 0, live_tasks = [], stopped_token = False,
      live_preview = \<lparr>current_session = None, preview_generation = 0, preview_tasks = []\<rparr>\<rparr>"

inductive live_step :: "live_service \<Rightarrow> live_service \<Rightarrow> bool" where
  requested: "task_ends_in_time a \<Longrightarrow> live_step s (snd (arbiter_request a socket is_start s))"
| streamed: "live_step s (snd (live_task_turn frame_sent socket_open i s))"
| previewed: "live_step s (s\<lparr>live_preview := p\<rparr>)"

inductive live_reachable :: "live_service \<Rightarrow> bool" where
  fresh: "live_reachable new_live_service"
| stepped: "live_reachable s \<Longrightarrow> live_step s s' \<Longrightarrow> live_reachable s'"

definition live_inv :: "live_service \<Rightarrow> bool" where
  "live_inv s \<longleftrightarrow>
     (case live_owner s of
        None \<Rightarrow> live_tasks s = []
      | Some socket \<Rightarrow>
          live_tasks s = [(socket, live_generation s)] \<and> \<not> stopped_token s \<or> live_tasks s = [] \<and> stopped_token s)"

lemma live_inv_stop:
  assumes "live_inv s" "live_owner s = Some socket" "task_ends_in_time a"
  shows "\<exists>s'. apply_decision a (Live_stop, socket) (True, outputs, s\<lparr>live_owner := owner\<rparr>) = (True, outputs, s') \<and>
    live_tasks s' = [] \<and> \<not> stopped_token s' \<and> live_owner s' = owner"
  using assms by (auto simp: live_inv_def apply_decision_def await_stopped_def Let_def)

lemma live_inv_start:
  assumes "live_tasks s = []" "live_owner s = Some socket"
  shows "live_inv (snd (snd (apply_decision a (Live_start, socket) (True, outputs, s))))"
  using assms
  by (auto simp: apply_decision_def preempt_preview_for_live_def start_live_stream_def release_owner_def live_disconnect_def
      live_inv_def Let_def split: option.split)

lemma live_inv_request:
  assumes "live_inv s" "task_ends_in_time a"
  shows "live_inv (snd (arbiter_request a socket is_start s))"
proof -
  define fresh where "fresh = s\<lparr>live_owner := Some socket\<rparr>"
  have stop: "live_handle socket ''stop_stream'' owner = (if owner = Some socket then ([(Live_stop, socket)], None) else ([], owner))"
    for owner by (simp add: live_handle_def)
  have start: "live_handle socket ''start_stream'' owner =
      (if owner = Some socket then ([], owner)
       else ((case owner of Some o' \<Rightarrow> [(Live_stop, o'), (Live_preempted, o')] | None \<Rightarrow> []) @ [(Live_start, socket)], Some socket))"
    for owner by (simp add: live_handle_def)
  consider "\<not> is_start" | "is_start" "live_owner s = Some socket" | "is_start" "live_owner s = None"
    | o' where "is_start" "live_owner s = Some o'" "o' \<noteq> socket"
    by (cases "live_owner s") auto
  then show ?thesis
  proof cases
    case 1
    then show ?thesis
      using live_inv_stop [OF assms(1) _ assms(2), of socket "[]" None] assms(1)
      by (cases "live_owner s = Some socket") (auto simp: arbiter_request_def stop live_inv_def)
  next
    case 2
    then show ?thesis using assms(1) by (simp add: arbiter_request_def start live_inv_def)
  next
    case 3
    then have "live_tasks (s\<lparr>live_owner := Some socket\<rparr>) = []" using assms(1) by (simp add: live_inv_def)
    then show ?thesis using 3 live_inv_start [of "s\<lparr>live_owner := Some socket\<rparr>" socket a "[]"] by (simp add: arbiter_request_def start)
  next
    case 4
    obtain s' where s': "apply_decision a (Live_stop, o') (True, [], s\<lparr>live_owner := Some socket\<rparr>) = (True, [], s')"
      "live_tasks s' = []" "live_owner s' = Some socket"
      using live_inv_stop [OF assms(1) 4(2) assms(2), of "[]" "Some socket"] by blast
    have "apply_decision a (Live_preempted, o') (True, [], s') = (True, [Live_text o' (format_live_preemption ''live'')], s')"
      by (simp add: apply_decision_def)
    then show ?thesis
      using 4 s' live_inv_start [of s' socket a "[Live_text o' (format_live_preemption ''live'')]"]
      by (simp add: arbiter_request_def start)
  qed
qed

lemma live_inv_turn: "live_inv s \<Longrightarrow> live_inv (snd (live_task_turn frame_sent socket_open i s))"
  by (cases frame_sent; cases i) (auto simp: live_inv_def live_task_turn_def Let_def split: option.splits)

text \<open>
  C22. Live video has one stream. While every revoked task ends within the wait, whatever the clients request and
  however frames fail, at most one task is alive; it is the owner's and has the current generation, so a new
  stream never starts before the previous one has ended.
\<close>

theorem live_single_stream:
  assumes "live_reachable s"
  shows "live_tasks s = [] \<or> (\<exists>socket. live_owner s = Some socket \<and> live_tasks s = [(socket, live_generation s)])"
proof -
  have "live_inv s"
    using assms
  proof induction
    case fresh
    then show ?case by (simp add: live_inv_def new_live_service_def)
  next
    case (stepped s s')
    show ?case
      using stepped.hyps(2) stepped.IH
      by cases (auto simp: live_inv_request live_inv_turn, auto simp: live_inv_def split: option.splits)
  qed
  then show ?thesis by (auto simp: live_inv_def split: option.splits)
qed

definition prompt_answers :: live_answers where
  "prompt_answers = \<lparr>task_ends_in_time = True, task_created = True\<rparr>"

theorem live_single_stream_witness:
  "live_tasks (snd (arbiter_request prompt_answers 2 True (snd (arbiter_request prompt_answers 1 True new_live_service)))) = [(2, 3)]"
proof -
  define s where "s = snd (arbiter_request prompt_answers 2 True (snd (arbiter_request prompt_answers 1 True new_live_service)))"
  have served: "live_reachable (snd (arbiter_request prompt_answers socket True s))" if "live_reachable s" for socket s
    using that by (rule live_reachable.stepped) (rule live_step.requested, simp add: prompt_answers_def)
  have "live_reachable s"
    unfolding s_def by (rule served [OF served [OF live_reachable.fresh]])
  then have "live_tasks s = [] \<or> (\<exists>socket. live_owner s = Some socket \<and> live_tasks s = [(socket, live_generation s)])"
    by (rule live_single_stream)
  moreover have "live_tasks s = [(2, 3)]"
    by (simp add: s_def arbiter_request_def live_handle_def apply_decision_def await_stopped_def preempt_preview_for_live_def
        start_live_stream_def Let_def prompt_answers_def new_live_service_def)
  ultimately show ?thesis by (simp add: s_def)
qed

text \<open>
  A stop that takes too long lets the streams overlap. The start that finds the wait expired is refused and
  gives the ownership up; repeated, it finds no owner, waits for nothing, and starts its task beside the old one.
\<close>

theorem late_stop_overlaps_streams:
  assumes "live_owner s = Some old" "live_tasks s = [(old, live_generation s)]" "\<not> stopped_token s" "old \<noteq> socket"
    and "\<not> task_ends_in_time a" "task_created a"
    and "arbiter_request a socket True s = (outputs, refused)"
  shows "Close_socket socket \<in> set outputs \<and> live_tasks refused = live_tasks s \<and> live_owner refused = None \<and>
    live_tasks (snd (arbiter_request a socket True refused)) = [(old, live_generation s), (socket, live_generation s + 2)]"
proof -
  have "arbiter_request a socket True s =
      ([Live_text old (format_live_preemption ''live''), Close_socket socket],
       s\<lparr>live_generation := live_generation s + 1, live_owner := None\<rparr>)"
    using assms(1-5)
    by (simp add: arbiter_request_def live_handle_def apply_decision_def await_stopped_def release_owner_def live_disconnect_def Let_def)
  then have "outputs = [Live_text old (format_live_preemption ''live''), Close_socket socket]"
    "refused = s\<lparr>live_generation := live_generation s + 1, live_owner := None\<rparr>"
    using assms(7) by simp_all
  then show ?thesis
    using assms(1-6)
    by (auto simp: arbiter_request_def live_handle_def apply_decision_def preempt_preview_for_live_def start_live_stream_def
        Let_def add.assoc split: option.split)
qed

definition late_answers :: live_answers where
  "late_answers = \<lparr>task_ends_in_time = False, task_created = True\<rparr>"

theorem late_stop_overlaps_streams_witness:
  "live_tasks (snd (arbiter_request late_answers 2 True (snd (arbiter_request late_answers 2 True
     (snd (arbiter_request late_answers 1 True new_live_service)))))) = [(1, 1), (2, 3)]"
proof -
  define s where "s = snd (arbiter_request late_answers 1 True new_live_service)"
  have "live_owner s = Some 1" "live_tasks s = [(1, live_generation s)]" "\<not> stopped_token s" "live_generation s = 1"
    by (simp_all add: s_def arbiter_request_def live_handle_def apply_decision_def preempt_preview_for_live_def
        start_live_stream_def Let_def late_answers_def new_live_service_def)
  then show ?thesis
    using late_stop_overlaps_streams [of s 1 2 late_answers]
    by (cases "arbiter_request late_answers 2 True s") (simp add: late_answers_def s_def)
qed

end
