(* ===== verification/Recording.thy ===== *)
theory Recording
  imports Avi Camera Routing
begin

text \<open>
  Recording to the card: the commands, \<open>application/src/web/recording_commands.cpp\<close>, names and segments,
  \<open>application/src/web/recording_policy.cpp\<close>, and the task of \<open>main/media/recording_task_adapter.cpp\<close>
  interval by interval. What the camera captures, the clock and the conditions come from outside.
\<close>

section \<open>Commands\<close>

record recording_result =
  recording_recognized :: bool
  recording_requested :: bool
  recording_response :: frame

definition handle_recording_command :: "command_kind \<Rightarrow> bool \<Rightarrow> recording_result" where
  "handle_recording_command command currently_requested =
     (let result = \<lparr>recording_recognized = False, recording_requested = False,
                    recording_response = \<lparr>ftype = 0, fpayload = []\<rparr>\<rparr>
      in if command \<noteq> Cmd_record_start \<and> command \<noteq> Cmd_record_stop then result
         else \<lparr>recording_recognized = True, recording_requested = (command = Cmd_record_start),
               recording_response = \<lparr>ftype = 0xA2, fpayload = octets ''ok'' @ [0x0A]\<rparr>\<rparr>)"

section \<open>Names\<close>

text \<open>The civil date of a day number, as \<open>gmtime_r\<close> computes it.\<close>

record utc_time =
  utc_year :: int
  utc_month :: int
  utc_day :: int
  utc_hour :: int
  utc_minute :: int
  utc_second :: int

definition gmtime :: "int \<Rightarrow> utc_time" where
  "gmtime seconds =
     (let days = seconds div 86400; rest = seconds mod 86400;
          z = days + 719468; era = z div 146097; doe = z mod 146097;
          yoe = (doe - doe div 1460 + doe div 36524 - doe div 146096) div 365;
          doy = doe - (365 * yoe + yoe div 4 - yoe div 100);
          mp = (5 * doy + 2) div 153;
          month = (if mp < 10 then mp + 3 else mp - 9)
      in \<lparr>utc_year = yoe + era * 400 + (if month \<le> 2 then 1 else 0), utc_month = month,
          utc_day = doy - (153 * mp + 2) div 5 + 1, utc_hour = rest div 3600, utc_minute = rest mod 3600 div 60,
          utc_second = rest mod 60\<rparr>)"

text \<open>\<open>std::setw\<close> with the fill character zero.\<close>

definition filled_number :: "nat \<Rightarrow> int \<Rightarrow> string" where
  "filled_number width n =
     (let digits = (if n < 0 then CHR ''-'' # decimal (nat (- n)) else decimal (nat n))
      in replicate (width - length digits) (CHR ''0'') @ digits)"

text \<open>A year that does not fit \<open>int\<close> is refused by \<open>gmtime_r\<close>.\<close>

definition recording_segment_path :: "string \<Rightarrow> int \<Rightarrow> string option" where
  "recording_segment_path retained_play_path utc_seconds =
     (if CHR ''/'' \<notin> set retained_play_path then None
      else
        let filename = rev (takeWhile (\<lambda>c. c \<noteq> CHR ''/'') (rev retained_play_path)) in
        if filename = [] then None
        else case find_char (CHR ''.'') filename of
            None \<Rightarrow> None
          | Some dot \<Rightarrow>
              if dot = 0 then None
              else
                let utc = gmtime utc_seconds in
                if utc_year utc - 1900 < - (2 ^ 31) \<or> utc_year utc - 1900 \<ge> 2 ^ 31 then None
                else
                  let path = physical_sd_path ''/videos/'' @ take dot filename @ ''-'' @
                        filled_number 4 (utc_year utc) @ filled_number 2 (utc_month utc) @ filled_number 2 (utc_day utc) @
                        ''_'' @ filled_number 2 (utc_hour utc) @ filled_number 2 (utc_minute utc) @
                        filled_number 2 (utc_second utc) @ ''.avi''
                  in if length path > 255 then None else Some path)"

section \<open>Segments\<close>

definition recording_conditions_active :: "bool \<Rightarrow> bool \<Rightarrow> bool \<Rightarrow> bool" where
  "recording_conditions_active requested streamed_play_running controller_running \<longleftrightarrow>
     requested \<and> (streamed_play_running \<or> controller_running)"

record segment_state =
  attempted_frames :: nat
  successful_frames :: nat
  inactive_intervals :: nat

definition new_segment_state :: segment_state where
  "new_segment_state = \<lparr>attempted_frames = 0, successful_frames = 0, inactive_intervals = 0\<rparr>"

definition maximum_inactive_intervals :: nat where
  "maximum_inactive_intervals = 30"

definition advance_recording_segment :: "bool \<Rightarrow> bool \<Rightarrow> bool \<Rightarrow> nat \<Rightarrow> segment_state \<Rightarrow> bool \<times> segment_state" where
  "advance_recording_segment conditions_active capture_succeeded write_succeeded frames_of_one_file s =
     (let s = s\<lparr>attempted_frames := attempted_frames s + 1\<rparr>;
          s = (if capture_succeeded \<and> write_succeeded then s\<lparr>successful_frames := successful_frames s + 1\<rparr> else s);
          s = (if \<not> conditions_active then s\<lparr>inactive_intervals := inactive_intervals s + 1\<rparr> else s)
      in (if frames_of_one_file = 0 then True
          else if attempted_frames s \<ge> frames_of_one_file then True
          else inactive_intervals s > maximum_inactive_intervals, s))"

section \<open>The task\<close>

record recorder =
  rec_writer :: "avi_writer option"
  rec_path :: "string option"
  rec_segment :: segment_state

text \<open>What one interval finds.\<close>

record recording_interval =
  conditions_hold :: bool
  interval_time :: int
  captured_jpeg :: "bytes option"

definition recording_source_path :: string where
  "recording_source_path = physical_sd_path ''/videos/session.avi''"

text \<open>The finished segment that is written to the card, if there is one.\<close>

definition close_segment :: "recorder \<Rightarrow> (string \<times> bytes) option \<times> recorder" where
  "close_segment r =
     (let closed = r\<lparr>rec_writer := None, rec_path := None\<rparr> in
      case (rec_writer r, rec_path r) of
        (Some w, Some path) \<Rightarrow> (map_option (\<lambda>data. (path, data)) (fst (finalize w)), closed)
      | _ \<Rightarrow> (None, closed))"

definition open_segment :: "camera_settings \<Rightarrow> recording_interval \<Rightarrow> recorder \<Rightarrow> recorder" where
  "open_segment settings interval r =
     (if conditions_hold interval \<and> rec_writer r = None
      then
        let dimensions = camera_dimensions (recording_frame_size settings);
            path = recording_segment_path recording_source_path (interval_time interval);
            r = r\<lparr>rec_path := path\<rparr>
        in if path \<noteq> None
           then r\<lparr>rec_writer := Some (new_avi_writer (ucast (frame_width dimensions)) (ucast (frame_height dimensions))),
                  rec_segment := new_segment_state\<rparr>
           else r
      else r)"

definition capture_interval :: "camera_settings \<Rightarrow> recording_interval \<Rightarrow> recorder \<Rightarrow> (string \<times> bytes) option \<times> recorder" where
  "capture_interval settings interval r =
     (case rec_writer r of
        None \<Rightarrow> (None, r)
      | Some w \<Rightarrow>
          let (write_succeeded, w) =
                (case captured_jpeg interval of None \<Rightarrow> (False, w) | Some jpeg \<Rightarrow> append_frame jpeg w);
              (close, segment) = advance_recording_segment (conditions_hold interval) (captured_jpeg interval \<noteq> None)
                write_succeeded (unat (frames_per_file settings)) (rec_segment r);
              r = r\<lparr>rec_writer := Some w, rec_segment := segment\<rparr>
          in if close then close_segment r else (None, r))"

definition recording_turn :: "camera_settings \<Rightarrow> recording_interval \<Rightarrow> recorder \<Rightarrow> (string \<times> bytes) option \<times> recorder" where
  "recording_turn settings interval r = capture_interval settings interval (open_segment settings interval r)"

fun recording_run :: "camera_settings \<Rightarrow> recording_interval list \<Rightarrow> recorder \<Rightarrow> (string \<times> bytes) list \<times> recorder" where
  "recording_run settings [] r = ([], r)"
| "recording_run settings (interval # intervals) r =
     (let (written, r) = recording_turn settings interval r; (rest, r) = recording_run settings intervals r
      in ((case written of None \<Rightarrow> [] | Some file' \<Rightarrow> [file']) @ rest, r))"

definition new_recorder :: recorder where
  "new_recorder = \<lparr>rec_writer = None, rec_path = None, rec_segment = new_segment_state\<rparr>"

section \<open>What is on the card\<close>

text \<open>A segment of the recorder: frames that the camera captured, in order, and no more than the file may have.\<close>

definition recorder_inv :: "nat \<Rightarrow> recorder \<Rightarrow> bool" where
  "recorder_inv limit r \<longleftrightarrow>
     (case rec_writer r of
        None \<Rightarrow> True
      | Some w \<Rightarrow>
          rec_path r \<noteq> None \<and> attempted_frames (rec_segment r) < limit \<and>
          inactive_intervals (rec_segment r) \<le> maximum_inactive_intervals \<and>
          (\<exists>frames width height. w = record_frames frames (new_avi_writer width height) \<and>
             (\<forall>jpeg \<in> set frames. length jpeg \<le> 0xFFFFFFFF) \<and>
             length frames \<le> attempted_frames (rec_segment r)))"

definition segment_file :: "camera_settings \<Rightarrow> string \<times> bytes \<Rightarrow> bool" where
  "segment_file settings written \<longleftrightarrow>
     (\<exists>frames width height.
        fst (finalize (record_frames frames (new_avi_writer width height))) = Some (snd written) \<and>
        (\<forall>jpeg \<in> set frames. length jpeg \<le> 0xFFFFFFFF) \<and>
        length frames \<le> max 1 (unat (frames_per_file settings)))"

lemma record_frames_snoc:
  "record_frames (frames @ [jpeg]) w = snd (append_frame jpeg (record_frames frames w))"
  by (simp add: record_frames_def)

lemma append_recorded:
  assumes "w = record_frames frames (new_avi_writer width height)" "\<forall>jpeg \<in> set frames. length jpeg \<le> 0xFFFFFFFF"
    and "append_frame jpeg w = (ok, w')"
  shows "if ok then w' = record_frames (frames @ [jpeg]) (new_avi_writer width height) \<and> length jpeg \<le> 0xFFFFFFFF else w' = w"
proof -
  have "\<not> avi_finalized w" by (simp add: assms(1) record_frames_shape [OF assms(2)])
  then show ?thesis
    using assms(1,3) by (auto simp: record_frames_snoc append_frame_def Let_def split: if_splits)
qed

lemma open_segment_inv:
  assumes "recorder_inv limit r"
  shows "recorder_inv (max 1 limit) (open_segment settings interval r)"
proof -
  have "recorder_inv (max 1 limit) (r\<lparr>rec_path := Some path, rec_writer := Some (new_avi_writer w h), rec_segment := new_segment_state\<rparr>)"
    for path w h
  proof -
    have "\<exists>frames width height. new_avi_writer w h = record_frames frames (new_avi_writer width height) \<and>
        (\<forall>jpeg \<in> set frames. length jpeg \<le> 0xFFFFFFFF) \<and> length frames \<le> 0"
      by (intro exI [of _ "[]"] exI [of _ w] exI [of _ h]) (simp add: record_frames_def)
    then show ?thesis
      by (simp add: recorder_inv_def new_segment_state_def)
  qed
  moreover have "recorder_inv (max 1 limit) r"
    using assms by (auto simp: recorder_inv_def split: option.splits)
  moreover have "rec_writer r = None \<Longrightarrow> recorder_inv (max 1 limit) (r\<lparr>rec_path := path\<rparr>)" for path
    by (simp add: recorder_inv_def)
  ultimately show ?thesis
    by (auto simp: open_segment_def Let_def)
qed

text \<open>What an interval does to the frames of the open segment.\<close>

lemma capture_frames:
  assumes "w = record_frames frames (new_avi_writer width height)" "\<forall>jpeg \<in> set frames. length jpeg \<le> 0xFFFFFFFF"
    and "(case captured of None \<Rightarrow> (False, w) | Some jpeg \<Rightarrow> append_frame jpeg w) = (ok, w')"
  shows "\<exists>frames'. w' = record_frames frames' (new_avi_writer width height) \<and>
    (\<forall>jpeg \<in> set frames'. length jpeg \<le> 0xFFFFFFFF) \<and> length frames' \<le> Suc (length frames)"
proof (cases captured)
  case None
  then show ?thesis using assms by (intro exI [of _ frames]) auto
next
  case (Some jpeg)
  then have "if ok then w' = record_frames (frames @ [jpeg]) (new_avi_writer width height) \<and> length jpeg \<le> 0xFFFFFFFF else w' = w"
    using append_recorded [OF assms(1,2), of jpeg ok w'] assms(3) by simp
  then show ?thesis
    using assms(1,2)
    by (intro exI [of _ "if ok then frames @ [jpeg] else frames"]) (auto split: if_splits)
qed

lemma capture_interval_inv:
  assumes "recorder_inv (max 1 (unat (frames_per_file settings))) r" "capture_interval settings interval r = (written, r')"
  shows "recorder_inv (unat (frames_per_file settings)) r' \<and> (\<forall>written'. written = Some written' \<longrightarrow> segment_file settings written')"
proof (cases "rec_writer r")
  case None
  then show ?thesis using assms(2) by (auto simp: capture_interval_def recorder_inv_def)
next
  case (Some w)
  obtain frames width height path where w: "w = record_frames frames (new_avi_writer width height)" "rec_path r = Some path"
    "\<forall>jpeg \<in> set frames. length jpeg \<le> 0xFFFFFFFF" "length frames \<le> attempted_frames (rec_segment r)"
    "attempted_frames (rec_segment r) < max 1 (unat (frames_per_file settings))"
    using assms(1) Some by (auto simp: recorder_inv_def)
  obtain ok w' where capture: "(case captured_jpeg interval of None \<Rightarrow> (False, w) | Some jpeg \<Rightarrow> append_frame jpeg w) = (ok, w')"
    by (metis surj_pair)
  obtain close segment where advance: "advance_recording_segment (conditions_hold interval) (captured_jpeg interval \<noteq> None) ok
      (unat (frames_per_file settings)) (rec_segment r) = (close, segment)"
    by (metis surj_pair)
  have turn: "(written, r') = (let r = r\<lparr>rec_writer := Some w', rec_segment := segment\<rparr> in if close then close_segment r else (None, r))"
    using assms(2) Some capture advance by (simp add: capture_interval_def Let_def)
  obtain frames' where frames': "w' = record_frames frames' (new_avi_writer width height)"
    "\<forall>jpeg \<in> set frames'. length jpeg \<le> 0xFFFFFFFF" "length frames' \<le> Suc (length frames)"
    using capture_frames [OF w(1,3) capture] by blast
  have attempted: "attempted_frames segment = Suc (attempted_frames (rec_segment r))"
    and still_open: "\<not> close \<Longrightarrow> attempted_frames segment < unat (frames_per_file settings) \<and>
      inactive_intervals segment \<le> maximum_inactive_intervals"
    using advance by (auto simp: advance_recording_segment_def Let_def split: if_splits)
  have recorded: "\<exists>frames width height. w' = record_frames frames (new_avi_writer width height) \<and>
      (\<forall>jpeg \<in> set frames. length jpeg \<le> 0xFFFFFFFF) \<and> length frames \<le> attempted_frames segment"
    using frames' attempted w(4) by (intro exI [of _ frames'] exI [of _ width] exI [of _ height]) simp
  show ?thesis
  proof (cases close)
    case False
    then show ?thesis
      using turn w(2) recorded still_open by (simp add: recorder_inv_def Let_def)
  next
    case True
    have "length frames' \<le> max 1 (unat (frames_per_file settings))" using frames'(3) w(4,5) by linarith
    then show ?thesis
      using True turn w(2) frames' by (auto simp: recorder_inv_def close_segment_def segment_file_def Let_def)
  qed
qed

lemma recording_run_inv:
  assumes "recorder_inv (unat (frames_per_file settings)) r" "recording_run settings intervals r = (written, r')"
  shows "recorder_inv (unat (frames_per_file settings)) r' \<and> (\<forall>file' \<in> set written. segment_file settings file')"
  using assms
proof (induction intervals arbitrary: r written)
  case (Cons interval intervals)
  obtain w1 r1 where turn: "recording_turn settings interval r = (w1, r1)" by (metis surj_pair)
  obtain w2 where rest: "recording_run settings intervals r1 = (w2, r')"
    "written = (case w1 of None \<Rightarrow> [] | Some file' \<Rightarrow> [file']) @ w2"
    using Cons.prems(2) turn by (auto simp: Let_def split: prod.splits)
  have "recorder_inv (unat (frames_per_file settings)) r1 \<and> (\<forall>written'. w1 = Some written' \<longrightarrow> segment_file settings written')"
    by (rule capture_interval_inv [OF open_segment_inv [OF Cons.prems(1)]])
      (use turn in \<open>simp add: recording_turn_def\<close>)
  then show ?case
    using Cons.IH [OF _ rest(1)] rest(2) by (auto split: option.splits)
qed simp

text \<open>
  C25. Everything the recorder writes is a finished segment of at most the configured number of captured frames, and a
  segment still open has fewer attempts than that and at most 30 intervals without the conditions: so every file
  it leaves for the preview is one that the preview refuses.
\<close>

theorem recordings_bounded_and_refused:
  assumes "recording_run settings intervals new_recorder = (written, r)"
  shows "(\<forall>(path, data) \<in> set written. segment_file settings (path, data) \<and> (length data < 2 ^ 32 \<longrightarrow> parse_avi data = None)) \<and>
    (rec_writer r \<noteq> None \<longrightarrow> attempted_frames (rec_segment r) < unat (frames_per_file settings) \<and>
      inactive_intervals (rec_segment r) \<le> 30)"
proof -
  have "recorder_inv (unat (frames_per_file settings)) new_recorder"
    by (simp add: recorder_inv_def new_recorder_def)
  then have run: "recorder_inv (unat (frames_per_file settings)) r" "\<forall>file' \<in> set written. segment_file settings file'"
    using recording_run_inv [OF _ assms] by blast+
  have "parse_avi data = None" if "segment_file settings (path, data)" "length data < 2 ^ 32" for path data
  proof -
    obtain frames width height where frames: "fst (finalize (record_frames frames (new_avi_writer width height))) = Some data"
      "\<forall>jpeg \<in> set frames. length jpeg \<le> 0xFFFFFFFF"
      using \<open>segment_file settings (path, data)\<close> by (auto simp: segment_file_def)
    then have "segment_size frames < 2 ^ 32"
      using that(2) finalize_shape [OF frames(2), of width height] by (auto simp: segment_size_def length_index_bytes)
    then show ?thesis using segment_not_previewed frames by blast
  qed
  with run show ?thesis
    by (auto simp: recorder_inv_def maximum_inactive_intervals_def split: option.splits)
qed

definition sample_interval :: recording_interval where
  "sample_interval = \<lparr>conditions_hold = True, interval_time = 0, captured_jpeg = Some [1, 2]\<rparr>"

theorem recordings_bounded_and_refused_witness:
  "\<exists>path data. fst (recording_run (default_camera_settings\<lparr>frames_per_file := 1\<rparr>) [sample_interval] new_recorder) = [(path, data)] \<and>
     parse_avi data = None"
proof -
  let ?settings = "default_camera_settings\<lparr>frames_per_file := 1\<rparr>"
  have path: "recording_segment_path recording_source_path 0 = Some ''/sd/videos/session-19700101_000000.avi''"
    by code_simp
  define w where "w = new_avi_writer 1600 1200"
  obtain data where "fst (finalize (record_frames [[1, 2]] w)) = Some data"
    using finalize_shape [of "[[1, 2]]" 1600 1200] by (auto simp: w_def)
  then have data: "fst (finalize (snd (append_frame [1, 2] w))) = Some data"
    by (simp add: record_frames_def)
  define w2 where "w2 = snd (append_frame [1, 2] w)"
  have append: "append_frame [1, 2] w = (True, w2)"
    by (simp add: append_frame_def w_def w2_def new_avi_writer_def Let_def)
  have dims: "camera_dimensions (recording_frame_size ?settings) = \<lparr>frame_width = 1600, frame_height = 1200\<rparr>"
    by code_simp
  then have run: "recording_run ?settings [sample_interval] new_recorder =
      ([(''/sd/videos/session-19700101_000000.avi'', data)], new_recorder\<lparr>rec_segment := \<lparr>attempted_frames = 1, successful_frames = 1, inactive_intervals = 0\<rparr>\<rparr>)"
    using data dims
    by (simp add: append w2_def [symmetric] w_def [symmetric] recording_turn_def open_segment_def capture_interval_def sample_interval_def new_recorder_def path Let_def
        advance_recording_segment_def new_segment_state_def close_segment_def default_camera_settings_def)
  moreover have "length data < 2 ^ 32"
    using \<open>fst (finalize (record_frames [[1, 2]] w)) = Some data\<close> finalize_shape [of "[[1, 2]]" 1600 1200]
    by (auto simp: w_def length_index_bytes frame_data_def length_frame_chunk)
  ultimately show ?thesis
    using recordings_bounded_and_refused [OF run] by auto
qed

end
