(* ===== verification/Paced_Fifo.thy ===== *)
theory Paced_Fifo
  imports Firmware_Prelude
begin

text \<open>
  The interface of a bounded queue that releases at most one item per interval: the output to the motion
  controller and the inboxes of its transfer families. A history of calls carries the time of each attempt to
  take. Accepted items leave in their order of arrival, none is lost or duplicated, the capacity is never
  exceeded, and two items never leave closer than the interval.
\<close>

datatype 'a paced_op = Offer 'a | Attempt u64

fun paced_run :: "('a \<Rightarrow> 'q \<Rightarrow> 'q \<times> bool) \<Rightarrow> (u64 \<Rightarrow> 'q \<Rightarrow> 'q \<times> 'b option) \<Rightarrow> 'a paced_op list \<Rightarrow> 'q \<Rightarrow>
    'q \<times> 'a list \<times> (u64 \<times> 'b) list" where
  "paced_run put get [] q = (q, [], [])"
| "paced_run put get (Offer x # ops) q =
     (let (q', ok) = put x q; (r, accepted, released) = paced_run put get ops q'
      in (r, if ok then x # accepted else accepted, released))"
| "paced_run put get (Attempt now # ops) q =
     (let (q', x) = get now q; (r, accepted, released) = paced_run put get ops q'
      in (r, accepted, case x of None \<Rightarrow> released | Some y \<Rightarrow> (now, y) # released))"

fun attempts :: "'a paced_op list \<Rightarrow> u64 list" where
  "attempts [] = []"
| "attempts (Offer x # ops) = attempts ops"
| "attempts (Attempt now # ops) = now # attempts ops"

fun apart :: "nat \<Rightarrow> u64 list \<Rightarrow> bool" where
  "apart d (s # t # ts) \<longleftrightarrow> unat s + d \<le> unat t \<and> apart d (t # ts)"
| "apart d _ \<longleftrightarrow> True"

lemma apart_Cons: "apart d ts \<Longrightarrow> (ts \<noteq> [] \<Longrightarrow> unat t + d \<le> unat (hd ts)) \<Longrightarrow> apart d (t # ts)"
  by (cases ts) auto

text \<open>
  \<open>load\<close> is what an accepted item becomes in the queue: the output encodes a frame when it takes it in.
\<close>

locale paced_fifo =
  fixes put :: "'a \<Rightarrow> 'q \<Rightarrow> 'q \<times> bool"
    and get :: "u64 \<Rightarrow> 'q \<Rightarrow> 'q \<times> 'b option"
    and items :: "'q \<Rightarrow> 'b list"
    and due :: "'q \<Rightarrow> u64"
    and load :: "'a \<Rightarrow> 'b"
    and admissible :: "'b \<Rightarrow> bool"
    and capacity :: nat
    and interval :: nat
  assumes put_items: "items (fst (put x q)) = (if snd (put x q) then items q @ [load x] else items q)"
    and put_accepted: "snd (put x q) \<Longrightarrow> admissible (load x) \<and> length (items q) < capacity"
    and put_due: "due (fst (put x q)) = due q"
    and get_front: "snd (get now q) = (if items q = [] \<or> now < due q then None else Some (hd (items q)))"
    and get_items: "items (fst (get now q)) = (if snd (get now q) = None then items q else tl (items q))"
    and get_due: "due (fst (get now q)) = (if snd (get now q) = None then due q else now + of_nat interval)"
    and interval_small: "interval < 2 ^ 63"
begin

lemma run_conserves:
  "paced_run put get ops q = (r, accepted, released) \<Longrightarrow>
     items q @ map load accepted = map snd released @ items r"
proof (induction ops arbitrary: q r accepted released)
  case Nil
  then show ?case by simp
next
  case (Cons op ops)
  show ?case
  proof (cases op)
    case (Offer x)
    obtain q' ok where p: "put x q = (q', ok)" by (cases "put x q")
    obtain r' a d where run: "paced_run put get ops q' = (r', a, d)" by (metis prod_cases3)
    show ?thesis
      using Cons.prems Cons.IH [OF run] put_items [of x q] p run
      by (auto simp: Offer split: if_splits)
  next
    case (Attempt now)
    obtain q' x where g: "get now q = (q', x)" by (cases "get now q")
    obtain r' a d where run: "paced_run put get ops q' = (r', a, d)" by (metis prod_cases3)
    show ?thesis
      using Cons.prems Cons.IH [OF run] get_front [of now q] get_items [of now q] g run
      by (cases "items q") (auto simp: Attempt split: option.splits if_splits)
  qed
qed

lemma run_bound:
  "paced_run put get ops q = (r, accepted, released) \<Longrightarrow> length (items q) \<le> capacity \<Longrightarrow>
     length (items r) \<le> capacity \<and> (\<forall>x \<in> set accepted. admissible (load x))"
proof (induction ops arbitrary: q r accepted released)
  case Nil
  then show ?case by auto
next
  case (Cons op ops)
  show ?case
  proof (cases op)
    case (Offer x)
    obtain q' ok where p: "put x q = (q', ok)" by (cases "put x q")
    obtain r' a d where run: "paced_run put get ops q' = (r', a, d)" by (metis prod_cases3)
    have "length (items q') \<le> capacity"
      using put_items [of x q] put_accepted [of x q] p Cons.prems(2) by (auto split: if_splits)
    then show ?thesis
      using Cons.prems Cons.IH [OF run] put_accepted [of x q] p run
      by (auto simp: Offer split: if_splits)
  next
    case (Attempt now)
    obtain q' x where g: "get now q = (q', x)" by (cases "get now q")
    obtain r' a d where run: "paced_run put get ops q' = (r', a, d)" by (metis prod_cases3)
    have "length (items q') \<le> capacity"
      using get_items [of now q] g Cons.prems(2) by (auto split: if_splits)
    then show ?thesis
      using Cons.prems Cons.IH [OF run] g run by (auto simp: Attempt split: option.splits)
  qed
qed

lemma unat_later: "unat now < 2 ^ 63 \<Longrightarrow> unat (now + of_nat interval :: u64) = unat now + interval"
  using interval_small by (simp add: unat_add_lem [THEN iffD1] unat_of_nat)

text \<open>Nothing leaves before the due time, and what leaves is apart.\<close>

lemma run_paced:
  "paced_run put get ops q = (r, accepted, released) \<Longrightarrow> \<forall>now \<in> set (attempts ops). unat now < 2 ^ 63 \<Longrightarrow>
     apart interval (map fst released) \<and> (released \<noteq> [] \<longrightarrow> due q \<le> fst (hd released))"
proof (induction ops arbitrary: q r accepted released)
  case Nil
  then show ?case by simp
next
  case (Cons op ops)
  show ?case
  proof (cases op)
    case (Offer x)
    obtain q' ok where p: "put x q = (q', ok)" by (cases "put x q")
    obtain r' a d where run: "paced_run put get ops q' = (r', a, d)" by (metis prod_cases3)
    have "due q' = due q" using put_due [of x q] p by simp
    then show ?thesis
      using Cons.prems Cons.IH [OF run] p run by (simp add: Offer)
  next
    case (Attempt now)
    obtain q' x where g: "get now q = (q', x)" by (cases "get now q")
    obtain r' a d where run: "paced_run put get ops q' = (r', a, d)" by (metis prod_cases3)
    have ih: "apart interval (map fst d)" "d \<noteq> [] \<Longrightarrow> due q' \<le> fst (hd d)"
      using Cons.IH [OF run] Cons.prems by (auto simp: Attempt)
    show ?thesis
    proof (cases x)
      case None
      then have "due q' = due q" using get_due [of now q] g by simp
      then show ?thesis using Cons.prems ih g run None by (simp add: Attempt)
    next
      case (Some y)
      have later: "due q' = now + of_nat interval" using get_due [of now q] g Some by simp
      have ready: "due q \<le> now" using get_front [of now q] g Some by (auto split: if_splits)
      have "unat now < 2 ^ 63" using Cons.prems by (simp add: Attempt)
      then have "d \<noteq> [] \<Longrightarrow> unat now + interval \<le> unat (fst (hd d))"
        using ih(2) later unat_later [of now] by (simp add: word_le_nat_alt)
      then have "apart interval (map fst ((now, y) # d))"
        using ih(1) by (cases d) auto
      then show ?thesis using Cons.prems(1) g run Some ready by (auto simp: Attempt)
    qed
  qed
qed

end

end
