(* ===== verification/Deadline.thy ===== *)
theory Deadline
  imports Firmware_Prelude
begin

text \<open>
  The arithmetic of periodic deadlines, shared by the alarms and queries of the controller link and the samples of
  the card: a deadline that has passed is moved by whole periods to the first one after the present time.
\<close>

lemma next_deadline:
  fixes due now :: u64
  assumes due: "unat due = s + p * k" and p: "0 < p" "p < 2 ^ 63" and now: "unat now < 2 ^ 63" "due \<le> now"
  shows "unat (due + ((now - due) div of_nat p + 1) * of_nat p) = s + p * ((unat now - s) div p + 1)"
    and "unat ((now - due) div of_nat p + 1) = (unat now - s) div p + 1 - k"
proof -
  define d where "d = unat now - unat due"
  have unat_small_p: "unat (of_nat p :: u64) = p" using p by (simp add: unat_of_nat)
  have len64: "LENGTH(64) = 64" by simp
  have le: "s + p * k \<le> unat now" using now(2) due by (simp add: word_le_nat_alt)
  have d: "unat now - s = p * k + d" using due le by (simp add: d_def)
  have quotient: "(unat now - s) div p = k + d div p" using p by (simp add: d)
  have small: "d div p + 1 < 2 ^ 64"
  proof -
    have "d < 2 ^ 63" using now(1) by (simp add: d_def)
    with div_le_dividend have "d div p < 2 ^ 63" by (rule le_less_trans)
    then show ?thesis by simp
  qed
  have periods: "unat ((now - due) div of_nat p) = d div p"
    using now p by (simp add: unat_div unat_sub d_def unat_of_nat)
  have count: "unat ((now - due) div of_nat p + 1) = d div p + 1"
    using small by (simp add: unat_add_lem [THEN iffD1] periods)
  have sum: "unat due + (d div p + 1) * p < 2 ^ 64"
  proof -
    have "(d div p + 1) * p \<le> d + p" by (simp add: algebra_simps)
    moreover have "unat due + d = unat now" using now(2) by (simp add: d_def word_le_nat_alt)
    ultimately have "unat due + (d div p + 1) * p \<le> unat now + p" by linarith
    moreover have "unat now + p < 2 ^ 64" using now(1) p(2) by simp
    ultimately show ?thesis by (rule le_less_trans)
  qed
  then have "(d div p + 1) * p < 2 ^ 64" by (rule le_less_trans [rotated]) simp
  then have product: "unat (((now - due) div of_nat p + 1) * of_nat p) = (d div p + 1) * p"
    using p by (subst unat_mult_lem [THEN iffD1]) (simp_all only: count unat_small_p len64)
  show "unat (due + ((now - due) div of_nat p + 1) * of_nat p) = s + p * ((unat now - s) div p + 1)"
    using sum by (subst unat_add_lem [THEN iffD1]) (simp_all only: product due quotient len64, simp add: algebra_simps)
  show "unat ((now - due) div of_nat p + 1) = (unat now - s) div p + 1 - k"
    by (simp add: count quotient)
qed

lemma before_deadline:
  fixes due now :: u64
  assumes due: "unat due = s + p * ((prev - s) div p + 1)" and "s \<le> prev" "prev \<le> unat now" "now < due" "0 < p"
  shows "(unat now - s) div p = (prev - s) div p"
proof -
  have "unat now - s < p * ((prev - s) div p + 1)"
    using assms due by (simp add: word_less_nat_alt)
  then have "(unat now - s) div p < (prev - s) div p + 1"
    using assms(5) by (simp add: div_less_iff_less_mult mult.commute)
  moreover have "(prev - s) div p \<le> (unat now - s) div p" using assms by (intro div_le_mono) simp
  ultimately show ?thesis by simp
qed

text \<open>The new deadline is later than the present, by at most a period.\<close>

lemma next_deadline_bounds:
  fixes due now :: u64
  assumes "0 < p" "p < 2 ^ 63" "unat now < 2 ^ 63" "due \<le> now"
  shows "unat now < unat (due + ((now - due) div of_nat p + 1) * of_nat p)"
    and "unat (due + ((now - due) div of_nat p + 1) * of_nat p) \<le> unat now + p"
proof -
  define d where "d = unat now - unat due"
  have now: "unat now = unat due + d" using assms(4) by (simp add: d_def word_le_nat_alt)
  have at: "unat (due + ((now - due) div of_nat p + 1) * of_nat p) = unat due + p * (d div p + 1)"
    using next_deadline(1) [of due "unat due" p 0 now] assms by (simp add: d_def)
  have "d < p * (d div p + 1)" using assms(1) by (simp add: dividend_less_times_div)
  then show "unat now < unat (due + ((now - due) div of_nat p + 1) * of_nat p)" by (simp add: at now)
  have "p * (d div p + 1) \<le> d + p" by (simp add: algebra_simps)
  then show "unat (due + ((now - due) div of_nat p + 1) * of_nat p) \<le> unat now + p" by (simp add: at now)
qed

end
