(* ===== verification/Controller_Transfer.thy ===== *)
theory Controller_Transfer
  imports Ports Transfer_Paths
begin

text \<open>
  Transfers to the motion controller: the common parsing and the inbox of a family
  (\<open>components/application/src/controller/controller_transfer.cpp\<close>), and the firmware, configuration
  and factory-data exchanges (\<open>controller_firmware_transfer.cpp\<close>, \<open>controller_config_transfer.cpp\<close>,
  \<open>controller_factory_transfer.cpp\<close>). The ports of the three exchanges are one datatype of calls,
  answered by an environment record. The lemmas show that a served file reaches the controller
  whole, that the record exchanges fit a controller frame, and when the timeout can fire.
\<close>

section \<open>Parsing\<close>

abbreviation (input) controller_frame_data_size :: nat where "controller_frame_data_size \<equiv> 512"
abbreviation (input) controller_chunk_size :: nat where "controller_chunk_size \<equiv> 255"

datatype operation_kind = Op_start | Op_geometry | Op_data | Op_complete | Op_cancel | Op_unknown

record transfer_geometry =
  geometry_frame_count :: u32
  geometry_frame_data_size :: u16

record transfer_data_request =
  request_index :: u32
  request_wire_index :: bytes

definition transfer_operation :: "u8 \<Rightarrow> operation_kind" where
  "transfer_operation t =
     (let low = t AND 0x0F
      in if low = 1 then Op_start else if low = 2 then Op_geometry else if low = 3 then Op_data
         else if low = 4 then Op_complete else if low = 5 then Op_cancel else Op_unknown)"

definition parse_transfer_geometry :: "bytes \<Rightarrow> transfer_geometry option" where
  "parse_transfer_geometry payload =
     (if length payload < 6 then None
      else Some \<lparr>geometry_frame_count = decode_be32 payload,
                 geometry_frame_data_size = be16 (payload ! 4) (payload ! 5)\<rparr>)"

definition parse_transfer_data_request :: "bytes \<Rightarrow> transfer_data_request option" where
  "parse_transfer_data_request payload =
     (if length payload < 4 then None
      else Some \<lparr>request_index = decode_be32 payload, request_wire_index = take 4 payload\<rparr>)"

definition encode_transfer_geometry :: "u32 \<Rightarrow> u16 \<Rightarrow> bytes" where
  "encode_transfer_geometry frame_count frame_data_size =
     [byte_at frame_count 3, byte_at frame_count 2, byte_at frame_count 1, byte_at frame_count 0,
      byte_at frame_data_size 1, byte_at frame_data_size 0]"

definition make_transfer_reply :: "u8 \<Rightarrow> u8 \<Rightarrow> bytes \<Rightarrow> frame" where
  "make_transfer_reply family low_nibble payload =
     \<lparr>ftype = family_packet family low_nibble, fpayload = payload\<rparr>"

text \<open>The geometry survives the wire.\<close>

lemma parse_encode_geometry:
  "parse_transfer_geometry (encode_transfer_geometry n k @ rest) =
     Some \<lparr>geometry_frame_count = n, geometry_frame_data_size = k\<rparr>"
  by (simp add: parse_transfer_geometry_def encode_transfer_geometry_def decode_be32_def)

section \<open>The inbox of a family\<close>

record transfer_inbox =
  inbox_family :: u8
  inbox_frames :: "frame list"
  inbox_next_process :: u64

definition new_inbox :: "u8 \<Rightarrow> transfer_inbox" where
  "new_inbox family = \<lparr>inbox_family = family AND 0xF0, inbox_frames = [], inbox_next_process = 0\<rparr>"

definition inbox_enqueue :: "frame \<Rightarrow> transfer_inbox \<Rightarrow> transfer_inbox \<times> bool" where
  "inbox_enqueue f q =
     (let correct_family = (ftype f AND 0xF0 = inbox_family q);
          size_allowed = (length (fpayload f) \<le> controller_maximum_item_size - 9)
      in if \<not> correct_family \<or> \<not> size_allowed \<or> length (inbox_frames q) \<ge> 32 then (q, False)
         else (q\<lparr>inbox_frames := inbox_frames q @ [f]\<rparr>, True))"

definition inbox_take_ready :: "u64 \<Rightarrow> transfer_inbox \<Rightarrow> transfer_inbox \<times> frame option" where
  "inbox_take_ready now q =
     (if inbox_frames q = [] \<or> now < inbox_next_process q then (q, None)
      else (q\<lparr>inbox_frames := tl (inbox_frames q), inbox_next_process := now + 10\<rparr>,
            Some (hd (inbox_frames q))))"

section \<open>The port\<close>

datatype transfer_family = Firmware_family | Configuration_family | Factory_family

datatype transfer_diagnostic =
    Diag_start | Diag_layout | Diag_data | Diag_data_request | Diag_data_sent | Diag_short_layout
  | Diag_short_data | Diag_layout_reply_failure | Diag_missing_content | Diag_data_open_failure
  | Diag_frame_data_allocation_failure | Diag_encoded_frame_allocation_failure | Diag_timeout

datatype firmware_event =
  Fw_started | Fw_progress | Fw_error | Fw_completed | Fw_cancelled | Fw_timed_out

datatype transfer_call =
    Ct_send frame | Ct_diagnose transfer_family transfer_diagnostic u32 | Ct_memory nat
  | Fw_exists string | Fw_size string | Fw_panic | Fw_read string u64 nat
  | Fw_publish firmware_event u32 u32
  | Cfg_available | Cfg_chunks nat | Fac_exists string | Fac_chunks string nat | Fac_remove string

record transfer_env =
  ct_send :: "transfer_call list \<Rightarrow> frame \<Rightarrow> bool"
  ct_memory :: "transfer_call list \<Rightarrow> nat \<Rightarrow> bool"
  ct_exists :: "transfer_call list \<Rightarrow> string \<Rightarrow> bool"
  ct_size :: "transfer_call list \<Rightarrow> string \<Rightarrow> u64 option"
  ct_read :: "transfer_call list \<Rightarrow> string \<Rightarrow> u64 \<Rightarrow> nat \<Rightarrow> bytes option"
  ct_available :: "transfer_call list \<Rightarrow> bool"
  ct_config_chunks :: "transfer_call list \<Rightarrow> nat \<Rightarrow> bytes list option"
  ct_factory_chunks :: "transfer_call list \<Rightarrow> string \<Rightarrow> nat \<Rightarrow> bytes list option"

definition ct_call :: "transfer_call \<Rightarrow> 's \<times> transfer_call list \<Rightarrow> 's \<times> transfer_call list" where
  "ct_call c s = (fst s, snd s @ [c])"

definition ct_set :: "('s \<Rightarrow> 's) \<Rightarrow> 's \<times> transfer_call list \<Rightarrow> 's \<times> transfer_call list" where
  "ct_set f s = (f (fst s), snd s)"

lemmas transfer_basics = ct_call_def ct_set_def

section \<open>Firmware\<close>

record firmware_transfer =
  fw_active :: bool
  fw_waiting :: bool
  fw_wait_started :: u64
  fw_frame_count :: u32
  fw_frame_data_size :: u16

type_synonym firmware_state = "firmware_transfer \<times> transfer_call list"

definition new_firmware_transfer :: firmware_transfer where
  "new_firmware_transfer =
     \<lparr>fw_active = False, fw_waiting = False, fw_wait_started = 0, fw_frame_count = 0,
      fw_frame_data_size = 0\<rparr>"

definition firmware_path :: string where
  "firmware_path = physical_sd_path ''/lpc1768.bin''"

abbreviation fw_diagnose :: "transfer_diagnostic \<Rightarrow> firmware_state \<Rightarrow> firmware_state" where
  "fw_diagnose e s \<equiv> ct_call (Ct_diagnose Firmware_family e 0) s"

definition firmware_report_error :: "firmware_state \<Rightarrow> firmware_state" where
  "firmware_report_error s =
     ct_call (Fw_publish Fw_error 0 (fw_frame_count (fst s)))
       (ct_call (Ct_send (make_transfer_reply 0xC0 5 [])) s)"

definition firmware_finish :: "firmware_event \<Rightarrow> firmware_state \<Rightarrow> firmware_state" where
  "firmware_finish e s =
     ct_call (Fw_publish e 0 0) (ct_set (\<lambda>t. t\<lparr>fw_active := False, fw_waiting := False\<rparr>) s)"

definition firmware_start :: "transfer_env \<Rightarrow> u64 \<Rightarrow> firmware_state \<Rightarrow> firmware_state" where
  "firmware_start env now s =
     (let available = ct_exists env (snd s) firmware_path; s = ct_call (Fw_exists firmware_path) s
      in if \<not> available then
           ct_call (Ct_send (make_transfer_reply 0xC0 5 []))
             (ct_set (\<lambda>t. t\<lparr>fw_active := False, fw_waiting := False\<rparr>) (fw_diagnose Diag_missing_content s))
         else
           let s = ct_set (\<lambda>t. t\<lparr>fw_active := True, fw_waiting := True, fw_wait_started := now\<rparr>)
                     (fw_diagnose Diag_start s)
           in ct_call (Ct_send (make_transfer_reply 0xC0 1 []))
                (ct_call (Fw_publish Fw_started 0 (fw_frame_count (fst s))) s))"

definition firmware_restart_wait :: "u64 \<Rightarrow> firmware_state \<Rightarrow> firmware_state" where
  "firmware_restart_wait now s =
     ct_set (\<lambda>t. if fw_active t then t\<lparr>fw_waiting := True, fw_wait_started := now\<rparr> else t) s"

definition firmware_geometry :: "transfer_env \<Rightarrow> bytes \<Rightarrow> u64 \<Rightarrow> firmware_state \<Rightarrow> firmware_state" where
  "firmware_geometry env payload now s =
     (case parse_transfer_geometry payload of
        None \<Rightarrow>
          firmware_restart_wait now
            (firmware_report_error (fw_diagnose Diag_layout (fw_diagnose Diag_short_layout s)))
      | Some proposed \<Rightarrow>
          let s = ct_set (\<lambda>t. t\<lparr>fw_frame_count := geometry_frame_count proposed,
                               fw_frame_data_size := geometry_frame_data_size proposed\<rparr>) s;
              s = firmware_restart_wait now s;
              known_size = ct_size env (snd s) firmware_path;
              s = ct_call (Fw_size firmware_path) s
          in case known_size of
               None \<Rightarrow> firmware_report_error (fw_diagnose Diag_layout s)
             | Some n \<Rightarrow>
                 if fw_frame_data_size (fst s) = 0 then ct_call Fw_panic s
                 else
                   let low_size = (ucast n :: u32); unit = ucast (fw_frame_data_size (fst s));
                       count = low_size div unit + (if low_size mod unit > 0 then 1 else 0);
                       s = ct_set (\<lambda>t. t\<lparr>fw_frame_count := count\<rparr>) s;
                       reply = make_transfer_reply 0xC0 2
                                 (encode_transfer_geometry count (fw_frame_data_size (fst s)));
                       sent = ct_send env (snd s) reply;
                       s = ct_call (Ct_send reply) s;
                       s = (if \<not> sent
                            then firmware_report_error (fw_diagnose Diag_layout_reply_failure s) else s)
                   in fw_diagnose Diag_layout s)"

definition firmware_offset :: "u32 \<Rightarrow> u16 \<Rightarrow> u32" where
  "firmware_offset index frame_data_size =
     (let block = (if index \<le> 1 then 0 else index - 1) in block * ucast frame_data_size)"

definition firmware_data :: "transfer_env \<Rightarrow> bytes \<Rightarrow> firmware_state \<Rightarrow> firmware_state" where
  "firmware_data env payload s =
     (let s = fw_diagnose Diag_data s;
          s = ct_set (\<lambda>t. if fw_active t then t\<lparr>fw_waiting := False\<rparr> else t) s
      in case parse_transfer_data_request payload of
           None \<Rightarrow> firmware_report_error (fw_diagnose Diag_short_data s)
         | Some request \<Rightarrow>
             let index = request_index request; unit = fw_frame_data_size (fst s);
                 s = ct_call (Ct_diagnose Firmware_family Diag_data_request index) s;
                 offset = ucast (firmware_offset index unit);
                 capacity = length (request_wire_index request) + unat unit;
                 memory = ct_memory env (snd s) capacity;
                 s = ct_call (Ct_memory capacity) s
             in if \<not> memory then
                  firmware_report_error (fw_diagnose Diag_frame_data_allocation_failure s)
                else
                  let data = ct_read env (snd s) firmware_path offset (unat unit);
                      s = ct_call (Fw_read firmware_path offset (unat unit)) s
                  in case data of
                       None \<Rightarrow> firmware_report_error s
                     | Some bs \<Rightarrow>
                         let s = ct_call (Ct_diagnose Firmware_family Diag_data_sent index) s
                         in if unit = 0 \<or> bs = [] then s
                            else
                              let response = request_wire_index request @ take (unat unit) bs;
                                  s = ct_call (Fw_publish Fw_progress index (fw_frame_count (fst s))) s;
                                  reply = make_transfer_reply 0xC0 3 response;
                                  sent = ct_send env (snd s) reply;
                                  s = ct_call (Ct_send reply) s
                              in if \<not> sent then ct_call (Ct_send (make_transfer_reply 0xC0 5 [])) s
                                 else s)"

definition firmware_apply_timeout :: "u64 \<Rightarrow> firmware_state \<Rightarrow> firmware_state" where
  "firmware_apply_timeout now s =
     (let timeout_elapsed = (now - fw_wait_started (fst s) \<ge> 5000)
      in if \<not> fw_active (fst s) \<or> \<not> fw_waiting (fst s) \<or> \<not> timeout_elapsed then s
         else firmware_finish Fw_timed_out (ct_call (Ct_diagnose Firmware_family Diag_timeout 1) s))"

definition firmware_handle :: "transfer_env \<Rightarrow> frame \<Rightarrow> u64 \<Rightarrow> firmware_state \<Rightarrow> firmware_state" where
  "firmware_handle env f now s =
     firmware_apply_timeout now
       (case transfer_operation (ftype f) of
          Op_start \<Rightarrow> firmware_start env now s
        | Op_geometry \<Rightarrow> firmware_geometry env (fpayload f) now s
        | Op_data \<Rightarrow> firmware_data env (fpayload f) s
        | Op_complete \<Rightarrow> firmware_finish Fw_completed s
        | Op_cancel \<Rightarrow> firmware_finish Fw_cancelled s
        | Op_unknown \<Rightarrow> s)"

section \<open>Configuration\<close>

text \<open>The configuration and the factory exchange keep the same three fields.\<close>

record record_transfer =
  rec_active :: bool
  rec_frame_count :: u32
  rec_frame_data_size :: u16

type_synonym record_state = "record_transfer \<times> transfer_call list"

definition new_record_transfer :: record_transfer where
  "new_record_transfer = \<lparr>rec_active = False, rec_frame_count = 0, rec_frame_data_size = 0\<rparr>"

definition config_eligible :: "bytes \<Rightarrow> bool \<Rightarrow> bool" where
  "config_eligible chunk final_chunk \<longleftrightarrow>
     \<not> (length chunk \<le> 2 \<or> hd chunk = octet CHR ''#'' \<or> hd chunk = octet CHR ''*'') \<and>
     (last chunk = 10 \<or> final_chunk)"

definition transform_record :: "bytes \<Rightarrow> bytes" where
  "transform_record r = (if length r \<le> 64 then r else take 62 r @ [10, 0])"

fun config_records :: "bytes list \<Rightarrow> bytes list" where
  "config_records [] = []"
| "config_records (c # cs) =
     (if config_eligible c (cs = []) then transform_record c # config_records cs else config_records cs)"

text \<open>
  Records are gathered until less than 80 bytes remain. The difference is unsigned: it would wrap
  for more than 512 bytes.
\<close>

fun gather_records :: "bytes list \<Rightarrow> bytes \<Rightarrow> bytes" where
  "gather_records [] data = data"
| "gather_records (r # rs) data =
     (let data = data @ r
      in if (of_nat controller_frame_data_size - of_nat (length data) :: u32) < 80 then data
         else gather_records rs data)"

abbreviation cfg_diagnose :: "transfer_diagnostic \<Rightarrow> record_state \<Rightarrow> record_state" where
  "cfg_diagnose e s \<equiv> ct_call (Ct_diagnose Configuration_family e 0) s"

definition config_report_error :: "record_state \<Rightarrow> record_state" where
  "config_report_error s = ct_call (Ct_send (make_transfer_reply 0xD0 5 [])) s"

definition config_start :: "transfer_env \<Rightarrow> record_state \<Rightarrow> record_state" where
  "config_start env s =
     (let reply = make_transfer_reply 0xD0 1 [];
          sent = ct_send env (snd s) reply;
          s = ct_call (Ct_send reply) s;
          available = ct_available env (snd s);
          s = ct_call Cfg_available s;
          s = (if available then ct_set (\<lambda>t. t\<lparr>rec_active := True\<rparr>) (cfg_diagnose Diag_start s) else s)
      in if \<not> sent \<or> \<not> available then
           config_report_error (if \<not> available then cfg_diagnose Diag_missing_content s else s)
         else s)"

definition config_geometry :: "transfer_env \<Rightarrow> bytes \<Rightarrow> record_state \<Rightarrow> record_state" where
  "config_geometry env payload s =
     (if parse_transfer_geometry payload = None then
        config_report_error (cfg_diagnose Diag_layout (cfg_diagnose Diag_short_layout s))
      else
        let chunks = ct_config_chunks env (snd s) controller_chunk_size;
            s = ct_call (Cfg_chunks controller_chunk_size) s
        in case chunks of
             None \<Rightarrow> config_report_error (cfg_diagnose Diag_layout (cfg_diagnose Diag_data_open_failure s))
           | Some cs \<Rightarrow>
               let count = of_nat (length (filter (\<lambda>c. length c > 2) cs));
                   s = ct_set (\<lambda>t. t\<lparr>rec_frame_count := count,
                                      rec_frame_data_size := of_nat controller_frame_data_size\<rparr>) s;
                   reply = make_transfer_reply 0xD0 2
                             (encode_transfer_geometry count (of_nat controller_frame_data_size));
                   sent = ct_send env (snd s) reply;
                   s = ct_call (Ct_send reply) s;
                   s = (if \<not> sent
                        then config_report_error (cfg_diagnose Diag_layout_reply_failure s) else s)
               in cfg_diagnose Diag_layout s)"

definition config_data :: "transfer_env \<Rightarrow> bytes \<Rightarrow> record_state \<Rightarrow> record_state" where
  "config_data env payload s =
     (let s = cfg_diagnose Diag_data s
      in case parse_transfer_data_request payload of
           None \<Rightarrow> config_report_error (cfg_diagnose Diag_short_data s)
         | Some request \<Rightarrow>
             let s = ct_call (Ct_diagnose Configuration_family Diag_data_request (request_index request)) s
             in if rec_frame_data_size (fst s) = 0 then s
                else
                  let chunks = ct_config_chunks env (snd s) controller_chunk_size;
                      s = ct_call (Cfg_chunks controller_chunk_size) s
                  in case chunks of
                       None \<Rightarrow> config_report_error (cfg_diagnose Diag_data_open_failure s)
                     | Some cs \<Rightarrow>
                         let skip = (if request_index request \<le> 1 then 0 else unat (request_index request));
                             data = gather_records (drop skip (config_records cs)) []
                         in if data = [] then s
                            else
                              let data = (if length data < controller_frame_data_size then data @ [10] else data);
                                  response = request_wire_index request @ data;
                                  memory = ct_memory env (snd s) (length response);
                                  s = ct_call (Ct_memory (length response)) s
                              in if \<not> memory then
                                   config_report_error (cfg_diagnose Diag_frame_data_allocation_failure s)
                                 else
                                   let reply = make_transfer_reply 0xD0 3 response;
                                       sent = ct_send env (snd s) reply;
                                       s = ct_call (Ct_send reply) s
                                   in if \<not> sent then config_report_error s else s)"

definition record_reset :: "record_transfer \<Rightarrow> record_transfer" where
  "record_reset t = t\<lparr>rec_active := False, rec_frame_count := 0, rec_frame_data_size := 0\<rparr>"

definition config_handle :: "transfer_env \<Rightarrow> frame \<Rightarrow> record_state \<Rightarrow> record_state" where
  "config_handle env f s =
     (case transfer_operation (ftype f) of
        Op_start \<Rightarrow> config_start env s
      | Op_geometry \<Rightarrow> config_geometry env (fpayload f) s
      | Op_data \<Rightarrow> config_data env (fpayload f) s
      | Op_complete \<Rightarrow> ct_set record_reset s
      | Op_cancel \<Rightarrow> ct_set record_reset s
      | Op_unknown \<Rightarrow> s)"

section \<open>Factory data\<close>

definition factory_path :: string where
  "factory_path = physical_sd_path ''/factory.ini''"

definition factory_eligible :: "bytes \<Rightarrow> bool" where
  "factory_eligible chunk \<longleftrightarrow> length chunk > 2 \<and> hd chunk \<noteq> octet CHR ''#''"

abbreviation fac_diagnose :: "transfer_diagnostic \<Rightarrow> record_state \<Rightarrow> record_state" where
  "fac_diagnose e s \<equiv> ct_call (Ct_diagnose Factory_family e 0) s"

definition factory_report_error :: "record_state \<Rightarrow> record_state" where
  "factory_report_error s = ct_call (Ct_send (make_transfer_reply 0xE0 5 [])) s"

definition factory_start :: "transfer_env \<Rightarrow> record_state \<Rightarrow> record_state" where
  "factory_start env s =
     (let reply = make_transfer_reply 0xE0 1 [];
          sent = ct_send env (snd s) reply;
          s = ct_call (Ct_send reply) s;
          available = ct_exists env (snd s) factory_path;
          s = ct_call (Fac_exists factory_path) s;
          s = (if available then ct_set (\<lambda>t. t\<lparr>rec_active := True\<rparr>) (fac_diagnose Diag_start s) else s)
      in if \<not> sent \<or> \<not> available then
           factory_report_error (if \<not> available then fac_diagnose Diag_missing_content s else s)
         else s)"

definition factory_geometry :: "transfer_env \<Rightarrow> bytes \<Rightarrow> record_state \<Rightarrow> record_state" where
  "factory_geometry env payload s =
     (let proposed = parse_transfer_geometry payload;
          unit = (case proposed of None \<Rightarrow> 0 | Some g \<Rightarrow> geometry_frame_data_size g)
      in if proposed = None \<or> unit = 0 \<or> unit > of_nat controller_frame_data_size then
           factory_report_error (fac_diagnose Diag_layout
             (if length payload < 6 then fac_diagnose Diag_short_layout s else s))
         else
           let chunks = ct_factory_chunks env (snd s) factory_path controller_chunk_size;
               s = ct_call (Fac_chunks factory_path controller_chunk_size) s
           in case chunks of
                None \<Rightarrow> factory_report_error (fac_diagnose Diag_layout (fac_diagnose Diag_data_open_failure s))
              | Some cs \<Rightarrow>
                  let count = of_nat (length (filter factory_eligible cs));
                      s = ct_set (\<lambda>t. t\<lparr>rec_frame_count := count, rec_frame_data_size := unit\<rparr>) s;
                      reply = make_transfer_reply 0xE0 2 (encode_transfer_geometry count unit);
                      sent = ct_send env (snd s) reply;
                      s = ct_call (Ct_send reply) s;
                      s = (if \<not> sent
                           then factory_report_error (fac_diagnose Diag_layout_reply_failure s) else s)
                  in fac_diagnose Diag_layout s)"

text \<open>The chunk whose 32-bit count of eligible predecessors reaches the index.\<close>

fun select_record :: "u32 \<Rightarrow> bytes list \<Rightarrow> u32 \<Rightarrow> bytes option" where
  "select_record index [] eligible_index = None"
| "select_record index (c # cs) eligible_index =
     (if \<not> factory_eligible c then select_record index cs eligible_index
      else if eligible_index + 1 \<noteq> index then select_record index cs (eligible_index + 1)
      else Some c)"

definition factory_data :: "transfer_env \<Rightarrow> bytes \<Rightarrow> record_state \<Rightarrow> record_state" where
  "factory_data env payload s =
     (let s = fac_diagnose Diag_data s
      in case parse_transfer_data_request payload of
           None \<Rightarrow> factory_report_error (fac_diagnose Diag_short_data s)
         | Some request \<Rightarrow>
             let index = request_index request;
                 s = ct_call (Ct_diagnose Factory_family Diag_data_request index) s
             in if index = 0 \<or> rec_frame_data_size (fst s) = 0 then s
                else
                  let chunks = ct_factory_chunks env (snd s) factory_path controller_chunk_size;
                      s = ct_call (Fac_chunks factory_path controller_chunk_size) s
                  in case chunks of
                       None \<Rightarrow> factory_report_error (fac_diagnose Diag_data_open_failure s)
                     | Some cs \<Rightarrow>
                         (case select_record index cs 0 of
                            None \<Rightarrow> s
                          | Some chunk \<Rightarrow>
                              let s = ct_call (Ct_diagnose Factory_family Diag_data_sent index) s
                              in if length chunk > 132 \<or> length chunk > unat (rec_frame_data_size (fst s))
                                 then s
                                 else
                                   let response = request_wire_index request @ chunk;
                                       memory = ct_memory env (snd s) (length response);
                                       s = ct_call (Ct_memory (length response)) s
                                   in if \<not> memory then
                                        factory_report_error
                                          (fac_diagnose Diag_frame_data_allocation_failure s)
                                      else
                                        let reply = make_transfer_reply 0xE0 3 response;
                                            sent = ct_send env (snd s) reply;
                                            s = ct_call (Ct_send reply) s
                                        in if \<not> sent then factory_report_error s else s))"

definition factory_finish :: "bool \<Rightarrow> record_state \<Rightarrow> record_state" where
  "factory_finish remove_file s =
     (let s = ct_set record_reset s
      in if remove_file then ct_call (Fac_remove factory_path) s else s)"

definition factory_handle :: "transfer_env \<Rightarrow> frame \<Rightarrow> record_state \<Rightarrow> record_state" where
  "factory_handle env f s =
     (case transfer_operation (ftype f) of
        Op_start \<Rightarrow> factory_start env s
      | Op_geometry \<Rightarrow> factory_geometry env (fpayload f) s
      | Op_data \<Rightarrow> factory_data env (fpayload f) s
      | Op_complete \<Rightarrow> factory_finish True s
      | Op_cancel \<Rightarrow> factory_finish False s
      | Op_unknown \<Rightarrow> s)"

section \<open>Record replies fit a controller frame\<close>

lemma transform_record_length: "length (transform_record r) \<le> 64"
  by (simp add: transform_record_def)

lemma config_records_length: "r \<in> set (config_records cs) \<Longrightarrow> length r \<le> 64"
  by (induction cs rule: config_records.induct) (auto simp: transform_record_length split: if_splits)

text \<open>The unsigned difference never wraps: at most 496 bytes are gathered.\<close>

lemma remaining_space:
  assumes "n \<le> 512"
  shows "(of_nat controller_frame_data_size - of_nat n :: u32) < 80 \<longleftrightarrow> 432 < n"
proof -
  have "(of_nat controller_frame_data_size - of_nat n :: u32) = of_nat (512 - n)"
    using assms by (simp add: of_nat_diff)
  moreover have "unat (of_nat (512 - n) :: u32) = 512 - n"
    using assms unfolding unat_of_nat by simp
  ultimately show ?thesis
    using assms by (simp add: word_less_nat_alt) linarith
qed

lemma gather_records_length:
  "\<forall>r \<in> set rs. length r \<le> 64 \<Longrightarrow> length data \<le> 432 \<Longrightarrow> length (gather_records rs data) \<le> 496"
proof (induction rs arbitrary: data)
  case Nil
  then show ?case by simp
next
  case (Cons r rs)
  have len: "length (data @ r) \<le> 496" using Cons.prems by simp
  show ?case
  proof (cases "432 < length (data @ r)")
    case True
    then have "(of_nat controller_frame_data_size - of_nat (length (data @ r)) :: u32) < 80"
      using remaining_space [of "length (data @ r)"] len by linarith
    then show ?thesis using len by (simp only: gather_records.simps Let_def if_True)
  next
    case False
    then have "\<not> (of_nat controller_frame_data_size - of_nat (length (data @ r)) :: u32) < 80"
      using remaining_space [of "length (data @ r)"] len by linarith
    then show ?thesis
      using Cons.IH [of "data @ r"] Cons.prems False by (simp only: gather_records.simps Let_def if_False) auto
  qed
qed

text \<open>The frames of a list of calls, and the calls an operation adds.\<close>

definition ct_sends_fit :: "transfer_call list \<Rightarrow> bool" where
  "ct_sends_fit h \<longleftrightarrow> (\<forall>f. Ct_send f \<in> set h \<longrightarrow> length (fpayload f) \<le> 501)"

lemma ct_sends_fit_simps [simp]:
  "ct_sends_fit []"
  "ct_sends_fit (h @ h') \<longleftrightarrow> ct_sends_fit h \<and> ct_sends_fit h'"
  "ct_sends_fit (c # h) \<longleftrightarrow> (\<forall>f. c = Ct_send f \<longrightarrow> length (fpayload f) \<le> 501) \<and> ct_sends_fit h"
  by (auto simp: ct_sends_fit_def)

lemma make_transfer_reply_payload [simp]: "fpayload (make_transfer_reply family op p) = p"
  by (simp add: make_transfer_reply_def)

lemma encode_transfer_geometry_length [simp]: "length (encode_transfer_geometry n k) = 6"
  by (simp add: encode_transfer_geometry_def)

lemmas record_defs = config_start_def config_geometry_def config_report_error_def factory_start_def
  factory_geometry_def factory_report_error_def factory_finish_def

lemma config_data_fits:
  "ct_sends_fit (snd s) \<Longrightarrow> ct_sends_fit (snd (config_data env p s))"
proof -
  assume fits: "ct_sends_fit (snd s)"
  have gathered: "length (gather_records (drop k (config_records cs)) []) \<le> 496" for k cs
    by (rule gather_records_length) (auto dest!: in_set_dropD config_records_length)
  define d where "d k cs = gather_records (drop k (config_records cs)) []" for k cs
  define e where "e k cs = (if length (d k cs) < 512 then d k cs @ [10] else d k cs)" for k cs
  have short: "length (e k cs) \<le> 497" for k cs
    using gathered [of k cs] by (simp add: e_def d_def)
  show ?thesis
  proof (cases "parse_transfer_data_request p")
    case None
    then show ?thesis using fits by (simp add: config_data_def config_report_error_def transfer_basics)
  next
    case (Some r)
    have "length (request_wire_index r) \<le> 4"
      using Some by (auto simp: parse_transfer_data_request_def split: if_splits)
    then have reply: "length (request_wire_index r) + length (e k cs) \<le> 501" for k cs
      using short [of k cs] by linarith
    show ?thesis
      using fits reply
      unfolding config_data_def Some Let_def option.case d_def [symmetric] e_def [symmetric]
      by (auto simp: config_report_error_def transfer_basics split: option.splits)
  qed
qed

lemma factory_data_fits:
  "ct_sends_fit (snd s) \<Longrightarrow> ct_sends_fit (snd (factory_data env p s))"
  by (auto simp: factory_data_def parse_transfer_data_request_def factory_report_error_def transfer_basics Let_def
      split: option.splits)

lemma config_handle_fits: "ct_sends_fit (snd s) \<Longrightarrow> ct_sends_fit (snd (config_handle env f s))"
  using config_data_fits [of s env "fpayload f"]
  by (auto simp: config_handle_def record_defs transfer_basics Let_def
      split: operation_kind.splits option.splits)

lemma factory_handle_fits: "ct_sends_fit (snd s) \<Longrightarrow> ct_sends_fit (snd (factory_handle env f s))"
  using factory_data_fits [of s env "fpayload f"]
  by (auto simp: factory_handle_def record_defs transfer_basics Let_def
      split: operation_kind.splits option.splits)

fun record_run :: "('s \<Rightarrow> frame \<Rightarrow> 's) \<Rightarrow> frame list \<Rightarrow> 's \<Rightarrow> 's" where
  "record_run step [] s = s"
| "record_run step (f # fs) s = record_run step fs (step s f)"

lemma record_run_fits:
  "(\<And>s f. ct_sends_fit (snd s) \<Longrightarrow> ct_sends_fit (snd (step s f))) \<Longrightarrow> ct_sends_fit (snd s) \<Longrightarrow>
     ct_sends_fit (snd (record_run step fs s))"
  by (induction fs arbitrary: s) auto

text \<open>
  The record exchanges fit the controller link. Whatever the controller sends and whatever the
  files contain, every frame the configuration and the factory exchange ever send encodes to at most
  528 bytes, the limit of a controller frame.
\<close>
theorem record_replies_fit:
  "Ct_send f \<in> set (snd (record_run (\<lambda>s g. config_handle env g s) fs (t, []))) \<or>
   Ct_send f \<in> set (snd (record_run (\<lambda>s g. factory_handle env g s) gs (t, []))) \<Longrightarrow>
     length (encode_controller_frame f) \<le> 528"
proof -
  assume "Ct_send f \<in> set (snd (record_run (\<lambda>s g. config_handle env g s) fs (t, []))) \<or>
    Ct_send f \<in> set (snd (record_run (\<lambda>s g. factory_handle env g s) gs (t, [])))"
  moreover have "ct_sends_fit (snd (record_run (\<lambda>s g. config_handle env g s) fs (t, [])))"
    by (rule record_run_fits) (simp_all add: config_handle_fits)
  moreover have "ct_sends_fit (snd (record_run (\<lambda>s g. factory_handle env g s) gs (t, [])))"
    by (rule record_run_fits) (simp_all add: factory_handle_fits)
  ultimately have "length (fpayload f) \<le> 501"
    by (auto simp: ct_sends_fit_def)
  then show ?thesis
    by (simp add: encode_controller_frame_def length_encode_with_crc)
qed

section \<open>The firmware timeout\<close>

fun firmware_run :: "transfer_env \<Rightarrow> (frame \<times> u64) list \<Rightarrow> firmware_state \<Rightarrow> firmware_state" where
  "firmware_run env [] s = s"
| "firmware_run env ((f, now) # fs) s = firmware_run env fs (firmware_handle env f now s)"

lemmas firmware_defs = firmware_start_def firmware_geometry_def firmware_data_def firmware_finish_def
  firmware_report_error_def firmware_restart_wait_def

abbreviation (input) times_out :: "transfer_call list \<Rightarrow> bool" where
  "times_out h \<equiv> \<exists>a b. Fw_publish Fw_timed_out a b \<in> set h"

lemma timeout_fresh:
  "fw_active (fst s) \<Longrightarrow> fw_waiting (fst s) \<Longrightarrow> fw_wait_started (fst s) = now \<Longrightarrow> firmware_apply_timeout now s = s"
  "\<not> fw_active (fst s) \<or> \<not> fw_waiting (fst s) \<Longrightarrow> firmware_apply_timeout now s = s"
  by (auto simp: firmware_apply_timeout_def)

lemma firmware_start_timeout:
  "firmware_apply_timeout now (firmware_start env now s) = firmware_start env now s \<and>
   (times_out (snd (firmware_start env now s)) \<longleftrightarrow> times_out (snd s))"
  by (auto simp: firmware_start_def transfer_basics Let_def intro: timeout_fresh)

lemma firmware_geometry_timeout:
  "firmware_apply_timeout now (firmware_geometry env p now s) = firmware_geometry env p now s \<and>
   (times_out (snd (firmware_geometry env p now s)) \<longleftrightarrow> times_out (snd s))"
proof
  have "fw_active (fst (firmware_geometry env p now s)) \<Longrightarrow>
      fw_waiting (fst (firmware_geometry env p now s)) \<and> fw_wait_started (fst (firmware_geometry env p now s)) = now"
    by (auto simp: firmware_geometry_def firmware_report_error_def firmware_restart_wait_def transfer_basics Let_def
        split: option.splits if_splits)
  then show "firmware_apply_timeout now (firmware_geometry env p now s) = firmware_geometry env p now s"
    using timeout_fresh by blast
  show "times_out (snd (firmware_geometry env p now s)) \<longleftrightarrow> times_out (snd s)"
    by (auto simp: firmware_geometry_def firmware_report_error_def firmware_restart_wait_def transfer_basics Let_def
        split: option.splits if_splits)
qed

lemma firmware_data_timeout:
  "firmware_apply_timeout now (firmware_data env p s) = firmware_data env p s \<and>
   (times_out (snd (firmware_data env p s)) \<longleftrightarrow> times_out (snd s))"
proof
  have "\<not> fw_active (fst (firmware_data env p s)) \<or> \<not> fw_waiting (fst (firmware_data env p s))"
    by (auto simp: firmware_data_def firmware_report_error_def transfer_basics Let_def split: option.splits if_splits)
  then show "firmware_apply_timeout now (firmware_data env p s) = firmware_data env p s"
    using timeout_fresh by blast
  show "times_out (snd (firmware_data env p s)) \<longleftrightarrow> times_out (snd s)"
    by (auto simp: firmware_data_def firmware_report_error_def transfer_basics Let_def split: option.splits if_splits)
qed

lemma firmware_finish_timeout:
  "e \<noteq> Fw_timed_out \<Longrightarrow> firmware_apply_timeout now (firmware_finish e s) = firmware_finish e s \<and>
   (times_out (snd (firmware_finish e s)) \<longleftrightarrow> times_out (snd s))"
  by (auto simp: firmware_finish_def transfer_basics intro: timeout_fresh)

lemma firmware_handle_timeout:
  "transfer_operation (ftype f) \<noteq> Op_unknown \<Longrightarrow>
     times_out (snd (firmware_handle env f now s)) \<longleftrightarrow> times_out (snd s)"
  using firmware_start_timeout [of now env s] firmware_geometry_timeout [of now env "fpayload f" s]
    firmware_data_timeout [of now env "fpayload f" s] firmware_finish_timeout [of Fw_completed now s]
    firmware_finish_timeout [of Fw_cancelled now s]
  by (cases "transfer_operation (ftype f)") (simp_all add: firmware_handle_def)

lemma firmware_run_timeout:
  "\<forall>(f, now) \<in> set fs. transfer_operation (ftype f) \<noteq> Op_unknown \<Longrightarrow>
     times_out (snd (firmware_run env fs s)) \<longleftrightarrow> times_out (snd s)"
  by (induction env fs s rule: firmware_run.induct) (simp_all add: firmware_handle_timeout)

text \<open>
  The firmware timeout needs a frame of an undefined operation. It is examined only after a
  frame, and every frame that is a transfer operation restarts, suspends or ends the wait: however
  much time passes between the frames, no timeout is published unless a frame of an undefined
  operation arrives.
\<close>
theorem firmware_timeout_needs_undefined_operation:
  "\<forall>(f, now) \<in> set fs. transfer_operation (ftype f) \<noteq> Op_unknown \<Longrightarrow>
     Fw_publish Fw_timed_out a b \<notin> set (snd (firmware_run env fs (t, [])))"
proof -
  assume defined: "\<forall>(f, now) \<in> set fs. transfer_operation (ftype f) \<noteq> Op_unknown"
  have "\<not> times_out (snd (firmware_run env fs (t, [])))"
    unfolding firmware_run_timeout [OF defined] by simp
  then show ?thesis by blast
qed

section \<open>Firmware reaches the controller\<close>

definition ct_sent_data :: "transfer_call list \<Rightarrow> bytes" where
  "ct_sent_data h = concat (map (\<lambda>c. case c of Ct_send f \<Rightarrow> if ftype f = 0xC3 then drop 4 (fpayload f) else []
                                     | _ \<Rightarrow> []) h)"

lemma ct_sent_data_simps [simp]:
  "ct_sent_data [] = []"
  "ct_sent_data (h @ h') = ct_sent_data h @ ct_sent_data h'"
  "ct_sent_data (Ct_send f # h) = (if ftype f = 0xC3 then drop 4 (fpayload f) else []) @ ct_sent_data h"
  "ct_sent_data (Ct_diagnose a b c # h) = ct_sent_data h" "ct_sent_data (Ct_memory n # h) = ct_sent_data h"
  "ct_sent_data (Fw_read p w k # h) = ct_sent_data h" "ct_sent_data (Fw_publish e u v # h) = ct_sent_data h"
  by (simp_all add: ct_sent_data_def)

definition serves_firmware :: "transfer_env \<Rightarrow> bytes \<Rightarrow> bool" where
  "serves_firmware env content \<longleftrightarrow>
     (\<forall>h offset n. ct_read env h firmware_path offset n = Some (take n (drop (unat offset) content))) \<and>
     (\<forall>h n. ct_memory env h n) \<and> (\<forall>h f. ct_send env h f) \<and>
     (\<forall>h. ct_size env h firmware_path = Some (of_nat (length content)))"

fun firmware_requests :: "nat \<Rightarrow> nat \<Rightarrow> (nat \<Rightarrow> u64) \<Rightarrow> (frame \<times> u64) list" where
  "firmware_requests k 0 clock = []"
| "firmware_requests k (Suc n) clock =
     (\<lparr>ftype = 0xC3, fpayload = encode_u32 (of_nat k)\<rparr>, clock k) # firmware_requests (Suc k) n clock"

lemma ceiling_div:
  assumes "0 < (u :: nat)"
  shows "(n + u - 1) div u = n div u + (if n mod u > 0 then 1 else 0)"
proof -
  have n: "n = u * (n div u) + n mod u" and r: "n mod u < u" using assms by simp_all
  show ?thesis
  proof (cases "n mod u = 0")
    case True
    have "(n + u - 1) div u = n div u"
      by (rule div_nat_eqI) (use n r True assms in \<open>simp_all add: algebra_simps\<close>)
    then show ?thesis using True by simp
  next
    case False
    have "u * Suc (n div u) \<le> n + u - 1" "n + u - 1 < u * Suc (Suc (n div u))"
      unfolding mult_Suc_right using n r False by linarith+
    then have "(n + u - 1) div u = Suc (n div u)" by (rule div_nat_eqI)
    then show ?thesis using False by simp
  qed
qed

lemma unat_u32: "n < 2 ^ 32 \<Longrightarrow> unat (of_nat n :: u32) = n"
  unfolding unat_of_nat by simp

lemma unat_ucast16: "unat (ucast (w :: u16) :: u32) = unat w"
proof -
  have "unat w < 2 ^ 16" using unsigned_less [of w] by simp
  then show ?thesis by (simp add: unsigned_ucast_eq take_bit_nat_eq_self)
qed

lemma unat_ucast32: "unat (ucast (w :: u32) :: u64) = unat w"
proof -
  have "unat w < 2 ^ 32" using unsigned_less [of w] by simp
  then show ?thesis by (simp add: unsigned_ucast_eq take_bit_nat_eq_self)
qed

lemma unat_u32_of_u16: "unat (of_nat (unat (w :: u16)) :: u32) = unat w"
proof -
  have "unat w < 2 ^ 16" using unsigned_less [of w] by simp
  then show ?thesis by (intro unat_u32) simp
qed

lemma firmware_offset_exact:
  assumes "k * unat unit < 2 ^ 32" "Suc k < 2 ^ 32"
  shows "unat (ucast (firmware_offset (of_nat (Suc k)) unit) :: u64) = k * unat unit"
proof -
  have "(of_nat (Suc k) :: u32) \<le> 1 \<longleftrightarrow> k = 0"
    using unat_u32 [OF assms(2)] by (simp add: word_le_nat_alt del: of_nat_Suc)
  then have "firmware_offset (of_nat (Suc k)) unit = of_nat k * ucast unit"
    by (auto simp: firmware_offset_def)
  also have "\<dots> = of_nat (k * unat unit)"
  proof -
    have "(ucast unit :: u32) = of_nat (unat unit)"
      by (rule word_unat_eq_iff [THEN iffD2]) (simp add: unat_ucast16 unat_u32_of_u16)
    then show ?thesis by simp
  qed
  finally show ?thesis
    using unat_u32 [OF assms(1)] unat_ucast32 by simp
qed

lemma firmware_data_step:
  assumes served: "serves_firmware env content" and k: "Suc k < 2 ^ 32"
    and offset: "k * unat (fw_frame_data_size t) < length content" and len: "length content < 2 ^ 32"
    and unit: "0 < unat (fw_frame_data_size t)"
  shows "\<exists>h'. firmware_handle env \<lparr>ftype = 0xC3, fpayload = encode_u32 (of_nat (Suc k))\<rparr> now (t, h) =
           (if fw_active t then t\<lparr>fw_waiting := False\<rparr> else t, h') \<and>
         ct_sent_data h' = ct_sent_data h @
           take (unat (fw_frame_data_size t)) (drop (k * unat (fw_frame_data_size t)) content)"
proof -
  let ?u = "fw_frame_data_size t"
  let ?p = "encode_u32 (of_nat (Suc k))"
  let ?t = "if fw_active t then t\<lparr>fw_waiting := False\<rparr> else t"
  have parsed: "parse_transfer_data_request ?p =
      Some \<lparr>request_index = of_nat (Suc k), request_wire_index = ?p\<rparr>"
    by (simp add: parse_transfer_data_request_def encode_u32_def decode_be32_def)
  have at: "unat (ucast (firmware_offset (of_nat (Suc k)) ?u) :: u64) = k * unat ?u"
    using offset len k by (intro firmware_offset_exact) simp_all
  have read: "ct_read env g firmware_path (ucast (firmware_offset (of_nat (Suc k)) ?u)) (unat ?u) =
      Some (take (unat ?u) (drop (k * unat ?u) content))" for g
    using served at by (simp add: serves_firmware_def)
  have some: "take (unat ?u) (drop (k * unat ?u) content) \<noteq> []"
    using offset unit by simp
  have ok: "ct_memory env g n" "ct_send env g f" for g n f
    using served by (simp_all add: serves_firmware_def)
  have state: "fw_frame_data_size ?t = ?u" by simp
  have wire: "length ?p = 4" by (simp add: encode_u32_def)
  have nonzero: "?u \<noteq> 0"
    using unit by auto
  obtain h' where data: "firmware_data env ?p (t, h) = (?t, h')" and
    sent: "ct_sent_data h' = ct_sent_data h @ take (unat ?u) (drop (k * unat ?u) content)"
    using some unit nonzero
    by (cases "fw_active t")
      (auto simp: firmware_data_def parsed transfer_basics Let_def ok read wire make_transfer_reply_def
        family_packet_def simp del: of_nat_Suc)
  have op: "transfer_operation 0xC3 = Op_data" by (simp add: transfer_operation_def)
  have "firmware_apply_timeout now (?t, h') = (?t, h')"
    by (rule timeout_fresh) simp
  then show ?thesis
    using sent by (auto simp: firmware_handle_def op data simp del: of_nat_Suc)
qed

lemma firmware_requests_sent:
  assumes "serves_firmware env content" "length content < 2 ^ 32" "0 < unat (fw_frame_data_size t)"
    "k + n \<le> length content" "(k + n - 1) * unat (fw_frame_data_size t) < length content \<or> n = 0"
  shows "ct_sent_data (snd (firmware_run env (firmware_requests (Suc k) n clock) (t, h))) =
           ct_sent_data h @ take (n * unat (fw_frame_data_size t)) (drop (k * unat (fw_frame_data_size t)) content)"
  using assms
proof (induction n arbitrary: k t h)
  case (Suc n)
  let ?u = "unat (fw_frame_data_size t)"
  let ?t = "if fw_active t then t\<lparr>fw_waiting := False\<rparr> else t"
  have "k * ?u \<le> (k + Suc n - 1) * ?u" by simp
  then have within: "k * ?u < length content" using Suc.prems(5) by linarith
  have small: "Suc k < 2 ^ 32"
  proof (rule ccontr)
    assume "\<not> Suc k < 2 ^ 32"
    then show False using Suc.prems(2,4) by linarith
  qed
  obtain h' where step: "firmware_handle env \<lparr>ftype = 0xC3, fpayload = encode_u32 (of_nat (Suc k))\<rparr> (clock (Suc k)) (t, h) =
      (?t, h')" and sent: "ct_sent_data h' = ct_sent_data h @ take ?u (drop (k * ?u) content)"
    using firmware_data_step [OF Suc.prems(1) small within Suc.prems(2,3)] by blast
  have same: "fw_frame_data_size ?t = fw_frame_data_size t" by simp
  have "ct_sent_data (snd (firmware_run env (firmware_requests (Suc (Suc k)) n clock) (?t, h'))) =
      ct_sent_data h' @ take (n * ?u) (drop (Suc k * ?u) content)"
    using Suc.IH [of ?t "Suc k" h'] Suc.prems unfolding same by (cases n) auto
  moreover have "take (Suc n * ?u) (drop (k * ?u) content) =
      take ?u (drop (k * ?u) content) @ take (n * ?u) (drop (Suc k * ?u) content)"
    by (simp add: take_add add.commute)
  ultimately show ?case
    by (simp only: firmware_requests.simps firmware_run.simps step sent append_assoc)
qed simp

lemma firmware_count_exact:
  assumes "len < 2 ^ 32" "0 < unat unit"
  shows "(of_nat len :: u32) div ucast (unit :: u16) + (if (of_nat len :: u32) mod ucast unit > 0 then 1 else 0) =
           of_nat ((len + unat unit - 1) div unat unit)"
proof -
  let ?u = "unat unit"
  have division: "unat ((of_nat len :: u32) div ucast unit) = len div ?u"
    "unat ((of_nat len :: u32) mod ucast unit) = len mod ?u"
    using unat_u32 [OF assms(1)] by (simp_all add: unat_div unat_mod unat_ucast16)
  have quotient: "(of_nat len :: u32) div ucast unit = of_nat (len div ?u)"
    by (rule word_unat_eq_iff [THEN iffD2])
      (use division(1) unat_u32 [of "len div ?u"] assms(1) div_le_dividend [of len ?u] in linarith)
  have positive: "(of_nat len :: u32) mod ucast unit > 0 \<longleftrightarrow> len mod ?u > 0"
    using division(2) by (simp add: word_less_nat_alt)
  have "(len + ?u - 1) div ?u = len div ?u + (if len mod ?u > 0 then 1 else 0)"
    using assms(2) by (rule ceiling_div)
  then show ?thesis
    by (simp add: quotient positive)
qed

abbreviation (input) firmware_count :: "bytes \<Rightarrow> u16 \<Rightarrow> nat" where
  "firmware_count content unit \<equiv> (length content + unat unit - 1) div unat unit"

lemma firmware_geometry_step:
  assumes "serves_firmware env content" "length content < 2 ^ 32" "0 < unat unit"
  shows "\<exists>v h'. firmware_handle env \<lparr>ftype = 0xC2, fpayload = encode_transfer_geometry c unit\<rparr> now (t, h) = (v, h @ h') \<and>
    fw_frame_data_size v = unit \<and> ct_sent_data h' = [] \<and>
    Ct_send \<lparr>ftype = 0xC2, fpayload = encode_transfer_geometry (of_nat (firmware_count content unit)) unit\<rparr> \<in> set h'"
proof -
  have op: "transfer_operation 0xC2 = Op_geometry" by (simp add: transfer_operation_def)
  have nonzero: "unit \<noteq> 0" using assms(3) by auto
  have parsed: "parse_transfer_geometry (encode_transfer_geometry c unit) =
      Some \<lparr>geometry_frame_count = c, geometry_frame_data_size = unit\<rparr>"
    using parse_encode_geometry [of c unit "[]"] by simp
  have env: "ct_size env g firmware_path = Some (of_nat (length content))" "ct_send env g f" for g f
    using assms(1) by (simp_all add: serves_firmware_def)
  have low: "(ucast (of_nat (length content) :: u64) :: u32) = of_nat (length content)"
    by (rule word_unat_eq_iff [THEN iffD2])
      (use assms(2) unat_u32 [OF assms(2)] in
        \<open>simp add: unsigned_ucast_eq unat_of_nat take_bit_nat_eq_self\<close>)
  let ?reply = "make_transfer_reply 0xC0 2 (encode_transfer_geometry (of_nat (firmware_count content unit)) unit)"
  have type: "?reply = \<lparr>ftype = 0xC2, fpayload = encode_transfer_geometry (of_nat (firmware_count content unit)) unit\<rparr>"
    by (simp add: make_transfer_reply_def family_packet_def)
  let ?v = "(if fw_active t then t\<lparr>fw_waiting := True, fw_wait_started := now\<rparr> else t)
    \<lparr>fw_frame_count := of_nat (firmware_count content unit), fw_frame_data_size := unit\<rparr>"
  have geometry: "firmware_geometry env (encode_transfer_geometry c unit) now (t, h) =
      (?v, h @ [Fw_size firmware_path, Ct_send ?reply, Ct_diagnose Firmware_family Diag_layout 0])"
    using nonzero
    by (cases "fw_active t")
      (simp_all add: firmware_geometry_def firmware_restart_wait_def transfer_basics Let_def parsed env low
        firmware_count_exact [OF assms(2,3)])
  then have "firmware_handle env \<lparr>ftype = 0xC2, fpayload = encode_transfer_geometry c unit\<rparr> now (t, h) =
      (?v, h @ [Fw_size firmware_path, Ct_send ?reply, Ct_diagnose Firmware_family Diag_layout 0])"
    using firmware_geometry_timeout [of now env "encode_transfer_geometry c unit" "(t, h)"]
    by (simp add: firmware_handle_def op)
  moreover have "fw_frame_data_size ?v = unit" by (cases "fw_active t") simp_all
  moreover have "ct_sent_data [Fw_size firmware_path, Ct_send ?reply, Ct_diagnose Firmware_family Diag_layout 0] = []"
    by (simp add: ct_sent_data_def make_transfer_reply_def family_packet_def)
  ultimately show ?thesis
    unfolding type by (intro exI conjI) (assumption | simp)+
qed


definition firmware_env :: "bytes \<Rightarrow> transfer_env" where
  "firmware_env content =
     \<lparr>ct_send = \<lambda>h f. True, ct_memory = \<lambda>h n. True, ct_exists = \<lambda>h p. True,
      ct_size = \<lambda>h p. Some (of_nat (length content)),
      ct_read = \<lambda>h p w n. Some (take n (drop (unat w) content)), ct_available = \<lambda>h. False,
      ct_config_chunks = \<lambda>h n. None, ct_factory_chunks = \<lambda>h p n. None\<rparr>"

lemma firmware_env_serves: "length content < 2 ^ 32 \<Longrightarrow> serves_firmware (firmware_env content) content"
  by (simp add: serves_firmware_def firmware_env_def)


theorem firmware_timeout_needs_undefined_operation_witness:
  "Fw_publish Fw_timed_out 0 0 \<notin>
     set (snd (firmware_run (firmware_env []) [(\<lparr>ftype = 0xC1, fpayload = []\<rparr>, 0), (\<lparr>ftype = 0xC3, fpayload = []\<rparr>, 9000)]
       (new_firmware_transfer, [])))"
  by (rule firmware_timeout_needs_undefined_operation) (simp add: transfer_operation_def)

theorem record_replies_fit_witness:
  "length (encode_controller_frame (make_transfer_reply 0xD0 5 [])) \<le> 528"
proof -
  let ?env = "firmware_env []"
  have "Ct_send (make_transfer_reply 0xD0 5 []) \<in>
      set (snd (record_run (\<lambda>s g. config_handle ?env g s) [\<lparr>ftype = 0xD1, fpayload = []\<rparr>] (new_record_transfer, [])))"
    by (simp add: config_handle_def config_start_def config_report_error_def transfer_operation_def transfer_basics
        firmware_env_def Let_def)
  then show ?thesis
    by (intro record_replies_fit [of _ ?env "[\<lparr>ftype = 0xD1, fpayload = []\<rparr>]" new_record_transfer "[]"]) simp
qed

section \<open>Factory records by number\<close>

lemma select_record_nth:
  assumes "k < length (filter factory_eligible cs)" "done + Suc k < 2 ^ 32"
  shows "select_record (of_nat (done + Suc k)) cs (of_nat done) = Some (filter factory_eligible cs ! k)"
  using assms
proof (induction cs arbitrary: k "done")
  case (Cons c cs)
  show ?case
  proof (cases "factory_eligible c")
    case True
    have distinct: "(of_nat done + 1 :: u32) = of_nat (done + Suc k) \<longleftrightarrow> k = 0"
    proof -
      have "(of_nat (Suc done) :: u32) = of_nat (done + Suc k) \<longleftrightarrow> Suc done = done + Suc k"
      proof
        assume "(of_nat (Suc done) :: u32) = of_nat (done + Suc k)"
        then have "unat (of_nat (Suc done) :: u32) = unat (of_nat (done + Suc k) :: u32)" by (rule arg_cong)
        moreover have "Suc done < 2 ^ 32" using Cons.prems(2) by linarith
        ultimately show "Suc done = done + Suc k"
          unfolding unat_u32 [OF Cons.prems(2)] using unat_u32 [of "Suc done"] by linarith
      qed (rule arg_cong)
      then show ?thesis by (simp add: add.commute)
    qed
    show ?thesis
    proof (cases k)
      case 0
      then show ?thesis using True distinct by simp
    next
      case (Suc j)
      then show ?thesis
        using True distinct Cons.IH [of j "Suc done"] Cons.prems by (simp add: add.commute add.left_commute)
    qed
  qed (use Cons in simp)
qed simp

text \<open>
  Factory records are addressed by number. Once a geometry exchange has fixed the frame size,
  asking for record k, counted from one among the lines that are longer than two bytes and no
  comments, sends exactly that line behind the four index bytes when it fits 132 bytes and the frame
  size, and sends nothing at all when it does not.
\<close>
theorem factory_serves_record:
  assumes "k < length (filter factory_eligible cs)" "Suc k < 2 ^ 32" "rec_frame_data_size t \<noteq> 0"
    "\<And>h. ct_factory_chunks env h factory_path 255 = Some cs" "\<And>h n. ct_memory env h n" "\<And>h f. ct_send env h f"
    "r = filter factory_eligible cs ! k"
  shows "filter (\<lambda>c. \<exists>f. c = Ct_send f)
      (snd (factory_handle env \<lparr>ftype = 0xE3, fpayload = encode_u32 (of_nat (Suc k))\<rparr> (t, []))) =
    (if length r \<le> 132 \<and> length r \<le> unat (rec_frame_data_size t)
     then [Ct_send \<lparr>ftype = 0xE3, fpayload = encode_u32 (of_nat (Suc k)) @ r\<rparr>] else [])"
proof -
  let ?p = "encode_u32 (of_nat (Suc k))"
  have parsed: "parse_transfer_data_request ?p = Some \<lparr>request_index = of_nat (Suc k), request_wire_index = ?p\<rparr>"
    by (simp add: parse_transfer_data_request_def encode_u32_def decode_be32_def)
  have selected: "select_record (of_nat (Suc k)) cs 0 = Some r"
    using select_record_nth [OF assms(1), of 0] assms(2,7) by simp
  have nonzero: "(of_nat (Suc k) :: u32) \<noteq> 0"
    using unat_u32 [OF assms(2)] by (metis nat.distinct(1) unat_0)
  have op: "transfer_operation 0xE3 = Op_data" by (simp add: transfer_operation_def)
  show ?thesis
    using assms(3) nonzero
    by (simp add: factory_handle_def op factory_data_def parsed selected assms(4,5,6) transfer_basics
        make_transfer_reply_def family_packet_def Let_def not_less del: of_nat_Suc)
qed

theorem factory_serves_record_witness:
  "filter (\<lambda>c. \<exists>f. c = Ct_send f)
      (snd (factory_handle ((firmware_env [])\<lparr>ct_factory_chunks := \<lambda>h p n. Some [[35, 65, 66], [65, 66, 67]]\<rparr>)
        \<lparr>ftype = 0xE3, fpayload = encode_u32 (of_nat (Suc 0))\<rparr> (new_record_transfer\<lparr>rec_frame_data_size := 512\<rparr>, []))) =
    [Ct_send \<lparr>ftype = 0xE3, fpayload = encode_u32 (of_nat (Suc 0)) @ [65, 66, 67]\<rparr>]"
  by (subst factory_serves_record [where cs = "[[35, 65, 66], [65, 66, 67]]" and r = "[65, 66, 67]"])
    (simp_all add: factory_eligible_def octet_def firmware_env_def new_record_transfer_def)

end
