(* ===== verification/Controller_Link.thy ===== *)
theory Controller_Link
  imports Paced_Fifo Deadline Controller_Transfer Number_Text
begin

text \<open>
  The link to the motion controller: the alarm of a silent controller, the spaced output queue and its
  forwarder (\<open>application/src/controller/controller_link.cpp\<close>, \<open>controller_frame_forwarder.cpp\<close>), the periodic
  queries (\<open>controller_query.cpp\<close>), the retained snapshots with the replies made of them
  (\<open>controller_snapshots.cpp\<close>, \<open>core/src/protocol/status.cpp\<close>) and the fields of the status extension
  (\<open>application/src/runtime/runtime_status.cpp\<close>).
\<close>

section \<open>The alarm\<close>

definition make_inactivity_alarm :: frame where
  "make_inactivity_alarm =
     \<lparr>ftype = 0x90,
      fpayload = octets ''ALARM: Mainboard did not receive a status response from the CTRL (RX error)'' @ [0x0A]\<rparr>"

text \<open>The state of the monitor is the time of the next alarm.\<close>

definition new_activity_monitor :: "u64 \<Rightarrow> u64" where
  "new_activity_monitor start_milliseconds = start_milliseconds + 10000"

definition record_valid_frame :: "u64 \<Rightarrow> u64" where
  "record_valid_frame now_milliseconds = now_milliseconds + 10000"

definition activity_poll :: "u64 \<Rightarrow> u64 \<Rightarrow> frame list \<times> u64" where
  "activity_poll now next_alarm =
     (if now < next_alarm then ([], next_alarm)
      else let elapsed_periods = (now - next_alarm) div 10000 + 1
           in (replicate (unat elapsed_periods) make_inactivity_alarm, next_alarm + elapsed_periods * 10000))"

section \<open>The output queue\<close>

record controller_output =
  output_items :: "bytes list"
  next_write :: u64

definition new_controller_output :: controller_output where
  "new_controller_output = \<lparr>output_items = [], next_write = 0\<rparr>"

definition controller_output_enqueue :: "bytes \<Rightarrow> controller_output \<Rightarrow> controller_output \<times> bool" where
  "controller_output_enqueue item q =
     (if item = [] \<or> length item > controller_maximum_item_size \<or> length (output_items q) \<ge> 32 then (q, False)
      else (q\<lparr>output_items := output_items q @ [item]\<rparr>, True))"

definition controller_output_take :: "u64 \<Rightarrow> controller_output \<Rightarrow> controller_output \<times> bytes option" where
  "controller_output_take now q =
     (if output_items q = [] \<or> now < next_write q then (q, None)
      else (q\<lparr>output_items := tl (output_items q), next_write := now + 10\<rparr>, Some (hd (output_items q))))"

definition forward :: "frame \<Rightarrow> controller_output \<Rightarrow> controller_output \<times> bool" where
  "forward f q = controller_output_enqueue (encode_frame f) q"

text \<open>The port reports a failed write only.\<close>

definition record_write_result :: "int \<Rightarrow> (string \<times> string) option" where
  "record_write_result bytes_written =
     (if bytes_written < 0 then Some (''uart_task'', ''UART send failed'') else None)"

section \<open>The queries\<close>

record query_scheduler =
  next_status :: u64
  next_diagnostic :: u64

definition new_query_scheduler :: "u64 \<Rightarrow> query_scheduler" where
  "new_query_scheduler start = \<lparr>next_status = start, next_diagnostic = start\<rparr>"

definition consume_due_opportunity :: "u64 \<Rightarrow> u64 \<Rightarrow> u64 \<Rightarrow> bool \<times> u64" where
  "consume_due_opportunity now period due =
     (if now < due then (False, due) else (True, due + ((now - due) div period + 1) * period))"

definition controller_diagnostic_command :: frame where
  "controller_diagnostic_command = \<lparr>ftype = 0xA2, fpayload = octets ''diagnose'' @ [0x0A]\<rparr>"

definition query_poll :: "u64 \<Rightarrow> bool \<Rightarrow> query_scheduler \<Rightarrow> frame list \<times> query_scheduler" where
  "query_poll now traffic_allowed s =
     (let (status_due, status) = consume_due_opportunity now 300 (next_status s);
          (diagnostic_due, diagnostic) = consume_due_opportunity now 500 (next_diagnostic s);
          s = s\<lparr>next_status := status, next_diagnostic := diagnostic\<rparr>
      in if \<not> traffic_allowed then ([], s)
         else ((if status_due then [\<lparr>ftype = 0xA1, fpayload = octets ''?''\<rparr>] else []) @
               (if diagnostic_due then [controller_diagnostic_command] else []), s))"

section \<open>The status extension\<close>

record status_extension =
  transfer_active :: bool
  record_requested :: bool
  ext_recording :: bool
  sd_used_mib :: u32
  sd_total_mib :: u32
  ext_phase :: u32
  ext_progress :: u32

definition bounded_mib :: "u64 \<Rightarrow> u32" where
  "bounded_mib value_mib = ucast (min value_mib 0xFFFFFFFF)"

text \<open>The capacity is the pair of the total and the free mebibytes.\<close>

definition status_extension_of :: "bool \<Rightarrow> bool \<Rightarrow> bool \<Rightarrow> (u64 \<times> u64) option \<Rightarrow> u32 \<Rightarrow> u32 \<Rightarrow> status_extension" where
  "status_extension_of transfer requested active capacity phase progress =
     (let base = \<lparr>transfer_active = transfer, record_requested = requested, ext_recording = active,
                  sd_used_mib = 1234, sd_total_mib = 1234, ext_phase = phase, ext_progress = progress\<rparr>
      in case capacity of
           None \<Rightarrow> base
         | Some (total_mib, free_mib) \<Rightarrow>
             base\<lparr>sd_used_mib := bounded_mib (if total_mib > free_mib then total_mib - free_mib else 0),
                  sd_total_mib := bounded_mib total_mib\<rparr>)"

definition extension_text :: "status_extension \<Rightarrow> string" where
  "extension_text e =
     ''|E:'' @ decimal (if transfer_active e then 1 else 0) @ '','' @ decimal (if record_requested e then 1 else 0) @
     '','' @ decimal (if ext_recording e then 1 else 0) @ '','' @ decimal (unat (sd_used_mib e)) @ '','' @
     decimal (unat (sd_total_mib e)) @ ''|OTA:'' @ decimal (unat (ext_phase e)) @ '','' @
     decimal (unat (ext_progress e)) @ ''>'' @ [CHR 0x0A]"

definition extend_status :: "string \<Rightarrow> status_extension \<Rightarrow> string option" where
  "extend_status status e =
     (if status = [] \<or> hd status \<noteq> CHR ''<'' then None
      else case find_char (CHR ''>'') status of
          None \<Rightarrow> None
        | Some closing \<Rightarrow>
            let suffix = extension_text e
            in if length suffix \<ge> 96 \<or> closing + length suffix > 528 then None else Some (take closing status @ suffix))"

definition status_reports_running :: "string \<Rightarrow> bool" where
  "status_reports_running status \<longleftrightarrow> find_sub ''|P:'' status \<noteq> None"

section \<open>The snapshots\<close>

definition initial_status :: string where
  "initial_status =
     ''<Idle|MPos:-1.0000,-1.0000,-1.0000,0.0000,0.0000|WPos:144.4120,158.7000,77.9550,8.0010,0.0000|'' @
     ''    F:0.0,3000.0,100.0|S:0.0,10000.0,100.0,0,27.0|T:1,-15.180|W:4.13|L:0,0,0,0.0,100.0|'' @
     ''P:1234,50,1200|A:1|O:-1.351|H:1|C:1,5,0,1>'' @ [CHR 0x0A]"

definition fallback_status :: string where
  "fallback_status =
     ''<Idle|MPos:-1.0000,-1.0000,-1.0000,0.0000,0.0000|WPos:144.4120,158.7000,77.9550,8.0010,0.0000|'' @
     ''F:0.0,3000.0,100.0|S:0.0,10000.0,100.0,0,27.0|T:1,-15.180|W:4.13|L:0,0,0,0.0,100.0|'' @
     ''P:1234,50,1200|A:1|O:-1.351|H:1|C:1,5,0,1>'' @ [CHR 0x0A]"

definition usable_status :: "string \<Rightarrow> bool" where
  "usable_status status \<longleftrightarrow> status \<noteq> [] \<and> hd status = CHR ''<'' \<and> find_char (CHR ''>'') status \<noteq> None"

record snapshots =
  latest_status :: bytes
  pending_statuses :: "bytes list"
  snapshot_diagnostic :: bytes
  snapshot_version :: bytes

definition new_snapshots :: snapshots where
  "new_snapshots =
     \<lparr>latest_status = octets initial_status, pending_statuses = [], snapshot_diagnostic = replicate 528 0,
      snapshot_version = replicate 528 0\<rparr>"

definition bounded_status_copy :: "bytes \<Rightarrow> bytes" where
  "bounded_status_copy payload = take 519 payload"

text \<open>\<open>std::copy_n\<close> over the front of the retained text; what the payload does not reach stays.\<close>

definition replace_text_prefix :: "bytes \<Rightarrow> bytes \<Rightarrow> bytes" where
  "replace_text_prefix retained payload =
     (if payload = [] then retained
      else let n = min (length payload) (length retained) in take n payload @ drop n retained)"

definition retain_status :: "bytes \<Rightarrow> snapshots \<Rightarrow> snapshots" where
  "retain_status payload s =
     (if payload = [] then s
      else
        let copy = bounded_status_copy payload;
            pending = (if length (pending_statuses s) = 3 then tl (pending_statuses s) else pending_statuses s)
        in s\<lparr>latest_status := copy, pending_statuses := pending @ [copy]\<rparr>)"

definition update_diagnostic :: "bytes \<Rightarrow> snapshots \<Rightarrow> snapshots" where
  "update_diagnostic payload s = s\<lparr>snapshot_diagnostic := replace_text_prefix (snapshot_diagnostic s) payload\<rparr>"

definition update_version :: "bytes \<Rightarrow> snapshots \<Rightarrow> snapshots" where
  "update_version payload s = s\<lparr>snapshot_version := replace_text_prefix (snapshot_version s) payload\<rparr>"

definition status_reply :: "status_extension \<Rightarrow> snapshots \<Rightarrow> frame option \<times> snapshots" where
  "status_reply e s =
     (let selected = (if pending_statuses s = [] then latest_status s else List.last (pending_statuses s));
          text_of = (if usable_status (chars selected) then chars selected else fallback_status)
      in (map_option (\<lambda>extended. \<lparr>ftype = 0x81, fpayload = octets extended\<rparr>) (extend_status text_of e),
          s\<lparr>pending_statuses := []\<rparr>))"

text \<open>What precedes the first zero octet.\<close>

definition text_before_nul :: "bytes \<Rightarrow> bytes" where
  "text_before_nul = takeWhile (\<lambda>b. b \<noteq> 0)"

definition diagnostic_reply :: "32 word \<Rightarrow> snapshots \<Rightarrow> frame option" where
  "diagnostic_reply rssi s =
     (let diagnostic = text_before_nul (snapshot_diagnostic s)
      in if diagnostic = [] \<or> hd diagnostic \<noteq> octet CHR ''{'' then None
         else case find_char (CHR ''}'') (chars diagnostic) of
             None \<Rightarrow> None
           | Some closing \<Rightarrow>
               let insertion = ''|RSSI:'' @ (if sint rssi < 0 then CHR ''-'' # decimal (nat (- sint rssi)) else decimal (nat (sint rssi)))
               in if length insertion \<ge> 32 \<or> length diagnostic + length insertion \<ge> 528
                  then Some \<lparr>ftype = 0x82, fpayload = diagnostic\<rparr>
                  else Some \<lparr>ftype = 0x82,
                             fpayload = take closing (snapshot_diagnostic s) @ octets insertion @ octets ''}'' @ [0x0A]\<rparr>)"

definition version_reply :: "snapshots \<Rightarrow> frame" where
  "version_reply s =
     (let controller = text_before_nul (snapshot_version s)
      in \<lparr>ftype = 0x83,
          fpayload = octets ''version = '' @
            (if length controller > 0 \<and> length controller \<le> 63 then controller else []) @ octets ''.0.1.13'' @ [0x0A]\<rparr>)"

section \<open>Order and pace of the output\<close>

interpretation output_queue: paced_fifo forward controller_output_take output_items next_write encode_frame
    "\<lambda>item. item \<noteq> [] \<and> length item \<le> controller_maximum_item_size" 32 10
  by unfold_locales (auto simp: forward_def controller_output_enqueue_def controller_output_take_def split: if_splits)

interpretation family_inbox: paced_fifo inbox_enqueue inbox_take_ready inbox_frames inbox_next_process "\<lambda>f. f"
    "\<lambda>f. length (fpayload f) \<le> controller_maximum_item_size - 9" 32 10
  by unfold_locales (auto simp: inbox_enqueue_def inbox_take_ready_def Let_def split: if_splits)



section \<open>The alarms of a silent controller\<close>

text \<open>The alarms of a history of polls after the last valid frame.\<close>

fun alarms_of :: "u64 list \<Rightarrow> u64 \<Rightarrow> nat" where
  "alarms_of [] next_alarm = 0"
| "alarms_of (now # polls) next_alarm =
     (let (alarms, next_alarm) = activity_poll now next_alarm in length alarms + alarms_of polls next_alarm)"

lemma alarms_of_schedule:
  assumes "unat due = s + 10000 * ((prev - s) div 10000 + 1)" "s \<le> prev" "prev \<le> unat (hd (polls @ [now]))"
    "sorted (map unat (polls @ [now]))" "unat now < 2 ^ 63"
  shows "(prev - s) div 10000 + alarms_of (polls @ [now]) due = (unat now - s) div 10000"
  using assms
proof (induction polls arbitrary: due prev)
  case Nil
  show ?case
  proof (cases "now < due")
    case True
    then show ?thesis using before_deadline [OF Nil(1,2)] Nil by (simp add: activity_poll_def)
  next
    case False
    then show ?thesis
      using next_deadline(2) [OF Nil(1), of now] Nil
      by (simp add: activity_poll_def Let_def div_le_mono)
  qed
next
  case (Cons t polls)
  have order: "unat t \<le> unat (hd (polls @ [now]))" "sorted (map unat (polls @ [now]))" "unat t < 2 ^ 63" "prev \<le> unat t"
    using Cons.prems by (cases polls; auto)+
  show ?case
  proof (cases "t < due")
    case True
    then have "(unat t - s) div 10000 = (prev - s) div 10000"
      using before_deadline [OF Cons.prems(1,2)] order by simp
    then show ?thesis
      using Cons.IH [of due "unat t"] Cons.prems order True by (simp add: activity_poll_def)
  next
    case False
    then have due: "unat (due + ((t - due) div 10000 + 1) * 10000) = s + 10000 * ((unat t - s) div 10000 + 1)"
      and count: "unat ((t - due) div 10000 + 1) = (unat t - s) div 10000 + 1 - ((prev - s) div 10000 + 1)"
      using next_deadline [OF Cons.prems(1), of t] order by simp_all
    have "(unat t - s) div 10000 + alarms_of (polls @ [now]) (due + ((t - due) div 10000 + 1) * 10000) =
        (unat now - s) div 10000"
      using Cons.IH [OF due] Cons.prems order by simp
    moreover have "(prev - s) div 10000 \<le> (unat t - s) div 10000" using order by (intro div_le_mono) simp
    ultimately show ?thesis using False count by (simp add: activity_poll_def Let_def)
  qed
qed

text \<open>
  However the UART task is delayed between its polls, a controller silent since its last valid frame raises
  exactly one alarm for every full ten seconds of silence.
\<close>

theorem silence_raises_alarms:
  assumes "sorted (map unat (since # polls @ [now]))" "unat now < 2 ^ 63"
  shows "alarms_of (polls @ [now]) (record_valid_frame since) = (unat now - unat since) div 10000"
proof -
  have bound: "unat since \<le> unat (hd (polls @ [now]))" "unat since < 2 ^ 63"
    using assms by (cases polls; simp)+
  then have "unat (record_valid_frame since) = unat since + 10000 * ((unat since - unat since) div 10000 + 1)"
    by (simp add: record_valid_frame_def unat_add_lem [THEN iffD1])
  then show ?thesis using alarms_of_schedule [of "record_valid_frame since" "unat since" "unat since" polls now] assms bound by simp
qed

theorem silence_raises_alarms_witness: "alarms_of ([4000, 9999, 10000] @ [45000]) (record_valid_frame 0) = 4"
  using silence_raises_alarms [of 0 "[4000, 9999, 10000]" 45000] by simp

section \<open>The schedule of the queries\<close>

lemma opportunity:
  assumes "unat due = s + p * ((prev - s) div p + 1)" "s \<le> prev" "prev \<le> unat now" "unat now < 2 ^ 63"
    "0 < p" "p < 2 ^ 63" "consume_due_opportunity now (of_nat p) due = (sent, due')"
  shows "sent \<longleftrightarrow> (prev - s) div p < (unat now - s) div p" and "unat due' = s + p * ((unat now - s) div p + 1)"
proof -
  have step: "sent = (\<not> now < due) \<and> due' = (if now < due then due else due + ((now - due) div of_nat p + 1) * of_nat p)"
    using assms(7) by (auto simp: consume_due_opportunity_def split: if_splits)
  have "s + p * ((prev - s) div p + 1) \<le> unat now" if "\<not> now < due"
    using that assms(1) by (simp add: word_le_nat_alt not_less)
  then have late: "(prev - s) div p < (unat now - s) div p" if "\<not> now < due"
    using that assms(5) by (simp add: less_eq_div_iff_mult_less_eq Suc_le_eq [symmetric] le_diff_conv2 mult.commute)
  show "sent \<longleftrightarrow> (prev - s) div p < (unat now - s) div p"
    using step late before_deadline [OF assms(1-3) _ assms(5)] by auto
  show "unat due' = s + p * ((unat now - s) div p + 1)"
    using step next_deadline(1) [OF assms(1,5,6,4)] before_deadline [OF assms(1-3) _ assms(5)] assms(1)
    by (auto simp: not_less)
qed

lemma first_opportunity:
  assumes "unat now < 2 ^ 63" "start \<le> now" "0 < p" "p < 2 ^ 63"
    "consume_due_opportunity now (of_nat p) start = (sent, due')"
  shows "sent" and "unat due' = unat start + p * ((unat now - unat start) div p + 1)"
  using next_deadline(1) [of start "unat start" p 0 now] assms
  by (auto simp: consume_due_opportunity_def not_less split: if_splits)

definition poll_history :: "(u64 \<times> bool) list \<Rightarrow> query_scheduler \<Rightarrow> query_scheduler" where
  "poll_history polls s = fold (\<lambda>(now, allowed) s. snd (query_poll now allowed s)) polls s"

lemma query_poll_parts:
  assumes "consume_due_opportunity now 300 (next_status s) = (a, d)"
    "consume_due_opportunity now 500 (next_diagnostic s) = (b, e)"
  shows "query_poll now allowed s =
    (if allowed then (if a then [\<lparr>ftype = 0xA1, fpayload = octets ''?''\<rparr>] else []) @
       (if b then [controller_diagnostic_command] else []) else [],
     \<lparr>next_status = d, next_diagnostic = e\<rparr>)"
  using assms by (simp add: query_poll_def)

lemma poll_history_deadlines:
  assumes "sorted (map unat (start # map fst polls))" "\<forall>(t, a) \<in> set polls. unat t < 2 ^ 63" "polls \<noteq> []"
  shows "unat (next_status (poll_history polls (new_query_scheduler start))) =
      unat start + 300 * ((unat (fst (List.last polls)) - unat start) div 300 + 1) \<and>
    unat (next_diagnostic (poll_history polls (new_query_scheduler start))) =
      unat start + 500 * ((unat (fst (List.last polls)) - unat start) div 500 + 1)"
  using assms
proof (induction polls rule: rev_induct)
  case Nil
  then show ?case by simp
next
  case (snoc poll polls)
  obtain now allowed where poll: "poll = (now, allowed)" by force
  define s where "s = poll_history polls (new_query_scheduler start)"
  obtain a d where status: "consume_due_opportunity now 300 (next_status s) = (a, d)" by fastforce
  obtain b e where diagnostic: "consume_due_opportunity now 500 (next_diagnostic s) = (b, e)" by fastforce
  have now: "unat now < 2 ^ 63" "start \<le> now"
    using snoc.prems by (auto simp: poll sorted_append word_le_nat_alt)
  have state: "poll_history (polls @ [poll]) (new_query_scheduler start) = \<lparr>next_status = d, next_diagnostic = e\<rparr>"
    by (simp add: poll_history_def poll s_def [unfolded poll_history_def, symmetric] query_poll_parts [OF status diagnostic])
  show ?case
  proof (cases "polls = []")
    case True
    then have "s = \<lparr>next_status = start, next_diagnostic = start\<rparr>"
      by (simp add: s_def poll_history_def new_query_scheduler_def)
    then show ?thesis
      using first_opportunity(2) [OF now, of 300 a d] first_opportunity(2) [OF now, of 500 b e] status diagnostic
      by (simp add: state [unfolded poll] poll)
  next
    case False
    let ?prev = "unat (fst (List.last polls))"
    have order: "unat start \<le> ?prev" "?prev \<le> unat now" "sorted (map unat (start # map fst polls))"
      "\<forall>(t, a) \<in> set polls. unat t < 2 ^ 63"
      using snoc.prems False by (auto simp: poll sorted_append)
    have ih: "unat (next_status s) = unat start + 300 * ((?prev - unat start) div 300 + 1)"
      "unat (next_diagnostic s) = unat start + 500 * ((?prev - unat start) div 500 + 1)"
      using snoc.IH [OF order(3,4) False] by (simp_all add: s_def)
    show ?thesis
      using opportunity(2) [OF ih(1) order(1,2) now(1), of a d] opportunity(2) [OF ih(2) order(1,2) now(1), of b e]
        status diagnostic by (simp add: state [unfolded poll] poll)
  qed
qed

text \<open>
  A query goes out exactly when a multiple of its period since the start lies between the previous poll and
  this one: late polls neither shift the schedule nor cause a burst, and what was suppressed is not made up for.
\<close>

theorem queries_on_schedule:
  assumes "sorted (map unat (start # map fst polls @ [now]))" "unat now < 2 ^ 63" "polls \<noteq> []"
  shows "fst (query_poll now True (poll_history polls (new_query_scheduler start))) =
    (let prev = unat (fst (List.last polls)) - unat start; elapsed = unat now - unat start
     in (if prev div 300 < elapsed div 300 then [\<lparr>ftype = 0xA1, fpayload = octets ''?''\<rparr>] else []) @
        (if prev div 500 < elapsed div 500 then [controller_diagnostic_command] else []))"
proof -
  define s where "s = poll_history polls (new_query_scheduler start)"
  obtain a d where status: "consume_due_opportunity now 300 (next_status s) = (a, d)" by fastforce
  obtain b e where diagnostic: "consume_due_opportunity now 500 (next_diagnostic s) = (b, e)" by fastforce
  have sorted: "sorted (map unat (start # map fst polls))" using assms(1) by (auto simp: sorted_append)
  have small: "\<forall>(t, a) \<in> set polls. unat t < 2 ^ 63" using assms(1,2) by (force simp: sorted_append)
  have order: "unat start \<le> unat (fst (List.last polls))" "unat (fst (List.last polls)) \<le> unat now"
    using assms(1,3) by (auto simp: sorted_append)
  note due = poll_history_deadlines [OF sorted small assms(3), folded s_def]
  have "a \<longleftrightarrow> (unat (fst (List.last polls)) - unat start) div 300 < (unat now - unat start) div 300"
    using opportunity(1) [OF conjunct1 [OF due] order assms(2), of a d] status by simp
  moreover have "b \<longleftrightarrow> (unat (fst (List.last polls)) - unat start) div 500 < (unat now - unat start) div 500"
    using opportunity(1) [OF conjunct2 [OF due] order assms(2), of b e] diagnostic by simp
  ultimately show ?thesis
    by (simp add: s_def [symmetric] query_poll_parts [OF status diagnostic])
qed

theorem queries_on_schedule_witness:
  "fst (query_poll 990 True (poll_history [(7, True), (900, False)] (new_query_scheduler 7))) =
     [\<lparr>ftype = 0xA1, fpayload = octets ''?''\<rparr>]"
  by (subst queries_on_schedule) auto

section \<open>The status reply is current\<close>

datatype snapshot_event = Status_received bytes | Status_asked status_extension | Diagnostic_received bytes | Version_received bytes

definition snapshot_event :: "snapshot_event \<Rightarrow> snapshots \<Rightarrow> snapshots" where
  "snapshot_event event s =
     (case event of
        Status_received payload \<Rightarrow> retain_status payload s
      | Status_asked e \<Rightarrow> snd (status_reply e s)
      | Diagnostic_received payload \<Rightarrow> update_diagnostic payload s
      | Version_received payload \<Rightarrow> update_version payload s)"

definition last_status :: "snapshot_event list \<Rightarrow> string" where
  "last_status events =
     fold (\<lambda>event current. case event of
         Status_received payload \<Rightarrow> if payload = [] then current else chars (take 519 payload)
       | _ \<Rightarrow> current) events initial_status"

definition snapshot_inv :: "snapshots \<Rightarrow> bool" where
  "snapshot_inv s \<longleftrightarrow>
     length (pending_statuses s) \<le> 3 \<and> (pending_statuses s \<noteq> [] \<longrightarrow> List.last (pending_statuses s) = latest_status s) \<and>
     length (latest_status s) \<le> 519 \<and> length (snapshot_diagnostic s) = 528 \<and> length (snapshot_version s) = 528"

lemma length_replace_text_prefix [simp]: "length (replace_text_prefix retained payload) = length retained"
  by (simp add: replace_text_prefix_def Let_def)

lemma snapshot_inv_new: "snapshot_inv new_snapshots"
  by (simp add: snapshot_inv_def new_snapshots_def initial_status_def)

lemma snapshot_inv_event: "snapshot_inv s \<Longrightarrow> snapshot_inv (snapshot_event event s)"
  by (auto simp: snapshot_inv_def snapshot_event_def retain_status_def status_reply_def update_diagnostic_def
      update_version_def bounded_status_copy_def Let_def split: snapshot_event.split)

lemma snapshot_inv_events: "snapshot_inv s \<Longrightarrow> snapshot_inv (fold snapshot_event events s)"
  by (induction events arbitrary: s) (auto simp: snapshot_inv_event)

lemma latest_status_events:
  "chars (latest_status (fold snapshot_event events new_snapshots)) = last_status events"
proof (induction events rule: rev_induct)
  case Nil
  show ?case by (simp add: last_status_def new_snapshots_def comp_def)
next
  case (snoc event events)
  then show ?case
    by (cases event)
      (auto simp: last_status_def snapshot_event_def retain_status_def status_reply_def update_diagnostic_def
        update_version_def bounded_status_copy_def Let_def take_map)
qed

lemma extend_status_length: "extend_status status e = Some extended \<Longrightarrow> length extended \<le> 528"
  by (auto simp: extend_status_def Let_def split: if_splits option.splits)

text \<open>
  Whatever was received and asked before, a status reply extends the latest non-empty status of the
  controller (or the built-in one when that is unusable), never an older one, and fits a controller frame.
\<close>

theorem status_reply_is_current:
  "let s = fold snapshot_event events new_snapshots; current = last_status events
   in fst (status_reply e s) =
        map_option (\<lambda>extended. \<lparr>ftype = 0x81, fpayload = octets extended\<rparr>)
          (extend_status (if usable_status current then current else fallback_status) e) \<and>
      (case fst (status_reply e s) of None \<Rightarrow> True | Some reply \<Rightarrow> length (fpayload reply) \<le> 528)"
proof -
  define s where "s = fold snapshot_event events new_snapshots"
  have "snapshot_inv s" using snapshot_inv_events [OF snapshot_inv_new] by (simp add: s_def)
  moreover have "chars (latest_status s) = last_status events" by (simp add: s_def latest_status_events)
  ultimately have "fst (status_reply e s) =
        map_option (\<lambda>extended. \<lparr>ftype = 0x81, fpayload = octets extended\<rparr>)
          (extend_status (if usable_status (last_status events) then last_status events else fallback_status) e)"
    by (auto simp: status_reply_def snapshot_inv_def Let_def)
  then show ?thesis
    by (simp add: s_def [symmetric] Let_def extend_status_length split: option.split)
qed

end
