(* ===== verification/Runtime_Services.thy ===== *)
theory Runtime_Services
  imports Configuration_Text Number_Text Frame Recording
begin

text \<open>
  The small services around the persistent store and the clock: the serial number
  (\<open>application/src/runtime/serial_number.cpp\<close>), the runtime commands (\<open>runtime_commands.cpp\<close>), the wall clock
  (\<open>wall_clock.cpp\<close> with \<open>main/runtime/wall_clock_command_dispatcher.cpp\<close>), the runtime counters
  (\<open>runtime_counters.cpp\<close>) with their task (\<open>main/runtime/runtime_counter_task.cpp\<close>), the recovery of the store
  (\<open>persistent_store_initialization.cpp\<close>), the heartbeat and the typed access to the store
  (\<open>main/runtime/nvs_key_value_adapter.cpp\<close>). The store itself and the clocks answer from outside.
\<close>

section \<open>The store\<close>

text \<open>Results of the store library: it knows more failures, which the code does not distinguish.\<close>

datatype nvs_status = Nvs_ok | Nvs_not_found | Nvs_failed

datatype 'a nvs_read = Nvs_found 'a | Nvs_missing | Nvs_failure bool

text \<open>
  A string is read in two steps, its size and then its octets; \<open>std::string(buffer.data())\<close> stops at a zero.
\<close>

definition nvs_read_string :: "nvs_status \<Rightarrow> nvs_status \<times> nat \<Rightarrow> nvs_status \<times> string \<Rightarrow> string nvs_read" where
  "nvs_read_string opened sized got =
     (if opened = Nvs_not_found then Nvs_missing
      else if opened \<noteq> Nvs_ok then Nvs_failure False
      else if fst sized = Nvs_not_found then Nvs_missing
      else if fst sized \<noteq> Nvs_ok \<or> snd sized = 0 then Nvs_failure False
      else if fst got \<noteq> Nvs_ok then Nvs_failure False
      else Nvs_found (takeWhile (\<lambda>c. c \<noteq> CHR 0x00) (snd got)))"

text \<open>The failure to open is reported apart from the failure to read.\<close>

definition nvs_read_u64_state :: "nvs_status \<Rightarrow> nvs_status \<times> u64 \<Rightarrow> u64 nvs_read" where
  "nvs_read_u64_state opened got =
     (if opened = Nvs_not_found then Nvs_missing
      else if opened \<noteq> Nvs_ok then Nvs_failure True
      else case fst got of Nvs_ok \<Rightarrow> Nvs_found (snd got) | Nvs_not_found \<Rightarrow> Nvs_missing | Nvs_failed \<Rightarrow> Nvs_failure False)"

definition nvs_read_u64 :: "nvs_status \<Rightarrow> nvs_status \<times> u64 \<Rightarrow> u64 option" where
  "nvs_read_u64 opened got = (case nvs_read_u64_state opened got of Nvs_found v \<Rightarrow> Some v | _ \<Rightarrow> None)"

datatype nvs_stage = Stage_none | Stage_open | Stage_mutation | Stage_commit

definition nvs_write_detailed :: "nvs_status \<Rightarrow> nvs_status \<Rightarrow> nvs_status \<Rightarrow> nvs_stage" where
  "nvs_write_detailed opened written committed =
     (if opened \<noteq> Nvs_ok then Stage_open
      else if written \<noteq> Nvs_ok then Stage_mutation
      else if committed \<noteq> Nvs_ok then Stage_commit else Stage_none)"

definition nvs_write_string :: "nvs_status \<Rightarrow> nvs_status \<Rightarrow> nvs_status \<Rightarrow> bool" where
  "nvs_write_string opened written committed \<longleftrightarrow> nvs_write_detailed opened written committed = Stage_none"

definition nvs_erase_key :: "nvs_status \<Rightarrow> nvs_status \<Rightarrow> nvs_status \<Rightarrow> unit nvs_read" where
  "nvs_erase_key opened erased committed =
     (if opened \<noteq> Nvs_ok then Nvs_failure False
      else if erased = Nvs_not_found then Nvs_missing
      else if erased \<noteq> Nvs_ok \<or> committed \<noteq> Nvs_ok then Nvs_failure False
      else Nvs_found ())"

text \<open>The recovery of the store at start, with the calls it makes.\<close>

datatype store_result = Store_success | Store_exhausted_pages | Store_incompatible_version | Store_failure

datatype store_call = Store_initialize | Store_erase | Report_exhausted_recovery | Report_general_recovery

definition initialize_persistent_store ::
    "(store_call list \<Rightarrow> store_result) \<Rightarrow> (store_call list \<Rightarrow> bool) \<Rightarrow> store_call list \<times> bool" where
  "initialize_persistent_store init erase =
     (let result = init []; calls = [Store_initialize];
          general = (\<lambda>calls.
            (calls @ [Report_general_recovery, Store_erase, Store_initialize],
             init (calls @ [Report_general_recovery, Store_erase]) = Store_success))
      in if result = Store_success then (calls, True)
         else if result = Store_exhausted_pages \<or> result = Store_incompatible_version
         then
           let calls = calls @ [Report_exhausted_recovery] in
           if \<not> erase calls then (calls @ [Store_erase], False)
           else
             let calls = calls @ [Store_erase]
             in if init calls = Store_success then (calls @ [Store_initialize], True)
                else general (calls @ [Store_initialize])
         else general calls)"

section \<open>The serial number\<close>

datatype serial_call = Sn_admit | Sn_read | Sn_write string | Sn_respond string | Sn_complete

datatype serial_read = Sn_found string | Sn_missing | Sn_failure

record serial_env =
  sn_admitted :: "serial_call list \<Rightarrow> bool"
  sn_stored :: "serial_call list \<Rightarrow> serial_read"
  sn_written :: "serial_call list \<Rightarrow> string \<Rightarrow> bool"

definition newline :: string where
  "newline = [CHR 0x0A]"

definition handle_serial_get :: "serial_env \<Rightarrow> string \<Rightarrow> serial_call list \<Rightarrow> serial_call list" where
  "handle_serial_get env command h =
     (if \<not> starts_with ''sn-get'' command \<or> \<not> list_all is_ascii_whitespace (drop 6 command)
      then h @ [Sn_respond (''The command format is invalid'' @ newline)]
      else if \<not> sn_admitted env h then h @ [Sn_admit, Sn_respond (''SN_GET_ERR: busy'' @ newline)]
      else
        let h = h @ [Sn_admit];
            answer = (case sn_stored env h of
                Sn_missing \<Rightarrow> ''sn = null'' @ newline
              | Sn_failure \<Rightarrow> ''sn get failed'' @ newline
              | Sn_found v \<Rightarrow> if v = [] then ''sn = null'' @ newline else ''sn = '' @ v @ newline)
        in h @ [Sn_read, Sn_respond answer, Sn_complete])"

definition printable_ascii :: "string \<Rightarrow> bool" where
  "printable_ascii v \<longleftrightarrow> list_all (\<lambda>c. (0x20 :: nat) \<le> of_char c \<and> of_char c \<le> (0x7E :: nat)) v"

definition handle_serial_set :: "serial_env \<Rightarrow> string \<Rightarrow> serial_call list \<Rightarrow> serial_call list" where
  "handle_serial_set env command h =
     (if length command \<le> 6 \<or> take 6 command \<noteq> ''sn-set'' \<or> \<not> is_ascii_whitespace (command ! 6)
      then h @ [Sn_respond (''The command format is invalid'' @ newline)]
      else
        let v = trim_ascii (drop 6 command) in
        if length v < 1 \<or> length v > 32 then h @ [Sn_respond (''Invalid len'' @ newline)]
        else if \<not> printable_ascii v
        then h @ [Sn_respond (''There are some illegal characters in the sn'' @ newline)]
        else if \<not> sn_admitted env h then h @ [Sn_admit, Sn_respond (''SN_SET_ERR: busy'' @ newline)]
        else
          let h = h @ [Sn_admit]; existing = sn_stored env h; h = h @ [Sn_read] in
          if (case existing of Sn_found old \<Rightarrow> old \<noteq> [] | _ \<Rightarrow> False)
          then h @ [Sn_respond (''The value of sn cannot be changed'' @ newline), Sn_complete]
          else if \<not> sn_written env h v
          then h @ [Sn_write v, Sn_respond (''sn set failed'' @ newline), Sn_complete]
          else h @ [Sn_write v, Sn_respond (''Success:sn = '' @ v @ newline), Sn_complete])"

section \<open>The runtime commands\<close>

datatype runtime_call =
  Rt_admit | Rt_open | Rt_read_first_boot | Rt_read_counter string | Rt_erase_first_boot | Rt_respond string | Rt_complete

record runtime_env =
  rt_admitted :: "runtime_call list \<Rightarrow> bool"
  rt_opened :: "runtime_call list \<Rightarrow> bool"
  rt_first_boot :: "runtime_call list \<Rightarrow> int option"
  rt_counter :: "runtime_call list \<Rightarrow> string \<Rightarrow> u64 option"
  rt_erased :: "runtime_call list \<Rightarrow> unit nvs_read"

text \<open>
  \<open>gmtime_r\<close> refuses a year outside \<open>int\<close>, counted from 1900; \<open>strftime\<close> then prints into 32 characters.
\<close>

definition utc_date_text :: "utc_time \<Rightarrow> string" where
  "utc_date_text t = filled_number 1 (utc_year t) @ ''-'' @ filled_number 2 (utc_month t) @ ''-'' @ filled_number 2 (utc_day t)"

definition utc_representable :: "int \<Rightarrow> bool" where
  "utc_representable seconds \<longleftrightarrow>
     int32_min \<le> utc_year (gmtime seconds) - 1900 \<and> utc_year (gmtime seconds) - 1900 \<le> int32_max"

definition format_utc_minute :: "int \<Rightarrow> string option" where
  "format_utc_minute seconds =
     (if \<not> utc_representable seconds then None
      else
        let t = gmtime seconds;
            out = utc_date_text t @ '' '' @ filled_number 2 (utc_hour t) @ '':'' @ filled_number 2 (utc_minute t) @ '' UTC''
        in if length out < 32 then Some out else None)"

definition valid_shape :: "string \<Rightarrow> string \<Rightarrow> bool" where
  "valid_shape command exact_prefix \<longleftrightarrow>
     starts_with exact_prefix command \<and> list_all is_ascii_whitespace (drop (length exact_prefix) command)"

definition handle_system_time :: "runtime_env \<Rightarrow> string \<Rightarrow> runtime_call list \<Rightarrow> runtime_call list" where
  "handle_system_time env command h =
     (if \<not> valid_shape command ''sys-time''
      then h @ [Rt_respond (''The command format is invalid'' @ newline)]
      else if \<not> rt_admitted env h then h @ [Rt_admit, Rt_respond (''sys-time: busy'' @ newline)]
      else
        let h = h @ [Rt_admit] in
        if \<not> rt_opened env h
        then h @ [Rt_open, Rt_respond (''sys-time-data get failed'' @ newline),
                  Rt_respond (''sys-time-data = null,0,0'' @ newline), Rt_complete]
        else
          let h = h @ [Rt_open];
              timestamp = (case rt_first_boot env h of
                  None \<Rightarrow> ''null''
                | Some seconds \<Rightarrow> (case format_utc_minute seconds of Some s \<Rightarrow> s | None \<Rightarrow> ''invalid''));
              h = h @ [Rt_read_first_boot];
              power_on = case_option 0 (\<lambda>v. v) (rt_counter env h ''pon_s'');
              h = h @ [Rt_read_counter ''pon_s''];
              machine = case_option 0 (\<lambda>v. v) (rt_counter env h ''mach_s'');
              h = h @ [Rt_read_counter ''mach_s'']
          in h @ [Rt_respond (''sys-time-data = '' @ timestamp @ '','' @ decimal (unat power_on) @ '','' @
                    decimal (unat machine) @ newline), Rt_complete])"

definition handle_clear_first_boot :: "runtime_env \<Rightarrow> string \<Rightarrow> runtime_call list \<Rightarrow> runtime_call list" where
  "handle_clear_first_boot env command h =
     (if \<not> valid_shape command ''clearftm''
      then h @ [Rt_respond (''The command format is invalid'' @ newline)]
      else if \<not> rt_admitted env h then h @ [Rt_admit, Rt_respond (''clearftm: busy'' @ newline)]
      else
        let h = h @ [Rt_admit] in
        h @ [Rt_erase_first_boot,
             Rt_respond ((case rt_erased env h of Nvs_failure _ \<Rightarrow> ''clearftm failed'' | _ \<Rightarrow> ''clearftm ok'') @ newline),
             Rt_complete])"

section \<open>The wall clock\<close>

datatype clock_call = Ck_set int | Ck_record_first_boot | Ck_log_info string | Ck_log_error string | Ck_respond string

definition format_utc :: "int \<Rightarrow> string option" where
  "format_utc seconds =
     (if \<not> utc_representable seconds then None
      else
        let t = gmtime seconds;
            out = utc_date_text t @ '' '' @ filled_number 2 (utc_hour t) @ '':'' @ filled_number 2 (utc_minute t) @ '':'' @
              filled_number 2 (utc_second t) @ '' UTC''
        in if length out < 32 then Some out else None)"

definition int64_text :: "int \<Rightarrow> string" where
  "int64_text n = (if n < 0 then CHR ''-'' # decimal (nat (- n)) else decimal (nat n))"

text \<open>\<open>std::from_chars\<close> accepts a minus sign of its own; a number out of range is an error.\<close>

definition parse_positive_seconds :: "string \<Rightarrow> int option" where
  "parse_positive_seconds text =
     (let text = (if text \<noteq> [] \<and> hd text = CHR ''+'' then tl text else text);
          negative = (text \<noteq> [] \<and> hd text = CHR ''-'');
          digits = (if negative then tl text else text)
      in if digits = [] \<or> \<not> list_all is_digit digits then None
         else
           let seconds = (if negative then - int (decimal_value digits) else int (decimal_value digits))
           in if seconds \<ge> 2 ^ 63 \<or> seconds \<le> 0 then None else Some seconds)"

definition set_time :: "bool \<Rightarrow> int \<Rightarrow> clock_call list" where
  "set_time clock_set seconds =
     (if \<not> clock_set then [Ck_set seconds, Ck_log_error (''Failed to set time: '' @ int64_text seconds)]
      else
        [Ck_set seconds, Ck_record_first_boot,
         Ck_log_info (''Time set successfully: '' @ int64_text seconds @ '' ('' @
           (case format_utc seconds of Some t \<Rightarrow> t | None \<Rightarrow> int64_text seconds) @ '')'')])"

definition handle_time :: "bool \<Rightarrow> int \<Rightarrow> string \<Rightarrow> clock_call list" where
  "handle_time clock_set unix_seconds command =
     (if command = ''time'' then [Ck_respond (''time = '' @ int64_text unix_seconds @ [CHR 0x0D, CHR 0x0A])]
      else if length command < 4 \<or> take 4 command \<noteq> ''time'' then []
      else case parse_positive_seconds (trim_ascii (drop 4 command)) of
          None \<Rightarrow> []
        | Some seconds \<Rightarrow> set_time clock_set seconds)"

definition dispatch_time :: "bool \<Rightarrow> int \<Rightarrow> frame \<Rightarrow> clock_call list" where
  "dispatch_time clock_set unix_seconds f =
     (let command = chars (fpayload f)
      in if ftype f \<noteq> 0xA2 then []
         else if command = ''time'' \<or> take 4 command = ''time'' then handle_time clock_set unix_seconds command else [])"

section \<open>The counters\<close>

record counters =
  power_on_seconds :: u64
  machine_seconds :: u64
  power_on_baseline :: u64
  play_started :: u64
  play_running :: bool

datatype counter_call =
  Write_counter string u64 | Read_first_boot | Write_first_boot int | Counter_diagnose string

definition whole_elapsed_seconds :: "u64 \<Rightarrow> u64 \<Rightarrow> u64" where
  "whole_elapsed_seconds start finish = (if finish < start then 0 else (finish - start) div 1000)"

definition initialize_counters :: "(string \<Rightarrow> u64 option) \<Rightarrow> u64 \<Rightarrow> counters" where
  "initialize_counters stored now =
     \<lparr>power_on_seconds = case_option 0 (\<lambda>v. v) (stored ''pon_s''),
      machine_seconds = case_option 0 (\<lambda>v. v) (stored ''mach_s''),
      power_on_baseline = now, play_started = 0, play_running = False\<rparr>"

text \<open>The name of the store's error comes with the answer.\<close>

definition record_first_boot :: "u64 nvs_read \<Rightarrow> nvs_stage \<Rightarrow> string \<Rightarrow> int \<Rightarrow> counter_call list" where
  "record_first_boot stored written error_name unix_seconds =
     (case stored of
        Nvs_failure open_failed \<Rightarrow>
          Read_first_boot #
            (if open_failed then [Counter_diagnose (''try_first_boot: nvs_open failed: '' @ error_name)] else [])
      | Nvs_found _ \<Rightarrow> [Read_first_boot]
      | Nvs_missing \<Rightarrow>
          [Read_first_boot, Write_first_boot unix_seconds] @
          (case written of
             Stage_open \<Rightarrow> [Counter_diagnose (''try_first_boot: nvs_open failed: '' @ error_name)]
           | Stage_mutation \<Rightarrow> [Counter_diagnose (''try_first_boot: nvs_set_i64 failed: '' @ error_name)]
           | _ \<Rightarrow> []))"

definition save_power_on :: "nvs_stage \<Rightarrow> u64 \<Rightarrow> counters \<Rightarrow> counter_call list \<times> counters" where
  "save_power_on written now c =
     (let seconds = power_on_seconds c + whole_elapsed_seconds (power_on_baseline c) now
      in (Write_counter ''pon_s'' seconds #
            (if written = Stage_open then [Counter_diagnose ''stats_commit_pon: nvs_open failed''] else []),
          c\<lparr>power_on_seconds := seconds, power_on_baseline := now\<rparr>))"

definition play_running_changed ::
    "nvs_stage \<Rightarrow> nvs_stage \<Rightarrow> bool \<Rightarrow> u64 \<Rightarrow> counters \<Rightarrow> counter_call list \<times> counters" where
  "play_running_changed power_written machine_written running now c =
     (let (calls, c) = save_power_on power_written now c in
      if running \<and> \<not> play_running c then (calls, c\<lparr>play_running := True, play_started := now\<rparr>)
      else if \<not> running \<and> play_running c
      then
        let seconds = machine_seconds c + whole_elapsed_seconds (play_started c) now
        in (calls @ [Write_counter ''mach_s'' seconds] @
              (case machine_written of
                 Stage_open \<Rightarrow> [Counter_diagnose ''play_state: mach nvs_open failed'']
               | Stage_mutation \<Rightarrow> [Counter_diagnose ''play_state: nvs_set_u64 mach failed'']
               | _ \<Rightarrow> []),
            c\<lparr>machine_seconds := seconds, play_running := False\<rparr>)
      else (calls, c))"

text \<open>
  The task of the counters: events come through a queue of 32, and the elapsed time is saved once the deadline
  has passed, before the next event is served.
\<close>

datatype runtime_event = First_boot_event int | Play_state_event bool u64 | Persist_event u64

record counter_task =
  task_counters :: counters
  task_next_persistence :: u64
  task_events :: "runtime_event list"

definition enqueue_runtime_event :: "runtime_event \<Rightarrow> counter_task \<Rightarrow> counter_task \<times> bool" where
  "enqueue_runtime_event event t =
     (if length (task_events t) < 32 then (t\<lparr>task_events := task_events t @ [event]\<rparr>, True) else (t, False))"

record counter_answers =
  ans_power :: nvs_stage
  ans_machine :: nvs_stage
  ans_first_boot :: "u64 nvs_read"
  ans_first_written :: nvs_stage
  ans_error_name :: string

text \<open>The task loads the counters and offers the present time of the wall clock as the first boot.\<close>

definition start_counter_task ::
    "counter_answers \<Rightarrow> (string \<Rightarrow> u64 option) \<Rightarrow> int \<Rightarrow> u64 \<Rightarrow> counter_call list \<times> counter_task" where
  "start_counter_task a stored clock_seconds start =
     (record_first_boot (ans_first_boot a) (ans_first_written a) (ans_error_name a) clock_seconds,
      \<lparr>task_counters = initialize_counters stored start, task_next_persistence = start, task_events = []\<rparr>)"

definition save_due :: "counter_answers \<Rightarrow> u64 \<Rightarrow> counter_task \<Rightarrow> counter_call list \<times> counter_task" where
  "save_due a now t =
     (if now \<ge> task_next_persistence t
      then
        let (calls, c) = save_power_on (ans_power a) now (task_counters t)
        in (calls, t\<lparr>task_counters := c, task_next_persistence := now + 1000\<rparr>)
      else ([], t))"

definition serve_event :: "counter_answers \<Rightarrow> counter_task \<Rightarrow> counter_call list \<times> counter_task" where
  "serve_event a t =
     (case task_events t of
        [] \<Rightarrow> ([], t)
      | event # events \<Rightarrow>
          let t = t\<lparr>task_events := events\<rparr> in
          case event of
            First_boot_event seconds \<Rightarrow>
              (record_first_boot (ans_first_boot a) (ans_first_written a) (ans_error_name a) seconds, t)
          | Play_state_event running stamp \<Rightarrow>
              (let (calls, c) = play_running_changed (ans_power a) (ans_machine a) running stamp (task_counters t)
               in (calls, t\<lparr>task_counters := c\<rparr>))
          | Persist_event stamp \<Rightarrow>
              (let (calls, c) = save_power_on (ans_power a) stamp (task_counters t) in (calls, t\<lparr>task_counters := c\<rparr>)))"

definition counter_task_turn :: "counter_answers \<Rightarrow> u64 \<Rightarrow> counter_task \<Rightarrow> counter_call list \<times> counter_task" where
  "counter_task_turn a now t =
     (let (saved, t) = save_due a now t; (served, t) = serve_event a t in (saved @ served, t))"

section \<open>The heartbeat\<close>

definition heartbeat_start :: "bool \<Rightarrow> (bool \<times> bool) \<Rightarrow> bool list \<times> (bool \<times> bool)" where
  "heartbeat_start configured state = (if \<not> configured then ([], state) else ([True], (True, True)))"

definition heartbeat_toggle :: "bool \<times> bool \<Rightarrow> bool list \<times> (bool \<times> bool)" where
  "heartbeat_toggle state =
     (let (high, started) = state in if \<not> started then ([], state) else ([\<not> high], (\<not> high, started)))"

section \<open>The serial number is written once\<close>

fun written_serials :: "serial_env \<Rightarrow> serial_call list \<Rightarrow> serial_call list \<Rightarrow> string list" where
  "written_serials env h [] = []"
| "written_serials env h (c # cs) =
     (case c of Sn_write v \<Rightarrow> if sn_written env h v then [v] else [] | _ \<Rightarrow> []) @ written_serials env (h @ [c]) cs"

lemma written_serials_append [simp]:
  "written_serials env h (cs @ ds) = written_serials env h cs @ written_serials env (h @ cs) ds"
  by (induction cs arbitrary: h) simp_all

text \<open>A store that keeps what was written and starts with the given value, empty for none.\<close>

definition serial_kept :: "serial_env \<Rightarrow> string \<Rightarrow> bool" where
  "serial_kept env initial \<longleftrightarrow>
     (\<forall>h. sn_stored env h =
        (case rev (written_serials env [] h) of
           v # _ \<Rightarrow> Sn_found v
         | [] \<Rightarrow> if initial = [] then Sn_missing else Sn_found initial))"

datatype serial_command = Serial_get string | Serial_set string

definition serial_run :: "serial_env \<Rightarrow> serial_command list \<Rightarrow> serial_call list" where
  "serial_run env commands =
     fold (\<lambda>c h. case c of Serial_get s \<Rightarrow> handle_serial_get env s h | Serial_set s \<Rightarrow> handle_serial_set env s h) commands []"

lemma get_writes_nothing: "written_serials env [] (handle_serial_get env s h) = written_serials env [] h"
  by (simp add: handle_serial_get_def Let_def)

lemma set_writes_when_free:
  assumes "serial_kept env initial"
  shows "written_serials env [] (handle_serial_set env s h) = written_serials env [] h \<or>
    (written_serials env [] h = [] \<and> initial = [] \<or> last (written_serials env [] h) = [] \<and> written_serials env [] h \<noteq> []) \<and>
    (\<exists>v. written_serials env [] (handle_serial_set env s h) = written_serials env [] h @ [v] \<and>
       1 \<le> length v \<and> length v \<le> 32 \<and> printable_ascii v)"
proof -
  have stored: "sn_stored env h' =
        (case rev (written_serials env [] h') of
           v # _ \<Rightarrow> Sn_found v
         | [] \<Rightarrow> if initial = [] then Sn_missing else Sn_found initial)" for h'
    using assms by (simp add: serial_kept_def)
  show ?thesis
    by (cases "written_serials env [] h" rule: rev_cases)
      (auto simp: handle_serial_set_def Let_def stored Suc_le_eq split: if_splits)
qed

definition serials_sound :: "string \<Rightarrow> string list \<Rightarrow> bool" where
  "serials_sound initial ws \<longleftrightarrow>
     ws = [] \<or> initial = [] \<and> (\<exists>v. ws = [v] \<and> 1 \<le> length v \<and> length v \<le> 32 \<and> printable_ascii v)"

lemma serial_run_sound:
  assumes "serial_kept env initial"
  shows "serials_sound initial (written_serials env [] (serial_run env commands))"
proof (induction commands rule: rev_induct)
  case Nil
  show ?case by (simp add: serial_run_def serials_sound_def)
next
  case (snoc c commands)
  define h where "h = serial_run env commands"
  have sound: "serials_sound initial (written_serials env [] h)" using snoc by (simp add: h_def)
  show ?case
  proof (cases c)
    case (Serial_get s)
    then show ?thesis
      using sound by (simp add: serial_run_def h_def [unfolded serial_run_def, symmetric] get_writes_nothing)
  next
    case (Serial_set s)
    have "serials_sound initial (written_serials env [] (handle_serial_set env s h))"
      using set_writes_when_free [OF assms, of s h] sound by (auto simp: serials_sound_def)
    then show ?thesis
      using Serial_set by (simp add: serial_run_def h_def [unfolded serial_run_def, symmetric])
  qed
qed

text \<open>
  C37. Over a store that keeps what it is given, the serial number is written at most once, never over an existing
  one, and what is written is 1 to 32 printable characters.
\<close>

theorem serial_number_written_once:
  assumes "serial_kept env initial"
  shows "length (written_serials env [] (serial_run env commands)) \<le> (if initial = [] then 1 else 0) \<and>
    (\<forall>v \<in> set (written_serials env [] (serial_run env commands)). 1 \<le> length v \<and> length v \<le> 32 \<and> printable_ascii v)"
  using serial_run_sound [OF assms, of commands] by (auto simp: serials_sound_def)

definition example_serial_env :: serial_env where
  "example_serial_env =
     \<lparr>sn_admitted = \<lambda>_. True,
      sn_stored = \<lambda>h. case rev (filter (\<lambda>c. case c of Sn_write _ \<Rightarrow> True | _ \<Rightarrow> False) h) of
          Sn_write v # _ \<Rightarrow> Sn_found v | _ \<Rightarrow> Sn_missing,
      sn_written = \<lambda>_ _. True\<rparr>"

lemma example_written:
  "written_serials example_serial_env h cs =
     concat (map (\<lambda>c. case c of Sn_write v \<Rightarrow> [v] | _ \<Rightarrow> []) cs)"
  by (induction cs arbitrary: h) (auto simp: example_serial_env_def split: serial_call.split)

lemma example_serial_kept: "serial_kept example_serial_env []"
proof -
  have "(case rev (filter (\<lambda>c. case c of Sn_write _ \<Rightarrow> True | _ \<Rightarrow> False) h) of
          Sn_write v # _ \<Rightarrow> Sn_found v | _ \<Rightarrow> Sn_missing) =
      (case rev (concat (map (\<lambda>c. case c of Sn_write v \<Rightarrow> [v] | _ \<Rightarrow> []) h)) of v # _ \<Rightarrow> Sn_found v | [] \<Rightarrow> Sn_missing)" for h
    by (induction h rule: rev_induct) (auto split: serial_call.split)
  then show ?thesis by (simp add: serial_kept_def example_written) (simp add: example_serial_env_def)
qed

theorem serial_number_written_once_witness:
  "length (written_serials example_serial_env []
     (serial_run example_serial_env [Serial_set ''sn-set Z1-0042'', Serial_set ''sn-set Z1-0043''])) \<le> 1"
  using serial_number_written_once [OF example_serial_kept,
      of "[Serial_set ''sn-set Z1-0042'', Serial_set ''sn-set Z1-0043'']"] by simp

section \<open>How far the counters are from the time\<close>

datatype counter_input = Saved u64 | Play_changed bool u64

primrec event_stamp :: "counter_input \<Rightarrow> u64" where
  "event_stamp (Saved now) = now"
| "event_stamp (Play_changed running now) = now"

primrec counter_event :: "counter_input \<Rightarrow> counters \<Rightarrow> counters" where
  "counter_event (Saved now) c = snd (save_power_on Stage_none now c)"
| "counter_event (Play_changed running now) c = snd (play_running_changed Stage_none Stage_none running now c)"

lemma counter_event_power:
  "power_on_seconds (counter_event e c) =
     power_on_seconds c + whole_elapsed_seconds (power_on_baseline c) (event_stamp e)"
  "power_on_baseline (counter_event e c) = event_stamp e"
  by (cases e; auto simp: save_power_on_def play_running_changed_def Let_def)+

lemma unat_whole_elapsed:
  "unat (whole_elapsed_seconds start finish) = (unat finish - unat start) div 1000"
proof (cases "finish < start")
  case True
  from unat_mono [OF True] have "unat finish \<le> unat start" by (rule less_imp_le)
  then have "unat finish - unat start = 0" by (rule diff_is_0_eq [THEN iffD2])
  then show ?thesis by (simp only: whole_elapsed_seconds_def True if_True unsigned_0 div_0)
next
  case False
  then have "unat (finish - start) = unat finish - unat start" by (simp add: unat_sub not_less)
  moreover have "unat (1000 :: u64) = 1000" by simp
  ultimately show ?thesis
    by (simp only: whole_elapsed_seconds_def False if_False unat_div)
qed

lemma floor_step: "(b - a) div 1000 + (c - b) div 1000 \<le> (c - a) div 1000" if "a \<le> b" "b \<le> c" for a b c :: nat
proof -
  have "c - a = (b - a) + (c - b)" using that by simp
  moreover have "(b - a) div 1000 + (c - b) div 1000 \<le> ((b - a) + (c - b)) div 1000"
    by (subst div_add1_eq [of "b - a" "c - b"]) (rule le_add1)
  ultimately show ?thesis by simp
qed

lemma floor_loss: "c - a < 1000 * ((c - a) div 1000 + 1)" for a c :: nat
  by (simp add: mult.commute)

text \<open>
  C38. With time stamps in order, the power-on counter is never ahead of the time since the service started, and
  is behind it by less than a second for each save.
\<close>

theorem power_on_counter_tracks_time:
  assumes "sorted (map unat (power_on_baseline c # map event_stamp events))"
    and "unat (power_on_seconds c) + (unat (event_stamp (List.last events)) - unat (power_on_baseline c)) div 1000 < 2 ^ 64"
    and "events \<noteq> []" "c' = fold counter_event events c"
  shows "unat (power_on_seconds c) \<le> unat (power_on_seconds c') \<and>
    unat (power_on_seconds c') \<le>
      unat (power_on_seconds c) + (unat (event_stamp (List.last events)) - unat (power_on_baseline c)) div 1000 \<and>
    unat (event_stamp (List.last events)) - unat (power_on_baseline c) <
      1000 * (unat (power_on_seconds c') - unat (power_on_seconds c) + length events)"
  using assms
proof (induction events arbitrary: c)
  case Nil
  then show ?case by simp
next
  case (Cons e events)
  let ?b = "unat (power_on_baseline c)" and ?s = "unat (event_stamp e)"
  let ?final = "unat (event_stamp (List.last (e # events)))"
  have order: "?b \<le> ?s" "?s \<le> ?final"
    using Cons.prems(1) by (auto dest: last_in_set split: if_splits)
  define p where "p = unat (power_on_seconds (counter_event e c))"
  have "(?s - ?b) div 1000 \<le> (?final - ?b) div 1000" using order by (intro div_le_mono) simp
  then have p: "p = unat (power_on_seconds c) + (?s - ?b) div 1000"
    using Cons.prems(2) by (simp add: p_def counter_event_power unat_add_lem [THEN iffD1] unat_whole_elapsed)
  have loss: "?s - ?b < 1000 * ((?s - ?b) div 1000 + 1)" by (rule floor_loss)
  show ?case
  proof (cases "events = []")
    case True
    then show ?thesis using p loss Cons.prems(4) by (simp add: p_def)
  next
    case False
    have "p + (?final - ?s) div 1000 < 2 ^ 64"
      using p floor_step [OF order] Cons.prems(2) by linarith
    then have small: "unat (power_on_seconds (counter_event e c)) +
        (unat (event_stamp (List.last events)) - unat (power_on_baseline (counter_event e c))) div 1000 < 2 ^ 64"
      using False by (simp add: p_def counter_event_power(2))
    have sorted: "sorted (map unat (power_on_baseline (counter_event e c) # map event_stamp events))"
      using Cons.prems(1) by (simp add: counter_event_power(2))
    have rest: "c' = fold counter_event events (counter_event e c)" using Cons.prems(4) by simp
    have final_of: "?final = unat (event_stamp (List.last events))" using False by simp
    note ih0 = Cons.IH [OF sorted small False rest, unfolded counter_event_power(2), folded p_def final_of]
    have ih: "p \<le> unat (power_on_seconds c')" "unat (power_on_seconds c') \<le> p + (?final - ?s) div 1000"
      "?final - ?s < 1000 * (unat (power_on_seconds c') - p + length events)"
      using ih0 by (blast, blast, blast)
    have "?final - ?b = (?s - ?b) + (?final - ?s)" using order by simp
    moreover have "unat (power_on_seconds c') - unat (power_on_seconds c) =
        (?s - ?b) div 1000 + (unat (power_on_seconds c') - p)" using p ih(1) by simp
    ultimately have "?final - ?b < 1000 * (unat (power_on_seconds c') - unat (power_on_seconds c) + length (e # events))"
      using loss ih(3) by simp
    moreover have "unat (power_on_seconds c') \<le> unat (power_on_seconds c) + (?final - ?b) div 1000"
      using p ih(2) floor_step [OF order] by linarith
    ultimately show ?thesis using p ih(1) by linarith
  qed
qed

theorem power_on_counter_tracks_time_witness:
  "unat (power_on_seconds (fold counter_event [Saved 1999, Play_changed True 2500, Saved 4000]
     (initialize_counters (\<lambda>_. Some 7) 0))) \<le> 11"
  using power_on_counter_tracks_time [of "initialize_counters (\<lambda>_. Some 7) 0" "[Saved 1999, Play_changed True 2500, Saved 4000]"]
  by (simp add: initialize_counters_def)

text \<open>
  The stamps of the play events are taken from another clock (\<open>esp_timer_get_time\<close>) than the saves of the task
  (the tick counter), which starts later: a stamp ahead of the ticks is followed by a save that goes back.
\<close>

text \<open>
  A save whose stamp lies before the last one counts nothing but moves the baseline back, so the time between
  the two stamps is counted a second time.
\<close>

theorem stale_stamp_counts_again:
  assumes "unat t \<le> unat s" "unat s < 2 ^ 63" "unat (power_on_baseline c) \<le> unat t" "unat t + d < 2 ^ 63"
  shows "power_on_seconds (fold counter_event [Play_changed running s, Saved t, Saved (t + of_nat d)] c) =
    power_on_seconds c + whole_elapsed_seconds (power_on_baseline c) s + whole_elapsed_seconds t (t + of_nat d)"
proof -
  have "whole_elapsed_seconds s t = 0"
    using assms(1) by (auto simp: whole_elapsed_seconds_def not_less simp flip: word_le_nat_alt)
  then show ?thesis by (simp add: counter_event_power del: counter_event.simps)
qed

theorem stale_stamp_counts_again_witness:
  "power_on_seconds (fold counter_event [Play_changed True 5000, Saved 2000, Saved (2000 + of_nat 3000)]
     (initialize_counters (\<lambda>_. None) 0)) = 8"
  by (subst stale_stamp_counts_again) (auto simp: initialize_counters_def whole_elapsed_seconds_def)

text \<open>
  The task offers the present time at every start, before any host could have set the clock: an unset clock is
  stored as the first boot, and the recording that follows a later setting of the clock writes nothing.
\<close>

theorem first_boot_keeps_unset_clock:
  assumes "ans_first_boot a = Nvs_missing" "ans_first_boot b = Nvs_found stored_seconds"
    "task_events t = First_boot_event now # events"
  shows "Write_first_boot unset \<in> set (fst (start_counter_task a counters_stored unset start)) \<and>
    Ck_record_first_boot \<in> set (set_time True now) \<and> fst (serve_event b t) = [Read_first_boot]"
  using assms
  by (simp add: start_counter_task_def record_first_boot_def set_time_def serve_event_def Let_def)

end
