(* ===== verification/Controller_Loop.thy ===== *)
theory Controller_Loop
  imports Controller_Link Runtime_Services Host_Output Routing
begin

text \<open>
  The task of the controller UART, \<open>main/controller/controller_command_loop.cpp\<close>: one iteration writes what is
  due, polls the queries and the alarm, reads, routes every decoded frame and serves one local command. The
  mutexes may be missing (their creation can fail); the channel, the clocks and the handlers' ports answer from
  outside. The transfer families are consumed by tasks of their own, which take from the inboxes modelled here.
\<close>

section \<open>State and environment\<close>

record loop_resources =
  forwarder_mutex :: bool
  inbox_mutex :: "controller_family \<Rightarrow> bool"

record controller_loop =
  loop_output :: controller_output
  loop_queries :: query_scheduler
  loop_alarm :: u64
  loop_decoder :: decoder
  loop_local :: "frame list"
  loop_snapshots :: snapshots
  loop_running :: bool
  loop_inboxes :: "controller_family \<Rightarrow> transfer_inbox"
  loop_recording :: bool

datatype loop_call =
    Uart_write bytes | Send_failed | Host_broadcast frame output_source | Host_output_purged
  | Receive_queue_full u8 u64 nat | Transmit_queue_full u8
  | Clock_call clock_call | Serial_call serial_call | Runtime_call runtime_call | Request_update | Loop_delay

text \<open>The answers of one iteration; each reading of the clock has its own.\<close>

record loop_answers =
  drain_time :: "nat \<Rightarrow> u64"
  query_time :: u64
  alarm_time :: u64
  uart_input :: "bytes option"
  frame_time :: "nat \<Rightarrow> u64"
  inbox_time :: u64
  admission_of :: "frame \<Rightarrow> output_admission"
  written_size :: "bytes \<Rightarrow> int"
  clock_is_set :: bool
  unix_now :: int
  ans_serial :: serial_env
  ans_runtime :: runtime_env

definition write_controller_frame :: "loop_answers \<Rightarrow> bytes \<Rightarrow> loop_call list" where
  "write_controller_frame a item =
     Uart_write item # (if written_size a item \<noteq> int (length item) then [Send_failed] else [])"

definition new_controller_loop :: "u64 \<Rightarrow> controller_loop" where
  "new_controller_loop now =
     \<lparr>loop_output = new_controller_output, loop_queries = new_query_scheduler now,
      loop_alarm = new_activity_monitor now, loop_decoder = new_decoder policy_controller_uart, loop_local = [],
      loop_snapshots = new_snapshots, loop_running = False,
      loop_inboxes = (\<lambda>family. new_inbox (case family of
          Controller_firmware \<Rightarrow> 0xC0 | Controller_configuration \<Rightarrow> 0xD0 | Controller_factory_data \<Rightarrow> 0xE0
        | Controller_streamed_play \<Rightarrow> 0xF0 | Controller_none \<Rightarrow> 0)),
      loop_recording = False\<rparr>"

section \<open>The inboxes and the forwarder\<close>

definition enqueue_controller_inbox ::
    "loop_resources \<Rightarrow> loop_answers \<Rightarrow> controller_family \<Rightarrow> frame \<Rightarrow> controller_loop \<Rightarrow> loop_call list \<times> controller_loop" where
  "enqueue_controller_inbox r a family f s =
     (if \<not> inbox_mutex r family then ([], s)
      else
        let inbox = loop_inboxes s family; pending = length (inbox_frames inbox); (inbox, queued) = inbox_enqueue f inbox
        in (if \<not> queued \<and> pending \<ge> 32 then [Receive_queue_full (ftype f) (inbox_time a) pending] else [],
            s\<lparr>loop_inboxes := (loop_inboxes s)(family := inbox)\<rparr>))"

definition take_controller_inbox ::
    "loop_resources \<Rightarrow> controller_family \<Rightarrow> u64 \<Rightarrow> controller_loop \<Rightarrow> frame option \<times> controller_loop" where
  "take_controller_inbox r family now s =
     (if \<not> inbox_mutex r family then (None, s)
      else let (inbox, f) = inbox_take_ready now (loop_inboxes s family)
           in (f, s\<lparr>loop_inboxes := (loop_inboxes s)(family := inbox)\<rparr>))"

definition enqueue_controller_frame_impl ::
    "loop_resources \<Rightarrow> bool \<Rightarrow> frame \<Rightarrow> controller_loop \<Rightarrow> bool \<times> loop_call list \<times> controller_loop" where
  "enqueue_controller_frame_impl r diagnose_capacity f s =
     (if \<not> forwarder_mutex r then (False, [], s)
      else
        let capacity_full = (length (output_items (loop_output s)) \<ge> 32); (output, queued) = forward f (loop_output s)
        in (queued, if \<not> queued \<and> capacity_full \<and> diagnose_capacity then [Transmit_queue_full (ftype f)] else [],
            s\<lparr>loop_output := output\<rparr>))"

datatype play_enqueue_result = Play_accepted | Play_capacity_full | Play_unavailable

definition enqueue_play_controller_frame ::
    "loop_resources \<Rightarrow> frame \<Rightarrow> controller_loop \<Rightarrow> play_enqueue_result \<times> controller_loop" where
  "enqueue_play_controller_frame r f s =
     (if \<not> forwarder_mutex r then (Play_unavailable, s)
      else
        let capacity_full = (length (output_items (loop_output s)) \<ge> 32); (output, queued) = forward f (loop_output s)
        in (if queued then Play_accepted else if capacity_full then Play_capacity_full else Play_unavailable,
            s\<lparr>loop_output := output\<rparr>))"

text \<open>
  The drain takes until nothing is ready; every turn shortens the queue, so its length bounds the turns. With a
  missing mutex \<open>xSemaphoreTake\<close> is given a null handle, which has no result.
\<close>

fun drain_output :: "loop_answers \<Rightarrow> nat \<Rightarrow> nat \<Rightarrow> controller_output \<Rightarrow> loop_call list \<times> controller_output" where
  "drain_output a 0 i q = ([], q)"
| "drain_output a (Suc fuel) i q =
     (case controller_output_take (drain_time a i) q of
        (q, None) \<Rightarrow> ([], q)
      | (q, Some item) \<Rightarrow>
          (let (calls, q) = drain_output a fuel (Suc i) q in (write_controller_frame a item @ calls, q)))"

definition drain_forwarded_frames ::
    "loop_resources \<Rightarrow> loop_answers \<Rightarrow> controller_loop \<Rightarrow> (loop_call list \<times> controller_loop) option" where
  "drain_forwarded_frames r a s =
     (if \<not> forwarder_mutex r then None
      else let (calls, q) = drain_output a (Suc (length (output_items (loop_output s)))) 0 (loop_output s)
           in Some (calls, s\<lparr>loop_output := q\<rparr>))"

section \<open>One frame\<close>

definition broadcast_frame :: "loop_answers \<Rightarrow> frame \<Rightarrow> loop_call list" where
  "broadcast_frame a f =
     (if has_target (from_controller f) To_broadcast
      then Host_broadcast f Motion_board_unchanged # (if admission_of a f = Purged_at_capacity then [Host_output_purged] else [])
      else [])"

definition retain_controller_snapshot :: "frame \<Rightarrow> controller_loop \<Rightarrow> controller_loop" where
  "retain_controller_snapshot f s =
     (if ftype f = 0x81
      then s\<lparr>loop_snapshots := retain_status (fpayload f) (loop_snapshots s),
             loop_running := status_reports_running (chars (fpayload f))\<rparr>
      else if ftype f = 0x82 then s\<lparr>loop_snapshots := update_diagnostic (fpayload f) (loop_snapshots s)\<rparr>
      else if ftype f = 0x71 then s\<lparr>loop_snapshots := update_version (fpayload f) (loop_snapshots s)\<rparr>
      else s)"

definition queued_locally :: "command_kind \<Rightarrow> bool" where
  "queued_locally kind \<longleftrightarrow>
     kind \<in> {Cmd_serial_get, Cmd_serial_set, Cmd_clear_first_time, Cmd_upgrade, Cmd_reset, Cmd_record_start, Cmd_record_stop}"

definition accept_frame ::
    "loop_resources \<Rightarrow> loop_answers \<Rightarrow> nat \<Rightarrow> frame \<Rightarrow> controller_loop \<Rightarrow> loop_call list \<times> controller_loop" where
  "accept_frame r a i f s =
     (let s = retain_controller_snapshot f (s\<lparr>loop_alarm := record_valid_frame (frame_time a i)\<rparr>);
          family = controller_family_of (ftype f)
      in if family \<noteq> Controller_none
         then let (calls, s) = enqueue_controller_inbox r a family f s in (broadcast_frame a f @ calls, s)
         else
           let calls = broadcast_frame a f @ map Clock_call (dispatch_time (clock_is_set a) (unix_now a) f)
           in if ftype f = 0xA2 \<and> queued_locally (cmd_kind (recognize_command (fpayload f)))
              then (calls, s\<lparr>loop_local := fst (local_enqueue f (loop_local s))\<rparr>)
              else (calls, s))"

fun accept_frames ::
    "loop_resources \<Rightarrow> loop_answers \<Rightarrow> nat \<Rightarrow> frame list \<Rightarrow> controller_loop \<Rightarrow> loop_call list \<times> controller_loop" where
  "accept_frames r a i [] s = ([], s)"
| "accept_frames r a i (f # fs) s =
     (let (calls, s) = accept_frame r a i f s; (more, s) = accept_frames r a (Suc i) fs s in (calls @ more, s))"

section \<open>One local command\<close>

definition handle_local_command :: "loop_answers \<Rightarrow> frame \<Rightarrow> controller_loop \<Rightarrow> loop_call list \<times> controller_loop" where
  "handle_local_command a f s =
     (let command = chars (fpayload f); kind = cmd_kind (recognize_command (fpayload f)) in
      if kind = Cmd_serial_get then (map Serial_call (handle_serial_get (ans_serial a) command []), s)
      else if kind = Cmd_serial_set then (map Serial_call (handle_serial_set (ans_serial a) command []), s)
      else if kind = Cmd_clear_first_time then (map Runtime_call (handle_clear_first_boot (ans_runtime a) command []), s)
      else if kind = Cmd_upgrade \<or> kind = Cmd_reset then ([Request_update], s)
      else
        let result = handle_recording_command kind (loop_recording s);
            encoded = encode_controller_frame (recording_response result)
        in (if encoded = [] then [] else write_controller_frame a encoded,
            s\<lparr>loop_recording := recording_requested result\<rparr>))"

definition serve_local :: "loop_answers \<Rightarrow> controller_loop \<Rightarrow> loop_call list \<times> controller_loop" where
  "serve_local a s =
     (case local_dequeue (loop_local s) of
        (_, None) \<Rightarrow> ([], s)
      | (rest, Some f) \<Rightarrow>
          (let (calls, s) = handle_local_command a f (s\<lparr>loop_local := rest\<rparr>) in (calls @ [Loop_delay], s)))"

section \<open>One iteration\<close>

definition poll_periodic :: "loop_answers \<Rightarrow> controller_loop \<Rightarrow> loop_call list \<times> controller_loop" where
  "poll_periodic a s =
     (let (queries, scheduler) = query_poll (query_time a) True (loop_queries s);
          (alarms, due) = activity_poll (alarm_time a) (loop_alarm s)
      in (concat (map (\<lambda>q. let e = encode_controller_frame q in if e = [] then [] else write_controller_frame a e) queries) @
            map (\<lambda>alarm. Host_broadcast alarm Inactivity_alarm) alarms,
          s\<lparr>loop_queries := scheduler, loop_alarm := due\<rparr>))"

definition read_input ::
    "loop_resources \<Rightarrow> loop_answers \<Rightarrow> controller_loop \<Rightarrow> loop_call list \<times> controller_loop" where
  "read_input r a s =
     (case uart_input a of
        None \<Rightarrow> ([], s)
      | Some input \<Rightarrow>
          if input = [] then ([], s)
          else
            let (d, frames) = push (loop_decoder s) input;
                (calls, s) = accept_frames r a 0 frames (s\<lparr>loop_decoder := d\<rparr>);
                (served, s) = serve_local a s
            in (calls @ served, s))"

definition controller_loop_turn ::
    "loop_resources \<Rightarrow> loop_answers \<Rightarrow> controller_loop \<Rightarrow> (loop_call list \<times> controller_loop) option" where
  "controller_loop_turn r a s =
     (case drain_forwarded_frames r a s of
        None \<Rightarrow> None
      | Some (drained, s) \<Rightarrow>
          (let (polled, s) = poll_periodic a s; (received, s) = read_input r a s in Some (drained @ polled @ received, s)))"

section \<open>From the wire to the status reply\<close>

lemma encode_controller_size:
  "length (fpayload f) \<le> 247 \<Longrightarrow> length (encode_controller_frame f) = length (fpayload f) + 9"
  by (simp add: encode_controller_frame_def length_encode_with_crc)

lemma push_one_frame:
  assumes "policy d = policy_controller_uart" "buffer d = []" "length (fpayload f) \<le> 247"
  shows "snd (push d (encode_controller_frame f)) = [f]"
proof -
  have "push d (encode_controller_frame f) = decode_loop (d\<lparr>buffer := encode_controller_frame f\<rparr>)"
    using assms by (subst push_eq) (simp_all add: encode_controller_size)
  moreover have "snd (decode_loop (d\<lparr>buffer := encode_controller_frame f\<rparr>)) = [f]"
    using assms decode_loop_frames [of "d\<lparr>buffer := encode_controller_frame f\<rparr>" "[f]"]
    by (simp add: encode_controller_frame_def policy_controller_uart_def)
  ultimately show ?thesis by simp
qed

lemma drain_keeps: "drain_forwarded_frames r a s = Some (calls, s') \<Longrightarrow> loop_decoder s' = loop_decoder s"
  by (auto simp: drain_forwarded_frames_def split_def Let_def simp del: drain_output.simps split: if_splits)

lemma poll_keeps: "poll_periodic a s = (calls, s') \<Longrightarrow> loop_decoder s' = loop_decoder s"
  by (auto simp: poll_periodic_def split: prod.splits)

lemma serve_keeps:
  "serve_local a s = (calls, s') \<Longrightarrow>
     loop_snapshots s' = loop_snapshots s \<and> loop_running s' = loop_running s \<and> loop_alarm s' = loop_alarm s"
  by (auto simp: serve_local_def handle_local_command_def Let_def split: prod.splits option.splits if_splits)

lemma status_frame_family: "controller_family_of 0x81 = Controller_none"
  by (simp add: controller_family_of_def)

lemma accept_status_frame:
  assumes "ftype f = 0x81"
  shows "accept_frame r a i f s =
    (broadcast_frame a f, retain_controller_snapshot f (s\<lparr>loop_alarm := record_valid_frame (frame_time a i)\<rparr>))"
  using assms by (simp add: accept_frame_def Let_def status_frame_family dispatch_time_def)

lemma status_not_broadcast: "ftype f = 0x81 \<Longrightarrow> broadcast_frame a f = []"
  by (simp add: broadcast_frame_def from_controller_def Let_def status_frame_family has_add_target has_target_updates
      has_empty)

lemma write_is_no_broadcast: "Host_broadcast f source \<notin> set (write_controller_frame a item)"
  by (simp add: write_controller_frame_def)

lemma drain_is_no_broadcast: "Host_broadcast f source \<notin> set (fst (drain_output a n i q))"
  by (induction n arbitrary: i q) (auto simp: write_is_no_broadcast split_def Let_def split: option.split)

lemma poll_broadcasts_alarms:
  "Host_broadcast f source \<in> set (fst (poll_periodic a s)) \<Longrightarrow> ftype f = 0x90"
  by (auto simp: poll_periodic_def Let_def write_is_no_broadcast activity_poll_def make_inactivity_alarm_def
      split: prod.splits if_splits)

lemma serve_is_no_broadcast: "Host_broadcast f source \<notin> set (fst (serve_local a s))"
  by (auto simp: serve_local_def handle_local_command_def Let_def write_is_no_broadcast
      split: prod.splits option.splits if_splits)

text \<open>
  C39. A status frame that arrives whole on the UART is, after the iteration that reads it, what the next status
  reply extends; it restarts the alarm, decides whether the controller runs, and is not broadcast.
\<close>

theorem status_reaches_reply:
  assumes "forwarder_mutex r" "policy (loop_decoder s) = policy_controller_uart" "buffer (loop_decoder s) = []"
    and "ftype f = 0x81" "fpayload f \<noteq> []" "length (fpayload f) \<le> 247"
    and "uart_input a = Some (encode_controller_frame f)"
  shows "\<exists>calls s'. controller_loop_turn r a s = Some (calls, s') \<and>
    fst (status_reply e (loop_snapshots s')) =
      map_option (\<lambda>extended. \<lparr>ftype = 0x81, fpayload = octets extended\<rparr>)
        (extend_status (if usable_status (chars (fpayload f)) then chars (fpayload f) else fallback_status) e) \<and>
    loop_running s' = status_reports_running (chars (fpayload f)) \<and>
    loop_alarm s' = record_valid_frame (frame_time a 0) \<and>
    (\<forall>source. Host_broadcast f source \<notin> set calls)"
proof -
  obtain drained s1 where drain: "drain_forwarded_frames r a s = Some (drained, s1)"
    using assms(1) by (auto simp: drain_forwarded_frames_def split_def Let_def simp del: drain_output.simps)
  obtain polled s2 where poll: "poll_periodic a s1 = (polled, s2)" by fastforce
  have decoder: "loop_decoder s2 = loop_decoder s"
    using drain_keeps [OF drain] poll_keeps [OF poll] by simp
  obtain d where push: "push (loop_decoder s) (encode_controller_frame f) = (d, [f])"
    using push_one_frame [OF assms(2,3,6)] by (metis prod.collapse)
  have nonempty: "encode_controller_frame f \<noteq> []"
    using encode_controller_size [OF assms(6)] by (metis add_is_0 list.size(3) zero_neq_numeral)
  define s3 where "s3 = retain_controller_snapshot f (s2\<lparr>loop_decoder := d, loop_alarm := record_valid_frame (frame_time a 0)\<rparr>)"
  obtain served s4 where serve: "serve_local a s3 = (served, s4)" by fastforce
  have turn: "controller_loop_turn r a s = Some (drained @ polled @ served, s4)"
    using drain poll push nonempty serve
    by (simp add: controller_loop_turn_def read_input_def assms(7) decoder accept_status_frame [OF assms(4)]
        status_not_broadcast [OF assms(4)] s3_def)
  have s4: "loop_snapshots s4 = retain_status (fpayload f) (loop_snapshots s2)"
      "loop_running s4 = status_reports_running (chars (fpayload f))"
      "loop_alarm s4 = record_valid_frame (frame_time a 0)"
    using serve_keeps [OF serve] assms(4) by (simp_all add: s3_def retain_controller_snapshot_def)
  have "fst (status_reply e (loop_snapshots s4)) =
      map_option (\<lambda>extended. \<lparr>ftype = 0x81, fpayload = octets extended\<rparr>)
        (extend_status (if usable_status (chars (fpayload f)) then chars (fpayload f) else fallback_status) e)"
    using assms(5,6) by (simp add: s4 status_reply_def retain_status_def bounded_status_copy_def Let_def)
  moreover have "Host_broadcast f source \<notin> set (drained @ polled @ served)" for source
    using drain poll serve drain_is_no_broadcast [of f source] poll_broadcasts_alarms [of f source a s1] assms(4)
      serve_is_no_broadcast [of f source a s3]
    by (auto simp: drain_forwarded_frames_def split: if_splits prod.splits simp del: drain_output.simps) (metis fst_conv)+
  ultimately show ?thesis using turn s4 by blast
qed

definition example_loop_answers :: "bytes option \<Rightarrow> loop_answers" where
  "example_loop_answers input =
     \<lparr>drain_time = (\<lambda>_. 500), query_time = 500, alarm_time = 500, uart_input = input, frame_time = (\<lambda>_. 510),
      inbox_time = 510, admission_of = (\<lambda>_. Accepted), written_size = (\<lambda>item. int (length item)), clock_is_set = True,
      unix_now = 0, ans_serial = example_serial_env,
      ans_runtime = \<lparr>rt_admitted = (\<lambda>_. True), rt_opened = (\<lambda>_. True), rt_first_boot = (\<lambda>_. None),
                     rt_counter = (\<lambda>_ _. None), rt_erased = (\<lambda>_. Nvs_missing)\<rparr>\<rparr>"

definition idle_status :: frame where
  "idle_status = \<lparr>ftype = 0x81, fpayload = octets ''<Idle|MPos:0.0>''\<rparr>"

theorem status_reaches_reply_witness:
  "\<exists>calls s'. controller_loop_turn \<lparr>forwarder_mutex = True, inbox_mutex = (\<lambda>_. True)\<rparr>
      (example_loop_answers (Some (encode_controller_frame idle_status))) (new_controller_loop 0) = Some (calls, s') \<and>
    loop_running s' = status_reports_running ''<Idle|MPos:0.0>''"
proof -
  let ?r = "\<lparr>forwarder_mutex = True, inbox_mutex = (\<lambda>_ :: controller_family. True)\<rparr>"
  let ?a = "example_loop_answers (Some (encode_controller_frame idle_status))"
  have payload: "chars (fpayload idle_status) = ''<Idle|MPos:0.0>''" by (simp add: idle_status_def)
  have parts: "forwarder_mutex ?r" "policy (loop_decoder (new_controller_loop 0)) = policy_controller_uart"
    "buffer (loop_decoder (new_controller_loop 0)) = []" "ftype idle_status = 0x81" "fpayload idle_status \<noteq> []"
    "length (fpayload idle_status) \<le> 247" "uart_input ?a = Some (encode_controller_frame idle_status)"
    by (simp_all add: new_controller_loop_def new_decoder_def idle_status_def example_loop_answers_def)
  show ?thesis
    using status_reaches_reply [OF parts] unfolding payload by blast
qed

section \<open>A silent controller and the local commands\<close>

text \<open>
  The local commands are served behind the read: without input an iteration leaves them where they are, so the
  commands beyond the first of a burst wait for the controller to send something else.
\<close>

fun loop_turns :: "loop_resources \<Rightarrow> loop_answers list \<Rightarrow> controller_loop \<Rightarrow> (loop_call list \<times> controller_loop) option" where
  "loop_turns r [] s = Some ([], s)"
| "loop_turns r (a # as) s =
     (case controller_loop_turn r a s of
        None \<Rightarrow> None
      | Some (calls, s) \<Rightarrow> map_option (\<lambda>(more, s). (calls @ more, s)) (loop_turns r as s))"

lemma drain_keeps_local: "drain_forwarded_frames r a s = Some (calls, s') \<Longrightarrow> loop_local s' = loop_local s"
  by (auto simp: drain_forwarded_frames_def split_def Let_def simp del: drain_output.simps split: if_splits)

lemma poll_keeps_local: "poll_periodic a s = (calls, s') \<Longrightarrow> loop_local s' = loop_local s"
  by (auto simp: poll_periodic_def split: prod.splits)

lemma silent_turn_keeps_local:
  "controller_loop_turn r a s = Some (calls, s') \<Longrightarrow> uart_input a = None \<Longrightarrow> loop_local s' = loop_local s"
  by (auto simp: controller_loop_turn_def read_input_def dest!: drain_keeps_local poll_keeps_local
      split: option.splits prod.splits)

text \<open>
  While nothing arrives on the UART, no iteration serves a local command that is already queued.
\<close>

theorem silence_stalls_local_commands:
  assumes "loop_turns r answers s = Some (calls, s')" "\<forall>a \<in> set answers. uart_input a = None"
  shows "loop_local s' = loop_local s"
  using assms
proof (induction answers arbitrary: s calls)
  case Nil
  then show ?case by simp
next
  case (Cons a answers)
  then obtain turn s1 where "controller_loop_turn r a s = Some (turn, s1)"
    by (auto split: option.splits)
  then show ?case
    using Cons silent_turn_keeps_local [of r a s turn s1] by auto
qed

lemma loop_turn_returns: "forwarder_mutex r \<Longrightarrow> \<exists>calls s'. controller_loop_turn r a s = Some (calls, s')"
  by (auto simp: controller_loop_turn_def drain_forwarded_frames_def split_def Let_def simp del: drain_output.simps)

lemma loop_turns_return: "forwarder_mutex r \<Longrightarrow> \<exists>calls s'. loop_turns r answers s = Some (calls, s')"
proof (induction answers arbitrary: s)
  case Nil
  then show ?case by simp
next
  case (Cons a answers)
  obtain calls s1 where "controller_loop_turn r a s = Some (calls, s1)" using loop_turn_returns Cons.prems by blast
  moreover obtain more s2 where "loop_turns r answers s1 = Some (more, s2)" using Cons by blast
  ultimately show ?case by simp
qed

theorem silence_stalls_local_commands_witness:
  "loop_local (snd (the (loop_turns \<lparr>forwarder_mutex = True, inbox_mutex = (\<lambda>_. True)\<rparr>
      [example_loop_answers None, example_loop_answers None]
      (new_controller_loop 0\<lparr>loop_local := [\<lparr>ftype = 0xA2, fpayload = octets ''sn-get''\<rparr>]\<rparr>)))) =
   [\<lparr>ftype = 0xA2, fpayload = octets ''sn-get''\<rparr>]"
proof -
  let ?r = "\<lparr>forwarder_mutex = True, inbox_mutex = (\<lambda>_. True)\<rparr>"
  let ?s = "new_controller_loop 0\<lparr>loop_local := [\<lparr>ftype = 0xA2, fpayload = octets ''sn-get''\<rparr>]\<rparr>"
  let ?as = "[example_loop_answers None, example_loop_answers None]"
  obtain calls s' where turns: "loop_turns ?r ?as ?s = Some (calls, s')"
    using loop_turns_return [of ?r] by fastforce
  have "\<forall>a \<in> set ?as. uart_input a = None" by (simp add: example_loop_answers_def)
  from silence_stalls_local_commands [OF turns this] show ?thesis by (simp only: turns option.sel snd_conv) simp
qed

end
