(* ===== verification/Storage.thy ===== *)
theory Storage
  imports Deadline Routing
begin

text \<open>
  The card and its space: admission of transfer starts (\<open>application/src/storage/file_transfer_admission.cpp\<close>), the
  life of the mount with its debounced card detection (\<open>sd_card_lifecycle.cpp\<close> over the port of
  \<open>main/storage/sd_card_adapter.cpp\<close>), and the retention of recordings (\<open>storage_retention.cpp\<close>,
  \<open>storage_retention_service.cpp\<close>).
\<close>

section \<open>Admission of transfer starts\<close>

record 'a admission =
  pending_starts :: "(host_identity \<times> 'a) list"
  admission_active :: bool

definition admission_enqueue :: "host_identity \<times> 'a \<Rightarrow> 'a admission \<Rightarrow> 'a admission \<times> bool" where
  "admission_enqueue start q =
     (if length (pending_starts q) \<ge> 4 then (q, False)
      else (q\<lparr>pending_starts := pending_starts q @ [start]\<rparr>, True))"

definition take_next_start :: "'a admission \<Rightarrow> 'a admission \<times> (host_identity \<times> 'a) option" where
  "take_next_start q =
     (if admission_active q \<or> pending_starts q = [] then (q, None)
      else (q\<lparr>pending_starts := tl (pending_starts q), admission_active := True\<rparr>, Some (hd (pending_starts q))))"

definition finish_active :: "'a admission \<Rightarrow> 'a admission" where
  "finish_active q = q\<lparr>admission_active := False\<rparr>"

text \<open>The mailbox of one packet: a packet not yet taken is replaced.\<close>

definition mailbox_put :: "frame \<Rightarrow> frame option \<Rightarrow> frame option" where
  "mailbox_put f box = Some f"

definition mailbox_take :: "frame option \<Rightarrow> frame option \<times> frame option" where
  "mailbox_take box = (None, box)"

section \<open>The life of the mount\<close>

datatype card_call = Card_sample | Card_mount | Card_start_logging | Card_stop_logging | Card_unmount

record card_lifecycle =
  next_sample :: u64
  pending_mount_time :: u64
  different_samples :: u8
  settled_inserted :: bool
  mount_pending :: bool
  card_mounted :: bool
  lifecycle_started :: bool

definition new_card_lifecycle :: card_lifecycle where
  "new_card_lifecycle =
     \<lparr>next_sample = 0, pending_mount_time = 0, different_samples = 0, settled_inserted = False, mount_pending = False,
      card_mounted = False, lifecycle_started = False\<rparr>"

text \<open>The answers of the port during one call: the detect pin, mounting and unmounting.\<close>

record card_answers =
  card_present :: bool
  mount_ok :: bool
  unmount_ok :: bool

definition attempt_mount :: "card_answers \<Rightarrow> card_lifecycle \<Rightarrow> card_call list \<times> card_lifecycle" where
  "attempt_mount a s =
     (if \<not> mount_ok a then ([Card_mount], s) else ([Card_mount, Card_start_logging], s\<lparr>card_mounted := True\<rparr>))"

definition accept_removal :: "card_answers \<Rightarrow> card_lifecycle \<Rightarrow> card_call list \<times> card_lifecycle" where
  "accept_removal a s =
     (if \<not> card_mounted s then ([], s)
      else ([Card_stop_logging, Card_unmount], if unmount_ok a then s\<lparr>card_mounted := False\<rparr> else s))"

definition lifecycle_start :: "card_answers \<Rightarrow> u64 \<Rightarrow> card_lifecycle \<Rightarrow> card_call list \<times> card_lifecycle" where
  "lifecycle_start a now s =
     (let s = s\<lparr>card_mounted := False, settled_inserted := False, different_samples := 0, mount_pending := False,
                next_sample := now + 200, lifecycle_started := True\<rparr>
      in if card_present a then let (calls, s) = attempt_mount a s in (Card_sample # calls, s) else ([Card_sample], s))"

definition run_pending_mount :: "card_answers \<Rightarrow> u64 \<Rightarrow> card_lifecycle \<Rightarrow> card_call list \<times> card_lifecycle" where
  "run_pending_mount a now s =
     (if mount_pending s \<and> now \<ge> pending_mount_time s
      then let s = s\<lparr>mount_pending := False\<rparr> in if \<not> card_mounted s then attempt_mount a s else ([], s)
      else ([], s))"

definition take_sample :: "card_answers \<Rightarrow> u64 \<Rightarrow> card_lifecycle \<Rightarrow> card_call list \<times> card_lifecycle" where
  "take_sample a now s =
     (let s = s\<lparr>next_sample := next_sample s + ((now - next_sample s) div 200 + 1) * 200\<rparr> in
      if card_present a = settled_inserted s then ([], s\<lparr>different_samples := 0\<rparr>)
      else
        let s = s\<lparr>different_samples := different_samples s + 1\<rparr> in
        if different_samples s < 3 then ([], s)
        else
          let s = s\<lparr>settled_inserted := card_present a, different_samples := 0\<rparr>
          in if card_present a then ([], s\<lparr>mount_pending := True, pending_mount_time := now + 100\<rparr>)
             else accept_removal a (s\<lparr>mount_pending := False\<rparr>))"

definition lifecycle_poll :: "card_answers \<Rightarrow> u64 \<Rightarrow> card_lifecycle \<Rightarrow> card_call list \<times> card_lifecycle" where
  "lifecycle_poll a now s =
     (if \<not> lifecycle_started s then ([], s)
      else
        let (mounting, s) = run_pending_mount a now s in
        if now < next_sample s then (mounting, s)
        else let (calls, s) = take_sample a now s in (mounting @ [Card_sample] @ calls, s))"

definition read_capacity :: "u64 option \<Rightarrow> u64 option \<Rightarrow> (u64 \<times> u64) option" where
  "read_capacity total_bytes free_bytes =
     (case (total_bytes, free_bytes) of
        (Some t, Some f) \<Rightarrow> Some (t div (1024 * 1024), f div (1024 * 1024))
      | _ \<Rightarrow> None)"

text \<open>
  The port over the FAT layer: mounting a card whose handle is held succeeds without looking at it; what the mount
  and the unmount of the library answer comes from outside.
\<close>

record sd_port =
  card_handle :: bool
  storage_mounted :: bool

definition port_mount :: "bool \<Rightarrow> sd_port \<Rightarrow> bool \<times> sd_port" where
  "port_mount library_ok p =
     (if card_handle p then (True, p\<lparr>storage_mounted := True\<rparr>)
      else (library_ok, p\<lparr>card_handle := library_ok, storage_mounted := library_ok\<rparr>))"

definition port_unmount :: "bool \<Rightarrow> sd_port \<Rightarrow> bool \<times> sd_port" where
  "port_unmount library_ok p =
     (if \<not> card_handle p then (True, p\<lparr>storage_mounted := False\<rparr>)
      else if library_ok then (True, p\<lparr>card_handle := False, storage_mounted := False\<rparr>) else (False, p))"

definition mount_for_boot :: "bool \<Rightarrow> bool \<Rightarrow> sd_port \<Rightarrow> bool \<times> sd_port" where
  "mount_for_boot present library_ok p =
     (if \<not> present then (False, p) else port_mount library_ok p)"

section \<open>Retention\<close>

record retention_candidate =
  candidate_path :: string
  modification_seconds :: u64
  regular_file :: bool

record retention_decision =
  total_mebibytes :: u32
  free_mebibytes :: u32
  should_prune :: bool
  request_persistence :: bool
  prune_candidates :: "string list"

text \<open>The position of the last occurrence, as \<open>find_last_of\<close> of one character.\<close>

definition find_last_char :: "char \<Rightarrow> string \<Rightarrow> nat option" where
  "find_last_char c text = map_option (\<lambda>i. length text - 1 - i) (find_char c (rev text))"

definition video_extension :: "string \<Rightarrow> bool" where
  "video_extension path =
     (case find_last_char (CHR ''.'') path of
        None \<Rightarrow> False
      | Some dot \<Rightarrow>
          if (case find_last_char (CHR ''/'') path of None \<Rightarrow> False | Some slash \<Rightarrow> dot < slash) then False
          else
            let extension = drop dot path in
            if length extension \<noteq> 4 then False
            else
              extension ! 1 \<in> {CHR ''a'', CHR ''A''} \<and> extension ! 2 \<in> {CHR ''v'', CHR ''V''} \<and>
                extension ! 3 \<in> {CHR ''i'', CHR ''I''} \<or>
              extension ! 1 \<in> {CHR ''m'', CHR ''M''} \<and> extension ! 2 \<in> {CHR ''p'', CHR ''P''} \<and>
                extension ! 3 = CHR ''4'')"

definition retained_video :: "retention_candidate \<Rightarrow> bool" where
  "retained_video entry \<longleftrightarrow>
     regular_file entry \<and> length (candidate_path entry) < 256 \<and> video_extension (candidate_path entry)"

text \<open>
  The threshold of 65 per cent. \<open>std::sort\<close> leaves the order of equal times open; the insertion sort of the model
  is one of the orders it may give.
\<close>

definition over_threshold :: "u64 \<Rightarrow> u64 \<Rightarrow> bool" where
  "over_threshold used total_bytes \<longleftrightarrow> \<not> used * 100 < total_bytes * 65"

definition evaluate_storage_retention ::
    "u64 \<Rightarrow> u64 \<Rightarrow> bool \<Rightarrow> u32 \<Rightarrow> retention_candidate list \<Rightarrow> retention_decision" where
  "evaluate_storage_retention total_bytes free_bytes directory_open check_number entries =
     (let decision = \<lparr>total_mebibytes = ucast (total_bytes div 1048576), free_mebibytes = ucast (free_bytes div 1048576),
                      should_prune = False, request_persistence = (check_number \<noteq> 0 \<and> check_number mod 60 = 0),
                      prune_candidates = []\<rparr>
      in if \<not> directory_open \<or> total_bytes = 0 \<or> free_bytes > total_bytes then decision
         else if \<not> over_threshold (total_bytes - free_bytes) total_bytes then decision
         else decision\<lparr>should_prune := True,
                       prune_candidates := map candidate_path (sort_key modification_seconds (filter retained_video entries))\<rparr>)"

text \<open>The service over its port: what the removals and the readings of the usage answer comes from outside.\<close>

datatype retention_call = Read_usage | List_videos | Remove_file string | Request_persistence

record retention_env =
  read_usage :: "retention_call list \<Rightarrow> (u64 \<times> u64) option"
  list_videos :: "retention_call list \<Rightarrow> retention_candidate list option"
  remove_ok :: "retention_call list \<Rightarrow> string \<Rightarrow> bool"

fun prune_files :: "retention_env \<Rightarrow> string list \<Rightarrow> retention_call list \<Rightarrow> retention_call list" where
  "prune_files env [] h = h"
| "prune_files env (path # paths) h =
     (let h' = h @ [Remove_file path] in
      if \<not> remove_ok env h path then prune_files env paths h'
      else case read_usage env h' of
          None \<Rightarrow> h' @ [Read_usage]
        | Some (total_bytes, free_bytes) \<Rightarrow>
            if total_bytes = 0 \<or> free_bytes > total_bytes then h' @ [Read_usage]
            else if \<not> over_threshold (total_bytes - free_bytes) total_bytes then h' @ [Read_usage]
            else prune_files env paths (h' @ [Read_usage]))"

definition run_retention_check :: "retention_env \<Rightarrow> u32 \<Rightarrow> retention_call list \<times> u32" where
  "run_retention_check env check_number =
     (let check_number = check_number + 1; h = [Read_usage] in
      (case read_usage env [] of
         None \<Rightarrow> h
       | Some (total_bytes, free_bytes) \<Rightarrow>
           case list_videos env h of
             None \<Rightarrow> h @ [List_videos]
           | Some entries \<Rightarrow>
               let h = h @ [List_videos];
                   decision = evaluate_storage_retention total_bytes free_bytes True check_number entries;
                   h = (if request_persistence decision then h @ [Request_persistence] else h)
               in if should_prune decision then prune_files env (prune_candidates decision) h else h,
       check_number))"

section \<open>Starts begin in their order, one at a time\<close>

datatype 'a admission_op = Offer_start "host_identity \<times> 'a" | Begin_next | Finish

text \<open>A history: the accepted starts, the begun ones, and the number finished.\<close>

fun admission_run :: "'a admission_op list \<Rightarrow> 'a admission \<Rightarrow>
    'a admission \<times> (host_identity \<times> 'a) list \<times> (host_identity \<times> 'a) list" where
  "admission_run [] q = (q, [], [])"
| "admission_run (Offer_start x # ops) q =
     (let (q, ok) = admission_enqueue x q; (r, accepted, begun) = admission_run ops q
      in (r, if ok then x # accepted else accepted, begun))"
| "admission_run (Begin_next # ops) q =
     (let (q, x) = take_next_start q; (r, accepted, begun) = admission_run ops q
      in (r, accepted, case x of None \<Rightarrow> begun | Some y \<Rightarrow> y # begun))"
| "admission_run (Finish # ops) q = admission_run ops (finish_active q)"

definition finishes :: "'a admission_op list \<Rightarrow> nat" where
  "finishes ops = length (filter (\<lambda>op. case op of Finish \<Rightarrow> True | _ \<Rightarrow> False) ops)"

text \<open>
  Transfer starts begin in the order in which they were accepted, none is lost or begun twice, at most four
  wait, and one begins only after the one before has finished.
\<close>

theorem transfer_starts_serialized:
  assumes "admission_run ops q = (r, accepted, begun)" "length (pending_starts q) \<le> 4"
  shows "pending_starts q @ accepted = begun @ pending_starts r \<and> length (pending_starts r) \<le> 4 \<and>
     length begun \<le> (if admission_active q then 0 else 1) + finishes ops"
  using assms
proof (induction ops arbitrary: q r accepted begun)
  case Nil
  then show ?case by simp
next
  case (Cons op ops)
  show ?case
  proof (cases op)
    case (Offer_start x)
    obtain q' ok where put: "admission_enqueue x q = (q', ok)" by fastforce
    obtain r' a b where run: "admission_run ops q' = (r', a, b)" by (metis prod_cases3)
    have q': "length (pending_starts q') \<le> 4" "pending_starts q' = pending_starts q @ (if ok then [x] else [])"
      "admission_active q' = admission_active q"
      using put Cons.prems(2) by (auto simp: admission_enqueue_def split: if_splits)
    have "r = r'" "accepted = (if ok then x # a else a)" "begun = b"
      using Cons.prems(1) by (simp_all add: Offer_start put run)
    then show ?thesis using Cons.IH [OF run q'(1)] q'(2,3) by (simp add: Offer_start finishes_def split: if_splits)
  next
    case Begin_next
    obtain q' x where get: "take_next_start q = (q', x)" by fastforce
    obtain r' a b where run: "admission_run ops q' = (r', a, b)" by (metis prod_cases3)
    have result: "r = r'" "accepted = a" "begun = (case x of None \<Rightarrow> b | Some y \<Rightarrow> y # b)"
      using Cons.prems(1) by (simp_all add: Begin_next get run)
    show ?thesis
    proof (cases "admission_active q \<or> pending_starts q = []")
      case True
      then have "q' = q" "x = None" using get by (simp_all add: take_next_start_def)
      then show ?thesis using Cons.IH [OF run] Cons.prems(2) result by (simp add: Begin_next finishes_def)
    next
      case False
      then obtain x0 xs where pending: "pending_starts q = x0 # xs" "\<not> admission_active q" by (cases "pending_starts q") auto
      then have q': "pending_starts q' = xs" "x = Some x0" "admission_active q'"
        using get by (auto simp: take_next_start_def)
      have "length (pending_starts q') \<le> 4" using Cons.prems(2) pending q'(1) by simp
      from Cons.IH [OF run this] have "xs @ a = b @ pending_starts r'" "length (pending_starts r') \<le> 4"
        "length b \<le> finishes ops" by (simp_all add: q')
      then show ?thesis by (simp add: result q'(2) pending Begin_next finishes_def)
    qed
  next
    case Finish
    have "length begun \<le> 1 + finishes ops"
      "pending_starts q @ accepted = begun @ pending_starts r" "length (pending_starts r) \<le> 4"
      using Cons.IH [of "finish_active q" r accepted begun] Cons.prems by (simp_all add: Finish finish_active_def)
    then show ?thesis by (simp add: Finish finishes_def)
  qed
qed

section \<open>Detection and mounting\<close>

fun lifecycle_run :: "(card_answers \<times> u64) list \<Rightarrow> card_lifecycle \<Rightarrow> card_call list \<times> card_lifecycle" where
  "lifecycle_run [] s = ([], s)"
| "lifecycle_run ((a, now) # polls) s =
     (let (calls, s) = lifecycle_poll a now s; (more, s) = lifecycle_run polls s in (calls @ more, s))"

lemma poll_of_due_sample:
  assumes "lifecycle_started s" "\<not> mount_pending s" "next_sample s \<le> now"
  shows "lifecycle_poll a now s = (let (calls, s') = take_sample a now s in (Card_sample # calls, s'))"
  using assms by (simp add: lifecycle_poll_def run_pending_mount_def not_less Let_def split: prod.split)

text \<open>A sample that agrees with the settled state starts the count anew, and nothing is called.\<close>

lemma agreeing_samples_change_nothing:
  "\<forall>(a, now) \<in> set polls. card_present a = settled_inserted s \<Longrightarrow> \<not> mount_pending s \<Longrightarrow>
     set (fst (lifecycle_run polls s)) \<subseteq> {Card_sample} \<and>
     card_mounted (snd (lifecycle_run polls s)) = card_mounted s \<and>
     settled_inserted (snd (lifecycle_run polls s)) = settled_inserted s \<and>
     \<not> mount_pending (snd (lifecycle_run polls s))"
proof (induction polls arbitrary: s)
  case Nil
  then show ?case by simp
next
  case (Cons poll polls)
  obtain a now where poll: "poll = (a, now)" by force
  obtain calls t where step: "lifecycle_poll a now s = (calls, t)" by fastforce
  have "set calls \<subseteq> {Card_sample} \<and> card_mounted t = card_mounted s \<and> settled_inserted t = settled_inserted s \<and>
      \<not> mount_pending t"
    using step Cons.prems
    by (auto simp: poll lifecycle_poll_def run_pending_mount_def take_sample_def Let_def split: if_splits)
  then show ?case
    using Cons.IH [of t] Cons.prems step by (auto simp: poll split: prod.splits)
qed

text \<open>
  A card that was mounted at the start and is pulled before three samples have seen it is never unmounted:
  every later sample agrees with the state the start assumed.
\<close>

theorem early_removal_never_unmounts:
  assumes "card_present a" "mount_ok a" "\<forall>(b, now) \<in> set polls. \<not> card_present b"
    and "lifecycle_start a start s = (boot, s1)" "lifecycle_run polls s1 = (calls, s2)"
  shows "Card_unmount \<notin> set calls \<and> Card_stop_logging \<notin> set calls \<and> card_mounted s2"
proof -
  have s1: "card_mounted s1" "\<not> settled_inserted s1" "\<not> mount_pending s1"
    using assms by (auto simp: lifecycle_start_def attempt_mount_def Let_def)
  then have "\<forall>(b, now) \<in> set polls. card_present b = settled_inserted s1" using assms(3) by auto
  from agreeing_samples_change_nothing [OF this s1(3)] show ?thesis using assms(5) s1(1) by auto
qed

definition example_card :: "bool \<Rightarrow> card_answers" where
  "example_card present = \<lparr>card_present = present, mount_ok = True, unmount_ok = True\<rparr>"

theorem early_removal_never_unmounts_witness:
  "card_mounted (snd (lifecycle_run (map (\<lambda>t. (example_card False, t)) [250, 450, 650, 850])
     (snd (lifecycle_start (example_card True) 0 new_card_lifecycle))))"
proof -
  obtain boot s1 where start: "lifecycle_start (example_card True) 0 new_card_lifecycle = (boot, s1)" by fastforce
  obtain calls s2 where run: "lifecycle_run (map (\<lambda>t. (example_card False, t)) [250, 450, 650, 850]) s1 = (calls, s2)"
    by fastforce
  have "card_present (example_card True)" "mount_ok (example_card True)"
    "\<forall>(b, now) \<in> set (map (\<lambda>t. (example_card False, t :: u64)) [250, 450, 650, 850]). \<not> card_present b"
    by (auto simp: example_card_def)
  from early_removal_never_unmounts [OF this start run] show ?thesis by (simp only: start run snd_conv)
qed

definition advanced_sample :: "u64 \<Rightarrow> card_lifecycle \<Rightarrow> u64" where
  "advanced_sample now s = next_sample s + ((now - next_sample s) div 200 + 1) * 200"

lemma advanced_sample_due:
  assumes "next_sample s \<le> now" "unat now + 200 \<le> unat later" "unat later < 2 ^ 63"
  shows "advanced_sample now s \<le> later"
proof -
  have "unat now < 2 ^ 63" using assms(2,3) by linarith
  then have "unat (advanced_sample now s) \<le> unat now + 200"
    using next_deadline_bounds(2) [of 200 now "next_sample s"] assms(1) by (simp add: advanced_sample_def)
  then show ?thesis using assms(2) by (simp add: word_le_nat_alt)
qed

lemma differing_sample:
  assumes "lifecycle_started s" "\<not> mount_pending s" "next_sample s \<le> now" "card_present a \<noteq> settled_inserted s"
  shows "different_samples s + 1 < 3 \<Longrightarrow> lifecycle_poll a now s =
      ([Card_sample], s\<lparr>next_sample := advanced_sample now s, different_samples := different_samples s + 1\<rparr>)"
    and "\<not> different_samples s + 1 < 3 \<Longrightarrow> lifecycle_poll a now s =
      (let s' = s\<lparr>next_sample := advanced_sample now s, settled_inserted := card_present a, different_samples := 0\<rparr>
       in if card_present a then ([Card_sample], s'\<lparr>mount_pending := True, pending_mount_time := now + 100\<rparr>)
          else (let (calls, s') = accept_removal a (s'\<lparr>mount_pending := False\<rparr>) in (Card_sample # calls, s')))"
  using assms
  by (simp_all add: poll_of_due_sample take_sample_def advanced_sample_def Let_def split: prod.split)

text \<open>
  The third consecutive differing sample, and no earlier one, decides: a card that appeared is scheduled for
  mounting 100 ms later, one that disappeared is unmounted at once after the logging has stopped, and stays
  mounted only when the unmount fails.
\<close>

theorem third_sample_decides:
  assumes "lifecycle_started s" "\<not> mount_pending s" "different_samples s = 0" "next_sample s \<le> t1"
    and "unat t1 + 200 \<le> unat t2" "unat t2 + 200 \<le> unat t3" "unat t3 < 2 ^ 63"
    and "\<forall>a \<in> {a1, a2, a3}. card_present a \<noteq> settled_inserted s"
  shows "fst (lifecycle_run [(a1, t1), (a2, t2)] s) = [Card_sample, Card_sample] \<and>
    (let (calls, s') = lifecycle_run [(a1, t1), (a2, t2), (a3, t3)] s; present = card_present a3
     in calls = [Card_sample, Card_sample, Card_sample] @
          (if \<not> present \<and> card_mounted s then [Card_stop_logging, Card_unmount] else []) \<and>
        settled_inserted s' = present \<and> mount_pending s' = present \<and>
        (present \<longrightarrow> pending_mount_time s' = t3 + 100) \<and>
        card_mounted s' = (card_mounted s \<and> (present \<or> \<not> unmount_ok a3)))"
proof -
  define s1 where "s1 = s\<lparr>next_sample := advanced_sample t1 s, different_samples := 1\<rparr>"
  define s2 where "s2 = s1\<lparr>next_sample := advanced_sample t2 s1, different_samples := 2\<rparr>"
  have first: "lifecycle_poll a1 t1 s = ([Card_sample], s1)"
    using differing_sample(1) [of s t1 a1] assms by (simp add: s1_def)
  have "next_sample s1 \<le> t2" using advanced_sample_due [OF assms(4,5)] assms(6,7) by (simp add: s1_def)
  note due2 = this
  have second: "lifecycle_poll a2 t2 s1 = ([Card_sample], s2)"
    using differing_sample(1) [of s1 t2 a2] assms due2 by (simp add: s1_def s2_def)
  have due3: "next_sample s2 \<le> t3" using advanced_sample_due [OF due2 assms(6,7)] by (simp add: s2_def)
  have third: "lifecycle_poll a3 t3 s2 =
      (let s' = s2\<lparr>next_sample := advanced_sample t3 s2, settled_inserted := card_present a3, different_samples := 0\<rparr>
       in if card_present a3 then ([Card_sample], s'\<lparr>mount_pending := True, pending_mount_time := t3 + 100\<rparr>)
          else (let (calls, s') = accept_removal a3 (s'\<lparr>mount_pending := False\<rparr>) in (Card_sample # calls, s')))"
    using differing_sample(2) [of s2 t3 a3] assms due3 by (simp add: s1_def s2_def)
  have two: "fst (lifecycle_run [(a1, t1), (a2, t2)] s) = [Card_sample, Card_sample]"
    by (simp add: first second)
  have three: "lifecycle_run [(a1, t1), (a2, t2), (a3, t3)] s =
      ([Card_sample, Card_sample] @ fst (lifecycle_poll a3 t3 s2), snd (lifecycle_poll a3 t3 s2))"
    by (simp add: first second split_def Let_def)
  have "card_mounted s2 = card_mounted s" by (simp add: s1_def s2_def)
  then show ?thesis
    unfolding two three third by (simp add: accept_removal_def Let_def)
qed

theorem third_sample_decides_witness:
  "settled_inserted (snd (lifecycle_run [(example_card True, 200), (example_card True, 400), (example_card True, 600)]
     (snd (lifecycle_start (example_card False) 0 new_card_lifecycle))))"
proof -
  let ?s = "snd (lifecycle_start (example_card False) 0 new_card_lifecycle)"
  have s: "lifecycle_started ?s" "\<not> mount_pending ?s" "different_samples ?s = 0" "next_sample ?s \<le> 200"
    "\<forall>a \<in> {example_card True, example_card True, example_card True}. card_present a \<noteq> settled_inserted ?s"
    by (simp_all add: lifecycle_start_def example_card_def Let_def)
  have times: "unat (200 :: u64) + 200 \<le> unat (400 :: u64)" "unat (400 :: u64) + 200 \<le> unat (600 :: u64)"
    "unat (600 :: u64) < 2 ^ 63" by simp_all
  show ?thesis
    using third_sample_decides [OF s(1-4) times s(5)] by (simp add: split_def Let_def example_card_def)
qed

section \<open>Retention removes the oldest recordings\<close>

definition removed_files :: "retention_call list \<Rightarrow> string list" where
  "removed_files h = concat (map (\<lambda>c. case c of Remove_file path \<Rightarrow> [path] | _ \<Rightarrow> []) h)"

lemma removed_files_simps [simp]:
  "removed_files [] = []" "removed_files (g @ h) = removed_files g @ removed_files h"
  "removed_files (Remove_file path # h) = path # removed_files h" "removed_files (Read_usage # h) = removed_files h"
  "removed_files (List_videos # h) = removed_files h" "removed_files (Request_persistence # h) = removed_files h"
  by (simp_all add: removed_files_def)

lemma prune_files_prefix: "\<exists>k \<le> length paths. removed_files (prune_files env paths h) = removed_files h @ take k paths"
proof (induction env paths h rule: prune_files.induct)
  case (1 env h)
  then show ?case by simp
next
  case (2 env path paths h)
  have "\<exists>k \<le> length paths. removed_files (prune_files env paths g) = removed_files (h @ [Remove_file path]) @ take k paths
      \<Longrightarrow> \<exists>k \<le> length (path # paths). removed_files (prune_files env paths g) = removed_files h @ take k (path # paths)" for g
    by (metis Suc_le_mono append.assoc append_Cons append_Nil length_Cons removed_files_simps(1,2,3) take_Suc_Cons)
  moreover have "\<exists>k \<le> length (path # paths).
      removed_files (h @ [Remove_file path] @ [Read_usage]) = removed_files h @ take k (path # paths)"
    by (intro exI [of _ 1]) simp
  ultimately show ?case using 2 by (auto simp: Let_def split: option.split)
qed

text \<open>
  A retention check removes nothing unless at least 65 per cent of the card are in use, and what it tries to
  remove are the oldest of the regular video files it listed, oldest first, without a gap.
\<close>

theorem retention_removes_oldest_videos:
  assumes "run_retention_check env n = (calls, n')" "removed_files calls \<noteq> []"
  shows "\<exists>total_bytes free_bytes entries k.
    read_usage env [] = Some (total_bytes, free_bytes) \<and> list_videos env [Read_usage] = Some entries \<and>
    over_threshold (total_bytes - free_bytes) total_bytes \<and>
    removed_files calls = take k (map candidate_path (sort_key modification_seconds (filter retained_video entries)))"
proof -
  obtain total_bytes free_bytes where usage: "read_usage env [] = Some (total_bytes, free_bytes)"
    using assms by (cases "read_usage env []") (auto simp: run_retention_check_def Let_def)
  obtain entries where listed: "list_videos env [Read_usage] = Some entries"
    using assms usage by (cases "list_videos env [Read_usage]") (auto simp: run_retention_check_def Let_def)
  define decision where "decision = evaluate_storage_retention total_bytes free_bytes True (n + 1) entries"
  define h where "h = [Read_usage, List_videos] @ (if request_persistence decision then [Request_persistence] else [])"
  have calls: "calls = (if should_prune decision then prune_files env (prune_candidates decision) h else h)"
    using assms(1) usage listed by (auto simp: run_retention_check_def decision_def h_def Let_def)
  have none: "removed_files h = []" by (simp add: h_def)
  then have prune: "should_prune decision" using assms(2) unfolding calls by (cases "should_prune decision") simp_all
  then have over: "over_threshold (total_bytes - free_bytes) total_bytes"
    "prune_candidates decision = map candidate_path (sort_key modification_seconds (filter retained_video entries))"
    by (auto simp: decision_def evaluate_storage_retention_def Let_def split: if_splits)
  obtain k where "removed_files calls = take k (prune_candidates decision)"
    using prune_files_prefix [of "prune_candidates decision" env h] none prune calls by auto
  then show ?thesis using usage listed over by auto
qed

definition example_retention :: retention_env where
  "example_retention =
     \<lparr>read_usage = (\<lambda>h. if h = [] then Some (1000, 300) else Some (1000, 500)),
      list_videos = (\<lambda>_. Some [\<lparr>candidate_path = ''/sd/videos/b.avi'', modification_seconds = 9, regular_file = True\<rparr>,
                              \<lparr>candidate_path = ''/sd/videos/a.AVI'', modification_seconds = 4, regular_file = True\<rparr>]),
      remove_ok = (\<lambda>_ _. True)\<rparr>"

theorem retention_removes_oldest_videos_witness:
  "removed_files (fst (run_retention_check example_retention 0)) = [''/sd/videos/a.AVI''] \<and>
   (\<exists>total_bytes free_bytes. read_usage example_retention [] = Some (total_bytes, free_bytes) \<and>
      over_threshold (total_bytes - free_bytes) total_bytes)"
proof -
  have removed: "removed_files (fst (run_retention_check example_retention 0)) = [''/sd/videos/a.AVI'']" by code_simp
  obtain calls n' where run: "run_retention_check example_retention 0 = (calls, n')" by fastforce
  have "removed_files calls \<noteq> []" using removed run by simp
  from retention_removes_oldest_videos [OF run this] show ?thesis using removed by blast
qed

end
