(* ===== verification/Can_Exercise.thy ===== *)
theory Can_Exercise
  imports Routing Canopen_Service
begin

text \<open>
  The \<open>M942\<close> exercise of the remote digital inputs and outputs (\<open>application/src/runtime/m942_exercise.cpp\<close>) and its
  admission by the TCP worker of \<open>main/transport/tcp_control_adapter.cpp\<close>. The clock and the remote node answer from
  outside, as functions of what has been called.
\<close>

section \<open>The service\<close>

datatype exercise_call =
    Exercise_forward frame
  | Exercise_respond host_identity frame
  | Exercise_clock
  | Exercise_delay u32
  | Exercise_lock
  | Exercise_unlock
  | Exercise_read u8 u16 u8 u32 u64
  | Exercise_write u8 u16 u8 u32 u32 u64

type_synonym exercise_history = "exercise_call list"

record exercise_env =
  exercise_time :: "exercise_history \<Rightarrow> u64"
  remote_input :: "exercise_history \<Rightarrow> u32 option"
  remote_output_accepted :: "exercise_history \<Rightarrow> bool"

record exercise =
  exercise_active :: bool
  exercise_deadline :: u64
  consecutive_zero_reads :: u8

definition new_exercise :: exercise where
  "new_exercise = \<lparr>exercise_active = False, exercise_deadline = 0, consecutive_zero_reads = 0\<rparr>"

type_synonym exercise_state = "exercise \<times> exercise_history"

definition maximum_command_payload_size :: nat where
  "maximum_command_payload_size = 128"

definition maximum_sdo_attempts :: nat where
  "maximum_sdo_attempts = 35"

definition exercise_acknowledgement :: frame where
  "exercise_acknowledgement = \<lparr>ftype = 0xA2, fpayload = octets (''M942 ok (canopen)'' @ [CHR 0x0A])\<rparr>"

definition exercise_submit ::
    "exercise_env \<Rightarrow> host_identity \<Rightarrow> frame \<Rightarrow> bool \<Rightarrow> exercise_state \<Rightarrow> bool \<times> exercise_state" where
  "exercise_submit env host f local_capacity_accepted s =
     (let (x, h) = s; h = h @ [Exercise_forward f] in
      if \<not> local_capacity_accepted \<or> length (fpayload f) > maximum_command_payload_size then (False, x, h)
      else
        let h = h @ [Exercise_respond host exercise_acknowledgement] in
        if exercise_active x then (False, x, h)
        else (True, \<lparr>exercise_active = True, exercise_deadline = exercise_time env h + 8000, consecutive_zero_reads = 0\<rparr>,
              h @ [Exercise_clock]))"

text \<open>A reading of the clock, as the comparison with the deadline that the code makes of it.\<close>

definition before_deadline :: "exercise_env \<Rightarrow> u64 \<Rightarrow> exercise_history \<Rightarrow> bool \<times> exercise_history" where
  "before_deadline env deadline h = (exercise_time env h < deadline, h @ [Exercise_clock])"

definition delay_bounded :: "exercise_env \<Rightarrow> u64 \<Rightarrow> u32 \<Rightarrow> exercise_history \<Rightarrow> exercise_history" where
  "delay_bounded env deadline requested h =
     (let now = exercise_time env h; h = h @ [Exercise_clock] in
      if now \<ge> deadline then h else h @ [Exercise_delay (ucast (min (ucast requested) (deadline - now)))])"

fun read_with_retries :: "exercise_env \<Rightarrow> u64 \<Rightarrow> nat \<Rightarrow> exercise_history \<Rightarrow> u32 option \<times> exercise_history" where
  "read_with_retries env deadline 0 h = (None, h)"
| "read_with_retries env deadline (Suc attempts) h =
     (let (early, h) = before_deadline env deadline h in
      if \<not> early then (None, h)
      else
        let found = remote_input env h; h = h @ [Exercise_read 1 0x6000 1 800 deadline] in
        case found of
          Some v \<Rightarrow> (Some v, h)
        | None \<Rightarrow>
            if attempts = 0 then (None, h)
            else
              let (early, h) = before_deadline env deadline h in
              read_with_retries env deadline attempts (if early then delay_bounded env deadline 10 h else h))"

fun write_with_retries :: "exercise_env \<Rightarrow> u64 \<Rightarrow> u32 \<Rightarrow> nat \<Rightarrow> exercise_history \<Rightarrow> exercise_history" where
  "write_with_retries env deadline v 0 h = h"
| "write_with_retries env deadline v (Suc attempts) h =
     (let (early, h) = before_deadline env deadline h in
      if \<not> early then h
      else
        let accepted = remote_output_accepted env h; h = h @ [Exercise_write 1 0x6001 1 v 800 deadline] in
        if accepted \<or> attempts = 0 then h
        else
          let (early, h) = before_deadline env deadline h in
          write_with_retries env deadline v attempts (if early then delay_bounded env deadline 10 h else h))"

definition output_for_input :: "u32 \<Rightarrow> u8 \<Rightarrow> u32 \<times> u8" where
  "output_for_input input zero_reads =
     (let nibble = input AND 0x0F in
      if nibble = 0
      then let zero_reads = min (zero_reads + 1) 10 in (if zero_reads \<ge> 10 then 0x0F else 0, zero_reads)
      else (nibble OR ((push_bit 1 nibble OR drop_bit 3 (nibble AND 0x08)) AND 0x0F), 0))"

text \<open>The work of a turn under the lock, and the turn: the flag says that the loop goes on.\<close>

definition exercise_transfer :: "exercise_env \<Rightarrow> exercise_state \<Rightarrow> exercise_state" where
  "exercise_transfer env s =
     (let (x, h) = s; deadline = exercise_deadline x;
          (input, h) = read_with_retries env deadline maximum_sdo_attempts h
      in case input of
           None \<Rightarrow> (x, h)
         | Some v \<Rightarrow>
             let (early, h) = before_deadline env deadline h in
             if \<not> early then (x, h)
             else
               let (out, zero_reads) = output_for_input v (consecutive_zero_reads x) in
               (x\<lparr>consecutive_zero_reads := zero_reads\<rparr>, write_with_retries env deadline out maximum_sdo_attempts h))"

definition exercise_cycle :: "exercise_env \<Rightarrow> exercise_state \<Rightarrow> bool \<times> exercise_state" where
  "exercise_cycle env s =
     (let (x, h) = s; (early, h) = before_deadline env (exercise_deadline x) (h @ [Exercise_lock]) in
      if \<not> early then (False, x, h @ [Exercise_unlock])
      else
        let (x, h) = exercise_transfer env (x, h);
            (early, h) = before_deadline env (exercise_deadline x) (h @ [Exercise_unlock])
        in (True, x, if early then delay_bounded env (exercise_deadline x) 100 h else h))"

partial_function (option) exercise_loop :: "exercise_env \<Rightarrow> exercise_state \<Rightarrow> exercise_state option" where
  "exercise_loop env s =
     (let (early, h) = before_deadline env (exercise_deadline (fst s)) (snd s) in
      if \<not> early then Some (fst s\<lparr>exercise_active := False\<rparr>, h)
      else
        let (again, s) = exercise_cycle env (fst s, h) in
        if again then exercise_loop env s else Some (fst s\<lparr>exercise_active := False\<rparr>, snd s))"

definition exercise_run :: "exercise_env \<Rightarrow> exercise_state \<Rightarrow> exercise_state option" where
  "exercise_run env s =
     (let (x, h) = s in
      if \<not> exercise_active x then Some (x, h)
      else
        let (early, h) = before_deadline env (exercise_deadline x) h in
        if \<not> early then Some (x\<lparr>exercise_active := False\<rparr>, h)
        else exercise_loop env (x, delay_bounded env (exercise_deadline x) 500 h))"

section \<open>Admission\<close>

text \<open>
  One worker exists at a time: the shared flag is taken before the command is submitted and given back when it is
  refused or its task cannot be created; the worker gives it back when its run ends. Each command has a service of its
  own.
\<close>

definition admit_exercise ::
    "exercise_env \<Rightarrow> host_identity \<Rightarrow> frame \<Rightarrow> bool \<Rightarrow> bool \<times> exercise_history \<Rightarrow>
     exercise option \<times> bool \<times> exercise_history" where
  "admit_exercise env host f task_created s =
     (let (worker_taken, h) = s;
          (submitted, x, h) = exercise_submit env host f (\<not> worker_taken) (new_exercise, h)
      in if \<not> submitted then (None, worker_taken, h)
         else if \<not> task_created then (None, False, h)
         else (Some x, True, h))"

section \<open>Deadline and lock\<close>

definition sdo_locked :: "exercise_history \<Rightarrow> bool" where
  "sdo_locked h = foldl (\<lambda>held c. case c of Exercise_lock \<Rightarrow> True | Exercise_unlock \<Rightarrow> False | _ \<Rightarrow> held) False h"

text \<open>
  Which call may follow a history: a remote one only under the lock and right after a clock reading before the deadline,
  a delay only right after a reading that leaves that much time.
\<close>

definition call_allowed :: "exercise_env \<Rightarrow> u64 \<Rightarrow> exercise_history \<Rightarrow> exercise_call \<Rightarrow> bool" where
  "call_allowed env deadline h c =
     (let read_before = h \<noteq> [] \<and> last h = Exercise_clock \<and> exercise_time env (butlast h) < deadline in
      case c of
        Exercise_read node i sub timeout limit \<Rightarrow> read_before \<and> sdo_locked h \<and> limit = deadline
      | Exercise_write node i sub v timeout limit \<Rightarrow> read_before \<and> sdo_locked h \<and> limit = deadline
      | Exercise_delay t \<Rightarrow> read_before \<and> unat (exercise_time env (butlast h)) + unat t \<le> unat deadline
      | _ \<Rightarrow> True)"

definition deadline_kept :: "exercise_env \<Rightarrow> u64 \<Rightarrow> exercise_history \<Rightarrow> exercise_history \<Rightarrow> bool" where
  "deadline_kept env deadline start h \<longleftrightarrow>
     take (length start) h = start \<and>
     (\<forall>i. length start \<le> i \<longrightarrow> i < length h \<longrightarrow> call_allowed env deadline (take i h) (h ! i))"

lemma sdo_locked_simps [simp]:
  "sdo_locked []  = False" "sdo_locked (h @ [Exercise_lock])" "\<not> sdo_locked (h @ [Exercise_unlock])"
  "sdo_locked (h @ [Exercise_clock]) = sdo_locked h" "sdo_locked (h @ [Exercise_delay t]) = sdo_locked h"
  "sdo_locked (h @ [Exercise_read n i s t l]) = sdo_locked h" "sdo_locked (h @ [Exercise_write n i s v t l]) = sdo_locked h"
  by (simp_all add: sdo_locked_def)

lemma sdo_locked_append: "sdo_locked (h @ g) =
    foldl (\<lambda>held c. case c of Exercise_lock \<Rightarrow> True | Exercise_unlock \<Rightarrow> False | _ \<Rightarrow> held) (sdo_locked h) g"
  by (simp add: sdo_locked_def)

lemma deadline_kept_refl [simp]: "deadline_kept env d h h"
  by (simp add: deadline_kept_def)

lemma deadline_kept_snoc:
  assumes "deadline_kept env d g h" "call_allowed env d h c"
  shows "deadline_kept env d g (h @ [c])"
proof -
  have "length g \<le> length h" using assms(1) by (metis deadline_kept_def length_take min.absorb_iff2 min.commute nat_le_linear take_all)
  then show ?thesis using assms by (auto simp: deadline_kept_def nth_append less_Suc_eq)
qed

lemma deadline_kept_silent [simp]:
  assumes "deadline_kept env d g h"
  shows "deadline_kept env d g (h @ [Exercise_clock])" "deadline_kept env d g (h @ [Exercise_lock])"
    "deadline_kept env d g (h @ [Exercise_unlock])"
  using deadline_kept_snoc [OF assms] by (simp_all add: call_allowed_def)

lemma unat_ucast_up: "unat (ucast (w :: u32) :: u64) = unat w"
  using unsigned_less [of w, where 'a = nat] by (simp add: unsigned_ucast_eq take_bit_nat_eq_self)

lemma unat_ucast_down: "unat (t :: u64) \<le> unat (w :: u32) \<Longrightarrow> unat (ucast t :: u32) = unat t"
  using unsigned_less [of w, where 'a = nat] by (simp add: unsigned_ucast_eq take_bit_nat_eq_self)

lemma delay_bounded_kept:
  assumes "deadline_kept env d g h"
  shows "deadline_kept env d g (delay_bounded env d requested h)"
proof (cases "exercise_time env h < d")
  case True
  define t where "t = min (ucast requested :: u64) (d - exercise_time env h)"
  have "unat t \<le> unat requested" by (simp add: t_def min_def word_le_nat_alt flip: unat_ucast_up)
  then have "unat (ucast t :: u32) = unat t" by (rule unat_ucast_down)
  moreover have "unat t \<le> unat (d - exercise_time env h)" by (simp add: t_def min_def word_le_nat_alt)
  moreover have "unat (d - exercise_time env h) = unat d - unat (exercise_time env h)"
    using True by (simp add: unat_sub less_imp_le)
  ultimately have "call_allowed env d (h @ [Exercise_clock]) (Exercise_delay (ucast t :: u32))"
    using True by (simp add: call_allowed_def word_less_nat_alt)
  then show ?thesis
    using True deadline_kept_snoc [OF deadline_kept_silent(1) [OF assms]] by (simp add: delay_bounded_def Let_def t_def not_le)
qed (simp add: delay_bounded_def assms not_less)

lemma delay_bounded_locked [simp]: "sdo_locked (delay_bounded env d requested h) = sdo_locked h"
  by (simp add: delay_bounded_def Let_def sdo_locked_append)

lemma remote_call_kept:
  assumes "deadline_kept env d g h" "exercise_time env h < d" "sdo_locked h"
  shows "deadline_kept env d g ((h @ [Exercise_clock]) @ [Exercise_read n i s t d])"
    "deadline_kept env d g ((h @ [Exercise_clock]) @ [Exercise_write n i s v t d])"
  by (rule deadline_kept_snoc [OF deadline_kept_silent(1) [OF assms(1)]]; simp add: call_allowed_def assms)+

lemma read_with_retries_kept:
  "deadline_kept env d g h \<Longrightarrow> sdo_locked h \<Longrightarrow>
   deadline_kept env d g (snd (read_with_retries env d n h)) \<and> sdo_locked (snd (read_with_retries env d n h))"
proof (induction n arbitrary: h)
  case (Suc n)
  note kept = remote_call_kept(1) [OF Suc.prems(1) _ Suc.prems(2)]
  show ?case
    using Suc.IH kept Suc.prems
    by (auto simp: before_deadline_def Let_def delay_bounded_kept simp del: append_assoc split: option.splits)
qed simp

lemma write_with_retries_kept:
  "deadline_kept env d g h \<Longrightarrow> sdo_locked h \<Longrightarrow>
   deadline_kept env d g (write_with_retries env d v n h) \<and> sdo_locked (write_with_retries env d v n h)"
proof (induction n arbitrary: h)
  case (Suc n)
  note kept = remote_call_kept(2) [OF Suc.prems(1) _ Suc.prems(2)]
  show ?case
    using Suc.IH kept Suc.prems by (auto simp: before_deadline_def Let_def delay_bounded_kept simp del: append_assoc)
qed simp

lemma exercise_transfer_kept:
  assumes "exercise_transfer env (x, h) = (x', h')" "deadline_kept env (exercise_deadline x) g h" "sdo_locked h"
  shows "deadline_kept env (exercise_deadline x) g h' \<and> exercise_deadline x' = exercise_deadline x"
proof -
  let ?d = "exercise_deadline x"
  obtain input k where r: "read_with_retries env ?d maximum_sdo_attempts h = (input, k)" by fastforce
  have k: "deadline_kept env ?d g k" "sdo_locked k"
    using read_with_retries_kept [OF assms(2,3), of maximum_sdo_attempts] r by simp_all
  have "deadline_kept env ?d g (write_with_retries env ?d v n (k @ [Exercise_clock]))" for v n
    using write_with_retries_kept [of env ?d g "k @ [Exercise_clock]"] k by simp
  with assms(1) r k show ?thesis
    by (auto simp: exercise_transfer_def before_deadline_def Let_def split: option.splits if_splits prod.splits)
qed

lemma exercise_cycle_kept:
  assumes "exercise_cycle env (x, h) = (again, x', h')" "deadline_kept env (exercise_deadline x) g h"
  shows "deadline_kept env (exercise_deadline x) g h' \<and> \<not> sdo_locked h' \<and> exercise_deadline x' = exercise_deadline x"
proof -
  let ?h = "(h @ [Exercise_lock]) @ [Exercise_clock]"
  have start: "deadline_kept env (exercise_deadline x) g ?h" "sdo_locked ?h"
    using assms(2) by (simp_all only: deadline_kept_silent sdo_locked_simps)
  obtain y k where t: "exercise_transfer env (x, ?h) = (y, k)" by fastforce
  show ?thesis
    using assms(1) start t exercise_transfer_kept [OF t start]
    by (auto simp: exercise_cycle_def before_deadline_def Let_def delay_bounded_kept simp del: append_assoc split: if_splits)
qed

text \<open>The clock never goes back, and before the deadline a delay moves it on.\<close>

definition clock_moves :: "exercise_env \<Rightarrow> u64 \<Rightarrow> bool" where
  "clock_moves env deadline \<longleftrightarrow>
     (\<forall>h. (\<forall>c. exercise_time env h \<le> exercise_time env (h @ [c])) \<and>
          (exercise_time env h < deadline \<longrightarrow>
             (\<forall>t. 0 < unat t \<longrightarrow> exercise_time env h < exercise_time env (h @ [Exercise_delay t]))))"

lemma clock_moves_call:
  assumes "clock_moves env d"
  shows "exercise_time env h \<le> exercise_time env (h @ [c])"
    and "exercise_time env h < d \<Longrightarrow> 0 < unat t \<Longrightarrow> exercise_time env h < exercise_time env (h @ [Exercise_delay t])"
  using assms by (simp_all add: clock_moves_def)

lemma clock_moves_append:
  assumes "clock_moves env d"
  shows "exercise_time env h \<le> exercise_time env (h @ g)"
proof (induction g rule: rev_induct)
  case (snoc c g)
  have "exercise_time env (h @ g) \<le> exercise_time env ((h @ g) @ [c])" by (rule clock_moves_call [OF assms])
  with snoc show ?case by simp
qed simp

lemma positive_delay:
  fixes a b :: u64
  assumes "a < b" "0 < (requested :: u32)"
  shows "0 < unat (ucast (min (ucast requested) (b - a)) :: u32)"
proof -
  let ?t = "min (ucast requested) (b - a)"
  have "0 < unat (b - a)" using assms(1) by (simp add: unat_sub less_imp_le word_less_nat_alt)
  then have "0 < unat ?t" "unat ?t \<le> unat requested"
    using assms(2) unat_ucast_up [of requested] by (auto simp: min_def word_le_nat_alt word_less_nat_alt)
  then show ?thesis using unat_ucast_down [of ?t requested] by simp
qed

lemma delay_bounded_moves:
  assumes "clock_moves env d" "0 < requested"
  shows "exercise_time env h < exercise_time env (delay_bounded env d requested h) \<or>
         d \<le> exercise_time env (delay_bounded env d requested h)"
proof (cases "exercise_time env h < d")
  case True
  let ?g = "h @ [Exercise_clock]" and ?t = "ucast (min (ucast requested) (d - exercise_time env h)) :: u32"
  have "exercise_time env h \<le> exercise_time env ?g" by (rule clock_moves_call [OF assms(1)])
  moreover have "exercise_time env ?g \<le> exercise_time env (?g @ [Exercise_delay ?t])" by (rule clock_moves_call [OF assms(1)])
  moreover have "exercise_time env ?g < d \<Longrightarrow> exercise_time env ?g < exercise_time env (?g @ [Exercise_delay ?t])"
    by (rule clock_moves_call(2) [OF assms(1) _ positive_delay [OF True assms(2)]])
  ultimately have "exercise_time env h < exercise_time env (?g @ [Exercise_delay ?t]) \<or> d \<le> exercise_time env (?g @ [Exercise_delay ?t])"
    by (meson le_less_trans less_le_trans not_le)
  then show ?thesis using True by (simp add: delay_bounded_def Let_def not_le [symmetric])
next
  case False
  then show ?thesis
    using clock_moves_call(1) [OF assms(1), of h Exercise_clock] by (auto simp: delay_bounded_def not_less)
qed

lemma extends_moves:
  assumes "clock_moves env d" "take (length h) k = h"
  shows "exercise_time env h \<le> exercise_time env k"
  using clock_moves_append [OF assms(1), of h "drop (length h) k"] assms(2) by (metis append_take_drop_id)

lemma exercise_cycle_moves:
  assumes "clock_moves env (exercise_deadline x)" "exercise_cycle env (x, h) = (True, x', h')"
  shows "exercise_time env h < exercise_time env h' \<or> exercise_deadline x \<le> exercise_time env h'"
proof -
  let ?h = "(h @ [Exercise_lock]) @ [Exercise_clock]" and ?d = "exercise_deadline x"
  obtain y k where t: "exercise_transfer env (x, ?h) = (y, k)" by fastforce
  define e where "e = (k @ [Exercise_unlock]) @ [Exercise_clock]"
  have "deadline_kept env ?d h ?h" "sdo_locked ?h"
    by (simp_all only: deadline_kept_silent deadline_kept_refl sdo_locked_simps)
  then have y: "deadline_kept env ?d h k" "exercise_deadline y = ?d" using exercise_transfer_kept [OF t] by auto
  then have "deadline_kept env ?d h e" by (simp only: e_def deadline_kept_silent)
  then have later: "exercise_time env h \<le> exercise_time env e" using assms(1) extends_moves by (simp add: deadline_kept_def)
  have "h' = (if exercise_time env (k @ [Exercise_unlock]) < ?d then delay_bounded env ?d 100 e else e)"
    "exercise_time env (k @ [Exercise_unlock]) \<le> exercise_time env e"
    using assms t y clock_moves_call(1) [OF assms(1), of "k @ [Exercise_unlock]" Exercise_clock]
    by (auto simp: exercise_cycle_def before_deadline_def e_def simp del: append_assoc split: if_splits)
  with later delay_bounded_moves [OF assms(1), of 100 e] show ?thesis by (auto simp: not_less)
qed

lemma exercise_loop_ends:
  assumes "clock_moves env (exercise_deadline x)" "deadline_kept env (exercise_deadline x) g h" "\<not> sdo_locked h"
  shows "\<exists>x' h'. exercise_loop env (x, h) = Some (x', h') \<and> \<not> exercise_active x' \<and> \<not> sdo_locked h' \<and>
           deadline_kept env (exercise_deadline x) g h'"
  using assms
proof (induction "unat (exercise_deadline x) - unat (exercise_time env h)" arbitrary: x h rule: less_induct)
  case less
  let ?h = "h @ [Exercise_clock]" and ?d = "exercise_deadline x"
  show ?case
  proof (cases "exercise_time env h < ?d")
    case True
    obtain again y k where c: "exercise_cycle env (x, ?h) = (again, y, k)" by (metis prod.exhaust)
    have k: "deadline_kept env ?d g k" "\<not> sdo_locked k" "exercise_deadline y = ?d"
      using exercise_cycle_kept [OF c, of g] less.prems by auto
    show ?thesis
    proof (cases again)
      case True
      have "exercise_time env h \<le> exercise_time env ?h" by (rule clock_moves_call [OF less.prems(1)])
      moreover have "exercise_time env ?h < exercise_time env k \<or> ?d \<le> exercise_time env k"
        using exercise_cycle_moves [OF less.prems(1), of ?h y k] c True by simp
      ultimately consider "exercise_time env h < exercise_time env k" | "?d \<le> exercise_time env k"
        using order_le_less_trans by blast
      then have "\<exists>x' h'. exercise_loop env (y, k) = Some (x', h') \<and> \<not> exercise_active x' \<and> \<not> sdo_locked h' \<and>
          deadline_kept env (exercise_deadline y) g h'"
      proof cases
        case 1
        then show ?thesis
          using less.hyps [of y k] less.prems(1) k \<open>exercise_time env h < ?d\<close> by (simp add: word_less_nat_alt diff_less_mono2)
      next
        case 2
        then show ?thesis using k by (subst exercise_loop.simps) (simp add: before_deadline_def not_less [symmetric])
      qed
      then show ?thesis
        using True c \<open>exercise_time env h < ?d\<close> k by (subst exercise_loop.simps) (simp add: before_deadline_def)
    next
      case False
      then show ?thesis
        using c \<open>exercise_time env h < ?d\<close> k by (subst exercise_loop.simps) (simp add: before_deadline_def)
    qed
  next
    case False
    then show ?thesis using less.prems by (subst exercise_loop.simps) (simp add: before_deadline_def)
  qed
qed

text \<open>
  C40. An exercise that runs ends, once the clock passes with the delays it asks for: it reads and writes the remote node
  only under the lock and right after a clock reading before its deadline, waits no longer than to the deadline, and
  leaves the lock free.
\<close>

theorem exercise_keeps_deadline:
  assumes "clock_moves env (exercise_deadline x)" "exercise_active x" "\<not> sdo_locked h"
  shows "\<exists>x' h'. exercise_run env (x, h) = Some (x', h') \<and> \<not> exercise_active x' \<and> \<not> sdo_locked h' \<and>
           deadline_kept env (exercise_deadline x) h h'"
proof -
  let ?k = "delay_bounded env (exercise_deadline x) 500 (h @ [Exercise_clock])"
  have "deadline_kept env (exercise_deadline x) h ?k" "\<not> sdo_locked ?k"
    using assms(3) by (simp_all add: delay_bounded_kept)
  from exercise_loop_ends [OF assms(1) this] assms(2,3) show ?thesis by (simp add: exercise_run_def before_deadline_def)
qed

definition example_delays :: "exercise_history \<Rightarrow> nat" where
  "example_delays h = sum_list (map (\<lambda>c. case c of Exercise_delay t \<Rightarrow> unat t | _ \<Rightarrow> 0) h)"

definition example_exercise_env :: exercise_env where
  "example_exercise_env =
     \<lparr>exercise_time = (\<lambda>h. of_nat (min (example_delays h) 9000)), remote_input = (\<lambda>h. Some 5),
      remote_output_accepted = (\<lambda>h. False)\<rparr>"

lemma example_time: "unat (exercise_time example_exercise_env h) = min (example_delays h) 9000"
  by (simp add: example_exercise_env_def unat_of_nat)

lemma example_clock_moves: "clock_moves example_exercise_env 8000"
proof -
  have "example_delays (h @ [c]) = example_delays h + (case c of Exercise_delay t \<Rightarrow> unat t | _ \<Rightarrow> 0)" for h c
    by (simp add: example_delays_def)
  then show ?thesis
    unfolding clock_moves_def word_le_nat_alt word_less_nat_alt by (auto simp: example_time)
qed

theorem exercise_keeps_deadline_witness:
  "\<exists>x' h'. exercise_run example_exercise_env (\<lparr>exercise_active = True, exercise_deadline = 8000, consecutive_zero_reads = 0\<rparr>, []) =
     Some (x', h') \<and> \<not> exercise_active x' \<and> deadline_kept example_exercise_env 8000 [] h'"
  using exercise_keeps_deadline [of example_exercise_env "\<lparr>exercise_active = True, exercise_deadline = 8000, consecutive_zero_reads = 0\<rparr>" "[]"]
    example_clock_moves by auto

section \<open>A remote write that is never confirmed\<close>

definition remote_writes :: "exercise_history \<Rightarrow> nat" where
  "remote_writes h = length (filter (\<lambda>c. case c of Exercise_write n i s v t l \<Rightarrow> True | _ \<Rightarrow> False) h)"

text \<open>
  The CAN service reports every write as failed, acknowledged or not (theorem
  \<open>write_remote_fails_on_acknowledgement\<close> of \<open>Canopen_Service\<close>), so every output is written thirty-five times.
\<close>

lemma unconfirmed_writes_repeat:
  assumes "\<forall>h. exercise_time env h < d" "\<forall>h. \<not> remote_output_accepted env h"
  shows "remote_writes (write_with_retries env d v n h) = remote_writes h + n"
  using assms
  by (induction n arbitrary: h) (auto simp: before_deadline_def delay_bounded_def Let_def remote_writes_def not_le)

end
