(* ===== verification/Diagnostic_Log.thy ===== *)
theory Diagnostic_Log
  imports Transfer_Paths Number_Text
begin

text \<open>
  The diagnostic log: capture of log messages (\<open>application/src/diagnostics/diagnostic_capture.cpp\<close>), the log file
  with its sessions, rotation and shutdown (\<open>diagnostic_log_writer.cpp\<close>), the serial mirror
  (\<open>serial_diagnostic_log.cpp\<close>), and how the card task of \<open>main/storage/sd_card_adapter.cpp\<close> drives them. The files
  answer from outside.
\<close>

section \<open>Capture\<close>

text \<open>Removal of the ANSI sequences: \<open>ESC [ ... final\<close> and the two-byte ones.\<close>

fun skip_control :: "bytes \<Rightarrow> bytes" where
  "skip_control [] = []"
| "skip_control (b # bs) = (if 0x40 \<le> b \<and> b \<le> 0x7E then bs else skip_control bs)"

lemma skip_control_shorter: "length (skip_control bs) \<le> length bs"
  by (induction bs) auto

function remove_ansi :: "bytes \<Rightarrow> bytes" where
  "remove_ansi text =
     (case text of
        [] \<Rightarrow> []
      | b # rest \<Rightarrow>
          if b \<noteq> 0x1B then b # remove_ansi rest
          else case rest of
              [] \<Rightarrow> []
            | c # rest \<Rightarrow> if c \<noteq> octet CHR ''['' then remove_ansi rest else remove_ansi (skip_control rest))"
  by pat_completeness auto
termination
  by (relation "measure length") (auto intro: le_imp_less_Suc le_SucI skip_control_shorter)

declare remove_ansi.simps [simp del]

record diagnostic_time =
  dt_year :: u16
  dt_month :: u8
  dt_day :: u8
  dt_hour :: u8
  dt_minute :: u8
  dt_second :: u8
  dt_millisecond :: u16
  dt_uptime :: u64

definition format_diagnostic_timestamp :: "diagnostic_time \<Rightarrow> string" where
  "format_diagnostic_timestamp t =
     (let stamp =
        (if dt_year t \<ge> 2020
         then padded_decimal 4 (unat (dt_year t)) @ ''-'' @ padded_decimal 2 (unat (dt_month t)) @ ''-'' @
              padded_decimal 2 (unat (dt_day t)) @ '' '' @ padded_decimal 2 (unat (dt_hour t)) @ '':'' @
              padded_decimal 2 (unat (dt_minute t)) @ '':'' @ padded_decimal 2 (unat (dt_second t)) @ ''.'' @
              padded_decimal 3 (unat (dt_millisecond t))
         else ''uptime '' @ decimal (unat (dt_uptime t)) @ '' ms'')
      in if length stamp \<ge> 40 then [] else stamp)"

record diagnostic_capture =
  pending_records :: "bytes list"
  logging_active :: bool

definition maximum_printed_size :: nat where
  "maximum_printed_size = 511"

text \<open>What the port answers: whether a record buffer is there, and the time. Results: the printed octets and the length.\<close>

definition capture ::
    "bytes \<Rightarrow> bool \<Rightarrow> bool \<Rightarrow> bool \<Rightarrow> diagnostic_time \<Rightarrow> diagnostic_capture \<Rightarrow> (bytes \<times> nat) \<times> diagnostic_capture" where
  "capture message recursive low_stack buffer_available now c =
     (let printed = take maximum_printed_size message; result = (printed, length message) in
      if \<not> logging_active c \<or> recursive \<or> low_stack \<or> length (pending_records c) \<ge> 48 \<or> \<not> buffer_available
      then (result, c)
      else (result, c\<lparr>pending_records := pending_records c @
              [octets (''['' @ format_diagnostic_timestamp now @ ''] '') @ remove_ansi printed]\<rparr>))"

definition take_pending :: "diagnostic_capture \<Rightarrow> bytes option \<times> diagnostic_capture" where
  "take_pending c =
     (case pending_records c of [] \<Rightarrow> (None, c) | r # rs \<Rightarrow> (Some r, c\<lparr>pending_records := rs\<rparr>))"

section \<open>The log file\<close>

datatype log_call =
  Log_open string | Log_write bytes | Log_flush | Log_close | Log_remove string | Log_rename string string

record log_env =
  log_opened :: "log_call list \<Rightarrow> u64 option"
  log_written :: "log_call list \<Rightarrow> bytes \<Rightarrow> nat"

record log_writer =
  tracked_size :: u64
  last_flush :: u64
  shutdown_started :: u64
  log_active :: bool
  shutting_down :: bool

definition new_log_writer :: log_writer where
  "new_log_writer = \<lparr>tracked_size = 0, last_flush = 0, shutdown_started = 0, log_active = False, shutting_down = False\<rparr>"

definition log_path :: string where
  "log_path = physical_sd_path ''/.logs/GeneralInfo.log''"

definition first_rotated_path :: string where
  "first_rotated_path = physical_sd_path ''/.logs/GeneralInfo.log.1''"

definition second_rotated_path :: string where
  "second_rotated_path = physical_sd_path ''/.logs/GeneralInfo.log.2''"

type_synonym log_state = "log_writer \<times> log_call list"

definition log_put :: "log_env \<Rightarrow> bytes \<Rightarrow> log_state \<Rightarrow> log_state" where
  "log_put env record s =
     (fst s\<lparr>tracked_size := tracked_size (fst s) + of_nat (log_written env (snd s) record)\<rparr>, snd s @ [Log_write record])"

definition write_marker :: "log_env \<Rightarrow> string \<Rightarrow> diagnostic_time \<Rightarrow> log_state \<Rightarrow> log_state" where
  "write_marker env label now s =
     (let s = log_put env (octets (''===== '' @ label @ '' ['' @ format_diagnostic_timestamp now @ ''] ====='' @
                [CHR 0x0D, CHR 0x0A])) s
      in (fst s, snd s @ [Log_flush]))"

definition open_session :: "log_env \<Rightarrow> u64 \<Rightarrow> diagnostic_time \<Rightarrow> log_state \<Rightarrow> bool \<times> log_state" where
  "open_session env now_milliseconds now s =
     (let (w, h) = s in
      case log_opened env h of
        None \<Rightarrow> (False, w\<lparr>log_active := False\<rparr>, h @ [Log_open log_path])
      | Some bytes_there \<Rightarrow>
          (True, write_marker env ''log session start'' now
             (w\<lparr>tracked_size := bytes_there, last_flush := now_milliseconds, shutting_down := False, log_active := True\<rparr>,
              h @ [Log_open log_path])))"

definition system_time_synced :: "log_env \<Rightarrow> diagnostic_time \<Rightarrow> log_state \<Rightarrow> log_state" where
  "system_time_synced env now s = (if log_active (fst s) then write_marker env ''system time synced'' now s else s)"

definition rotate_log :: "log_env \<Rightarrow> log_state \<Rightarrow> bool \<times> log_state" where
  "rotate_log env s =
     (let (w, h) = s;
          h = h @ [Log_close, Log_remove second_rotated_path, Log_rename first_rotated_path second_rotated_path,
                   Log_rename log_path first_rotated_path]
      in case log_opened env h of
           None \<Rightarrow> (False, w\<lparr>log_active := False\<rparr>, h @ [Log_open log_path])
         | Some bytes_there \<Rightarrow> (True, w\<lparr>tracked_size := bytes_there\<rparr>, h @ [Log_open log_path]))"

definition write_log_record :: "log_env \<Rightarrow> bytes \<Rightarrow> log_state \<Rightarrow> log_state" where
  "write_log_record env record s =
     (if \<not> log_active (fst s) then s
      else if tracked_size (fst s) + of_nat (length record) > 0x300000
      then let (rotated, s) = rotate_log env s in if rotated then log_put env record s else s
      else log_put env record s)"

definition log_poll :: "u64 \<Rightarrow> log_state \<Rightarrow> log_state" where
  "log_poll now s =
     (if \<not> log_active (fst s) \<or> now - last_flush (fst s) \<le> 1990 then s
      else (fst s\<lparr>last_flush := now\<rparr>, snd s @ [Log_flush]))"

definition flush_and_close :: "log_state \<Rightarrow> log_state" where
  "flush_and_close s =
     (let (w, h) = s
      in (w\<lparr>log_active := False, shutting_down := False\<rparr>, if log_active w then h @ [Log_flush, Log_close] else h))"

definition begin_shutdown :: "u64 \<Rightarrow> log_state \<Rightarrow> log_state" where
  "begin_shutdown now s = (fst s\<lparr>shutting_down := True, shutdown_started := now\<rparr>, snd s)"

definition poll_shutdown :: "log_env \<Rightarrow> u64 \<Rightarrow> log_state \<times> diagnostic_capture \<Rightarrow> log_state \<times> diagnostic_capture" where
  "poll_shutdown env now state =
     (let (s, c) = state in
      if \<not> shutting_down (fst s) then (s, c)
      else if now - shutdown_started (fst s) \<ge> 5000 then (flush_and_close s, c\<lparr>pending_records := []\<rparr>)
      else case take_pending c of
          (Some record, c) \<Rightarrow> (write_log_record env record s, c)
        | (None, c) \<Rightarrow> (flush_and_close s, c))"

section \<open>The serial mirror\<close>

datatype mirror_call = Mirror_open string | Mirror_write bytes | Mirror_flush | Mirror_close

record mirror_env =
  mirror_opened :: "mirror_call list \<Rightarrow> u64 option"
  mirror_written :: "mirror_call list \<Rightarrow> bytes \<Rightarrow> nat"

record mirror =
  mirror_active :: bool
  mirror_size :: u64
  dropped_records :: u64

definition new_mirror :: mirror where
  "new_mirror = \<lparr>mirror_active = False, mirror_size = 0, dropped_records = 0\<rparr>"

type_synonym mirror_state = "mirror \<times> mirror_call list"

definition serial_diagnostic_log_maximum_size :: u64 where
  "serial_diagnostic_log_maximum_size = 384 * 1024"

definition serial_log_path :: string where
  "serial_log_path = physical_sd_path ''/serial.log''"

definition mirror_disable :: "mirror_state \<Rightarrow> mirror_state" where
  "mirror_disable s =
     (fst s\<lparr>mirror_active := False\<rparr>, if mirror_active (fst s) then snd s @ [Mirror_close] else snd s)"

definition mirror_drop :: "mirror_state \<Rightarrow> mirror_state" where
  "mirror_drop s = mirror_disable (fst s\<lparr>dropped_records := dropped_records (fst s) + 1\<rparr>, snd s)"

definition mirror_append :: "mirror_env \<Rightarrow> bytes \<Rightarrow> mirror_state \<Rightarrow> mirror_state" where
  "mirror_append env record s =
     (let (m, h) = s in
      if mirror_size m > serial_diagnostic_log_maximum_size \<or>
         of_nat (length record) > serial_diagnostic_log_maximum_size - mirror_size m
      then mirror_drop (m, h)
      else
        let written = mirror_written env h record;
            m = m\<lparr>mirror_size := mirror_size m + of_nat written\<rparr>;
            h = h @ [Mirror_write record]
        in if written \<noteq> length record then mirror_drop (m, h) else mirror_disable (m, h @ [Mirror_flush]))"

definition mirror_write_record :: "mirror_env \<Rightarrow> bytes \<Rightarrow> mirror_state \<Rightarrow> mirror_state" where
  "mirror_write_record env record s =
     (let (m, h) = s in
      if record = [] then s
      else if mirror_active m then mirror_append env record s
      else case mirror_opened env h of
          None \<Rightarrow> (m, h @ [Mirror_open serial_log_path])
        | Some existing \<Rightarrow>
            mirror_append env record (m\<lparr>mirror_size := existing, mirror_active := True\<rparr>, h @ [Mirror_open serial_log_path]))"

text \<open>The adapter: a record is mirrored while the card is mounted.\<close>

definition mirror_record :: "mirror_env \<Rightarrow> bool \<Rightarrow> bytes \<Rightarrow> mirror_state \<Rightarrow> mirror_state" where
  "mirror_record env mounted record s = (if mounted then mirror_write_record env record s else mirror_disable s)"

section \<open>The card task\<close>

text \<open>
  Draining takes every pending record to the log and to its mirror; the removal of the card calls the shutdown once,
  with a time five seconds ahead.
\<close>

definition drain_captured ::
    "log_env \<Rightarrow> mirror_env \<Rightarrow> bool \<Rightarrow> log_state \<times> mirror_state \<times> diagnostic_capture \<Rightarrow>
     log_state \<times> mirror_state \<times> diagnostic_capture" where
  "drain_captured env mirror mounted state =
     (let (s, m, c) = state
      in (fold (write_log_record env) (pending_records c) s, fold (mirror_record mirror mounted) (pending_records c) m,
          c\<lparr>pending_records := []\<rparr>))"

definition stop_and_drain_logging ::
    "log_env \<Rightarrow> u64 \<Rightarrow> u64 \<Rightarrow> log_state \<times> diagnostic_capture \<Rightarrow> log_state \<times> diagnostic_capture" where
  "stop_and_drain_logging env now later state =
     (let (s, c) = state in poll_shutdown env (later + 5000) (begin_shutdown now s, c))"

section \<open>Bounds and losses\<close>

definition log_writes :: "log_call list \<Rightarrow> bytes list" where
  "log_writes h = concat (map (\<lambda>c. case c of Log_write b \<Rightarrow> [b] | _ \<Rightarrow> []) h)"

lemma log_writes_simps [simp]:
  "log_writes [] = []" "log_writes (g @ h) = log_writes g @ log_writes h" "log_writes (Log_write b # h) = b # log_writes h"
  "log_writes (Log_flush # h) = log_writes h" "log_writes (Log_close # h) = log_writes h"
  "log_writes (Log_open p # h) = log_writes h" "log_writes (Log_remove p # h) = log_writes h"
  "log_writes (Log_rename p q # h) = log_writes h"
  by (simp_all add: log_writes_def)

text \<open>
  Stopping the logging at the removal of a card writes none of the records that are waiting: the shutdown is
  asked with a time past its limit, so it closes the file and throws them away.
\<close>

theorem removal_discards_pending_records:
  assumes "unat now \<le> unat later" "unat later < 2 ^ 63"
    and "stop_and_drain_logging env now later ((w, h), c) = ((w', h'), c')"
  shows "log_writes h' = log_writes h \<and> pending_records c' = [] \<and> \<not> log_active w'"
proof -
  have "unat (later + 5000 - now) = unat later + 5000 - unat now"
    using assms(1,2) by (simp add: unat_sub word_le_nat_alt unat_add_lem [THEN iffD1])
  then have "later + 5000 - now \<ge> 5000" using assms(1) by (simp add: word_le_nat_alt)
  then show ?thesis
    using assms(3)
    by (auto simp: stop_and_drain_logging_def poll_shutdown_def begin_shutdown_def flush_and_close_def Let_def split: if_splits)
qed

lemma bounded_sum:
  fixes x :: u64
  assumes "x + of_nat n \<le> 0x300000" "x \<le> 0x300000" "n \<le> 0x300000" "m \<le> n"
  shows "x + of_nat m \<le> 0x300000"
proof -
  have small: "unat (of_nat n :: u64) = n" "unat (of_nat m :: u64) = m" using assms(3,4) by (simp_all add: unat_of_nat)
  have "unat x + n < 2 ^ 64" using assms(2,3) by (simp add: word_le_nat_alt)
  then have "unat (x + of_nat n) = unat x + n" "unat (x + of_nat m) = unat x + m"
    using assms(4) small by (simp_all add: unat_add_lem [THEN iffD1])
  then show ?thesis using assms(1,4) by (simp add: word_le_nat_alt)
qed

lemma write_record_bounded:
  assumes "\<forall>h b. log_written env h b \<le> length b" "\<forall>h. log_opened env h \<in> {None, Some 0}"
    and "tracked_size (fst s) \<le> 0x300000" "length record \<le> 0x300000"
  shows "tracked_size (fst (write_log_record env record s)) \<le> 0x300000"
proof (cases "log_active (fst s) \<and> tracked_size (fst s) + of_nat (length record) > 0x300000")
  case True
  have opened: "log_opened env g = Some n \<Longrightarrow> n = 0" for g n using assms(2) by (metis emptyE insertE option.distinct(1) option.inject)
  obtain rotated t where rotate: "rotate_log env s = (rotated, t)" by (cases "rotate_log env s")
  have "tracked_size (fst t) = (if rotated then 0 else tracked_size (fst s))"
    using rotate by (auto simp: rotate_log_def Let_def split: prod.splits option.splits dest: opened)
  moreover have "(0 :: u64) + of_nat (log_written env (snd t) record) \<le> 0x300000"
    by (rule bounded_sum [of _ "length record"]) (use assms(1,4) in \<open>auto simp: word_le_nat_alt unat_of_nat\<close>)
  ultimately show ?thesis
    using True rotate assms(3) by (auto simp: write_log_record_def log_put_def)
next
  case False
  show ?thesis
  proof (cases "log_active (fst s)")
    case True
    with False have room: "tracked_size (fst s) + of_nat (length record) \<le> 0x300000" by (simp add: not_less)
    have "tracked_size (fst s) + of_nat (log_written env (snd s) record) \<le> 0x300000"
      using bounded_sum [OF room assms(3,4)] assms(1) by simp
    then show ?thesis using True room by (simp add: write_log_record_def log_put_def not_less [symmetric])
  next
    case False
    then show ?thesis using assms(3) by (simp add: write_log_record_def)
  qed
qed

text \<open>
  Where a rotated file is opened empty, no sequence of records takes the log file beyond three mebibytes.
\<close>

theorem log_file_bounded:
  assumes "\<forall>h b. log_written env h b \<le> length b" "\<forall>h. log_opened env h \<in> {None, Some 0}"
    and "tracked_size w \<le> 0x300000" "\<forall>record \<in> set records. length record \<le> 0x300000"
  shows "tracked_size (fst (fold (write_log_record env) records (w, h))) \<le> 0x300000"
proof -
  have "tracked_size (fst s) \<le> 0x300000 \<Longrightarrow> tracked_size (fst (fold (write_log_record env) records s)) \<le> 0x300000" for s
    using assms(4)
  proof (induction records arbitrary: s)
    case (Cons r records)
    then show ?case using write_record_bounded [OF assms(1,2), of s r] by simp
  qed simp
  then show ?thesis using assms(3) by simp
qed

text \<open>The mirror writes a record only where the file has room for it.\<close>

lemma mirror_closed_between: "\<not> mirror_active (fst s) \<Longrightarrow> \<not> mirror_active (fst (mirror_write_record env record s))"
  by (auto simp: mirror_write_record_def mirror_append_def mirror_drop_def mirror_disable_def Let_def
      split: option.splits prod.splits)

lemma mirror_record_bounded:
  assumes "\<not> mirror_active m" "mirror_opened env h = Some existing" "record \<noteq> []"
    and "mirror_write_record env record (m, h) = (m', h')" "Mirror_write record \<in> set (drop (length h) h')"
  shows "existing \<le> 384 * 1024 \<and> of_nat (length record) \<le> 384 * 1024 - existing"
  using assms
  by (auto simp: mirror_write_record_def mirror_append_def mirror_drop_def mirror_disable_def Let_def not_less
      serial_diagnostic_log_maximum_size_def split: if_splits)

lemma capture_bounded: "length (pending_records c) \<le> 48 \<Longrightarrow>
    length (pending_records (snd (capture message recursive low buffer_available now c))) \<le> 48"
  by (simp add: capture_def Let_def)

end
