(* ===== verification/Web_Pages.thy ===== *)
theory Web_Pages
  imports Preview
begin

text \<open>
  The pages of the web server: response policies and routes of \<open>core/src/web\<close> (\<open>http_policy.cpp\<close>, \<open>web_routes.cpp\<close>,
  \<open>web_static.cpp\<close>), the static file service and the start of its volume (\<open>application/src/web\<close>), and the report of
  \<open>core/src/connectivity/wifi_statistics.cpp\<close>. Files and the web volume answer from outside.
\<close>

section \<open>Policies and routes\<close>

record http_response_policy =
  status_code :: u16
  content_type :: string
  response_body :: string
  chunked_transfer :: bool
  close_connection :: bool

datatype http_parse_error =
  Unsupported_method | Uri_too_long | Unsupported_version | Malformed_url | Headers_too_long

definition make_parser_response :: "u16 \<Rightarrow> string \<Rightarrow> http_response_policy" where
  "make_parser_response status body =
     \<lparr>status_code = status, content_type = ''text/html'', response_body = body, chunked_transfer = False,
      close_connection = True\<rparr>"

definition http_success_response :: "string \<Rightarrow> bool \<Rightarrow> http_response_policy" where
  "http_success_response mime chunked =
     \<lparr>status_code = 200, content_type = mime, response_body = [], chunked_transfer = chunked, close_connection = False\<rparr>"

definition http_method_not_allowed_response :: http_response_policy where
  "http_method_not_allowed_response =
     \<lparr>status_code = 405, content_type = ''text/html'', response_body = ''Specified method is invalid for this resource'',
      chunked_transfer = False, close_connection = True\<rparr>"

fun http_response_for_parse_error :: "http_parse_error \<Rightarrow> http_response_policy" where
  "http_response_for_parse_error Unsupported_method = make_parser_response 501 ''Server does not support this method''"
| "http_response_for_parse_error Uri_too_long = make_parser_response 414 ''URI is too long''"
| "http_response_for_parse_error Unsupported_version =
     make_parser_response 505 ''HTTP version not supported by server''"
| "http_response_for_parse_error Malformed_url = make_parser_response 400 ''Bad request syntax''"
| "http_response_for_parse_error Headers_too_long = make_parser_response 431 ''Header fields are too long''"

definition http_uri_path :: "string \<Rightarrow> string" where
  "http_uri_path complete_uri = takeWhile (\<lambda>c. c \<noteq> CHR ''?'') complete_uri"

definition http_method_allowed :: "string \<Rightarrow> string \<Rightarrow> bool" where
  "http_method_allowed request_method handler_method \<longleftrightarrow> request_method = handler_method"

datatype http_route =
    Route_none | Route_camera_resolution | Route_firmware_info | Route_wifi_diagnostics | Route_configuration
  | Route_gcodes_collection | Route_gcode_file | Route_application_update | Route_web_volume_update | Route_static_file
  | Route_video_websocket | Route_preview_websocket

definition select_main_http_route :: "string \<Rightarrow> string \<Rightarrow> http_route" where
  "select_main_http_route method complete_uri =
     (let path = http_uri_path complete_uri in
      if method = ''POST'' then
        (if path = ''/api/gcodes/file'' then Route_gcode_file
         else if path = ''/api/config'' then Route_configuration
         else if path = ''/api/camera/resolution'' then Route_camera_resolution
         else if path = ''/update'' then Route_application_update
         else if path = ''/updateffs'' then Route_web_volume_update
         else Route_none)
      else if method = ''GET'' then
        (if path = ''/api/gcodes'' then Route_gcodes_collection
         else if path = ''/api/gcodes/file'' then Route_gcode_file
         else if path = ''/api/firmware/info'' then Route_firmware_info
         else if path = ''/api/wifi/diagnostics'' then Route_wifi_diagnostics
         else if path = ''/api/config'' then Route_configuration
         else Route_static_file)
      else if method = ''DELETE'' \<and> path = ''/api/gcodes/file'' then Route_gcode_file
      else Route_none)"

definition select_video_http_route :: "string \<Rightarrow> string \<Rightarrow> http_route" where
  "select_video_http_route method complete_uri =
     (if method \<noteq> ''GET'' then Route_none
      else
        let path = http_uri_path complete_uri in
        if path = ''/ws_video'' then Route_video_websocket
        else if path = ''/ws_preview'' then Route_preview_websocket
        else Route_none)"

section \<open>Static files\<close>

definition resolve_static_path :: "string \<Rightarrow> string option" where
  "resolve_static_path request_uri =
     (let path = ''/spiffs'' @ take (255 - 7) request_uri in
      Some (if path \<noteq> [] \<and> last path = CHR ''/'' then path @ take (255 - length path) ''index.html'' else path))"

definition static_mime_type :: "string \<Rightarrow> string" where
  "static_mime_type path =
     (if find_sub ''.html'' path \<noteq> None then ''text/html''
      else if find_sub ''.css'' path \<noteq> None then ''text/css''
      else if find_sub ''.js'' path \<noteq> None then ''application/javascript''
      else ''text/plain'')"

definition firmware_identity_json :: string where
  "firmware_identity_json =
     CHR 0x7B # json_text ''version'' @ '':'' @ json_text ''0.1.13'' @ next_member ''build_date'' (json_text ''2026.08.05'') @
     next_member ''idf_ver'' (json_text ''v5.4.1'') @ [CHR 0x7D]"

datatype static_call =
    Static_open string
  | Static_read nat
  | Static_close
  | Static_error u16 string string
  | Static_begin string
  | Static_chunk bytes
  | Static_finish

type_synonym static_history = "static_call list"

record static_env =
  static_opened :: "static_history \<Rightarrow> string \<Rightarrow> bool"
  static_data :: "static_history \<Rightarrow> bytes option"

partial_function (option) send_static_chunks :: "static_env \<Rightarrow> static_history \<Rightarrow> static_history option" where
  "send_static_chunks env h =
     (let chunk = static_data env h; h = h @ [Static_read 256] in
      case chunk of
        None \<Rightarrow> Some h
      | Some bytes_read \<Rightarrow>
          (let h = h @ [Static_chunk bytes_read] in
           if bytes_read = [] then Some h else send_static_chunks env h))"

definition serve_static :: "static_env \<Rightarrow> string \<Rightarrow> static_history \<Rightarrow> static_history option" where
  "serve_static env request_uri h =
     (case resolve_static_path request_uri of
        None \<Rightarrow> Some (h @ [Static_error 404 ''text/html'' ''Nothing matches the given URI''])
      | Some path \<Rightarrow>
          let opened = static_opened env h path; h = h @ [Static_open path] in
          if \<not> opened then Some (h @ [Static_error 404 ''text/html'' ''Nothing matches the given URI''])
          else
            case send_static_chunks env (h @ [Static_begin (static_mime_type path)]) of
              None \<Rightarrow> None
            | Some h \<Rightarrow> Some (h @ [Static_close, Static_finish]))"

text \<open>What the adapter of the HTTP server sends: a chunk of no bytes, and the end, are the same call to the library.\<close>

definition response_chunks :: "static_history \<Rightarrow> bytes list" where
  "response_chunks h =
     concat (map (\<lambda>c. case c of Static_chunk b \<Rightarrow> [b] | Static_finish \<Rightarrow> [[]] | _ \<Rightarrow> []) h)"

section \<open>Start of the volume\<close>

record web_volume_config =
  mount_path :: string
  maximum_open_files :: nat
  format_if_mount_fails :: bool
  logical_block_size :: nat
  page_size :: nat
  object_name_storage :: nat
  metadata_size :: nat
  filesystem_magic :: bool
  validate_magic_length :: bool
  modification_time_metadata :: bool

definition web_volume :: web_volume_config where
  "web_volume =
     \<lparr>mount_path = ''/spiffs'', maximum_open_files = 5, format_if_mount_fails = True, logical_block_size = 4096,
      page_size = 256, object_name_storage = 64, metadata_size = 4, filesystem_magic = True, validate_magic_length = True,
      modification_time_metadata = True\<rparr>"

datatype volume_call = Volume_mount web_volume_config | Volume_format web_volume_config

text \<open>Mount; where that fails, format and mount once more. The port answers each call after the earlier ones.\<close>

definition start_web_volume :: "(volume_call list \<Rightarrow> volume_call \<Rightarrow> bool) \<Rightarrow> bool \<times> volume_call list" where
  "start_web_volume answers =
     (let m = Volume_mount web_volume; f = Volume_format web_volume in
      if answers [] m then (True, [m])
      else if \<not> format_if_mount_fails web_volume then (False, [m])
      else if \<not> answers [m] f then (False, [m, f])
      else (answers [m, f] m, [m, f, m]))"

section \<open>Station report\<close>

record wifi_statistics =
  wifi_connected :: bool
  wifi_rssi :: int
  wifi_channel :: u8
  wifi_authentication :: string
  wifi_address :: string
  station_starts :: u32
  wifi_associations :: u32
  wifi_disconnections :: u32
  addresses_acquired :: u32
  addresses_lost :: u32
  last_disconnect_reason :: u8
  wifi_reset_reason :: u32
  recent_events :: string

definition format_wifi_statistics_json :: "wifi_statistics \<Rightarrow> string" where
  "format_wifi_statistics_json s =
     CHR 0x7B # json_text ''connected'' @ '':'' @ (if wifi_connected s then ''true'' else ''false'') @
     next_member ''rssi_dbm'' (signed_decimal_text (wifi_rssi s)) @ next_member ''channel'' (decimal (unat (wifi_channel s))) @
     next_member ''authentication'' (media_text (wifi_authentication s)) @
     next_member ''ipv4_address'' (media_text (wifi_address s)) @
     next_member ''station_starts'' (decimal (unat (station_starts s))) @
     next_member ''associations'' (decimal (unat (wifi_associations s))) @
     next_member ''disconnections'' (decimal (unat (wifi_disconnections s))) @
     next_member ''addresses_acquired'' (decimal (unat (addresses_acquired s))) @
     next_member ''addresses_lost'' (decimal (unat (addresses_lost s))) @
     next_member ''last_disconnect_reason'' (decimal (unat (last_disconnect_reason s))) @
     next_member ''reset_reason'' (decimal (unat (wifi_reset_reason s))) @
     next_member ''recent_events'' (media_text (recent_events s)) @ [CHR 0x7D]"

section \<open>Properties\<close>

lemma response_chunks_simps [simp]:
  "response_chunks [] = []" "response_chunks (g @ h) = response_chunks g @ response_chunks h"
  "response_chunks (Static_chunk b # h) = b # response_chunks h" "response_chunks (Static_finish # h) = [] # response_chunks h"
  "response_chunks (Static_read n # h) = response_chunks h" "response_chunks (Static_close # h) = response_chunks h"
  "response_chunks (Static_open p # h) = response_chunks h" "response_chunks (Static_begin m # h) = response_chunks h"
  "response_chunks (Static_error s m e # h) = response_chunks h"
  by (simp_all add: response_chunks_def)

text \<open>A file of these chunks, read from a history on: each read gives the next one, then an empty one.\<close>

fun yields_chunks :: "static_env \<Rightarrow> bytes list \<Rightarrow> static_history \<Rightarrow> bool" where
  "yields_chunks env [] h \<longleftrightarrow> static_data env h = Some []"
| "yields_chunks env (c # cs) h \<longleftrightarrow>
     c \<noteq> [] \<and> static_data env h = Some c \<and> yields_chunks env cs (h @ [Static_read 256, Static_chunk c])"

lemma send_static_chunks_file:
  "yields_chunks env cs h \<Longrightarrow> \<exists>g. send_static_chunks env h = Some (h @ g) \<and> response_chunks g = cs @ [[]]"
proof (induction cs arbitrary: h)
  case Nil
  then show ?case by (subst send_static_chunks.simps) simp
next
  case (Cons c cs)
  then obtain g where "send_static_chunks env (h @ [Static_read 256, Static_chunk c]) = Some (h @ [Static_read 256, Static_chunk c] @ g)"
    "response_chunks g = cs @ [[]]" by fastforce
  with Cons.prems show ?case by (subst send_static_chunks.simps) simp
qed

text \<open>
  Serving a static file sends all its chunks in order, and then ends the response twice: the chunk without bytes that
  marks the end of the file is sent as one, which for the HTTP server is already the end of the response.
\<close>

theorem static_file_ends_twice:
  assumes "resolve_static_path uri = Some path" "static_opened env [] path"
    and "yields_chunks env cs [Static_open path, Static_begin (static_mime_type path)]"
  shows "\<exists>h. serve_static env uri [] = Some h \<and> response_chunks h = cs @ [[], []]"
  using send_static_chunks_file [OF assms(3)] assms(1,2) by (auto simp: serve_static_def)

lemma static_path_bound: "resolve_static_path uri = Some path \<Longrightarrow> length path \<le> 255 \<and> starts_with ''/spiffs'' path"
  by (auto simp: resolve_static_path_def Let_def starts_with_iff)

text \<open>A witness: a file of one byte.\<close>

definition one_byte_file :: static_env where
  "one_byte_file =
     \<lparr>static_opened = (\<lambda>h path. True),
      static_data = (\<lambda>h. if length (filter (\<lambda>c. c = Static_read 256) h) = 0 then Some [7] else Some [])\<rparr>"

theorem static_file_ends_twice_witness:
  "\<exists>h. serve_static one_byte_file ''/a'' [] = Some h \<and> response_chunks h = [[7], [], []]"
  using static_file_ends_twice [of "''/a''" "''/spiffs/a''" one_byte_file "[[7]]"]
  by (simp add: resolve_static_path_def one_byte_file_def)

text \<open>The query of a request is part of the file name: the page with a query is not found under its path.\<close>

lemma query_reaches_file_name: "resolve_static_path ''/index.html?v=2'' = Some ''/spiffs/index.html?v=2''"
  by (simp add: resolve_static_path_def)

end
