(* ===== verification/File_Upload.thy ===== *)
theory File_Upload
  imports Ports Routing Transfer_Paths
begin

text \<open>
  Upload of a file from a host, \<open>components/application/src/storage/file_upload.cpp\<close>. The port is a
  history of calls, the answers of the file system are given by the environment. Every operation
  returns the changed upload and the longer history.
\<close>

section \<open>State and port\<close>

datatype expected_packet = Expect_md5 | Expect_geometry | Expect_data

record upload =
  up_owner :: host_identity
  up_resolved_path :: string
  up_logical_path :: string
  up_target_path :: string
  up_md5_path :: string
  up_last_activity :: u64
  up_announced :: u32
  up_requested :: u32
  up_unsuccessful :: u16
  up_retries :: u8
  up_expected :: expected_packet
  up_firmware :: bool
  up_active :: bool

datatype upload_call =
    Prepare_cache cache_paths | Create_parents string u32 | Open_primary string | Open_md5 string
  | Write_primary bytes | Write_md5 bytes | Close_files | Flush_and_close | Remove_file string
  | Rename_file string string | Up_send host_identity frame | Up_delay u32 | Up_release

type_synonym upload_env = "upload_call answers"
type_synonym upload_state = "upload \<times> upload_call list"

definition up_call :: "upload_call \<Rightarrow> upload_state \<Rightarrow> upload_state" where
  "up_call c s = (fst s, snd s @ [c])"

definition up_reply :: "u8 \<Rightarrow> bytes \<Rightarrow> upload_state \<Rightarrow> upload_state" where
  "up_reply t payload s = up_call (Up_send (up_owner (fst s)) \<lparr>ftype = t, fpayload = payload\<rparr>) s"

definition up_set :: "(upload \<Rightarrow> upload) \<Rightarrow> upload_state \<Rightarrow> upload_state" where
  "up_set f s = (f (fst s), snd s)"

section \<open>Messages\<close>

definition ascii_case_equal :: "string \<Rightarrow> string \<Rightarrow> bool" where
  "ascii_case_equal left right \<longleftrightarrow>
     length left = length right \<and> map (ascii_lower \<circ> octet) left = map (ascii_lower \<circ> octet) right"

definition path_message :: "string \<Rightarrow> string \<Rightarrow> string \<Rightarrow> bytes" where
  "path_message prefix path suffix = octets prefix @ octets path @ octets suffix"

definition upload_timeout_message :: bytes where
  "upload_timeout_message = octets ''Info: Machine receive file time out!''"

definition upload_excessive_message :: bytes where
  "upload_excessive_message = octets ''Info: Machine receive file too many retry error!''"

section \<open>Operations\<close>

definition upload_reset_retry_history :: "upload \<Rightarrow> upload" where
  "upload_reset_retry_history u = u\<lparr>up_unsuccessful := 0, up_retries := 0\<rparr>"

definition upload_cleanup :: "bool \<Rightarrow> upload_state \<Rightarrow> upload_state" where
  "upload_cleanup remove_files s =
     (let s = up_call Close_files s;
          s = (if remove_files
               then up_call (Remove_file (up_md5_path (fst s)))
                      (up_call (Remove_file (up_target_path (fst s))) s)
               else s)
      in up_call Up_release (up_set (\<lambda>u. u\<lparr>up_active := False\<rparr>) s))"

definition upload_abort :: "bytes \<Rightarrow> upload_state \<Rightarrow> upload_state" where
  "upload_abort message s = upload_cleanup True (up_reply 0xB5 message s)"

definition upload_cancel :: "upload_state \<Rightarrow> upload_state" where
  "upload_cancel s = upload_cleanup True (up_reply 0xB5 (octets ''Info: Upload canceled by remote!'') s)"

definition upload_emit_current_request :: "upload_state \<Rightarrow> upload_state" where
  "upload_emit_current_request s =
     (case up_expected (fst s) of
        Expect_md5 \<Rightarrow> up_reply 0xB1 [] s
      | Expect_geometry \<Rightarrow> up_reply 0xB2 [] s
      | Expect_data \<Rightarrow> up_reply 0xB3 (encode_u32 (up_requested (fst s))) s)"

definition upload_emit_timed_retry :: "upload_state \<Rightarrow> upload_state" where
  "upload_emit_timed_retry s =
     up_set (\<lambda>u. u\<lparr>up_retries := up_retries u + 1\<rparr>) (up_reply 0xB6 (octets ''Info: need retry!'') s)"

definition upload_check_terminal_limits :: "u64 \<Rightarrow> upload_state \<Rightarrow> upload_state" where
  "upload_check_terminal_limits now s =
     (if up_retries (fst s) \<ge> 51 then upload_abort upload_excessive_message s
      else if now - up_last_activity (fst s) > inactivity_timeout
      then upload_abort upload_timeout_message s
      else s)"

definition upload_finish_cycle :: "u64 \<Rightarrow> upload_state \<Rightarrow> upload_state" where
  "upload_finish_cycle now s = upload_check_terminal_limits now (up_call (Up_delay 10) s)"

definition upload_record_unexpected :: "upload_state \<Rightarrow> upload_state" where
  "upload_record_unexpected s =
     (let s = up_set (\<lambda>u. u\<lparr>up_unsuccessful := up_unsuccessful u + 1\<rparr>) s
      in if up_unsuccessful (fst s) < 51 then s
         else up_set (\<lambda>u. u\<lparr>up_retries := up_retries u + 1\<rparr>)
                (upload_emit_current_request (up_set (\<lambda>u. u\<lparr>up_unsuccessful := 0\<rparr>) s)))"

definition upload_complete :: "upload_env \<Rightarrow> upload_state \<Rightarrow> upload_state" where
  "upload_complete env s =
     (let s = up_call Flush_and_close (up_reply 0xB4 (octets ''ok'' @ [13, 10]) s);
          firmware_path = physical_sd_path ''/firmware.bin'';
          partial_path = physical_sd_path ''/firmware.bin.part'';
          s = (if up_firmware (fst s) then up_call (Remove_file firmware_path) s else s);
          renamed = (up_firmware (fst s) \<longrightarrow> env (snd s) (Rename_file partial_path firmware_path));
          s = (if up_firmware (fst s) then up_call (Rename_file partial_path firmware_path) s else s)
      in if \<not> renamed then
           up_call Up_release
             (up_set (\<lambda>u. u\<lparr>up_active := False\<rparr>)
               (up_reply 0xB5
                 (path_message ''Error: failed to finalize firmware upload [''
                    (up_logical_path (fst s)) ''].'')
                 (up_call (Remove_file partial_path) s)))
         else
           up_call Up_release
             (up_set (\<lambda>u. u\<lparr>up_active := False\<rparr>)
               (up_reply 0x90
                 (path_message ''Info: upload success: '' (up_logical_path (fst s)) ''.'') s)))"

definition upload_accept_md5 :: "bytes \<Rightarrow> upload_state \<Rightarrow> upload_state" where
  "upload_accept_md5 payload s =
     up_set (\<lambda>u. u\<lparr>up_expected := Expect_geometry\<rparr>)
       (up_reply 0xB2 [] (up_call (Write_md5 (take md5_text_size payload)) s))"

definition upload_accept_geometry :: "bytes \<Rightarrow> upload_state \<Rightarrow> upload_state" where
  "upload_accept_geometry payload s =
     (let s = up_set (\<lambda>u. u\<lparr>up_announced := decode_be32 payload, up_requested := 1\<rparr>) s
      in up_set (\<lambda>u. u\<lparr>up_expected := Expect_data\<rparr>)
           (up_reply 0xB3 (encode_u32 (up_requested (fst s))) s))"

definition upload_accept_data :: "upload_env \<Rightarrow> bytes \<Rightarrow> upload_state \<Rightarrow> upload_state" where
  "upload_accept_data env payload s =
     (let data = drop 4 payload; written = env (snd s) (Write_primary data);
          s = up_call (Write_primary data) s
      in if \<not> written then up_reply 0xB6 (octets ''Error: File Write error!retry...'') s
         else if up_requested (fst s) \<ge> up_announced (fst s) then upload_complete env s
         else let s = up_set (\<lambda>u. (upload_reset_retry_history u)\<lparr>up_requested := up_requested u + 1\<rparr>) s
              in up_reply 0xB3 (encode_u32 (up_requested (fst s))) s)"

definition upload_handle :: "upload_env \<Rightarrow> frame \<Rightarrow> u64 \<Rightarrow> upload_state \<Rightarrow> upload_state" where
  "upload_handle env f now s =
     (if \<not> up_active (fst s) then s
      else
        let s = up_set (\<lambda>u. u\<lparr>up_last_activity := now\<rparr>) s; u = fst s; payload = fpayload f
        in if ftype f = 0xB5 then upload_cancel s
           else
             let md5_valid = (up_expected u = Expect_md5 \<and> ftype f = 0xB1 \<and>
                              length payload \<ge> md5_text_size);
                 geometry_valid = (up_expected u = Expect_geometry \<and> ftype f = 0xB2 \<and>
                                   length payload \<ge> 4);
                 data_valid = (up_expected u = Expect_data \<and> ftype f = 0xB3 \<and> length payload \<ge> 4 \<and>
                               length payload \<le> data_block_size + 4 \<and>
                               decode_be32 payload = up_requested u);
                 s = (if md5_valid then upload_accept_md5 payload s
                      else if geometry_valid then upload_accept_geometry payload s
                      else if data_valid then upload_accept_data env payload s
                      else upload_record_unexpected s)
             in if up_active (fst s) then upload_finish_cycle now s else s)"

definition upload_poll :: "u64 \<Rightarrow> upload_state \<Rightarrow> upload_state" where
  "upload_poll now s =
     (if \<not> up_active (fst s) then s
      else
        let s = upload_check_terminal_limits now
                  (up_call (Up_delay 10) (up_set (\<lambda>u. u\<lparr>up_unsuccessful := up_unsuccessful u + 1\<rparr>) s))
        in if \<not> up_active (fst s) then s
           else if up_unsuccessful (fst s) \<ge> 501
           then upload_check_terminal_limits now
                  (up_call (Up_delay 10)
                    (up_set (\<lambda>u. u\<lparr>up_unsuccessful := 0\<rparr>) (upload_emit_timed_retry s)))
           else s)"

definition upload_resume :: "u64 \<Rightarrow> upload_state \<Rightarrow> upload_state" where
  "upload_resume now s =
     (if \<not> up_active (fst s) then s
      else if now - up_last_activity (fst s) > inactivity_timeout
      then upload_abort upload_timeout_message s
      else upload_emit_current_request s)"

definition upload_start_refused :: "bytes \<Rightarrow> upload_state \<Rightarrow> upload_state \<times> bool" where
  "upload_start_refused message s = (up_call Up_release (up_reply 0xB5 message s), False)"

definition upload_start ::
    "upload_env \<Rightarrow> host_identity \<Rightarrow> string \<Rightarrow> u64 \<Rightarrow> upload_state \<Rightarrow> upload_state \<times> bool" where
  "upload_start env owner path now s =
     (let s = up_set (\<lambda>u. u\<lparr>up_owner := owner, up_resolved_path := path, up_logical_path := path\<rparr>) s;
          cache = map_file_cache_paths path;
          s = up_call (Prepare_cache cache) s
      in case md5_path cache of
           None \<Rightarrow> upload_start_refused (octets ''Error: Invalid filename!'') s
         | Some md5 \<Rightarrow>
             let s = up_set (\<lambda>u. u\<lparr>up_md5_path := md5\<rparr>) s;
                 parents = env (snd s) (Create_parents md5 511);
                 s = up_call (Create_parents md5 511) s
             in if \<not> parents then
                  upload_start_refused (path_message ''Error: failed to open file ['' path '']!'') s
                else
                  let firmware_path = physical_sd_path ''/firmware.bin'';
                      partial_path = physical_sd_path ''/firmware.bin.part'';
                      firmware = ascii_case_equal path firmware_path;
                      target = (if firmware then partial_path else path);
                      s = up_set (\<lambda>u. u\<lparr>up_firmware := firmware, up_target_path := target\<rparr>) s;
                      s = (if firmware then up_call (Remove_file partial_path) s else s);
                      primary_open = env (snd s) (Open_primary target);
                      s = up_call (Open_primary target) s;
                      md5_open = (primary_open \<and> env (snd s) (Open_md5 md5));
                      s = (if primary_open then up_call (Open_md5 md5) s else s)
                  in if \<not> primary_open \<or> \<not> md5_open then
                       upload_start_refused
                         (path_message ''Error: failed to open file [''
                            (if primary_open then md5 else target) '']!'') s
                     else
                       (up_set (\<lambda>u. (upload_reset_retry_history u)
                          \<lparr>up_expected := Expect_md5, up_requested := 1, up_announced := 0,
                           up_last_activity := now, up_active := True\<rparr>) s, True))"

section \<open>Histories of an upload\<close>

datatype upload_event = Packet frame u64 | Silence u64 | Reconnected u64

fun upload_step :: "upload_env \<Rightarrow> upload_event \<Rightarrow> upload_state \<Rightarrow> upload_state" where
  "upload_step env (Packet f now) s = upload_handle env f now s"
| "upload_step env (Silence now) s = upload_poll now s"
| "upload_step env (Reconnected now) s = upload_resume now s"

definition upload_run :: "upload_env \<Rightarrow> upload_event list \<Rightarrow> upload_state \<Rightarrow> upload_state" where
  "upload_run env es s = fold (upload_step env) es s"

text \<open>The blocks that the file system took, in order.\<close>

definition block_of :: "upload_call \<Rightarrow> bytes list" where
  "block_of c = (case c of Write_primary d \<Rightarrow> [d] | _ \<Rightarrow> [])"

definition upload_blocks :: "upload_env \<Rightarrow> upload_call list \<Rightarrow> bytes list" where
  "upload_blocks env h = concat (map block_of (succeeded env h))"

definition blocks_after :: "upload_env \<Rightarrow> upload_call list \<Rightarrow> upload_call list \<Rightarrow> bytes list" where
  "blocks_after env h cs = concat (map block_of (successes env h cs))"

lemma upload_blocks_append [simp]:
  "upload_blocks env [] = []"
  "upload_blocks env (h @ cs) = upload_blocks env h @ blocks_after env h cs"
  "upload_blocks env (c # cs) = blocks_after env [] (c # cs)"
  "blocks_after env h [] = []"
  "blocks_after env h (c # cs) = (if env h c then block_of c else []) @ blocks_after env (h @ [c]) cs"
  by (simp_all add: upload_blocks_def blocks_after_def)

lemma block_of_simps [simp]:
  "block_of (Write_primary d) = [d]" "block_of (Prepare_cache p) = []" "block_of (Create_parents q m) = []"
  "block_of (Open_primary q) = []" "block_of (Open_md5 q) = []" "block_of (Write_md5 d) = []"
  "block_of Close_files = []" "block_of Flush_and_close = []" "block_of (Remove_file q) = []"
  "block_of (Rename_file q r) = []" "block_of (Up_send w f) = []" "block_of (Up_delay n) = []"
  "block_of Up_release = []"
  by (simp_all add: block_of_def)

fun closes_files :: "upload_call \<Rightarrow> bool" where
  "closes_files Close_files = True"
| "closes_files Flush_and_close = True"
| "closes_files _ = False"

fun announces_completion :: "upload_call \<Rightarrow> bool" where
  "announces_completion (Up_send w f) = (ftype f = 0xB4)"
| "announces_completion _ = False"

text \<open>
  The calls an operation under way never makes: it holds its files and its ownership, and has not
  acknowledged the transfer.
\<close>

definition upload_quiet :: "upload_call list \<Rightarrow> bool" where
  "upload_quiet h \<longleftrightarrow>
     (\<forall>c \<in> set h. \<not> closes_files c \<and> c \<noteq> Up_release \<and> \<not> announces_completion c)"

text \<open>Every block is the data of a received packet that carries the block's number.\<close>

definition blocks_from :: "frame set \<Rightarrow> bytes list \<Rightarrow> bool" where
  "blocks_from R bs \<longleftrightarrow>
     (\<forall>i < length bs. \<exists>f \<in> R. ftype f = 0xB3 \<and> decode_be32 (fpayload f) = of_nat (Suc i) \<and>
        bs ! i = drop 4 (fpayload f) \<and> 4 \<le> length (fpayload f) \<and> length (fpayload f) \<le> 8196)"

definition upload_position :: "upload \<Rightarrow> bytes list \<Rightarrow> bool" where
  "upload_position u bs \<longleftrightarrow>
     (if up_expected u = Expect_data
      then unat (up_requested u) = Suc (length bs) \<and>
           (up_requested u = 1 \<or> up_requested u \<le> up_announced u)
      else bs = [])"

definition upload_underway :: "frame set \<Rightarrow> upload_env \<Rightarrow> upload_state \<Rightarrow> bool" where
  "upload_underway R env s \<longleftrightarrow>
     up_active (fst s) \<and> upload_quiet (snd s) \<and> blocks_from R (upload_blocks env (snd s)) \<and>
     upload_position (fst s) (upload_blocks env (snd s)) \<and>
     up_retries (fst s) \<le> 51 \<and> up_unsuccessful (fst s) \<le> 501"

definition upload_over :: "frame set \<Rightarrow> upload_env \<Rightarrow> upload_state \<Rightarrow> bool" where
  "upload_over R env s \<longleftrightarrow>
     \<not> up_active (fst s) \<and> blocks_from R (upload_blocks env (snd s)) \<and>
     count_calls closes_files (snd s) = 1 \<and> count_calls (\<lambda>c. c = Up_release) (snd s) = 1 \<and>
     (if \<exists>c \<in> set (snd s). announces_completion c
      then length (upload_blocks env (snd s)) = max 1 (unat (up_announced (fst s)))
      else Remove_file (up_target_path (fst s)) \<in> set (snd s) \<and>
           Remove_file (up_md5_path (fst s)) \<in> set (snd s))"

lemmas upload_basics = up_call_def up_reply_def up_set_def

lemma quiet_append [simp]:
  "upload_quiet []"
  "upload_quiet (h @ cs) \<longleftrightarrow> upload_quiet h \<and> upload_quiet cs"
  "upload_quiet (c # cs) \<longleftrightarrow>
     \<not> closes_files c \<and> c \<noteq> Up_release \<and> \<not> announces_completion c \<and> upload_quiet cs"
  by (auto simp: upload_quiet_def)

lemma quiet_counts:
  assumes "upload_quiet h"
  shows "count_calls closes_files h = 0" "count_calls (\<lambda>c. c = Up_release) h = 0"
    "\<not> (\<exists>c \<in> set h. announces_completion c)"
  using assms by (auto simp: upload_quiet_def count_calls_def filter_empty_conv)

lemma blocks_from_Nil [simp]: "blocks_from R []"
  by (simp add: blocks_from_def)

lemma blocks_from_mono: "R \<subseteq> R' \<Longrightarrow> blocks_from R bs \<Longrightarrow> blocks_from R' bs"
  unfolding blocks_from_def by blast

lemma abort_over:
  assumes "upload_underway R env s"
  shows "upload_over R env (upload_abort m s)"
  using assms quiet_counts [of "snd s"]
  by (auto simp: upload_underway_def upload_over_def upload_abort_def upload_cleanup_def upload_basics Let_def
      simp del: append_assoc simp flip: append_assoc)

lemma cancel_over:
  assumes "upload_underway R env s"
  shows "upload_over R env (upload_cancel s)"
  using abort_over [OF assms] by (simp add: upload_abort_def upload_cancel_def)

text \<open>A reply, a pause and a change of the counters leave an upload under way.\<close>

lemma reply_underway:
  "upload_underway R env s \<Longrightarrow> t \<noteq> 0xB4 \<Longrightarrow> upload_underway R env (up_reply t p s)"
  by (simp add: upload_underway_def upload_basics)

lemma delay_underway: "upload_underway R env s \<Longrightarrow> upload_underway R env (up_call (Up_delay n) s)"
  by (simp add: upload_underway_def upload_basics)

lemma limits_over:
  assumes "upload_underway R env s"
  shows "upload_over R env (upload_check_terminal_limits now s) \<or>
    upload_check_terminal_limits now s = s \<and> up_retries (fst s) < 51"
  using abort_over [OF assms] by (auto simp: upload_check_terminal_limits_def)

lemma md5_underway:
  assumes "upload_underway R env s" "up_expected (fst s) = Expect_md5"
  shows "upload_underway R env (upload_accept_md5 p s)"
  using assms by (simp add: upload_underway_def upload_accept_md5_def upload_basics upload_position_def)

lemma geometry_underway:
  assumes "upload_underway R env s" "up_expected (fst s) = Expect_geometry"
  shows "upload_underway R env (upload_accept_geometry p s)"
  using assms by (simp add: upload_underway_def upload_accept_geometry_def upload_basics upload_position_def Let_def)

lemma unexpected_underway:
  assumes "upload_underway R env s" "up_retries (fst s) < 51" "up_unsuccessful (fst s) < 501"
  shows "upload_underway R env (upload_record_unexpected s) \<and>
    up_unsuccessful (fst (upload_record_unexpected s)) < 501"
proof -
  have "up_retries (fst s) + 1 \<le> 51" "up_unsuccessful (fst s) + 1 \<le> 501"
    using assms(2,3) by unat_arith+
  moreover have "x < 51 \<Longrightarrow> x < 501" for x :: u16
    by unat_arith
  ultimately show ?thesis
    using assms
    by (auto simp: upload_record_unexpected_def upload_underway_def upload_emit_current_request_def
        upload_basics upload_position_def Let_def split: expected_packet.splits)
qed

lemma blocks_from_snoc:
  "blocks_from R bs \<Longrightarrow> f \<in> R \<Longrightarrow> ftype f = 0xB3 \<Longrightarrow> decode_be32 (fpayload f) = of_nat (Suc (length bs)) \<Longrightarrow>
     4 \<le> length (fpayload f) \<Longrightarrow> length (fpayload f) \<le> 8196 \<Longrightarrow> blocks_from R (bs @ [drop 4 (fpayload f)])"
  unfolding blocks_from_def by (auto simp: nth_append less_Suc_eq)

lemma complete_over:
  assumes "upload_quiet (snd s)" "blocks_from R (upload_blocks env (snd s))"
    and "length (upload_blocks env (snd s)) = max 1 (unat (up_announced (fst s)))"
  shows "upload_over R env (upload_complete env s)"
  using assms quiet_counts [OF assms(1)]
  by (simp add: upload_complete_def upload_over_def upload_basics Let_def)

lemma data_progress:
  assumes s: "upload_underway R env s" "up_expected (fst s) = Expect_data"
    and f: "f \<in> R" "ftype f = 0xB3" "4 \<le> length (fpayload f)" "length (fpayload f) \<le> 8196"
      "decode_be32 (fpayload f) = up_requested (fst s)"
  shows "upload_underway R env (upload_accept_data env (fpayload f) s) \<and>
      (up_unsuccessful (fst s) < 501 \<longrightarrow>
         up_unsuccessful (fst (upload_accept_data env (fpayload f) s)) < 501) \<or>
    upload_over R env (upload_accept_data env (fpayload f) s)"
proof -
  obtain u h where s_def: "s = (u, h)" by (cases s)
  define d where "d = drop 4 (fpayload f)"
  define bs where "bs = upload_blocks env h"
  have pos: "unat (up_requested u) = Suc (length bs)" "up_requested u = 1 \<or> up_requested u \<le> up_announced u"
    and origin: "blocks_from R bs" and q: "upload_quiet h"
    using s by (simp_all add: upload_underway_def upload_position_def s_def bs_def)
  have "up_requested u = of_nat (unat (up_requested u))" by simp
  then have number: "up_requested u = of_nat (Suc (length bs))" unfolding pos(1) .
  have more: "blocks_from R (bs @ [d])"
    using blocks_from_snoc [OF origin f(1,2)] f number by (simp add: d_def s_def)
  have branches: "upload_accept_data env (fpayload f) s =
      (if \<not> env h (Write_primary d) then up_reply 0xB6 (octets ''Error: File Write error!retry...'') (u, h @ [Write_primary d])
       else if up_requested u \<ge> up_announced u then upload_complete env (u, h @ [Write_primary d])
       else up_reply 0xB3 (encode_u32 (up_requested u + 1))
         (u\<lparr>up_requested := up_requested u + 1, up_unsuccessful := 0, up_retries := 0\<rparr>, h @ [Write_primary d]))"
    by (simp add: upload_accept_data_def upload_basics s_def d_def Let_def upload_reset_retry_history_def)
  show ?thesis
  proof (cases "env h (Write_primary d)")
    case False
    then show ?thesis
      using s unfolding branches by (simp add: upload_underway_def upload_basics upload_position_def s_def)
  next
    case written: True
    show ?thesis
    proof (cases "up_requested u \<ge> up_announced u")
      case True
      have "Suc (length bs) = max 1 (unat (up_announced u))"
        using pos True by (auto simp: word_le_nat_alt)
      then have "upload_over R env (upload_complete env (u, h @ [Write_primary d]))"
        using more q written by (intro complete_over) (simp_all add: bs_def)
      then show ?thesis
        using written True unfolding branches by simp
    next
      case False
      then have "unat (up_requested u + 1) = Suc (unat (up_requested u))" "up_requested u + 1 \<le> up_announced u"
        by unat_arith+
      then show ?thesis
        using False written s more pos q
        unfolding branches by (simp add: upload_underway_def upload_basics upload_position_def s_def bs_def)
    qed
  qed
qed

definition upload_stable :: "frame set \<Rightarrow> upload_env \<Rightarrow> upload_state \<Rightarrow> bool" where
  "upload_stable R env s \<longleftrightarrow>
     upload_underway R env s \<and> up_retries (fst s) < 51 \<and> up_unsuccessful (fst s) < 501"

fun received :: "upload_event \<Rightarrow> frame set" where
  "received (Packet f now) = {f}"
| "received (Silence now) = {}"
| "received (Reconnected now) = {}"

lemma over_inactive: "upload_over R env s \<Longrightarrow> \<not> up_active (fst s)"
  by (simp add: upload_over_def)

lemma underway_active: "upload_underway R env s \<Longrightarrow> up_active (fst s)"
  by (simp add: upload_underway_def)

lemma limits_stable:
  assumes "upload_underway R env s" "up_unsuccessful (fst s) < 501"
  shows "upload_over R env (upload_check_terminal_limits now s) \<or>
    upload_stable R env (upload_check_terminal_limits now s)"
  using limits_over [OF assms(1), of now] assms by (auto simp: upload_stable_def)

lemma underway_mono: "R \<subseteq> R' \<Longrightarrow> upload_underway R env s \<Longrightarrow> upload_underway R' env s"
  using blocks_from_mono [of R R'] by (auto simp: upload_underway_def)

lemma set_activity_underway:
  "upload_underway R env (up_set (\<lambda>u. u\<lparr>up_last_activity := now\<rparr>) s) = upload_underway R env s"
  by (simp add: upload_underway_def upload_basics upload_position_def)

lemma handle_preserves:
  assumes "upload_stable R env s"
  shows "upload_over (insert f R) env (upload_handle env f now s) \<or>
    upload_stable (insert f R) env (upload_handle env f now s)"
proof -
  define r where "r = up_set (\<lambda>u. u\<lparr>up_last_activity := now\<rparr>) s"
  define R' where "R' = insert f R"
  have under: "upload_underway R' env r"
    using assms underway_mono [of R R'] set_activity_underway [of R env now s]
    by (auto simp: upload_stable_def r_def R'_def intro: underway_mono [of R])
  have low: "up_retries (fst r) < 51" "up_unsuccessful (fst r) < 501"
    using assms by (simp_all add: upload_stable_def r_def upload_basics)
  define m where "m =
      (if up_expected (fst r) = Expect_md5 \<and> ftype f = 0xB1 \<and> 32 \<le> length (fpayload f)
       then upload_accept_md5 (fpayload f) r
       else if up_expected (fst r) = Expect_geometry \<and> ftype f = 0xB2 \<and> 4 \<le> length (fpayload f)
       then upload_accept_geometry (fpayload f) r
       else if up_expected (fst r) = Expect_data \<and> ftype f = 0xB3 \<and> 4 \<le> length (fpayload f) \<and>
               length (fpayload f) \<le> 8196 \<and> decode_be32 (fpayload f) = up_requested (fst r)
       then upload_accept_data env (fpayload f) r
       else upload_record_unexpected r)"
  have body: "upload_handle env f now s =
      (if ftype f = 0xB5 then upload_cancel r
       else if up_active (fst m) then upload_finish_cycle now m else m)"
    using assms by (simp add: upload_handle_def upload_stable_def upload_underway_def Let_def r_def m_def)
  have mid: "upload_underway R' env m \<and> up_unsuccessful (fst m) < 501 \<or> upload_over R' env m"
    using md5_underway [OF under, of "fpayload f"] geometry_underway [OF under, of "fpayload f"]
      unexpected_underway [OF under low] data_progress [OF under, of f] low
    by (auto simp: m_def R'_def upload_accept_md5_def upload_accept_geometry_def upload_basics Let_def)
  show ?thesis
  proof (cases "ftype f = 0xB5")
    case True
    then show ?thesis using cancel_over [OF under] by (simp add: body R'_def)
  next
    case False
    show ?thesis
    proof (cases "upload_over R' env m")
      case True
      then show ?thesis using over_inactive [OF True] False by (simp add: body R'_def)
    next
      case not_over: False
      then have m: "upload_underway R' env m" "up_unsuccessful (fst m) < 501" using mid by auto
      have "upload_over R' env (upload_finish_cycle now m) \<or> upload_stable R' env (upload_finish_cycle now m)"
        unfolding upload_finish_cycle_def
        by (rule limits_stable) (use m delay_underway in \<open>auto simp: upload_basics\<close>)
      then show ?thesis
        using False underway_active [OF m(1)] by (simp add: body R'_def)
    qed
  qed
qed

lemma poll_preserves:
  assumes "upload_stable R env s"
  shows "upload_over R env (upload_poll now s) \<or> upload_stable R env (upload_poll now s)"
proof -
  have act: "up_active (fst s)"
    using assms by (simp add: upload_stable_def upload_underway_def)
  define r where "r = up_call (Up_delay 10) (up_set (\<lambda>u. u\<lparr>up_unsuccessful := up_unsuccessful u + 1\<rparr>) s)"
  have "up_unsuccessful (fst s) < 501"
    using assms by (simp add: upload_stable_def)
  then have "up_unsuccessful (fst s) + 1 \<le> 501"
    by unat_arith
  then have r: "upload_underway R env r" "up_retries (fst r) < 51" "up_unsuccessful (fst r) \<le> 501"
    using assms by (simp_all add: upload_stable_def upload_underway_def upload_basics upload_position_def r_def)
  show ?thesis
  proof (cases "upload_over R env (upload_check_terminal_limits now r)")
    case True
    then show ?thesis
      using over_inactive [OF True] act by (simp add: upload_poll_def r_def)
  next
    case False
    then have keep: "upload_check_terminal_limits now r = r"
      using limits_over [OF r(1)] by blast
    define t where "t = up_call (Up_delay 10)
        (up_set (\<lambda>u. u\<lparr>up_unsuccessful := 0\<rparr>) (upload_emit_timed_retry r))"
    have "up_retries (fst r) + 1 \<le> 51"
      using r(2) by unat_arith
    then have t: "upload_underway R env t" "up_unsuccessful (fst t) < 501"
      using r by (simp_all add: t_def upload_emit_timed_retry_def upload_underway_def upload_basics upload_position_def)
    have "upload_poll now s =
        (if up_unsuccessful (fst r) \<ge> 501 then upload_check_terminal_limits now t else r)"
      using act keep underway_active [OF r(1)] by (simp add: upload_poll_def flip: r_def t_def)
    then show ?thesis
      using limits_stable [OF t] r by (auto simp: upload_stable_def not_le)
  qed
qed

lemma resume_preserves:
  assumes "upload_stable R env s"
  shows "upload_over R env (upload_resume now s) \<or> upload_stable R env (upload_resume now s)"
proof -
  have "upload_underway R env s" using assms by (simp add: upload_stable_def)
  then show ?thesis
    using abort_over [of R env s] reply_underway [of R env s] assms
    by (auto simp: upload_resume_def upload_emit_current_request_def upload_stable_def upload_basics
        split: expected_packet.splits)
qed

lemma inactive_step: "\<not> up_active (fst s) \<Longrightarrow> upload_step env e s = s"
  by (cases e) (simp_all add: upload_handle_def upload_poll_def upload_resume_def)

lemma step_preserves:
  assumes "upload_over R env s \<or> upload_stable R env s"
  shows "upload_over (R \<union> received e) env (upload_step env e s) \<or>
    upload_stable (R \<union> received e) env (upload_step env e s)"
proof (cases "upload_over R env s")
  case True
  then have "upload_over (R \<union> received e) env s"
    using blocks_from_mono [of R "R \<union> received e"] by (auto simp: upload_over_def)
  then show ?thesis
    using inactive_step [OF over_inactive [OF True]] by simp
next
  case False
  then show ?thesis
    using assms handle_preserves poll_preserves resume_preserves by (cases e) auto
qed

lemma run_preserves:
  "upload_over R env s \<or> upload_stable R env s \<Longrightarrow>
     upload_over (R \<union> \<Union> (received ` set es)) env (upload_run env es s) \<or>
     upload_stable (R \<union> \<Union> (received ` set es)) env (upload_run env es s)"
proof (induction es arbitrary: R s)
  case (Cons e es)
  from Cons.IH [OF step_preserves [OF Cons.prems, of e]] show ?case
    by (simp add: upload_run_def Un_assoc)
qed (simp add: upload_run_def)

lemma start_stable:
  "upload_start env owner path now (u, []) = (s, True) \<Longrightarrow> upload_stable {} env s"
  by (auto simp: upload_start_def upload_start_refused_def upload_basics upload_stable_def upload_underway_def
      upload_position_def upload_reset_retry_history_def Let_def split: option.splits if_splits)

text \<open>
  C2. An upload is all or nothing, and its file is what was sent. Whatever packets, silences and
  reconnections follow a successful start, and however the file system answers: the blocks written
  so far are, in order, the data of received packets numbered 1, 2, ...; an upload under way has
  closed nothing, released nothing and announced nothing; one that ended has closed its files and
  released its ownership exactly once, and has either announced completion with as many blocks as
  the host announced (at least one), or removed both files.
\<close>
theorem upload_all_or_nothing:
  assumes "upload_start env owner path now (u, []) = (s, True)" "upload_run env es s = (v, h)"
  shows "(\<forall>i < length (upload_blocks env h). \<exists>f t. Packet f t \<in> set es \<and> ftype f = 0xB3 \<and>
            decode_be32 (fpayload f) = of_nat (Suc i) \<and> upload_blocks env h ! i = drop 4 (fpayload f)) \<and>
    (if up_active v then upload_quiet h
     else count_calls closes_files h = 1 \<and> count_calls (\<lambda>c. c = Up_release) h = 1 \<and>
       (if \<exists>c \<in> set h. announces_completion c
        then length (upload_blocks env h) = max 1 (unat (up_announced v))
        else {Remove_file (up_target_path v), Remove_file (up_md5_path v)} \<subseteq> set h))"
proof -
  define R where "R = \<Union> (received ` set es)"
  have inv: "upload_over R env (v, h) \<or> upload_stable R env (v, h)"
    using run_preserves [of "{}" env s es] start_stable [OF assms(1)] assms(2) by (simp add: R_def)
  then have "blocks_from R (upload_blocks env h)"
    by (auto simp: upload_over_def upload_stable_def upload_underway_def)
  moreover have "\<exists>t. Packet f t \<in> set es" if "f \<in> R" for f
  proof -
    obtain e where e: "e \<in> set es" "f \<in> received e" using \<open>f \<in> R\<close> by (auto simp: R_def)
    show ?thesis
    proof (cases e)
      case (Packet g t)
      then show ?thesis using e by auto
    qed (use e in simp_all)
  qed
  ultimately have "\<forall>i < length (upload_blocks env h). \<exists>f t. Packet f t \<in> set es \<and> ftype f = 0xB3 \<and>
      decode_be32 (fpayload f) = of_nat (Suc i) \<and> upload_blocks env h ! i = drop 4 (fpayload f)"
    unfolding blocks_from_def by meson
  moreover have "upload_quiet h" if "up_active v"
    using inv that over_inactive by (fastforce simp: upload_stable_def upload_underway_def)
  moreover have "upload_over R env (v, h)" if "\<not> up_active v"
    using inv that underway_active by (fastforce simp: upload_stable_def)
  ultimately show ?thesis
    by (cases "up_active v") (auto simp: upload_over_def split: if_splits)
qed

section \<open>Ending\<close>

lemma abort_inactive [simp]: "\<not> up_active (fst (upload_abort m s))"
  by (simp add: upload_abort_def upload_cleanup_def upload_basics Let_def)

lemma limits_active:
  "up_active (fst (upload_check_terminal_limits now s)) \<Longrightarrow> upload_check_terminal_limits now s = s"
  by (auto simp: upload_check_terminal_limits_def split: if_splits)

lemma poll_active:
  assumes "up_active (fst (upload_poll now s))"
  shows "fst (upload_poll now s) =
    (if up_unsuccessful (fst s) + 1 \<ge> 501
     then (fst s)\<lparr>up_unsuccessful := 0, up_retries := up_retries (fst s) + 1\<rparr>
     else (fst s)\<lparr>up_unsuccessful := up_unsuccessful (fst s) + 1\<rparr>)"
proof -
  define r where "r = up_call (Up_delay 10) (up_set (\<lambda>u. u\<lparr>up_unsuccessful := up_unsuccessful u + 1\<rparr>) s)"
  define t where "t = up_call (Up_delay 10) (up_set (\<lambda>u. u\<lparr>up_unsuccessful := 0\<rparr>) (upload_emit_timed_retry r))"
  have act: "up_active (fst s)"
    using assms by (auto simp: upload_poll_def split: if_splits)
  have first: "up_active (fst (upload_check_terminal_limits now r))"
    using assms act by (auto simp: upload_poll_def Let_def simp flip: r_def split: if_splits)
  have body: "upload_poll now s =
      (if up_unsuccessful (fst r) \<ge> 501 then upload_check_terminal_limits now t else r)"
    using act first limits_active [OF first] by (simp add: upload_poll_def Let_def flip: r_def t_def)
  have "upload_check_terminal_limits now t = t" if "up_unsuccessful (fst r) \<ge> 501"
    using assms that by (intro limits_active) (simp add: body)
  then show ?thesis
    unfolding body by (simp add: r_def t_def upload_emit_timed_retry_def upload_basics)
qed

lemma unat_below: "(w :: 'a::len word) < n \<Longrightarrow> unat (w + 1) = Suc (unat w)"
proof -
  assume "w < n"
  then have "Suc (unat w) \<le> unat n" by (simp add: word_less_nat_alt)
  then have "Suc (unat w) < 2 ^ LENGTH('a)"
    using unsigned_less [of n] by (rule order_le_less_trans)
  then show ?thesis by (simp add: unat_word_ariths)
qed

lemma poll_measure:
  assumes "upload_stable R env s" "up_active (fst (upload_poll now s))"
  shows "unat (up_retries (fst (upload_poll now s))) * 501 + unat (up_unsuccessful (fst (upload_poll now s))) =
    unat (up_retries (fst s)) * 501 + unat (up_unsuccessful (fst s)) + 1"
proof -
  have low: "up_unsuccessful (fst s) < 501" "up_retries (fst s) < 51"
    using assms(1) by (simp_all add: upload_stable_def)
  then have sums: "unat (up_unsuccessful (fst s) + 1) = unat (up_unsuccessful (fst s)) + 1"
    "unat (up_retries (fst s) + 1) = unat (up_retries (fst s)) + 1"
    using unat_below by fastforce+
  show ?thesis
  proof (cases "501 \<le> up_unsuccessful (fst s) + 1")
    case True
    then have "unat (up_unsuccessful (fst s)) = 500"
      using low(1) by (simp add: word_le_nat_alt word_less_nat_alt sums(1))
    then show ?thesis
      unfolding poll_active [OF assms(2)] if_P [OF True] by (simp add: sums)
  next
    case False
    show ?thesis
      unfolding poll_active [OF assms(2)] if_not_P [OF False] by (simp add: sums)
  qed
qed

lemma idle_run: "\<not> up_active (fst s) \<Longrightarrow> upload_run env es s = s"
proof (induction es)
  case (Cons e es)
  then show ?case using inactive_step [of s env e] by (simp add: upload_run_def)
qed (simp add: upload_run_def)

lemma silence_measure:
  assumes "upload_stable R env s" "up_active (fst (upload_run env (map Silence ts) s))"
  shows "unat (up_retries (fst s)) * 501 + unat (up_unsuccessful (fst s)) + length ts < 51 * 501"
  using assms
proof (induction ts arbitrary: s)
  case Nil
  then have "unat (up_retries (fst s)) < 51" "unat (up_unsuccessful (fst s)) < 501"
    by (simp_all add: upload_stable_def word_less_nat_alt)
  then show ?case by simp
next
  case (Cons t ts)
  let ?s = "upload_poll t s"
  have run: "upload_run env (map Silence (t # ts)) s = upload_run env (map Silence ts) ?s"
    by (simp add: upload_run_def)
  have "up_active (fst ?s)"
    using Cons.prems(2) idle_run [of ?s env "map Silence ts"] unfolding run by metis
  moreover have "upload_stable R env ?s"
    using poll_preserves [OF Cons.prems(1), of t] over_inactive [of R env ?s] calculation by blast
  ultimately show ?case
    using Cons.IH [of ?s] poll_measure [OF Cons.prems(1), of t] Cons.prems(2) run by simp
qed

text \<open>
  C34. Every upload ends. A host that stays silent cannot hold the files: after at most 51 * 501
  polls, whatever the clock shows, an upload that was started is no longer active.
\<close>
theorem upload_silence_ends:
  "upload_start env owner path now (u, []) = (s, True) \<Longrightarrow> 51 * 501 \<le> length ts \<Longrightarrow>
     \<not> up_active (fst (upload_run env (es @ map Silence ts) s))"
proof
  assume start: "upload_start env owner path now (u, []) = (s, True)" and long: "51 * 501 \<le> length ts"
    and act: "up_active (fst (upload_run env (es @ map Silence ts) s))"
  let ?r = "upload_run env es s"
  have run: "upload_run env (es @ map Silence ts) s = upload_run env (map Silence ts) ?r"
    by (simp add: upload_run_def)
  have "upload_over (\<Union> (received ` set es)) env ?r \<or> upload_stable (\<Union> (received ` set es)) env ?r"
    using run_preserves [of "{}" env s es] start_stable [OF start] by simp
  then have "upload_stable (\<Union> (received ` set es)) env ?r"
    using act run over_inactive idle_run by metis
  from silence_measure [OF this, of ts] act run long show False by simp
qed

section \<open>A host that follows the protocol\<close>

fun data_packets :: "nat \<Rightarrow> (nat \<Rightarrow> u64) \<Rightarrow> bytes list \<Rightarrow> upload_event list" where
  "data_packets k clock [] = []"
| "data_packets k clock (b # bs) =
     Packet \<lparr>ftype = 0xB3, fpayload = encode_u32 (of_nat k) @ b\<rparr> (clock k) #
     data_packets (Suc k) clock bs"

text \<open>The packets a host sends for a list of blocks, the k-th of them at \<open>clock k\<close>.\<close>

definition upload_packets :: "(nat \<Rightarrow> u64) \<Rightarrow> bytes \<Rightarrow> bytes list \<Rightarrow> upload_event list" where
  "upload_packets clock md5 blocks =
     Packet \<lparr>ftype = 0xB1, fpayload = md5\<rparr> (clock 0) #
     Packet \<lparr>ftype = 0xB2, fpayload = encode_u32 (of_nat (length blocks))\<rparr> (clock 0) #
     data_packets 1 clock blocks"

definition upload_acknowledged :: "upload_state \<Rightarrow> bool" where
  "upload_acknowledged s \<longleftrightarrow>
     \<not> up_active (fst s) \<and>
     Up_send (up_owner (fst s)) \<lparr>ftype = 0xB4, fpayload = octets ''ok'' @ [13, 10]\<rparr> \<in> set (snd s)"

lemma run_Cons [simp]: "upload_run env (e # es) s = upload_run env es (upload_step env e s)"
  by (simp add: upload_run_def)

lemma run_Nil [simp]: "upload_run env [] s = s"
  by (simp add: upload_run_def)

lemma complete_acknowledges:
  "upload_acknowledged (upload_complete env s) \<and>
   upload_blocks env (snd (upload_complete env s)) = upload_blocks env (snd s)"
  by (simp add: upload_complete_def upload_acknowledged_def upload_basics Let_def)

lemma finish_cycle_fresh:
  assumes "up_retries (fst s) < 51" "up_last_activity (fst s) = now"
  shows "upload_finish_cycle now s = up_call (Up_delay 10) s"
proof -
  have "\<not> 51 \<le> up_retries (fst s)" using assms(1) by simp
  then show ?thesis
    using assms(2) by (simp add: upload_finish_cycle_def upload_check_terminal_limits_def upload_basics)
qed

lemma of_nat_u32_le: "a < 2 ^ 32 \<Longrightarrow> b < 2 ^ 32 \<Longrightarrow> (of_nat a :: u32) \<le> of_nat b \<longleftrightarrow> a \<le> b"
  by (simp add: word_le_nat_alt unat_of_nat)

lemma data_packets_run:
  assumes "\<And>h d. env h (Write_primary d)" "length done + length bs < 2 ^ 32" "bs \<noteq> []"
    and "\<forall>b \<in> set bs. length b \<le> 8192"
    and "up_active (fst s)" "up_expected (fst s) = Expect_data"
    and "up_announced (fst s) = of_nat (length done + length bs)"
    and "up_requested (fst s) = of_nat (Suc (length done))"
    and "up_retries (fst s) < 51" "upload_blocks env (snd s) = done"
  shows "upload_acknowledged (upload_run env (data_packets (Suc (length done)) clock bs) s) \<and>
    upload_blocks env (snd (upload_run env (data_packets (Suc (length done)) clock bs) s)) = done @ bs"
  using assms(2-)
proof (induction bs arbitrary: s "done")
  case Nil
  then show ?case by simp
next
  case (Cons b bs)
  let ?k = "Suc (length done)"
  define f where "f = \<lparr>ftype = 0xB3, fpayload = encode_u32 (of_nat ?k) @ b\<rparr>"
  define r where "r = up_call (Write_primary b) (up_set (\<lambda>u. u\<lparr>up_last_activity := clock ?k\<rparr>) s)"
  have payload: "length (fpayload f) \<le> 8196" "decode_be32 (fpayload f) = of_nat ?k" "drop 4 (fpayload f) = b"
    using Cons.prems(3) by (simp_all add: f_def)
  have last: "of_nat (length done + length (b # bs)) \<le> (of_nat ?k :: u32) \<longleftrightarrow> bs = []"
    using Cons.prems(1) by (subst of_nat_u32_le) auto
  have accept: "upload_accept_data env (fpayload f) (up_set (\<lambda>u. u\<lparr>up_last_activity := clock ?k\<rparr>) s) =
      (if bs = [] then upload_complete env r
       else up_reply 0xB3 (encode_u32 (of_nat (Suc ?k)))
         (up_set (\<lambda>u. u\<lparr>up_unsuccessful := 0, up_retries := 0, up_requested := of_nat (Suc ?k)\<rparr>) r))"
    using Cons.prems assms(1) payload(3) last
    by (simp add: upload_accept_data_def upload_basics Let_def r_def upload_reset_retry_history_def add.commute)
  have handle: "upload_handle env f (clock ?k) s =
      (let m = upload_accept_data env (fpayload f) (up_set (\<lambda>u. u\<lparr>up_last_activity := clock ?k\<rparr>) s)
       in if up_active (fst m) then upload_finish_cycle (clock ?k) m else m)"
    using Cons.prems payload by (simp add: upload_handle_def f_def upload_basics Let_def)
  have blocks: "upload_blocks env (snd r) = done @ [b]"
    using Cons.prems assms(1) by (simp add: r_def upload_basics)
  have packets: "data_packets ?k clock (b # bs) = Packet f (clock ?k) # data_packets (Suc ?k) clock bs"
    by (simp add: f_def)
  show ?case
    unfolding packets run_Cons upload_step.simps
  proof (cases "bs = []")
    case True
    then have "upload_handle env f (clock ?k) s = upload_complete env r"
      unfolding handle accept using complete_acknowledges [of env r] by (simp add: upload_acknowledged_def)
    then show "upload_acknowledged (upload_run env (data_packets (Suc ?k) clock bs) (upload_handle env f (clock ?k) s)) \<and>
        upload_blocks env (snd (upload_run env (data_packets (Suc ?k) clock bs) (upload_handle env f (clock ?k) s))) = done @ b # bs"
      using complete_acknowledges [of env r] blocks True by simp
  next
    case False
    define m where "m = up_reply 0xB3 (encode_u32 (of_nat (Suc ?k)))
         (up_set (\<lambda>u. u\<lparr>up_unsuccessful := 0, up_retries := 0, up_requested := of_nat (Suc ?k)\<rparr>) r)"
    have "upload_finish_cycle (clock ?k) m = up_call (Up_delay 10) m"
      by (rule finish_cycle_fresh) (simp_all add: m_def r_def upload_basics)
    then have "upload_handle env f (clock ?k) s = up_call (Up_delay 10) m"
      unfolding handle accept using False Cons.prems(4)
      by (simp flip: m_def) (simp add: m_def r_def upload_basics)
    moreover have "upload_acknowledged (upload_run env (data_packets (Suc (length (done @ [b]))) clock bs) (up_call (Up_delay 10) m)) \<and>
      upload_blocks env (snd (upload_run env (data_packets (Suc (length (done @ [b]))) clock bs) (up_call (Up_delay 10) m))) = (done @ [b]) @ bs"
      by (rule Cons.IH)
        (use Cons.prems False blocks in \<open>simp_all add: m_def r_def upload_basics\<close>)
    ultimately show "upload_acknowledged (upload_run env (data_packets (Suc ?k) clock bs) (upload_handle env f (clock ?k) s)) \<and>
        upload_blocks env (snd (upload_run env (data_packets (Suc ?k) clock bs) (upload_handle env f (clock ?k) s))) = done @ b # bs"
      by simp
  qed
qed

text \<open>
  C33. A host that follows the protocol uploads its file. After a successful start, with a file
  system that takes every block, the digest, the geometry and then the numbered blocks (at least
  one, each of at most 8192 bytes) lead to the acknowledgement, the end of the operation, and a
  file that consists of exactly those blocks in order.
\<close>
theorem upload_follows_protocol:
  assumes "upload_start env owner path now (u, []) = (s, True)" "\<And>h d. env h (Write_primary d)"
    and "32 \<le> length md5" "blocks \<noteq> []" "length blocks < 2 ^ 32" "\<forall>b \<in> set blocks. length b \<le> 8192"
  shows "upload_acknowledged (upload_run env (upload_packets clock md5 blocks) s) \<and>
    upload_blocks env (snd (upload_run env (upload_packets clock md5 blocks) s)) = blocks"
proof -
  have stable: "upload_stable {} env s" using start_stable [OF assms(1)] .
  have exp: "up_expected (fst s) = Expect_md5"
    using assms(1) by (auto simp: upload_start_def upload_start_refused_def upload_basics Let_def
        split: option.splits if_splits)
  have act: "up_active (fst s)" "up_retries (fst s) < 51" "upload_blocks env (snd s) = []"
    using stable exp by (auto simp: upload_stable_def upload_underway_def upload_position_def)
  define s1 where "s1 = up_call (Up_delay 10) (upload_accept_md5 md5 (up_set (\<lambda>u. u\<lparr>up_last_activity := clock 0\<rparr>) s))"
  have "upload_finish_cycle (clock 0) (upload_accept_md5 md5 (up_set (\<lambda>u. u\<lparr>up_last_activity := clock 0\<rparr>) s)) = s1"
    unfolding s1_def by (rule finish_cycle_fresh) (use act in \<open>simp_all add: upload_accept_md5_def upload_basics\<close>)
  then have one: "upload_handle env \<lparr>ftype = 0xB1, fpayload = md5\<rparr> (clock 0) s = s1"
    using act exp assms(3) by (simp add: upload_handle_def Let_def upload_basics upload_accept_md5_def)
  have s1: "up_active (fst s1)" "up_retries (fst s1) < 51" "up_expected (fst s1) = Expect_geometry"
    "upload_blocks env (snd s1) = []"
    using act by (simp_all add: s1_def upload_accept_md5_def upload_basics)
  define p where "p = encode_u32 (of_nat (length blocks))"
  have p: "length p = 4" "decode_be32 p = of_nat (length blocks)"
    using decode_encode_u32 [of "of_nat (length blocks)" "[]"] by (simp_all add: p_def)
  define s2 where "s2 = up_call (Up_delay 10) (upload_accept_geometry p (up_set (\<lambda>u. u\<lparr>up_last_activity := clock 0\<rparr>) s1))"
  have "upload_finish_cycle (clock 0) (upload_accept_geometry p (up_set (\<lambda>u. u\<lparr>up_last_activity := clock 0\<rparr>) s1)) = s2"
    unfolding s2_def by (rule finish_cycle_fresh) (use s1 in \<open>simp_all add: upload_accept_geometry_def upload_basics Let_def\<close>)
  then have two: "upload_handle env \<lparr>ftype = 0xB2, fpayload = p\<rparr> (clock 0) s1 = s2"
    using s1 p by (simp add: upload_handle_def Let_def upload_basics upload_accept_geometry_def)
  have "upload_acknowledged (upload_run env (data_packets (Suc (length ([] :: bytes list))) clock blocks) s2) \<and>
    upload_blocks env (snd (upload_run env (data_packets (Suc (length ([] :: bytes list))) clock blocks) s2)) = [] @ blocks"
    by (rule data_packets_run)
      (use assms s1 p in \<open>simp_all add: s2_def upload_accept_geometry_def upload_basics Let_def\<close>)
  then show ?thesis
    by (simp add: upload_packets_def one flip: p_def) (simp add: two)
qed

text \<open>
  A start that fails half-way leaves its target behind. When the target can be opened but its
  checksum file cannot, the start is refused and ownership is released, but the target, which the
  opening has already truncated, is neither closed nor removed.
\<close>
theorem refused_start_leaves_target:
  assumes "map_file_cache_paths path = \<lparr>md5_path = Some md5, compressed_path = z\<rparr>"
    and "\<not> ascii_case_equal path (physical_sd_path ''/firmware.bin'')"
    and "upload_start (\<lambda>h c. \<forall>q. c \<noteq> Open_md5 q) owner path now (u, []) = ((v, h), started)"
  shows "\<not> started \<and> Open_primary path \<in> set h \<and> Up_release \<in> set h \<and>
    count_calls closes_files h = 0 \<and> Remove_file path \<notin> set h"
  using assms by (auto simp: upload_start_def upload_start_refused_def upload_basics Let_def)

section \<open>Examples\<close>

definition example_upload :: upload where
  "example_upload =
     \<lparr>up_owner = \<lparr>host_transport = Tcp, host_slot = 0, host_generation = 0\<rparr>, up_resolved_path = [],
      up_logical_path = [], up_target_path = [], up_md5_path = [], up_last_activity = 0,
      up_announced = 0, up_requested = 1, up_unsuccessful = 0, up_retries = 0,
      up_expected = Expect_md5, up_firmware = False, up_active = False\<rparr>"

lemma example_paths:
  "map_file_cache_paths ''/sd/a'' = \<lparr>md5_path = Some ''/sd/.md5/a'', compressed_path = None\<rparr>"
  "\<not> ascii_case_equal ''/sd/a'' (physical_sd_path ''/firmware.bin'')"
  by (simp_all add: map_file_cache_paths_def physical_sd_path_def ascii_case_equal_def)

lemma example_start:
  "\<exists>s. upload_start (\<lambda>h c. True) owner ''/sd/a'' now (example_upload, []) = (s, True)"
  by (simp add: upload_start_def example_paths upload_basics Let_def)

theorem refused_start_leaves_target_witness:
  "\<not> snd (upload_start (\<lambda>h c. \<forall>q. c \<noteq> Open_md5 q)
      \<lparr>host_transport = Tcp, host_slot = 0, host_generation = 0\<rparr> ''/sd/a'' 0 (example_upload, []))"
proof -
  obtain v h b where start: "upload_start (\<lambda>h c. \<forall>q. c \<noteq> Open_md5 q)
      \<lparr>host_transport = Tcp, host_slot = 0, host_generation = 0\<rparr> ''/sd/a'' 0 (example_upload, []) = ((v, h), b)"
    by (metis surj_pair)
  from refused_start_leaves_target [OF example_paths start] start show ?thesis by simp
qed

theorem upload_all_or_nothing_witness:
  "\<exists>s v h. upload_start (\<lambda>h c. True) \<lparr>host_transport = Tcp, host_slot = 0, host_generation = 0\<rparr>
       ''/sd/a'' 0 (example_upload, []) = (s, True) \<and>
     upload_run (\<lambda>h c. True) [Packet \<lparr>ftype = 0xB5, fpayload = []\<rparr> 1] s = (v, h) \<and> \<not> up_active v \<and>
     count_calls (\<lambda>c. c = Up_release) h = 1"
proof -
  let ?o = "\<lparr>host_transport = Tcp, host_slot = 0, host_generation = 0\<rparr>"
  obtain s where s: "upload_start (\<lambda>h c. True) ?o ''/sd/a'' 0 (example_upload, []) = (s, True)"
    using example_start by blast
  obtain v h where run: "upload_run (\<lambda>h c. True) [Packet \<lparr>ftype = 0xB5, fpayload = []\<rparr> 1] s = (v, h)"
    by (metis surj_pair)
  then have "\<not> up_active v"
    by (auto simp: upload_handle_def upload_cancel_def upload_cleanup_def upload_basics Let_def split: if_splits)
  then show ?thesis
    using s run upload_all_or_nothing [OF s run] by simp
qed

theorem upload_silence_ends_witness:
  "\<exists>s. upload_start (\<lambda>h c. True) \<lparr>host_transport = Tcp, host_slot = 0, host_generation = 0\<rparr>
       ''/sd/a'' 0 (example_upload, []) = (s, True) \<and>
     \<not> up_active (fst (upload_run (\<lambda>h c. True) ([] @ map Silence (replicate 25551 0)) s))"
proof -
  obtain s where s: "upload_start (\<lambda>h c. True) \<lparr>host_transport = Tcp, host_slot = 0, host_generation = 0\<rparr>
       ''/sd/a'' 0 (example_upload, []) = (s, True)"
    using example_start by blast
  show ?thesis
    using upload_silence_ends [OF s, of "replicate 25551 0" "[]"] s
    by (intro exI [of _ s] conjI) (simp_all only: length_replicate, simp)
qed

theorem upload_follows_protocol_witness:
  "\<exists>s. upload_start (\<lambda>h c. True) \<lparr>host_transport = Tcp, host_slot = 0, host_generation = 0\<rparr>
       ''/sd/a'' 0 (example_upload, []) = (s, True) \<and>
     upload_blocks (\<lambda>h c. True)
       (snd (upload_run (\<lambda>h c. True) (upload_packets (\<lambda>k. 5) (replicate 32 48) [[1, 2], [3]]) s)) =
     [[1, 2], [3]]"
proof -
  obtain s where s: "upload_start (\<lambda>h c. True) \<lparr>host_transport = Tcp, host_slot = 0, host_generation = 0\<rparr>
       ''/sd/a'' 0 (example_upload, []) = (s, True)"
    using example_start by blast
  show ?thesis
    using upload_follows_protocol [OF s, of "replicate 32 48" "[[1, 2], [3]]" "\<lambda>k. 5"] s by auto
qed

end
