(* ===== verification/File_Download.thy ===== *)
theory File_Download
  imports Ports Routing Transfer_Paths "HOL-Library.Signed_Division"
begin

text \<open>
  Download of a file to a host, \<open>components/application/src/storage/file_download.cpp\<close>. The port is
  a history of calls; an environment record answers the calls that return something, from the
  history before the call and its arguments.
\<close>

section \<open>State and port\<close>

datatype last_response = Last_none | Last_md5 | Last_geometry | Last_data

record download =
  dn_owner :: host_identity
  dn_resolved_path :: string
  dn_path :: string
  dn_md5 :: string
  dn_last_activity :: u64
  dn_last_sequence :: u32
  dn_unexpected :: u8
  dn_last_response :: last_response
  dn_retained :: frame
  dn_active :: bool

datatype download_call =
    Dn_prepare cache_paths | Dn_md5 string | Dn_read_cache string nat | Dn_exists string
  | Dn_open string | Dn_size | Dn_read u64 nat | Dn_workspace nat | Dn_close
  | Dn_send host_identity frame | Dn_diagnose_drop | Dn_release

record download_env =
  env_md5 :: "download_call list \<Rightarrow> string \<Rightarrow> string option"
  env_cache :: "download_call list \<Rightarrow> string \<Rightarrow> nat \<Rightarrow> bytes option"
  env_exists :: "download_call list \<Rightarrow> string \<Rightarrow> bool"
  env_open :: "download_call list \<Rightarrow> string \<Rightarrow> int option"
  env_size :: "download_call list \<Rightarrow> int"
  env_read :: "download_call list \<Rightarrow> u64 \<Rightarrow> nat \<Rightarrow> bytes option"
  env_workspace :: "download_call list \<Rightarrow> nat \<Rightarrow> bool"
  env_send :: "download_call list \<Rightarrow> host_identity \<Rightarrow> frame \<Rightarrow> bool"

type_synonym download_state = "download \<times> download_call list"

definition dn_call :: "download_call \<Rightarrow> download_state \<Rightarrow> download_state" where
  "dn_call c s = (fst s, snd s @ [c])"

definition dn_set :: "(download \<Rightarrow> download) \<Rightarrow> download_state \<Rightarrow> download_state" where
  "dn_set f s = (f (fst s), snd s)"

definition dn_reply :: "frame \<Rightarrow> download_state \<Rightarrow> download_state" where
  "dn_reply f s = dn_call (Dn_send (dn_owner (fst s)) f) s"

section \<open>Messages\<close>

definition default_md5 :: string where
  "default_md5 = ''82df799dde08f3d86839e24cb97e74d4''"

definition download_timeout_error :: bytes where
  "download_timeout_error = octets ''Error: Machine received cmd timeout!''"

definition download_excessive_error :: bytes where
  "download_excessive_error = octets ''Error: Machine received too many wrong command!''"

definition is_config_file :: "string \<Rightarrow> bool" where
  "is_config_file path \<longleftrightarrow> rev (takeWhile (\<lambda>c. c \<noteq> CHR ''/'') (rev path)) = ''config.txt''"

section \<open>Operations\<close>

definition download_finish :: "download_state \<Rightarrow> download_state" where
  "download_finish s =
     (let s = (if dn_active (fst s) then dn_call Dn_close s else s)
      in dn_call Dn_release (dn_set (\<lambda>d. d\<lparr>dn_active := False\<rparr>) s))"

definition download_abort :: "bytes \<Rightarrow> download_state \<Rightarrow> download_state" where
  "download_abort message s = download_finish (dn_reply \<lparr>ftype = 0xB5, fpayload = message\<rparr> s)"

definition send_path_error :: "string \<Rightarrow> download_state \<Rightarrow> download_state" where
  "send_path_error prefix s =
     (let payload = octets prefix @ octets (take (min (length (dn_path (fst s))) 240) (dn_path (fst s))) @
                    octets '']!''
      in dn_call Dn_release
           (dn_set (\<lambda>d. d\<lparr>dn_active := False\<rparr>) (dn_reply \<lparr>ftype = 0xB5, fpayload = payload\<rparr> s)))"

definition send_md5 :: "download_state \<Rightarrow> download_state" where
  "send_md5 s =
     (let s = dn_set (\<lambda>d. d\<lparr>dn_retained := \<lparr>ftype = 0xB1, fpayload = octets (dn_md5 d)\<rparr>\<rparr>) s;
          s = dn_reply (dn_retained (fst s)) s
      in dn_set (\<lambda>d. d\<lparr>dn_last_response := Last_md5, dn_unexpected := 0\<rparr>) s)"

text \<open>The block count of a signed size; division truncates towards zero.\<close>

definition block_count :: "int \<Rightarrow> int" where
  "block_count n = n sdiv 8192 + (if n smod 8192 > 0 then 1 else 0)"

definition send_geometry :: "download_env \<Rightarrow> download_state \<Rightarrow> download_state" where
  "send_geometry env s =
     (let n = env_size env (snd s);
          s = dn_call Dn_size s;
          payload = encode_u32 (of_int (block_count n)) @ [0x20, 0x00];
          s = dn_set (\<lambda>d. d\<lparr>dn_retained := \<lparr>ftype = 0xB2, fpayload = payload\<rparr>\<rparr>) s;
          s = dn_reply (dn_retained (fst s)) s
      in dn_set (\<lambda>d. d\<lparr>dn_last_response := Last_geometry, dn_unexpected := 0\<rparr>) s)"

definition data_offset :: "u32 \<Rightarrow> u32" where
  "data_offset sequence = (sequence - 1) * 8192"

definition send_data :: "download_env \<Rightarrow> u32 \<Rightarrow> download_state \<Rightarrow> download_state" where
  "send_data env sequence s =
     (let s = dn_set (\<lambda>d. d\<lparr>dn_last_sequence := sequence, dn_last_response := Last_data\<rparr>) s;
          offset = ucast (data_offset sequence);
          data = env_read env (snd s) offset data_block_size;
          s = dn_call (Dn_read offset data_block_size) s
      in case data of
           None \<Rightarrow> download_abort download_timeout_error s
         | Some bs \<Rightarrow>
             if bs = [] then download_abort download_timeout_error s
             else let workspace = env_workspace env (snd s) (data_block_size + 4);
                      s = dn_call (Dn_workspace (data_block_size + 4)) s
                  in if \<not> workspace then s
                     else
                       let payload = encode_u32 sequence @ take data_block_size bs;
                           s = dn_set (\<lambda>d. d\<lparr>dn_retained := \<lparr>ftype = 0xB3, fpayload = payload\<rparr>\<rparr>) s;
                           sent = env_send env (snd s) (dn_owner (fst s)) (dn_retained (fst s));
                           s = dn_reply (dn_retained (fst s)) s;
                           s = (if \<not> sent then dn_call Dn_diagnose_drop s else s)
                       in dn_set (\<lambda>d. d\<lparr>dn_unexpected := 0\<rparr>) s)"

definition download_record_unexpected :: "download_state \<Rightarrow> download_state" where
  "download_record_unexpected s =
     (let s = dn_set (\<lambda>d. d\<lparr>dn_unexpected := dn_unexpected d + 1\<rparr>) s
      in if dn_unexpected (fst s) \<ge> 51 then download_abort download_excessive_error s else s)"

definition retry_last :: "download_env \<Rightarrow> download_state \<Rightarrow> download_state" where
  "retry_last env s =
     (case dn_last_response (fst s) of
        Last_data \<Rightarrow> send_data env (dn_last_sequence (fst s)) s
      | Last_geometry \<Rightarrow> send_geometry env s
      | Last_md5 \<Rightarrow> dn_set (\<lambda>d. d\<lparr>dn_unexpected := 0\<rparr>) (dn_reply (dn_retained (fst s)) s)
      | Last_none \<Rightarrow> download_record_unexpected s)"

definition download_handle :: "download_env \<Rightarrow> frame \<Rightarrow> u64 \<Rightarrow> download_state \<Rightarrow> download_state" where
  "download_handle env f now s =
     (if \<not> dn_active (fst s) then s
      else
        let s = dn_set (\<lambda>d. d\<lparr>dn_last_activity := now\<rparr>) s
        in if ftype f = 0xB1 then send_md5 s
           else if ftype f = 0xB2 then send_geometry env s
           else if ftype f = 0xB3 then
             (if length (fpayload f) < 4 then download_record_unexpected s
              else send_data env (decode_be32 (fpayload f)) s)
           else if ftype f = 0xB4 then
             let s = dn_reply \<lparr>ftype = 0xB4, fpayload = octets ''ok'' @ [13, 10]\<rparr> s;
                 payload = octets ''Info: download success: '' @ octets (dn_path (fst s)) @ octets ''.'';
                 s = dn_set (\<lambda>d. d\<lparr>dn_retained := (dn_retained d)\<lparr>fpayload := payload\<rparr>\<rparr>) s
             in download_finish (dn_reply \<lparr>ftype = 0x90, fpayload = payload\<rparr> s)
           else if ftype f = 0xB5 then
             download_finish
               (dn_reply \<lparr>ftype = 0xB5, fpayload = octets ''Info: canceled by remote!''\<rparr> s)
           else if ftype f = 0xB6 then retry_last env s
           else download_record_unexpected s)"

definition download_poll :: "u64 \<Rightarrow> download_state \<Rightarrow> download_state" where
  "download_poll now s =
     (if dn_active (fst s) \<and> now - dn_last_activity (fst s) > inactivity_timeout
      then download_abort download_timeout_error s else s)"

definition download_resume :: "download_env \<Rightarrow> u64 \<Rightarrow> download_state \<Rightarrow> download_state" where
  "download_resume env now s =
     (if \<not> dn_active (fst s) then s
      else if now - dn_last_activity (fst s) > inactivity_timeout
      then download_abort download_timeout_error s
      else retry_last env s)"

text \<open>The digest a download announces: calculated for a configuration file, else from the sidecar.\<close>

definition choose_md5 :: "download_env \<Rightarrow> download_state \<Rightarrow> download_state \<times> bool" where
  "choose_md5 env s =
     (let path = dn_resolved_path (fst s); cache = map_file_cache_paths path
      in if is_config_file path then
           let calculated = env_md5 env (snd s) path; s = dn_call (Dn_md5 path) s
           in case calculated of
                None \<Rightarrow> (s, False)
              | Some m \<Rightarrow> if length m \<noteq> md5_text_size then (s, False)
                           else (dn_set (\<lambda>d. d\<lparr>dn_md5 := m\<rparr>) s, True)
         else
           let s = dn_set (\<lambda>d. d\<lparr>dn_md5 := default_md5\<rparr>) s
           in case md5_path cache of
                None \<Rightarrow> (s, True)
              | Some sidecar \<Rightarrow>
                  let content = env_cache env (snd s) sidecar 63;
                      s = dn_call (Dn_read_cache sidecar 63) s
                  in case content of
                       None \<Rightarrow> (s, True)
                     | Some bs \<Rightarrow>
                         (case extract_cached_md5 bs of
                            None \<Rightarrow> (s, True)
                          | Some m \<Rightarrow> (dn_set (\<lambda>d. d\<lparr>dn_md5 := m\<rparr>) s, True)))"

definition download_start ::
    "download_env \<Rightarrow> host_identity \<Rightarrow> string \<Rightarrow> u64 \<Rightarrow> download_state \<Rightarrow> download_state \<times> bool" where
  "download_start env owner path now s =
     (let s = dn_set (\<lambda>d. d\<lparr>dn_owner := owner, dn_resolved_path := path, dn_path := path\<rparr>) s;
          cache = map_file_cache_paths path;
          s = dn_call (Dn_prepare cache) s;
          (s, digest) = choose_md5 env s
      in if \<not> digest then (send_path_error ''Error: failed to get MD5 for ['' s, False)
         else
           let (s, selected) =
                 (case compressed_path cache of
                    None \<Rightarrow> (s, path)
                  | Some z \<Rightarrow> (dn_call (Dn_exists z) s, if env_exists env (snd s) z then z else path));
               opened = env_open env (snd s) selected;
               s = dn_call (Dn_open selected) s
           in case opened of
                None \<Rightarrow> (send_path_error ''Error: failed to open file ['' s, False)
              | Some n \<Rightarrow>
                  (send_md5 (dn_set (\<lambda>d. d\<lparr>dn_last_activity := now, dn_unexpected := 0,
                                          dn_active := True\<rparr>) s), True))"

section \<open>Histories of a download\<close>

datatype download_event = Request frame u64 | Idle u64 | Rejoined u64

fun download_step :: "download_env \<Rightarrow> download_event \<Rightarrow> download_state \<Rightarrow> download_state" where
  "download_step env (Request f now) s = download_handle env f now s"
| "download_step env (Idle now) s = download_poll now s"
| "download_step env (Rejoined now) s = download_resume env now s"

definition download_run :: "download_env \<Rightarrow> download_event list \<Rightarrow> download_state \<Rightarrow> download_state" where
  "download_run env es s = fold (download_step env) es s"

lemma download_run_simps [simp]:
  "download_run env [] s = s"
  "download_run env (e # es) s = download_run env es (download_step env e s)"
  by (simp_all add: download_run_def)

lemmas download_basics = dn_call_def dn_reply_def dn_set_def

text \<open>How often a history opened or closed the file, and how often it gave up the ownership.\<close>

definition download_balanced :: "download_state \<Rightarrow> bool" where
  "download_balanced s \<longleftrightarrow>
     (let closed = count_calls (\<lambda>c. c = Dn_close) (snd s);
          released = count_calls (\<lambda>c. c = Dn_release) (snd s)
      in if dn_active (fst s) then closed = 0 \<and> released = 0 else closed = 1 \<and> released = 1)"

lemma finish_balanced:
  assumes "download_balanced s" "dn_active (fst s)"
  shows "download_balanced (download_finish s) \<and> \<not> dn_active (fst (download_finish s))"
  using assms by (simp add: download_balanced_def download_finish_def download_basics Let_def)

lemma reply_balanced [simp]:
  "download_balanced (dn_reply f s) = download_balanced s"
  "dn_active (fst (dn_reply f s)) = dn_active (fst s)"
  by (simp_all add: download_balanced_def download_basics)

lemma abort_balanced:
  assumes "download_balanced s" "dn_active (fst s)"
  shows "download_balanced (download_abort m s)"
  using finish_balanced [of "dn_reply \<lparr>ftype = 0xB5, fpayload = m\<rparr> s"] assms
  by (simp add: download_abort_def)

lemma send_md5_balanced: "download_balanced s \<Longrightarrow> download_balanced (send_md5 s)"
  by (simp add: download_balanced_def send_md5_def download_basics Let_def)

lemma send_geometry_balanced: "download_balanced s \<Longrightarrow> download_balanced (send_geometry env s)"
  by (simp add: download_balanced_def send_geometry_def download_basics Let_def)

lemma unexpected_balanced:
  assumes "download_balanced s" "dn_active (fst s)"
  shows "download_balanced (download_record_unexpected s)"
  using assms abort_balanced [of "dn_set (\<lambda>d. d\<lparr>dn_unexpected := dn_unexpected d + 1\<rparr>) s"]
  by (simp add: download_record_unexpected_def Let_def) (simp add: download_balanced_def download_basics)

lemma send_data_balanced:
  assumes "download_balanced s" "dn_active (fst s)"
  shows "download_balanced (send_data env k s)"
proof -
  define r where "r = dn_call (Dn_read (ucast (data_offset k)) 8192)
      (dn_set (\<lambda>d. d\<lparr>dn_last_sequence := k, dn_last_response := Last_data\<rparr>) s)"
  have r: "download_balanced r" "dn_active (fst r)"
    using assms by (simp_all add: download_balanced_def download_basics r_def)
  show ?thesis
    using abort_balanced [OF r, of download_timeout_error] r
    by (auto simp: send_data_def Let_def simp flip: r_def split: option.splits)
      (auto simp: download_balanced_def download_basics)
qed

lemma retry_balanced:
  assumes "download_balanced s" "dn_active (fst s)"
  shows "download_balanced (retry_last env s)"
  using assms send_data_balanced send_geometry_balanced unexpected_balanced
  by (cases "dn_last_response (fst s)")
    (simp_all add: retry_last_def, simp add: download_balanced_def download_basics)

lemma download_step_balanced:
  assumes "download_balanced s"
  shows "download_balanced (download_step env e s)"
proof (cases "dn_active (fst s)")
  case False
  then show ?thesis
    using assms by (cases e) (simp_all add: download_handle_def download_poll_def download_resume_def)
next
  case True
  show ?thesis
  proof (cases e)
    case (Request f now)
    define r where "r = dn_set (\<lambda>d. d\<lparr>dn_last_activity := now\<rparr>) s"
    have r: "download_balanced r" "dn_active (fst r)"
      using assms True by (simp_all add: download_balanced_def download_basics r_def)
    have retained: "download_balanced (dn_set (\<lambda>d. d\<lparr>dn_retained := g d\<rparr>) q) = download_balanced q"
      "dn_active (fst (dn_set (\<lambda>d. d\<lparr>dn_retained := g d\<rparr>) q)) = dn_active (fst q)" for g q
      by (simp_all add: download_balanced_def download_basics)
    have "download_balanced (download_finish q)" if "download_balanced q" "dn_active (fst q)" for q
      using finish_balanced that by blast
    then show ?thesis
      using True r send_md5_balanced [OF r(1)] send_geometry_balanced [OF r(1)] unexpected_balanced [OF r]
        send_data_balanced [OF r] retry_balanced [OF r]
      by (simp add: Request download_handle_def Let_def retained flip: r_def)
  next
    case (Idle now)
    then show ?thesis
      using assms True abort_balanced by (simp add: download_poll_def)
  next
    case (Rejoined now)
    then show ?thesis
      using assms True abort_balanced retry_balanced by (simp add: download_resume_def)
  qed
qed

lemma download_run_balanced: "download_balanced s \<Longrightarrow> download_balanced (download_run env es s)"
  by (induction es arbitrary: s) (simp_all add: download_step_balanced)

lemma choose_md5_calls:
  "snd (fst (choose_md5 env s)) = snd s \<or> (\<exists>c. c \<noteq> Dn_close \<and> c \<noteq> Dn_release \<and> snd (fst (choose_md5 env s)) = snd s @ [c])"
  by (auto simp: choose_md5_def download_basics Let_def split: option.splits)

lemma path_error_calls:
  "count_calls (\<lambda>c. c = Dn_close) (snd (send_path_error p s)) = count_calls (\<lambda>c. c = Dn_close) (snd s)"
  "count_calls (\<lambda>c. c = Dn_release) (snd (send_path_error p s)) = Suc (count_calls (\<lambda>c. c = Dn_release) (snd s))"
  "\<not> dn_active (fst (send_path_error p s))"
  by (simp_all add: send_path_error_def download_basics Let_def)

lemma send_md5_calls:
  "count_calls (\<lambda>c. c = Dn_close) (snd (send_md5 s)) = count_calls (\<lambda>c. c = Dn_close) (snd s)"
  "count_calls (\<lambda>c. c = Dn_release) (snd (send_md5 s)) = count_calls (\<lambda>c. c = Dn_release) (snd s)"
  "dn_active (fst (send_md5 s)) = dn_active (fst s)"
  by (simp_all add: send_md5_def download_basics Let_def)

lemma download_start_balanced:
  assumes "download_start env owner path now (d, []) = (s, started)"
  shows "if started then download_balanced s \<and> dn_active (fst s)
    else count_calls (\<lambda>c. c = Dn_close) (snd s) = 0 \<and> count_calls (\<lambda>c. c = Dn_release) (snd s) = 1 \<and>
         \<not> dn_active (fst s)"
proof -
  define q where "q = dn_call (Dn_prepare (map_file_cache_paths path))
      (dn_set (\<lambda>d. d\<lparr>dn_owner := owner, dn_resolved_path := path, dn_path := path\<rparr>) (d, []))"
  obtain r b where r: "choose_md5 env q = (r, b)" by (cases "choose_md5 env q")
  have sq: "snd q = [Dn_prepare (map_file_cache_paths path)]"
    by (simp add: q_def download_basics)
  have "count_calls (\<lambda>c. c = Dn_close) (snd r) = 0" "count_calls (\<lambda>c. c = Dn_release) (snd r) = 0"
    using choose_md5_calls [of env q] sq by (auto simp: r)
  note zero = this
  obtain m where m: "(case compressed_path (map_file_cache_paths path) of None \<Rightarrow> (r, path)
      | Some z \<Rightarrow> (dn_call (Dn_exists z) r, if env_exists env (snd r) z then z else path)) = m"
    by blast
  have chosen: "count_calls (\<lambda>c. c = Dn_close) (snd (fst m)) = 0" "count_calls (\<lambda>c. c = Dn_release) (snd (fst m)) = 0"
    using zero m by (auto simp: download_basics split: option.splits)
  have start: "(s, started) =
      (if \<not> b then (send_path_error ''Error: failed to get MD5 for ['' r, False)
       else case env_open env (snd (fst m)) (snd m) of
          None \<Rightarrow> (send_path_error ''Error: failed to open file ['' (dn_call (Dn_open (snd m)) (fst m)), False)
        | Some n \<Rightarrow> (send_md5 (dn_set (\<lambda>d. d\<lparr>dn_last_activity := now, dn_unexpected := 0, dn_active := True\<rparr>)
            (dn_call (Dn_open (snd m)) (fst m))), True))"
    using assms [unfolded download_start_def Let_def, folded q_def, unfolded r split m, symmetric]
    by (cases m) (simp only: split fst_conv snd_conv)
  show ?thesis
  proof (cases b)
    case False
    then show ?thesis using start zero by (simp add: path_error_calls)
  next
    case True
    then show ?thesis
      using start chosen
      by (auto simp: path_error_calls send_md5_calls download_balanced_def download_basics Let_def split: option.splits)
  qed
qed

text \<open>
  A download holds its file exactly as long as it is active. Whatever follows a start, the
  file is closed and the ownership released not at all while the download is active and exactly once
  when it has ended; a refused start closes nothing and releases the ownership once.
\<close>
theorem download_releases_once:
  assumes "download_start env owner path now (d, []) = (s, started)" "download_run env es s = (e, h)"
  shows "count_calls (\<lambda>c. c = Dn_release) h = (if dn_active e then 0 else 1) \<and>
    count_calls (\<lambda>c. c = Dn_close) h = (if started \<and> \<not> dn_active e then 1 else 0)"
proof (cases started)
  case True
  then have "download_balanced (e, h)"
    using download_start_balanced [OF assms(1)] download_run_balanced [of s env es] assms(2) by simp
  then show ?thesis using True by (simp add: download_balanced_def Let_def split: if_splits)
next
  case False
  have idle: "download_step env v s = s" if "\<not> dn_active (fst s)" for v s
    using that by (cases v) (simp_all add: download_handle_def download_poll_def download_resume_def)
  have "download_run env es s = s" if "\<not> dn_active (fst s)"
    using that by (induction es) (simp_all add: idle)
  then show ?thesis
    using download_start_balanced [OF assms(1)] assms(2) False by auto
qed

section \<open>What a download transfers\<close>

text \<open>The file data in a list of calls, in the order it was sent.\<close>

definition sent_data :: "download_call list \<Rightarrow> bytes" where
  "sent_data h = concat (map (\<lambda>c. case c of Dn_send w f \<Rightarrow> if ftype f = 0xB3 then drop 4 (fpayload f) else []
                                  | _ \<Rightarrow> []) h)"

lemma sent_data_simps [simp]:
  "sent_data [] = []"
  "sent_data (h @ h') = sent_data h @ sent_data h'"
  "sent_data (Dn_send w f # h) = (if ftype f = 0xB3 then drop 4 (fpayload f) else []) @ sent_data h"
  "sent_data (Dn_read n k # h) = sent_data h" "sent_data (Dn_workspace k # h) = sent_data h"
  "sent_data (Dn_diagnose_drop # h) = sent_data h" "sent_data (Dn_size # h) = sent_data h"
  by (simp_all add: sent_data_def)

text \<open>A port that gives access to a file of these bytes and has memory for a block.\<close>

definition serves :: "download_env \<Rightarrow> bytes \<Rightarrow> bool" where
  "serves env content \<longleftrightarrow>
     (\<forall>h offset n. env_read env h offset n = Some (take n (drop (unat offset) content))) \<and>
     (\<forall>h n. env_workspace env h n) \<and> (\<forall>h. env_size env h = int (length content))"

fun data_requests :: "nat \<Rightarrow> nat \<Rightarrow> (nat \<Rightarrow> u64) \<Rightarrow> download_event list" where
  "data_requests k 0 clock = []"
| "data_requests k (Suc n) clock =
     Request \<lparr>ftype = 0xB3, fpayload = encode_u32 (of_nat k)\<rparr> (clock k) # data_requests (Suc k) n clock"

text \<open>The number of blocks of a file, the last one possibly short.\<close>

definition blocks_of :: "bytes \<Rightarrow> nat" where
  "blocks_of content = (length content + 8191) div 8192"

lemma ceiling_blocks: "((n :: nat) + 8191) div 8192 = n div 8192 + (if n mod 8192 > 0 then 1 else 0)"
proof -
  have "(n + 8191) div 8192 = n div 8192 + (n mod 8192 + 8191) div 8192"
    using div_add1_eq [of n 8191 8192] by simp
  moreover have "(n mod 8192 + 8191) div 8192 = (if n mod 8192 > 0 then 1 else 0)"
    using mod_less_divisor [of 8192 n] by (auto intro!: div_nat_eqI)
  ultimately show ?thesis by simp
qed

lemma block_count_blocks_of: "block_count (int (length content)) = int (blocks_of content)"
proof -
  have "int (length content) smod 8192 = int (length content mod 8192)"
    by (cases "content = []") (simp_all add: signed_modulo_int_def zmod_int)
  moreover have "int (length content) sdiv 8192 = int (length content div 8192)"
    by (cases "length content = 0") (simp_all add: signed_divide_int_def zdiv_int)
  ultimately show ?thesis
    unfolding block_count_def blocks_of_def ceiling_blocks by simp
qed

lemma unat_widen: "unat (ucast (w :: u32) :: u64) = unat w"
proof -
  have "unat w < 2 ^ 32" using unsigned_less [of w] by simp
  then show ?thesis
    by (simp add: unsigned_ucast_eq take_bit_nat_eq_self)
qed

lemma data_offset_exact:
  assumes "k < 2 ^ 19"
  shows "unat (ucast (data_offset (of_nat (Suc k))) :: u64) = k * 8192"
proof -
  have "data_offset (of_nat (Suc k)) = of_nat (k * 8192)"
    by (simp add: data_offset_def)
  moreover have "unat (of_nat (k * 8192) :: u32) = k * 8192"
    using assms unfolding unat_of_nat by (simp add: take_bit_nat_eq_self)
  ultimately show ?thesis
    using unat_widen [of "data_offset (of_nat (Suc k))"] by simp
qed

lemma send_data_serves:
  assumes "serves env content" "k * 8192 < length content" "k < 2 ^ 19" "dn_active (fst s)"
  shows "\<exists>v h. send_data env (of_nat (Suc k)) s = (v, snd s @ h) \<and> dn_active v \<and>
    sent_data h = take 8192 (drop (k * 8192) content)"
proof -
  have "env_read env h (ucast (data_offset (of_nat (Suc k)))) 8192 = Some (take 8192 (drop (k * 8192) content))" for h
    using assms(1) data_offset_exact [OF assms(3)] unfolding serves_def by metis
  moreover have "take 8192 (drop (k * 8192) content) \<noteq> []"
    using assms(2) by simp
  ultimately show ?thesis
    using assms(1,4) unfolding send_data_def download_basics serves_def by (auto simp: Let_def)
qed

lemma data_requests_run:
  assumes "serves env content" "k * 8192 + n * 8192 < length content + 8192" "k + n \<le> 2 ^ 19"
    and "dn_active (fst s)"
  shows "\<exists>v h. download_run env (data_requests (Suc k) n clock) s = (v, snd s @ h) \<and> dn_active v \<and>
    sent_data h = take (n * 8192) (drop (k * 8192) content)"
  using assms(2-4)
proof (induction n arbitrary: k s)
  case 0
  then show ?case by (intro exI [of _ "fst s"] exI [of _ "[]"]) simp
next
  case (Suc n)
  let ?r = "dn_set (\<lambda>d. d\<lparr>dn_last_activity := clock (Suc k)\<rparr>) s"
  let ?f = "\<lparr>ftype = 0xB3, fpayload = encode_u32 (of_nat (Suc k))\<rparr>"
  have r: "dn_active (fst ?r)" "snd ?r = snd s" using Suc.prems(3) by (simp_all add: download_basics)
  have k: "k * 8192 < length content" "k < 2 ^ 19" using Suc.prems by simp_all
  obtain v h where step: "send_data env (of_nat (Suc k)) ?r = (v, snd s @ h)" "dn_active v"
      "sent_data h = take 8192 (drop (k * 8192) content)"
    using send_data_serves [OF assms(1) k r(1)] r(2) by metis
  have "decode_be32 (encode_u32 (of_nat (Suc k))) = of_nat (Suc k)"
    using decode_encode_u32 [of "of_nat (Suc k)" "[]"] by (simp only: append_Nil2)
  then have handle: "download_handle env ?f (clock (Suc k)) s = (v, snd s @ h)"
    using Suc.prems(3) step(1) by (simp add: download_handle_def Let_def)
  have "Suc k * 8192 + n * 8192 < length content + 8192" "Suc k + n \<le> 2 ^ 19"
    using Suc.prems by simp_all
  from Suc.IH [OF this, of "(v, snd s @ h)"] step(2)
  obtain v' h' where rest: "download_run env (data_requests (Suc (Suc k)) n clock) (v, snd s @ h) = (v', (snd s @ h) @ h')"
      "dn_active v'" "sent_data h' = take (n * 8192) (drop (Suc k * 8192) content)"
    by auto
  have "download_run env (data_requests (Suc k) (Suc n) clock) s = (v', snd s @ h @ h')"
    unfolding data_requests.simps download_run_simps download_step.simps handle rest(1) by simp
  moreover have "sent_data (h @ h') = take (Suc n * 8192) (drop (k * 8192) content)"
    using take_add [of 8192 "n * 8192" "drop (k * 8192) content"] step(3) rest(3) by (simp add: add.commute)
  ultimately show ?case using rest(2) by blast
qed


text \<open>
  Repeating is harmless. When a port answers a read at any time in the same way, a host that
  asks for the repetition of a data block, or comes back after a disconnection, is sent exactly the
  frame it was sent before.
\<close>
theorem download_repeats_block:
  assumes "serves env content" "dn_active (fst s)" "send_data env k s = (v, snd s @ h)" "dn_active v"
    and "again = download_handle env \<lparr>ftype = 0xB6, fpayload = []\<rparr> now (v, snd s @ h) \<or>
         again = download_resume env (dn_last_activity v) (v, snd s @ h)"
  shows "\<exists>f h'. snd again = snd s @ h @ h' \<and>
    filter (\<lambda>c. \<exists>w g. c = Dn_send w g) h = [Dn_send (dn_owner (fst s)) f] \<and>
    filter (\<lambda>c. \<exists>w g. c = Dn_send w g) h' = [Dn_send (dn_owner (fst s)) f] \<and> ftype f = 0xB3"
proof -
  define d where "d = take 8192 (drop (unat (ucast (data_offset k) :: u64)) content)"
  have data: "env_read env q (ucast (data_offset k)) 8192 = Some d" "env_workspace env q n" for q n
    using assms(1) by (auto simp: serves_def d_def)
  have nonempty: "d \<noteq> []"
    using assms(3,4) data
    by (auto simp: send_data_def download_basics download_abort_def download_finish_def Let_def split: if_splits)
  define f where "f = \<lparr>ftype = 0xB3, fpayload = encode_u32 k @ take 8192 d\<rparr>"
  have send: "\<exists>w x. send_data env k q = (w, snd q @ x) \<and> dn_last_response w = Last_data \<and>
      dn_last_sequence w = k \<and> dn_owner w = dn_owner (fst q) \<and>
      filter (\<lambda>c. \<exists>w g. c = Dn_send w g) x = [Dn_send (dn_owner (fst q)) f]" for q
    using nonempty data by (simp add: send_data_def download_basics Let_def f_def)
  have v: "dn_last_response v = Last_data" "dn_last_sequence v = k" "dn_owner v = dn_owner (fst s)"
    "filter (\<lambda>c. \<exists>w g. c = Dn_send w g) h = [Dn_send (dn_owner (fst s)) f]"
    using send [of s] assms(3) by auto
  have "\<exists>q. again = send_data env k q \<and> snd q = snd s @ h \<and> dn_owner (fst q) = dn_owner (fst s)"
    using assms(4,5) v by (auto simp: download_handle_def download_resume_def retry_last_def download_basics Let_def)
  then obtain q where q: "again = send_data env k q" "snd q = snd s @ h" "dn_owner (fst q) = dn_owner (fst s)"
    by blast
  obtain w x where "send_data env k q = (w, snd q @ x)"
      "filter (\<lambda>c. \<exists>w g. c = Dn_send w g) x = [Dn_send (dn_owner (fst q)) f]"
    using send [of q] by blast
  then show ?thesis
    using q v(4) by (intro exI [of _ f] exI [of _ x]) (simp add: f_def)
qed

section \<open>Examples\<close>

definition file_env :: "bytes \<Rightarrow> download_env" where
  "file_env content =
     \<lparr>env_md5 = \<lambda>h p. None, env_cache = \<lambda>h p n. None, env_exists = \<lambda>h p. False,
      env_open = \<lambda>h p. Some (int (length content)), env_size = \<lambda>h. int (length content),
      env_read = \<lambda>h offset n. Some (take n (drop (unat offset) content)),
      env_workspace = \<lambda>h n. True, env_send = \<lambda>h w f. True\<rparr>"

lemma file_env_serves: "serves (file_env content) content"
  by (simp add: serves_def file_env_def)

definition example_download :: download where
  "example_download =
     \<lparr>dn_owner = \<lparr>host_transport = Usb, host_slot = 0, host_generation = 0\<rparr>, dn_resolved_path = [],
      dn_path = ''/sd/a'', dn_md5 = default_md5, dn_last_activity = 7, dn_last_sequence = 0,
      dn_unexpected = 0, dn_last_response = Last_md5, dn_retained = \<lparr>ftype = 0xB1, fpayload = []\<rparr>,
      dn_active = True\<rparr>"

theorem download_releases_once_witness:
  "\<exists>s e h. download_start (file_env [1]) \<lparr>host_transport = Usb, host_slot = 0, host_generation = 0\<rparr>
       ''/sd/a'' 0 (example_download, []) = (s, True) \<and>
     download_run (file_env [1]) [Request \<lparr>ftype = 0xB4, fpayload = []\<rparr> 1] s = (e, h) \<and> \<not> dn_active e \<and>
     count_calls (\<lambda>c. c = Dn_close) h = 1"
proof -
  let ?env = "file_env [1]" and ?o = "\<lparr>host_transport = Usb, host_slot = 0, host_generation = 0\<rparr>"
  have "map_file_cache_paths ''/sd/a'' = \<lparr>md5_path = Some ''/sd/.md5/a'', compressed_path = None\<rparr>"
    by (simp add: map_file_cache_paths_def physical_sd_path_def)
  then obtain s where s: "download_start ?env ?o ''/sd/a'' 0 (example_download, []) = (s, True)"
    by (simp add: download_start_def choose_md5_def is_config_file_def file_env_def download_basics Let_def)
  obtain e h where run: "download_run ?env [Request \<lparr>ftype = 0xB4, fpayload = []\<rparr> 1] s = (e, h)"
    by (metis surj_pair)
  then have "\<not> dn_active e"
    by (auto simp: download_handle_def download_finish_def download_basics Let_def split: if_splits)
  then show ?thesis
    using s run download_releases_once [OF s run] by simp
qed


theorem download_repeats_block_witness:
  "\<exists>v h f h'. send_data (file_env [1, 2, 3]) 1 (example_download, []) = (v, h) \<and>
     snd (download_resume (file_env [1, 2, 3]) (dn_last_activity v) (v, h)) = h @ h' \<and>
     filter (\<lambda>c. \<exists>w g. c = Dn_send w g) h' = [Dn_send (dn_owner example_download) f]"
proof -
  obtain v h where s: "send_data (file_env [1, 2, 3]) 1 (example_download, []) = (v, h)"
    by (metis surj_pair)
  then have "dn_active v"
    by (auto simp: send_data_def file_env_def data_offset_def example_download_def download_basics Let_def)
  then show ?thesis
    using download_repeats_block [OF file_env_serves [of "[1, 2, 3]"], of "(example_download, [])" 1 v h
        "download_resume (file_env [1, 2, 3]) (dn_last_activity v) (v, h)"] s
    by (auto simp: example_download_def)
qed

end
