(* ===== verification/Play_Lines.thy ===== *)
theory Play_Lines
  imports Firmware_Prelude "HOL-Library.Monad_Syntax"
begin

text \<open>
  The line reader of streamed play, \<open>components/application/src/playback/play_line_reader.cpp\<close>, over
  a chunk source whose state is a parameter, and two sources: \<open>lf_read\<close>, what
  \<open>PlayLineSource::read_chunk\<close> is documented to do (through the next line feed or the size limit),
  and \<open>posix_read\<close>, what the target does (\<open>read_shared_play_chunk\<close> of
  \<open>src/main/media/play_runtime_state.cpp\<close>, a plain \<open>fread\<close> of the size limit). The loops of the
  reader end only if the source does, so they are partial functions; the lemmas show that they end
  on both sources. The reader over \<open>lf_read\<close> yields the normalised lines of the file; over
  \<open>posix_read\<close> it merges and loses lines.
\<close>

section \<open>Chunks and lines\<close>

record play_line_chunk =
  chunk_bytes :: bytes
  chunk_eof :: bool

datatype play_line_status = Line_read | Line_end_of_file | Line_failure

record play_line_result =
  line_status :: play_line_status
  line_data :: bytes
  line_reached_eof :: bool
  line_observed_size :: nat
  line_overlong :: bool

type_synonym 'f chunk_source = "nat \<Rightarrow> 'f \<Rightarrow> 'f \<times> play_line_chunk option"

abbreviation (input) maximum_chunk_size :: nat where "maximum_chunk_size \<equiv> 129"
abbreviation (input) maximum_returned_line_size :: nat where "maximum_returned_line_size \<equiv> 64"
abbreviation (input) line_feed :: u8 where "line_feed \<equiv> 10"

definition observed_bytes :: "bytes \<Rightarrow> bytes" where
  "observed_bytes raw = takeWhile (\<lambda>b. b \<noteq> 0) raw"

definition completes_line :: "play_line_chunk \<Rightarrow> bool" where
  "completes_line c \<longleftrightarrow> chunk_eof c \<or> line_feed \<in> set (chunk_bytes c)"

definition line_failure :: play_line_result where
  "line_failure = \<lparr>line_status = Line_failure, line_data = [], line_reached_eof = False,
                   line_observed_size = 0, line_overlong = False\<rparr>"

definition line_end :: play_line_result where
  "line_end = \<lparr>line_status = Line_end_of_file, line_data = [], line_reached_eof = True,
               line_observed_size = 0, line_overlong = False\<rparr>"

text \<open>\<open>None\<close> as the outer value is a loop that never ends; \<open>None\<close> inside is a failed read.\<close>

partial_function (option) skip_nul_chunks ::
    "'f chunk_source \<Rightarrow> 'f \<Rightarrow> ('f \<times> play_line_chunk option) option" where
  "skip_nul_chunks read f =
     (case read 129 f of
        (f, None) \<Rightarrow> Some (f, None)
      | (f, Some c) \<Rightarrow>
          if chunk_bytes c \<noteq> [] \<and> hd (chunk_bytes c) = 0 then skip_nul_chunks read f
          else Some (f, Some c))"

partial_function (option) complete_chunks ::
    "'f chunk_source \<Rightarrow> nat \<Rightarrow> 'f \<Rightarrow> ('f \<times> (nat \<times> bool) option) option" where
  "complete_chunks read chunk_count f =
     (case read 129 f of
        (f, None) \<Rightarrow> Some (f, None)
      | (f, Some c) \<Rightarrow>
          if completes_line c then Some (f, Some (chunk_count + 1, chunk_eof c))
          else complete_chunks read (chunk_count + 1) f)"

definition finish_line :: "bytes \<Rightarrow> nat \<Rightarrow> bool \<Rightarrow> play_line_result" where
  "finish_line observed chunk_count reached_eof =
     (if chunk_count > 1 then
        \<lparr>line_status = Line_read, line_data = [line_feed], line_reached_eof = reached_eof,
         line_observed_size = 1, line_overlong = True\<rparr>
      else
        let overlong = (length observed > maximum_returned_line_size)
        in \<lparr>line_status = Line_read,
            line_data = (if overlong then (take maximum_returned_line_size observed)
                           [maximum_returned_line_size - 1 := line_feed] else observed),
            line_reached_eof = reached_eof, line_observed_size = length observed,
            line_overlong = overlong\<rparr>)"

definition read_line :: "'f chunk_source \<Rightarrow> 'f \<Rightarrow> ('f \<times> play_line_result) option" where
  "read_line read f = do {
     (f, first) \<leftarrow> skip_nul_chunks read f;
     case first of
       None \<Rightarrow> Some (f, line_failure)
     | Some c \<Rightarrow>
         let observed = observed_bytes (chunk_bytes c)
         in if chunk_bytes c = [] \<and> chunk_eof c then Some (f, line_end)
            else if completes_line c then Some (f, finish_line observed 1 (chunk_eof c))
            else do {
              (f, rest) \<leftarrow> complete_chunks read 1 f;
              Some (f, case rest of None \<Rightarrow> line_failure
                       | Some (chunk_count, reached_eof) \<Rightarrow> finish_line observed chunk_count reached_eof)
            }
   }"

section \<open>The two sources\<close>

text \<open>A file is its content and the part not read yet.\<close>

type_synonym open_file = "bytes \<times> bytes"

fun through_lf :: "nat \<Rightarrow> bytes \<Rightarrow> bytes" where
  "through_lf 0 bs = []"
| "through_lf (Suc n) [] = []"
| "through_lf (Suc n) (b # bs) = (if b = line_feed then [b] else b # through_lf n bs)"

definition lf_read :: "open_file chunk_source" where
  "lf_read n f =
     (let chunk = through_lf n (snd f)
      in ((fst f, drop (length chunk) (snd f)),
          Some \<lparr>chunk_bytes = chunk, chunk_eof = (line_feed \<notin> set chunk \<and> length chunk < n)\<rparr>))"

definition posix_read :: "open_file chunk_source" where
  "posix_read n f =
     ((fst f, drop n (snd f)),
      Some \<lparr>chunk_bytes = take n (snd f), chunk_eof = (length (snd f) < n)\<rparr>)"

section \<open>Properties of every source\<close>

lemma line_data_simps [simp]:
  "line_data line_failure = []" "line_data line_end = []" "length (line_data (finish_line observed k e)) \<le> 64"
  by (simp_all add: line_failure_def line_end_def finish_line_def Let_def)

text \<open>Whatever the source delivers, a line has at most 64 bytes.\<close>

lemma read_line_data_length:
  assumes "read_line read f = Some (g, r)"
  shows "length (line_data r) \<le> 64"
proof -
  obtain f' first where "skip_nul_chunks read f = Some (f', first)"
    using assms by (auto simp: read_line_def bind_eq_Some_conv)
  then show ?thesis
    using assms
    by (cases first) (auto simp: read_line_def bind_eq_Some_conv Let_def split: if_splits option.splits)
qed

section \<open>Reading a file by lines\<close>

fun split_lines :: "bytes \<Rightarrow> bytes list" where
  "split_lines [] = []"
| "split_lines (b # bs) =
     (if b = line_feed then [b] # split_lines bs
      else case split_lines bs of [] \<Rightarrow> [[b]] | l # ls \<Rightarrow> (b # l) # ls)"

definition unterminated :: "bytes \<Rightarrow> bool" where
  "unterminated l \<longleftrightarrow> line_feed \<notin> set l"

text \<open>What the controller receives for a line: long lines are cut, very long ones are blank.\<close>

definition normalise_line :: "bytes \<Rightarrow> bytes" where
  "normalise_line l =
     (if length l > 129 \<or> unterminated l \<and> length l = 129 then [line_feed]
      else if length l > 64 then take 63 l @ [line_feed] else l)"

lemma concat_split_lines: "concat (split_lines bs) = bs"
  by (induction bs) (auto split: list.splits)

lemma split_lines_nonempty: "l \<in> set (split_lines bs) \<Longrightarrow> l \<noteq> []"
  by (induction bs arbitrary: l) (auto split: list.splits if_splits)

lemma split_lines_Nil [simp]: "split_lines bs = [] \<longleftrightarrow> bs = []"
  by (cases bs) (auto split: list.splits)

lemma through_lf_Nil [simp]: "through_lf n [] = []"
  by (cases n) simp_all

lemma split_lines_line:
  assumes "split_lines bs = l # ls"
  shows "line_feed \<notin> set (butlast l)" "unterminated l \<Longrightarrow> ls = []" "through_lf n bs = take n l"
    "drop (length l) bs = concat ls" "split_lines (concat ls) = ls"
  using assms
proof (induction bs arbitrary: l ls n)
  case (Cons b bs)
  {
    case 1
    then show ?case using Cons.IH(1) by (auto split: if_splits list.splits)
  next
    case 2
    then show ?case using Cons.IH(2) by (auto simp: unterminated_def split: if_splits list.splits)
  next
    case 3
    then show ?case using Cons.IH(3) by (cases n) (auto split: if_splits list.splits)
  next
    case 4
    then show ?case using Cons.IH(4) by (auto simp: concat_split_lines split: if_splits list.splits)
  next
    case 5
    then show ?case using Cons.IH(5) by (auto simp: concat_split_lines split: if_splits list.splits)
  }
qed simp_all

lemma split_lines_drop:
  assumes "split_lines bs = l # ls" "n < length l"
  shows "split_lines (drop n bs) = drop n l # ls"
  using assms
proof (induction bs arbitrary: l ls n)
  case (Cons b bs)
  then show ?case by (cases n) (auto split: if_splits list.splits)
qed simp

lemma line_feed_last:
  assumes "split_lines bs = l # ls" "\<not> unterminated l"
  shows "line_feed \<in> set (take n l) \<longleftrightarrow> length l \<le> n"
proof
  have l: "l \<noteq> []" using assms(2) by (auto simp: unterminated_def)
  show "length l \<le> n \<Longrightarrow> line_feed \<in> set (take n l)"
    using assms(2) by (simp add: unterminated_def)
  assume "line_feed \<in> set (take n l)"
  then show "length l \<le> n"
  proof (rule contrapos_pp)
    assume "\<not> length l \<le> n"
    then have "take n l = take n (butlast l)" using l by (simp add: take_butlast)
    then show "line_feed \<notin> set (take n l)"
      using split_lines_line(1) [OF assms(1)] by (metis in_set_takeD)
  qed
qed

section \<open>The reader on files read by lines\<close>

lemma lf_read_line:
  assumes "split_lines bs = l # ls"
  shows "lf_read n (w, bs) =
    ((w, if length l \<le> n then concat ls else drop n bs),
     Some \<lparr>chunk_bytes = take n l, chunk_eof = (unterminated l \<and> length l < n)\<rparr>)"
proof (cases "length l \<le> n")
  case True
  then show ?thesis
    using split_lines_line(3) [OF assms, of n] split_lines_line(4) [OF assms]
    by (simp add: lf_read_def unterminated_def)
next
  case False
  then show ?thesis
    using split_lines_line(3) [OF assms, of n] by (simp add: lf_read_def Let_def)
qed

lemma complete_chunks_end: "complete_chunks lf_read k (w, []) = Some ((w, []), Some (Suc k, True))"
  by (subst complete_chunks.simps) (simp add: lf_read_def completes_line_def)

lemma complete_chunks_line:
  assumes "split_lines bs = l # ls"
  shows "\<exists>j. complete_chunks lf_read k (w, bs) = Some ((w, concat ls), Some (Suc (k + j), unterminated l))"
  using assms
proof (induction "length l" arbitrary: bs l k rule: less_induct)
  case less
  note step = complete_chunks.simps [of lf_read k "(w, bs)", unfolded lf_read_line [OF less.prems]]
  consider (short) "length l \<le> 129" "\<not> unterminated l" | (tail) "unterminated l" "length l < 129"
    | (full) "unterminated l" "length l = 129" | (long) "129 < length l"
    by linarith
  then show ?case
  proof cases
    case short
    then have "line_feed \<in> set (take 129 l)" using line_feed_last [OF less.prems short(2)] by blast
    then show ?thesis using short step by (auto simp: completes_line_def intro: exI [of _ 0])
  next
    case tail
    then show ?thesis using step by (auto simp: completes_line_def intro: exI [of _ 0])
  next
    case full
    then have "ls = []" using split_lines_line(2) [OF less.prems] by blast
    then show ?thesis
      using full step by (auto simp: completes_line_def unterminated_def complete_chunks_end intro: exI [of _ 1])
  next
    case long
    then have "line_feed \<notin> set (take 129 l)"
      using line_feed_last [OF less.prems, of 129] by (cases "unterminated l") (auto simp: unterminated_def dest: in_set_takeD)
    then have "complete_chunks lf_read k (w, bs) = complete_chunks lf_read (Suc k) (w, drop 129 bs)"
      using long step by (simp add: completes_line_def)
    moreover have "length (drop 129 l) < length l" using long by simp
    from less.hyps [OF this split_lines_drop [OF less.prems long], of "Suc k"]
    obtain j where "complete_chunks lf_read (Suc k) (w, drop 129 bs) =
        Some ((w, concat ls), Some (Suc (Suc k + j), unterminated (drop 129 l)))"
      by blast
    moreover have "unterminated (drop 129 l) = unterminated l"
      using \<open>line_feed \<notin> set (take 129 l)\<close> set_append [of "take 129 l" "drop 129 l"]
      by (simp add: unterminated_def)
    ultimately show ?thesis by (auto intro: exI [of _ "Suc j"])
  qed
qed

lemma read_line_end: "read_line lf_read (w, []) = Some ((w, []), line_end)"
  by (simp add: read_line_def skip_nul_chunks.simps lf_read_def)

text \<open>The reader delivers the lines of a file one by one, normalised.\<close>

lemma read_line_lf:
  assumes line: "split_lines bs = l # ls" and clean: "0 \<notin> set l"
  shows "\<exists>r. read_line lf_read (w, bs) = Some ((w, concat ls), r) \<and> line_status r = Line_read \<and>
    line_data r = normalise_line l \<and> line_reached_eof r = unterminated l"
proof -
  have l: "l \<noteq> []" using split_lines_nonempty [of l bs] line by simp
  have first: "hd l \<noteq> 0" using l clean by (metis hd_in_set)
  have chunk: "take 129 l \<noteq> []" "hd (take 129 l) \<noteq> 0" "observed_bytes (take 129 l) = take 129 l"
    using l clean first by (auto simp: observed_bytes_def takeWhile_eq_all_conv dest: in_set_takeD)
  let ?c = "\<lparr>chunk_bytes = take 129 l, chunk_eof = (unterminated l \<and> length l < 129)\<rparr>"
  have skip: "skip_nul_chunks lf_read (w, bs) =
      Some ((w, if length l \<le> 129 then concat ls else drop 129 bs), Some ?c)"
    using chunk by (subst skip_nul_chunks.simps) (simp add: lf_read_line [OF line])
  have complete: "completes_line ?c \<longleftrightarrow> length l \<le> 129 \<and> \<not> (unterminated l \<and> length l = 129)"
    using line_feed_last [OF line, of 129] by (cases "unterminated l") (auto simp: completes_line_def unterminated_def dest: in_set_takeD)
  show ?thesis
  proof (cases "completes_line ?c")
    case True
    then have short: "length l \<le> 129" "\<not> (unterminated l \<and> length l = 129)" using complete by simp_all
    then show ?thesis
      using True chunk skip l
      by (auto simp: read_line_def finish_line_def normalise_line_def Let_def upd_conv_take_nth_drop min_def)
  next
    case False
    have "\<exists>j. complete_chunks lf_read 1 (w, if length l \<le> 129 then concat ls else drop 129 bs) =
        Some ((w, concat ls), Some (Suc (Suc j), unterminated l))"
    proof (cases "length l \<le> 129")
      case True
      then have full: "unterminated l" "length l = 129" using False unfolding complete by simp_all
      then have "ls = []" using split_lines_line(2) [OF line] by blast
      then show ?thesis using full by (auto simp: complete_chunks_end intro: exI [of _ 0])
    next
      case long: False
      then have "split_lines (drop 129 bs) = drop 129 l # ls"
        using split_lines_drop [OF line] by simp
      moreover have "unterminated (drop 129 l) = unterminated l"
        using line_feed_last [OF line, of 129] long set_append [of "take 129 l" "drop 129 l"]
        by (auto simp: unterminated_def dest: in_set_dropD)
      ultimately show ?thesis
        using complete_chunks_line [of "drop 129 bs" "drop 129 l" ls 1 w] long by auto
    qed
    then show ?thesis
      using False complete chunk skip l
      by (auto simp: read_line_def finish_line_def normalise_line_def Let_def)
  qed
qed

section \<open>The reader on the chunks of the target\<close>

text \<open>
  C29. The target's chunks lose lines. The reader expects a chunk to stop at its first line feed; the
  target reads plain blocks of 129 bytes. Whenever more than 64 bytes are left and the next 129
  contain a line feed and no NUL, the line handed to the controller is the first 63 of them
  followed by a line feed, however many lines they hold, and reading goes on behind the block:
  the rest of the block is never delivered.
\<close>
theorem target_chunks_lose_lines:
  assumes "0 \<notin> set (take 129 bs)" "line_feed \<in> set (take 129 bs)" "64 < length bs"
  shows "\<exists>r. read_line posix_read (w, bs) = Some ((w, drop 129 bs), r) \<and> line_status r = Line_read \<and>
    line_data r = take 63 bs @ [line_feed]"
proof -
  have some: "take 129 bs \<noteq> []" using assms(3) by auto
  then have first: "hd (take 129 bs) \<noteq> 0" using assms(1) by (metis hd_in_set)
  have all: "observed_bytes (take 129 bs) = take 129 bs"
    using assms(1) by (auto simp: observed_bytes_def takeWhile_eq_all_conv)
  have "skip_nul_chunks posix_read (w, bs) =
      Some ((w, drop 129 bs), Some \<lparr>chunk_bytes = take 129 bs, chunk_eof = (length bs < 129)\<rparr>)"
    using some first by (subst skip_nul_chunks.simps) (simp add: posix_read_def)
  then show ?thesis
    using assms(2,3) all some
    by (auto simp: read_line_def completes_line_def finish_line_def Let_def upd_conv_take_nth_drop min_def)
qed

theorem target_chunks_lose_lines_witness:
  "\<exists>r. read_line posix_read ([], concat (replicate 10 (octets ''G1 X1 Y20'' @ [10]))) =
      Some (([], drop 129 (concat (replicate 10 (octets ''G1 X1 Y20'' @ [10])))), r) \<and> line_status r = Line_read \<and>
    line_data r = take 63 (concat (replicate 10 (octets ''G1 X1 Y20'' @ [10]))) @ [10]"
  by (rule target_chunks_lose_lines) code_simp+

end
