(* ===== verification/Playback.thy ===== *)
theory Playback
  imports Ports Play_Lines Transfer_Paths
begin

text \<open>
  Streamed play: the session shared by host and controller
  (\<open>components/application/src/playback/play_session.cpp\<close>) and the exchange with the controller
  (\<open>play_controller.cpp\<close>). The world of an exchange is the session, the controller's read state,
  the state of the file layer (a parameter) and the calls made to the port. A handler returns
  \<open>None\<close> when a loop over the file never ends.
\<close>

unbundle bit_operations_syntax

section \<open>Diagnostics\<close>

datatype playback_event =
    Play_preparation_recognized | Play_path_extracted | Play_open_failure | Play_start_received
  | Play_start_invalid | Play_start_valid | Play_data_invalid | Play_data_format_invalid
  | Play_data_missing_frame_max | Play_goto_invalid | Play_goto_format_invalid
  | Play_long_line_replaced | Play_frame_allocation_failed | Play_output_full | Play_data_no_memory
  | Play_goto_no_memory | Play_host_broadcast_overflow | Play_retained_cache_invalid

text \<open>The formats of the sequence records.\<close>

datatype sequence_format =
    Seq_retransmit | Seq_mismatch | Seq_seek_anchor | Seq_no_data | Seq_goto_request | Seq_goto_reset
  | Seq_goto_target

datatype invariant_path = Path_retransmit | Path_seek | Path_seq_match

datatype playback_diagnostic =
    Play_event playback_event string
  | Play_sequence sequence_format u32 u32 u32 u32
  | Play_data_sent nat
  | Play_invariant invariant_path u32 u32 u32 u32 u32

section \<open>State and port\<close>

record play_session =
  file_open :: bool
  running :: bool
  play_path :: string
  path_identifier :: u16
  play_file_size :: u32
  last_error :: "u64 option"
  generation :: u32

record play_controller =
  session_generation :: u32
  current_line :: u32
  transmitted_bytes :: u64
  retained_index :: "u32 option"
  retained_payload :: bytes
  retained_storage :: bytes
  identifier_residual :: bytes

datatype play_call =
    Pl_send frame | Pl_broadcast frame | Pl_diagnose playback_diagnostic | Pl_state_changed bool
  | Pl_release | Pl_rewind | Pl_close | Pl_open string | Pl_memory nat | Pl_now

text \<open>The file layer has a state of its own; memory and clock depend on the calls so far.\<close>

record 'f play_env =
  pl_read :: "'f chunk_source"
  pl_rewind :: "'f \<Rightarrow> 'f"
  pl_close :: "'f \<Rightarrow> 'f"
  pl_open :: "string \<Rightarrow> 'f \<Rightarrow> 'f \<times> u64 option"
  pl_md5 :: "string \<Rightarrow> 'f \<Rightarrow> string option"
  pl_memory :: "play_call list \<Rightarrow> nat \<Rightarrow> bool"
  pl_now :: "play_call list \<Rightarrow> u64"

record 'f play_world =
  session :: play_session
  controller :: play_controller
  play_files :: 'f
  play_calls :: "play_call list"

definition new_play_session :: play_session where
  "new_play_session = \<lparr>file_open = False, running = False, play_path = [], path_identifier = 0,
                  play_file_size = 0, last_error = None, generation = 0\<rparr>"

definition new_play_controller :: play_controller where
  "new_play_controller = \<lparr>session_generation = 0, current_line = 0, transmitted_bytes = 0,
                     retained_index = None, retained_payload = [], retained_storage = [],
                     identifier_residual = [0, 0]\<rparr>"

definition pl_call :: "play_call \<Rightarrow> 'f play_world \<Rightarrow> 'f play_world" where
  "pl_call c w = w\<lparr>play_calls := play_calls w @ [c]\<rparr>"

definition pl_session :: "(play_session \<Rightarrow> play_session) \<Rightarrow> 'f play_world \<Rightarrow> 'f play_world" where
  "pl_session f w = w\<lparr>session := f (session w)\<rparr>"

definition pl_controller :: "(play_controller \<Rightarrow> play_controller) \<Rightarrow> 'f play_world \<Rightarrow> 'f play_world" where
  "pl_controller f w = w\<lparr>controller := f (controller w)\<rparr>"

abbreviation pl_send :: "u8 \<Rightarrow> bytes \<Rightarrow> 'f play_world \<Rightarrow> 'f play_world" where
  "pl_send t p w \<equiv> pl_call (Pl_send \<lparr>ftype = t, fpayload = p\<rparr>) w"

abbreviation pl_event :: "playback_event \<Rightarrow> 'f play_world \<Rightarrow> 'f play_world" where
  "pl_event e w \<equiv> pl_call (Pl_diagnose (Play_event e [])) w"

abbreviation pl_sequence :: "sequence_format \<Rightarrow> u32 \<Rightarrow> u32 \<Rightarrow> u32 \<Rightarrow> u32 \<Rightarrow> 'f play_world \<Rightarrow> 'f play_world" where
  "pl_sequence e a b c d w \<equiv> pl_call (Pl_diagnose (Play_sequence e a b c d)) w"

lemmas play_basics = pl_call_def pl_session_def pl_controller_def

section \<open>Constants\<close>

definition start_error :: string where
  "start_error = ''Error:start check failed.file does not exist or CRC wrong [P1]''"

definition data_format_error :: string where
  "data_format_error = ''Error:PTYPE_PLAY_DATA command data format error [P2]''"

definition goto_check_error :: string where
  "goto_check_error = ''Error:goto check failed.file does not exist or CRC wrong [P3]''"

definition goto_format_error :: string where
  "goto_format_error = ''Error:PTYPE_PLAY_DATA goto cmd format error [P3]''"

definition data_memory_error :: string where
  "data_memory_error = ''Error:no memory for frame_data [P2]''"

definition goto_memory_error :: string where
  "goto_memory_error = ''Error:no memory for goto frame_data [P3]''"

definition play_open_error :: string where
  "play_open_error = ''Error:open file failed[P0]''"

abbreviation (input) maximum_data_size :: nat where "maximum_data_size \<equiv> 512"
abbreviation (input) data_request_size :: nat where "data_request_size \<equiv> 6"

definition play_start_response :: u8 where "play_start_response = family_packet 0xF0 2"
definition play_data_response :: u8 where "play_data_response = family_packet 0xF0 3"
definition play_complete_response :: u8 where "play_complete_response = family_packet 0xF0 4"
definition play_error_response :: u8 where "play_error_response = family_packet 0xF0 5"
definition play_progress_response :: u8 where "play_progress_response = family_packet 0xF0 7"

section \<open>The session\<close>

definition resolve_play_path :: "bytes \<Rightarrow> string \<times> string" where
  "resolve_play_path payload =
     (let argument = (if length payload \<ge> 5 then drop 5 payload else []);
          decoded = decode_escaped argument;
          decoded = (if decoded \<noteq> [] \<and> last decoded = CHR 0x0A then butlast decoded else decoded);
          selected = (if length decoded > 5 \<and> take 5 decoded = ''play '' then drop 5 decoded else decoded);
          selected = dropWhile (\<lambda>c. c = CHR '' '') selected
      in (selected, normalize_path selected))"

definition valid_md5 :: "string \<Rightarrow> bool" where
  "valid_md5 s \<longleftrightarrow> length s = md5_text_size \<and> list_all (\<lambda>c. ascii_xdigit (octet c)) s"

definition session_report_error :: "string \<Rightarrow> u64 \<Rightarrow> 'f play_world \<Rightarrow> 'f play_world" where
  "session_report_error message now w =
     (if (case last_error (session w) of None \<Rightarrow> False | Some t \<Rightarrow> now - t < 1000) then w
      else pl_call (Pl_broadcast \<lparr>ftype = 0x90, fpayload = octets message\<rparr>)
             (pl_session (\<lambda>s. s\<lparr>last_error := Some now\<rparr>) w))"

definition session_prepare :: "'f play_env \<Rightarrow> bytes \<Rightarrow> u64 \<Rightarrow> 'f play_world \<Rightarrow> 'f play_world \<times> bool" where
  "session_prepare env payload now w =
     (let w = pl_event Play_preparation_recognized w;
          (extracted, resolved) = resolve_play_path payload;
          w = pl_call (Pl_diagnose (Play_event Play_path_extracted extracted)) w
      in if length resolved > maximum_path_size then (session_report_error play_open_error now w, False)
         else
           let (files, opened_size) = pl_open env resolved (play_files w);
               w = (pl_call (Pl_open resolved) w)\<lparr>play_files := files\<rparr>
           in case opened_size of
                None \<Rightarrow>
                  (session_report_error play_open_error now
                     (pl_call (Pl_diagnose (Play_event Play_open_failure resolved))
                       (pl_session (\<lambda>s. s\<lparr>file_open := False\<rparr>) w)), False)
              | Some n \<Rightarrow>
                  (pl_session (\<lambda>s. s\<lparr>play_path := resolved, play_file_size := ucast n,
                                    path_identifier := crc16_ccitt (octets resolved),
                                    file_open := True, generation := generation s + 1\<rparr>) w, True))"

definition session_status_reply :: "'f play_env \<Rightarrow> 'f play_world \<Rightarrow> frame" where
  "session_status_reply env w =
     (if \<not> running (session w) \<or> play_path (session w) = [] then
        \<lparr>ftype = 0xB7, fpayload = [octet CHR ''|'']\<rparr>
      else
        let md5 = (case pl_md5 env (play_path (session w)) (play_files w) of
                     Some cached \<Rightarrow> if valid_md5 cached then cached else []
                   | None \<Rightarrow> [])
        in \<lparr>ftype = 0xB7, fpayload = octets (play_path (session w)) @ octet CHR ''|'' # octets md5\<rparr>)"

definition mark_running :: "play_session \<Rightarrow> play_session" where
  "mark_running s = s\<lparr>running := True\<rparr>"

definition clear_prepared_state :: "play_session \<Rightarrow> play_session" where
  "clear_prepared_state s =
     s\<lparr>file_open := False, play_path := [], path_identifier := 0, play_file_size := 0\<rparr>"

definition session_terminate :: "'f play_env \<Rightarrow> 'f play_world \<Rightarrow> 'f play_world" where
  "session_terminate env w =
     pl_session (\<lambda>s. clear_prepared_state (s\<lparr>running := False\<rparr>))
       ((pl_call Pl_close w)\<lparr>play_files := pl_close env (play_files w)\<rparr>)"

section \<open>Retained responses and identifiers\<close>

definition clear_retained_response :: "play_controller \<Rightarrow> play_controller" where
  "clear_retained_response c = c\<lparr>retained_index := None, retained_payload := [], retained_storage := []\<rparr>"

definition retain_response :: "u32 \<Rightarrow> bytes \<Rightarrow> play_controller \<Rightarrow> play_controller" where
  "retain_response requested_index response c =
     (let n = length response; storage = retained_storage c;
          storage = (if length storage \<le> n then storage @ replicate (n + 1 - length storage) 0 else storage);
          storage = response @ drop n storage
      in c\<lparr>retained_storage := storage,
           retained_payload := response @ takeWhile (\<lambda>b. b \<noteq> 0) (drop n storage),
           retained_index := Some requested_index\<rparr>)"

definition observe_identifier_bytes :: "bytes \<Rightarrow> play_controller \<Rightarrow> play_controller" where
  "observe_identifier_bytes payload c =
     c\<lparr>identifier_residual := take 2 payload @ drop (min (length payload) 2) (identifier_residual c)\<rparr>"

definition observed_identifier :: "play_controller \<Rightarrow> u16" where
  "observed_identifier c = be16 (identifier_residual c ! 0) (identifier_residual c ! 1)"

definition reset_read_state :: "play_controller \<Rightarrow> play_controller" where
  "reset_read_state c = clear_retained_response (c\<lparr>current_line := 0, transmitted_bytes := 0\<rparr>)"

definition encode_start_response :: "u16 \<Rightarrow> u32 \<Rightarrow> bytes" where
  "encode_start_response identifier n =
     [byte_at identifier 1, byte_at identifier 0, byte_at n 3, byte_at n 2, byte_at n 1, byte_at n 0]"

definition send_progress :: "'f play_world \<Rightarrow> 'f play_world" where
  "send_progress w =
     (let identifier = path_identifier (session w); line = current_line (controller w);
          sent = (ucast (transmitted_bytes (controller w)) :: u32)
      in pl_send play_progress_response
           [byte_at identifier 1, byte_at identifier 0,
            byte_at line 3, byte_at line 2, byte_at line 1, byte_at line 0,
            byte_at sent 3, byte_at sent 2, byte_at sent 1, byte_at sent 0] w)"

definition read_play_line :: "'f play_env \<Rightarrow> 'f play_world \<Rightarrow> ('f play_world \<times> play_line_result) option" where
  "read_play_line env w =
     map_option (\<lambda>(f, line). (w\<lparr>play_files := f\<rparr>, line)) (read_line (pl_read env) (play_files w))"

definition note_overlong :: "play_line_result \<Rightarrow> 'f play_world \<Rightarrow> 'f play_world" where
  "note_overlong line w = (if line_overlong line then pl_event Play_long_line_replaced w else w)"

definition advance_line :: "nat \<Rightarrow> 'f play_world \<Rightarrow> 'f play_world" where
  "advance_line n w =
     pl_controller (\<lambda>c. c\<lparr>current_line := current_line c + 1,
                          transmitted_bytes := transmitted_bytes c + of_nat n\<rparr>) w"

section \<open>Start and end\<close>

definition play_handle_terminal :: "'f play_env \<Rightarrow> 'f play_world \<Rightarrow> 'f play_world" where
  "play_handle_terminal env w =
     pl_call Pl_release (pl_call (Pl_state_changed False)
       (pl_controller reset_read_state (session_terminate env w)))"

definition play_handle_start :: "u64 \<Rightarrow> 'f play_world \<Rightarrow> 'f play_world" where
  "play_handle_start now w =
     (let w = pl_event Play_start_received (pl_controller clear_retained_response w)
      in if \<not> (file_open (session w) \<and> observed_identifier (controller w) = path_identifier (session w)) then
           session_report_error start_error now
             (pl_send play_error_response [] (pl_event Play_start_invalid w))
         else
           pl_call (Pl_state_changed True)
             (pl_session mark_running
               (pl_event Play_start_valid
                 (pl_send play_start_response
                   (encode_start_response (path_identifier (session w)) (play_file_size (session w))) w))))"

section \<open>Going to a line\<close>

partial_function (option) goto_scan ::
    "'f play_env \<Rightarrow> u32 \<Rightarrow> u64 \<Rightarrow> 'f play_world \<Rightarrow> 'f play_world option" where
  "goto_scan env target last_progress w = do {
     (w, line) \<leftarrow> read_play_line env w;
     if line_status line = Line_failure then Some w
     else if line_status line = Line_end_of_file then Some (send_progress w)
     else
       let w = advance_line (line_observed_size line) (note_overlong line w);
           reached_target = (line_data line \<noteq> [] \<and> (target = 0 \<or> current_line (controller w) \<ge> target));
           now = pl_now env (play_calls w);
           w = pl_call Pl_now w;
           report = (now - last_progress > 100 \<or> reached_target);
           w = (if reached_target
                then pl_sequence Seq_goto_target (of_nat (line_observed_size line)) target
                       (current_line (controller w)) 0 w else w);
           w = (if report then send_progress w else w)
       in if line_reached_eof line then Some (send_progress w)
          else if reached_target then Some w
          else goto_scan env target (if report then now else last_progress) w
   }"

definition play_handle_goto ::
    "'f play_env \<Rightarrow> bytes \<Rightarrow> u64 \<Rightarrow> 'f play_world \<Rightarrow> 'f play_world option" where
  "play_handle_goto env payload now w =
     (if \<not> file_open (session w) \<or> observed_identifier (controller w) \<noteq> path_identifier (session w) then
        Some (session_report_error goto_check_error now
                (pl_send play_complete_response [] (pl_event Play_goto_invalid w)))
      else if length payload < data_request_size then
        Some (session_report_error goto_format_error now
                (pl_send play_complete_response [] (pl_event Play_goto_format_invalid w)))
      else
        let w = (pl_call Pl_rewind w)\<lparr>play_files := pl_rewind env (play_files w)\<rparr>;
            w = pl_controller (\<lambda>c. c\<lparr>current_line := 0, transmitted_bytes := 0\<rparr>) w;
            target = decode_be32 (drop 2 payload);
            w = pl_sequence Seq_goto_request target 0 0 0 w;
            w = pl_sequence Seq_goto_reset target 0 0 0 w;
            memory = pl_memory env (play_calls w) 10;
            w = pl_call (Pl_memory 10) w
        in if \<not> memory then
             Some (session_report_error goto_memory_error now
                     (pl_send play_error_response [] (pl_event Play_goto_no_memory w)))
           else
             let w = pl_controller clear_retained_response w;
                 last_progress = pl_now env (play_calls w)
             in goto_scan env target last_progress (pl_call Pl_now w))"

section \<open>Data\<close>

partial_function (option) seek_loop ::
    "'f play_env \<Rightarrow> u32 \<Rightarrow> 'f play_world \<Rightarrow> 'f play_world option" where
  "seek_loop env target w =
     (if \<not> current_line (controller w) < target then Some w
      else do {
        (w, line) \<leftarrow> read_play_line env w;
        if line_status line \<noteq> Line_read \<or> line_data line = [] then Some w
        else
          let w = note_overlong line w;
              local_before_read = current_line (controller w);
              w = advance_line (line_observed_size line) w;
              w = (if current_line (controller w) = target
                   then pl_sequence Seq_seek_anchor (of_nat (line_observed_size line)) (target - 1)
                          local_before_read 0 w else w)
          in if line_reached_eof line \<and> current_line (controller w) < target then Some w
             else seek_loop env target w
      })"

definition seek_line :: "'f play_env \<Rightarrow> u32 \<Rightarrow> 'f play_world \<Rightarrow> 'f play_world option" where
  "seek_line env target w =
     map_option (pl_controller (\<lambda>c. c\<lparr>current_line := target\<rparr>))
       (seek_loop env target
         (pl_controller (\<lambda>c. c\<lparr>current_line := 0, transmitted_bytes := 0\<rparr>)
           ((pl_call Pl_rewind w)\<lparr>play_files := pl_rewind env (play_files w)\<rparr>)))"

text \<open>The parameters of one data request, and how its line loop ends.\<close>

record data_request =
  requested_index :: u32
  local_before :: u32
  maximum_lines :: u16
  repositioned :: bool

datatype 'f data_outcome = Data_return "'f play_world" | Data_break "'f play_world" bytes bool nat

definition diagnose_invariant :: "data_request \<Rightarrow> nat \<Rightarrow> 'f play_world \<Rightarrow> 'f play_world" where
  "diagnose_invariant q lines_sent w =
     (let expected = requested_index q + of_nat lines_sent
      in if current_line (controller w) \<noteq> expected then
           pl_call (Pl_diagnose (Play_invariant (if repositioned q then Path_seek else Path_seq_match)
             (requested_index q) expected (current_line (controller w)) (of_nat lines_sent)
             (local_before q))) w
         else w)"

definition diagnose_no_data :: "data_request \<Rightarrow> 'f play_world \<Rightarrow> 'f play_world" where
  "diagnose_no_data q w =
     (if repositioned q
      then pl_sequence Seq_no_data (requested_index q) (current_line (controller w))
             (ucast (maximum_lines q)) 0 w else w)"

fun data_loop :: "'f play_env \<Rightarrow> data_request \<Rightarrow> nat \<Rightarrow> 'f play_world \<Rightarrow> bytes \<Rightarrow> bool \<Rightarrow> nat \<Rightarrow>
    'f data_outcome option" where
  "data_loop env q 0 w data reached_eof lines_sent = Some (Data_break w data reached_eof lines_sent)"
| "data_loop env q (Suc n) w data reached_eof lines_sent =
     (case read_play_line env w of
        None \<Rightarrow> None
      | Some (w, line) \<Rightarrow>
          (case line_status line of
             Line_failure \<Rightarrow>
               Some (Data_return (diagnose_invariant q lines_sent
                 (pl_send play_complete_response [] (diagnose_no_data q w))))
           | Line_end_of_file \<Rightarrow> Some (Data_break w data True lines_sent)
           | Line_read \<Rightarrow>
               let w = advance_line (length (line_data line)) (note_overlong line w);
                   lines_sent = lines_sent + 1
               in if line_data line = [] then
                    Some (Data_return (diagnose_invariant q lines_sent (diagnose_no_data q w)))
                  else
                    let data = data @ line_data line; reached_eof = line_reached_eof line
                    in if reached_eof \<or> (of_nat maximum_data_size - of_nat (length data) :: u32) < 74
                       then Some (Data_break w data reached_eof lines_sent)
                       else data_loop env q n w data reached_eof lines_sent))"

definition finish_data :: "'f play_env \<Rightarrow> bytes \<Rightarrow> data_request \<Rightarrow> 'f data_outcome \<Rightarrow> 'f play_world" where
  "finish_data env payload q outcome =
     (case outcome of
        Data_return w \<Rightarrow> w
      | Data_break w data reached_eof lines_sent \<Rightarrow>
          let w = (if data = [] then diagnose_no_data q w
                   else
                     let response = take data_request_size payload @ data
                     in pl_controller (retain_response (requested_index q) response)
                          (pl_call (Pl_diagnose (Play_data_sent (length data)))
                            (pl_send play_data_response response w)));
              w = diagnose_invariant q lines_sent w
          in if reached_eof then play_handle_terminal env (pl_send play_complete_response [] w) else w)"

definition play_data_lines ::
    "'f play_env \<Rightarrow> bytes \<Rightarrow> data_request \<Rightarrow> 'f play_world \<Rightarrow> 'f play_world option" where
  "play_data_lines env payload q w = do {
     w \<leftarrow> (if repositioned q then seek_line env (requested_index q) w else Some w);
     outcome \<leftarrow> data_loop env q (unat (maximum_lines q)) w [] False 0;
     Some (finish_data env payload q outcome)
   }"

definition data_line_limit :: "bytes \<Rightarrow> u16" where
  "data_line_limit payload =
     (if length payload \<ge> 8
      then let n = be16 (payload ! 6) (payload ! 7) in if n = 0 then 255 else n
      else 255)"

definition play_handle_data ::
    "'f play_env \<Rightarrow> bytes \<Rightarrow> u64 \<Rightarrow> 'f play_world \<Rightarrow> 'f play_world option" where
  "play_handle_data env payload now w =
     (if \<not> file_open (session w) \<or> observed_identifier (controller w) \<noteq> path_identifier (session w) then
        Some (pl_send play_complete_response [] (pl_event Play_data_invalid w))
      else if length payload < data_request_size then
        Some (session_report_error data_format_error now
                (pl_send play_complete_response [] (pl_event Play_data_format_invalid w)))
      else
        let index = decode_be32 (drop 2 payload);
            c = controller w;
            w = (if length payload \<ge> 8 then w else pl_event Play_data_missing_frame_max w);
            retained_request = (retained_index c = Some index \<and> index \<noteq> current_line c);
            q = \<lparr>requested_index = index, local_before = current_line c,
                 maximum_lines = data_line_limit payload, repositioned = (index \<noteq> current_line c)\<rparr>
        in if retained_request \<and> retained_payload c \<noteq> [] then
             let w = pl_send play_data_response (retained_payload c)
                       (pl_sequence Seq_retransmit index (current_line c) 0 0 w)
             in Some (if current_line (controller w) \<noteq> local_before q then
                        pl_call (Pl_diagnose (Play_invariant Path_retransmit index (local_before q)
                          (current_line (controller w)) 0 (local_before q))) w
                      else w)
           else
             let w = (if retained_request then pl_event Play_retained_cache_invalid w
                      else if repositioned q then
                        pl_sequence Seq_mismatch index (current_line c)
                          (case retained_index c of None \<Rightarrow> 0 | Some r \<Rightarrow> r)
                          (if retained_index c = None then 0 else 1) w
                      else w);
                 memory = pl_memory env (play_calls w) 518;
                 w = pl_call (Pl_memory 518) w
             in if \<not> memory then
                  Some (session_report_error data_memory_error now
                          (pl_send play_complete_response [] (pl_event Play_data_no_memory w)))
                else play_data_lines env payload q w)"

section \<open>The exchange\<close>

definition play_handle :: "'f play_env \<Rightarrow> frame \<Rightarrow> u64 \<Rightarrow> 'f play_world \<Rightarrow> 'f play_world option" where
  "play_handle env f now w =
     (let w = (if session_generation (controller w) \<noteq> generation (session w)
               then pl_controller (\<lambda>c. reset_read_state (c\<lparr>session_generation := generation (session w)\<rparr>)) w
               else w);
          w = pl_controller (observe_identifier_bytes (fpayload f)) w;
          operation = ftype f AND 0x0F
      in if operation = 1 then Some (play_handle_start now w)
         else if operation = 4 \<or> operation = 5 then Some (play_handle_terminal env w)
         else if operation = 3 then play_handle_data env (fpayload f) now w
         else if operation = 6 then play_handle_goto env (fpayload f) now w
         else Some w)"

end
