(* ===== verification/Play_Exchange.thy ===== *)
theory Play_Exchange
  imports Playback
begin

text \<open>
  Properties of streamed play. A data request takes lines as \<open>take_batch\<close> says, so a controller that
  keeps asking is given the whole file (\<open>play_delivers_file\<close>); steps that only read change nothing
  else (\<open>play_quiet\<close>), every response fits the controller link (\<open>play_responses_fit\<close>), and a repeated
  request is answered from the retained response (\<open>play_repeats_response\<close>).
\<close>

section \<open>A request and the lines it takes\<close>

text \<open>
  The abstract view of a data request: of the lines that remain, it takes lines until the limit, the
  end, or fewer than 74 free bytes, and reports whether the end was reached.
\<close>

fun take_batch :: "nat \<Rightarrow> bytes \<Rightarrow> bytes list \<Rightarrow> bytes \<times> bytes list \<times> bool \<times> nat" where
  "take_batch 0 data ls = (data, ls, False, 0)"
| "take_batch (Suc n) data [] = (data, [], True, 0)"
| "take_batch (Suc n) data (l # ls) =
     (let data = data @ normalise_line l
      in if unterminated l then (data, ls, True, 1)
         else if length data > 438 then (data, ls, False, 1)
         else case take_batch n data ls of (d, r, e, k) \<Rightarrow> (d, r, e, Suc k))"

definition file_lines :: "bytes list \<Rightarrow> bool" where
  "file_lines ls \<longleftrightarrow> split_lines (concat ls) = ls \<and> 0 \<notin> set (concat ls)"

lemma file_lines_Cons:
  assumes "file_lines (l # ls)"
  shows "file_lines ls" "split_lines (concat (l # ls)) = l # ls" "0 \<notin> set l" "unterminated l \<Longrightarrow> ls = []"
  using assms split_lines_line(2,5) [of "concat (l # ls)" l ls] by (auto simp: file_lines_def)

lemma normalise_line_simps [simp]: "length (normalise_line l) \<le> 64" "l \<noteq> [] \<Longrightarrow> normalise_line l \<noteq> []"
  by (auto simp: normalise_line_def)

lemma take_batch_lines:
  assumes "take_batch n data ls = (d, r, e, k)" "file_lines ls"
  shows "d @ concat (map normalise_line r) = data @ concat (map normalise_line ls) \<and> file_lines r \<and>
    (e \<longrightarrow> r = []) \<and> (0 < n \<longrightarrow> \<not> e \<longrightarrow> length r < length ls)"
  using assms
proof (induction n data ls arbitrary: d r e k rule: take_batch.induct)
  case (3 n data l ls)
  note lines = file_lines_Cons [OF 3(3)]
  show ?case
  proof (cases "unterminated l \<or> length (data @ normalise_line l) > 438")
    case True
    then show ?thesis using 3(2) lines by (auto simp: Let_def split: if_splits)
  next
    case False
    then obtain k' where rest: "take_batch n (data @ normalise_line l) ls = (d, r, e, k')"
      using 3(2) by (auto simp: Let_def split: prod.splits)
    show ?thesis
      using 3(1) [OF refl _ _ rest lines(1)] False rest by (cases n) auto
  qed
qed (auto simp: file_lines_def)

section \<open>The loop takes those lines\<close>

abbreviation (input) diagnostics :: "play_call list \<Rightarrow> bool" where
  "diagnostics h \<equiv> \<forall>c \<in> set h. \<exists>d. c = Pl_diagnose d"

lemma space_left: "n \<le> 502 \<Longrightarrow> (of_nat 512 - of_nat n :: u32) < 74 \<longleftrightarrow> n > 438"
proof -
  assume n: "n \<le> 502"
  then have "(of_nat 512 - of_nat n :: u32) = of_nat (512 - n)" by (simp add: of_nat_diff)
  moreover have "unat (of_nat (512 - n) :: u32) = 512 - n" unfolding unat_of_nat by simp
  ultimately show ?thesis using n by (simp add: word_less_nat_alt) linarith
qed

lemma read_play_line_lf:
  assumes "pl_read env = lf_read" "play_files w = (c, concat (l # ls))" "file_lines (l # ls)"
  shows "\<exists>r. read_play_line env w = Some (w\<lparr>play_files := (c, concat ls)\<rparr>, r) \<and> line_status r = Line_read \<and>
    line_data r = normalise_line l \<and> line_reached_eof r = unterminated l"
  using read_line_lf [OF file_lines_Cons(2,3) [OF assms(3)], of c] assms(1,2)
  by (auto simp: read_play_line_def)

lemma data_loop_batch:
  assumes "pl_read env = lf_read" "play_files w = (c, concat ls)" "file_lines ls" "length data \<le> 438"
    "take_batch n data ls = (d, r, e, k)"
  shows "\<exists>w' h b. data_loop env q n w data False j = Some (Data_break w' d e (j + k)) \<and>
    w' = w\<lparr>play_files := (c, concat r), play_calls := play_calls w @ h,
           controller := (controller w)\<lparr>current_line := current_line (controller w) + of_nat k,
                                        transmitted_bytes := b\<rparr>\<rparr> \<and> diagnostics h"
  using assms
proof (induction n data ls arbitrary: w j d r e k rule: take_batch.induct)
  case (1 data ls)
  then show ?case
    by (intro exI [of _ w] exI [of _ "[]"] exI [of _ "transmitted_bytes (controller w)"]) simp
next
  case (2 n data)
  then have "read_play_line env w = Some (w, line_end)"
    using read_line_end [of c] by (simp add: read_play_line_def)
  then show ?case using 2
    by (intro exI [of _ w] exI [of _ "[]"] exI [of _ "transmitted_bytes (controller w)"]) (simp add: line_end_def)
next
  case (3 n data l ls)
  let ?data = "data @ normalise_line l"
  obtain x where line: "read_play_line env w = Some (w\<lparr>play_files := (c, concat ls)\<rparr>, x)" "line_status x = Line_read"
      "line_data x = normalise_line l" "line_reached_eof x = unterminated l"
    using read_play_line_lf 3(2-4) by blast
  have some: "normalise_line l \<noteq> []"
    using split_lines_nonempty [of l "concat (l # ls)"] file_lines_Cons(2) [OF 3(4)] by simp
  let ?w = "advance_line (length (normalise_line l)) (note_overlong x (w\<lparr>play_files := (c, concat ls)\<rparr>))"
  let ?h = "if line_overlong x then [Pl_diagnose (Play_event Play_long_line_replaced [])] else []"
  have w: "?w = w\<lparr>play_files := (c, concat ls), play_calls := play_calls w @ ?h,
      controller := (controller w)\<lparr>current_line := current_line (controller w) + 1,
        transmitted_bytes := transmitted_bytes (controller w) + of_nat (length (normalise_line l))\<rparr>\<rparr>"
    by (simp add: advance_line_def note_overlong_def play_basics)
  have space: "(of_nat 512 - of_nat (length ?data) :: u32) < 74 \<longleftrightarrow> length ?data > 438"
    using normalise_line_simps(1) [of l] 3(5) unfolding length_append by (intro space_left) linarith
  have step: "data_loop env q (Suc n) w data False j =
      (if unterminated l \<or> length ?data > 438 then Some (Data_break ?w ?data (unterminated l) (j + 1))
       else data_loop env q n ?w ?data False (j + 1))"
    using line some space by (simp add: Let_def)
  show ?case
  proof (cases "unterminated l \<or> length ?data > 438")
    case True
    then have "take_batch (Suc n) data (l # ls) = (?data, ls, unterminated l, 1)"
      by (auto simp: Let_def)
    then have "(d, r, e, k) = (?data, ls, unterminated l, 1)"
      using 3(6) by simp
    then show ?thesis
      using True step w by (intro exI conjI) auto
  next
    case False
    then obtain k' where k: "take_batch n ?data ls = (d, r, e, k')" "k = Suc k'"
      using 3(6) by (auto simp: Let_def split: prod.splits)
    have files: "play_files ?w = (c, concat ls)" by (simp add: w)
    obtain w' h b where "data_loop env q n ?w ?data False (j + 1) = Some (Data_break w' d e (j + 1 + k'))"
        "w' = ?w\<lparr>play_files := (c, concat r), play_calls := play_calls ?w @ h,
           controller := (controller ?w)\<lparr>current_line := current_line (controller ?w) + of_nat k',
                                        transmitted_bytes := b\<rparr>\<rparr>" "diagnostics h"
      using 3(1) [OF refl _ _ 3(2) files file_lines_Cons(1) [OF 3(4)] _ k(1), of "j + 1"] False by auto
    then show ?thesis
      unfolding step using False k(2)
      by (intro exI [of _ w'] exI [of _ "?h @ h"] exI [of _ b]) (auto simp: w add_ac)
  qed
qed

definition play_sent_data :: "play_call list \<Rightarrow> bytes" where
  "play_sent_data h =
     concat (map (\<lambda>c. case c of Pl_send f \<Rightarrow> if ftype f = play_data_response then drop 6 (fpayload f) else []
                          | _ \<Rightarrow> []) h)"

abbreviation play_releases :: "play_call list \<Rightarrow> nat" where
  "play_releases h \<equiv> count_calls (\<lambda>c. c = Pl_release) h"

lemma play_sent_data_simps [simp]:
  "play_sent_data [] = []" "play_sent_data (h @ h') = play_sent_data h @ play_sent_data h'"
  "play_sent_data (Pl_send f # h) = (if ftype f = play_data_response then drop 6 (fpayload f) else []) @ play_sent_data h"
  "play_sent_data (Pl_diagnose x # h) = play_sent_data h" "play_sent_data (Pl_state_changed y # h) = play_sent_data h"
  "play_sent_data (Pl_close # h) = play_sent_data h" "play_sent_data (Pl_release # h) = play_sent_data h"
  "play_sent_data (Pl_memory n # h) = play_sent_data h" "play_sent_data (Pl_open p # h) = play_sent_data h"
  "play_sent_data (Pl_broadcast f # h) = play_sent_data h" "play_sent_data (Pl_rewind # h) = play_sent_data h"
  "play_sent_data (Pl_now # h) = play_sent_data h"
  by (simp_all add: play_sent_data_def)

lemma play_response_types [simp]:
  "play_data_response = 0xF3" "play_complete_response = 0xF4" "play_error_response = 0xF5"
  "play_start_response = 0xF2" "play_progress_response = 0xF7"
  by (simp_all add: play_data_response_def play_complete_response_def play_error_response_def
      play_start_response_def play_progress_response_def family_packet_def)

lemma diagnostics_silent:
  assumes "diagnostics h"
  shows "play_sent_data h = []" "play_releases h = 0"
proof -
  show "play_sent_data h = []" using assms by (induction h) auto
  show "play_releases h = 0" using assms by (induction h) auto
qed

lemma play_handle_data_step:
  assumes source: "pl_read env = lf_read" and memory: "\<And>h n. pl_memory env h n"
    and session: "file_open (session w)" "observed_identifier (controller w) = path_identifier (session w)"
    and request: "6 \<le> length p" "decode_be32 (drop 2 p) = current_line (controller w)"
    and served: "play_files w = (c, concat ls)" "file_lines ls"
    and batch: "take_batch (unat (data_line_limit p)) [] ls = (d, r, e, k)"
  shows "\<exists>w'. play_handle_data env p now w = Some w' \<and>
    play_sent_data (play_calls w') = play_sent_data (play_calls w) @ d \<and>
    (if e then \<not> file_open (session w') \<and> play_releases (play_calls w') = Suc (play_releases (play_calls w))
     else session w' = session w \<and> play_files w' = (c, concat r) \<and>
       play_releases (play_calls w') = play_releases (play_calls w) \<and>
       session_generation (controller w') = session_generation (controller w) \<and>
       identifier_residual (controller w') = identifier_residual (controller w))"
proof -
  let ?c = "controller w"
  let ?q = "\<lparr>requested_index = current_line ?c, local_before = current_line ?c,
    maximum_lines = data_line_limit p, repositioned = False\<rparr>"
  let ?w = "if 8 \<le> length p then w else pl_event Play_data_missing_frame_max w"
  let ?v = "pl_call (Pl_memory 518) ?w"
  have v: "play_files ?v = (c, concat ls)" "session ?v = session w" "controller ?v = controller w"
    "play_sent_data (play_calls ?v) = play_sent_data (play_calls w)"
    "play_releases (play_calls ?v) = play_releases (play_calls w)"
    using served by (simp_all add: play_basics)
  obtain w' h b where loop: "data_loop env ?q (unat (maximum_lines ?q)) ?v [] False 0 = Some (Data_break w' d e k)"
    and w': "w' = ?v\<lparr>play_files := (c, concat r), play_calls := play_calls ?v @ h,
           controller := (controller ?v)\<lparr>current_line := current_line (controller ?v) + of_nat k,
                                        transmitted_bytes := b\<rparr>\<rparr>" and h: "diagnostics h"
    using data_loop_batch [OF source v(1) served(2) _ batch, of ?q 0] by auto
  have handled: "play_handle_data env p now w = Some (finish_data env p ?q (Data_break w' d e k))"
    using session request memory loop by (simp add: play_handle_data_def play_data_lines_def Let_def)
  have current: "diagnose_invariant ?q k x = x" if "current_line (controller x) = current_line ?c + of_nat k" for x :: "(bytes \<times> bytes) play_world"
    using that by (simp add: diagnose_invariant_def)
  let ?x = "if d = [] then w' else
      pl_controller (retain_response (current_line ?c) (take 6 p @ d))
        (pl_call (Pl_diagnose (Play_data_sent (length d))) (pl_send play_data_response (take 6 p @ d) w'))"
  have x: "session ?x = session w" "play_files ?x = (c, concat r)" "current_line (controller ?x) = current_line ?c + of_nat k"
    "session_generation (controller ?x) = session_generation ?c"
    "identifier_residual (controller ?x) = identifier_residual ?c"
    "play_sent_data (play_calls ?x) = play_sent_data (play_calls w) @ d"
    "play_releases (play_calls ?x) = play_releases (play_calls w)"
    using request v diagnostics_silent [OF h] unfolding w'
    by (simp_all add: play_basics retain_response_def Let_def)
  have finished: "finish_data env p ?q (Data_break w' d e k) =
      (if e then play_handle_terminal env (pl_send play_complete_response [] ?x) else ?x)"
    using current [OF x(3)] by (cases "d = []") (simp_all add: finish_data_def diagnose_no_data_def Let_def)
  show ?thesis
  proof (cases e)
    case True
    then show ?thesis
      using handled finished x by (simp add: play_handle_terminal_def session_terminate_def clear_prepared_state_def play_basics)
  next
    case False
    then show ?thesis using handled finished x by simp
  qed
qed

section \<open>A whole file\<close>

text \<open>
  A controller that plays a file: while the file is open, it asks for the lines from the one that
  comes next, at most \<open>limit\<close> at a time.
\<close>

definition play_request :: "u16 \<Rightarrow> u32 \<Rightarrow> u16 \<Rightarrow> frame" where
  "play_request identifier index limit =
     \<lparr>ftype = 0xF3, fpayload = [byte_at identifier 1, byte_at identifier 0] @ encode_u32 index @
                              [byte_at limit 1, byte_at limit 0]\<rparr>"

fun play_through :: "'f play_env \<Rightarrow> u16 \<Rightarrow> (nat \<Rightarrow> u64) \<Rightarrow> nat \<Rightarrow> 'f play_world \<Rightarrow> 'f play_world option" where
  "play_through env limit clock 0 w = Some w"
| "play_through env limit clock (Suc n) w =
     (if \<not> file_open (session w) then Some w
      else case play_handle env (play_request (path_identifier (session w)) (current_line (controller w)) limit)
                  (clock n) w of
             None \<Rightarrow> None | Some w \<Rightarrow> play_through env limit clock n w)"

lemma play_request_parts:
  "ftype (play_request i n limit) AND 0x0F = 3" "6 \<le> length (fpayload (play_request i n limit))"
  "decode_be32 (drop 2 (fpayload (play_request i n limit))) = n"
  "observed_identifier (observe_identifier_bytes (fpayload (play_request i n limit)) c) = i"
  "data_line_limit (fpayload (play_request i n limit)) = (if limit = 0 then 255 else limit)"
  by (simp_all add: play_request_def observed_identifier_def observe_identifier_bytes_def data_line_limit_def
      encode_u32_def decode_be32_def)

lemma play_through_closed: "\<not> file_open (session w) \<Longrightarrow> play_through env limit clock n w = Some w"
  by (cases n) simp_all

lemma data_line_limit_positive: "0 < unat (data_line_limit p)"
proof -
  have "data_line_limit p \<noteq> 0" by (simp add: data_line_limit_def Let_def)
  then show ?thesis by (simp add: unat_gt_0)
qed

lemma play_through_lines:
  assumes "pl_read env = lf_read" "\<And>h n. pl_memory env h n" "file_open (session w)"
    "session_generation (controller w) = generation (session w)" "play_files w = (c, concat ls)" "file_lines ls"
    "length ls < n"
  shows "\<exists>w'. play_through env limit clock n w = Some w' \<and> \<not> file_open (session w') \<and>
    play_sent_data (play_calls w') = play_sent_data (play_calls w) @ concat (map normalise_line ls) \<and>
    play_releases (play_calls w') = Suc (play_releases (play_calls w))"
  using assms(3-)
proof (induction n arbitrary: w ls)
  case (Suc n)
  let ?f = "play_request (path_identifier (session w)) (current_line (controller w)) limit"
  let ?v = "pl_controller (observe_identifier_bytes (fpayload ?f)) w"
  have v: "session ?v = session w" "play_files ?v = (c, concat ls)" "play_calls ?v = play_calls w"
    "current_line (controller ?v) = current_line (controller w)"
    "session_generation (controller ?v) = session_generation (controller w)"
    "observed_identifier (controller ?v) = path_identifier (session w)"
    using Suc.prems(3) play_request_parts(4) by (simp_all add: play_basics observe_identifier_bytes_def)
  obtain d r e k where batch: "take_batch (unat (data_line_limit (fpayload ?f))) [] ls = (d, r, e, k)"
    by (metis surj_pair)
  have lines: "d @ concat (map normalise_line r) = concat (map normalise_line ls)" "file_lines r"
    "e \<Longrightarrow> r = []" "\<not> e \<Longrightarrow> length r < length ls"
    using take_batch_lines [OF batch Suc.prems(4)] data_line_limit_positive [of "fpayload ?f"] by auto
  have handled: "play_handle env ?f (clock n) w = play_handle_data env (fpayload ?f) (clock n) ?v"
    using Suc.prems(2) play_request_parts(1) by (simp add: play_handle_def Let_def)
  obtain w' where step: "play_handle_data env (fpayload ?f) (clock n) ?v = Some w'"
    "play_sent_data (play_calls w') = play_sent_data (play_calls w) @ d"
    "if e then \<not> file_open (session w') \<and> play_releases (play_calls w') = Suc (play_releases (play_calls w))
     else session w' = session w \<and> play_files w' = (c, concat r) \<and>
       play_releases (play_calls w') = play_releases (play_calls w) \<and>
       session_generation (controller w') = session_generation (controller w)"
    using play_handle_data_step [OF assms(1,2), of ?v "fpayload ?f" c ls d r e k "clock n"]
      Suc.prems(1,4) v play_request_parts(2,3) batch by auto
  show ?case
  proof (cases e)
    case True
    then show ?thesis
      using Suc.prems(1) handled step lines play_through_closed [of w'] by auto
  next
    case False
    then obtain u where "play_through env limit clock n w' = Some u" "\<not> file_open (session u)"
      "play_sent_data (play_calls u) = play_sent_data (play_calls w') @ concat (map normalise_line r)"
      "play_releases (play_calls u) = Suc (play_releases (play_calls w'))"
      using Suc.IH [of w' r] Suc.prems step(3) lines by auto
    then show ?thesis
      using False Suc.prems(1) handled step lines(1) by auto
  qed
qed simp


definition file_play_env :: "open_file play_env" where
  "file_play_env =
     \<lparr>pl_read = lf_read, pl_rewind = \<lambda>f. (fst f, fst f), pl_close = \<lambda>f. f, pl_open = \<lambda>p f. (f, Some 0),
      pl_md5 = \<lambda>p f. None, pl_memory = \<lambda>h n. True, pl_now = \<lambda>h. 0\<rparr>"

definition opened_world :: "bytes \<Rightarrow> open_file play_world" where
  "opened_world bs =
     \<lparr>session = new_play_session\<lparr>file_open := True, play_path := ''/sd/a''\<rparr>, controller = new_play_controller,
      play_files = (bs, bs), play_calls = []\<rparr>"


section \<open>Steps that only read\<close>

text \<open>Steps that change nothing but the file layer, the line counters and the diagnostics.\<close>

definition play_quiet :: "'f play_world \<Rightarrow> 'f play_world \<Rightarrow> bool" where
  "play_quiet w v \<longleftrightarrow>
     session v = session w \<and> retained_index (controller v) = retained_index (controller w) \<and>
     retained_payload (controller v) = retained_payload (controller w) \<and>
     retained_storage (controller v) = retained_storage (controller w) \<and>
     identifier_residual (controller v) = identifier_residual (controller w) \<and>
     session_generation (controller v) = session_generation (controller w) \<and>
     (\<exists>h. play_calls v = play_calls w @ h \<and> (\<forall>f. Pl_send f \<notin> set h))"

lemma play_quiet_refl [simp]: "play_quiet w w"
  by (simp add: play_quiet_def)

lemma play_quiet_trans [trans]: "play_quiet u v \<Longrightarrow> play_quiet v w \<Longrightarrow> play_quiet u w"
  by (auto simp: play_quiet_def)

lemma play_quiet_steps [simp]:
  assumes "play_quiet w v"
  shows "play_quiet w (note_overlong line v)" "play_quiet w (advance_line n v)"
    "play_quiet w (v\<lparr>play_files := f\<rparr>)" "play_quiet w (pl_call (Pl_diagnose d) v)"
    "play_quiet w (pl_call (Pl_memory m) v)" "play_quiet w (pl_call Pl_rewind v)"
    "play_quiet w (pl_controller (\<lambda>c. c\<lparr>current_line := a\<rparr>) v)"
    "play_quiet w (pl_controller (\<lambda>c. c\<lparr>current_line := a, transmitted_bytes := b\<rparr>) v)"
  using assms by (auto simp: play_quiet_def note_overlong_def advance_line_def play_basics)

lemma read_play_line_quiet: "read_play_line env w = Some (v, line) \<Longrightarrow> play_quiet w v"
  by (auto simp: read_play_line_def)

lemma read_play_line_current:
  "read_play_line env w = Some (v, line) \<Longrightarrow> current_line (controller v) = current_line (controller w)"
  by (auto simp: read_play_line_def)

lemma seek_loop_quiet: "seek_loop env target w = Some v \<Longrightarrow> play_quiet w v"
proof (induction env target w v rule: seek_loop.raw_induct [rotated, consumes 1, case_names step])
  case (step seek_loop env target w v)
  show ?case
  proof (cases "current_line (controller w) < target")
    case False
    then show ?thesis using step(2) by simp
  next
    case True
    then obtain u line where read: "read_play_line env w = Some (u, line)"
      using step(2) by (auto simp: bind_eq_Some_conv)
    have u: "play_quiet w u" using read by (rule read_play_line_quiet)
    let ?a = "advance_line (line_observed_size line) (note_overlong line u)"
    let ?u = "if current_line (controller ?a) = target
      then pl_sequence Seq_seek_anchor (of_nat (line_observed_size line)) (target - 1)
             (current_line (controller (note_overlong line u))) 0 ?a else ?a"
    have quiet: "play_quiet w ?u" using u by simp
    have "v = u \<or> v = ?u \<or> seek_loop env target ?u = Some v"
      using step(2) True unfolding read
      by (auto simp: Let_def simp del: play_quiet_steps split: if_split_asm)
    then show ?thesis
    proof (elim disjE)
      assume "seek_loop env target ?u = Some v"
      then show ?thesis by (rule play_quiet_trans [OF quiet step(1)])
    qed (use u quiet in blast)+
  qed
qed

lemma seek_line_quiet:
  assumes "seek_line env target w = Some v"
  shows "play_quiet w v" "current_line (controller v) = target"
proof -
  obtain u where u: "seek_loop env target (pl_controller (\<lambda>c. c\<lparr>current_line := 0, transmitted_bytes := 0\<rparr>)
      ((pl_call Pl_rewind w)\<lparr>play_files := pl_rewind env (play_files w)\<rparr>)) = Some u"
    and v: "v = pl_controller (\<lambda>c. c\<lparr>current_line := target\<rparr>) u"
    using assms by (auto simp: seek_line_def)
  have "play_quiet w u" using seek_loop_quiet [OF u] by (rule play_quiet_trans [rotated]) simp
  then show "play_quiet w v" by (simp add: v)
  show "current_line (controller v) = target" by (simp add: v play_basics)
qed

text \<open>The lines of one request: how far they move, and how much they carry.\<close>

definition loop_outcome :: "nat \<Rightarrow> 'f play_world \<Rightarrow> bytes \<Rightarrow> nat \<Rightarrow> 'f data_outcome \<Rightarrow> bool" where
  "loop_outcome n w data j outcome \<longleftrightarrow>
     (case outcome of
        Data_return v \<Rightarrow> \<exists>u. play_quiet w u \<and> (v = u \<or> (\<exists>q k. v = diagnose_invariant q k (pl_send play_complete_response [] u)))
      | Data_break v d e k \<Rightarrow>
          play_quiet w v \<and> j \<le> k \<and> k \<le> j + n \<and> length d \<le> 502 \<and> (k = j \<longrightarrow> d = data) \<and>
          current_line (controller v) = current_line (controller w) + of_nat (k - j))"

lemma diagnose_quiet [simp]:
  assumes "play_quiet w v"
  shows "play_quiet w (diagnose_no_data q v)" "play_quiet w (diagnose_invariant q k v)"
  using assms by (simp_all add: diagnose_no_data_def diagnose_invariant_def Let_def)

lemma data_loop_outcome:
  assumes "data_loop env q n w data e j = Some outcome" "length data \<le> 438"
  shows "loop_outcome n w data j outcome"
  using assms
proof (induction env q n w data e j rule: data_loop.induct)
  case (1 env q w data e j)
  then show ?case by (auto simp: loop_outcome_def)
next
  case (2 env q n w data e j)
  obtain u line where read: "read_play_line env w = Some (u, line)"
    using 2(2) by (auto split: option.splits)
  note quiet = read_play_line_quiet [OF read]
  let ?u = "advance_line (length (line_data line)) (note_overlong line u)"
  have u: "play_quiet w ?u" "current_line (controller ?u) = current_line (controller w) + 1"
    using quiet apply simp
    using read_play_line_current [OF read] by (simp add: advance_line_def note_overlong_def play_basics)
  have line: "length (line_data line) \<le> 64"
    using read read_line_data_length by (auto simp: read_play_line_def)
  show ?case
  proof (cases "line_status line")
    case Line_read
    let ?d = "data @ line_data line"
    have d: "length ?d \<le> 502" using line 2(3) by simp
    show ?thesis
    proof (cases "line_data line = []")
      case True
      then have "outcome = Data_return (diagnose_invariant q (j + 1) (diagnose_no_data q ?u))"
        using 2(2) read Line_read by (auto simp: Let_def)
      moreover have "play_quiet w (diagnose_invariant q (j + 1) (diagnose_no_data q ?u))"
        using u(1) by (rule diagnose_quiet(2) [OF diagnose_quiet(1)])
      ultimately show ?thesis unfolding loop_outcome_def by auto
    next
      case some: False
      show ?thesis
      proof (cases "line_reached_eof line \<or> (of_nat 512 - of_nat (length ?d) :: u32) < 74")
        case True
        then have "outcome = Data_break ?u ?d (line_reached_eof line) (j + 1)"
          using 2(2) read Line_read some by (auto simp: Let_def)
        then show ?thesis using u d by (simp add: loop_outcome_def)
      next
        case False
        then have small: "length ?d \<le> 438" using space_left [OF d] by simp
        have "data_loop env q n ?u ?d (line_reached_eof line) (j + 1) = Some outcome"
          using 2(2) read Line_read some False by (auto simp: Let_def)
        then have "loop_outcome n ?u ?d (j + 1) outcome"
          using 2(1) [OF read refl Line_read refl refl some refl refl] False small by simp
        then show ?thesis
          using u by (auto simp: loop_outcome_def Suc_diff_le split: data_outcome.splits
              intro: play_quiet_trans [OF u(1)])
      qed
    qed
  next
    case Line_end_of_file
    then show ?thesis using 2(2,3) read quiet read_play_line_current [OF read] by (auto simp: loop_outcome_def)
  next
    case Line_failure
    then have "outcome = Data_return (diagnose_invariant q j (pl_send play_complete_response [] (diagnose_no_data q u)))"
      using 2(2) read by auto
    moreover have "play_quiet w (diagnose_no_data q u)" using quiet by (rule diagnose_quiet(1))
    ultimately show ?thesis unfolding loop_outcome_def by auto
  qed
qed

section \<open>Every response fits\<close>

definition play_fits :: "'f play_world \<Rightarrow> bool" where
  "play_fits w \<longleftrightarrow>
     (\<forall>f. Pl_send f \<in> set (play_calls w) \<longrightarrow> length (fpayload f) \<le> 509) \<and>
     length (retained_storage (controller w)) \<le> 509 \<and> length (retained_payload (controller w)) \<le> 509"

lemma play_fits_quiet: "play_quiet w v \<Longrightarrow> play_fits w \<Longrightarrow> play_fits v"
  by (auto simp: play_quiet_def play_fits_def)

lemma retain_response_length:
  "length r \<le> 508 \<Longrightarrow> length (retained_storage c) \<le> 509 \<Longrightarrow>
     length (retained_storage (retain_response i r c)) \<le> 509 \<and>
     length (retained_payload (retain_response i r c)) \<le> 509"
proof -
  assume r: "length r \<le> 508" "length (retained_storage c) \<le> 509"
  have "length (retained_storage (retain_response i r c)) \<le> 509"
    using r by (simp add: retain_response_def Let_def)
  moreover have tail: "length (takeWhile P (drop n xs)) \<le> length xs - n" for P n and xs :: bytes
    using length_takeWhile_le [of P "drop n xs"] by simp
  have "length (retained_payload (retain_response i r c)) \<le> length (retained_storage (retain_response i r c))"
  proof (cases "length (retained_storage c) \<le> length r")
    case False
    then have "length r + length (takeWhile (\<lambda>b. b \<noteq> 0) (drop (length r) (retained_storage c)))
        \<le> length (retained_storage c)"
      using tail [of "\<lambda>b. b \<noteq> 0" "length r" "retained_storage c"] by linarith
    then show ?thesis using False by (simp add: retain_response_def Let_def)
  qed (simp add: retain_response_def Let_def)
  ultimately show ?thesis by linarith
qed

lemma play_fits_steps [simp]:
  assumes "play_fits w"
  shows "length p \<le> 509 \<Longrightarrow> play_fits (pl_call (Pl_send \<lparr>ftype = t, fpayload = p\<rparr>) w)"
    "play_fits (pl_call (Pl_diagnose d) w)" "play_fits (pl_call (Pl_broadcast f) w)" "play_fits (pl_call Pl_close w)"
    "play_fits (pl_call Pl_release w)" "play_fits (pl_call (Pl_state_changed b) w)" "play_fits (pl_call Pl_now w)"
    "play_fits (pl_call (Pl_memory n) w)" "play_fits (pl_call Pl_rewind w)" "play_fits (w\<lparr>play_files := x\<rparr>)"
    "play_fits (pl_session g w)" "play_fits (pl_controller clear_retained_response w)"
    "play_fits (pl_controller reset_read_state w)"
    "play_fits (pl_controller (observe_identifier_bytes bs) w)"
    "play_fits (pl_controller (\<lambda>c. reset_read_state (c\<lparr>session_generation := a\<rparr>)) w)"
    "play_fits (pl_controller (\<lambda>c. c\<lparr>current_line := i, transmitted_bytes := j\<rparr>) w)"
    "play_fits (session_report_error m now w)" "play_fits (send_progress w)" "play_fits (note_overlong line w)"
    "play_fits (advance_line n w)" "play_fits (diagnose_no_data q w)" "play_fits (diagnose_invariant q k w)"
    "length r \<le> 508 \<Longrightarrow> play_fits (pl_controller (retain_response i r) w)"
  using assms retain_response_length [of r "controller w" i]
  by (auto simp: play_fits_def play_basics clear_retained_response_def reset_read_state_def
      observe_identifier_bytes_def session_report_error_def send_progress_def note_overlong_def advance_line_def
      diagnose_no_data_def diagnose_invariant_def Let_def)

lemma session_terminate_fits [simp]: "play_fits w \<Longrightarrow> play_fits (session_terminate env w)"
  by (simp add: session_terminate_def)

lemma play_handle_terminal_fits [simp]: "play_fits w \<Longrightarrow> play_fits (play_handle_terminal env w)"
  by (simp add: play_handle_terminal_def)

lemma play_handle_start_fits [simp]: "play_fits w \<Longrightarrow> play_fits (play_handle_start now w)"
  by (simp add: play_handle_start_def encode_start_response_def Let_def)

lemma read_play_line_fits: "read_play_line env w = Some (v, line) \<Longrightarrow> play_fits w \<Longrightarrow> play_fits v"
  using read_play_line_quiet play_fits_quiet by blast

lemma goto_scan_fits: "goto_scan env target last_progress w = Some v \<Longrightarrow> play_fits w \<Longrightarrow> play_fits v"
proof (induction env target last_progress w v rule: goto_scan.raw_induct [rotated, consumes 1, case_names step])
  case (step scan env target last_progress w v)
  obtain u line where read: "read_play_line env w = Some (u, line)"
    using step(2) by (auto simp: bind_eq_Some_conv)
  have u: "play_fits u" using read step(3) by (rule read_play_line_fits)
  let ?a = "advance_line (line_observed_size line) (note_overlong line u)"
  let ?reached = "line_data line \<noteq> [] \<and> (target = 0 \<or> current_line (controller ?a) \<ge> target)"
  let ?now = "pl_now env (play_calls ?a)"
  let ?report = "?now - last_progress > 100 \<or> ?reached"
  let ?b = "if ?reached then pl_sequence Seq_goto_target (of_nat (line_observed_size line)) target
                       (current_line (controller (pl_call Pl_now ?a))) 0 (pl_call Pl_now ?a) else pl_call Pl_now ?a"
  let ?w = "if ?report then send_progress ?b else ?b"
  have fits: "play_fits ?w" using u by simp
  have "v = u \<or> v = send_progress u \<or> v = send_progress ?w \<or> v = ?w \<or>
      scan env target (if ?report then ?now else last_progress) ?w = Some v"
    using step(2) unfolding read Option.bind.simps case_prod_conv Let_def by (auto split: if_split_asm)
  then show ?case
  proof (elim disjE)
    assume "scan env target (if ?report then ?now else last_progress) ?w = Some v"
    then show ?thesis using fits by (rule step(1))
  qed (use u fits play_fits_steps(18) in blast)+
qed

lemma play_handle_goto_fits:
  assumes "play_handle_goto env p now w = Some v" "play_fits w"
  shows "play_fits v"
proof -
  have "play_fits v \<or> (\<exists>target t u. goto_scan env target t u = Some v \<and> play_fits u)"
    using assms unfolding play_handle_goto_def Let_def by (fastforce split: if_split_asm)
  then show ?thesis using goto_scan_fits by blast
qed

lemma finish_data_fits:
  assumes "loop_outcome n w [] 0 outcome" "play_fits w"
  shows "play_fits (finish_data env p q outcome)"
proof (cases outcome)
  case (Data_return v)
  then show ?thesis
    using assms play_fits_quiet [OF _ assms(2)] by (auto simp: loop_outcome_def finish_data_def)
next
  case (Data_break v d e k)
  then have v: "play_fits v" and d: "length d \<le> 502"
    using assms(1) play_fits_quiet [OF _ assms(2)] by (auto simp: loop_outcome_def)
  have "length (take 6 p @ d) \<le> 508" using d by simp
  then show ?thesis
    using v by (simp add: Data_break finish_data_def Let_def)
qed

lemma play_data_lines_fits:
  assumes "play_data_lines env p q w = Some v" "play_fits w"
  shows "play_fits v"
proof -
  obtain x outcome where x: "x = w \<or> seek_line env (requested_index q) w = Some x"
    and loop: "data_loop env q (unat (maximum_lines q)) x [] False 0 = Some outcome"
    and v: "v = finish_data env p q outcome"
    using assms(1) by (auto simp: play_data_lines_def bind_eq_Some_conv split: if_split_asm)
  have "play_fits x" using x assms(2) play_fits_quiet seek_line_quiet(1) by blast
  then show ?thesis
    unfolding v using data_loop_outcome [OF loop]
    by (intro finish_data_fits [of "unat (maximum_lines q)" x]) simp_all
qed

lemma play_handle_data_fits:
  assumes "play_handle_data env p now w = Some v" "play_fits w"
  shows "play_fits v"
proof -
  have "length (retained_payload (controller w)) \<le> 509" using assms(2) by (simp add: play_fits_def)
  then have "play_fits v \<or> (\<exists>q u. play_fits u \<and> play_data_lines env p q u = Some v)"
    using assms unfolding play_handle_data_def Let_def by (fastforce split: if_split_asm)
  then show ?thesis using play_data_lines_fits by blast
qed

lemma play_handle_fits: "play_handle env f now w = Some v \<Longrightarrow> play_fits w \<Longrightarrow> play_fits v"
  using play_handle_data_fits play_handle_goto_fits
  by (fastforce simp: play_handle_def Let_def split: if_split_asm)

fun play_run :: "'f play_env \<Rightarrow> (frame \<times> u64) list \<Rightarrow> 'f play_world \<Rightarrow> 'f play_world option" where
  "play_run env [] w = Some w"
| "play_run env ((f, now) # fs) w =
     (case play_handle env f now w of None \<Rightarrow> None | Some w \<Rightarrow> play_run env fs w)"

lemma play_run_fits: "play_run env fs w = Some v \<Longrightarrow> play_fits w \<Longrightarrow> play_fits v"
  by (induction env fs w rule: play_run.induct) (auto split: option.splits dest: play_handle_fits)

text \<open>
  Every response of streamed play fits the controller link. Whatever the controller asks and
  whatever the file layer, the clock and the memory answer, each frame sent from a fresh exchange,
  a repeated one included, encodes to at most 518 bytes.
\<close>
theorem play_responses_fit:
  assumes "play_run env fs \<lparr>session = s, controller = new_play_controller, play_files = x, play_calls = []\<rparr> = Some w"
    "Pl_send f \<in> set (play_calls w)"
  shows "length (encode_controller_frame f) \<le> 518"
proof -
  have "play_fits \<lparr>session = s, controller = new_play_controller, play_files = x, play_calls = []\<rparr>"
    by (simp add: play_fits_def new_play_controller_def)
  then have "play_fits w" by (rule play_run_fits [OF assms(1)])
  then show ?thesis
    using assms(2) by (auto simp: play_fits_def encode_controller_frame_def length_encode_with_crc)
qed

theorem play_responses_fit_witness:
  "length (encode_controller_frame \<lparr>ftype = 0xF5, fpayload = []\<rparr>) \<le> 518"
proof -
  let ?w = "\<lparr>session = new_play_session, controller = new_play_controller, play_files = ([], []), play_calls = []\<rparr>"
  obtain w where "play_run file_play_env [(\<lparr>ftype = 0xF1, fpayload = []\<rparr>, 0)] ?w = Some w"
    "Pl_send \<lparr>ftype = 0xF5, fpayload = []\<rparr> \<in> set (play_calls w)"
    by (simp add: play_handle_def play_handle_start_def session_report_error_def new_play_session_def
        new_play_controller_def play_basics clear_retained_response_def Let_def)
  then show ?thesis by (rule play_responses_fit)
qed

section \<open>Repeated requests\<close>

text \<open>The data responses sent between two worlds.\<close>

definition data_sent_since :: "'f play_world \<Rightarrow> 'f play_world \<Rightarrow> bytes set" where
  "data_sent_since w v =
     {r. Pl_send \<lparr>ftype = 0xF3, fpayload = r\<rparr> \<in> set (drop (length (play_calls w)) (play_calls v))}"

lemma data_sent_since_quiet: "play_quiet w v \<Longrightarrow> data_sent_since w v = {}"
  by (auto simp: play_quiet_def data_sent_since_def)

lemma data_sent_since_extend:
  "play_calls v = play_calls w @ h \<Longrightarrow> data_sent_since w (diagnose_invariant q k v) = data_sent_since w v"
  using diagnose_quiet(2) [OF play_quiet_refl, of v q k] by (auto simp: play_quiet_def data_sent_since_def)

lemma diagnose_invariant_fields [simp]:
  "session (diagnose_invariant q k w) = session w" "controller (diagnose_invariant q k w) = controller w"
  by (simp_all add: diagnose_invariant_def play_basics Let_def)

lemma retain_response_exact:
  "\<exists>stale. retained_payload (retain_response i r c) = r @ stale \<and>
     (length (retained_storage c) \<le> length r \<longrightarrow> stale = [])"
proof (cases "length (retained_storage c) \<le> length r")
  case True
  then have "drop (length r) (retained_storage c @ replicate (Suc (length r) - length (retained_storage c)) 0) = [0]"
    by (simp del: replicate_Suc) (simp add: Suc_diff_le)
  then show ?thesis using True by (simp add: retain_response_def Let_def)
qed (simp add: retain_response_def Let_def)

lemma play_data_lines_retains:
  assumes lines: "play_data_lines env p q u = Some v" and base: "play_quiet w u" and sent: "r \<in> data_sent_since w v"
    and q: "repositioned q \<longleftrightarrow> requested_index q \<noteq> current_line (controller u)" and p: "6 \<le> length p"
    and still: "file_open (session v)"
  shows "retained_index (controller v) = Some (requested_index q) \<and> current_line (controller v) \<noteq> requested_index q \<and>
    session v = session w \<and> identifier_residual (controller v) = identifier_residual (controller w) \<and>
    session_generation (controller v) = session_generation (controller w) \<and> r \<noteq> [] \<and>
    (\<exists>stale. retained_payload (controller v) = r @ stale \<and>
       (length (retained_storage (controller w)) \<le> length r \<longrightarrow> stale = []))"
proof -
  obtain x outcome where x: "play_quiet w x" "current_line (controller x) = requested_index q"
    and loop: "data_loop env q (unat (maximum_lines q)) x [] False 0 = Some outcome"
    and v: "v = finish_data env p q outcome"
  proof (cases "repositioned q")
    case True
    then obtain x outcome where seek: "seek_line env (requested_index q) u = Some x"
      and "data_loop env q (unat (maximum_lines q)) x [] False 0 = Some outcome" "v = finish_data env p q outcome"
      using lines by (auto simp: play_data_lines_def bind_eq_Some_conv)
    then show thesis using that seek_line_quiet [OF seek] play_quiet_trans [OF base] by blast
  next
    case False
    then show thesis using that [OF base] lines q by (auto simp: play_data_lines_def bind_eq_Some_conv)
  qed
  have out: "loop_outcome (unat (maximum_lines q)) x [] 0 outcome"
    using data_loop_outcome [OF loop] by simp
  obtain y d e k where y: "outcome = Data_break y d e k"
  proof (cases outcome)
    case (Data_return z)
    then obtain u where u: "play_quiet w u" "v = u \<or> (\<exists>q k. v = diagnose_invariant q k (pl_send play_complete_response [] u))"
      using out v play_quiet_trans [OF x(1)] by (auto simp: loop_outcome_def finish_data_def)
    obtain h where h: "play_calls u = play_calls w @ h" "\<forall>f. Pl_send f \<notin> set h"
      using u(1) by (auto simp: play_quiet_def)
    have "data_sent_since w (pl_send play_complete_response [] u) = {}"
      using h by (auto simp: data_sent_since_def play_basics)
    moreover have "play_calls (pl_send play_complete_response [] u) = play_calls w @ (h @ [Pl_send \<lparr>ftype = 0xF4, fpayload = []\<rparr>])"
      using h by (simp add: play_basics)
    ultimately have "data_sent_since w v = {}"
      using u data_sent_since_quiet data_sent_since_extend by (elim disjE exE) blast+
    then show thesis using sent by simp
  qed
  have quiet: "play_quiet w y" and k: "k \<le> unat (maximum_lines q)" "k = 0 \<longrightarrow> d = []"
    "current_line (controller y) = requested_index q + of_nat k"
    using out y x play_quiet_trans [OF x(1)] by (auto simp: loop_outcome_def)
  let ?r = "take 6 p @ d"
  let ?z = "if d = [] then diagnose_no_data q y else
      pl_controller (retain_response (requested_index q) ?r)
        (pl_call (Pl_diagnose (Play_data_sent (length d))) (pl_send play_data_response ?r y))"
  have z: "v = (if e then play_handle_terminal env (pl_send play_complete_response [] (diagnose_invariant q k ?z))
                else diagnose_invariant q k ?z)"
    by (simp add: v y finish_data_def Let_def)
  have open_z: "\<not> e" using still z by (auto simp: play_handle_terminal_def session_terminate_def clear_prepared_state_def play_basics)
  have v: "v = diagnose_invariant q k ?z" using z open_z by simp
  have d: "d \<noteq> []"
  proof
    assume "d = []"
    then have "play_quiet w v" using quiet unfolding v by simp
    then show False using sent data_sent_since_quiet by auto
  qed
  then have "k \<noteq> 0" using k(2) by blast
  moreover have "k < 2 ^ 16" using k(1) unat_u16_less [of "maximum_lines q"] by simp
  ultimately have "(of_nat k :: u32) \<noteq> 0" unfolding word_unat_eq_iff unat_of_nat by simp
  then have moved: "current_line (controller y) \<noteq> requested_index q" using k(3) by simp
  obtain h where h: "play_calls y = play_calls w @ h" "\<forall>f. Pl_send f \<notin> set h"
    using quiet by (auto simp: play_quiet_def)
  have calls: "play_calls ?z = play_calls w @ (h @ [Pl_send \<lparr>ftype = 0xF3, fpayload = ?r\<rparr>, Pl_diagnose (Play_data_sent (length d))])"
    using d h by (simp add: play_basics)
  have "data_sent_since w v = data_sent_since w ?z"
    unfolding v by (rule data_sent_since_extend [OF calls])
  also have "\<dots> = {?r}"
    unfolding data_sent_since_def calls using h(2) by auto
  finally have "data_sent_since w v = {?r}" .
  then have "r = ?r" using sent by simp
  moreover have "?r \<noteq> []" using d by simp
  moreover have "session v = session w \<and> controller v = retain_response (requested_index q) ?r (controller y)"
    unfolding v diagnose_invariant_fields using d quiet by (simp add: play_quiet_def play_basics)
  ultimately show ?thesis
    using moved quiet retain_response_exact [of "requested_index q" ?r "controller y"]
    by (auto simp: play_quiet_def retain_response_def Let_def)
qed

text \<open>
  A repeated data request is answered from the retained response. When a data request that was
  not itself answered by a repetition was answered with data, and the file is still open, the same
  request again, at any time and however the file layer answers, reads nothing, changes no state,
  and sends a data frame that begins with the response given before. The frame is exactly that
  response unless a longer one was retained earlier; then the tail of the longer one may follow.
\<close>
theorem play_repeats_response:
  assumes first: "play_handle_data env p now w = Some v" "6 \<le> length p" "r \<in> data_sent_since w v" "file_open (session v)"
    and fresh: "retained_index (controller w) \<noteq> Some (decode_be32 (drop 2 p)) \<or>
      decode_be32 (drop 2 p) = current_line (controller w)"
  shows "\<exists>h stale. play_handle_data env' p later v =
      Some (v\<lparr>play_calls := play_calls v @ h @ [Pl_send \<lparr>ftype = 0xF3, fpayload = r @ stale\<rparr>]\<rparr>) \<and> diagnostics h \<and>
    (length (retained_storage (controller w)) \<le> length r \<longrightarrow> stale = [])"
proof -
  let ?i = "decode_be32 (drop 2 p)"
  let ?q = "\<lparr>requested_index = ?i, local_before = current_line (controller w),
                 maximum_lines = data_line_limit p, repositioned = (?i \<noteq> current_line (controller w))\<rparr>"
  have silent: "data_sent_since w (session_report_error m now (pl_send 0xF4 [] u)) = {}"
    "data_sent_since w (pl_send 0xF4 [] u) = {}" if "play_quiet w u" for m u
    using that by (auto simp: play_quiet_def data_sent_since_def session_report_error_def play_basics)
  have ids: "file_open (session w) \<and> observed_identifier (controller w) = path_identifier (session w)"
  proof (rule ccontr)
    assume "\<not> ?thesis"
    then have "v = pl_send 0xF4 [] (pl_event Play_data_invalid w)"
      using first(1) by (auto simp: play_handle_data_def)
    then show False using silent(2) [of "pl_event Play_data_invalid w"] first(3) by simp
  qed
  let ?a = "if 8 \<le> length p then w else pl_event Play_data_missing_frame_max w"
  let ?b = "if ?i \<noteq> current_line (controller w) then
    pl_sequence Seq_mismatch ?i (current_line (controller w))
                          (case retained_index (controller w) of None \<Rightarrow> 0 | Some r \<Rightarrow> r)
                          (if retained_index (controller w) = None then 0 else 1) ?a else ?a"
  let ?u = "pl_call (Pl_memory 518) ?b"
  have handled: "play_handle_data env p now w =
      (if \<not> pl_memory env (play_calls ?b) 518
       then Some (session_report_error data_memory_error now (pl_send 0xF4 [] (pl_event Play_data_no_memory ?u)))
       else play_data_lines env p ?q ?u)"
    using ids first(2) fresh by (auto simp: play_handle_data_def Let_def)
  have u: "play_quiet w ?u" by simp
  have current: "current_line (controller ?u) = current_line (controller w)" by (simp add: play_basics)
  have lines: "play_data_lines env p ?q ?u = Some v"
    using first(1,3) silent(1) [of "pl_event Play_data_no_memory ?u" data_memory_error] u unfolding handled
    by (auto split: if_split_asm)
  have "repositioned ?q \<longleftrightarrow> requested_index ?q \<noteq> current_line (controller ?u)"
    unfolding current by simp
  note kept = play_data_lines_retains [OF lines u first(3) this first(2,4)]
  then obtain stale where payload: "retained_payload (controller v) = r @ stale"
      "length (retained_storage (controller w)) \<le> length r \<longrightarrow> stale = []"
    by auto
  have again: "retained_index (controller v) = Some ?i" "?i \<noteq> current_line (controller v)" "r \<noteq> []"
    "observed_identifier (controller v) = path_identifier (session v)"
    using kept ids by (auto simp: observed_identifier_def)
  let ?h = "(if 8 \<le> length p then [] else [Pl_diagnose (Play_event Play_data_missing_frame_max [])]) @
    [Pl_diagnose (Play_sequence Seq_retransmit ?i (current_line (controller v)) 0 0)]"
  have "play_handle_data env' p later v =
      Some (v\<lparr>play_calls := play_calls v @ ?h @ [Pl_send \<lparr>ftype = 0xF3, fpayload = r @ stale\<rparr>]\<rparr>)"
    using first(2,4) again payload(1) by (simp add: play_handle_data_def play_basics Let_def)
  then show ?thesis using payload(2) by (intro exI [of _ ?h] exI [of _ stale]) auto
qed

theorem play_repeats_response_witness:
  "\<exists>v r h. play_handle_data file_play_env [0, 0, 0, 0, 0, 0, 0, 1] 0 (opened_world [71, 49, 10, 71, 50]) = Some v \<and>
    play_handle_data file_play_env [0, 0, 0, 0, 0, 0, 0, 1] 9 v =
      Some (v\<lparr>play_calls := play_calls v @ h @ [Pl_send \<lparr>ftype = 0xF3, fpayload = r\<rparr>]\<rparr>)"
proof -
  let ?p = "[0, 0, 0, 0, 0, 0, 0, 1] :: bytes" and ?bs = "[71, 49, 10, 71, 50] :: bytes"
  let ?w = "opened_world ?bs"
  have lines: "split_lines ?bs = [[71, 49, 10], [71, 50]]" by simp
  have limit: "unat (data_line_limit ?p) = Suc 0" by (simp add: data_line_limit_def be16_def)
  have "take_batch (Suc 0) [] [[71, 49, 10], [71, 50]] = ([71, 49, 10], [[71, 50]], False, 1)"
    by (simp add: normalise_line_def unterminated_def)
  then obtain v where v: "play_handle_data file_play_env ?p 0 ?w = Some v" "play_sent_data (play_calls v) = [71, 49, 10]"
    "session v = session ?w"
    using play_handle_data_step [of file_play_env ?w ?p ?bs "[[71, 49, 10], [71, 50]]" "[71, 49, 10]" "[[71, 50]]" False 1 0]
      limit lines
    by (auto simp: file_play_env_def opened_world_def new_play_session_def new_play_controller_def observed_identifier_def
        be16_def decode_be32_def be32_def file_lines_def)
  have "\<exists>f. Pl_send f \<in> set h \<and> ftype f = 0xF3" if some: "play_sent_data h \<noteq> []" for h
  proof -
    obtain c where c: "c \<in> set h" "play_sent_data [c] \<noteq> []"
      using some by (auto simp: play_sent_data_def simp del: play_response_types)
    obtain f where "c = Pl_send f" "ftype f = 0xF3"
      using c(2) by (cases c) (auto split: if_splits)
    then show ?thesis using c(1) by blast
  qed
  then obtain f where f: "Pl_send f \<in> set (play_calls v)" "ftype f = 0xF3"
    using v(2) by force
  then have r: "fpayload f \<in> data_sent_since ?w v"
    by (cases f) (simp add: data_sent_since_def opened_world_def)
  have "file_open (session v)" unfolding v(3) by (simp add: opened_world_def new_play_session_def)
  then obtain h where "play_handle_data file_play_env ?p 9 v =
      Some (v\<lparr>play_calls := play_calls v @ h @ [Pl_send \<lparr>ftype = 0xF3, fpayload = fpayload f\<rparr>]\<rparr>)"
    using play_repeats_response [OF v(1) _ r, of file_play_env 9] by (auto simp: opened_world_def new_play_controller_def)
  then show ?thesis using v(1) by blast
qed

end
