(* ===== verification/Spec2Isabelle.thy ===== *)
theory Spec2Isabelle
  imports Canopen_Service Host_Output Usb_Link Update_Service Web_Upload Configuration_Store Filesystem_Commands Blufi Network_Policy Access_Point Station Provisioning Camera Live Recording Controller_Loop Storage Can_Exercise Diagnostic_Log Web_Pages File_Upload File_Download Controller_Transfer Play_Exchange
begin

text \<open>
  Verification library of the mainboard firmware of the Z1 CNC machine (\<open>src/\<close>): an ESP32-S3 that
  links host programs (USB, TCP), an SD card, a CAN bus and the motion controller (a UART).

  \<^bold>\<open>The program.\<close> \<open>components/core\<close> holds the wire formats and data models, \<open>components/application\<close>
  the services, each over a port class that \<open>main\<close> implements with ESP-IDF. A host frame is decoded
  from the byte stream, routed by packet type and ownership to a local service, to the transfer
  service or to the controller, and answered through the output scheduler. The controller asks in
  turn for firmware, configuration, factory data and the lines of the file it plays.

  \<^bold>\<open>Theories.\<close>
  \<^item> \<open>Firmware_Prelude\<close>: word widths, octets and characters, big-endian numbers, searches; \<open>Number_Text\<close>: numbers
    as printed text; \<open>Deadline\<close>: periodic deadlines; \<open>Ports\<close>: histories of port calls and their environments.
  \<^item> \<open>Crc\<close> (\<open>core/protocol/crc.cpp\<close>): CRC-16 and CRC-32, the controller's modified table.
  \<^item> \<open>Frame\<close> (\<open>core/protocol/frame.cpp\<close>): encoders and the stream decoder with its three policies.
    \<open>push\<close> is one call with new bytes, \<open>decode_turn\<close> one turn of its loop.
  \<^item> \<open>Object_Store\<close>, \<open>Canopen_Dictionary\<close>, \<open>Canopen_Node\<close>, \<open>Canopen_Sdo\<close>, \<open>Canopen_Pdo\<close>,
    \<open>Canopen_Service\<close> (\<open>core/can\<close>, \<open>application/can\<close>, parts of \<open>main/can\<close>): the object dictionary over a
    store of objects (a locale, interpreted on the dictionary), node and heartbeat, SDO server,
    client and mailbox, process data, and the service that composes them, with its reachable states.
    \<open>Can_Exercise\<close> (\<open>application/runtime/m942_exercise.cpp\<close>) is the exercise of a remote node.
  \<^item> \<open>Text_Protocol\<close>, \<open>Transfer_Paths\<close> (\<open>core/protocol/text.cpp\<close>, \<open>core/filesystem\<close>): escapes, path
    normalisation, command recognition, start commands, sidecar files and digests.
  \<^item> \<open>Routing\<close> (\<open>application/runtime/router.cpp\<close>, \<open>ownership.cpp\<close>, \<open>tcp_frame_dispatcher.cpp\<close>):
    ownership of transfers and playback, the routing decision, admission, dispatch.
  \<^item> \<open>Bounded_Fifo\<close>, \<open>Paced_Fifo\<close>: the contracts of a bounded queue and of one that spaces its output, as
    locales; \<open>Host_Transport\<close> (\<open>tcp_transmit_queue.cpp\<close>, \<open>tcp_client_session.cpp\<close>, \<open>tcp_frame_sender.cpp\<close>,
    \<open>local_command_queue.cpp\<close>), and \<open>Controller_Link\<close> interpret them on the queues of the program.
  \<^item> \<open>Host_Output\<close> (\<open>host_output_scheduler.cpp\<close>): admission, purging and selection of output;
    \<open>Usb_Link\<close> (\<open>application/usb\<close>): descriptors, staging, the transmit queue and its driver.
  \<^item> \<open>File_Upload\<close>, \<open>File_Download\<close> (\<open>application/storage\<close>): the two transfer state machines;
    \<open>Filesystem_Commands\<close>: the commands and listings of the hosts; \<open>Storage\<close>: admission of transfers, the life of the
    card's mount, retention; \<open>Diagnostic_Log\<close>: capture of log records, the log file and its mirror.
  \<^item> \<open>Controller_Transfer\<close> (\<open>application/controller\<close>): inbox, firmware, configuration, factory data;
    \<open>Controller_Link\<close>: the alarm, output, queries and snapshots; \<open>Controller_Loop\<close>
    (\<open>main/controller/controller_command_loop.cpp\<close>): the task that composes them, one iteration at a time.
  \<^item> \<open>Play_Lines\<close>, \<open>Playback\<close>, \<open>Play_Exchange\<close> (\<open>application/playback\<close>): the line reader, the play
    session and the exchange with the controller, and their properties.
  \<^item> \<open>Update_Package\<close>, \<open>Update_Service\<close> (\<open>core/update\<close>, \<open>application/update\<close>): packages, the check of images, the
    update task with its status and phases; \<open>Web_Upload\<close> (\<open>core/web\<close>, \<open>application/update\<close>): uploads over HTTP.
  \<^item> \<open>Configuration_Text\<close>, \<open>Configuration_Document\<close>, \<open>Configuration_Store\<close> (\<open>core/configuration\<close>,
    \<open>application/configuration\<close>): lines and keys, the text document and its updates, the live view, the file on the
    card and the commands; \<open>Json_Input\<close>: the parser of request bodies.
  \<^item> \<open>Network_Policy\<close>, \<open>Access_Point\<close>, \<open>Station\<close> (\<open>core/network\<close>, \<open>application/connectivity\<close>): names, channels,
    scans, discovery, the access point and the station with their commands; \<open>Blufi\<close>, \<open>Provisioning\<close>
    (\<open>application/provisioning\<close>): wire format, sessions and product operations of provisioning over BLE.
  \<^item> \<open>Camera\<close>, \<open>Avi\<close>, \<open>Preview\<close>, \<open>Live\<close>, \<open>Recording\<close> (\<open>application/camera\<close>, \<open>core/media\<close>,
    \<open>application/playback\<close>, \<open>application/web\<close>, parts of \<open>main/media\<close>): settings and resolution, recorded segments and
    their reader, previews, the arbiter of live video, recording to the card; \<open>Web_Pages\<close>: static files and reports.
  \<^item> \<open>Runtime_Services\<close> (\<open>application/runtime\<close>, \<open>main/runtime\<close>): serial number, clock, counters, the key-value store.

  \<^bold>\<open>Conventions.\<close> Unsigned integers keep their width as words, so wrap-around is the code's; a class is
  a record with a function per method; an optional result is an \<open>option\<close>. A port is the history of
  its calls; what it answers is an environment, a function of the history and the call, so nothing
  is assumed of hosts, files, memory or the clock except where a theorem says so. Log records are
  kept as their kind and numbers, not as text.

  \<^bold>\<open>What the lemmas show.\<close> Streams: encoding and decoding are inverse, cutting a stream changes nothing,
  decoded frames were on the wire, the buffer is bounded; what TCP, USB and the controller's UART send is the accepted
  frames, whole and in order. CANopen: an accepted write is read back and disturbs nothing, a refused one changes
  nothing; every history keeps dictionary, node and bus consistent. Hosts: ownership is exclusive, every frame is routed
  as policy allows, accepted output is delivered in order within the queue bounds. Files: whatever happens, an upload
  writes the blocks in order and ends once; a download and a firmware transfer deliver exactly the stored bytes; a
  played file reaches the controller line by line, which refines \<open>take_batch\<close>. Updates: only a checked, completely
  written image is booted; what the build tool packs is what is installed; a package with one changed byte is refused.
  Configuration: the last value of each key is read back, and the file on the card is old, absent or new at every
  moment. Media: a preview delivers every frame once and in order, one live stream runs at a time, a recording is
  segments within their bound. Clocks and counters, with wrap-around where the code has it.

  \<^bold>\<open>Where the code departs from its documentation.\<close> Theorems state these behaviours as they are: a played file read
  in blocks loses lines (\<open>target_chunks_lose_lines\<close>), a write to a remote node is reported as failed though
  acknowledged, a refused request jams the SDO mailbox, a first process-data object can starve the others, the image
  check refuses padded images, keys written in upper case are not found again by readers that expect lower case, a
  failed rename loses the configuration, an acknowledged pause does not stop a preview, the target never opens the
  security gate of provisioning, a card pulled early is never unmounted, records waiting at its removal are discarded,
  a static file ends its response twice.

  \<^bold>\<open>Loops and bounds.\<close> The decode and shedding loops are functions with a measure. Sending on a socket, reading lines,
  sending a file and the exercise of a remote node may never end, when the socket, the source or the clock makes no
  progress: there the model is a partial function whose \<open>None\<close> is divergence, and the theorems that a call returns say
  when it does. Silence ends an upload after at most 51 rounds of 501 polls. No fuel is used.

  \<^bold>\<open>Not modelled.\<close> The adapters of \<open>main\<close> (drivers, tasks, sockets, HTTP) are I/O behind the ports, except those that
  decide something: the CAN transmitter and service, the block source of played files, the controller task, the key-value
  store, the HTTP handlers of uploads, previews and live video, the card's port and task. Locks, task scheduling and
  memory exhaustion are not represented, other than by the interleavings and answers the definitions take as arguments.
  Cryptography, the Bluetooth, USB, HTTP and file system libraries are third-party, and environments here. The wording of
  log records and the mock devices of test builds are left out. \<open>BlufiConnectionSession\<close> is modelled as the portable code has it; the
  target does not link it.
\<close>

end
